(* ===== verification/Js_Prelude.thy ===== *)
theory Js_Prelude
  imports Main "HOL-Library.Word" "HOL-Library.Sublist" "HOL-Library.AList"
begin

text \<open>
  The vocabulary every component of the gateway and of the web client shares: ECMAScript
  strings (lists of UTF-16 code units) with the string methods the code calls, \<open>unknown\<close>
  values as the code inspects them, and the generic list facts the components use.
  The named collections gather the rules that component proofs pass to \<open>simp\<close>.
\<close>

named_theorems js_str_simps \<open>evaluation of string literals and string methods\<close>
named_theorems step_simps \<open>one-step equations of the state machines\<close>

section \<open>Strings\<close>

type_synonym cu = "16 word"
type_synonym jstr = "cu list"

text \<open>An ASCII literal of the source. Other literals are written as lists of code units.\<close>

definition js :: "string \<Rightarrow> jstr" where
  "js s = map of_char s"

lemma of_char_cu_inject: "(of_char c :: cu) = of_char d \<longleftrightarrow> c = d"
proof -
  have "of_char c < (256::nat)" "of_char d < (256::nat)" by simp_all
  moreover have "unat (of_char c :: cu) = of_char c" for c
  proof -
    have "(of_char c :: cu) = of_nat (of_char c)" by (simp add: of_nat_of_char)
    moreover have "of_char c < (2::nat) ^ LENGTH(16)"
      by (rule less_le_trans [of _ 256]) simp_all
    ultimately show ?thesis by (simp add: unat_of_nat)
  qed
  ultimately show ?thesis
    by (metis of_char_eq_iff)
qed

lemma js_inject [simp, js_str_simps]: "js s = js t \<longleftrightarrow> s = t"
  unfolding js_def by (rule inj_map_eq_map) (auto intro: injI simp: of_char_cu_inject)

lemma js_Nil [simp, js_str_simps]: "js [] = []"
  by (simp add: js_def)

lemma js_eq_Nil [simp]: "js s = [] \<longleftrightarrow> s = []" "[] = js s \<longleftrightarrow> s = []"
  by (auto simp: js_def)

lemma length_js [simp, js_str_simps]: "length (js s) = length s"
  by (simp add: js_def)

lemma js_append: "js (s @ t) = js s @ js t"
  by (simp add: js_def)

lemma prefix_js [simp, js_str_simps]: "prefix (js s) (js t) \<longleftrightarrow> prefix s t"
proof
  assume "prefix (js s) (js t)"
  then have "take (length s) (js t) = js s"
    by (metis length_js append_eq_conv_conj prefix_def)
  then have "js (take (length s) t) = js s" by (simp add: js_def take_map)
  then show "prefix s t" by (metis js_inject take_is_prefix)
qed (auto simp: prefix_def js_append)

definition starts_with :: "jstr \<Rightarrow> jstr \<Rightarrow> bool" where
  "starts_with s p = prefix p s"

definition ends_with :: "jstr \<Rightarrow> jstr \<Rightarrow> bool" where
  "ends_with s p = suffix p s"

definition str_includes :: "jstr \<Rightarrow> jstr \<Rightarrow> bool" where
  "str_includes s t = sublist t s"

text \<open>\<open>s.slice(i, j)\<close> for \<open>0 \<le> i\<close> and \<open>0 \<le> j\<close>.\<close>

definition slice :: "nat \<Rightarrow> nat \<Rightarrow> 'a list \<Rightarrow> 'a list" where
  "slice i j s = take (j - i) (drop i s)"

lemma length_slice_le: "length (slice i j s) \<le> j - i"
  by (simp add: slice_def)

lemma length_slice: "j \<le> length s \<Longrightarrow> length (slice i j s) = j - i"
  by (simp add: slice_def)

lemma slice_full: "length s \<le> n \<Longrightarrow> slice 0 n s = s"
  by (simp add: slice_def)

text \<open>
  \<open>toLowerCase\<close>: the ASCII letters, and the two other code units whose lower-case form
  contains an ASCII letter (U+0130 and U+212A). Any other code unit is left as it is: the
  lower-case form of a letter beyond these contains no ASCII character, and the code only
  compares the result with ASCII words or keeps its ASCII letters.
\<close>

definition lower_unit :: "cu \<Rightarrow> jstr" where
  "lower_unit c =
     (if 65 \<le> c \<and> c \<le> 90 then [c + 32]
      else if c = 0x130 then [0x69, 0x307]
      else if c = 0x212A then [0x6B]
      else [c])"

definition to_lower :: "jstr \<Rightarrow> jstr" where
  "to_lower s = concat (map lower_unit s)"

text \<open>\<open>replace(/[^a-z]/g, '')\<close>.\<close>

definition only_az :: "jstr \<Rightarrow> jstr" where
  "only_az s = filter (\<lambda>c. 97 \<le> c \<and> c \<le> 122) s"

text \<open>\<open>trim\<close>: ECMAScript white space and line terminators.\<close>

definition is_ws :: "cu \<Rightarrow> bool" where
  "is_ws c \<longleftrightarrow> (9 \<le> c \<and> c \<le> 13) \<or> c = 32 \<or> c = 160 \<or> c = 0x1680
     \<or> (0x2000 \<le> c \<and> c \<le> 0x200A) \<or> c = 0x2028 \<or> c = 0x2029 \<or> c = 0x202F
     \<or> c = 0x205F \<or> c = 0x3000 \<or> c = 0xFEFF"

definition trim :: "jstr \<Rightarrow> jstr" where
  "trim s = rev (dropWhile is_ws (rev (dropWhile is_ws s)))"

lemma trim_Nil [simp]: "trim [] = []"
  by (simp add: trim_def)

lemma trim_eq_Nil: "trim s = [] \<longleftrightarrow> (\<forall>c \<in> set s. is_ws c)"
proof -
  have "(\<forall>c \<in> set (dropWhile is_ws s). is_ws c) \<longleftrightarrow> (\<forall>c \<in> set s. is_ws c)"
    by (metis Un_iff set_append set_takeWhileD set_dropWhileD takeWhile_dropWhile_id)
  then show ?thesis by (simp add: trim_def)
qed

text \<open>\<open>split(d)\<close> on a one-unit separator, and \<open>join(d)\<close>.\<close>

fun split_on :: "'a \<Rightarrow> 'a list \<Rightarrow> 'a list list" where
  "split_on d [] = [[]]"
| "split_on d (c # cs) =
     (if c = d then [] # split_on d cs
      else (case split_on d cs of [] \<Rightarrow> [[c]] | x # xs \<Rightarrow> (c # x) # xs))"

fun join :: "'a list \<Rightarrow> 'a list list \<Rightarrow> 'a list" where
  "join d [] = []"
| "join d [x] = x"
| "join d (x # y # ys) = x @ d @ join d (y # ys)"

lemma split_on_not_Nil [simp]: "split_on d s \<noteq> []"
  by (induction s) (auto split: list.splits)

lemma join_Cons: "join d (x # xs) = (if xs = [] then x else x @ d @ join d xs)"
  by (cases xs) auto

lemma join_split_on [simp]: "join [d] (split_on d s) = s"
proof (induction s)
  case Nil
  then show ?case by simp
next
  case (Cons c cs)
  then show ?case
    by (cases "split_on d cs") (auto simp: join_Cons split: list.splits)
qed

lemma split_on_parts: "p \<in> set (split_on d s) \<Longrightarrow> d \<notin> set p"
proof (induction s arbitrary: p)
  case Nil
  then show ?case by simp
next
  case (Cons c cs)
  then show ?case by (cases "split_on d cs") (auto split: if_splits)
qed

text \<open>A separated string begins with another one, by whole parts.\<close>

lemma split_on_append: "split_on d (a @ d # b) = split_on d a @ split_on d b"
  by (induction a) (auto split: list.splits)

lemma join_append: "xs \<noteq> [] \<Longrightarrow> ys \<noteq> [] \<Longrightarrow> join d (xs @ ys) = join d xs @ d @ join d ys"
  by (induction xs) (auto simp: join_Cons)

lemma segment_prefix: "path = p \<or> prefix (p @ [d]) path \<longleftrightarrow> prefix (split_on d p) (split_on d path)"
proof
  show "path = p \<or> prefix (p @ [d]) path \<Longrightarrow> prefix (split_on d p) (split_on d path)"
    by (auto simp: prefix_def split_on_append)
next
  assume "prefix (split_on d p) (split_on d path)"
  then obtain ys where "split_on d path = split_on d p @ ys" by (auto simp: prefix_def)
  then have "path = join [d] (split_on d p @ ys)" by (metis join_split_on)
  then show "path = p \<or> prefix (p @ [d]) path" by (cases "ys = []") (simp_all add: join_append)
qed

lemma join_Nil_concat: "join [] xs = concat xs"
  by (induction "[] :: 'a list" xs rule: join.induct) auto

text \<open>Decimal rendering of an integer (\<open>String(n)\<close>, template literals).\<close>

fun nat_dec :: "nat \<Rightarrow> jstr" where
  "nat_dec n = (if n < 10 then [of_nat (48 + n)] else nat_dec (n div 10) @ [of_nat (48 + n mod 10)])"

declare nat_dec.simps [simp del]

definition int_dec :: "int \<Rightarrow> jstr" where
  "int_dec i = (if i < 0 then js ''-'' @ nat_dec (nat (- i)) else nat_dec (nat i))"

lemma nat_dec_not_Nil [simp]: "nat_dec n \<noteq> []"
  by (subst nat_dec.simps) simp

section \<open>Values of type unknown\<close>

text \<open>
  What \<open>JSON.parse\<close> produces and the code inspects. Numbers are the integers the code
  handles (codes, counts, timestamps); an object is its own enumerable properties in order.
\<close>

datatype jval =
    JUndef
  | JNull
  | JBool bool
  | JNum int
  | JStr jstr
  | JArr "jval list"
  | JObj "(jstr \<times> jval) list"

type_synonym jobj = "(jstr \<times> jval) list"

text \<open>\<open>o[k]\<close> on an object, \<open>v == null\<close>, and \<open>typeof v === 'string'\<close>.\<close>

definition field_of :: "jobj \<Rightarrow> jstr \<Rightarrow> jval" where
  "field_of ob k = (case map_of ob k of Some v \<Rightarrow> v | None \<Rightarrow> JUndef)"

definition nullish :: "jval \<Rightarrow> bool" where
  "nullish v \<longleftrightarrow> v = JUndef \<or> v = JNull"

fun as_string :: "jval \<Rightarrow> jstr option" where
  "as_string (JStr s) = Some s"
| "as_string _ = None"

fun as_object :: "jval \<Rightarrow> jobj" where
  "as_object (JObj ob) = ob"
| "as_object _ = []"

text \<open>\<open>x ?? y\<close> on options: the first that is present.\<close>

fun orelse :: "'a option \<Rightarrow> 'a option \<Rightarrow> 'a option" where
  "orelse (Some x) _ = Some x"
| "orelse None y = y"

definition default_to :: "'a \<Rightarrow> 'a option \<Rightarrow> 'a" where
  "default_to d m = (case m of Some x \<Rightarrow> x | None \<Rightarrow> d)"

lemma default_to_simps [simp]: "default_to d None = d" "default_to d (Some x) = x"
  by (simp_all add: default_to_def)

text \<open>\<open>x != null && x.length > 0\<close>: an optional string that is present and not empty.\<close>

definition nonempty :: "'a list option \<Rightarrow> 'a list option" where
  "nonempty m = (case m of Some (x # xs) \<Rightarrow> Some (x # xs) | _ \<Rightarrow> None)"

lemma nonempty_simps [simp]:
  "nonempty None = None" "nonempty (Some []) = None" "nonempty (Some (x # xs)) = Some (x # xs)"
  by (simp_all add: nonempty_def)

lemma nonempty_eq_Some: "nonempty m = Some s \<longleftrightarrow> m = Some s \<and> s \<noteq> []"
  by (auto simp: nonempty_def split: option.splits list.splits)

section \<open>Lists\<close>

lemma filter_filter_id: "(\<And>x. x \<in> set xs \<Longrightarrow> P x) \<Longrightarrow> filter P xs = xs"
  by (induction xs) auto

lemma distinct_filter_map: "distinct (map f xs) \<Longrightarrow> distinct (map f (filter P xs))"
  by (induction xs) auto

end
