(* ===== verification/Js_Map.thy ===== *)
theory Js_Map
  imports Js_Prelude
begin

text \<open>
  The ECMAScript \<open>Map\<close> and \<open>Set\<close> the components keep their state in. A \<open>Map\<close> is an
  association list in insertion order: \<open>set\<close> replaces the value of a present key in place
  and appends an absent one, \<open>delete\<close> removes the entry. A \<open>Set\<close> is the list of its
  members in insertion order. The interface \<open>keyed_store\<close> is what the client components
  rely on; \<open>js_map\<close> interprets it.
\<close>

section \<open>The interface of a keyed store\<close>

locale keyed_store =
  fixes empty :: "'m"
    and get :: "'m \<Rightarrow> 'k \<Rightarrow> 'v option"
    and put :: "'k \<Rightarrow> 'v \<Rightarrow> 'm \<Rightarrow> 'm"
    and del :: "'k \<Rightarrow> 'm \<Rightarrow> 'm"
    and keys :: "'m \<Rightarrow> 'k list"
    and inv :: "'m \<Rightarrow> bool"
  assumes inv_empty: "inv empty"
    and inv_put: "inv m \<Longrightarrow> inv (put k v m)"
    and inv_del: "inv m \<Longrightarrow> inv (del k m)"
    and keys_empty: "keys empty = []"
    and get_put: "inv m \<Longrightarrow> get (put k v m) k' = (if k' = k then Some v else get m k')"
    and get_del: "inv m \<Longrightarrow> get (del k m) k' = (if k' = k then None else get m k')"
    and get_None: "inv m \<Longrightarrow> get m k = None \<longleftrightarrow> k \<notin> set (keys m)"
    and keys_distinct: "inv m \<Longrightarrow> distinct (keys m)"
    and keys_put: "inv m \<Longrightarrow> keys (put k v m) = (if k \<in> set (keys m) then keys m else keys m @ [k])"
    and keys_del: "inv m \<Longrightarrow> keys (del k m) = filter (\<lambda>x. x \<noteq> k) (keys m)"
begin

text \<open>Writing a list of entries: the last write of a key wins, and exactly the written keys are added.\<close>

primrec put_all :: "('k \<times> 'v) list \<Rightarrow> 'm \<Rightarrow> 'm" where
  "put_all [] m = m"
| "put_all (e # es) m = put_all es (put (fst e) (snd e) m)"

lemma inv_put_all: "inv m \<Longrightarrow> inv (put_all es m)"
  by (induction es arbitrary: m) (auto intro: inv_put)

lemma get_put_all:
  "inv m \<Longrightarrow> get (put_all es m) k = (case map_of (rev es) k of Some v \<Rightarrow> Some v | None \<Rightarrow> get m k)"
  by (induction es arbitrary: m)
     (auto simp: get_put inv_put map_add_def split: option.splits)

lemma set_keys_put_all: "inv m \<Longrightarrow> set (keys (put_all es m)) = set (keys m) \<union> fst ` set es"
  by (induction es arbitrary: m) (auto simp: keys_put inv_put)

text \<open>The bounded table of the registry: a new key at capacity evicts the oldest entry first.\<close>

definition put_bounded :: "nat \<Rightarrow> 'k \<Rightarrow> 'v \<Rightarrow> 'm \<Rightarrow> 'm" where
  "put_bounded cap k v m =
     (let m' = (if k \<notin> set (keys m) \<and> cap \<le> length (keys m)
                then (case keys m of [] \<Rightarrow> m | o1 # _ \<Rightarrow> del o1 m) else m)
      in put k v m')"

lemma inv_put_bounded: "inv m \<Longrightarrow> inv (put_bounded cap k v m)"
  by (auto simp: put_bounded_def Let_def inv_put inv_del split: list.splits)

lemma get_put_bounded: "inv m \<Longrightarrow> get (put_bounded cap k v m) k = Some v"
  by (auto simp: put_bounded_def Let_def get_put inv_del split: list.splits)

lemma length_keys_del_head:
  "inv m \<Longrightarrow> keys m = x # xs \<Longrightarrow> keys (del x m) = xs"
  using keys_distinct [of m] by (auto simp: keys_del intro!: filter_filter_id)

lemma length_put_bounded:
  assumes "inv m" "length (keys m) \<le> cap" "0 < cap"
  shows "length (keys (put_bounded cap k v m)) \<le> cap"
proof (cases "k \<in> set (keys m)")
  case True
  then show ?thesis using assms by (simp add: put_bounded_def keys_put)
next
  case new: False
  show ?thesis
  proof (cases "cap \<le> length (keys m)")
    case True
    then obtain x xs where ks: "keys m = x # xs" using assms by (cases "keys m") auto
    have "keys (del x m) = xs" by (rule length_keys_del_head [OF assms(1) ks])
    with new True ks assms show ?thesis
      by (auto simp: put_bounded_def Let_def keys_put inv_del)
  next
    case False
    with new assms show ?thesis by (simp add: put_bounded_def keys_put)
  qed
qed

lemma keys_put_bounded:
  assumes "inv m"
  shows "keys (put_bounded cap k v m) =
    (if k \<in> set (keys m) then keys m else if cap \<le> length (keys m) then tl (keys m) @ [k] else keys m @ [k])"
proof (cases "keys m")
  case Nil
  with assms show ?thesis by (simp add: put_bounded_def keys_put)
next
  case (Cons x xs)
  have "keys (del x m) = xs" by (rule length_keys_del_head [OF assms Cons])
  with Cons assms show ?thesis by (auto simp: put_bounded_def Let_def keys_put inv_del)
qed

lemma get_put_bounded_other:
  "inv m \<Longrightarrow> x \<noteq> k \<Longrightarrow> x \<noteq> hd (keys m) \<or> length (keys m) < cap \<Longrightarrow> get (put_bounded cap k v m) x = get m x"
  by (auto simp: put_bounded_def Let_def get_put get_del inv_del split: list.splits)

text \<open>
  A key survives as many later writes as fit into the table behind it, because only the
  oldest entry is evicted.
\<close>

primrec put_all_bounded :: "nat \<Rightarrow> ('k \<times> 'v) list \<Rightarrow> 'm \<Rightarrow> 'm" where
  "put_all_bounded cap [] m = m"
| "put_all_bounded cap (e # es) m = put_all_bounded cap es (put_bounded cap (fst e) (snd e) m)"

lemma put_all_bounded_length:
  "inv m \<Longrightarrow> length (keys m) \<le> cap \<Longrightarrow> 0 < cap \<Longrightarrow> length (keys (put_all_bounded cap es m)) \<le> cap"
  by (induction es arbitrary: m) (simp_all add: inv_put_bounded length_put_bounded)

lemma put_all_bounded_keeps:
  assumes "inv m" "keys m = pre @ x # post" "length post + length es < cap" "x \<notin> fst ` set es"
  shows "get (put_all_bounded cap es m) x = get m x"
  using assms
proof (induction es arbitrary: m pre post)
  case Nil
  then show ?case by simp
next
  case (Cons e es)
  let ?m = "put_bounded cap (fst e) (snd e) m"
  have inv: "inv ?m" using Cons.prems(1) by (rule inv_put_bounded)
  have head: "x \<noteq> hd (keys m) \<or> length (keys m) < cap"
    using Cons.prems(2,3) keys_distinct [OF Cons.prems(1)] by (cases pre) auto
  have same: "get ?m x = get m x"
    using get_put_bounded_other [OF Cons.prems(1) _ head] Cons.prems(4) by auto
  obtain pre' post' where k: "keys ?m = pre' @ x # post'" "length post' \<le> Suc (length post)"
  proof (cases "fst e \<in> set (keys m)")
    case True
    with Cons.prems(1,2) show ?thesis by (intro that [of pre post]) (simp_all add: keys_put_bounded)
  next
    case new: False
    show ?thesis
    proof (cases "cap \<le> length (keys m)")
      case True
      with head Cons.prems(2) obtain y ys where "pre = y # ys" by (cases pre) auto
      with True new Cons.prems(1,2) show ?thesis
        by (intro that [of ys "post @ [fst e]"]) (simp_all add: keys_put_bounded)
    next
      case False
      with new Cons.prems(1,2) show ?thesis
        by (intro that [of pre "post @ [fst e]"]) (simp_all add: keys_put_bounded)
    qed
  qed
  have "get (put_all_bounded cap es ?m) x = get ?m x"
    using Cons.IH [OF inv k(1)] k(2) Cons.prems(3,4) by simp
  with same show ?case by simp
qed

end

section \<open>Map\<close>

type_synonym ('k, 'v) jmap = "('k \<times> 'v) list"

abbreviation jm_empty :: "('k, 'v) jmap" where "jm_empty \<equiv> []"

definition jm_get :: "('k, 'v) jmap \<Rightarrow> 'k \<Rightarrow> 'v option" where
  "jm_get m k = map_of m k"

definition jm_has :: "('k, 'v) jmap \<Rightarrow> 'k \<Rightarrow> bool" where
  "jm_has m k \<longleftrightarrow> jm_get m k \<noteq> None"

definition jm_set :: "'k \<Rightarrow> 'v \<Rightarrow> ('k, 'v) jmap \<Rightarrow> ('k, 'v) jmap" where
  "jm_set k v m = AList.update k v m"

definition jm_delete :: "'k \<Rightarrow> ('k, 'v) jmap \<Rightarrow> ('k, 'v) jmap" where
  "jm_delete k m = AList.delete k m"

definition jm_keys :: "('k, 'v) jmap \<Rightarrow> 'k list" where
  "jm_keys m = map fst m"

definition jm_inv :: "('k, 'v) jmap \<Rightarrow> bool" where
  "jm_inv m \<longleftrightarrow> distinct (map fst m)"

lemma jm_keys_delete: "jm_keys (jm_delete k m) = filter (\<lambda>x. x \<noteq> k) (jm_keys m)"
  by (induction m) (auto simp: jm_keys_def jm_delete_def AList.delete_eq)

lemma jm_keys_set: "jm_keys (jm_set k v m) = (if k \<in> set (jm_keys m) then jm_keys m else jm_keys m @ [k])"
  by (induction m) (auto simp: jm_keys_def jm_set_def)

interpretation js_map: keyed_store jm_empty jm_get jm_set jm_delete jm_keys jm_inv
proof (unfold_locales, goal_cases)
  case (2 m k v)
  then show ?case by (simp add: jm_inv_def jm_set_def distinct_update)
next
  case (3 m k)
  then show ?case by (simp add: jm_inv_def jm_delete_def distinct_delete)
next
  case (5 m k v k')
  then show ?case by (simp add: jm_get_def jm_set_def update_conv)
next
  case (6 m k k')
  then show ?case by (simp add: jm_get_def jm_delete_def delete_conv)
next
  case (7 m k)
  then show ?case by (simp add: jm_get_def jm_keys_def map_of_eq_None_iff)
qed (auto simp: jm_inv_def jm_keys_def jm_keys_set [unfolded jm_keys_def]
       jm_keys_delete [unfolded jm_keys_def])

lemmas jm_laws = js_map.get_put js_map.get_del js_map.inv_put js_map.inv_del js_map.inv_empty
  js_map.keys_put js_map.keys_del

text \<open>The lookup laws hold for any association list, sorted or not.\<close>

lemma jm_get_set [simp]: "jm_get (jm_set k v m) k' = (if k' = k then Some v else jm_get m k')"
  by (simp add: jm_get_def jm_set_def update_conv)

lemma jm_get_delete [simp]: "jm_get (jm_delete k m) k' = (if k' = k then None else jm_get m k')"
  by (simp add: jm_get_def jm_delete_def delete_conv)

lemma jm_get_Nil [simp]: "jm_get [] k = None"
  by (simp add: jm_get_def)

lemma jm_inv_Nil [simp]: "jm_inv []"
  by (simp add: jm_inv_def)

lemma jm_get_SomeD: "jm_get m k = Some v \<Longrightarrow> (k, v) \<in> set m"
  by (simp add: jm_get_def map_of_SomeD)

lemma jm_get_in: "jm_inv m \<Longrightarrow> (k, v) \<in> set m \<Longrightarrow> jm_get m k = Some v"
  by (simp add: jm_get_def jm_inv_def map_of_is_SomeI)

section \<open>Set\<close>

type_synonym 'k jset = "'k list"

definition js_add :: "'k \<Rightarrow> 'k jset \<Rightarrow> 'k jset" where
  "js_add k s = (if k \<in> set s then s else s @ [k])"

definition js_remove :: "'k \<Rightarrow> 'k jset \<Rightarrow> 'k jset" where
  "js_remove k s = filter (\<lambda>x. x \<noteq> k) s"

lemma set_js_add [simp]: "set (js_add k s) = insert k (set s)"
  by (auto simp: js_add_def)

lemma set_js_remove [simp]: "set (js_remove k s) = set s - {k}"
  by (auto simp: js_remove_def)

lemma distinct_js_add [simp]: "distinct s \<Longrightarrow> distinct (js_add k s)"
  by (simp add: js_add_def)

lemma distinct_js_remove [simp]: "distinct s \<Longrightarrow> distinct (js_remove k s)"
  by (simp add: js_remove_def)

end
