(* ===== verification/Redis_Kv.thy ===== *)
theory Redis_Kv
  imports Js_Map
begin

text \<open>
  The Redis server is outside the repository, so it is a parameter: a record of the commands
  the gateway issues on keys with a lifetime, over an arbitrary server state. The locale
  \<open>redis_kv\<close> states the documented behaviour of these commands. \<open>mem_ops\<close> is a concrete
  server (a table of values with absolute expiry and a clock, as the in-memory double of
  gateway/tests/botOwnership.lease.test.ts) that satisfies it, used by the witnesses.
\<close>

record 'r kv_ops =
  kv_get :: "'r \<Rightarrow> jstr \<Rightarrow> jstr option"              \<comment> \<open>\<open>GET k\<close>\<close>
  kv_set_px :: "jstr \<Rightarrow> jstr \<Rightarrow> nat \<Rightarrow> 'r \<Rightarrow> 'r"     \<comment> \<open>\<open>SET k v PX ms\<close>; \<open>EX s\<close> is \<open>PX (1000 * s)\<close>\<close>
  kv_pexpire :: "jstr \<Rightarrow> nat \<Rightarrow> 'r \<Rightarrow> 'r"            \<comment> \<open>\<open>PEXPIRE k ms\<close>\<close>
  kv_del :: "jstr \<Rightarrow> 'r \<Rightarrow> 'r"                       \<comment> \<open>\<open>DEL k\<close>\<close>
  kv_sadd :: "jstr \<Rightarrow> jstr \<Rightarrow> 'r \<Rightarrow> 'r"              \<comment> \<open>\<open>SADD k member\<close>\<close>
  kv_smembers :: "'r \<Rightarrow> jstr \<Rightarrow> jstr list"            \<comment> \<open>\<open>SMEMBERS k\<close>\<close>
  kv_pttl :: "'r \<Rightarrow> jstr \<Rightarrow> nat option"               \<comment> \<open>\<open>PTTL k\<close>: the remaining lifetime\<close>
  kv_tick :: "nat \<Rightarrow> 'r \<Rightarrow> 'r"                       \<comment> \<open>the passage of time at the server\<close>
  kv_down :: "'r \<Rightarrow> jstr \<Rightarrow> bool"                     \<comment> \<open>a command on the key is rejected (connection lost)\<close>

locale redis_kv =
  fixes R :: "'r kv_ops"
  assumes get_set: "0 < t \<Longrightarrow> kv_get R (kv_set_px R k v t r) k' = (if k' = k then Some v else kv_get R r k')"
    and pttl_set: "0 < t \<Longrightarrow> kv_pttl R (kv_set_px R k v t r) k' = (if k' = k then Some t else kv_pttl R r k')"
    and get_pexpire: "0 < t \<Longrightarrow> kv_get R (kv_pexpire R k t r) k' = kv_get R r k'"
    and pttl_pexpire: "0 < t \<Longrightarrow> kv_pttl R (kv_pexpire R k t r) k' =
          (if k' = k \<and> kv_get R r k \<noteq> None then Some t else kv_pttl R r k')"
    and get_del: "kv_get R (kv_del R k r) k' = (if k' = k then None else kv_get R r k')"
    and get_sadd: "kv_get R (kv_sadd R k x r) k' = kv_get R r k'"
    and pttl_sadd: "kv_pttl R (kv_sadd R k x r) k' = kv_pttl R r k'"
    and get_tick: "kv_get R (kv_tick R d r) k =
          (case kv_pttl R r k of Some t \<Rightarrow> if d < t then kv_get R r k else None
                               | None \<Rightarrow> kv_get R r k)"
    and pttl_tick: "kv_pttl R (kv_tick R d r) k =
          (case kv_pttl R r k of Some t \<Rightarrow> if d < t then Some (t - d) else None | None \<Rightarrow> None)"
begin

lemmas kv_laws = get_set pttl_set get_pexpire pttl_pexpire get_del get_sadd pttl_sadd

lemma get_tick_live: "kv_pttl R r k = Some t \<Longrightarrow> d < t \<Longrightarrow> kv_get R (kv_tick R d r) k = kv_get R r k"
  by (simp add: get_tick)

lemma get_tick_expired: "kv_pttl R r k = Some t \<Longrightarrow> t \<le> d \<Longrightarrow> kv_get R (kv_tick R d r) k = None"
  by (simp add: get_tick)

lemma get_tick_cases: "kv_get R (kv_tick R d r) k = kv_get R r k \<or> kv_get R (kv_tick R d r) k = None"
  by (auto simp: get_tick split: option.splits)

end

section \<open>A concrete server\<close>

record mem_kv =
  mk_store :: "(jstr, jstr \<times> nat option) jmap"
  mk_sets :: "(jstr, jstr list) jmap"
  mk_now :: nat

definition mem_live :: "mem_kv \<Rightarrow> jstr \<Rightarrow> (jstr \<times> nat option) option" where
  "mem_live m k =
     (case jm_get (mk_store m) k of
        None \<Rightarrow> None
      | Some (v, None) \<Rightarrow> Some (v, None)
      | Some (v, Some e) \<Rightarrow> if e \<le> mk_now m then None else Some (v, Some e))"

definition mem_ops :: "mem_kv kv_ops" where
  "mem_ops = \<lparr>
     kv_get = (\<lambda>m k. map_option fst (mem_live m k)),
     kv_set_px = (\<lambda>k v t m. m\<lparr>mk_store := jm_set k (v, Some (mk_now m + t)) (mk_store m)\<rparr>),
     kv_pexpire = (\<lambda>k t m. case mem_live m k of None \<Rightarrow> m
        | Some (v, _) \<Rightarrow> m\<lparr>mk_store := jm_set k (v, Some (mk_now m + t)) (mk_store m)\<rparr>),
     kv_del = (\<lambda>k m. m\<lparr>mk_store := jm_delete k (mk_store m)\<rparr>),
     kv_sadd = (\<lambda>k x m. m\<lparr>mk_sets := jm_set k (js_add x (default_to [] (jm_get (mk_sets m) k))) (mk_sets m)\<rparr>),
     kv_smembers = (\<lambda>m k. default_to [] (jm_get (mk_sets m) k)),
     kv_pttl = (\<lambda>m k. case mem_live m k of Some (v, Some e) \<Rightarrow> Some (e - mk_now m) | _ \<Rightarrow> None),
     kv_tick = (\<lambda>d m. m\<lparr>mk_now := mk_now m + d\<rparr>),
     kv_down = (\<lambda>m k. False)\<rparr>"

definition mem_empty :: mem_kv where
  "mem_empty = \<lparr>mk_store = [], mk_sets = [], mk_now = 0\<rparr>"

lemma mem_get_set:
  "0 < t \<Longrightarrow> kv_get mem_ops (kv_set_px mem_ops k v t r) k' = (if k' = k then Some v else kv_get mem_ops r k')"
  by (auto simp: mem_ops_def mem_live_def split: option.splits prod.splits if_splits)

lemma mem_pttl_set:
  "0 < t \<Longrightarrow> kv_pttl mem_ops (kv_set_px mem_ops k v t r) k' = (if k' = k then Some t else kv_pttl mem_ops r k')"
  by (auto simp: mem_ops_def mem_live_def split: option.splits prod.splits if_splits)

lemma mem_get_pexpire: "0 < t \<Longrightarrow> kv_get mem_ops (kv_pexpire mem_ops k t r) k' = kv_get mem_ops r k'"
  by (auto simp: mem_ops_def mem_live_def split: option.splits prod.splits if_splits)

lemma mem_pttl_pexpire:
  "0 < t \<Longrightarrow> kv_pttl mem_ops (kv_pexpire mem_ops k t r) k' =
     (if k' = k \<and> kv_get mem_ops r k \<noteq> None then Some t else kv_pttl mem_ops r k')"
  by (auto simp: mem_ops_def mem_live_def split: option.splits prod.splits if_splits)

lemma mem_get_tick:
  "kv_get mem_ops (kv_tick mem_ops d r) k =
     (case kv_pttl mem_ops r k of Some t \<Rightarrow> if d < t then kv_get mem_ops r k else None
        | None \<Rightarrow> kv_get mem_ops r k)"
  by (auto simp: mem_ops_def mem_live_def split: option.splits prod.splits if_splits)

lemma mem_pttl_tick:
  "kv_pttl mem_ops (kv_tick mem_ops d r) k =
     (case kv_pttl mem_ops r k of Some t \<Rightarrow> if d < t then Some (t - d) else None | None \<Rightarrow> None)"
  by (auto simp: mem_ops_def mem_live_def split: option.splits prod.splits if_splits)

lemma mem_get_del: "kv_get mem_ops (kv_del mem_ops k r) k' = (if k' = k then None else kv_get mem_ops r k')"
  by (auto simp: mem_ops_def mem_live_def split: option.splits prod.splits)

lemma mem_sadd:
  "kv_get mem_ops (kv_sadd mem_ops k x r) k' = kv_get mem_ops r k'"
  "kv_pttl mem_ops (kv_sadd mem_ops k x r) k' = kv_pttl mem_ops r k'"
  by (auto simp: mem_ops_def mem_live_def split: option.splits prod.splits)

interpretation mem: redis_kv mem_ops
  by unfold_locales
     (rule mem_get_set mem_pttl_set mem_get_pexpire mem_pttl_pexpire mem_get_tick mem_pttl_tick
        mem_get_del mem_sadd; assumption?)+

lemma redis_kv_mem: "redis_kv mem_ops"
  by (rule mem.redis_kv_axioms)

end
