(* ===== verification/Ownership.thy ===== *)
theory Ownership
  imports Redis_Kv
begin

text \<open>
  gateway/src/cluster/ownership.ts: the Redis keys both ends share, the stable gateway id and
  the lease by which exactly one gateway owns the WebSocket of a bot. The state of one
  coordinator is the record \<open>ownership\<close>; \<open>claim\<close> and \<open>release\<close> run a Lua script and are
  one step at the server, \<open>renew\<close> is a \<open>GET\<close> followed by a \<open>PEXPIRE\<close>, two steps. A command
  that is rejected makes the operation \<open>None\<close> (the promise rejects, nothing is changed).
\<close>

section \<open>Keys\<close>

definition redis_key_prefix :: "jstr option \<Rightarrow> jstr" where
  "redis_key_prefix env = default_to (js ''aip:'') env"

definition bot_owner_key :: "jstr \<Rightarrow> jstr \<Rightarrow> jstr" where
  "bot_owner_key p b = p @ js ''bot:'' @ b @ js '':owner''"

definition bot_prev_owner_key :: "jstr \<Rightarrow> jstr \<Rightarrow> jstr" where
  "bot_prev_owner_key p b = p @ js ''bot:'' @ b @ js '':prev_owner''"

definition gateway_members_key :: "jstr \<Rightarrow> jstr" where
  "gateway_members_key p = p @ js ''gateways:members''"

definition gateway_alive_key :: "jstr \<Rightarrow> jstr \<Rightarrow> jstr" where
  "gateway_alive_key p g = p @ js ''gateway:'' @ g @ js '':alive''"

definition session_bot_key :: "jstr \<Rightarrow> jstr \<Rightarrow> jstr" where
  "session_bot_key p sid = p @ js ''session:'' @ sid @ js '':bot''"

definition session_gateway_key :: "jstr \<Rightarrow> jstr \<Rightarrow> jstr" where
  "session_gateway_key p sid = p @ js ''session:'' @ sid @ js '':gateway''"

text \<open>The key of a family determines its id, and keys of different families never coincide.\<close>

lemma last_js: "s \<noteq> [] \<Longrightarrow> last (js s) = of_char (last s)"
  by (simp add: js_def last_map)

lemma suffix_unit_neq:
  assumes "x @ js s = y @ js t" and "s \<noteq> []" and "t \<noteq> []"
  shows "last s = last t"
proof -
  have "last (x @ js s) = of_char (last s)" "last (y @ js t) = of_char (last t)"
    using assms(2,3) by (simp_all add: last_append last_js)
  then show ?thesis using assms(1) by (simp add: of_char_cu_inject)
qed

lemma bot_owner_key_inject [simp]: "bot_owner_key p b = bot_owner_key p b' \<longleftrightarrow> b = b'"
  by (simp add: bot_owner_key_def)

lemma session_bot_key_inject [simp]: "session_bot_key p b = session_bot_key p b' \<longleftrightarrow> b = b'"
  by (simp add: session_bot_key_def)

lemma session_gateway_key_inject [simp]: "session_gateway_key p b = session_gateway_key p b' \<longleftrightarrow> b = b'"
  by (simp add: session_gateway_key_def)

lemma gateway_alive_key_inject [simp]: "gateway_alive_key p b = gateway_alive_key p b' \<longleftrightarrow> b = b'"
  by (simp add: gateway_alive_key_def)

lemma bot_prev_owner_key_inject [simp]: "bot_prev_owner_key p b = bot_prev_owner_key p b' \<longleftrightarrow> b = b'"
  by (simp add: bot_prev_owner_key_def)

lemma owner_neq_prev_owner: "bot_owner_key p b \<noteq> bot_prev_owner_key p b'"
proof
  assume "bot_owner_key p b = bot_prev_owner_key p b'"
  then have "(b @ js '':'') @ js ''owner'' = (b' @ js '':prev_'') @ js ''owner''"
    by (simp add: bot_owner_key_def bot_prev_owner_key_def flip: js_append)
  then have "b @ js '':'' = b' @ js '':prev_''" by (simp only: append_same_eq)
  then show False using suffix_unit_neq [of b "'':''" b' "'':prev_''"] by simp
qed

lemma session_bot_neq_gateway: "session_bot_key p sid \<noteq> session_gateway_key p sid'"
proof
  assume "session_bot_key p sid = session_gateway_key p sid'"
  then have "sid @ js '':bot'' = sid' @ js '':gateway''"
    by (simp add: session_bot_key_def session_gateway_key_def)
  then show False using suffix_unit_neq [of sid "'':bot''" sid' "'':gateway''"] by simp
qed

section \<open>The stable gateway id\<close>

text \<open>
  \<open>env\<close> is the GATEWAY_ID variable, \<open>host\<close> what \<open>hostname()\<close> returned (\<open>None\<close> when it
  threw or was null) and \<open>uuid\<close> the random UUID.
\<close>

definition get_gateway_id :: "jstr option \<Rightarrow> jstr option \<Rightarrow> jstr \<Rightarrow> jstr" where
  "get_gateway_id env host uuid =
     (case nonempty env of
        Some e \<Rightarrow> e
      | None \<Rightarrow> (case nonempty host of
                   Some h \<Rightarrow> h
                 | None \<Rightarrow> js ''gw-'' @ slice 0 8 uuid))"

lemma get_gateway_id_stable:
  "nonempty env \<noteq> None \<or> nonempty host \<noteq> None \<Longrightarrow> get_gateway_id env host u = get_gateway_id env host u'"
  by (auto simp: get_gateway_id_def split: option.splits)

section \<open>The coordinator\<close>

record ownership =
  ow_gateway :: jstr
  ow_lease_ttl :: nat
  ow_heartbeat :: nat
  ow_owned :: "jstr jset"
  ow_timer :: bool
  ow_on_lost :: bool

definition new_ownership :: "jstr \<Rightarrow> nat option \<Rightarrow> nat option \<Rightarrow> ownership" where
  "new_ownership g ttl hb =
     \<lparr>ow_gateway = g, ow_lease_ttl = default_to 30000 ttl, ow_heartbeat = default_to 10000 hb,
      ow_owned = [], ow_timer = False, ow_on_lost = False\<rparr>"

text \<open>The Lua script of \<open>claim\<close>: one atomic step at the server.\<close>

definition claim_script :: "'r kv_ops \<Rightarrow> jstr \<Rightarrow> jstr \<Rightarrow> nat \<Rightarrow> 'r \<Rightarrow> nat \<times> 'r" where
  "claim_script R key gw ttl r =
     (case kv_get R r key of
        Some cur \<Rightarrow> if cur = gw then (1, kv_pexpire R key ttl r) else (0, r)
      | None \<Rightarrow> (1, kv_set_px R key gw ttl r))"

definition ow_claim ::
  "'r kv_ops \<Rightarrow> jstr \<Rightarrow> ownership \<Rightarrow> jstr \<Rightarrow> 'r \<Rightarrow> (bool \<times> ownership \<times> 'r) option" where
  "ow_claim R p s b r =
     (if kv_down R r (bot_owner_key p b) then None
      else let (n, r') = claim_script R (bot_owner_key p b) (ow_gateway s) (ow_lease_ttl s) r;
               owned = (n = 1)
           in Some (owned,
                    s\<lparr>ow_owned := (if owned then js_add b (ow_owned s) else js_remove b (ow_owned s))\<rparr>,
                    r'))"

text \<open>\<open>renew\<close>: its read, its write, and the two in sequence.\<close>

definition ow_renew_holds :: "'r kv_ops \<Rightarrow> jstr \<Rightarrow> ownership \<Rightarrow> jstr \<Rightarrow> 'r \<Rightarrow> bool" where
  "ow_renew_holds R p s b r \<longleftrightarrow> kv_get R r (bot_owner_key p b) = Some (ow_gateway s)"

definition ow_renew_write :: "'r kv_ops \<Rightarrow> jstr \<Rightarrow> ownership \<Rightarrow> jstr \<Rightarrow> 'r \<Rightarrow> 'r" where
  "ow_renew_write R p s b r = kv_pexpire R (bot_owner_key p b) (ow_lease_ttl s) r"

definition ow_drop :: "jstr \<Rightarrow> ownership \<Rightarrow> ownership" where
  "ow_drop b s = s\<lparr>ow_owned := js_remove b (ow_owned s)\<rparr>"

definition ow_renew ::
  "'r kv_ops \<Rightarrow> jstr \<Rightarrow> ownership \<Rightarrow> jstr \<Rightarrow> 'r \<Rightarrow> (bool \<times> ownership \<times> 'r) option" where
  "ow_renew R p s b r =
     (if kv_down R r (bot_owner_key p b) then None
      else if ow_renew_holds R p s b r then Some (True, s, ow_renew_write R p s b r)
      else Some (False, ow_drop b s, r))"

text \<open>The Lua script of \<open>release\<close>: deletes only the caller's own lease.\<close>

definition release_script :: "'r kv_ops \<Rightarrow> jstr \<Rightarrow> jstr \<Rightarrow> 'r \<Rightarrow> 'r" where
  "release_script R key gw r = (if kv_get R r key = Some gw then kv_del R key r else r)"

definition ow_release ::
  "'r kv_ops \<Rightarrow> jstr \<Rightarrow> ownership \<Rightarrow> jstr \<Rightarrow> 'r \<Rightarrow> (ownership \<times> 'r) option" where
  "ow_release R p s b r =
     (if kv_down R r (bot_owner_key p b) then None
      else Some (ow_drop b s, release_script R (bot_owner_key p b) (ow_gateway s) r))"

fun ow_release_each ::
  "'r kv_ops \<Rightarrow> jstr \<Rightarrow> jstr list \<Rightarrow> ownership \<Rightarrow> 'r \<Rightarrow> (ownership \<times> 'r) option" where
  "ow_release_each R p [] s r = Some (s, r)"
| "ow_release_each R p (b # bs) s r =
     (case ow_release R p s b r of
        None \<Rightarrow> None
      | Some (s', r') \<Rightarrow> ow_release_each R p bs s' r')"

definition ow_release_all :: "'r kv_ops \<Rightarrow> jstr \<Rightarrow> ownership \<Rightarrow> 'r \<Rightarrow> (ownership \<times> 'r) option" where
  "ow_release_all R p s r = ow_release_each R p (ow_owned s) s r"

definition ow_current_owner :: "'r kv_ops \<Rightarrow> jstr \<Rightarrow> jstr \<Rightarrow> 'r \<Rightarrow> jstr option" where
  "ow_current_owner R p b r = kv_get R r (bot_owner_key p b)"

definition ow_prev_owner :: "'r kv_ops \<Rightarrow> jstr \<Rightarrow> jstr \<Rightarrow> 'r \<Rightarrow> jstr option" where
  "ow_prev_owner R p b r = kv_get R r (bot_prev_owner_key p b)"

definition ow_set_prev_owner :: "'r kv_ops \<Rightarrow> jstr \<Rightarrow> jstr \<Rightarrow> jstr \<Rightarrow> 'r \<Rightarrow> 'r" where
  "ow_set_prev_owner R p b g r = kv_set_px R (bot_prev_owner_key p b) g (300 * 1000) r"

definition ow_list_members :: "'r kv_ops \<Rightarrow> jstr \<Rightarrow> 'r \<Rightarrow> jstr list" where
  "ow_list_members R p r = kv_smembers R r (gateway_members_key p)"

definition ow_start_heartbeat :: "bool \<Rightarrow> ownership \<Rightarrow> ownership" where
  "ow_start_heartbeat cb s =
     (let s1 = (if cb then s\<lparr>ow_on_lost := True\<rparr> else s)
      in if ow_timer s1 then s1 else s1\<lparr>ow_timer := True\<rparr>)"

definition ow_set_on_lost :: "ownership \<Rightarrow> ownership" where
  "ow_set_on_lost s = s\<lparr>ow_on_lost := True\<rparr>"

definition ow_stop_heartbeat :: "ownership \<Rightarrow> ownership" where
  "ow_stop_heartbeat s = s\<lparr>ow_timer := False\<rparr>"

text \<open>
  One heartbeat. The liveness writes fail silently. Then each bot of the snapshot of
  \<open>ownedBots\<close> is renewed; a failed or rejected renewal drops the bot and is reported to the
  \<open>onLost\<close> callback. The first result is the list of bots the callback was called for.
\<close>

definition ow_alive_secs :: "ownership \<Rightarrow> nat" where
  "ow_alive_secs s = (ow_lease_ttl s + 999) div 1000"

definition ow_liveness :: "'r kv_ops \<Rightarrow> jstr \<Rightarrow> ownership \<Rightarrow> 'r \<Rightarrow> 'r" where
  "ow_liveness R p s r =
     (if kv_down R r (gateway_members_key p) then r
      else let r1 = kv_sadd R (gateway_members_key p) (ow_gateway s) r
           in if kv_down R r1 (gateway_alive_key p (ow_gateway s)) then r1
              else kv_set_px R (gateway_alive_key p (ow_gateway s)) (js ''1'')
                     (1000 * ow_alive_secs s) r1)"

fun ow_renew_each ::
  "'r kv_ops \<Rightarrow> jstr \<Rightarrow> jstr list \<Rightarrow> ownership \<Rightarrow> 'r \<Rightarrow> jstr list \<times> ownership \<times> 'r" where
  "ow_renew_each R p [] s r = ([], s, r)"
| "ow_renew_each R p (b # bs) s r =
     (case ow_renew R p s b r of
        Some (True, s', r') \<Rightarrow> ow_renew_each R p bs s' r'
      | Some (False, s', r') \<Rightarrow>
          (let (ls, s'', r'') = ow_renew_each R p bs (ow_drop b s') r'
           in ((if ow_on_lost s then b # ls else ls), s'', r''))
      | None \<Rightarrow>
          (let (ls, s'', r'') = ow_renew_each R p bs (ow_drop b s) r
           in ((if ow_on_lost s then b # ls else ls), s'', r'')))"

definition ow_heartbeat_tick ::
  "'r kv_ops \<Rightarrow> jstr \<Rightarrow> ownership \<Rightarrow> 'r \<Rightarrow> jstr list \<times> ownership \<times> 'r" where
  "ow_heartbeat_tick R p s r = ow_renew_each R p (ow_owned s) s (ow_liveness R p s r)"

section \<open>The lease as a service\<close>

text \<open>
  What the bot registry relies on: a claim that succeeds makes the caller the owner, a claim
  is refused exactly when another gateway owns the bot (and then changes nothing), and a
  release gives up the caller's own lease only.
\<close>

locale lease_service =
  fixes claim :: "jstr \<Rightarrow> jstr \<Rightarrow> 'r \<Rightarrow> bool \<times> 'r"
    and release :: "jstr \<Rightarrow> jstr \<Rightarrow> 'r \<Rightarrow> 'r"
    and owner :: "'r \<Rightarrow> jstr \<Rightarrow> jstr option"
  assumes claim_iff: "fst (claim g b r) \<longleftrightarrow> owner r b = None \<or> owner r b = Some g"
    and claim_owner: "fst (claim g b r) \<Longrightarrow> owner (snd (claim g b r)) b = Some g"
    and claim_refused: "\<not> fst (claim g b r) \<Longrightarrow> snd (claim g b r) = r"
    and claim_frame: "b' \<noteq> b \<Longrightarrow> owner (snd (claim g b r)) b' = owner r b'"
    and release_owner: "owner (release g b r) b = (if owner r b = Some g then None else owner r b)"
    and release_frame: "b' \<noteq> b \<Longrightarrow> owner (release g b r) b' = owner r b'"
begin

text \<open>A sequence of claims of one bot by the gateways of a list; the results in order.\<close>

primrec claims :: "jstr \<Rightarrow> jstr list \<Rightarrow> 'r \<Rightarrow> bool list \<times> 'r" where
  "claims b [] r = ([], r)"
| "claims b (g # gs) r =
     (let (ok, r1) = claim g b r; (oks, r2) = claims b gs r1 in (ok # oks, r2))"

lemma claims_held:
  assumes "owner r b = Some w"
  shows "fst (claims b gs r) = map (\<lambda>g. g = w) gs \<and> owner (snd (claims b gs r)) b = Some w"
  using assms
proof (induction gs arbitrary: r)
  case Nil
  then show ?case by simp
next
  case (Cons g gs)
  obtain ok r1 where c: "claim g b r = (ok, r1)" by (cases "claim g b r")
  have ok: "ok \<longleftrightarrow> g = w" using claim_iff [of g b r] Cons.prems c by auto
  have "owner r1 b = Some w"
  proof (cases ok)
    case True
    then show ?thesis using claim_owner [of g b r] c ok by simp
  next
    case False
    then show ?thesis using claim_refused [of g b r] c Cons.prems by simp
  qed
  from Cons.IH [OF this] show ?case using c ok by (auto split: prod.splits)
qed

lemma claims_first_wins:
  assumes "owner r b = None"
  shows "fst (claims b (w # gs) r) = True # map (\<lambda>g. g = w) gs
    \<and> owner (snd (claims b (w # gs) r)) b = Some w"
proof -
  obtain ok r1 where c: "claim w b r = (ok, r1)" by (cases "claim w b r")
  have "ok" using claim_iff [of w b r] assms c by simp
  moreover have "owner r1 b = Some w" using claim_owner [of w b r] c \<open>ok\<close> by simp
  ultimately show ?thesis using claims_held [of r1 b w gs] c by (auto split: prod.splits)
qed

end

definition lease_claim :: "'r kv_ops \<Rightarrow> jstr \<Rightarrow> nat \<Rightarrow> jstr \<Rightarrow> jstr \<Rightarrow> 'r \<Rightarrow> bool \<times> 'r" where
  "lease_claim R p ttl g b r =
     (let (n, r') = claim_script R (bot_owner_key p b) g ttl r in (n = 1, r'))"

definition lease_release :: "'r kv_ops \<Rightarrow> jstr \<Rightarrow> jstr \<Rightarrow> jstr \<Rightarrow> 'r \<Rightarrow> 'r" where
  "lease_release R p g b r = release_script R (bot_owner_key p b) g r"

definition lease_owner :: "'r kv_ops \<Rightarrow> jstr \<Rightarrow> 'r \<Rightarrow> jstr \<Rightarrow> jstr option" where
  "lease_owner R p r b = ow_current_owner R p b r"

lemmas lease_defs = lease_claim_def lease_release_def lease_owner_def ow_current_owner_def
  claim_script_def release_script_def

locale lease_redis = redis_kv R for R :: "'r kv_ops" +
  fixes p :: jstr and ttl :: nat
  assumes ttl_pos: "0 < ttl"

sublocale lease_redis \<subseteq> lease: lease_service "lease_claim R p ttl" "lease_release R p" "lease_owner R p"
  by unfold_locales
     (auto simp: lease_defs kv_laws ttl_pos split: option.splits if_splits)

interpretation mem_lease: lease_redis mem_ops "js ''aip:''" 30000
  by unfold_locales simp

lemma lease_redisI: "redis_kv R \<Longrightarrow> 0 < ttl \<Longrightarrow> lease_redis R ttl"
  by (simp add: lease_redis_def lease_redis_axioms_def)

section \<open>Claims of one bot by several gateways\<close>

fun ow_claim_each ::
  "'r kv_ops \<Rightarrow> jstr \<Rightarrow> jstr \<Rightarrow> ownership list \<Rightarrow> 'r \<Rightarrow> (bool \<times> ownership) list \<times> 'r" where
  "ow_claim_each R p b [] r = ([], r)"
| "ow_claim_each R p b (s # ss) r =
     (case ow_claim R p s b r of
        None \<Rightarrow> (let (xs, r') = ow_claim_each R p b ss r in ((False, s) # xs, r'))
      | Some (ok, s', r1) \<Rightarrow> (let (xs, r') = ow_claim_each R p b ss r1 in ((ok, s') # xs, r')))"

lemma ow_claim_lease:
  assumes "\<not> kv_down R r (bot_owner_key p b)"
  shows "ow_claim R p s b r =
    (let (ok, r') = lease_claim R p (ow_lease_ttl s) (ow_gateway s) b r
     in Some (ok, s\<lparr>ow_owned := (if ok then js_add b (ow_owned s) else js_remove b (ow_owned s))\<rparr>, r'))"
  using assms by (simp add: ow_claim_def lease_claim_def Let_def split: prod.splits)

context redis_kv
begin

lemma ow_claim_held:
  assumes own: "kv_get R r (bot_owner_key p b) = Some w" and other: "ow_gateway s \<noteq> w"
    and c: "ow_claim R p s b r = Some (ok, s', r')"
  shows "\<not> ok \<and> r' = r \<and> b \<notin> set (ow_owned s')"
  using assms by (auto simp: ow_claim_def claim_script_def Let_def split: if_splits)

lemma ow_claim_won:
  assumes "0 < ow_lease_ttl s" and "ow_claim R p s b r = Some (True, s', r')"
  shows "kv_get R r' (bot_owner_key p b) = Some (ow_gateway s)
    \<and> kv_pttl R r' (bot_owner_key p b) = Some (ow_lease_ttl s)
    \<and> b \<in> set (ow_owned s') \<and> ow_gateway s' = ow_gateway s \<and> ow_lease_ttl s' = ow_lease_ttl s"
  using assms
  by (auto simp: ow_claim_def claim_script_def Let_def kv_laws split: if_splits option.splits)

lemma ow_claim_each_held:
  assumes "kv_get R r (bot_owner_key p b) = Some w" and "\<forall>s \<in> set ss. ow_gateway s \<noteq> w \<and> b \<notin> set (ow_owned s)"
  shows "\<forall>x \<in> set (fst (ow_claim_each R p b ss r)). \<not> fst x \<and> b \<notin> set (ow_owned (snd x))"
    and "snd (ow_claim_each R p b ss r) = r"
  using assms
proof (induction ss)
  case (Cons s ss)
  {
    case 1
    then show ?case using Cons.IH ow_claim_held [of r p b w s]
      by (auto split: option.splits prod.splits)
  next
    case 2
    then show ?case using Cons.IH ow_claim_held [of r p b w s]
      by (auto split: option.splits prod.splits)
  }
qed auto

lemma ow_claim_free:
  assumes "kv_get R r (bot_owner_key p b) = None" and "\<not> kv_down R r (bot_owner_key p b)"
  shows "\<exists>s' r'. ow_claim R p s b r = Some (True, s', r')"
  using assms by (auto simp: ow_claim_def claim_script_def Let_def)

end

section \<open>A schedule of one lease\<close>

text \<open>
  What can happen to the lease of a bot between two points in time: time passes, another
  gateway tries to claim the bot, or the owner's heartbeat renews it.
\<close>

datatype lease_event = Pass nat | Rival ownership | Beat

fun beats_in_time :: "nat \<Rightarrow> nat \<Rightarrow> lease_event list \<Rightarrow> bool" where
  "beats_in_time ttl left [] = True"
| "beats_in_time ttl left (Pass d # es) = (d < left \<and> beats_in_time ttl (left - d) es)"
| "beats_in_time ttl left (Rival _ # es) = beats_in_time ttl left es"
| "beats_in_time ttl left (Beat # es) = beats_in_time ttl ttl es"

text \<open>The server state after the schedule, and whether each rival's claim succeeded.\<close>

fun run_lease ::
  "'r kv_ops \<Rightarrow> jstr \<Rightarrow> ownership \<Rightarrow> jstr \<Rightarrow> lease_event list \<Rightarrow> 'r \<Rightarrow> bool list \<times> 'r" where
  "run_lease R p s b [] r = ([], r)"
| "run_lease R p s b (Pass d # es) r = run_lease R p s b es (kv_tick R d r)"
| "run_lease R p s b (Rival t # es) r =
     (case ow_claim R p t b r of
        None \<Rightarrow> run_lease R p s b es r
      | Some (ok, _, r1) \<Rightarrow> (let (oks, r2) = run_lease R p s b es r1 in (ok # oks, r2)))"
| "run_lease R p s b (Beat # es) r =
     (case ow_renew R p s b r of
        None \<Rightarrow> run_lease R p s b es r
      | Some (ok, _, r1) \<Rightarrow> run_lease R p s b es r1)"

context redis_kv
begin

lemma run_lease_keeps:
  assumes "kv_get R r (bot_owner_key p b) = Some (ow_gateway s)"
    and "kv_pttl R r (bot_owner_key p b) = Some left"
    and "beats_in_time (ow_lease_ttl s) left es" and "0 < ow_lease_ttl s"
    and "\<forall>t. Rival t \<in> set es \<longrightarrow> ow_gateway t \<noteq> ow_gateway s"
    and "\<forall>r. \<not> kv_down R r (bot_owner_key p b)"
  shows "list_all Not (fst (run_lease R p s b es r))
    \<and> kv_get R (snd (run_lease R p s b es r)) (bot_owner_key p b) = Some (ow_gateway s)"
  using assms
proof (induction es arbitrary: r left)
  case Nil
  then show ?case by simp
next
  case (Cons e es)
  show ?case
  proof (cases e)
    case (Pass d)
    with Cons.prems have "kv_get R (kv_tick R d r) (bot_owner_key p b) = Some (ow_gateway s)"
      "kv_pttl R (kv_tick R d r) (bot_owner_key p b) = Some (left - d)"
      by (simp_all add: get_tick pttl_tick)
    with Pass Cons.prems Cons.IH [of "kv_tick R d r" "left - d"] show ?thesis by simp
  next
    case (Rival t)
    with Cons.prems have t: "ow_gateway t \<noteq> ow_gateway s" by auto
    then obtain t' where "ow_claim R p t b r = Some (False, t', r)"
      using Cons.prems by (auto simp: ow_claim_def claim_script_def Let_def)
    with Rival Cons.prems Cons.IH [of r left] show ?thesis by (auto split: prod.splits)
  next
    case Beat
    let ?r = "ow_renew_write R p s b r"
    have "ow_renew R p s b r = Some (True, s, ?r)"
      using Cons.prems by (simp add: ow_renew_def ow_renew_holds_def)
    moreover have "kv_get R ?r (bot_owner_key p b) = Some (ow_gateway s)"
      "kv_pttl R ?r (bot_owner_key p b) = Some (ow_lease_ttl s)"
      using Cons.prems by (simp_all add: ow_renew_write_def kv_laws)
    ultimately show ?thesis using Beat Cons.prems Cons.IH [of ?r "ow_lease_ttl s"] by simp
  qed
qed

end

section \<open>The heartbeat\<close>

lemma owner_neq_alive: "bot_owner_key p b \<noteq> gateway_alive_key p g"
proof
  assume "bot_owner_key p b = gateway_alive_key p g"
  then have "(js ''bot:'' @ b) @ js '':owner'' = (js ''gateway:'' @ g) @ js '':alive''"
    by (simp add: bot_owner_key_def gateway_alive_key_def)
  then show False using suffix_unit_neq [of "js ''bot:'' @ b" "'':owner''" "js ''gateway:'' @ g" "'':alive''"]
    by simp
qed

lemma js_remove_notin: "b \<notin> set xs \<Longrightarrow> js_remove b xs = xs"
  by (auto simp: js_remove_def intro!: filter_filter_id)

context redis_kv
begin

lemma get_liveness:
  "0 < ow_lease_ttl s \<Longrightarrow> kv_get R (ow_liveness R p s r) (bot_owner_key p b) = kv_get R r (bot_owner_key p b)"
  by (simp add: ow_liveness_def Let_def kv_laws ow_alive_secs_def owner_neq_alive)

lemma ow_renew_each_spec:
  assumes "0 < ow_lease_ttl s" and "\<forall>r k. \<not> kv_down R r k" and "distinct bs" and "ow_on_lost s"
    and "ow_renew_each R p bs s r = (ls, s', r')"
  shows "ls = filter (\<lambda>b. kv_get R r (bot_owner_key p b) \<noteq> Some (ow_gateway s)) bs
    \<and> set (ow_owned s') = set (ow_owned s) - set ls
    \<and> (\<forall>k. kv_get R r' k = kv_get R r k)
    \<and> (\<forall>b \<in> set bs - set ls. kv_pttl R r' (bot_owner_key p b) = Some (ow_lease_ttl s))
    \<and> (\<forall>b. b \<notin> set bs - set ls \<longrightarrow> kv_pttl R r' (bot_owner_key p b) = kv_pttl R r (bot_owner_key p b))"
  using assms
proof (induction bs arbitrary: s r ls s' r')
  case Nil
  then show ?case by auto
next
  case (Cons b bs)
  show ?case
  proof (cases "ow_renew_holds R p s b r")
    case True
    let ?r = "ow_renew_write R p s b r"
    have step: "ow_renew_each R p bs s ?r = (ls, s', r')"
      using True Cons.prems by (simp add: ow_renew_def)
    have g: "kv_get R ?r k = kv_get R r k" for k
      using Cons.prems by (simp add: ow_renew_write_def kv_laws)
    have t: "kv_pttl R ?r (bot_owner_key p b') = (if b' = b then Some (ow_lease_ttl s) else kv_pttl R r (bot_owner_key p b'))" for b'
      using True Cons.prems by (simp add: ow_renew_write_def kv_laws ow_renew_holds_def)
    have "distinct bs" using Cons.prems by simp
    note IH = Cons.IH [OF Cons.prems(1,2) this Cons.prems(4) step]
    have bh: "kv_get R r (bot_owner_key p b) = Some (ow_gateway s)"
      using True by (simp add: ow_renew_holds_def)
    have "b \<notin> set bs" using Cons.prems by simp
    with IH bh show ?thesis by (auto simp: g t)
  next
    case False
    let ?s = "ow_drop b (ow_drop b s)"
    have pr: "0 < ow_lease_ttl ?s" "ow_on_lost ?s" "distinct bs" "ow_gateway ?s = ow_gateway s"
      "ow_lease_ttl ?s = ow_lease_ttl s" "set (ow_owned ?s) = set (ow_owned s) - {b}"
      using Cons.prems by (auto simp: ow_drop_def)
    obtain ls1 where step: "ow_renew_each R p bs ?s r = (ls1, s', r')" and ls: "ls = b # ls1"
      using False Cons.prems by (auto simp: ow_renew_def Let_def split: prod.splits)
    note IH = Cons.IH [OF pr(1) Cons.prems(2) pr(3,2) step]
    have "kv_get R r (bot_owner_key p b) \<noteq> Some (ow_gateway s)" "b \<notin> set bs"
      using False Cons.prems by (simp_all add: ow_renew_holds_def)
    with IH pr ls show ?thesis by auto
  qed
qed

lemma ow_release_each_spec:
  assumes "\<forall>r k. \<not> kv_down R r k"
  shows "\<exists>s' r'. ow_release_each R p bs s r = Some (s', r')
    \<and> ow_gateway s' = ow_gateway s
    \<and> set (ow_owned s') = set (ow_owned s) - set bs
    \<and> (\<forall>b. kv_get R r' (bot_owner_key p b) =
          (if b \<in> set bs \<and> kv_get R r (bot_owner_key p b) = Some (ow_gateway s) then None
           else kv_get R r (bot_owner_key p b)))"
proof (induction bs arbitrary: s r)
  case Nil
  then show ?case by simp
next
  case (Cons b bs)
  let ?s = "ow_drop b s" and ?r = "release_script R (bot_owner_key p b) (ow_gateway s) r"
  from Cons.IH [of ?s ?r] obtain s' r' where
    step: "ow_release_each R p bs ?s ?r = Some (s', r')" and
    ih: "ow_gateway s' = ow_gateway s" "set (ow_owned s') = set (ow_owned s) - {b} - set bs"
      "\<And>b'. kv_get R r' (bot_owner_key p b') =
          (if b' \<in> set bs \<and> kv_get R ?r (bot_owner_key p b') = Some (ow_gateway s) then None
           else kv_get R ?r (bot_owner_key p b'))"
    by (auto simp: ow_drop_def)
  have "ow_release_each R p (b # bs) s r = Some (s', r')"
    using assms step by (simp add: ow_release_def)
  moreover have "kv_get R r' (bot_owner_key p b') =
      (if b' \<in> set (b # bs) \<and> kv_get R r (bot_owner_key p b') = Some (ow_gateway s) then None
       else kv_get R r (bot_owner_key p b'))" for b'
    by (auto simp: ih release_script_def kv_laws)
  ultimately show ?case using ih by auto
qed

end

section \<open>Properties\<close>

text \<open>The server used by the witnesses: gateway A holds bot \<open>x\<close> for 30 seconds.\<close>

definition demo_gw :: "string \<Rightarrow> ownership" where
  "demo_gw g = new_ownership (js g) None None"

definition demo_held :: mem_kv where
  "demo_held = kv_set_px mem_ops (bot_owner_key (js ''aip:'') (js ''x'')) (js ''A'') 30000 mem_empty"

lemma demo_held_get:
  "kv_get mem_ops demo_held k = (if k = bot_owner_key (js ''aip:'') (js ''x'') then Some (js ''A'') else None)"
  "kv_pttl mem_ops demo_held k = (if k = bot_owner_key (js ''aip:'') (js ''x'') then Some 30000 else None)"
  by (simp_all add: demo_held_def mem.kv_laws) (simp_all add: mem_ops_def mem_live_def mem_empty_def)

lemma mem_up [simp]: "\<not> kv_down mem_ops r k"
  by (simp add: mem_ops_def)




definition demo_schedule :: "lease_event list" where
  "demo_schedule = [Pass 10000, Rival (demo_gw ''B''), Beat, Pass 25000, Rival (demo_gw ''C'')]"


text \<open>
  one heartbeat, the server answering. The bots reported to the \<open>onLost\<close> callback are
  exactly the tracked bots whose lease is no longer held by this gateway; they are dropped
  from the tracked set and no others; every lease still held is renewed to its full length,
  and no lease changes hands.
\<close>

theorem heartbeat_reports_lost_leases:
  assumes "redis_kv R" and "0 < ow_lease_ttl s" and "\<forall>r k. \<not> kv_down R r k"
    and "distinct (ow_owned s)" and "ow_on_lost s"
    and "ow_heartbeat_tick R p s r = (lost, s', r')"
  shows "lost = filter (\<lambda>b. ow_current_owner R p b r \<noteq> Some (ow_gateway s)) (ow_owned s)
    \<and> set (ow_owned s') = {b \<in> set (ow_owned s). ow_current_owner R p b r = Some (ow_gateway s)}
    \<and> (\<forall>b. ow_current_owner R p b r' = ow_current_owner R p b r)
    \<and> (\<forall>b \<in> set (ow_owned s'). kv_pttl R r' (bot_owner_key p b) = Some (ow_lease_ttl s))"
proof -
  note g = redis_kv.get_liveness [OF assms(1,2)]
  note S = redis_kv.ow_renew_each_spec
    [OF assms(1,2,3,4,5) assms(6) [unfolded ow_heartbeat_tick_def]]
  show ?thesis using S by (auto simp: ow_current_owner_def g)
qed

theorem heartbeat_reports_lost_leases_witness:
  "\<exists>lost s' r'. ow_heartbeat_tick mem_ops (js ''aip:'')
        ((demo_gw ''A'')\<lparr>ow_owned := [js ''x'', js ''y''], ow_on_lost := True\<rparr>) demo_held = (lost, s', r')
    \<and> lost = [js ''y''] \<and> set (ow_owned s') = {js ''x''}"
proof -
  let ?s = "(demo_gw ''A'')\<lparr>ow_owned := [js ''x'', js ''y''], ow_on_lost := True\<rparr>"
  obtain lost s' r' where e: "ow_heartbeat_tick mem_ops (js ''aip:'') ?s demo_held = (lost, s', r')"
    by (cases "ow_heartbeat_tick mem_ops (js ''aip:'') ?s demo_held")
  have pre: "0 < ow_lease_ttl ?s" "\<forall>r k. \<not> kv_down mem_ops r k" "distinct (ow_owned ?s)" "ow_on_lost ?s"
    by (simp_all add: demo_gw_def new_ownership_def)
  have own: "ow_owned ?s = [js ''x'', js ''y'']" "ow_gateway ?s = js ''A''"
    by (simp_all add: demo_gw_def new_ownership_def)
  have cur: "ow_current_owner mem_ops (js ''aip:'') (js ''x'') demo_held = Some (js ''A'')"
    "ow_current_owner mem_ops (js ''aip:'') (js ''y'') demo_held = None"
    by (simp_all add: ow_current_owner_def demo_held_get)
  note S = heartbeat_reports_lost_leases [OF redis_kv_mem pre e, unfolded own]
  have "lost = [js ''y'']" using S cur by simp
  moreover have "set (ow_owned s') = {js ''x''}" using S cur by auto
  ultimately show ?thesis using e by blast
qed

text \<open>
  releasing everything on shutdown. Afterwards the gateway tracks no bot, none of the
  leases it tracked is still its own, and the lease of every bot it did not hold (another
  gateway's, or a free one) is as before.
\<close>

theorem release_all_gives_up_own_leases_only:
  assumes "redis_kv R" and "\<forall>r k. \<not> kv_down R r k"
  shows "\<exists>s' r'. ow_release_all R p s r = Some (s', r') \<and> ow_owned s' = []
    \<and> (\<forall>b \<in> set (ow_owned s). ow_current_owner R p b r' \<noteq> Some (ow_gateway s))
    \<and> (\<forall>b. ow_current_owner R p b r \<noteq> Some (ow_gateway s) \<longrightarrow>
          ow_current_owner R p b r' = ow_current_owner R p b r)"
proof -
  from redis_kv.ow_release_each_spec [OF assms, of p "ow_owned s" s r]
  obtain s' r' where S: "ow_release_each R p (ow_owned s) s r = Some (s', r')"
    "set (ow_owned s') = {}"
    "\<forall>b. kv_get R r' (bot_owner_key p b) =
          (if b \<in> set (ow_owned s) \<and> kv_get R r (bot_owner_key p b) = Some (ow_gateway s) then None
           else kv_get R r (bot_owner_key p b))"
    by auto
  then show ?thesis by (auto simp: ow_release_all_def ow_current_owner_def)
qed

theorem release_all_gives_up_own_leases_only_witness:
  "\<exists>s' r'. ow_release_all mem_ops (js ''aip:'') ((demo_gw ''A'')\<lparr>ow_owned := [js ''x'']\<rparr>) demo_held = Some (s', r')
    \<and> ow_owned s' = [] \<and> ow_current_owner mem_ops (js ''aip:'') (js ''x'') r' \<noteq> Some (js ''A'')"
  using release_all_gives_up_own_leases_only
    [OF redis_kv_mem, of "js ''aip:''" "(demo_gw ''A'')\<lparr>ow_owned := [js ''x'']\<rparr>" demo_held]
  by (auto simp: demo_gw_def new_ownership_def)

end
