(* ===== verification/Lease_Cluster.thy ===== *)
theory Lease_Cluster
  imports Ownership
begin

text \<open>
  Several gateways over one Redis server, interleaved at the server commands of
  gateway/src/cluster/ownership.ts: a claim or a release is one step (a Lua script), a renewal
  is two (the \<open>GET\<close> and the \<open>PEXPIRE\<close> of \<open>renew\<close>), and time passes in between.
\<close>

record 'r cluster =
  cl_redis :: 'r
  cl_nodes :: "jstr \<Rightarrow> ownership"
  cl_renewing :: "(jstr \<times> jstr) list"  \<comment> \<open>gateway and bot of each renewal between its read and its write\<close>

definition cl_init :: "'r \<Rightarrow> 'r cluster" where
  "cl_init r = \<lparr>cl_redis = r, cl_nodes = (\<lambda>g. new_ownership g None None), cl_renewing = []\<rparr>"

definition cl_node :: "jstr \<Rightarrow> ownership \<Rightarrow> 'r cluster \<Rightarrow> 'r cluster" where
  "cl_node g s c = c\<lparr>cl_nodes := (cl_nodes c)(g := s)\<rparr>"

inductive cl_step :: "'r kv_ops \<Rightarrow> jstr \<Rightarrow> 'r cluster \<Rightarrow> 'r cluster \<Rightarrow> bool" for R p where
  claim: "ow_claim R p (cl_nodes c g) b (cl_redis c) = Some (ok, s', r') \<Longrightarrow>
     cl_step R p c ((cl_node g s' c)\<lparr>cl_redis := r'\<rparr>)"
| renew_read: "ow_renew_holds R p (cl_nodes c g) b (cl_redis c) \<Longrightarrow>
     cl_step R p c (c\<lparr>cl_renewing := (g, b) # cl_renewing c\<rparr>)"
| renew_lost: "\<not> ow_renew_holds R p (cl_nodes c g) b (cl_redis c) \<Longrightarrow>
     cl_step R p c (cl_node g (ow_drop b (cl_nodes c g)) c)"
| renew_write: "(g, b) \<in> set (cl_renewing c) \<Longrightarrow>
     cl_step R p c (c\<lparr>cl_redis := ow_renew_write R p (cl_nodes c g) b (cl_redis c),
                      cl_renewing := remove1 (g, b) (cl_renewing c)\<rparr>)"
| release: "ow_release R p (cl_nodes c g) b (cl_redis c) = Some (s', r') \<Longrightarrow>
     cl_step R p c ((cl_node g s' c)\<lparr>cl_redis := r'\<rparr>)"
| elapse: "cl_step R p c (c\<lparr>cl_redis := kv_tick R d (cl_redis c)\<rparr>)"

inductive cl_reach :: "'r kv_ops \<Rightarrow> jstr \<Rightarrow> 'r cluster \<Rightarrow> bool" for R p where
  start: "(\<And>k. kv_get R r k = None) \<Longrightarrow> cl_reach R p (cl_init r)"
| step: "cl_reach R p c \<Longrightarrow> cl_step R p c c' \<Longrightarrow> cl_reach R p c'"

inductive_cases cl_stepE: "cl_step R p c c'"

text \<open>
  The invariant: a node keeps its id and a positive lease, and the owner recorded at the
  server tracks the bot, so its heartbeat will renew or report it.
\<close>

definition cl_inv :: "'r kv_ops \<Rightarrow> jstr \<Rightarrow> 'r cluster \<Rightarrow> bool" where
  "cl_inv R p c \<longleftrightarrow> (\<forall>g. ow_gateway (cl_nodes c g) = g \<and> 0 < ow_lease_ttl (cl_nodes c g))
     \<and> (\<forall>b g. kv_get R (cl_redis c) (bot_owner_key p b) = Some g \<longrightarrow> b \<in> set (ow_owned (cl_nodes c g)))"

lemma cl_inv_init: "(\<And>k. kv_get R r k = None) \<Longrightarrow> cl_inv R p (cl_init r)"
  by (simp add: cl_inv_def cl_init_def new_ownership_def)

lemma ow_claim_node:
  assumes "ow_claim R p s b r = Some (ok, s', r')"
  shows "ow_gateway s' = ow_gateway s" "ow_lease_ttl s' = ow_lease_ttl s"
    and "ow_owned s' = (if ok then js_add b (ow_owned s) else js_remove b (ow_owned s))"
  using assms by (auto simp: ow_claim_def Let_def split: prod.splits if_splits)

context redis_kv
begin

lemma ow_claim_get:
  assumes "0 < ow_lease_ttl s" and "ow_claim R p s b r = Some (ok, s', r')"
  shows "kv_get R r' (bot_owner_key p b') =
    (if b' = b \<and> ok then Some (ow_gateway s) else kv_get R r (bot_owner_key p b'))"
    and "\<not> ok \<Longrightarrow> kv_get R r (bot_owner_key p b) \<noteq> Some (ow_gateway s)"
    and "ok \<Longrightarrow> kv_get R r (bot_owner_key p b) \<in> {None, Some (ow_gateway s)}"
  using assms
  by (auto simp: ow_claim_def claim_script_def Let_def kv_laws split: if_splits option.splits)

lemma cl_inv_step:
  assumes "cl_inv R p c" and "cl_step R p c c'"
  shows "cl_inv R p c'"
  using assms(2,1)
proof cases
  case (claim g b ok s' r')
  with assms(1) have "0 < ow_lease_ttl (cl_nodes c g)" by (simp add: cl_inv_def)
  note get = ow_claim_get [OF this claim(2)]
  show ?thesis
    using assms(1) get ow_claim_node [OF claim(2)] claim(1)
    by (auto simp: cl_inv_def cl_node_def split: if_splits)
next
  case (renew_lost g b)
  then show ?thesis using assms(1) by (auto simp: cl_inv_def cl_node_def ow_drop_def ow_renew_holds_def)
next
  case (renew_write g b)
  then show ?thesis using assms(1) by (auto simp: cl_inv_def ow_renew_write_def kv_laws)
next
  case (release g b s' r')
  then have "r' = release_script R (bot_owner_key p b) (ow_gateway (cl_nodes c g)) (cl_redis c)"
    "s' = ow_drop b (cl_nodes c g)"
    by (auto simp: ow_release_def split: if_splits)
  with release(1) assms(1) show ?thesis
    by (auto simp: cl_inv_def cl_node_def ow_drop_def release_script_def kv_laws split: if_splits)
next
  case (elapse d)
  have "kv_get R (cl_redis c) k = Some g" if "kv_get R (kv_tick R d (cl_redis c)) k = Some g" for k g
    using get_tick_cases [of d "cl_redis c" k] that by auto
  with elapse assms(1) show ?thesis by (auto simp: cl_inv_def)
qed (auto simp: cl_inv_def)

lemma cl_reach_inv: "cl_reach R p c \<Longrightarrow> cl_inv R p c"
  by (induction rule: cl_reach.induct) (auto intro: cl_inv_init cl_inv_step)

end


text \<open>A run: A claims, reads in a renewal, its lease runs out, B claims, A writes.\<close>

abbreviation "rx \<equiv> bot_owner_key (js ''aip:'') (js ''x'')"
abbreviation "nA \<equiv> new_ownership (js ''A'') None None"
abbreviation "nB \<equiv> new_ownership (js ''B'') None None"

definition race1 :: "mem_kv cluster" where
  "race1 = (cl_node (js ''A'') (nA\<lparr>ow_owned := [js ''x'']\<rparr>) (cl_init mem_empty))
     \<lparr>cl_redis := kv_set_px mem_ops rx (js ''A'') 30000 mem_empty\<rparr>"

definition race2 :: "mem_kv cluster" where
  "race2 = race1\<lparr>cl_renewing := [(js ''A'', js ''x'')]\<rparr>"

definition race3 :: "mem_kv cluster" where
  "race3 = race2\<lparr>cl_redis := kv_tick mem_ops 30000 (cl_redis race2)\<rparr>"

definition race4 :: "mem_kv cluster" where
  "race4 = (cl_node (js ''B'') (nB\<lparr>ow_owned := [js ''x'']\<rparr>) race3)
     \<lparr>cl_redis := kv_set_px mem_ops rx (js ''B'') 30000 (cl_redis race3)\<rparr>"

definition race5 :: "mem_kv cluster" where
  "race5 = race4\<lparr>cl_redis := kv_tick mem_ops 20000 (cl_redis race4)\<rparr>"

definition race6 :: "mem_kv cluster" where
  "race6 = race5\<lparr>cl_redis := ow_renew_write mem_ops (js ''aip:'') (cl_nodes race5 (js ''A'')) (js ''x'') (cl_redis race5),
                 cl_renewing := []\<rparr>"

lemmas race_defs = race1_def race2_def race3_def race4_def race5_def race6_def cl_node_def cl_init_def

lemma mem_empty_get: "kv_get mem_ops mem_empty k = None"
  by (simp add: mem_ops_def mem_live_def mem_empty_def)

lemma race1_reach: "cl_reach mem_ops (js ''aip:'') race1"
proof (rule cl_reach.step [OF cl_reach.start [OF mem_empty_get]])
  have "ow_claim mem_ops (js ''aip:'') (cl_nodes (cl_init mem_empty) (js ''A'')) (js ''x'')
      (cl_redis (cl_init mem_empty)) =
    Some (True, nA\<lparr>ow_owned := [js ''x'']\<rparr>, kv_set_px mem_ops rx (js ''A'') 30000 mem_empty)"
    by (simp add: ow_claim_def claim_script_def mem_empty_get cl_init_def new_ownership_def js_add_def)
  from cl_step.claim [OF this] show "cl_step mem_ops (js ''aip:'') (cl_init mem_empty) race1"
    by (simp add: race1_def)
qed

lemma race2_reach: "cl_reach mem_ops (js ''aip:'') race2"
proof (rule cl_reach.step [OF race1_reach])
  have "ow_renew_holds mem_ops (js ''aip:'') (cl_nodes race1 (js ''A'')) (js ''x'') (cl_redis race1)"
    by (simp add: ow_renew_holds_def race1_def cl_node_def mem.get_set new_ownership_def)
  from cl_step.renew_read [OF this] show "cl_step mem_ops (js ''aip:'') race1 race2"
    by (simp add: race2_def) (simp add: race1_def cl_node_def cl_init_def)
qed

lemma race3_reach: "cl_reach mem_ops (js ''aip:'') race3"
  by (rule cl_reach.step [OF race2_reach]) (simp add: race3_def cl_step.elapse)

lemma race3_get: "kv_get mem_ops (cl_redis race3) rx = None"
  by (simp add: race3_def race2_def race1_def mem.get_tick mem.pttl_set)

lemma race3_nodes: "cl_nodes race3 (js ''B'') = nB"
  by (simp add: race_defs)

lemma race4_reach: "cl_reach mem_ops (js ''aip:'') race4"
proof (rule cl_reach.step [OF race3_reach])
  have "ow_claim mem_ops (js ''aip:'') (cl_nodes race3 (js ''B'')) (js ''x'') (cl_redis race3) =
    Some (True, nB\<lparr>ow_owned := [js ''x'']\<rparr>, kv_set_px mem_ops rx (js ''B'') 30000 (cl_redis race3))"
    by (simp add: ow_claim_def claim_script_def race3_get race3_nodes new_ownership_def js_add_def)
  from cl_step.claim [OF this] show "cl_step mem_ops (js ''aip:'') race3 race4"
    by (simp add: race4_def)
qed

lemma race5_reach: "cl_reach mem_ops (js ''aip:'') race5"
  by (rule cl_reach.step [OF race4_reach]) (simp add: race5_def cl_step.elapse)

lemma race5_renewing: "cl_renewing race5 = [(js ''A'', js ''x'')]"
  by (simp add: race_defs)

lemma race6_step: "cl_step mem_ops (js ''aip:'') race5 race6"
  using cl_step.renew_write [of "js ''A''" "js ''x''" race5 mem_ops "js ''aip:''"]
  by (simp add: race5_renewing) (simp add: race6_def)

lemma race5_lease:
  "kv_get mem_ops (cl_redis race5) rx = Some (js ''B'')" "kv_pttl mem_ops (cl_redis race5) rx = Some 10000"
  by (simp_all add: race5_def race4_def mem.get_tick mem.pttl_tick mem.pttl_set mem.get_set)

lemma race5_nodes: "cl_nodes race5 (js ''A'') = nA\<lparr>ow_owned := [js ''x'']\<rparr>"
  "cl_nodes race5 (js ''B'') = nB\<lparr>ow_owned := [js ''x'']\<rparr>"
  by (simp_all add: race_defs)


text \<open>
  the renewal is not atomic, and this is observable. There is a reachable state in which
  A's renewal has passed its read although its lease has run out and B owns the bot; A's
  write then succeeds and extends the lease of B, and both gateways track the bot, so
  both keep its connection open.
\<close>

theorem renewal_can_extend_a_foreign_lease:
  "\<exists>c c'. cl_reach mem_ops (js ''aip:'') c \<and> cl_step mem_ops (js ''aip:'') c c'
     \<and> (js ''A'', js ''x'') \<in> set (cl_renewing c) \<and> (js ''A'', js ''x'') \<notin> set (cl_renewing c')
     \<and> ow_current_owner mem_ops (js ''aip:'') (js ''x'') (cl_redis c) = Some (js ''B'')
     \<and> kv_pttl mem_ops (cl_redis c) (bot_owner_key (js ''aip:'') (js ''x'')) = Some 10000
     \<and> kv_pttl mem_ops (cl_redis c') (bot_owner_key (js ''aip:'') (js ''x'')) = Some 30000
     \<and> js ''x'' \<in> set (ow_owned (cl_nodes c' (js ''A''))) \<and> js ''x'' \<in> set (ow_owned (cl_nodes c' (js ''B'')))"
proof (intro exI conjI)
  show "cl_reach mem_ops (js ''aip:'') race5" by (rule race5_reach)
  show "cl_step mem_ops (js ''aip:'') race5 race6" by (rule race6_step)
  have ttl: "ow_lease_ttl (cl_nodes race5 (js ''A'')) = 30000"
    by (simp add: race5_nodes new_ownership_def)
  show "kv_pttl mem_ops (cl_redis race6) rx = Some 30000"
    by (simp add: race6_def ow_renew_write_def ttl mem.pttl_pexpire race5_lease)
  show "(js ''A'', js ''x'') \<notin> set (cl_renewing race6)" by (simp add: race6_def)
qed (simp_all add: race5_renewing race5_lease ow_current_owner_def race6_def race5_nodes)

end
