(* ===== verification/Redis_Stream.thy ===== *)
theory Redis_Stream
  imports Js_Map "HOL-Library.Multiset"
begin

text \<open>
  gateway/src/queue/redisStream.ts: the producer that writes inbound messages to a Redis
  stream, and the consumer that reads event streams in consumer groups, acknowledges what it
  has handled and re-delivers orphaned entries. The server's stream commands, the message
  callback and JSON are parameters; what the code does with their results is modelled.
\<close>

section \<open>Messages\<close>

record inbound_message =
  im_id :: jstr
  im_session_id :: jstr
  im_user_id :: jstr
  im_user_mobile :: "jstr option"
  im_channel_user_id :: "jstr option"
  im_channel :: jstr
  im_agent_id :: "jstr option"
  im_content :: jstr
  im_message_type :: jstr
  im_trace_id :: jstr
  im_timestamp :: jstr
  im_metadata :: "jval option"
  im_event_type :: "jstr option"
  im_event_json :: "jstr option"
  im_resume_token :: "jstr option"
  im_selected_candidate :: "jval option"
  im_action :: "jstr option"

definition max_stream_length :: nat where "max_stream_length = 10000"
definition consumer_block_ms :: nat where "consumer_block_ms = 5000"
definition reclaim_batch :: nat where "reclaim_batch = 100"

section \<open>Producer\<close>

text \<open>A spread of an optional property: present or nothing.\<close>

definition opt_field :: "jstr \<Rightarrow> jstr option \<Rightarrow> (jstr \<times> jstr) list" where
  "opt_field k m = (case m of None \<Rightarrow> [] | Some v \<Rightarrow> [(k, v)])"

definition produce_fields :: "(jval \<Rightarrow> jstr) \<Rightarrow> inbound_message \<Rightarrow> (jstr \<times> jstr) list" where
  "produce_fields stringify m =
     [(js ''id'', im_id m), (js ''sessionId'', im_session_id m), (js ''userId'', im_user_id m),
      (js ''channel'', im_channel m), (js ''content'', im_content m),
      (js ''messageType'', im_message_type m), (js ''traceId'', im_trace_id m),
      (js ''timestamp'', im_timestamp m)]
     @ opt_field (js ''userMobile'') (nonempty (im_user_mobile m))
     @ opt_field (js ''channelUserId'') (nonempty (im_channel_user_id m))
     @ opt_field (js ''agentId'') (im_agent_id m)
     @ opt_field (js ''metadata'') (map_option stringify (im_metadata m))
     @ opt_field (js ''resumeToken'') (nonempty (im_resume_token m))
     @ opt_field (js ''selectedCandidate'') (map_option stringify (im_selected_candidate m))
     @ opt_field (js ''action'') (nonempty (im_action m))"

text \<open>\<open>Object.entries(fields).flat()\<close>.\<close>

fun flat_entries :: "(jstr \<times> jstr) list \<Rightarrow> jstr list" where
  "flat_entries [] = []"
| "flat_entries ((k, v) # es) = k # v # flat_entries es"

datatype stream_error = Produce_failed jstr | Group_failed jstr | Json_error | Callback_error | Ack_error

definition xadd_args :: "(jval \<Rightarrow> jstr) \<Rightarrow> jstr \<Rightarrow> inbound_message \<Rightarrow> jstr list" where
  "xadd_args stringify key m =
     [key, js ''MAXLEN'', js ''~'', nat_dec max_stream_length, js ''*'']
     @ flat_entries (produce_fields stringify m)"

definition produce ::
  "(jstr list \<Rightarrow> 'r \<Rightarrow> jstr option \<times> 'r) \<Rightarrow> (jval \<Rightarrow> jstr) \<Rightarrow> jstr \<Rightarrow> inbound_message \<Rightarrow> 'r
     \<Rightarrow> (stream_error + jstr) \<times> 'r" where
  "produce xadd stringify key m r =
     (case xadd (xadd_args stringify key m) r of
        (None, r') \<Rightarrow> (Inl (Produce_failed key), r')
      | (Some mid, r') \<Rightarrow> (Inr mid, r'))"

definition inbound_stream_key :: "jstr \<Rightarrow> jstr \<Rightarrow> jstr" where
  "inbound_stream_key p ch = p @ js ''stream:inbound:'' @ ch"

definition agent_stream_key :: "jstr \<Rightarrow> jstr \<Rightarrow> jstr" where
  "agent_stream_key p a = p @ js ''stream:agent:'' @ a"

definition outbound_stream_key :: "jstr \<Rightarrow> jstr \<Rightarrow> jstr" where
  "outbound_stream_key p g = p @ js ''stream:gw:'' @ g @ js '':events''"

definition pending_outbound_stream_key :: "jstr \<Rightarrow> jstr" where
  "pending_outbound_stream_key p = p @ js ''stream:gw:pending:events''"

text \<open>
  \<open>buildEntitySelectInbound\<close>: \<open>u1\<close> and \<open>u2\<close> are the random UUIDs, \<open>now\<close> the current time.
\<close>

definition build_entity_select ::
  "jstr \<Rightarrow> jstr \<Rightarrow> jstr \<Rightarrow> jstr \<Rightarrow> jstr \<Rightarrow> jstr \<Rightarrow> jstr \<Rightarrow> jval option \<Rightarrow> jstr option
     \<Rightarrow> jstr option \<Rightarrow> jstr option \<Rightarrow> jval option \<Rightarrow> inbound_message" where
  "build_entity_select u1 u2 now sid uid ch token cand act trace chuser meta =
     \<lparr>im_id = u1, im_session_id = sid, im_user_id = uid, im_user_mobile = None,
      im_channel_user_id = chuser, im_channel = ch, im_agent_id = None, im_content = [],
      im_message_type = js ''entity_select'', im_trace_id = default_to u2 trace,
      im_timestamp = now, im_metadata = meta, im_event_type = None, im_event_json = None,
      im_resume_token = Some token, im_selected_candidate = cand, im_action = act\<rparr>"

section \<open>Consumer: reading an entry\<close>

text \<open>
  The flat field list of an entry, in pairs; an odd trailing key gets the empty value.
\<close>

fun field_pairs :: "jstr list \<Rightarrow> (jstr \<times> jstr) list" where
  "field_pairs [] = []"
| "field_pairs [k] = [(k, [])]"
| "field_pairs (k # v # fs) = (k, v) # field_pairs fs"

primrec field_obj :: "(jstr \<times> jstr) list \<Rightarrow> (jstr, jstr) jmap \<Rightarrow> (jstr, jstr) jmap" where
  "field_obj [] ob = ob"
| "field_obj (e # es) ob = field_obj es (jm_set (fst e) (snd e) ob)"

definition read_message ::
  "(jstr \<Rightarrow> jval option) \<Rightarrow> jstr \<Rightarrow> jstr \<Rightarrow> jstr list \<Rightarrow> stream_error + inbound_message" where
  "read_message parse now mid fs =
     (let ob = field_obj (field_pairs fs) [];
          get = (\<lambda>k d. default_to d (jm_get ob (js k)));
          msg = (\<lambda>meta. \<lparr>im_id = get ''id'' mid, im_session_id = get ''sessionId'' [],
            im_user_id = get ''userId'' [], im_user_mobile = nonempty (jm_get ob (js ''userMobile'')),
            im_channel_user_id = nonempty (jm_get ob (js ''channelUserId'')),
            im_channel = get ''channel'' [], im_agent_id = jm_get ob (js ''agentId''),
            im_content = get ''content'' [], im_message_type = get ''messageType'' (js ''text''),
            im_trace_id = get ''traceId'' [], im_timestamp = get ''timestamp'' now,
            im_metadata = meta, im_event_type = jm_get ob (js ''eventType''),
            im_event_json = jm_get ob (js ''event''), im_resume_token = None,
            im_selected_candidate = None, im_action = None\<rparr>)
      in case jm_get ob (js ''metadata'') of
           None \<Rightarrow> Inr (msg None)
         | Some t \<Rightarrow> (case parse t of None \<Rightarrow> Inl Json_error | Some v \<Rightarrow> Inr (msg (Some v))))"

lemma field_pairs_flat [simp]: "field_pairs (flat_entries es) = es"
  by (induction es rule: flat_entries.induct) auto

lemma field_obj_get: "jm_get (field_obj es ob) k = (case map_of (rev es) k of Some v \<Rightarrow> Some v | None \<Rightarrow> jm_get ob k)"
  by (induction es arbitrary: ob) (auto simp: map_add_def split: option.splits)

lemma field_obj_get_distinct:
  assumes "distinct (map fst es)"
  shows "jm_get (field_obj es []) k = map_of es k"
proof -
  have "map_of (rev es) = map_of es"
    using assms by (subst map_of_inject_set) (auto simp flip: rev_map)
  then show ?thesis by (simp add: field_obj_get split: option.splits)
qed

section \<open>Consumer: state\<close>

record consumer =
  sc_group :: jstr
  sc_consumer :: jstr
  sc_running :: bool
  sc_callback :: bool                    \<comment> \<open>a callback has been set by \<open>start\<close>\<close>
  sc_streams :: "(jstr, jstr) jmap"      \<comment> \<open>stream key to consumer group\<close>
  sc_interval :: int
  sc_min_idle :: int
  sc_reclaim_started :: bool
  sc_consume_loops :: nat                \<comment> \<open>activations of \<open>consumeLoop\<close> that have not ended\<close>
  sc_reclaim_loops :: nat                \<comment> \<open>activations of \<open>reclaimLoop\<close> that have not ended\<close>

definition new_consumer :: "jstr \<Rightarrow> jstr \<Rightarrow> consumer" where
  "new_consumer g c = \<lparr>sc_group = g, sc_consumer = c, sc_running = False, sc_callback = False,
     sc_streams = [], sc_interval = 0, sc_min_idle = 30000, sc_reclaim_started = False,
     sc_consume_loops = 0, sc_reclaim_loops = 0\<rparr>"

definition register_stream :: "jstr \<Rightarrow> jstr \<Rightarrow> consumer \<Rightarrow> consumer" where
  "register_stream key g c = c\<lparr>sc_streams := jm_set key g (sc_streams c)\<rparr>"

definition maybe_start_reclaim :: "consumer \<Rightarrow> consumer" where
  "maybe_start_reclaim c =
     (if sc_running c \<and> 0 < sc_interval c \<and> \<not> sc_reclaim_started c
      then c\<lparr>sc_reclaim_started := True, sc_reclaim_loops := Suc (sc_reclaim_loops c)\<rparr> else c)"

text \<open>
  \<open>XGROUP CREATE key group $ MKSTREAM\<close> answers \<open>None\<close> when the group was created and
  \<open>Some message\<close> when it failed; a BUSYGROUP error means the group exists and is no error.
\<close>

definition ensure_group :: "(jstr \<Rightarrow> jstr \<Rightarrow> 'r \<Rightarrow> jstr option \<times> 'r) \<Rightarrow> jstr \<Rightarrow> jstr \<Rightarrow> 'r
     \<Rightarrow> (stream_error + unit) \<times> 'r" where
  "ensure_group xgroup key g r =
     (case xgroup key g r of
        (None, r') \<Rightarrow> (Inr (), r')
      | (Some msg, r') \<Rightarrow> if str_includes msg (js ''BUSYGROUP'') then (Inr (), r')
                        else (Inl (Group_failed msg), r'))"

definition start_consumer ::
  "(jstr \<Rightarrow> jstr \<Rightarrow> 'r \<Rightarrow> jstr option \<times> 'r) \<Rightarrow> jstr \<Rightarrow> consumer \<Rightarrow> 'r
     \<Rightarrow> (stream_error + unit) \<times> consumer \<times> 'r" where
  "start_consumer xgroup key c r =
     (let c1 = (register_stream key (sc_group c) (c\<lparr>sc_callback := True\<rparr>))\<lparr>sc_running := True\<rparr>
      in case ensure_group xgroup key (sc_group c) r of
           (Inl e, r') \<Rightarrow> (Inl e, c1, r')
         | (Inr _, r') \<Rightarrow>
             (Inr (), maybe_start_reclaim (c1\<lparr>sc_consume_loops := Suc (sc_consume_loops c1)\<rparr>), r'))"

definition stop_consumer :: "consumer \<Rightarrow> consumer" where
  "stop_consumer c = c\<lparr>sc_running := False\<rparr>"

definition attach_stream ::
  "(jstr \<Rightarrow> jstr \<Rightarrow> 'r \<Rightarrow> jstr option \<times> 'r) \<Rightarrow> jstr \<Rightarrow> jstr option \<Rightarrow> consumer \<Rightarrow> 'r
     \<Rightarrow> (stream_error + unit) \<times> consumer \<times> 'r" where
  "attach_stream xgroup key g c r =
     (let grp = default_to (sc_group c) g; c1 = register_stream key grp c
      in case ensure_group xgroup key grp r of (res, r') \<Rightarrow> (res, c1, r'))"

definition enable_reclaim :: "int \<Rightarrow> int \<Rightarrow> consumer \<Rightarrow> consumer" where
  "enable_reclaim ival idle c = maybe_start_reclaim (c\<lparr>sc_interval := ival, sc_min_idle := idle\<rparr>)"

text \<open>A loop ends at its next look at the flag after \<open>stop\<close>.\<close>

definition consume_loop_exit :: "consumer \<Rightarrow> consumer" where
  "consume_loop_exit c = (if sc_running c then c else c\<lparr>sc_consume_loops := sc_consume_loops c - 1\<rparr>)"

definition reclaim_loop_exit :: "consumer \<Rightarrow> consumer" where
  "reclaim_loop_exit c = (if sc_running c then c else c\<lparr>sc_reclaim_loops := sc_reclaim_loops c - 1\<rparr>)"

section \<open>Consumer: handling entries\<close>

text \<open>
  The outside world of the handlers: the callback (it may throw) and \<open>XACK\<close> (it may be
  rejected) act on a world \<open>'w\<close>.
\<close>

record 'w handlers =
  h_callback :: "inbound_message \<Rightarrow> 'w \<Rightarrow> bool \<times> 'w"
  h_xack :: "jstr \<Rightarrow> jstr \<Rightarrow> jstr \<Rightarrow> 'w \<Rightarrow> bool \<times> 'w"
  h_parse :: "jstr \<Rightarrow> jval option"
  h_now :: jstr

definition process_message ::
  "'w handlers \<Rightarrow> consumer \<Rightarrow> jstr \<Rightarrow> jstr \<Rightarrow> jstr list \<Rightarrow> 'w \<Rightarrow> (stream_error + unit) \<times> 'w" where
  "process_message H c key mid fs w =
     (let grp = default_to (sc_group c) (jm_get (sc_streams c) key)
      in case read_message (h_parse H) (h_now H) mid fs of
           Inl e \<Rightarrow> (Inl e, w)
         | Inr m \<Rightarrow>
             (case h_callback H m w of
                (False, w1) \<Rightarrow> (Inl Callback_error, w1)
              | (True, w1) \<Rightarrow>
                  (case h_xack H key grp mid w1 of
                     (False, w2) \<Rightarrow> (Inl Ack_error, w2)
                   | (True, w2) \<Rightarrow> (Inr (), w2))))"

text \<open>The entries of one read or claim, in order; an error of one entry is logged and the next one is handled.\<close>

primrec process_entries ::
  "'w handlers \<Rightarrow> consumer \<Rightarrow> jstr \<Rightarrow> (jstr \<times> jstr list) list \<Rightarrow> 'w \<Rightarrow> 'w" where
  "process_entries H c key [] w = w"
| "process_entries H c key (e # es) w =
     process_entries H c key es (snd (process_message H c key (fst e) (snd e) w))"

primrec process_streams ::
  "'w handlers \<Rightarrow> consumer \<Rightarrow> (jstr \<times> (jstr \<times> jstr list) list) list \<Rightarrow> 'w \<Rightarrow> 'w" where
  "process_streams H c [] w = w"
| "process_streams H c (s # ss) w =
     process_streams H c ss
       (if sc_callback c then process_entries H c (fst s) (snd s) w else w)"

text \<open>The subscribed streams by consumer group, as \<open>consumeLoop\<close> collects them.\<close>

primrec group_streams :: "(jstr \<times> jstr) list \<Rightarrow> (jstr, jstr list) jmap \<Rightarrow> (jstr, jstr list) jmap" where
  "group_streams [] gs = gs"
| "group_streams (e # es) gs =
     group_streams es (jm_set (snd e) (default_to [] (jm_get gs (snd e)) @ [fst e]) gs)"

definition xreadgroup_args :: "consumer \<Rightarrow> jstr \<Rightarrow> jstr list \<Rightarrow> jstr list" where
  "xreadgroup_args c grp keys =
     [js ''GROUP'', grp, sc_consumer c, js ''COUNT'', js ''1'', js ''BLOCK'', nat_dec consumer_block_ms,
      js ''STREAMS''] @ keys @ map (\<lambda>_. js ''>'') keys"

text \<open>
  One pass of \<open>consumeLoop\<close>: a read per group. The read's answer is \<open>None\<close> when the
  command failed; the pass then ends in the catch block.
\<close>

primrec consume_groups ::
  "'w handlers \<Rightarrow> (jstr list \<Rightarrow> 'w \<Rightarrow> (jstr \<times> (jstr \<times> jstr list) list) list option \<times> 'w) \<Rightarrow> consumer
     \<Rightarrow> (jstr \<times> jstr list) list \<Rightarrow> 'w \<Rightarrow> 'w" where
  "consume_groups H xread c [] w = w"
| "consume_groups H xread c (g # gs) w =
     (if \<not> sc_running c then w
      else case xread (xreadgroup_args c (fst g) (snd g)) w of
             (None, w1) \<Rightarrow> w1
           | (Some res, w1) \<Rightarrow> consume_groups H xread c gs (process_streams H c res w1))"

definition consume_pass ::
  "'w handlers \<Rightarrow> (jstr list \<Rightarrow> 'w \<Rightarrow> (jstr \<times> (jstr \<times> jstr list) list) list option \<times> 'w) \<Rightarrow> consumer
     \<Rightarrow> 'w \<Rightarrow> 'w" where
  "consume_pass H xread c w = consume_groups H xread c (group_streams (sc_streams c) []) w"

text \<open>
  \<open>reclaimStream\<close>: one \<open>XAUTOCLAIM\<close>, whose claimed entries are handled like new ones. The
  server's answer is \<open>None\<close> when the command failed.
\<close>

definition reclaim_stream ::
  "'w handlers \<Rightarrow> (jstr \<Rightarrow> jstr \<Rightarrow> jstr \<Rightarrow> int \<Rightarrow> nat \<Rightarrow> 'w \<Rightarrow> (jstr \<times> jstr list) list option \<times> 'w)
     \<Rightarrow> consumer \<Rightarrow> jstr \<Rightarrow> jstr \<Rightarrow> 'w \<Rightarrow> bool \<times> 'w" where
  "reclaim_stream H xclaim c key grp w =
     (if \<not> sc_callback c then (True, w)
      else case xclaim key grp (sc_consumer c) (sc_min_idle c) reclaim_batch w of
             (None, w1) \<Rightarrow> (False, w1)
           | (Some claimed, w1) \<Rightarrow> (True, process_entries H c key claimed w1))"

primrec reclaim_pass ::
  "'w handlers \<Rightarrow> (jstr \<Rightarrow> jstr \<Rightarrow> jstr \<Rightarrow> int \<Rightarrow> nat \<Rightarrow> 'w \<Rightarrow> (jstr \<times> jstr list) list option \<times> 'w)
     \<Rightarrow> consumer \<Rightarrow> (jstr \<times> jstr) list \<Rightarrow> 'w \<Rightarrow> 'w" where
  "reclaim_pass H xclaim c [] w = w"
| "reclaim_pass H xclaim c (s # ss) w =
     reclaim_pass H xclaim c ss (snd (reclaim_stream H xclaim c (fst s) (snd s) w))"

text \<open>\<open>drainAndClaim\<close>: subscribe to the previous owner's stream, then one claim on it.\<close>

definition drain_and_claim ::
  "'w handlers \<Rightarrow> (jstr \<Rightarrow> jstr \<Rightarrow> 'w \<Rightarrow> jstr option \<times> 'w)
     \<Rightarrow> (jstr \<Rightarrow> jstr \<Rightarrow> jstr \<Rightarrow> int \<Rightarrow> nat \<Rightarrow> 'w \<Rightarrow> (jstr \<times> jstr list) list option \<times> 'w)
     \<Rightarrow> jstr \<Rightarrow> jstr \<Rightarrow> consumer \<Rightarrow> 'w \<Rightarrow> bool \<times> consumer \<times> 'w" where
  "drain_and_claim H xgroup xclaim key grp c w =
     (case attach_stream xgroup key (Some grp) c w of
        (Inl _, c1, w1) \<Rightarrow> (False, c1, w1)
      | (Inr _, c1, w1) \<Rightarrow> (case reclaim_stream H xclaim c1 key grp w1 of (ok, w2) \<Rightarrow> (ok, c1, w2)))"

section \<open>Producing and reading back\<close>

lemma map_of_opt_field [simp]: "map_of (opt_field k m) k' = (if k' = k then m else None)"
  by (simp add: opt_field_def split: option.splits)

lemma opt_field_keys:
  "distinct (map fst (opt_field k m))"
  "k \<notin> A \<Longrightarrow> fst ` set (opt_field k m) \<inter> A = {}"
  "k \<notin> A \<Longrightarrow> A \<inter> fst ` set (opt_field k m) = {}"
  "x \<noteq> k \<Longrightarrow> x \<notin> fst ` set (opt_field k m)"
  by (auto simp: opt_field_def split: option.splits)

lemma distinct_produce_fields: "distinct (map fst (produce_fields stringify m))"
  by (simp add: produce_fields_def opt_field_keys Int_Un_distrib)

lemma produced_fields:
  "jm_get (field_obj (produce_fields stringify m) []) k = map_of (produce_fields stringify m) k"
  by (rule field_obj_get_distinct [OF distinct_produce_fields])

lemma map_of_produce_fields:
  "map_of (produce_fields stringify m) k =
     (if k = js ''id'' then Some (im_id m) else if k = js ''sessionId'' then Some (im_session_id m)
      else if k = js ''userId'' then Some (im_user_id m) else if k = js ''channel'' then Some (im_channel m)
      else if k = js ''content'' then Some (im_content m)
      else if k = js ''messageType'' then Some (im_message_type m)
      else if k = js ''traceId'' then Some (im_trace_id m) else if k = js ''timestamp'' then Some (im_timestamp m)
      else if k = js ''userMobile'' then nonempty (im_user_mobile m)
      else if k = js ''channelUserId'' then nonempty (im_channel_user_id m)
      else if k = js ''agentId'' then im_agent_id m
      else if k = js ''metadata'' then map_option stringify (im_metadata m)
      else if k = js ''resumeToken'' then nonempty (im_resume_token m)
      else if k = js ''selectedCandidate'' then map_option stringify (im_selected_candidate m)
      else if k = js ''action'' then nonempty (im_action m) else None)"
  by (simp add: produce_fields_def map_add_def option.case_eq_if)

lemma nonempty_idem [simp]: "nonempty (nonempty m) = nonempty m"
  by (simp add: nonempty_def split: option.splits list.splits)


definition demo_message :: inbound_message where
  "demo_message = build_entity_select (js ''u1'') (js ''u2'') (js ''2026'') (js ''s'') (js ''u'')
     (js ''h5'') (js ''tok'') None (Some (js ''confirm'')) None (Some (js ''zhang'')) (Some (JStr (js ''m'')))"


section \<open>Acknowledgement\<close>

text \<open>Handlers that log the acknowledgements they send; \<open>ok\<close> is the callback's outcome.\<close>

definition logging_handlers ::
  "(inbound_message \<Rightarrow> bool) \<Rightarrow> (jstr \<Rightarrow> jval option) \<Rightarrow> jstr
     \<Rightarrow> (inbound_message list \<times> (jstr \<times> jstr \<times> jstr) list) handlers" where
  "logging_handlers ok parse now =
     \<lparr>h_callback = (\<lambda>m (ms, acks). (ok m, ms @ [m], acks)),
      h_xack = (\<lambda>k g i (ms, acks). (True, ms, acks @ [(k, g, i)])),
      h_parse = parse, h_now = now\<rparr>"

definition entry_ok ::
  "(inbound_message \<Rightarrow> bool) \<Rightarrow> (jstr \<Rightarrow> jval option) \<Rightarrow> jstr \<Rightarrow> jstr \<times> jstr list \<Rightarrow> bool" where
  "entry_ok ok parse now e =
     (case read_message parse now (fst e) (snd e) of Inl _ \<Rightarrow> False | Inr m \<Rightarrow> ok m)"

lemma process_message_logging:
  "snd (process_message (logging_handlers ok parse now) c key (fst e) (snd e) (ms, acks)) =
     (ms @ (case read_message parse now (fst e) (snd e) of Inl _ \<Rightarrow> [] | Inr m \<Rightarrow> [m]),
      acks @ (if entry_ok ok parse now e
              then [(key, default_to (sc_group c) (jm_get (sc_streams c) key), fst e)] else []))"
  by (cases "read_message parse now (fst e) (snd e)")
     (auto simp: process_message_def logging_handlers_def entry_ok_def Let_def)

text \<open>
  C5: Of the entries of a read or of a claim, each one that can be read reaches the callback,
  in order; and exactly the entries whose callback succeeded are acknowledged, in the consumer
  group their stream is registered with. An entry that fails is left pending and does not keep
  the next one from being handled.
\<close>

theorem acknowledged_iff_handled:
  "process_entries (logging_handlers ok parse now) c key es (ms, acks) =
     (ms @ concat (map (\<lambda>e. case read_message parse now (fst e) (snd e) of Inl _ \<Rightarrow> [] | Inr m \<Rightarrow> [m]) es),
      acks @ map (\<lambda>e. (key, default_to (sc_group c) (jm_get (sc_streams c) key), fst e))
               (filter (entry_ok ok parse now) es))"
proof (induction es arbitrary: ms acks)
  case Nil
  then show ?case by simp
next
  case (Cons e es)
  then show ?case by (simp add: process_message_logging)
qed

section \<open>Reading by consumer group\<close>

definition in_group :: "(jstr, jstr list) jmap \<Rightarrow> jstr \<Rightarrow> jstr \<Rightarrow> bool" where
  "in_group gs g k = (k \<in> set (default_to [] (jm_get gs g)))"

lemma in_group_group_streams:
  "in_group (group_streams es gs) g k \<longleftrightarrow> in_group gs g k \<or> (k, g) \<in> set es"
proof (induction es arbitrary: gs)
  case Nil
  then show ?case by simp
next
  case (Cons e es)
  then show ?case by (cases e) (auto simp: in_group_def)
qed

definition grouped :: "(jstr, jstr list) jmap \<Rightarrow> jstr list" where
  "grouped gs = concat (map snd gs)"

lemma mset_grouped_set:
  "mset (grouped (jm_set g (default_to [] (jm_get gs g) @ [k]) gs)) = add_mset k (mset (grouped gs))"
  by (induction gs) (auto simp: grouped_def jm_set_def jm_get_def)

lemma mset_grouped: "mset (grouped (group_streams es gs)) = mset (grouped gs) + mset (map fst es)"
  by (induction es arbitrary: gs) (auto simp: mset_grouped_set)

text \<open>
  A pass of the consume loop reads every subscribed stream once: the batches by consumer
  group hold the subscribed stream keys with no loss and no repetition, and a stream is in the
  batch of a group exactly when it is registered with that group.
\<close>

theorem streams_read_in_their_group:
  assumes "jm_inv (sc_streams c)"
  shows "mset (concat (map snd (group_streams (sc_streams c) []))) = mset (jm_keys (sc_streams c)) \<and>
    (in_group (group_streams (sc_streams c) []) g k \<longleftrightarrow> jm_get (sc_streams c) k = Some g)"
  using mset_grouped [of "sc_streams c" "[]"] in_group_group_streams [of "sc_streams c" "[]" g k]
    jm_get_in [OF assms, of k g] jm_get_SomeD [of "sc_streams c" k g]
  by (auto simp: grouped_def jm_keys_def in_group_def)

definition demo_consumer :: consumer where
  "demo_consumer = register_stream (js ''s2'') (js ''g'') (register_stream (js ''s1'') (js ''g'')
     (new_consumer (js ''g'') (js ''c'')))"

theorem streams_read_in_their_group_witness:
  "in_group (group_streams (sc_streams demo_consumer) []) (js ''g'') (js ''s2'')"
  using streams_read_in_their_group [of demo_consumer "js ''g''" "js ''s2''"]
  by (simp add: demo_consumer_def register_stream_def new_consumer_def jm_inv_def jm_set_def)
     (simp add: jm_get_def)

section \<open>Life cycle of the loops\<close>

datatype consumer_op =
    Start jstr
  | Stop
  | Attach jstr "jstr option"
  | Enable_reclaim int int
  | Consume_exit
  | Reclaim_exit

text \<open>A consumer over a server whose group creation always answers \<open>answer\<close>.\<close>

primrec consumer_op_step :: "jstr option \<Rightarrow> consumer_op \<Rightarrow> consumer \<Rightarrow> consumer" where
  "consumer_op_step answer (Start k) c = fst (snd (start_consumer (\<lambda>_ _ r. (answer, r)) k c ()))"
| "consumer_op_step answer Stop c = stop_consumer c"
| "consumer_op_step answer (Attach k g) c = fst (snd (attach_stream (\<lambda>_ _ r. (answer, r)) k g c ()))"
| "consumer_op_step answer (Enable_reclaim i d) c = enable_reclaim i d c"
| "consumer_op_step answer Consume_exit c = consume_loop_exit c"
| "consumer_op_step answer Reclaim_exit c = reclaim_loop_exit c"

definition run_consumer :: "(jstr option \<times> consumer_op) list \<Rightarrow> consumer \<Rightarrow> consumer" where
  "run_consumer ops c = foldl (\<lambda>c o'. consumer_op_step (fst o') (snd o') c) c ops"

lemmas consumer_defs = start_consumer_def stop_consumer_def attach_stream_def enable_reclaim_def
  consume_loop_exit_def reclaim_loop_exit_def maybe_start_reclaim_def register_stream_def ensure_group_def

definition reclaim_inv :: "consumer \<Rightarrow> bool" where
  "reclaim_inv c \<longleftrightarrow> sc_reclaim_loops c \<le> 1 \<and> (sc_reclaim_loops c = 1 \<longrightarrow> sc_reclaim_started c)
     \<and> jm_inv (sc_streams c)"

lemma jm_inv_set [simp]: "jm_inv m \<Longrightarrow> jm_inv (jm_set k v m)"
  by (rule js_map.inv_put)

lemma reclaim_inv_step: "reclaim_inv c \<Longrightarrow> reclaim_inv (consumer_op_step a o' c)"
  by (cases o') (auto simp: reclaim_inv_def consumer_defs Let_def split: option.splits)

lemma run_consumer_induct:
  assumes "P c" "\<And>c a o'. P c \<Longrightarrow> P (consumer_op_step a o' c)"
  shows "P (run_consumer ops c)"
  using assms(1) unfolding run_consumer_def
  by (induction ops arbitrary: c) (auto intro: assms(2))

text \<open>
  However a consumer is started, stopped, attached to streams and configured, it never has
  more than one reclaim loop, and it keeps one group per subscribed stream.
\<close>

theorem at_most_one_reclaim_loop:
  "sc_reclaim_loops (run_consumer ops (new_consumer g c)) \<le> 1 \<and>
   distinct (jm_keys (sc_streams (run_consumer ops (new_consumer g c))))"
proof -
  have "reclaim_inv (run_consumer ops (new_consumer g c))"
    by (rule run_consumer_induct [where P = reclaim_inv])
      (simp_all add: reclaim_inv_step, simp add: reclaim_inv_def new_consumer_def)
  then show ?thesis by (simp add: reclaim_inv_def jm_inv_def jm_keys_def)
qed

lemma no_reclaim_step:
  "sc_reclaim_started c \<and> sc_reclaim_loops c = 0 \<Longrightarrow>
   sc_reclaim_started (consumer_op_step a o' c) \<and> sc_reclaim_loops (consumer_op_step a o' c) = 0"
  by (cases o') (auto simp: consumer_defs Let_def split: option.splits)

text \<open>
  Once a consumer's reclaim loop has ended after \<open>stop\<close>, no later call brings one back:
  a consumer that is started again consumes new entries but never re-delivers orphaned ones.
\<close>

theorem restarted_consumer_never_reclaims:
  assumes "sc_running c" "sc_reclaim_loops c = 1" "sc_reclaim_started c"
  shows "sc_reclaim_loops (run_consumer ops (reclaim_loop_exit (stop_consumer c))) = 0"
proof -
  let ?c = "reclaim_loop_exit (stop_consumer c)"
  have "sc_reclaim_started ?c \<and> sc_reclaim_loops ?c = 0"
    using assms by (simp add: consumer_defs)
  then have "sc_reclaim_started (run_consumer ops ?c) \<and> sc_reclaim_loops (run_consumer ops ?c) = 0"
    by (rule run_consumer_induct [where P = "\<lambda>c. sc_reclaim_started c \<and> sc_reclaim_loops c = 0"])
      (rule no_reclaim_step)
  then show ?thesis ..
qed

definition demo_reclaiming :: consumer where
  "demo_reclaiming = run_consumer [(None, Start (js ''s1'')), (None, Enable_reclaim 10000 30000)]
     (new_consumer (js ''g'') (js ''c''))"

theorem restarted_consumer_never_reclaims_witness:
  "sc_reclaim_loops demo_reclaiming = 1 \<and>
   sc_reclaim_loops (run_consumer [(None, Start (js ''s1'')), (None, Enable_reclaim 10000 30000)]
     (reclaim_loop_exit (stop_consumer demo_reclaiming))) = 0"
proof -
  have d: "sc_running demo_reclaiming" "sc_reclaim_loops demo_reclaiming = 1" "sc_reclaim_started demo_reclaiming"
    by (simp_all add: demo_reclaiming_def run_consumer_def consumer_defs new_consumer_def Let_def)
  show ?thesis using d(2) restarted_consumer_never_reclaims [OF d] by simp
qed

end
