(* ===== verification/Retry.thy ===== *)
theory Retry
  imports Complex_Main Js_Prelude
begin

text \<open>
  gateway/src/utils/retry.ts: retries with exponential backoff. The clock, the sleep, the
  random source, the attempted function and the callbacks act on a world \<open>'w\<close>. The numbers of
  \<open>calculateDelay\<close> are exact rationals.
\<close>

section \<open>Options\<close>

record 'e retry_options =
  ro_max_retries :: int
  ro_initial_delay :: rat
  ro_max_delay :: rat
  ro_multiplier :: rat
  ro_jitter :: bool
  ro_retry_on :: "('e \<Rightarrow> bool) option"

definition default_retry_options :: "'e retry_options" where
  "default_retry_options = \<lparr>ro_max_retries = 3, ro_initial_delay = 1000, ro_max_delay = 30000,
     ro_multiplier = 2, ro_jitter = True, ro_retry_on = None\<rparr>"

text \<open>What the executor uses of its surroundings.\<close>

record ('e, 'w) retry_env =
  re_now :: "'w \<Rightarrow> int"
  re_sleep :: "int \<Rightarrow> 'w \<Rightarrow> 'w"
  re_random :: "'w \<Rightarrow> rat \<times> 'w"
  re_on_retry :: "'e \<Rightarrow> int \<Rightarrow> int \<Rightarrow> 'w \<Rightarrow> 'w"

definition math_round :: "rat \<Rightarrow> int" where
  "math_round x = \<lfloor>x + 1 / 2\<rfloor>"

text \<open>\<open>calculateDelay\<close>; \<open>u\<close> is the value of \<open>Math.random()\<close>.\<close>

definition calculate_delay :: "nat \<Rightarrow> 'e retry_options \<Rightarrow> rat \<Rightarrow> int" where
  "calculate_delay attempt opts u =
     (let base = ro_initial_delay opts * ro_multiplier opts ^ attempt;
          delay = min base (ro_max_delay opts);
          range = delay * (1 / 4)
      in max 0 (math_round (if ro_jitter opts then delay - range + u * range * 2 else delay)))"

definition is_network_error :: "jval \<Rightarrow> bool" where
  "is_network_error err =
     (case err of
        JObj ob \<Rightarrow> (case field_of ob (js ''code'') of
            JStr code \<Rightarrow> code \<in> set (map js [''ECONNRESET'', ''ECONNREFUSED'', ''ETIMEDOUT'', ''EPIPE'',
              ''EAI_AGAIN'', ''ENOTFOUND'', ''EHOSTUNREACH'', ''ENETUNREACH''])
          | _ \<Rightarrow> False)
      | _ \<Rightarrow> False)"

definition is_retryable_status :: "int \<Rightarrow> bool" where
  "is_retryable_status code \<longleftrightarrow> code = 408 \<or> code = 429 \<or> code \<ge> 500"

section \<open>The executor\<close>

record 'a retry_result =
  rr_value :: 'a
  rr_attempts :: int
  rr_duration :: int

text \<open>The thrown error: its cause (none when no attempt was made), attempts and duration.\<close>

record 'e retry_error =
  rx_cause :: "'e option"
  rx_attempts :: int
  rx_duration :: int

definition retryable :: "'e retry_options \<Rightarrow> 'e \<Rightarrow> bool" where
  "retryable opts e = (case ro_retry_on opts of None \<Rightarrow> True | Some f \<Rightarrow> f e)"

definition retry_exhausted ::
  "('e, 'w) retry_env \<Rightarrow> int \<Rightarrow> int \<Rightarrow> 'e option \<Rightarrow> 'w \<Rightarrow> 'e retry_error" where
  "retry_exhausted E start attempt cause w =
     \<lparr>rx_cause = cause, rx_attempts = attempt + 1, rx_duration = re_now E w - start\<rparr>"

definition retry_pause :: "('e, 'w) retry_env \<Rightarrow> 'e retry_options \<Rightarrow> nat \<Rightarrow> 'e \<Rightarrow> 'w \<Rightarrow> 'w" where
  "retry_pause E opts i e w =
     (let (u, w1) = (if ro_jitter opts then re_random E w else (0, w));
          d = calculate_delay i opts u
      in re_sleep E d (re_on_retry E e (int i + 1) d w1))"

text \<open>The loop from attempt \<open>i\<close> on; \<open>lst\<close> and \<open>attempt\<close> are the loop's variables.\<close>

function retry_from ::
  "('e, 'w) retry_env \<Rightarrow> 'e retry_options \<Rightarrow> ('w \<Rightarrow> ('e + 'a) \<times> 'w) \<Rightarrow> int
     \<Rightarrow> nat \<Rightarrow> int \<Rightarrow> 'e option \<Rightarrow> 'w \<Rightarrow> ('e retry_error + 'a retry_result) \<times> 'w" where
  "retry_from E opts fn start i attempt lst w =
     (if ro_max_retries opts < int i then (Inl (retry_exhausted E start attempt lst w), w)
      else case fn w of
        (Inr v, w1) \<Rightarrow>
          (Inr \<lparr>rr_value = v, rr_attempts = int i + 1, rr_duration = re_now E w1 - start\<rparr>, w1)
      | (Inl e, w1) \<Rightarrow>
          if ro_max_retries opts \<le> int i \<or> \<not> retryable opts e
          then (Inl (retry_exhausted E start (int i) (Some e) w1), w1)
          else retry_from E opts fn start (Suc i) (int i) (Some e) (retry_pause E opts i e w1))"
  by pat_completeness auto
termination
  by (relation "measure (\<lambda>(_, opts, _, _, i, _). nat (ro_max_retries opts - int i))") auto

declare retry_from.simps [simp del]

definition with_retry ::
  "('e, 'w) retry_env \<Rightarrow> 'e retry_options \<Rightarrow> ('w \<Rightarrow> ('e + 'a) \<times> 'w) \<Rightarrow> 'w
     \<Rightarrow> ('e retry_error + 'a retry_result) \<times> 'w" where
  "with_retry E opts fn w = retry_from E opts fn (re_now E w) 0 0 None w"

text \<open>
  \<open>withTimeout\<close>: which of the two promises of the race settles first is the world's choice;
  \<open>None\<close> means that the timer fires first.
\<close>

definition with_timeout ::
  "(int \<Rightarrow> 'e) \<Rightarrow> (int \<Rightarrow> ('w \<Rightarrow> ('e + 'a) \<times> 'w) \<Rightarrow> 'w \<Rightarrow> ('e + 'a) option \<times> 'w) \<Rightarrow> int
     \<Rightarrow> ('w \<Rightarrow> ('e + 'a) \<times> 'w) \<Rightarrow> 'w \<Rightarrow> ('e + 'a) \<times> 'w" where
  "with_timeout timeout_error race ms fn w =
     (case race ms fn w of
        (Some res, w1) \<Rightarrow> (res, w1)
      | (None, w1) \<Rightarrow> (Inl (timeout_error ms), w1))"

definition with_retry_and_timeout ::
  "('e, 'w) retry_env \<Rightarrow> (int \<Rightarrow> 'e) \<Rightarrow> (int \<Rightarrow> ('w \<Rightarrow> ('e + 'a) \<times> 'w) \<Rightarrow> 'w \<Rightarrow> ('e + 'a) option \<times> 'w)
     \<Rightarrow> 'e retry_options \<Rightarrow> int option \<Rightarrow> ('w \<Rightarrow> ('e + 'a) \<times> 'w) \<Rightarrow> 'w
     \<Rightarrow> ('e retry_error + 'a retry_result) \<times> 'w" where
  "with_retry_and_timeout E timeout_error race opts ms fn w =
     with_retry E opts
       (\<lambda>w. if ms \<noteq> None \<and> ms \<noteq> Some 0 then with_timeout timeout_error race (the ms) fn w else fn w) w"

section \<open>Attempts\<close>

text \<open>
  A function whose outcomes are a list, over a world that counts the calls, logs the delays and
  draws the random values from a list.
\<close>

record scripted =
  sw_calls :: nat
  sw_delays :: "int list"
  sw_rands :: "rat list"

definition scripted_env :: "('e, scripted) retry_env" where
  "scripted_env = \<lparr>re_now = (\<lambda>w. sum_list (sw_delays w)),
     re_sleep = (\<lambda>d w. w\<lparr>sw_delays := sw_delays w @ [d]\<rparr>),
     re_random = (\<lambda>w. (hd (sw_rands w @ [0]), w\<lparr>sw_rands := tl (sw_rands w)\<rparr>)),
     re_on_retry = (\<lambda>e n d w. w)\<rparr>"

definition scripted_fn :: "(nat \<Rightarrow> 'e + 'a) \<Rightarrow> scripted \<Rightarrow> ('e + 'a) \<times> scripted" where
  "scripted_fn out w = (out (sw_calls w), w\<lparr>sw_calls := Suc (sw_calls w)\<rparr>)"

lemma retry_pause_scripted:
  "sw_calls (retry_pause scripted_env opts i e w) = sw_calls w"
  "length (sw_delays (retry_pause scripted_env opts i e w)) = Suc (length (sw_delays w))"
  by (auto simp: retry_pause_def scripted_env_def Let_def split: prod.splits)

definition stops_at :: "'e retry_options \<Rightarrow> (nat \<Rightarrow> 'e + 'a) \<Rightarrow> nat \<Rightarrow> bool" where
  "stops_at opts out k \<longleftrightarrow>
     (\<forall>j<k. case out j of Inl e \<Rightarrow> retryable opts e | Inr _ \<Rightarrow> False) \<and> int k \<le> ro_max_retries opts
     \<and> (case out k of Inl e \<Rightarrow> int k = ro_max_retries opts \<or> \<not> retryable opts e | Inr _ \<Rightarrow> True)"

definition retry_outcome :: "('e retry_error + 'a retry_result) \<Rightarrow> ('e + 'a) \<times> int" where
  "retry_outcome res = (case res of Inl x \<Rightarrow> (Inl (the (rx_cause x)), rx_attempts x)
     | Inr y \<Rightarrow> (Inr (rr_value y), rr_attempts y))"

lemma retry_from_scripted:
  assumes "stops_at opts out k" "i \<le> k" "sw_calls w = i" "length (sw_delays w) = i"
  shows "(let (res, w') = retry_from scripted_env opts (scripted_fn out) start i att lst w
          in retry_outcome res = (out k, int k + 1) \<and> sw_calls w' = Suc k \<and> length (sw_delays w') = k)"
  using assms
proof (induction "k - i" arbitrary: i att lst w)
  case 0
  then have ik: "i = k" by simp
  show ?case
  proof (cases "out k")
    case (Inl e)
    with 0 ik show ?thesis
      by (subst retry_from.simps)
         (auto simp: scripted_fn_def stops_at_def retry_outcome_def retry_exhausted_def Let_def)
  next
    case (Inr v)
    with 0 ik show ?thesis
      by (subst retry_from.simps)
         (auto simp: scripted_fn_def stops_at_def retry_outcome_def Let_def)
  qed
next
  case (Suc n)
  then have lt: "i < k" by simp
  with Suc.prems(1) obtain e where e: "out i = Inl e" "retryable opts e"
    unfolding stops_at_def by (metis (no_types, lifting) old.sum.exhaust sum.case(1) sum.case(2))
  have mx: "int i < ro_max_retries opts" using Suc.prems(1) lt by (simp add: stops_at_def)
  let ?w = "retry_pause scripted_env opts i e (w\<lparr>sw_calls := Suc i\<rparr>)"
  have "retry_from scripted_env opts (scripted_fn out) start i att lst w
      = retry_from scripted_env opts (scripted_fn out) start (Suc i) (int i) (Some e) ?w"
    using e mx Suc.prems by (subst retry_from.simps) (simp add: scripted_fn_def)
  with Suc.hyps(1) [of "Suc i" ?w "int i" "Some e"] Suc.hyps(2) Suc.prems lt show ?case
    by (simp add: retry_pause_scripted)
qed

text \<open>
  C10: \<open>withRetry\<close> calls the function once per attempt and pauses between attempts, until the
  first call that succeeds, fails with an error that is not retryable, or is the last one
  allowed: it returns (or rethrows) the outcome of that call, having made exactly that many
  attempts and one pause less.
\<close>

theorem retry_stops_at_first_final_outcome:
  assumes "stops_at opts out k"
  shows "(let (res, w') = with_retry scripted_env opts (scripted_fn out)
              \<lparr>sw_calls = 0, sw_delays = [], sw_rands = us\<rparr>
          in retry_outcome res = (out k, int k + 1) \<and> sw_calls w' = Suc k \<and> length (sw_delays w') = k)"
  unfolding with_retry_def using assms by (rule retry_from_scripted) simp_all

theorem retry_stops_at_first_final_outcome_witness:
  "retry_outcome (fst (with_retry scripted_env default_retry_options
      (scripted_fn (\<lambda>n. if n < 2 then Inl ''down'' else Inr n))
      \<lparr>sw_calls = 0, sw_delays = [], sw_rands = []\<rparr>)) = (Inr 2, 3)"
proof -
  have "stops_at default_retry_options (\<lambda>n. if n < 2 then Inl ''down'' else Inr n) 2"
    by (auto simp: stops_at_def default_retry_options_def retryable_def)
  from retry_stops_at_first_final_outcome [OF this, of "[]"] show ?thesis
    by (simp add: Let_def split: prod.splits)
qed

section \<open>Delays\<close>

lemma math_round_mono: "x \<le> y \<Longrightarrow> math_round x \<le> math_round y"
  by (simp add: math_round_def floor_mono)

lemma math_round_numeral [simp]: "math_round (numeral n) = numeral n"
  by (simp add: math_round_def floor_eq_iff)

text \<open>
  The pause before a retry is never negative, never more than a quarter above the
  configured maximum, and within a quarter of the exponential delay it is computed from.
\<close>

theorem retry_delay_bounds:
  fixes n :: nat
  assumes "0 \<le> ro_initial_delay opts" "0 \<le> ro_multiplier opts" "0 \<le> ro_max_delay opts"
    and "0 \<le> u" "u < 1"
  defines "d \<equiv> min (ro_initial_delay opts * ro_multiplier opts ^ n) (ro_max_delay opts)"
  shows "0 \<le> calculate_delay n opts u \<and>
    math_round (d * (3 / 4)) \<le> calculate_delay n opts u \<and>
    calculate_delay n opts u \<le> math_round (d * (5 / 4)) \<and>
    calculate_delay n opts u \<le> math_round (ro_max_delay opts * (5 / 4)) \<and>
    (\<not> ro_jitter opts \<longrightarrow> calculate_delay n opts u = math_round d)"
proof -
  have d0: "0 \<le> d" using assms by (simp add: d_def)
  define x where "x = (if ro_jitter opts then d - d * (1 / 4) + u * (d * (1 / 4)) * 2 else d)"
  have ud: "0 \<le> u * d" "u * d \<le> d" using d0 assms(4,5) by (simp_all add: mult_left_le_one_le)
  then have x: "d * (3 / 4) \<le> x" "x \<le> d * (5 / 4)" using d0 by (auto simp: x_def mult.commute)
  have "0 \<le> math_round x" using x d0 by (simp add: math_round_def)
  then have c: "calculate_delay n opts u = math_round x"
    unfolding calculate_delay_def Let_def x_def d_def by (rule max_absorb2)
  have "d * (5 / 4) \<le> ro_max_delay opts * (5 / 4)" by (simp add: d_def)
  then have "math_round (d * (5 / 4)) \<le> math_round (ro_max_delay opts * (5 / 4))" by (rule math_round_mono)
  then show ?thesis
    using x [THEN math_round_mono] \<open>0 \<le> math_round x\<close> by (auto simp: c) (simp add: x_def)
qed

theorem retry_delay_bounds_witness:
  "calculate_delay 10 (default_retry_options :: nat retry_options) (1 / 2) \<le> 37500"
  using retry_delay_bounds [of "default_retry_options :: nat retry_options" "1 / 2" 10]
  by (simp add: default_retry_options_def)

end
