(* ===== verification/Rate_Limit.thy ===== *)
theory Rate_Limit
  imports Js_Map
begin

text \<open>
  gateway/src/middleware/rateLimit.ts: the sliding-window limiter over Redis sorted sets, the
  combined check and the request hook. The Lua script is one step on the store; the time in
  milliseconds and the random suffix of a member are arguments.
\<close>

section \<open>Configuration and store\<close>

record rate_config =
  rc_global_window :: int
  rc_global_max :: int
  rc_user_window :: int
  rc_user_max :: int
  rc_ip_window :: int
  rc_ip_max :: int

definition default_rate_config :: rate_config where
  "default_rate_config = \<lparr>rc_global_window = 60, rc_global_max = 1000, rc_user_window = 60,
     rc_user_max = 60, rc_ip_window = 60, rc_ip_max = 100\<rparr>"

record rate_result =
  rl_allowed :: bool
  rl_remaining :: int
  rl_reset_at :: int
  rl_key :: jstr

text \<open>The sorted sets of the server: members with scores, and the time the key expires.\<close>

type_synonym zsets = "jstr \<Rightarrow> (jstr, int) jmap \<times> int"

definition zlive :: "int \<Rightarrow> (jstr, int) jmap \<times> int \<Rightarrow> (jstr, int) jmap" where
  "zlive now z = (if snd z \<le> now then [] else fst z)"

text \<open>\<open>ZREMRANGEBYSCORE key -inf window_start\<close>.\<close>

definition zprune :: "int \<Rightarrow> (jstr, int) jmap \<Rightarrow> (jstr, int) jmap" where
  "zprune start zs = filter (\<lambda>e. start < snd e) zs"

section \<open>The limiter\<close>

definition limit_script ::
  "jstr \<Rightarrow> int \<Rightarrow> int \<Rightarrow> int \<Rightarrow> jstr \<Rightarrow> int \<Rightarrow> zsets \<Rightarrow> (bool \<times> int) \<times> zsets" where
  "limit_script key now start max_requests member window Z =
     (let zs = zprune start (zlive now (Z key)); count = int (length zs)
      in if max_requests \<le> count
         then ((False, max_requests - count), Z(key := (zs, snd (Z key))))
         else ((True, max_requests - count - 1),
               Z(key := (jm_set member now zs, now + (window + 1) * 1000))))"

definition limit_member :: "int \<Rightarrow> jstr \<Rightarrow> jstr" where
  "limit_member now rnd = int_dec now @ js '':'' @ rnd"

definition check :: "jstr \<Rightarrow> int \<Rightarrow> int \<Rightarrow> int \<Rightarrow> jstr \<Rightarrow> zsets \<Rightarrow> rate_result \<times> zsets" where
  "check key window max_requests now rnd Z =
     (let ((ok, left), Z') = limit_script key now (now - window * 1000) max_requests
            (limit_member now rnd) window Z
      in (\<lparr>rl_allowed = ok, rl_remaining = max 0 left, rl_reset_at = (now + window * 1000) div 1000,
            rl_key = key\<rparr>, Z'))"

definition user_key :: "jstr \<Rightarrow> jstr \<Rightarrow> jstr" where "user_key p u = p @ js ''rate:user:'' @ u"
definition ip_key :: "jstr \<Rightarrow> jstr \<Rightarrow> jstr" where "ip_key p ip = p @ js ''rate:ip:'' @ ip"
definition global_key :: "jstr \<Rightarrow> jstr" where "global_key p = p @ js ''rate:global''"

definition check_user :: "rate_config \<Rightarrow> jstr \<Rightarrow> jstr \<Rightarrow> int \<Rightarrow> jstr \<Rightarrow> zsets \<Rightarrow> rate_result \<times> zsets" where
  "check_user cfg p u = check (user_key p u) (rc_user_window cfg) (rc_user_max cfg)"

definition check_ip :: "rate_config \<Rightarrow> jstr \<Rightarrow> jstr \<Rightarrow> int \<Rightarrow> jstr \<Rightarrow> zsets \<Rightarrow> rate_result \<times> zsets" where
  "check_ip cfg p ip = check (ip_key p ip) (rc_ip_window cfg) (rc_ip_max cfg)"

definition check_global :: "rate_config \<Rightarrow> jstr \<Rightarrow> int \<Rightarrow> jstr \<Rightarrow> zsets \<Rightarrow> rate_result \<times> zsets" where
  "check_global cfg p = check (global_key p) (rc_global_window cfg) (rc_global_max cfg)"

fun least_remaining :: "rate_result \<Rightarrow> rate_result list \<Rightarrow> rate_result" where
  "least_remaining m [] = m"
| "least_remaining m (r # rs) = least_remaining (if rl_remaining r < rl_remaining m then r else m) rs"

fun pick_result :: "rate_result \<Rightarrow> rate_result list \<Rightarrow> rate_result" where
  "pick_result r rs = (case filter (\<lambda>x. \<not> rl_allowed x) (r # rs) of d # _ \<Rightarrow> d | [] \<Rightarrow> least_remaining r rs)"

text \<open>
  \<open>checkAll\<close>: the checks are started in order; each of them runs as one script. \<open>at i\<close> gives
  the time and the random suffix of the i-th.
\<close>

definition check_all ::
  "rate_config \<Rightarrow> jstr \<Rightarrow> jstr option \<Rightarrow> jstr \<Rightarrow> (nat \<Rightarrow> int \<times> jstr) \<Rightarrow> zsets \<Rightarrow> rate_result \<times> zsets" where
  "check_all cfg p uid ip at Z =
     (let (r1, Z1) = check_ip cfg p ip (fst (at 0)) (snd (at 0)) Z;
          (r2, Z2) = check_global cfg p (fst (at 1)) (snd (at 1)) Z1
      in case uid of
           None \<Rightarrow> (pick_result r1 [r2], Z2)
         | Some u \<Rightarrow> (let (r3, Z3) = check_user cfg p u (fst (at 2)) (snd (at 2)) Z2
                     in (pick_result r1 [r2, r3], Z3)))"

section \<open>The request hook\<close>

record limit_reply =
  lr_passed :: bool
  lr_status :: "int option"
  lr_headers :: "(jstr \<times> jstr) list"

text \<open>
  The \<open>preHandler\<close> hook. \<open>None\<close> for the check's result means that the server call failed:
  the request passes.
\<close>

definition rate_limit_hook :: "rate_config \<Rightarrow> rate_result option \<Rightarrow> limit_reply" where
  "rate_limit_hook cfg res =
     (case res of
        None \<Rightarrow> \<lparr>lr_passed = True, lr_status = None, lr_headers = []\<rparr>
      | Some r \<Rightarrow>
          if \<not> rl_allowed r
          then \<lparr>lr_passed = False, lr_status = Some 429, lr_headers =
                 [(js ''X-RateLimit-Limit'', int_dec (rc_user_max cfg)),
                  (js ''X-RateLimit-Remaining'', js ''0''),
                  (js ''X-RateLimit-Reset'', int_dec (rl_reset_at r))]\<rparr>
          else \<lparr>lr_passed = True, lr_status = None, lr_headers =
                 [(js ''X-RateLimit-Remaining'', int_dec (rl_remaining r)),
                  (js ''X-RateLimit-Reset'', int_dec (rl_reset_at r))]\<rparr>)"

section \<open>The window\<close>

text \<open>A sequence of checks of one key, and the reference: admit while the window is not full.\<close>

primrec run_checks :: "jstr \<Rightarrow> int \<Rightarrow> int \<Rightarrow> (int \<times> jstr) list \<Rightarrow> zsets \<Rightarrow> bool list" where
  "run_checks key w mx [] Z = []"
| "run_checks key w mx (e # es) Z =
     (case check key w mx (fst e) (snd e) Z of (r, Z') \<Rightarrow> rl_allowed r # run_checks key w mx es Z')"

definition in_window :: "int \<Rightarrow> int \<Rightarrow> int list \<Rightarrow> int list" where
  "in_window w now ts = filter (\<lambda>t. now - w * 1000 < t \<and> t \<le> now) ts"

primrec admit :: "int \<Rightarrow> int \<Rightarrow> int list \<Rightarrow> int list \<Rightarrow> bool list" where
  "admit w mx adm [] = []"
| "admit w mx adm (t # ts) =
     (if mx \<le> int (length (in_window w t adm)) then False # admit w mx adm ts
      else True # admit w mx (adm @ [t]) ts)"

text \<open>The store agrees with the admitted requests, for every time from \<open>now\<close> on.\<close>

definition window_inv :: "int \<Rightarrow> (jstr, int) jmap \<times> int \<Rightarrow> (jstr \<times> int) list \<Rightarrow> int \<Rightarrow> bool" where
  "window_inv w z adm now \<longleftrightarrow>
     (\<forall>t \<ge> now. zprune (t - w * 1000) (zlive t z) = zprune (t - w * 1000) adm) \<and>
     (\<forall>e \<in> set adm. snd e \<le> now)"

lemma zprune_zprune: "s \<le> s' \<Longrightarrow> zprune s' (zprune s zs) = zprune s' zs"
  by (auto simp: zprune_def intro: filter_cong)

lemma zlive_prune: "zprune s (zlive t z) = zlive t (zprune s (fst z), snd z)"
  by (simp add: zlive_def zprune_def)

lemma window_inv_denied:
  assumes "window_inv w z adm now" "now \<le> t"
  shows "window_inv w (zprune (t - w * 1000) (zlive t z), snd z) adm t"
proof -
  have "zprune (t' - w * 1000) (zlive t' (zprune (t - w * 1000) (zlive t z), snd z))
      = zprune (t' - w * 1000) (zlive t' z)" if "t \<le> t'" for t'
    using that by (auto simp: zlive_def zprune_zprune)
  with assms show ?thesis by (fastforce simp: window_inv_def)
qed

lemma jm_set_new: "k \<notin> fst ` set m \<Longrightarrow> jm_set k v m = m @ [(k, v)]"
  by (induction m) (auto simp: jm_set_def)

lemma window_inv_admitted:
  assumes inv: "window_inv w z adm now" and t: "now \<le> t" and m: "m \<notin> fst ` set adm"
  shows "window_inv w (jm_set m t (zprune (t - w * 1000) (zlive t z)), t + (w + 1) * 1000) (adm @ [(m, t)]) t"
proof -
  have eq: "zprune (t - w * 1000) (zlive t z) = zprune (t - w * 1000) adm"
    using inv t by (simp add: window_inv_def)
  have "m \<notin> fst ` set (zprune (t - w * 1000) adm)" using m by (auto simp: zprune_def)
  then have new: "jm_set m t (zprune (t - w * 1000) adm) = zprune (t - w * 1000) adm @ [(m, t)]"
    by (rule jm_set_new)
  have old: "snd e \<le> t" if "e \<in> set adm" for e using inv t that by (force simp: window_inv_def)
  have "zprune (t' - w * 1000) (zlive t' (zprune (t - w * 1000) adm @ [(m, t)], t + (w + 1) * 1000))
      = zprune (t' - w * 1000) (adm @ [(m, t)])" if "t \<le> t'" for t'
  proof (cases "t + (w + 1) * 1000 \<le> t'")
    case True
    then have "zprune (t' - w * 1000) (adm @ [(m, t)]) = []"
      using old by (force simp: zprune_def filter_empty_conv algebra_simps)
    with True show ?thesis by (simp add: zlive_def) (simp add: zprune_def)
  next
    case False
    have "zprune (t' - w * 1000) (zprune (t - w * 1000) adm) = zprune (t' - w * 1000) adm"
      using that by (simp add: zprune_zprune)
    with False show ?thesis by (simp add: zlive_def zprune_def)
  qed
  with eq new old show ?thesis by (auto simp: window_inv_def)
qed

lemma length_in_window:
  assumes "window_inv w z adm now" "now \<le> t"
  shows "length (zprune (t - w * 1000) (zlive t z)) = length (in_window w t (map snd adm))"
proof -
  have "filter (\<lambda>e. t - w * 1000 < snd e) adm = filter (\<lambda>e. t - w * 1000 < snd e \<and> snd e \<le> t) adm"
    using assms by (intro filter_cong) (auto simp: window_inv_def)
  with assms show ?thesis
    by (simp add: window_inv_def in_window_def filter_map o_def zprune_def)
qed

definition members :: "(int \<times> jstr) list \<Rightarrow> jstr list" where
  "members es = map (\<lambda>e. limit_member (fst e) (snd e)) es"

lemma run_checks_admit:
  assumes "window_inv w (Z key) adm now" "sorted (map fst es)" "\<forall>e \<in> set es. now \<le> fst e"
    and "distinct (members es)" "set (members es) \<inter> fst ` set adm = {}"
  shows "run_checks key w mx es Z = admit w mx (map snd adm) (map fst es)"
  using assms
proof (induction es arbitrary: Z adm now)
  case Nil
  then show ?case by simp
next
  case (Cons e es)
  obtain t rnd where e: "e = (t, rnd)" by (cases e)
  have t: "now \<le> t" using Cons.prems e by simp
  let ?zs = "zprune (t - w * 1000) (zlive t (Z key))"
  have len: "length ?zs = length (in_window w t (map snd adm))"
    using length_in_window [OF Cons.prems(1) t] .
  have rest: "sorted (map fst es)" "\<forall>e \<in> set es. t \<le> fst e" "distinct (members es)"
    using Cons.prems e by (auto simp: members_def)
  show ?case
  proof (cases "mx \<le> int (length ?zs)")
    case True
    have "run_checks key w mx es (Z(key := (?zs, snd (Z key)))) = admit w mx (map snd adm) (map fst es)"
      by (rule Cons.IH [OF _ rest])
        (use window_inv_denied [OF Cons.prems(1) t] Cons.prems(5) in \<open>auto simp: members_def\<close>)
    with True show ?thesis by (simp add: e check_def limit_script_def Let_def flip: len)
  next
    case False
    let ?m = "limit_member t rnd"
    let ?Z = "Z(key := (jm_set ?m t ?zs, t + (w + 1) * 1000))"
    have "?m \<notin> fst ` set adm" using Cons.prems(5) e by (auto simp: members_def)
    then have "window_inv w (?Z key) (adm @ [(?m, t)]) t"
      using window_inv_admitted [OF Cons.prems(1) t] by simp
    then have "run_checks key w mx es ?Z = admit w mx (map snd (adm @ [(?m, t)])) (map fst es)"
      by (rule Cons.IH [OF _ rest]) (use Cons.prems(4,5) e in \<open>auto simp: members_def\<close>)
    with False show ?thesis by (simp add: e check_def limit_script_def Let_def flip: len)
  qed
qed

definition fresh_sets :: zsets where
  "fresh_sets = (\<lambda>_. ([], 0))"

lemma window_inv_fresh: "window_inv w (fresh_sets k) [] 0"
  by (simp add: window_inv_def fresh_sets_def zlive_def zprune_def)

text \<open>
  C6: The limiter admits a request exactly when fewer than the maximum were admitted in the
  window that ends with it: pruning and expiry of the sorted set lose no request that still
  counts, and a request that was turned away does not count.
\<close>

theorem limiter_is_sliding_window:
  assumes "sorted (map fst es)" "\<forall>e \<in> set es. 0 \<le> fst e" "distinct (members es)"
  shows "run_checks key w mx es fresh_sets = admit w mx [] (map fst es)"
  using run_checks_admit [OF window_inv_fresh assms(1,2,3)] by simp

definition demo_requests :: "(int \<times> jstr) list" where
  "demo_requests = [(1000, js ''a''), (1500, js ''b''), (1600, js ''c''), (2200, js ''d'')]"

lemma demo_requests_ok:
  "sorted (map fst demo_requests)" "\<forall>e \<in> set demo_requests. 0 \<le> fst e" "distinct (members demo_requests)"
  by (simp_all add: demo_requests_def members_def limit_member_def int_dec_def nat_dec.simps js_def)

theorem limiter_is_sliding_window_witness:
  "run_checks (js ''k'') 1 2 demo_requests fresh_sets = [True, True, False, True]"
  unfolding limiter_is_sliding_window [OF demo_requests_ok]
  by (simp add: demo_requests_def in_window_def)

text \<open>The admitted times, and how many of them fall into a window.\<close>

definition admitted :: "int list \<Rightarrow> bool list \<Rightarrow> int list" where
  "admitted ts oks = map fst (filter snd (zip ts oks))"

lemma admit_bound:
  assumes "sorted (adm @ ts)" "\<And>T. int (length (in_window w T adm)) \<le> mx" "0 \<le> w"
  shows "int (length (in_window w T (adm @ admitted ts (admit w mx adm ts)))) \<le> mx"
  using assms(1,2)
proof (induction ts arbitrary: adm)
  case Nil
  then show ?case by (simp add: admitted_def)
next
  case (Cons t ts)
  show ?case
  proof (cases "mx \<le> int (length (in_window w t adm))")
    case True
    with Cons.IH [of adm] Cons.prems show ?thesis by (simp add: admitted_def sorted_append)
  next
    case False
    have old: "a \<le> t" if "a \<in> set adm" for a using Cons.prems(1) that by (auto simp: sorted_append)
    have "int (length (in_window w T (adm @ [t]))) \<le> mx" for T
    proof (cases "T - w * 1000 < t \<and> t \<le> T")
      case True
      have "filter (\<lambda>a. T - w * 1000 < a \<and> a \<le> T) adm = filter (\<lambda>a. T - w * 1000 < a \<and> a \<le> t) adm"
        using old True by (intro filter_cong) (auto dest: old)
      moreover have "length (filter (\<lambda>a. T - w * 1000 < a \<and> a \<le> t) adm)
          \<le> length (filter (\<lambda>a. t - w * 1000 < a \<and> a \<le> t) adm)"
        using True by (induction adm) auto
      ultimately show ?thesis using False True by (simp add: in_window_def)
    next
      case False
      with Cons.prems(2) [of T] show ?thesis by (auto simp: in_window_def)
    qed
    from Cons.IH [OF _ this] Cons.prems(1) False show ?thesis by (simp add: admitted_def)
  qed
qed

text \<open>
  Whatever the requests, no window of the configured length ever holds more admitted
  requests of one key than the configured maximum.
\<close>

theorem limiter_never_exceeds_maximum:
  assumes "sorted (map fst es)" "\<forall>e \<in> set es. 0 \<le> fst e" "distinct (members es)" "0 \<le> w" "0 \<le> mx"
  shows "int (length (in_window w T (admitted (map fst es) (run_checks key w mx es fresh_sets)))) \<le> mx"
proof -
  have "run_checks key w mx es fresh_sets = admit w mx [] (map fst es)"
    using run_checks_admit [OF window_inv_fresh assms(1,2,3)] by simp
  with admit_bound [of "[]" "map fst es" w mx T] assms(1,4,5) show ?thesis
    by (simp add: in_window_def)
qed

theorem limiter_never_exceeds_maximum_witness:
  "int (length (in_window 1 1900 (admitted (map fst demo_requests)
     (run_checks (js ''k'') 1 2 demo_requests fresh_sets)))) \<le> 2"
  by (rule limiter_never_exceeds_maximum [OF demo_requests_ok]) simp_all

section \<open>The combined check\<close>

lemma least_remaining_mem: "least_remaining m rs \<in> insert m (set rs)"
proof (induction rs arbitrary: m)
  case Nil
  then show ?case by simp
next
  case (Cons r rs)
  from Cons.IH [of r] Cons.IH [of m] show ?case by (auto split: if_splits)
qed

lemma least_remaining_le: "x \<in> insert m (set rs) \<Longrightarrow> rl_remaining (least_remaining m rs) \<le> rl_remaining x"
proof (induction rs arbitrary: m x)
  case Nil
  then show ?case by simp
next
  case (Cons r rs)
  from Cons.IH [of m m] Cons.IH [of r r] Cons.IH [of x m] Cons.IH [of x r] Cons.prems
  show ?case by (auto split: if_splits)
qed

lemma pick_result_allowed: "rl_allowed (pick_result r rs) \<longleftrightarrow> (\<forall>x \<in> insert r (set rs). rl_allowed x)"
proof (cases "filter (\<lambda>x. \<not> rl_allowed x) (r # rs)")
  case Nil
  then have all: "\<forall>x \<in> insert r (set rs). rl_allowed x" by (auto simp: filter_empty_conv split: if_splits)
  with Nil least_remaining_mem [of r rs] show ?thesis by (auto simp del: filter.simps)
next
  case (Cons d ds)
  then have "d \<in> set (filter (\<lambda>x. \<not> rl_allowed x) (r # rs))" by (simp del: filter.simps)
  then have "\<not> rl_allowed d" "d \<in> insert r (set rs)" unfolding set_filter by auto
  with Cons show ?thesis by (auto simp del: filter.simps)
qed

text \<open>A check reads and writes its own key only.\<close>

lemma check_local:
  "snd (check k w mx now rnd Z) k' = (if k' = k then snd (check k w mx now rnd Z) k else Z k')"
  "Z k = Z2 k \<Longrightarrow> fst (check k w mx now rnd Z) = fst (check k w mx now rnd Z2)"
  by (auto simp: check_def limit_script_def Let_def)

lemma check_after_other:
  "k \<noteq> k' \<Longrightarrow> fst (check k w mx now rnd (snd (check k' w' mx' now' rnd' Z))) = fst (check k w mx now rnd Z)"
  by (rule check_local(2)) (simp add: check_local(1) [of k'])

lemma check_after_others:
  "k \<noteq> k' \<Longrightarrow> k \<noteq> k2 \<Longrightarrow>
   fst (check k w mx now rnd (snd (check k' w' mx' now' rnd' (snd (check k2 w2 mx2 now2 rnd2 Z)))))
     = fst (check k w mx now rnd Z)"
  by (simp add: check_after_other)

lemma rate_keys:
  "global_key p \<noteq> ip_key p ip" "user_key p u \<noteq> global_key p" "user_key p u \<noteq> ip_key p ip"
  by (simp_all add: ip_key_def global_key_def user_key_def js_def of_char_cu_inject)

lemma check_all_some:
  "fst (check_all cfg p (Some u) ip at Z) =
     pick_result (fst (check_ip cfg p ip (fst (at 0)) (snd (at 0)) Z))
       [fst (check_global cfg p (fst (at 1)) (snd (at 1)) Z),
        fst (check_user cfg p u (fst (at 2)) (snd (at 2)) Z)]"
  by (simp add: check_all_def check_ip_def check_global_def check_user_def split_beta Let_def
      check_after_other check_after_others rate_keys del: pick_result.simps)

text \<open>
  The combined check of a request of an identified user passes exactly when the address,
  the global and the user window each admit it, and then reports the fewest remaining
  requests of the three; the three windows are kept under different keys, so each check sees
  its window as it was.
\<close>

theorem combined_check_is_conjunction:
  assumes "r1 = fst (check_ip cfg p ip (fst (at 0)) (snd (at 0)) Z)"
    and "r2 = fst (check_global cfg p (fst (at 1)) (snd (at 1)) Z)"
    and "r3 = fst (check_user cfg p u (fst (at 2)) (snd (at 2)) Z)"
    and "r = fst (check_all cfg p (Some u) ip at Z)"
  shows "(rl_allowed r \<longleftrightarrow> rl_allowed r1 \<and> rl_allowed r2 \<and> rl_allowed r3) \<and>
    (rl_allowed r \<longrightarrow> rl_remaining r = min (rl_remaining r1) (min (rl_remaining r2) (rl_remaining r3)))"
proof -
  have r: "r = pick_result r1 [r2, r3]" using assms by (simp only: check_all_some)
  have al: "rl_allowed r \<longleftrightarrow> rl_allowed r1 \<and> rl_allowed r2 \<and> rl_allowed r3"
    unfolding r pick_result_allowed by auto
  moreover have "rl_remaining r = min (rl_remaining r1) (min (rl_remaining r2) (rl_remaining r3))" if "rl_allowed r"
    using that al r by auto
  ultimately show ?thesis by blast
qed

theorem combined_check_is_conjunction_witness:
  "rl_remaining (fst (check_all default_rate_config (js ''aip:'') (Some (js ''u'')) (js ''10.0.0.1'')
     (\<lambda>i. (5000, [])) fresh_sets)) = 59"
  using combined_check_is_conjunction [where cfg = default_rate_config and p = "js ''aip:''"
      and ip = "js ''10.0.0.1''" and at = "\<lambda>i. (5000, [])" and Z = fresh_sets and u = "js ''u''",
      OF refl refl refl refl]
  by (simp add: check_ip_def check_global_def check_user_def check_def limit_script_def fresh_sets_def
      zlive_def zprune_def default_rate_config_def del: pick_result.simps)

text \<open>
  A request that one window turns away has already been counted by the others: the script of
  each window runs whatever the others answer.
\<close>

lemma denied_request_still_counts:
  "snd (check_all cfg p (Some u) ip at Z) (user_key p u) =
   snd (check_user cfg p u (fst (at 2)) (snd (at 2)) Z) (user_key p u)"
  using rate_keys(2) [of p u] rate_keys(3) [of p u ip]
  by (simp add: check_all_def check_ip_def check_global_def check_user_def split_beta Let_def
      check_def limit_script_def)

end
