(* ===== verification/Channel.thy ===== *)
theory Channel
  imports Js_Map
begin

text \<open>
  gateway/src/channels/ChannelCapability.ts, channels/CapabilityRegistry.ts and
  router/ChannelResolver.ts: what each channel can show, the registry of these declarations,
  and how a request or a session identifier is assigned to a channel.
\<close>

section \<open>Channels\<close>

datatype channel_type = Wecom_H5 | Wecom_Bot | H5

datatype markdown_level = Md_full | Md_limited | Md_none

datatype event_type = Text_delta | Tool_call | Tool_result | Ui_render | Approval_request
  | Dispatch_trace | Error_event | Done_event

datatype card_type = Text_notice | News_notice | Button_interaction | Vote_interaction
  | Multiple_interaction | Template_notice

fun channel_name :: "channel_type \<Rightarrow> jstr" where
  "channel_name Wecom_H5 = js ''wecom-h5''"
| "channel_name Wecom_Bot = js ''wecom-bot''"
| "channel_name H5 = js ''h5''"

fun card_name :: "card_type \<Rightarrow> jstr" where
  "card_name Text_notice = js ''text_notice''"
| "card_name News_notice = js ''news_notice''"
| "card_name Button_interaction = js ''button_interaction''"
| "card_name Vote_interaction = js ''vote_interaction''"
| "card_name Multiple_interaction = js ''multiple_interaction''"
| "card_name Template_notice = js ''template_notice''"

lemma channel_name_inject [simp]: "channel_name c = channel_name c' \<longleftrightarrow> c = c'"
  by (cases c; cases c') simp_all

lemma card_name_inject [simp]: "card_name c = card_name c' \<longleftrightarrow> c = c'"
  by (cases c; cases c') simp_all

text \<open>Channels are kept in sorted containers by their place in the declaration.\<close>

fun channel_rank :: "channel_type \<Rightarrow> nat" where
  "channel_rank Wecom_H5 = 0"
| "channel_rank Wecom_Bot = 1"
| "channel_rank H5 = 2"

lemma channel_rank_inject: "channel_rank c = channel_rank c' \<Longrightarrow> c = c'"
  by (cases c; cases c') simp_all

instantiation channel_type :: linorder
begin

definition less_eq_channel_type :: "channel_type \<Rightarrow> channel_type \<Rightarrow> bool" where
  "less_eq_channel_type c c' \<longleftrightarrow> channel_rank c \<le> channel_rank c'"

definition less_channel_type :: "channel_type \<Rightarrow> channel_type \<Rightarrow> bool" where
  "less_channel_type c c' \<longleftrightarrow> channel_rank c < channel_rank c'"

instance
  by standard (auto simp: less_eq_channel_type_def less_channel_type_def dest: channel_rank_inject)

end

section \<open>Capabilities\<close>

text \<open>
  The result of a card lookup is \<open>None\<close> when the lookup yields something that is not a card
  type.
\<close>

record capability =
  cc_channel :: channel_type
  cc_streaming :: bool
  cc_custom_ui :: bool
  cc_cards :: "card_type list"
  cc_file_upload :: bool
  cc_max_length :: nat
  cc_markdown :: markdown_level
  cc_quick_reply :: bool
  cc_carousel :: bool
  cc_form_input :: bool
  cc_buttons :: bool
  cc_can_render :: "event_type \<Rightarrow> bool"
  cc_card_type :: "jstr \<Rightarrow> card_type option"

definition wecom_h5_capability :: capability where
  "wecom_h5_capability = \<lparr>cc_channel = Wecom_H5, cc_streaming = True, cc_custom_ui = True,
     cc_cards = [], cc_file_upload = False, cc_max_length = 4096, cc_markdown = Md_full,
     cc_quick_reply = True, cc_carousel = True, cc_form_input = True, cc_buttons = True,
     cc_can_render = (\<lambda>_. True), cc_card_type = (\<lambda>_. Some Text_notice)\<rparr>"

definition bot_card_types :: "card_type list" where
  "bot_card_types = [Text_notice, News_notice, Button_interaction, Vote_interaction,
     Multiple_interaction, Template_notice]"

definition component_card_map :: "(jstr \<times> card_type) list" where
  "component_card_map =
     map (\<lambda>(c, t). (js c, t))
      [(''table'', Text_notice), (''list'', Text_notice), (''datagrid'', Text_notice),
       (''leavereportcard'', Text_notice),
       (''chart'', News_notice), (''saleschart'', News_notice), (''image'', News_notice), (''graph'', News_notice),
       (''buttons'', Button_interaction), (''actionbuttons'', Button_interaction), (''actions'', Button_interaction),
       (''form'', Multiple_interaction), (''reportform'', Multiple_interaction),
       (''notice'', Template_notice), (''notification'', Template_notice)]"

text \<open>
  \<open>COMPONENT_CARD_MAP[name] ?? 'text_notice'\<close>: the table is a plain object, so a name that
  is not in it is looked up in \<open>Object.prototype\<close>; the one inherited property whose name has
  lower-case letters only is \<open>constructor\<close>, whose value is a function.
\<close>

definition bot_card_type :: "jstr \<Rightarrow> card_type option" where
  "bot_card_type component =
     (let name = only_az (to_lower component)
      in case map_of component_card_map name of
           Some t \<Rightarrow> Some t
         | None \<Rightarrow> if name = js ''constructor'' then None else Some Text_notice)"

fun bot_can_render :: "event_type \<Rightarrow> bool" where
  "bot_can_render Text_delta = False"
| "bot_can_render Ui_render = False"
| "bot_can_render Tool_call = False"
| "bot_can_render _ = True"

definition wecom_bot_capability :: capability where
  "wecom_bot_capability = \<lparr>cc_channel = Wecom_Bot, cc_streaming = False, cc_custom_ui = False,
     cc_cards = bot_card_types, cc_file_upload = False, cc_max_length = 2048,
     cc_markdown = Md_limited, cc_quick_reply = False, cc_carousel = False, cc_form_input = True,
     cc_buttons = True, cc_can_render = bot_can_render, cc_card_type = bot_card_type\<rparr>"

definition h5_capability :: capability where
  "h5_capability = \<lparr>cc_channel = H5, cc_streaming = True, cc_custom_ui = True,
     cc_cards = [], cc_file_upload = True, cc_max_length = 8192, cc_markdown = Md_full,
     cc_quick_reply = True, cc_carousel = True, cc_form_input = True, cc_buttons = True,
     cc_can_render = (\<lambda>_. True), cc_card_type = (\<lambda>_. Some Text_notice)\<rparr>"

section \<open>Registry\<close>

type_synonym registry = "(channel_type, capability) jmap"

datatype registry_error = Not_registered channel_type

definition reg_register :: "capability \<Rightarrow> registry \<Rightarrow> registry" where
  "reg_register c r = jm_set (cc_channel c) c r"

definition new_registry :: registry where
  "new_registry = reg_register h5_capability
     (reg_register wecom_bot_capability (reg_register wecom_h5_capability []))"

text \<open>\<open>getInstance\<close>: the process-wide instance, built at the first call.\<close>

definition get_instance :: "registry option \<Rightarrow> registry \<times> registry option" where
  "get_instance inst = (case inst of None \<Rightarrow> (new_registry, Some new_registry) | Some r \<Rightarrow> (r, Some r))"

definition get_capability :: "registry \<Rightarrow> channel_type \<Rightarrow> registry_error + capability" where
  "get_capability r c = (case jm_get r c of None \<Rightarrow> Inl (Not_registered c) | Some k \<Rightarrow> Inr k)"

definition try_get_capability :: "registry \<Rightarrow> channel_type \<Rightarrow> capability option" where
  "try_get_capability r c = jm_get r c"

definition reg_has :: "registry \<Rightarrow> channel_type \<Rightarrow> bool" where
  "reg_has r c = jm_has r c"

definition list_channels :: "registry \<Rightarrow> channel_type list" where
  "list_channels r = jm_keys r"

definition list_capabilities :: "registry \<Rightarrow> capability list" where
  "list_capabilities r = map snd r"

text \<open>A row of the summary: the declared values, without the two methods.\<close>

definition matrix_row ::
  "capability \<Rightarrow> channel_type \<times> bool \<times> bool \<times> card_type list \<times> bool \<times> nat \<times> markdown_level
     \<times> bool \<times> bool \<times> bool \<times> bool" where
  "matrix_row c = (cc_channel c, cc_streaming c, cc_custom_ui c, cc_cards c, cc_file_upload c,
     cc_max_length c, cc_markdown c, cc_quick_reply c, cc_carousel c, cc_form_input c, cc_buttons c)"

definition matrix_summary ::
  "registry \<Rightarrow> (channel_type \<times> bool \<times> bool \<times> card_type list \<times> bool \<times> nat \<times> markdown_level
     \<times> bool \<times> bool \<times> bool \<times> bool) list" where
  "matrix_summary r = map matrix_row (list_capabilities r)"

section \<open>Resolver\<close>

datatype source = Web | Src_Wecom_H5 | Src_Wecom_Bot

definition source_to_channel :: "(source \<times> channel_type) list" where
  "source_to_channel = [(Web, H5), (Src_Wecom_H5, Wecom_H5), (Src_Wecom_Bot, Wecom_Bot)]"

definition session_prefixes :: "(source \<times> jstr) list" where
  "session_prefixes = [(Web, js ''web-''), (Src_Wecom_H5, js ''wecom-h5-''), (Src_Wecom_Bot, js ''wecom-bot-'')]"

definition channel_of :: "source \<Rightarrow> channel_type" where
  "channel_of s = the (map_of source_to_channel s)"

definition session_prefix :: "source \<Rightarrow> jstr" where
  "session_prefix s = the (map_of session_prefixes s)"

definition resolve_from_path :: "jstr \<Rightarrow> source" where
  "resolve_from_path path =
     (if starts_with path (js ''/api/wecom/h5'') \<or> starts_with path (js ''/wecom/h5'') then Src_Wecom_H5
      else if starts_with path (js ''/api/wecom/bot'') \<or> starts_with path (js ''/wecom/bot'') then Src_Wecom_Bot
      else Web)"

definition resolve_from_ws_path :: "jstr \<Rightarrow> source" where
  "resolve_from_ws_path path =
     (if str_includes path (js ''wecom-h5'') \<or> str_includes path (js ''wecom/h5'') then Src_Wecom_H5
      else if str_includes path (js ''wecom-bot'') \<or> str_includes path (js ''wecom/bot'') then Src_Wecom_Bot
      else Web)"

definition resolve_from_headers :: "jobj \<Rightarrow> source option" where
  "resolve_from_headers headers =
     (case field_of headers (js ''x-channel'') of
        JStr c \<Rightarrow> if c = js ''wecom-h5'' then Some Src_Wecom_H5
                  else if c = js ''wecom-bot'' then Some Src_Wecom_Bot
                  else if c = js ''web'' then Some Web else None
      | _ \<Rightarrow> None)"

definition generate_session_id :: "source \<Rightarrow> jstr \<Rightarrow> jstr" where
  "generate_session_id s uuid = session_prefix s @ uuid"

record resolved =
  rv_channel :: channel_type
  rv_source :: source
  rv_session :: jstr
  rv_prefix :: jstr

definition resolve_request :: "jstr \<Rightarrow> jobj option \<Rightarrow> jstr \<Rightarrow> resolved" where
  "resolve_request path headers uuid =
     (let src = default_to (resolve_from_path path) (Option.bind headers resolve_from_headers)
      in \<lparr>rv_channel = channel_of src, rv_source = src, rv_session = generate_session_id src uuid,
          rv_prefix = session_prefix src\<rparr>)"

text \<open>The first entry of the prefix table that the identifier starts with.\<close>

fun first_prefix :: "(source \<times> jstr) list \<Rightarrow> jstr \<Rightarrow> source option" where
  "first_prefix [] sid = None"
| "first_prefix (e # es) sid = (if starts_with sid (snd e) then Some (fst e) else first_prefix es sid)"

definition resolve_from_session_id :: "jstr \<Rightarrow> source option" where
  "resolve_from_session_id sid = first_prefix session_prefixes sid"

fun first_source :: "(source \<times> channel_type) list \<Rightarrow> jstr \<Rightarrow> source" where
  "first_source [] c = Web"
| "first_source (e # es) c = (if channel_name (snd e) = c then fst e else first_source es c)"

text \<open>The argument is any string: callers cast what they have to a channel.\<close>

definition default_source :: "jstr \<Rightarrow> source" where
  "default_source c = first_source source_to_channel c"

section \<open>Facts\<close>

lemmas channel_tables = source_to_channel_def session_prefixes_def channel_of_def session_prefix_def
  default_source_def

lemma starts_with_append [js_str_simps]: "starts_with (js p @ u) (js q) \<longleftrightarrow>
   prefix q p \<or> (prefix p q \<and> prefix (js (drop (length p) q)) u)"
proof -
  have "prefix (js q) (js p @ u) \<longleftrightarrow> prefix (js q) (js p) \<or> (\<exists>v. js q = js p @ v \<and> prefix v u)"
    by (rule prefix_append)
  moreover have "(\<exists>v. js q = js p @ v \<and> prefix v u) \<longleftrightarrow> prefix p q \<and> prefix (js (drop (length p) q)) u"
    by (metis append_eq_conv_conj js_append js_inject length_js prefix_js prefix_def append_take_drop_id same_append_eq)
  ultimately show ?thesis by (simp add: starts_with_def)
qed

text \<open>
  Every request resolves to a source whose channel, session prefix and session identifier
  belong together, and the session identifier resolves back to that source: the header decides
  when it names a known channel, else the path does.
\<close>

theorem resolved_session_round_trip:
  "resolve_from_session_id (rv_session (resolve_request path headers uuid)) = Some (rv_source (resolve_request path headers uuid))
   \<and> rv_session (resolve_request path headers uuid) = rv_prefix (resolve_request path headers uuid) @ uuid
   \<and> default_source (channel_name (rv_channel (resolve_request path headers uuid))) = rv_source (resolve_request path headers uuid)"
proof -
  have "resolve_from_session_id (generate_session_id s uuid) = Some s
      \<and> default_source (channel_name (channel_of s)) = s" for s
    by (cases s) (simp_all add: resolve_from_session_id_def generate_session_id_def channel_tables js_str_simps)
  then show ?thesis by (simp add: resolve_request_def Let_def generate_session_id_def)
qed

text \<open>
  The registry a process starts with knows every channel, under its own name, and
  registering a declaration replaces that of its channel and of no other.
\<close>

theorem registry_lookup:
  "get_capability new_registry c =
     Inr (case c of Wecom_H5 \<Rightarrow> wecom_h5_capability | Wecom_Bot \<Rightarrow> wecom_bot_capability | H5 \<Rightarrow> h5_capability)
   \<and> get_capability (reg_register k r) (cc_channel k) = Inr k
   \<and> (c \<noteq> cc_channel k \<longrightarrow> get_capability (reg_register k r) c = get_capability r c)"
  by (cases c) (simp_all add: get_capability_def new_registry_def reg_register_def
      wecom_h5_capability_def wecom_bot_capability_def h5_capability_def)

theorem registry_lookup_witness:
  "get_capability (reg_register h5_capability new_registry) Wecom_Bot = Inr wecom_bot_capability"
  using registry_lookup [of Wecom_Bot h5_capability new_registry]
  by (simp add: h5_capability_def)

text \<open>
  The bot's card lookup yields a card type for every component name except those that
  reduce to \<open>constructor\<close>, which the table inherits from the object prototype.
\<close>

theorem bot_card_lookup:
  "bot_card_type component = None \<longleftrightarrow> only_az (to_lower component) = js ''constructor''"
  by (auto simp: bot_card_type_def Let_def component_card_map_def split: option.splits)

end
