(* ===== verification/Bot_Cards.thy ===== *)
theory Bot_Cards
  imports Channel
begin

text \<open>
  gateway/src/adapters/wecom/WecomBotCardBuilder.ts: the six template cards of a WeCom bot,
  built as the JSON objects the API takes. String literals that are not ASCII are lists of
  UTF-16 code units.
\<close>

section \<open>Operations on values of type unknown\<close>

text \<open>\<open>String(v)\<close> and the template literal \<open>${v}\<close>; an array joins its elements, with nothing for the nullish ones.\<close>

fun js_string :: "jval \<Rightarrow> jstr" where
  "js_string JUndef = js ''undefined''"
| "js_string JNull = js ''null''"
| "js_string (JBool b) = (if b then js ''true'' else js ''false'')"
| "js_string (JNum n) = int_dec n"
| "js_string (JStr s) = s"
| "js_string (JArr vs) = join (js '','') (map (\<lambda>v. if nullish v then [] else js_string v) vs)"
| "js_string (JObj _) = js ''[object Object]''"

fun truthy :: "jval \<Rightarrow> bool" where
  "truthy JUndef = False"
| "truthy JNull = False"
| "truthy (JBool b) = b"
| "truthy (JNum n) = (n \<noteq> 0)"
| "truthy (JStr s) = (s \<noteq> [])"
| "truthy (JArr _) = True"
| "truthy (JObj _) = True"

text \<open>\<open>x ?? d\<close>, and the spread of an optional property.\<close>

definition coalesce :: "jval \<Rightarrow> jval \<Rightarrow> jval" where
  "coalesce v d = (if nullish v then d else v)"

definition opt_prop :: "string \<Rightarrow> jval \<Rightarrow> jobj" where
  "opt_prop k v = (if nullish v then [] else [(js k, v)])"

abbreviation jp :: "string \<Rightarrow> jval \<Rightarrow> jstr \<times> jval" where
  "jp k v \<equiv> (js k, v)"

lemma nullish_simps [simp]:
  "nullish JUndef" "nullish JNull" "\<not> nullish (JStr s)" "\<not> nullish (JNum n)" "\<not> nullish (JBool b)"
  "\<not> nullish (JArr vs)" "\<not> nullish (JObj ob)"
  by (simp_all add: nullish_def)

lemma field_of_simps [simp]:
  "field_of [] k = JUndef"
  "field_of ((k', v) # ob) k = (if k' = k then v else field_of ob k)"
  by (simp_all add: field_of_def)

lemma field_of_append: "k \<in> fst ` set a \<Longrightarrow> field_of (a @ b) k = field_of a k"
  by (induction a) force+

lemma field_of_append2: "k \<notin> fst ` set a \<Longrightarrow> field_of (a @ b) k = field_of b k"
  by (induction a) auto

lemma opt_prop_keys [simp]: "fst ` set (opt_prop k v) = (if nullish v then {} else {js k})"
  by (simp add: opt_prop_def)

section \<open>Data\<close>

record template_card =
  tc_type :: card_type
  tc_data :: jobj

record card_button =
  bt_text :: jval
  bt_style :: jval
  bt_key :: jval
  bt_url :: jval

record vote_option =
  vo_id :: int
  vo_text :: jval

datatype field_kind = Textarea | Select

record interaction_field =
  if_kind :: field_kind
  if_name :: jval
  if_placeholder :: jval
  if_options :: "(jval \<times> jval) list option"  \<comment> \<open>text and value\<close>
  if_required :: "bool option"

record card_builder =
  cb_source :: jstr
  cb_icon :: "jstr option"

definition default_card_source :: jstr where
  "default_card_source = (js ''AI'' @ [0x667A, 0x80FD, 0x52A9, 0x624B])"

definition new_card_builder :: "jstr option \<Rightarrow> jstr option \<Rightarrow> card_builder" where
  "new_card_builder src icon = \<lparr>cb_source = default_to default_card_source src, cb_icon = icon\<rparr>"

section \<open>Builders\<close>

definition card_head :: "card_builder \<Rightarrow> jval \<Rightarrow> jval \<Rightarrow> jobj" where
  "card_head b title secondary =
     [jp ''source'' (JObj (jp ''name'' (JStr (cb_source b))
        # (case cb_icon b of None \<Rightarrow> [] | Some u \<Rightarrow> [jp ''icon_url'' (JStr u)]))),
      jp ''main_title'' (JObj (jp ''title'' title # opt_prop ''desc'' secondary))]"

text \<open>The options are \<open>JUndef\<close> when they are not given.\<close>

record text_notice_options =
  tn_secondary :: jval
  tn_emph_content :: jval
  tn_emph_title :: jval
  tn_link_text :: jval
  tn_link_url :: jval

definition no_text_options :: text_notice_options where
  "no_text_options = \<lparr>tn_secondary = JUndef, tn_emph_content = JUndef, tn_emph_title = JUndef,
     tn_link_text = JUndef, tn_link_url = JUndef\<rparr>"

definition build_text_notice :: "card_builder \<Rightarrow> jval \<Rightarrow> jval \<Rightarrow> text_notice_options \<Rightarrow> template_card" where
  "build_text_notice b title content opts =
     \<lparr>tc_type = Text_notice, tc_data =
        card_head b title (tn_secondary opts) @
        [jp ''emphasis_content'' (JObj [jp ''title'' (coalesce (tn_emph_title opts) (JStr [])),
                                       jp ''value'' (coalesce (tn_emph_content opts) (JStr []))]),
         jp ''sub_title_text'' content] @
        (if \<not> nullish (tn_link_text opts) \<and> \<not> nullish (tn_link_url opts)
         then [jp ''card_action'' (JObj [jp ''type'' (JNum 1), jp ''url'' (tn_link_url opts),
                 jp ''text'' (tn_link_text opts)])]
         else [])\<rparr>"

definition build_news_notice ::
  "card_builder \<Rightarrow> jval \<Rightarrow> jval \<Rightarrow> jval \<Rightarrow> jval \<Rightarrow> jval \<Rightarrow> template_card" where
  "build_news_notice b title summary img lnk secondary =
     \<lparr>tc_type = News_notice, tc_data =
        card_head b title secondary @
        [jp ''card_image'' (JObj [jp ''url'' img]),
         jp ''image_text_region'' (JObj [jp ''title'' title, jp ''desc'' summary, jp ''url'' lnk,
            jp ''type'' (JNum 1)]),
         jp ''card_action'' (JObj [jp ''type'' (JNum 1), jp ''url'' lnk])]\<rparr>"

definition button_entry :: "card_button \<Rightarrow> jval" where
  "button_entry btn = JObj
     ([jp ''text'' (bt_text btn), jp ''style'' (coalesce (bt_style btn) (JStr (js ''default''))),
       jp ''type'' (JNum (if nullish (bt_url btn) then 2 else 1))]
      @ (if nullish (bt_url btn) then [jp ''key'' (bt_key btn)] else [jp ''url'' (bt_url btn)]))"

definition button_option :: "card_button \<Rightarrow> jval" where
  "button_option btn = JObj [jp ''id'' (bt_key btn), jp ''text'' (bt_text btn),
     jp ''style'' (coalesce (bt_style btn) (JStr (js ''default'')))]"

text \<open>\<open>task\<close> is the \<open>taskId\<close> option; \<open>uuid\<close> is what \<open>randomUUID\<close> returns.\<close>

definition build_button_interaction ::
  "card_builder \<Rightarrow> jstr \<Rightarrow> jval \<Rightarrow> jval \<Rightarrow> card_button list \<Rightarrow> jval \<Rightarrow> jval \<Rightarrow> template_card" where
  "build_button_interaction b uuid title content btns secondary task =
     \<lparr>tc_type = Button_interaction, tc_data =
        card_head b title secondary @
        [jp ''sub_title_text'' content,
         jp ''task_id'' (coalesce task (JStr uuid)),
         jp ''button_list'' (JArr (map button_entry btns)),
         jp ''button_selection'' (JObj [jp ''option_list'' (JArr (map button_option btns))])]\<rparr>"

definition build_vote_interaction ::
  "card_builder \<Rightarrow> jstr \<Rightarrow> jval \<Rightarrow> jval \<Rightarrow> vote_option list \<Rightarrow> jval \<Rightarrow> jval \<Rightarrow> template_card" where
  "build_vote_interaction b uuid title content opts secondary task =
     \<lparr>tc_type = Vote_interaction, tc_data =
        card_head b title secondary @
        [jp ''sub_title_text'' content,
         jp ''task_id'' (coalesce task (JStr uuid)),
         jp ''vote_list'' (JArr (map (\<lambda>o'. JObj [jp ''vote_id'' (JNum (vo_id o')), jp ''text'' (vo_text o')]) opts))]\<rparr>"

definition required_prop :: "interaction_field \<Rightarrow> jobj" where
  "required_prop f = (case if_required f of None \<Rightarrow> [] | Some r \<Rightarrow> [jp ''required'' (JNum (if r then 1 else 0))])"

definition select_entry :: "interaction_field \<Rightarrow> jval" where
  "select_entry f = JObj
     ([jp ''question_key'' (if_name f), jp ''title'' (if_placeholder f),
       jp ''option_list'' (JArr (map (\<lambda>(t, v). JObj [jp ''id'' v, jp ''text'' t]) (default_to [] (if_options f))))]
      @ required_prop f @ [jp ''selected_id'' (JStr [])])"

definition textarea_entry :: "interaction_field \<Rightarrow> jval" where
  "textarea_entry f = JObj
     ([jp ''question_key'' (if_name f), jp ''title'' (if_placeholder f)]
      @ required_prop f @ [jp ''value'' (JStr [])])"

definition build_multiple_interaction ::
  "card_builder \<Rightarrow> jstr \<Rightarrow> jval \<Rightarrow> interaction_field list \<Rightarrow> jval \<Rightarrow> jval \<Rightarrow> jval \<Rightarrow> jval \<Rightarrow> template_card" where
  "build_multiple_interaction b uuid title flds submit content secondary task =
     \<lparr>tc_type = Multiple_interaction, tc_data =
        card_head b title secondary @ opt_prop ''sub_title_text'' content @
        [jp ''task_id'' (coalesce task (JStr uuid)),
         jp ''submit_button'' (JObj [jp ''text'' submit, jp ''key'' (JStr (js ''submit''))]),
         jp ''select_list'' (JArr (map select_entry (filter (\<lambda>f. if_kind f = Select) flds))),
         jp ''textarea_list'' (JArr (map textarea_entry (filter (\<lambda>f. if_kind f = Textarea) flds)))]\<rparr>"

definition build_template_notice ::
  "card_builder \<Rightarrow> jval \<Rightarrow> jobj \<Rightarrow> jval \<Rightarrow> jval \<Rightarrow> jval \<Rightarrow> template_card" where
  "build_template_notice b tid tdata title content secondary =
     \<lparr>tc_type = Template_notice, tc_data =
        card_head b title secondary @
        [jp ''template_card'' (JObj [jp ''template_id'' tid, jp ''template_variable'' (JObj tdata)]),
         jp ''sub_title_text'' content]\<rparr>"

section \<open>The common entry point\<close>

text \<open>\<open>CardData\<close>: the union of the card descriptions, with what they share.\<close>

datatype card_body =
    Text_data jval jval jval jval jval                \<comment> \<open>content, emphasised content and title, link text and URL\<close>
  | News_data jval jval jval                          \<comment> \<open>summary, image and link URL\<close>
  | Button_data jval "card_button list" jval          \<comment> \<open>content, buttons, task\<close>
  | Vote_data jval "vote_option list" jval            \<comment> \<open>content, options, task\<close>
  | Multiple_data jval "interaction_field list" jval jval  \<comment> \<open>content, fields, submit text, task\<close>
  | Template_data jval jobj jval                      \<comment> \<open>template, its data, content\<close>

record card_data =
  cd_title :: jval
  cd_secondary :: jval
  cd_body :: card_body

definition build_card :: "card_builder \<Rightarrow> jstr \<Rightarrow> card_data \<Rightarrow> template_card" where
  "build_card b uuid cd =
     (case cd_body cd of
        Text_data content ec et lt lu \<Rightarrow> build_text_notice b (cd_title cd) content
          \<lparr>tn_secondary = cd_secondary cd, tn_emph_content = ec, tn_emph_title = et, tn_link_text = lt, tn_link_url = lu\<rparr>
      | News_data summary img lnk \<Rightarrow> build_news_notice b (cd_title cd) summary img lnk (cd_secondary cd)
      | Button_data content btns task \<Rightarrow>
          build_button_interaction b uuid (cd_title cd) content btns (cd_secondary cd) task
      | Vote_data content opts task \<Rightarrow>
          build_vote_interaction b uuid (cd_title cd) content opts (cd_secondary cd) task
      | Multiple_data content flds submit task \<Rightarrow>
          build_multiple_interaction b uuid (cd_title cd) flds submit content (cd_secondary cd) task
      | Template_data tid tdata content \<Rightarrow> build_template_notice b tid tdata (cd_title cd) content (cd_secondary cd))"

section \<open>What a card shows\<close>

lemmas card_builders = build_text_notice_def build_news_notice_def build_button_interaction_def
  build_vote_interaction_def build_multiple_interaction_def build_template_notice_def

lemma card_head_keys: "fst ` set (card_head b t s) = {js ''source'', js ''main_title''}"
  by (simp add: card_head_def insert_commute)

lemma field_of_card_head [simp]:
  "k \<noteq> js ''source'' \<Longrightarrow> k \<noteq> js ''main_title'' \<Longrightarrow> field_of (card_head b t s @ d) k = field_of d k"
  by (simp add: field_of_append2 card_head_keys)

lemma main_title [simp]:
  "field_of (card_head b t s @ d) (js ''main_title'') = JObj (jp ''title'' t # opt_prop ''desc'' s)"
  by (simp add: card_head_def)

definition content_of :: "template_card \<Rightarrow> jval" where
  "content_of c = field_of (tc_data c) (js ''sub_title_text'')"

definition list_of :: "jval \<Rightarrow> jval list" where
  "list_of v = (case v of JArr vs \<Rightarrow> vs | _ \<Rightarrow> [])"

definition question_keys :: "template_card \<Rightarrow> string \<Rightarrow> jval list" where
  "question_keys c k = map (\<lambda>e. field_of (as_object e) (js ''question_key'')) (list_of (field_of (tc_data c) (js k)))"

text \<open>
  A multiple-interaction card asks every field of the form exactly once: its select list
  and its text list hold one entry per field of that kind, in the order of the form, under the
  field's name, and together as many entries as the form has fields.
\<close>

theorem multiple_card_asks_every_field:
  "question_keys (build_multiple_interaction b uuid title flds submit content sec task) ''select_list''
     = map if_name (filter (\<lambda>f. if_kind f = Select) flds)
   \<and> question_keys (build_multiple_interaction b uuid title flds submit content sec task) ''textarea_list''
     = map if_name (filter (\<lambda>f. if_kind f = Textarea) flds)
   \<and> length (filter (\<lambda>f. if_kind f = Select) flds) + length (filter (\<lambda>f. if_kind f = Textarea) flds) = length flds"
proof -
  have kinds: "(\<lambda>f. if_kind f = Textarea) = (\<lambda>f. if_kind f \<noteq> Select)"
    by (rule ext) (metis field_kind.exhaust field_kind.distinct(1))
  show ?thesis
    unfolding question_keys_def build_multiple_interaction_def list_of_def
    by (auto simp: field_of_append2 select_entry_def textarea_entry_def o_def)
      (simp add: kinds sum_length_filter_compl)
qed

end
