(* ===== verification/Agent_Event.thy ===== *)
theory Agent_Event
  imports Bot_Cards
begin

text \<open>
  The event an agent streams (\<open>AgentEvent\<close> of gateway/src/channels/ChannelCapability.ts) and
  gateway/src/router/agentEventParser.ts, which reads it from the JSON of the backend. The
  parser does not check the JSON, so every field is a value of type unknown; an absent field
  is \<open>JUndef\<close>.
\<close>

section \<open>Events\<close>

record agent_event =
  ae_type :: jval
  ae_content :: jval
  ae_tool_name :: jval
  ae_args :: jval
  ae_result :: jval
  ae_component :: jval
  ae_props :: jval
  ae_skill_id :: jval
  ae_detail :: jval
  ae_error_code :: jval
  ae_error_message :: jval
  ae_token_usage :: jval
  ae_trace :: jval

fun event_name :: "event_type \<Rightarrow> jstr" where
  "event_name Text_delta = js ''text.delta''"
| "event_name Tool_call = js ''tool.call''"
| "event_name Tool_result = js ''tool.result''"
| "event_name Ui_render = js ''ui.render''"
| "event_name Approval_request = js ''approval.request''"
| "event_name Dispatch_trace = js ''dispatch.trace''"
| "event_name Error_event = js ''error''"
| "event_name Done_event = js ''done''"

definition all_event_types :: "event_type list" where
  "all_event_types = [Text_delta, Tool_call, Tool_result, Ui_render, Approval_request,
     Dispatch_trace, Error_event, Done_event]"

text \<open>The case of a \<open>switch\<close> on the event type; \<open>None\<close> is its default.\<close>

definition event_case :: "jval \<Rightarrow> event_type option" where
  "event_case v = List.find (\<lambda>t. v = JStr (event_name t)) all_event_types"

definition is_event :: "agent_event \<Rightarrow> event_type \<Rightarrow> bool" where
  "is_event ev t \<longleftrightarrow> ae_type ev = JStr (event_name t)"

lemma event_case_name [simp]: "event_case (JStr (event_name t)) = Some t"
  by (cases t) (simp_all add: event_case_def all_event_types_def)

lemma event_case_Some: "event_case v = Some t \<Longrightarrow> v = JStr (event_name t)"
  by (auto simp: event_case_def find_Some_iff)

section \<open>Parser\<close>

datatype parse_error = Json_syntax | Type_error

definition unless_null :: "jval \<Rightarrow> jval" where
  "unless_null v = (if nullish v then JUndef else v)"

definition keep_field :: "jobj \<Rightarrow> string \<Rightarrow> jval" where
  "keep_field raw k = unless_null (field_of raw (js k))"

text \<open>A field with a snake-case and a camel-case name.\<close>

definition pick_field :: "jobj \<Rightarrow> string \<Rightarrow> string \<Rightarrow> jval" where
  "pick_field raw snake camel =
     (if \<not> nullish (field_of raw (js snake)) \<or> \<not> nullish (field_of raw (js camel))
      then coalesce (field_of raw (js camel)) (field_of raw (js snake)) else JUndef)"

definition event_of :: "jobj \<Rightarrow> agent_event" where
  "event_of raw =
     \<lparr>ae_type = field_of raw (js ''type''),
      ae_content = keep_field raw ''content'',
      ae_tool_name = pick_field raw ''tool_name'' ''toolName'',
      ae_args = keep_field raw ''args'',
      ae_result = keep_field raw ''result'',
      ae_component = keep_field raw ''component'',
      ae_props = keep_field raw ''props'',
      ae_skill_id = pick_field raw ''skill_id'' ''skillId'',
      ae_detail = keep_field raw ''detail'',
      ae_error_code = pick_field raw ''error_code'' ''errorCode'',
      ae_error_message = pick_field raw ''message'' ''errorMessage'',
      ae_token_usage = unless_null (coalesce (field_of raw (js ''tokenUsage'')) (field_of raw (js ''token_usage''))),
      ae_trace = keep_field raw ''trace''\<rparr>"

text \<open>\<open>parse\<close> stands for \<open>JSON.parse\<close>; reading a property of \<open>null\<close> throws.\<close>

definition parse_backend_event :: "(jstr \<Rightarrow> jval option) \<Rightarrow> jstr \<Rightarrow> parse_error + agent_event" where
  "parse_backend_event parse s =
     (case parse s of
        None \<Rightarrow> Inl Json_syntax
      | Some v \<Rightarrow> if nullish v then Inl Type_error else Inr (event_of (as_object v)))"

definition to_gateway_channel :: "jstr \<Rightarrow> channel_type" where
  "to_gateway_channel ch =
     (if ch = js ''web'' \<or> ch = js ''h5'' then H5
      else if ch = js ''wecom_h5'' \<or> ch = js ''wecom-h5'' then Wecom_H5
      else if ch = js ''wecom_bot'' \<or> ch = js ''wecom-bot'' then Wecom_Bot
      else H5)"

lemma to_gateway_channel_name [simp]: "to_gateway_channel (channel_name c) = c"
  by (cases c) (simp_all add: to_gateway_channel_def)

section \<open>Reading what the backend writes\<close>

text \<open>The backend's JSON object for an event, in snake case, without the absent fields.\<close>

definition backend_fields :: "agent_event \<Rightarrow> jobj" where
  "backend_fields ev =
     jp ''type'' (ae_type ev) # opt_prop ''content'' (ae_content ev) @ opt_prop ''tool_name'' (ae_tool_name ev)
     @ opt_prop ''args'' (ae_args ev) @ opt_prop ''result'' (ae_result ev)
     @ opt_prop ''component'' (ae_component ev) @ opt_prop ''props'' (ae_props ev)
     @ opt_prop ''skill_id'' (ae_skill_id ev) @ opt_prop ''detail'' (ae_detail ev)
     @ opt_prop ''error_code'' (ae_error_code ev) @ opt_prop ''message'' (ae_error_message ev)
     @ opt_prop ''token_usage'' (ae_token_usage ev) @ opt_prop ''trace'' (ae_trace ev)"

text \<open>A camel-case copy of the fields that have two names takes precedence.\<close>

definition camel_fields :: "agent_event \<Rightarrow> jobj" where
  "camel_fields ev = opt_prop ''toolName'' (ae_tool_name ev) @ opt_prop ''skillId'' (ae_skill_id ev)
     @ opt_prop ''errorCode'' (ae_error_code ev) @ opt_prop ''errorMessage'' (ae_error_message ev)
     @ opt_prop ''tokenUsage'' (ae_token_usage ev)"

definition event_fields :: "agent_event \<Rightarrow> jval list" where
  "event_fields ev = [ae_content ev, ae_tool_name ev, ae_args ev, ae_result ev, ae_component ev,
     ae_props ev, ae_skill_id ev, ae_detail ev, ae_error_code ev, ae_error_message ev,
     ae_token_usage ev, ae_trace ev]"

lemma field_of_opt_prop [simp]:
  "field_of (opt_prop k v @ ob) k' = (if k' = js k then coalesce v (field_of ob k') else field_of ob k')"
  "field_of (opt_prop k v) k' = (if k' = js k then coalesce v JUndef else JUndef)"
  by (auto simp: opt_prop_def coalesce_def)

lemma unless_null_id [simp]: "JNull \<noteq> v \<Longrightarrow> unless_null v = v"
  by (auto simp: unless_null_def nullish_def)

lemma pick_field_coalesce:
  "pick_field raw snake camel = unless_null (coalesce (field_of raw (js camel)) (field_of raw (js snake)))"
  by (auto simp: pick_field_def unless_null_def coalesce_def)

lemma coalesce_simps [simp]:
  "coalesce v v = v" "coalesce JUndef v = v" "JNull \<noteq> v \<Longrightarrow> coalesce v JUndef = v"
  by (auto simp: coalesce_def nullish_def)

text \<open>
  An event the backend writes in snake case reads back as the same event, and so does one
  that carries the two-named fields in camel case as well; a \<open>null\<close> field reads as absent.
\<close>

theorem backend_event_reads_back:
  assumes "parse s = Some (JObj (backend_fields ev @ (if camel then camel_fields ev else [])))"
    and "JNull \<notin> set (event_fields ev)"
  shows "parse_backend_event parse s = Inr ev"
proof -
  have "event_of (backend_fields ev @ (if camel then camel_fields ev else [])) = ev"
    using assms(2)
    by (cases camel)
      (rule agent_event.equality, simp_all add: event_of_def keep_field_def pick_field_coalesce
        backend_fields_def camel_fields_def event_fields_def)+
  with assms(1) show ?thesis by (simp add: parse_backend_event_def)
qed

definition demo_event :: agent_event where
  "demo_event = \<lparr>ae_type = JStr (js ''tool.result''), ae_content = JUndef,
     ae_tool_name = JStr (js ''skill-leave-query''), ae_args = JUndef,
     ae_result = JObj [jp ''days'' (JNum 3)], ae_component = JUndef, ae_props = JUndef,
     ae_skill_id = JUndef, ae_detail = JUndef, ae_error_code = JUndef, ae_error_message = JUndef,
     ae_token_usage = JUndef, ae_trace = JUndef\<rparr>"

theorem backend_event_reads_back_witness:
  "parse_backend_event (\<lambda>_. Some (JObj (backend_fields demo_event @ camel_fields demo_event))) (js ''x'') = Inr demo_event"
  by (rule backend_event_reads_back [where camel = True]) (simp_all add: demo_event_def event_fields_def)

end
