(* ===== verification/Bot_Mapper.thy ===== *)
theory Bot_Mapper
  imports Agent_Event
begin

text \<open>
  gateway/src/router/BotEventMapper.ts: the mapping of agent events to the template cards of a
  WeCom bot. \<open>None\<close> as a result stands for the \<open>TypeError\<close> that a method call on a value of the
  wrong type throws; \<open>stringify\<close> is \<open>JSON.stringify\<close> and \<open>uuid\<close> what \<open>randomUUID\<close> returns.
\<close>

section \<open>State and results\<close>

record mapper =
  bm_builder :: card_builder
  bm_buffer :: "jstr list"

record bot_result =
  br_card :: template_card
  br_event :: event_type
  br_degraded :: bool

record approval_detail =
  ad_title :: jval
  ad_description :: jval
  ad_skill_id :: jval
  ad_approval_id :: jval

definition bot_max_length :: nat where "bot_max_length = 2048"
definition tool_call_prefix :: jstr where "tool_call_prefix = ([0x6B63, 0x5728, 0x6267, 0x884C])"
definition tool_result_prefix :: jstr where "tool_result_prefix = ([0x6267, 0x884C, 0x5B8C, 0x6210])"
definition newline :: jstr where "newline = [10]"

definition new_mapper :: "card_builder option \<Rightarrow> mapper" where
  "new_mapper b = \<lparr>bm_builder = default_to (new_card_builder (Some default_card_source) None) b, bm_buffer = []\<rparr>"

section \<open>Buffered text\<close>

definition buffer_text_delta :: "agent_event \<Rightarrow> mapper \<Rightarrow> mapper" where
  "buffer_text_delta ev m =
     (if is_event ev Text_delta \<and> \<not> nullish (ae_content ev)
      then m\<lparr>bm_buffer := bm_buffer m @ [js_string (ae_content ev)]\<rparr> else m)"

definition truncation_mark :: jstr where
  "truncation_mark = (js ''...('' @ [0x5185, 0x5BB9, 0x8FC7, 0x957F, 0x5DF2, 0x622A, 0x65AD] @ js '')'')"

definition truncate_text :: "jstr \<Rightarrow> jstr" where
  "truncate_text s = (if length s > bot_max_length then slice 0 (bot_max_length - 20) s @ truncation_mark else s)"

definition map_text_delta :: "mapper \<Rightarrow> bot_result \<times> mapper" where
  "map_text_delta m =
     (\<lparr>br_card = build_text_notice (bm_builder m) (JStr (js ''AI'' @ [0x52A9, 0x624B, 0x56DE, 0x590D]))
         (JStr (truncate_text (join [] (bm_buffer m))))
         (no_text_options\<lparr>tn_emph_content := JStr [], tn_emph_title := JStr []\<rparr>),
       br_event = Text_delta, br_degraded = True\<rparr>, m\<lparr>bm_buffer := []\<rparr>)"

definition has_buffered_text :: "mapper \<Rightarrow> bool" where
  "has_buffered_text m \<longleftrightarrow> bm_buffer m \<noteq> []"

definition clear_buffer :: "mapper \<Rightarrow> mapper" where
  "clear_buffer m = m\<lparr>bm_buffer := []\<rparr>"

section \<open>Reading component properties\<close>

definition extract_string_prop :: "jobj \<Rightarrow> string \<Rightarrow> jstr option" where
  "extract_string_prop ob k = as_string (field_of ob (js k))"

definition prop_or :: "jobj \<Rightarrow> string \<Rightarrow> jstr \<Rightarrow> jval" where
  "prop_or ob k d = JStr (default_to d (extract_string_prop ob k))"

definition is_object :: "jval \<Rightarrow> bool" where
  "is_object v = (case v of JObj _ \<Rightarrow> True | JArr _ \<Rightarrow> True | _ \<Rightarrow> False)"

text \<open>\<open>Object.entries\<close> of an object or array.\<close>

definition entries_of :: "jval \<Rightarrow> jobj" where
  "entries_of v = (case v of JObj ob \<Rightarrow> ob | JArr vs \<Rightarrow> map (\<lambda>(i, x). (nat_dec i, x)) (List.enumerate 0 vs) | _ \<Rightarrow> [])"

text \<open>The \<open>map\<close> method: only arrays have it.\<close>

definition array_items :: "jval \<Rightarrow> jval list option" where
  "array_items v = (case v of JArr vs \<Rightarrow> Some vs | _ \<Rightarrow> None)"

definition resolve_card_type :: "jstr \<Rightarrow> card_type" where
  "resolve_card_type component =
     (let name = only_az (to_lower component); has = (\<lambda>w. str_includes name (js w))
      in if has ''table'' \<or> has ''list'' \<or> has ''datagrid'' \<or> has ''leavereport'' \<or> has ''report'' then Text_notice
         else if has ''chart'' \<or> has ''image'' \<or> has ''graph'' \<or> has ''sales'' then News_notice
         else if has ''button'' \<or> has ''action'' then Button_interaction
         else if has ''form'' then Multiple_interaction
         else if has ''vote'' \<or> has ''poll'' then Vote_interaction
         else if has ''notice'' \<or> has ''notification'' then Template_notice
         else Text_notice)"

definition extract_title :: "jobj \<Rightarrow> jstr \<Rightarrow> jstr" where
  "extract_title ob component =
     default_to component (orelse (extract_string_prop ob ''title'') (extract_string_prop ob ''name''))"

definition item_line :: "jval \<Rightarrow> jstr" where
  "item_line item =
     (if is_object item
      then join (js '' | '') (map (\<lambda>(k, v). k @ js '': '' @ js_string v) (entries_of item))
      else js_string item)"

definition format_component_as_text :: "jstr \<Rightarrow> jobj \<Rightarrow> jstr" where
  "format_component_as_text component ob =
     (let title = extract_title ob component;
          description = default_to [] (orelse (extract_string_prop ob ''description'') (extract_string_prop ob ''summary''));
          data = coalesce (field_of ob (js ''data'')) (field_of ob (js ''items''))
      in case data of
           JArr vs \<Rightarrow> title @ newline @ newline @ description @ newline @ newline @ join newline (map item_line vs)
         | _ \<Rightarrow> trim (title @ newline @ newline @ description))"

definition extract_button :: "nat \<times> jval \<Rightarrow> card_button" where
  "extract_button e =
     (let ob = as_object (snd e); idx = fst e
      in if is_object (snd e)
         then \<lparr>bt_text = JStr (default_to (([0x6309, 0x94AE]) @ nat_dec (idx + 1))
                 (orelse (extract_string_prop ob ''text'') (extract_string_prop ob ''label''))),
               bt_style = prop_or ob ''style'' (js ''default''),
               bt_key = JStr (default_to (js ''btn_'' @ nat_dec idx)
                 (orelse (extract_string_prop ob ''key'') (extract_string_prop ob ''value''))),
               bt_url = (case extract_string_prop ob ''url'' of None \<Rightarrow> JUndef | Some u \<Rightarrow> JStr u)\<rparr>
         else \<lparr>bt_text = JStr (js_string (snd e)), bt_style = JStr (js ''default''),
               bt_key = JStr (js ''btn_'' @ nat_dec idx), bt_url = JUndef\<rparr>)"

definition extract_buttons :: "jobj \<Rightarrow> card_button list option" where
  "extract_buttons ob =
     map_option (\<lambda>vs. map extract_button (List.enumerate 0 vs))
       (array_items (coalesce (field_of ob (js ''buttons'')) (coalesce (field_of ob (js ''actions'')) (JArr []))))"

definition extract_option :: "jval \<Rightarrow> jval \<times> jval" where
  "extract_option v =
     (if is_object v
      then (let o' = as_object v
            in (JStr (default_to [] (orelse (extract_string_prop o' ''text'') (extract_string_prop o' ''label''))),
                prop_or o' ''value'' []))
      else (JStr (js_string v), JStr (js_string v)))"

definition extract_field :: "jval \<Rightarrow> interaction_field option" where
  "extract_field v =
     (if is_object v
      then (let ob = as_object v; raw = field_of ob (js ''options'');
                mk = (\<lambda>opts. \<lparr>if_kind = (if extract_string_prop ob ''type'' = Some (js ''select'') then Select else Textarea),
                   if_name = prop_or ob ''name'' [], if_placeholder = prop_or ob ''placeholder'' [],
                   if_options = opts, if_required = Some (field_of ob (js ''required'') = JBool True)\<rparr>)
            in if nullish raw then Some (mk None)
               else map_option (\<lambda>os. mk (Some (map extract_option os))) (array_items raw))
      else Some \<lparr>if_kind = Textarea, if_name = JStr (js_string v), if_placeholder = JStr (js_string v),
                 if_options = None, if_required = None\<rparr>)"

definition extract_fields :: "jobj \<Rightarrow> interaction_field list option" where
  "extract_fields ob =
     Option.bind (array_items (coalesce (field_of ob (js ''fields'')) (JArr []))) (\<lambda>vs. those (map extract_field vs))"

definition extract_vote_option :: "nat \<times> jval \<Rightarrow> vote_option" where
  "extract_vote_option e =
     (let ob = as_object (snd e); idx = fst e
      in \<lparr>vo_id = int idx + 1, vo_text = JStr
            (if is_object (snd e)
             then default_to (([0x9009, 0x9879]) @ nat_dec (idx + 1))
               (orelse (extract_string_prop ob ''text'') (extract_string_prop ob ''label''))
             else js_string (snd e))\<rparr>)"

definition extract_vote_options :: "jobj \<Rightarrow> vote_option list option" where
  "extract_vote_options ob =
     map_option (\<lambda>vs. map extract_vote_option (List.enumerate 0 vs))
       (array_items (coalesce (field_of ob (js ''options'')) (JArr [])))"

text \<open>Assigning a string to \<open>__proto__\<close> of a plain object has no effect.\<close>

definition extract_template_data :: "jobj \<Rightarrow> jobj" where
  "extract_template_data ob =
     (let raw = coalesce (field_of ob (js ''templateData'')) (field_of ob (js ''variables''))
      in if is_object raw
         then map (\<lambda>(k, v). (k, JStr (js_string v))) (filter (\<lambda>e. fst e \<noteq> js ''__proto__'') (entries_of raw))
         else [])"

definition format_tool_name :: "jval \<Rightarrow> jstr option" where
  "format_tool_name name =
     map_option (\<lambda>s. join (js '' '') (filter (\<lambda>p. p \<noteq> js ''skill'') (split_on 0x2D s))) (as_string name)"

definition result_line :: "(jval \<Rightarrow> jstr) \<Rightarrow> jstr \<times> jval \<Rightarrow> jstr" where
  "result_line stringify e =
     (let shown = (if is_object (snd e) then stringify (snd e) else js_string (snd e));
          short = (if length shown > 200 then slice 0 200 shown @ js ''...'' else shown)
      in js ''**'' @ fst e @ js ''**: '' @ short)"

definition summarize_result :: "(jval \<Rightarrow> jstr) \<Rightarrow> jval \<Rightarrow> jstr" where
  "summarize_result stringify res =
     (let entries = entries_of res;
          lines = map (result_line stringify) (slice 0 10 entries)
      in if entries = [] then ([0x64CD, 0x4F5C, 0x5DF2, 0x5B8C, 0x6210])
         else join newline (if length entries > 10
                then lines @ [newline @ (js ''...('' @ [0x5171] @ js '' '') @ nat_dec (length entries) @ (js '' '' @ [0x9879, 0x7ED3, 0x679C] @ js '')'')]
                else lines))"

section \<open>Mapping\<close>

definition entity_button :: "nat \<times> jval \<Rightarrow> card_button" where
  "entity_button e =
     (let ob = as_object (snd e);
          id' = coalesce (field_of ob (js ''id'')) (JStr (js ''candidate-'' @ nat_dec (fst e)));
          lbl = coalesce (field_of ob (js ''displayName''))
                 (coalesce (field_of ob (js ''name'')) (coalesce (field_of ob (js ''label'')) id'))
      in \<lparr>bt_text = lbl, bt_style = JStr (js ''default''), bt_key = id', bt_url = JUndef\<rparr>)"

definition entity_buttons :: "jobj \<Rightarrow> card_button list" where
  "entity_buttons ob =
     map entity_button (List.enumerate 0 (case field_of ob (js ''candidates'') of JArr vs \<Rightarrow> vs | _ \<Rightarrow> []))
     @ [\<lparr>bt_text = JStr ([0x624B, 0x52A8, 0x8F93, 0x5165]), bt_style = JStr (js ''default''), bt_key = JStr (js ''manual''), bt_url = JUndef\<rparr>,
        \<lparr>bt_text = JStr ([0x53D6, 0x6D88]), bt_style = JStr (js ''warning''), bt_key = JStr (js ''cancel''), bt_url = JUndef\<rparr>]"

definition map_entity_select :: "jstr \<Rightarrow> jobj \<Rightarrow> mapper \<Rightarrow> bot_result" where
  "map_entity_select uuid ob m =
     (let token = coalesce (field_of ob (js ''resumeToken'')) (JStr []);
          fld = coalesce (field_of ob (js ''field'')) (JStr []);
          prompt = coalesce (field_of ob (js ''prompt'')) (JStr ([0x8BF7, 0x9009, 0x62E9, 0x4E00, 0x4E2A, 0x5019, 0x9009, 0x5B9E, 0x4F53]));
          orig = coalesce (field_of ob (js ''originalValue'')) (JStr []);
          content = js_string prompt
            @ (if truthy fld then ([0xFF08, 0x5B57, 0x6BB5, 0xFF1A]) @ js_string fld @ ([0xFF09]) else [])
            @ (if truthy orig then newline @ ([0x5F53, 0x524D, 0x503C, 0xFF1A]) @ js_string orig else [])
      in \<lparr>br_card = build_button_interaction (bm_builder m) uuid (JStr ([0x5B9E, 0x4F53, 0x9009, 0x62E9])) (JStr content)
             (entity_buttons ob) JUndef token,
          br_event = Ui_render, br_degraded = True\<rparr>)"

definition map_component_card :: "jstr \<Rightarrow> card_type \<Rightarrow> jstr \<Rightarrow> jobj \<Rightarrow> mapper \<Rightarrow> template_card option" where
  "map_component_card uuid ct component ob m =
     (let b = bm_builder m; title = JStr (extract_title ob component)
      in case ct of
           Text_notice \<Rightarrow> Some (build_text_notice b title (JStr (format_component_as_text component ob)) no_text_options)
         | News_notice \<Rightarrow> Some (build_news_notice b title (prop_or ob ''summary'' []) (prop_or ob ''imageUrl'' [])
              (prop_or ob ''linkUrl'' (js ''#'')) JUndef)
         | Button_interaction \<Rightarrow>
              map_option (\<lambda>btns. build_button_interaction b uuid title (prop_or ob ''content'' []) btns JUndef JUndef)
                (extract_buttons ob)
         | Multiple_interaction \<Rightarrow>
              map_option (\<lambda>flds. build_multiple_interaction b uuid title flds (prop_or ob ''submitText'' ([0x63D0, 0x4EA4]))
                  (prop_or ob ''content'' []) JUndef JUndef)
                (extract_fields ob)
         | Vote_interaction \<Rightarrow>
              map_option (\<lambda>opts. build_vote_interaction b uuid title (prop_or ob ''content'' []) opts JUndef JUndef)
                (extract_vote_options ob)
         | Template_notice \<Rightarrow>
              Some (build_template_notice b (prop_or ob ''templateId'' []) (extract_template_data ob) title
                (prop_or ob ''content'' []) JUndef))"

definition map_ui_render :: "jstr \<Rightarrow> jval \<Rightarrow> jval \<Rightarrow> mapper \<Rightarrow> bot_result option" where
  "map_ui_render uuid component props m =
     (case as_string component of
        None \<Rightarrow> None
      | Some c \<Rightarrow>
          (if only_az (to_lower c) = js ''entityselect'' then Some (map_entity_select uuid (as_object props) m)
           else map_option (\<lambda>card. \<lparr>br_card = card, br_event = Ui_render, br_degraded = (resolve_card_type c = Text_notice)\<rparr>)
                  (map_component_card uuid (resolve_card_type c) c (as_object props) m)))"

definition approval_buttons :: "jval \<Rightarrow> card_button list" where
  "approval_buttons aid =
     [\<lparr>bt_text = JStr ([0x540C, 0x610F]), bt_style = JStr (js ''primary''), bt_key = JStr (js ''approve:'' @ js_string aid), bt_url = JUndef\<rparr>,
      \<lparr>bt_text = JStr ([0x62D2, 0x7EDD]), bt_style = JStr (js ''warning''), bt_key = JStr (js ''reject:'' @ js_string aid), bt_url = JUndef\<rparr>,
      \<lparr>bt_text = JStr ([0x67E5, 0x770B, 0x8BE6, 0x60C5]), bt_style = JStr (js ''default''), bt_key = JStr (js ''detail:'' @ js_string aid),
       bt_url = JStr (js ''#/approval/'' @ js_string aid)\<rparr>]"

definition map_approval_request :: "jstr \<Rightarrow> approval_detail \<Rightarrow> mapper \<Rightarrow> bot_result" where
  "map_approval_request uuid d m =
     \<lparr>br_card = build_button_interaction (bm_builder m) uuid (ad_title d) (ad_description d)
        (approval_buttons (ad_approval_id d)) JUndef (ad_approval_id d),
      br_event = Approval_request, br_degraded = True\<rparr>"

definition map_tool_result :: "(jval \<Rightarrow> jstr) \<Rightarrow> jval \<Rightarrow> jval \<Rightarrow> mapper \<Rightarrow> bot_result option" where
  "map_tool_result stringify name res m =
     map_option (\<lambda>n. \<lparr>br_card = build_text_notice (bm_builder m) (JStr (tool_result_prefix @ js '': '' @ n))
         (JStr (summarize_result stringify res)) no_text_options,
       br_event = Tool_result, br_degraded = True\<rparr>) (format_tool_name name)"

definition map_error :: "jval \<Rightarrow> jval \<Rightarrow> mapper \<Rightarrow> bot_result" where
  "map_error code msg m =
     \<lparr>br_card = build_text_notice (bm_builder m) (JStr ([0x26A0, 0xFE0F] @ js '' '' @ [0x5904, 0x7406, 0x51FA, 0x9519]))
        (JStr ((js ''**'' @ [0x9519, 0x8BEF, 0x7801] @ js ''**: '') @ js_string code @ newline @ newline @ (js ''**'' @ [0x9519, 0x8BEF, 0x4FE1, 0x606F] @ js ''**: '') @ js_string msg
               @ newline @ newline @ ([0x8BF7, 0x7A0D, 0x540E, 0x91CD, 0x8BD5, 0x6216, 0x8054, 0x7CFB, 0x7BA1, 0x7406, 0x5458, 0x3002]))) no_text_options,
      br_event = Error_event, br_degraded = True\<rparr>"

definition map_tool_call :: "jval \<Rightarrow> mapper \<Rightarrow> bot_result option" where
  "map_tool_call name m =
     map_option (\<lambda>n. \<lparr>br_card = build_text_notice (bm_builder m) (JStr tool_call_prefix)
         (JStr (([0x6B63, 0x5728, 0x8C03, 0x7528] @ js '' **'') @ n @ (js ''**'' @ [0xFF0C, 0x8BF7, 0x7A0D, 0x5019] @ js ''...''))) no_text_options,
       br_event = Tool_call, br_degraded = True\<rparr>) (format_tool_name name)"

section \<open>The buffer as an interface\<close>

text \<open>What the event transformer relies on: text goes in piece by piece and comes out whole, once.\<close>

locale text_buffer =
  fixes pending :: "'b \<Rightarrow> jstr"
    and has_text :: "'b \<Rightarrow> bool"
    and push :: "jstr \<Rightarrow> 'b \<Rightarrow> 'b"
    and flush :: "'b \<Rightarrow> jstr \<times> 'b"
  assumes pending_push: "pending (push s b) = pending b @ s"
    and has_text_push: "has_text (push s b)"
    and fst_flush: "fst (flush b) = pending b"
    and pending_flush: "pending (snd (flush b)) = []"
    and has_text_flush: "\<not> has_text (snd (flush b))"
begin

definition push_all :: "jstr list \<Rightarrow> 'b \<Rightarrow> 'b" where
  "push_all ss b = foldl (\<lambda>b s. push s b) b ss"

lemma push_all_simps: "push_all [] b = b" "push_all (s # ss) b = push_all ss (push s b)"
  by (simp_all add: push_all_def)

lemma pending_push_all: "pending (push_all ss b) = pending b @ concat ss"
  by (induction ss arbitrary: b) (simp_all add: push_all_def pending_push)

lemma has_text_push_all: "has_text (push_all ss b) \<longleftrightarrow> has_text b \<or> ss \<noteq> []"
proof (induction ss arbitrary: b)
  case Nil
  then show ?case by (simp add: push_all_def)
next
  case (Cons s ss)
  have "push_all (s # ss) b = push_all ss (push s b)" by (simp add: push_all_def)
  with Cons.IH [of "push s b"] show ?case by (simp add: has_text_push)
qed

lemma flush_push_all:
  assumes "\<not> has_text b" "pending b = []"
  shows "fst (flush (push_all ss b)) = concat ss \<and> pending (snd (flush (push_all ss b))) = []"
  using assms by (simp add: fst_flush pending_push_all pending_flush)

end

definition mapper_pending :: "mapper \<Rightarrow> jstr" where "mapper_pending m = join [] (bm_buffer m)"

definition mapper_push :: "jstr \<Rightarrow> mapper \<Rightarrow> mapper" where
  "mapper_push s m = m\<lparr>bm_buffer := bm_buffer m @ [s]\<rparr>"

definition mapper_flush :: "mapper \<Rightarrow> jstr \<times> mapper" where
  "mapper_flush m = (mapper_pending m, snd (map_text_delta m))"

interpretation bot_text: text_buffer mapper_pending has_buffered_text mapper_push mapper_flush
  by unfold_locales
    (simp_all add: mapper_pending_def mapper_push_def mapper_flush_def has_buffered_text_def
      map_text_delta_def join_Nil_concat)

lemma buffer_text_delta_push:
  "is_event ev Text_delta \<Longrightarrow> ae_content ev = JStr s \<Longrightarrow> buffer_text_delta ev m = mapper_push s m"
  by (simp add: buffer_text_delta_def mapper_push_def)

lemma content_text_notice [simp]: "content_of (build_text_notice b t c opts) = c"
  by (simp add: content_of_def build_text_notice_def)

lemma content_map_text_delta:
  "content_of (br_card (fst (map_text_delta m))) = JStr (truncate_text (mapper_pending m))"
  by (simp add: map_text_delta_def mapper_pending_def)

section \<open>Bounds and selections\<close>

lemma length_truncation_mark: "length truncation_mark = 12"
  by (simp add: truncation_mark_def)

lemma length_truncate_text: "length (truncate_text s) \<le> bot_max_length"
  by (simp add: truncate_text_def bot_max_length_def length_truncation_mark slice_def)

lemma truncate_text_prefix: "take (min (length s) (bot_max_length - 20)) (truncate_text s)
    = take (min (length s) (bot_max_length - 20)) s"
  by (auto simp: truncate_text_def bot_max_length_def slice_def)

text \<open>
  The mapper and the capability declaration of the bot channel choose the card of a
  component by different tables: for a report form the declaration promises an interactive
  form and the mapper sends a text, while for a plain form the two agree.
\<close>

theorem card_choice_disagrees:
  "bot_card_type (js ''ReportForm'') = Some Multiple_interaction \<and> resolve_card_type (js ''ReportForm'') = Text_notice
   \<and> bot_card_type (js ''Form'') = Some (resolve_card_type (js ''Form''))"
  by (simp add: bot_card_type_def resolve_card_type_def component_card_map_def only_az_def to_lower_def
      lower_unit_def js_def str_includes_def sublist_code)

definition option_ids :: "template_card \<Rightarrow> jval list" where
  "option_ids c = map (\<lambda>v. field_of (as_object v) (js ''id''))
     (list_of (field_of (as_object (field_of (tc_data c) (js ''button_selection''))) (js ''option_list'')))"

lemma button_card:
  "option_ids (build_button_interaction b uuid t c btns sec task) = map bt_key btns"
  "field_of (tc_data (build_button_interaction b uuid t c btns sec task)) (js ''task_id'') = coalesce task (JStr uuid)"
  by (simp_all add: option_ids_def build_button_interaction_def list_of_def button_option_def o_def)

lemma entity_card:
  "br_card (map_entity_select uuid ob m) = build_button_interaction (bm_builder m) uuid
     (field_of (as_object (field_of (tc_data (br_card (map_entity_select uuid ob m))) (js ''main_title''))) (js ''title''))
     (content_of (br_card (map_entity_select uuid ob m))) (entity_buttons ob) JUndef
     (coalesce (field_of ob (js ''resumeToken'')) (JStr []))"
  unfolding map_entity_select_def Let_def content_of_def
  by (simp only: bot_result.select_convs) (simp add: build_button_interaction_def)

text \<open>
  An entity-selection card offers every candidate once, in order, under the candidate's
  identifier, then manual input and cancellation, and carries the resume token as its task, so
  that a click can be resumed.
\<close>

theorem entity_select_offers_candidates:
  assumes "field_of ob (js ''candidates'') = JArr (map (\<lambda>i. JObj (jp ''id'' (JStr i) # rest i)) ids)"
    and "field_of ob (js ''resumeToken'') = JStr token"
  shows "option_ids (br_card (map_entity_select uuid ob m))
           = map JStr ids @ [JStr (js ''manual''), JStr (js ''cancel'')]
    \<and> field_of (tc_data (br_card (map_entity_select uuid ob m))) (js ''task_id'') = JStr token"
proof -
  have "map (bt_key \<circ> entity_button) (List.enumerate n (map (\<lambda>i. JObj (jp ''id'' (JStr i) # rest i)) ids)) = map JStr ids" for n
    by (induction ids arbitrary: n) (simp_all add: entity_button_def coalesce_def Let_def)
  from this [of 0] assms show ?thesis
    by (subst (1 2) entity_card) (simp add: button_card entity_buttons_def coalesce_def)
qed

theorem entity_select_offers_candidates_witness:
  "option_ids (br_card (map_entity_select (js ''u'')
     [jp ''resumeToken'' (JStr (js ''t'')),
      jp ''candidates'' (JArr [JObj [jp ''id'' (JStr (js ''c1''))], JObj [jp ''id'' (JStr (js ''c2''))]])]
     (new_mapper None)))
   = [JStr (js ''c1''), JStr (js ''c2''), JStr (js ''manual''), JStr (js ''cancel'')]"
  using entity_select_offers_candidates [where rest = "\<lambda>_. []" and ids = "[js ''c1'', js ''c2'']" and token = "js ''t''"
    and uuid = "js ''u''" and m = "new_mapper None"
    and ob = "[jp ''resumeToken'' (JStr (js ''t'')),
      jp ''candidates'' (JArr [JObj [jp ''id'' (JStr (js ''c1''))], JObj [jp ''id'' (JStr (js ''c2''))]])]"]
  by simp

end
