(* ===== verification/Event_Transformer.thy ===== *)
theory Event_Transformer
  imports Bot_Mapper
begin

text \<open>
  gateway/src/router/EventTransformer.ts: an agent event becomes a message of the target
  channel, passed through for the H5 channels and turned into a card for the bot channel.
\<close>

section \<open>Messages\<close>

datatype message_kind = Stream_msg | Card_msg | Approval_msg | Tool_msg | Error_msg | Done_msg

record channel_message =
  cm_kind :: message_kind
  cm_channel :: channel_type
  cm_event :: jval
  cm_data :: "agent_event option"
  cm_card :: "template_card option"
  cm_degraded :: bool

record transformer =
  et_registry :: registry
  et_mapper :: mapper

datatype transform_error = No_capability channel_type | Wrong_type

definition new_transformer :: "registry \<Rightarrow> mapper option \<Rightarrow> transformer" where
  "new_transformer r m = \<lparr>et_registry = r, et_mapper = default_to (new_mapper None) m\<rparr>"

section \<open>Conversions\<close>

fun h5_kind :: "event_type option \<Rightarrow> message_kind" where
  "h5_kind (Some Text_delta) = Stream_msg"
| "h5_kind (Some Ui_render) = Card_msg"
| "h5_kind (Some Approval_request) = Approval_msg"
| "h5_kind (Some Tool_call) = Tool_msg"
| "h5_kind (Some Tool_result) = Tool_msg"
| "h5_kind (Some Dispatch_trace) = Stream_msg"
| "h5_kind (Some Error_event) = Error_msg"
| "h5_kind (Some Done_event) = Done_msg"
| "h5_kind None = Stream_msg"

definition to_h5_event :: "agent_event \<Rightarrow> channel_type \<Rightarrow> channel_message" where
  "to_h5_event ev c = \<lparr>cm_kind = h5_kind (event_case (ae_type ev)), cm_channel = c, cm_event = ae_type ev,
     cm_data = Some ev, cm_card = None, cm_degraded = False\<rparr>"

definition to_wecom_app_message :: "agent_event \<Rightarrow> jval \<times> jval" where
  "to_wecom_app_message ev =
     (case event_case (ae_type ev) of
        Some Text_delta \<Rightarrow> (JStr (js ''AI'' @ [0x52A9, 0x624B, 0x56DE, 0x590D]), coalesce (ae_content ev) (JStr []))
      | Some Ui_render \<Rightarrow> (coalesce (ae_component ev) (JStr ([0x52A8, 0x6001, 0x5185, 0x5BB9])), JStr ([0x8BF7, 0x6253, 0x5F00] @ js '' H5 '' @ [0x9875, 0x9762, 0x67E5, 0x770B, 0x5B8C, 0x6574, 0x5185, 0x5BB9]))
      | Some Approval_request \<Rightarrow> (JStr ([0x5BA1, 0x6279, 0x901A, 0x77E5]),
          coalesce (field_of (as_object (ae_detail ev)) (js ''description'')) (JStr ([0x60A8, 0x6709, 0x4E00, 0x6761, 0x5F85, 0x5BA1, 0x6279, 0x4E8B, 0x9879, 0xFF0C, 0x8BF7, 0x53CA, 0x65F6, 0x5904, 0x7406])))
      | Some Tool_result \<Rightarrow> (JStr (([0x5DE5, 0x5177, 0x6267, 0x884C, 0x5B8C, 0x6210] @ js '': '') @ js_string (coalesce (ae_tool_name ev) (JStr []))),
          JStr ([0x8BF7, 0x6253, 0x5F00] @ js '' H5 '' @ [0x9875, 0x9762, 0x67E5, 0x770B, 0x8BE6, 0x7EC6, 0x7ED3, 0x679C]))
      | Some Error_event \<Rightarrow> (JStr ([0x5904, 0x7406, 0x51FA, 0x9519]),
          JStr (([0x9519, 0x8BEF, 0x7801] @ js '': '') @ js_string (coalesce (ae_error_code ev) (JStr (js ''UNKNOWN''))) @ newline
                @ ([0x9519, 0x8BEF, 0x4FE1, 0x606F] @ js '': '') @ js_string (coalesce (ae_error_message ev) (JStr ([0x672A, 0x77E5, 0x9519, 0x8BEF])))))
      | Some Done_event \<Rightarrow> (JStr ([0x5904, 0x7406, 0x5B8C, 0x6210]), JStr (js ''AI'' @ [0x52A9, 0x624B, 0x5DF2, 0x5B8C, 0x6210, 0x5904, 0x7406]))
      | _ \<Rightarrow> (JStr ([0x901A, 0x77E5]), JStr ([0x60A8, 0x6709, 0x4E00, 0x6761, 0x65B0, 0x6D88, 0x606F])))"

definition bot_message :: "message_kind \<Rightarrow> agent_event \<Rightarrow> template_card option \<Rightarrow> bool \<Rightarrow> channel_message" where
  "bot_message k ev tcard deg = \<lparr>cm_kind = k, cm_channel = Wecom_Bot, cm_event = ae_type ev, cm_data = None,
     cm_card = tcard, cm_degraded = deg\<rparr>"

definition card_message :: "agent_event \<Rightarrow> bot_result \<Rightarrow> channel_message" where
  "card_message ev res = bot_message Card_msg ev (Some (br_card res)) (br_degraded res)"

definition approval_of :: "agent_event \<Rightarrow> approval_detail" where
  "approval_of ev =
     (let d = as_object (ae_detail ev)
      in \<lparr>ad_title = coalesce (field_of d (js ''title'')) (JStr ([0x5BA1, 0x6279, 0x8BF7, 0x6C42])),
          ad_description = coalesce (field_of d (js ''description'')) (JStr ([0x8BF7, 0x5904, 0x7406, 0x4EE5, 0x4E0B, 0x5BA1, 0x6279, 0x4E8B, 0x9879])),
          ad_skill_id = coalesce (ae_skill_id ev) (JStr []),
          ad_approval_id = coalesce (field_of d (js ''approvalId'')) (JStr [])\<rparr>)"

definition to_bot_card ::
  "(jval \<Rightarrow> jstr) \<Rightarrow> jstr \<Rightarrow> agent_event \<Rightarrow> transformer \<Rightarrow> (transform_error + channel_message) \<times> transformer" where
  "to_bot_card stringify uuid ev t =
     (let m = et_mapper t;
          shown = (\<lambda>r. case r of None \<Rightarrow> Inl Wrong_type | Some res \<Rightarrow> Inr (card_message ev res))
      in case event_case (ae_type ev) of
           Some Text_delta \<Rightarrow>
             (Inr (bot_message Stream_msg ev None True), t\<lparr>et_mapper := buffer_text_delta ev m\<rparr>)
         | Some Ui_render \<Rightarrow>
             (shown (map_ui_render uuid (coalesce (ae_component ev) (JStr (js ''Unknown'')))
                (coalesce (ae_props ev) (JObj [])) m), t)
         | Some Approval_request \<Rightarrow> (Inr (card_message ev (map_approval_request uuid (approval_of ev) m)), t)
         | Some Tool_call \<Rightarrow> (shown (map_tool_call (coalesce (ae_tool_name ev) (JStr [])) m), t)
         | Some Tool_result \<Rightarrow>
             (shown (map_tool_result stringify (coalesce (ae_tool_name ev) (JStr []))
                (coalesce (ae_result ev) (JObj [])) m), t)
         | Some Dispatch_trace \<Rightarrow> (Inr (bot_message Stream_msg ev None True), t)
         | Some Error_event \<Rightarrow>
             (Inr (card_message ev (map_error (coalesce (ae_error_code ev) (JStr (js ''UNKNOWN'')))
                (coalesce (ae_error_message ev) (JStr ([0x672A, 0x77E5, 0x9519, 0x8BEF]))) m)), t)
         | Some Done_event \<Rightarrow>
             (if has_buffered_text m
              then (case map_text_delta m of (res, m') \<Rightarrow> (Inr (card_message ev res), t\<lparr>et_mapper := m'\<rparr>))
              else (Inr (bot_message Done_msg ev None False), t))
         | None \<Rightarrow>
             (Inr (card_message ev (map_error (JStr (js ''UNKNOWN_EVENT''))
                (JStr (([0x65E0, 0x6CD5, 0x5904, 0x7406, 0x7684, 0x4E8B, 0x4EF6, 0x7C7B, 0x578B] @ js '': '') @ js_string (ae_type ev))) m)), t))"

definition degrade_by_capability ::
  "(jval \<Rightarrow> jstr) \<Rightarrow> jstr \<Rightarrow> agent_event \<Rightarrow> capability \<Rightarrow> transformer
     \<Rightarrow> (transform_error + channel_message) \<times> transformer" where
  "degrade_by_capability stringify uuid ev cap t =
     (if cc_channel cap = Wecom_Bot then to_bot_card stringify uuid ev t
      else (Inr (to_h5_event ev (cc_channel cap)), t))"

text \<open>
  \<open>canRender\<close> of a type outside the declared ones is that of the default case, which is that
  of \<open>done\<close> for every capability of the code.
\<close>

definition transform ::
  "(jval \<Rightarrow> jstr) \<Rightarrow> jstr \<Rightarrow> agent_event \<Rightarrow> channel_type \<Rightarrow> transformer
     \<Rightarrow> (transform_error + channel_message) \<times> transformer" where
  "transform stringify uuid ev c t =
     (if c = Wecom_Bot then to_bot_card stringify uuid ev t
      else case get_capability (et_registry t) c of
             Inl _ \<Rightarrow> (Inl (No_capability c), t)
           | Inr cap \<Rightarrow>
               if cc_can_render cap (default_to Done_event (event_case (ae_type ev)))
               then (Inr (to_h5_event ev c), t)
               else degrade_by_capability stringify uuid ev cap t)"

definition flush_buffered_events :: "channel_type \<Rightarrow> transformer \<Rightarrow> channel_message option \<times> transformer" where
  "flush_buffered_events c t =
     (if c \<noteq> Wecom_Bot \<or> \<not> has_buffered_text (et_mapper t) then (None, t)
      else case map_text_delta (et_mapper t) of
             (res, m') \<Rightarrow>
               (Some \<lparr>cm_kind = Card_msg, cm_channel = Wecom_Bot, cm_event = JStr (js ''text.delta''),
                  cm_data = None, cm_card = Some (br_card res), cm_degraded = True\<rparr>, t\<lparr>et_mapper := m'\<rparr>))"

definition reset_transformer :: "transformer \<Rightarrow> transformer" where
  "reset_transformer t = t\<lparr>et_mapper := clear_buffer (et_mapper t)\<rparr>"

section \<open>Sequences of events\<close>

primrec transform_all ::
  "(jval \<Rightarrow> jstr) \<Rightarrow> jstr \<Rightarrow> channel_type \<Rightarrow> agent_event list \<Rightarrow> transformer
     \<Rightarrow> (transform_error + channel_message) list \<times> transformer" where
  "transform_all stringify uuid c [] t = ([], t)"
| "transform_all stringify uuid c (ev # evs) t =
     (case transform stringify uuid ev c t of
        (r, t1) \<Rightarrow> (case transform_all stringify uuid c evs t1 of (rs, t2) \<Rightarrow> (r # rs, t2)))"

lemma is_event_case: "is_event ev ty \<longleftrightarrow> event_case (ae_type ev) = Some ty"
  using event_case_Some [of "ae_type ev" ty] by (auto simp: is_event_def)

lemma transform_text_delta:
  assumes "is_event ev Text_delta" "ae_content ev = JStr s"
  shows "transform stringify uuid ev Wecom_Bot t =
    (Inr (bot_message Stream_msg ev None True), t\<lparr>et_mapper := mapper_push s (et_mapper t)\<rparr>)"
  using assms(1) [unfolded is_event_case] buffer_text_delta_push [OF assms]
  by (simp add: transform_def to_bot_card_def Let_def)

definition text_events :: "agent_event list \<Rightarrow> jstr list \<Rightarrow> bool" where
  "text_events evs ss \<longleftrightarrow> list_all2 (\<lambda>ev s. is_event ev Text_delta \<and> ae_content ev = JStr s) evs ss"

lemma transform_text_deltas:
  assumes "text_events evs ss"
  shows "transform_all stringify uuid Wecom_Bot evs t =
    (map (\<lambda>ev. Inr (bot_message Stream_msg ev None True)) evs,
     t\<lparr>et_mapper := bot_text.push_all ss (et_mapper t)\<rparr>)"
  using assms unfolding text_events_def
proof (induction evs ss arbitrary: t rule: list_all2_induct)
  case Nil
  then show ?case by (simp add: bot_text.push_all_def)
next
  case (Cons ev evs s ss)
  then show ?case
    by (simp add: transform_text_delta bot_text.push_all_def split: prod.splits)
qed

lemma transform_done:
  assumes "is_event ev Done_event" "has_buffered_text (et_mapper t)"
  shows "transform stringify uuid ev Wecom_Bot t =
    (Inr (card_message ev (fst (map_text_delta (et_mapper t)))),
     t\<lparr>et_mapper := snd (map_text_delta (et_mapper t))\<rparr>)"
  using assms(1) [unfolded is_event_case] assms(2)
  by (simp add: transform_def to_bot_card_def split_beta Let_def)

lemma transform_all_append:
  "transform_all stringify uuid c (evs @ evs') t =
     (case transform_all stringify uuid c evs t of
        (rs, t1) \<Rightarrow> (case transform_all stringify uuid c evs' t1 of (rs', t2) \<Rightarrow> (rs @ rs', t2)))"
  by (induction evs arbitrary: t) (simp_all split: prod.splits)

definition card_contents :: "(transform_error + channel_message) list \<Rightarrow> jval list" where
  "card_contents rs = concat (map (\<lambda>r. case r of Inr msg \<Rightarrow>
     (case cm_card msg of Some c \<Rightarrow> [content_of c] | None \<Rightarrow> []) | Inl _ \<Rightarrow> []) rs)"

lemma card_contents_silent:
  "card_contents (map (\<lambda>ev. Inr (bot_message Stream_msg ev None True)) evs) = []"
  by (induction evs) (simp_all add: card_contents_def bot_message_def)

lemma card_contents_append: "card_contents (rs @ rs') = card_contents rs @ card_contents rs'"
  by (simp add: card_contents_def)

text \<open>
  C7: On the bot channel a reply that streams in pieces produces no card before it is done, and
  then exactly one, whose content is the pieces in order, cut to the channel's limit; nothing
  of it is left in the buffer for the next reply.
\<close>

theorem streamed_reply_is_one_card:
  assumes "text_events evs ss" "ss \<noteq> []" "is_event fin Done_event" "\<not> has_buffered_text (et_mapper t)"
    and "transform_all stringify uuid Wecom_Bot (evs @ [fin]) t = (rs, t')"
  shows "card_contents rs = [JStr (truncate_text (concat ss))]
    \<and> length (truncate_text (concat ss)) \<le> cc_max_length wecom_bot_capability
    \<and> \<not> has_buffered_text (et_mapper t')"
proof -
  let ?m = "bot_text.push_all ss (et_mapper t)"
  have buf: "has_buffered_text ?m" using assms(2) by (simp add: bot_text.has_text_push_all)
  have "bm_buffer (et_mapper t) = []" using assms(4) by (simp add: has_buffered_text_def)
  then have pend: "mapper_pending ?m = concat ss"
    unfolding bot_text.pending_push_all by (simp add: mapper_pending_def)
  have last_step: "transform stringify uuid fin Wecom_Bot (t\<lparr>et_mapper := ?m\<rparr>) =
      (Inr (card_message fin (fst (map_text_delta ?m))), t\<lparr>et_mapper := snd (map_text_delta ?m)\<rparr>)"
    using transform_done [OF assms(3), of "t\<lparr>et_mapper := ?m\<rparr>"] buf by simp
  from assms(5) have rs: "rs = map (\<lambda>ev. Inr (bot_message Stream_msg ev None True)) evs
      @ [Inr (card_message fin (fst (map_text_delta ?m)))]" and t': "et_mapper t' = snd (map_text_delta ?m)"
    by (auto simp: transform_all_append transform_text_deltas [OF assms(1)] last_step)
  have "card_contents rs = [JStr (truncate_text (concat ss))]"
    unfolding rs card_contents_append card_contents_silent
    by (simp add: card_contents_def card_message_def bot_message_def content_map_text_delta pend)
  moreover have "\<not> has_buffered_text (et_mapper t')" by (simp add: t' map_text_delta_def has_buffered_text_def)
  ultimately show ?thesis
    using length_truncate_text [of "concat ss"]
    by (simp add: wecom_bot_capability_def bot_max_length_def)
qed

definition ev_of :: "event_type \<Rightarrow> jval \<Rightarrow> agent_event" where
  "ev_of ty c = demo_event\<lparr>ae_type := JStr (event_name ty), ae_content := c\<rparr>"

theorem streamed_reply_is_one_card_witness:
  "card_contents (fst (transform_all js_string (js ''u'') Wecom_Bot
     ([ev_of Text_delta (JStr (js ''Hel'')), ev_of Text_delta (JStr (js ''lo''))] @ [ev_of Done_event JUndef])
     (new_transformer new_registry None))) = [JStr (js ''Hello'')]"
proof -
  have te: "text_events [ev_of Text_delta (JStr (js ''Hel'')), ev_of Text_delta (JStr (js ''lo''))]
      [js ''Hel'', js ''lo'']"
    by (simp add: text_events_def is_event_def ev_of_def)
  have cat: "truncate_text (concat [js ''Hel'', js ''lo'']) = js ''Hello''"
    by (simp add: truncate_text_def bot_max_length_def flip: js_append)
  from streamed_reply_is_one_card [OF te _ _ _ surjective_pairing, of "ev_of Done_event JUndef"
      "new_transformer new_registry None"]
  show ?thesis unfolding cat
    by (simp add: is_event_def ev_of_def new_transformer_def new_mapper_def has_buffered_text_def
        del: transform_all.simps)
qed

definition shows_nothing :: "agent_event \<Rightarrow> mapper \<Rightarrow> bool" where
  "shows_nothing ev m \<longleftrightarrow> is_event ev Text_delta \<or> is_event ev Dispatch_trace
     \<or> (is_event ev Done_event \<and> \<not> has_buffered_text m)"

text \<open>
  On the H5 channels every event is passed on as it is and the transformer keeps its state;
  on the bot channel no event is ever passed through, and every message carries a card except
  those of streamed text, of a dispatch trace and of the end of a reply without text.
\<close>

theorem transform_respects_channel:
  assumes "et_registry t = new_registry"
  shows "(c \<noteq> Wecom_Bot \<longrightarrow> transform stringify uuid ev c t = (Inr (to_h5_event ev c), t))
    \<and> (\<forall>msg. fst (transform stringify uuid ev Wecom_Bot t) = Inr msg \<longrightarrow>
        cm_data msg = None \<and> cm_channel msg = Wecom_Bot
        \<and> (cm_card msg = None \<longleftrightarrow> shows_nothing ev (et_mapper t)))"
proof (intro conjI impI allI)
  assume "c \<noteq> Wecom_Bot"
  then show "transform stringify uuid ev c t = (Inr (to_h5_event ev c), t)"
    using assms by (cases c) (simp_all add: transform_def get_capability_def new_registry_def reg_register_def
        wecom_h5_capability_def wecom_bot_capability_def h5_capability_def)
next
  fix msg assume a: "fst (transform stringify uuid ev Wecom_Bot t) = Inr msg"
  then show "cm_data msg = None" "cm_channel msg = Wecom_Bot"
    "cm_card msg = None \<longleftrightarrow> shows_nothing ev (et_mapper t)"
    by (auto simp: transform_def to_bot_card_def Let_def card_message_def bot_message_def
        shows_nothing_def is_event_case split: option.splits event_type.splits if_splits prod.splits)
qed

theorem transform_respects_channel_witness:
  "transform js_string [] (ev_of Ui_render JUndef) H5 (new_transformer new_registry None)
     = (Inr (to_h5_event (ev_of Ui_render JUndef) H5), new_transformer new_registry None)"
  by (rule transform_respects_channel [THEN conjunct1, rule_format]) (simp_all add: new_transformer_def)

end
