(* ===== verification/Message_Router.thy ===== *)
theory Message_Router
  imports Event_Transformer Redis_Stream Redis_Kv
begin

text \<open>
  gateway/src/router/MessageRouter.ts, which sends an inbound message to the stream of the
  agent its session is bound to or to the stream of its channel, and the callback of
  gateway/src/index.ts that hands an agent event of the outbound stream to the adapter of its
  channel. Redis and the stream write are parameters.
\<close>

section \<open>Routing\<close>

record route_result =
  rt_message_id :: jstr
  rt_session_id :: jstr
  rt_stream_key :: jstr
  rt_agent_id :: "jstr option"
  rt_channel :: jstr
  rt_timestamp :: jstr

record session_context =
  sx_session_id :: jstr
  sx_user_id :: jstr
  sx_channel :: jstr
  sx_has_bound :: bool
  sx_bound_agent :: "jstr option"

datatype route_error = Redis_failed | Stream_failed stream_error

definition binding_key :: "jstr \<Rightarrow> jstr" where
  "binding_key sid = js ''session:'' @ sid @ js '':agent_binding''"

definition agent_enabled_key :: "jstr \<Rightarrow> jstr" where
  "agent_enabled_key a = js ''agent:'' @ a @ js '':enabled''"

definition resolve_agent :: "'r kv_ops \<Rightarrow> jstr \<Rightarrow> 'r \<Rightarrow> (route_error + jstr option) \<times> 'r" where
  "resolve_agent R sid r =
     (if kv_down R r (binding_key sid) then (Inl Redis_failed, r)
      else case kv_get R r (binding_key sid) of
             None \<Rightarrow> (Inr None, r)
           | Some a \<Rightarrow>
               if kv_down R r (agent_enabled_key a) then (Inl Redis_failed, r)
               else (let enabled = kv_get R r (agent_enabled_key a)
                     in if enabled = Some (js ''1'') \<or> enabled = None then (Inr (Some a), r)
                        else (Inr None, kv_del R (binding_key sid) r)))"

text \<open>The result of \<open>route\<close>, the message as it is left (\<open>agentId\<close> is filled in), and the server.\<close>

definition route ::
  "'r kv_ops \<Rightarrow> (jstr list \<Rightarrow> 'r \<Rightarrow> jstr option \<times> 'r) \<Rightarrow> (jval \<Rightarrow> jstr) \<Rightarrow> jstr \<Rightarrow> jstr \<Rightarrow> inbound_message
     \<Rightarrow> 'r \<Rightarrow> (route_error + route_result) \<times> inbound_message \<times> 'r" where
  "route R xadd stringify p now m r =
     (let (resolved, r1) =
            (case im_agent_id m of
               Some a \<Rightarrow> (Inr (Some a), r)
             | None \<Rightarrow> resolve_agent R (im_session_id m) r)
      in case resolved of
           Inl e \<Rightarrow> (Inl e, m, r1)
         | Inr agent \<Rightarrow>
             (let key = (case agent of Some a \<Rightarrow> agent_stream_key p a
                                     | None \<Rightarrow> inbound_stream_key p (im_channel m));
                  m1 = m\<lparr>im_agent_id := agent\<rparr>
              in case produce xadd stringify key m1 r1 of
                   (Inl e, r2) \<Rightarrow> (Inl (Stream_failed e), m1, r2)
                 | (Inr _, r2) \<Rightarrow>
                     (Inr \<lparr>rt_message_id = im_id m, rt_session_id = im_session_id m, rt_stream_key = key,
                           rt_agent_id = agent, rt_channel = im_channel m, rt_timestamp = now\<rparr>, m1, r2)))"

definition bind_session :: "'r kv_ops \<Rightarrow> jstr \<Rightarrow> jstr \<Rightarrow> nat option \<Rightarrow> 'r \<Rightarrow> 'r" where
  "bind_session R sid a ttl r = kv_set_px R (binding_key sid) a (1000 * default_to 86400 ttl) r"

definition get_session_context :: "'r kv_ops \<Rightarrow> jstr \<Rightarrow> jstr \<Rightarrow> jstr \<Rightarrow> 'r \<Rightarrow> session_context" where
  "get_session_context R sid uid ch r =
     (let bound = kv_get R r (binding_key sid)
      in \<lparr>sx_session_id = sid, sx_user_id = uid, sx_channel = ch, sx_has_bound = (bound \<noteq> None),
          sx_bound_agent = bound\<rparr>)"

record inbound_params =
  ip_user_id :: jstr
  ip_channel :: jstr
  ip_content :: jstr
  ip_message_type :: "jstr option"
  ip_session_id :: "jstr option"
  ip_agent_id :: "jstr option"
  ip_trace_id :: "jstr option"
  ip_user_mobile :: "jstr option"
  ip_channel_user_id :: "jstr option"
  ip_metadata :: "jval option"
  ip_resume_token :: "jstr option"
  ip_selected :: "jval option"
  ip_action :: "jstr option"

text \<open>\<open>u1\<close> to \<open>u3\<close> are the random identifiers, in the order the code draws them.\<close>

definition create_inbound_message :: "jstr \<Rightarrow> jstr \<Rightarrow> jstr \<Rightarrow> jstr \<Rightarrow> inbound_params \<Rightarrow> inbound_message" where
  "create_inbound_message u1 u2 u3 now q =
     \<lparr>im_id = u2,
      im_session_id = default_to (generate_session_id (default_source (ip_channel q)) u1) (nonempty (ip_session_id q)),
      im_user_id = ip_user_id q, im_user_mobile = nonempty (ip_user_mobile q),
      im_channel_user_id = Some (default_to (ip_user_id q) (ip_channel_user_id q)),
      im_channel = ip_channel q, im_agent_id = ip_agent_id q, im_content = ip_content q,
      im_message_type = default_to (js ''text'') (ip_message_type q),
      im_trace_id = default_to u3 (ip_trace_id q), im_timestamp = now, im_metadata = ip_metadata q,
      im_event_type = None, im_event_json = None, im_resume_token = nonempty (ip_resume_token q),
      im_selected_candidate = ip_selected q, im_action = nonempty (ip_action q)\<rparr>"

section \<open>Handing events to the adapters\<close>

datatype delivery =
    Bot_text jstr jval
  | Bot_error jstr jval
  | Bot_done jstr
  | H5_event jstr agent_event
  | Wecom_h5_event jstr agent_event

text \<open>What the callback delivers for a message, if anything; an error is caught.\<close>

definition outbound_delivery ::
  "(jstr \<Rightarrow> jval option) \<Rightarrow> (jval \<Rightarrow> jstr) \<Rightarrow> jstr \<Rightarrow> inbound_message \<Rightarrow> transformer \<Rightarrow> delivery option \<times> transformer" where
  "outbound_delivery parse stringify uuid m t =
     (case nonempty (im_event_json m) of
        None \<Rightarrow> (None, t)
      | Some text \<Rightarrow>
          (case parse_backend_event parse text of
             Inl _ \<Rightarrow> (None, t)
           | Inr ev \<Rightarrow>
               (let c = to_gateway_channel (im_channel m); sid = im_session_id m
                in if c = Wecom_Bot
                   then (if is_event ev Text_delta \<and> \<not> nullish (ae_content ev) then (Some (Bot_text sid (ae_content ev)), t)
                         else if is_event ev Error_event
                              then (Some (Bot_error sid (coalesce (ae_error_message ev)
                                      (coalesce (ae_error_code ev) (JStr ([0x5904, 0x7406, 0x51FA, 0x9519]))))), t)
                         else if is_event ev Done_event then (Some (Bot_done sid), t)
                         else (None, t))
                   else case transform stringify uuid ev c t of
                          (Inl _, t1) \<Rightarrow> (None, t1)
                        | (Inr msg, t1) \<Rightarrow>
                            (case cm_data msg of
                               None \<Rightarrow> (None, t1)
                             | Some ev' \<Rightarrow> (Some (if c = H5 then H5_event sid ev' else Wecom_h5_event sid ev'), t1)))))"

text \<open>
  The callback on a world that holds the transformer: \<open>deliver\<close> hands over to an adapter and
  may fail, which the callback logs. It returns normally in every case.
\<close>

definition outbound_callback ::
  "(jstr \<Rightarrow> jval option) \<Rightarrow> (jval \<Rightarrow> jstr) \<Rightarrow> jstr \<Rightarrow> (delivery \<Rightarrow> 'w \<Rightarrow> bool \<times> 'w) \<Rightarrow> inbound_message
     \<Rightarrow> transformer \<times> 'w \<Rightarrow> bool \<times> transformer \<times> 'w" where
  "outbound_callback parse stringify uuid deliver m tw =
     (case outbound_delivery parse stringify uuid m (fst tw) of
        (None, t1) \<Rightarrow> (True, t1, snd tw)
      | (Some d, t1) \<Rightarrow> (True, t1, snd (deliver d (snd tw))))"

section \<open>Affinity\<close>

lemma keys_differ: "agent_enabled_key a \<noteq> binding_key sid"
  by (simp add: agent_enabled_key_def binding_key_def js_def of_char_cu_inject)

definition no_faults :: "'r kv_ops \<Rightarrow> bool" where
  "no_faults R \<longleftrightarrow> (\<forall>r k. \<not> kv_down R r k)"

lemma produce_accepting:
  "xadd = (\<lambda>args r. (Some mid, r)) \<Longrightarrow> produce xadd stringify key m r = (Inr mid, r)"
  by (simp add: produce_def)

context redis_kv
begin

lemma binding_lookup:
  "0 < ttl \<Longrightarrow> kv_get R (kv_tick R d (bind_session R sid a (Some ttl) r)) (binding_key sid)
     = (if d < 1000 * ttl then Some a else None)"
  by (simp add: bind_session_def get_tick get_set pttl_set)

lemma binding_deleted: "kv_get R (kv_del R k r) k = None"
  by (simp add: get_del)

lemma other_key_resolves_alike:
  "0 < ttl \<Longrightarrow> k \<noteq> binding_key sid \<Longrightarrow> (\<forall>b. agent_enabled_key b \<noteq> k) \<Longrightarrow> no_faults R \<Longrightarrow>
   fst (resolve_agent R sid (kv_set_px R k a ttl r)) = fst (resolve_agent R sid r)"
  by (auto simp: resolve_agent_def get_set no_faults_def Let_def split: option.splits)

end


lemma no_faults_mem: "no_faults mem_ops"
  by (simp add: no_faults_def mem_ops_def)


text \<open>
  A binding stored under the prefixed key of the other components of the platform does not
  influence routing: the router reads the key without the prefix.
\<close>

theorem prefixed_binding_is_ignored:
  assumes "redis_kv R" "no_faults R" "0 < ttl"
  shows "fst (resolve_agent R sid (kv_set_px R (js ''aip:'' @ binding_key sid) a ttl r)) = fst (resolve_agent R sid r)"
proof (rule redis_kv.other_key_resolves_alike [OF assms(1) assms(3) _ _ assms(2)])
  show "js ''aip:'' @ binding_key sid \<noteq> binding_key sid" by simp
  show "\<forall>b. agent_enabled_key b \<noteq> js ''aip:'' @ binding_key sid"
    by (simp add: agent_enabled_key_def js_def of_char_cu_inject)
qed

theorem prefixed_binding_is_ignored_witness:
  "fst (resolve_agent mem_ops (js ''s'') (kv_set_px mem_ops (js ''aip:'' @ binding_key (js ''s'')) (js ''hr'') 60000 mem_empty))
     = Inr None"
  unfolding prefixed_binding_is_ignored [OF redis_kv_mem no_faults_mem, of 60000, simplified]
  by (simp add: resolve_agent_def mem_ops_def mem_live_def mem_empty_def)

section \<open>Delivery and acknowledgement\<close>

text \<open>The consumer's handlers with the gateway's callback, over a log of acknowledgements.\<close>

definition gateway_handlers ::
  "(jstr \<Rightarrow> jval option) \<Rightarrow> (jval \<Rightarrow> jstr) \<Rightarrow> jstr \<Rightarrow> (delivery \<Rightarrow> 'w \<Rightarrow> bool \<times> 'w) \<Rightarrow> jstr
     \<Rightarrow> ((transformer \<times> 'w) \<times> jstr list) handlers" where
  "gateway_handlers parse stringify uuid deliver now =
     \<lparr>h_callback = (\<lambda>m (tw, acks). (case outbound_callback parse stringify uuid deliver m tw of (ok, tw') \<Rightarrow> (ok, tw', acks))),
      h_xack = (\<lambda>k g i (tw, acks). (True, tw, acks @ [i])), h_parse = parse, h_now = now\<rparr>"

definition readable :: "(jstr \<Rightarrow> jval option) \<Rightarrow> jstr \<Rightarrow> jstr \<times> jstr list \<Rightarrow> bool" where
  "readable parse now e = (case read_message parse now (fst e) (snd e) of Inl _ \<Rightarrow> False | Inr _ \<Rightarrow> True)"

lemma outbound_callback_ok: "fst (outbound_callback parse stringify uuid deliver m tw) = True"
  by (simp add: outbound_callback_def split: prod.splits option.splits)

text \<open>
  C9: The gateway acknowledges every entry of the outbound stream whose fields can be read,
  whatever comes of it: an event that cannot be parsed, and one whose delivery to its adapter
  fails, is acknowledged like a delivered one and is not re-delivered.
\<close>

theorem failed_delivery_is_acknowledged:
  "snd (process_entries (gateway_handlers parse stringify uuid deliver now) c key es (tw, acks))
     = acks @ map fst (filter (readable parse now) es)"
proof (induction es arbitrary: tw acks)
  case Nil
  then show ?case by simp
next
  case (Cons e es)
  show ?case
  proof (cases "read_message parse now (fst e) (snd e)")
    case (Inl x)
    then have "snd (process_message (gateway_handlers parse stringify uuid deliver now) c key (fst e) (snd e) (tw, acks)) = (tw, acks)"
      by (simp add: process_message_def gateway_handlers_def Let_def)
    with Inl Cons.IH show ?thesis by (simp add: readable_def)
  next
    case (Inr m)
    obtain tw' where "outbound_callback parse stringify uuid deliver m tw = (True, tw')"
      using outbound_callback_ok by (metis surjective_pairing)
    with Inr have "snd (process_message (gateway_handlers parse stringify uuid deliver now) c key (fst e) (snd e) (tw, acks))
        = (tw', acks @ [fst e])"
      by (simp add: process_message_def gateway_handlers_def Let_def)
    with Inr Cons.IH show ?thesis by (simp add: readable_def)
  qed
qed

end
