(* ===== verification/Wecom_Client.thy ===== *)
theory Wecom_Client
  imports Complex_Main Bot_Cards
begin

text \<open>
  gateway/src/adapters/wecom/WecomBotClient.ts: the long connection of one bot. The object's
  state and the promise continuations it has queued are one record; every method, socket
  event and timer is a function on it, and \<open>wc_step\<close> is the event loop: a new event is taken
  only when no continuation is left. The WebSocket library is outside the repository: the
  record keeps for each socket whether it is opening, open or gone, and which sockets still
  have the client's listeners.
\<close>

section \<open>State\<close>

datatype conn_state = Disconnected | Connecting | Subscribing | Connected | Heartbeating | Reconnecting

datatype sock = Sock_opening | Sock_open | Sock_gone

record client_config =
  wf_bot_id :: jstr
  wf_secret :: jstr
  wf_ws_url :: jstr
  wf_heartbeat_sec :: nat
  wf_timeout_count :: nat
  wf_max_attempts :: nat
  wf_initial_delay :: rat
  wf_max_delay :: rat
  wf_multiplier :: rat
  wf_subscribe_timeout :: nat

text \<open>What waits for a response: the subscription of a socket, a ping, or a request nobody waits for any more.\<close>

datatype waiter = For_subscribe nat | For_ping | Abandoned

text \<open>Queued continuations: the outcome of a subscription, of a ping, and the retry after a failed reconnection.\<close>

datatype job = Sub_ok nat | Sub_failed nat | Ping_answer bool | Retry_reconnect

record client =
  wc_config :: client_config
  wc_state :: conn_state
  wc_ws :: "nat option"
  wc_socks :: "nat \<Rightarrow> sock"
  wc_listening :: "nat list"
  wc_next :: nat
  wc_heartbeat :: bool
  wc_reconnect :: "rat option"           \<comment> \<open>the armed reconnect timer and its delay\<close>
  wc_attempts :: nat
  wc_missed :: nat
  wc_callbacks :: nat
  wc_should_run :: bool
  wc_pending :: "(nat, waiter) jmap"     \<comment> \<open>request identifiers are drawn from a counter\<close>
  wc_next_req :: nat
  wc_unsettled :: "(nat \<times> bool) list"   \<comment> \<open>unsettled \<open>connect\<close> promises: the socket, and whether the reconnect timer waits\<close>
  wc_jobs :: "job list"

definition default_ws_url :: jstr where
  "default_ws_url = js ''wss://openws.work.weixin.qq.com''"

definition default_client_config :: client_config where
  "default_client_config = \<lparr>wf_bot_id = [], wf_secret = [], wf_ws_url = default_ws_url, wf_heartbeat_sec = 30,
     wf_timeout_count = 3, wf_max_attempts = 1000, wf_initial_delay = 1000, wf_max_delay = 30000,
     wf_multiplier = 2, wf_subscribe_timeout = 10000\<rparr>"

text \<open>\<open>config.wsUrl?.trim() || DEFAULT_WS_URL\<close>.\<close>

definition new_client :: "client_config \<Rightarrow> client" where
  "new_client cfg =
     \<lparr>wc_config = cfg\<lparr>wf_ws_url := default_to default_ws_url (nonempty (Some (trim (wf_ws_url cfg))))\<rparr>,
      wc_state = Disconnected, wc_ws = None, wc_socks = (\<lambda>_. Sock_gone), wc_listening = [], wc_next = 0,
      wc_heartbeat = False, wc_reconnect = None, wc_attempts = 0, wc_missed = 0, wc_callbacks = 0,
      wc_should_run = False, wc_pending = [], wc_next_req = 0, wc_unsettled = [], wc_jobs = []\<rparr>"

definition is_connected :: "client \<Rightarrow> bool" where
  "is_connected c \<longleftrightarrow> wc_state c = Connected \<or> wc_state c = Heartbeating"

definition socket_usable :: "client \<Rightarrow> bool" where
  "socket_usable c = (case wc_ws c of None \<Rightarrow> False | Some n \<Rightarrow> wc_socks c n = Sock_open)"

section \<open>Frames\<close>

definition frame :: "string \<Rightarrow> jstr \<Rightarrow> jobj \<Rightarrow> jobj" where
  "frame cmd rid body = [jp ''cmd'' (JStr (js cmd)), jp ''headers'' (JObj [jp ''req_id'' (JStr rid)]), jp ''body'' (JObj body)]"

definition subscribe_frame :: "client_config \<Rightarrow> jstr \<Rightarrow> jobj" where
  "subscribe_frame cfg rid = frame ''aibot_subscribe'' rid
     [jp ''bot_id'' (JStr (wf_bot_id cfg)), jp ''secret'' (JStr (wf_secret cfg))]"

definition stream_frame :: "jstr \<Rightarrow> jstr \<Rightarrow> jstr \<Rightarrow> bool \<Rightarrow> jobj" where
  "stream_frame rid sid content fin = frame ''aibot_respond_msg'' rid
     [jp ''msgtype'' (JStr (js ''stream'')),
      jp ''stream'' (JObj [jp ''id'' (JStr sid), jp ''finish'' (JBool fin), jp ''content'' (JStr content)])]"

definition ping_frame :: "jstr \<Rightarrow> jobj" where
  "ping_frame rid = [jp ''cmd'' (JStr (js ''ping'')), jp ''headers'' (JObj [jp ''req_id'' (JStr rid)])]"

text \<open>\<open>sendCard\<close>; \<open>None\<close> when neither a chat nor a user is given, or the chosen one is empty.\<close>

definition card_frame :: "jstr \<Rightarrow> template_card \<Rightarrow> jstr option \<Rightarrow> jstr option \<Rightarrow> jobj option" where
  "card_frame rid card' user chat =
     (case nonempty (orelse chat user) of
        None \<Rightarrow> None
      | Some target \<Rightarrow> Some (frame ''aibot_send_msg'' rid
          [jp ''chatid'' (JStr target), jp ''chat_type'' (JNum (if chat \<noteq> None then 2 else 1)),
           jp ''msgtype'' (JStr (js ''template_card'')),
           jp ''template_card'' (JObj (jp ''card_type'' (JStr (card_name (tc_type card'))) # tc_data card'))]))"

definition update_frame :: "jstr \<Rightarrow> jstr \<Rightarrow> jobj \<Rightarrow> jobj" where
  "update_frame rid code content = frame ''aibot_respond_update_msg'' rid (jp ''response_code'' (JStr code) # content)"

section \<open>Reconnection\<close>

definition reconnect_delay :: "client_config \<Rightarrow> nat \<Rightarrow> rat" where
  "reconnect_delay cfg attempts = min (wf_initial_delay cfg * wf_multiplier cfg ^ attempts) (wf_max_delay cfg)"

definition schedule_reconnect :: "client \<Rightarrow> client" where
  "schedule_reconnect c =
     (let c1 = c\<lparr>wc_reconnect := None\<rparr>
      in if wf_max_attempts (wc_config c) \<le> wc_attempts c then c1\<lparr>wc_state := Disconnected\<rparr>
         else c1\<lparr>wc_state := Reconnecting, wc_reconnect := Some (reconnect_delay (wc_config c) (wc_attempts c)),
                 wc_attempts := Suc (wc_attempts c)\<rparr>)"

text \<open>The continuation that the rejection of a waiting request starts.\<close>

fun rejection :: "waiter \<Rightarrow> job list" where
  "rejection (For_subscribe n) = [Sub_failed n]"
| "rejection For_ping = []"
| "rejection Abandoned = []"

definition reject_all_pending :: "client \<Rightarrow> client" where
  "reject_all_pending c =
     c\<lparr>wc_jobs := wc_jobs c @ concat (map (rejection \<circ> snd) (wc_pending c)), wc_pending := []\<rparr>"

definition stop_heartbeat :: "client \<Rightarrow> client" where
  "stop_heartbeat c = c\<lparr>wc_heartbeat := False\<rparr>"

text \<open>\<open>removeAllListeners\<close> on the current socket, which is then forgotten but not closed.\<close>

definition drop_socket :: "client \<Rightarrow> client" where
  "drop_socket c =
     (case wc_ws c of None \<Rightarrow> c
      | Some n \<Rightarrow> c\<lparr>wc_listening := js_remove n (wc_listening c), wc_ws := None\<rparr>)"

definition handle_disconnect :: "client \<Rightarrow> client" where
  "handle_disconnect c =
     (let c1 = drop_socket (reject_all_pending (stop_heartbeat c))
      in if \<not> wc_should_run c then c1\<lparr>wc_state := Disconnected\<rparr> else schedule_reconnect c1)"

section \<open>Connecting\<close>

text \<open>\<open>settleOk\<close> and \<open>settleErr\<close>: a promise settles once; a rejection reaches the reconnect timer's \<open>catch\<close>.\<close>

definition settle :: "nat \<Rightarrow> bool \<Rightarrow> client \<Rightarrow> client" where
  "settle n ok c =
     (case map_of (wc_unsettled c) n of
        None \<Rightarrow> c
      | Some from_timer \<Rightarrow>
          c\<lparr>wc_unsettled := filter (\<lambda>e. fst e \<noteq> n) (wc_unsettled c),
            wc_jobs := wc_jobs c @ (if \<not> ok \<and> from_timer then [Retry_reconnect] else [])\<rparr>)"

text \<open>\<open>connect\<close>, called by the adapter or by the reconnect timer; \<open>False\<close> when it throws at once.\<close>

definition connect :: "bool \<Rightarrow> client \<Rightarrow> bool \<times> client" where
  "connect from_timer c =
     (if is_connected c then (True, c)
      else if wf_bot_id (wc_config c) = [] \<or> wf_secret (wc_config c) = []
      then (False, if from_timer then c\<lparr>wc_jobs := wc_jobs c @ [Retry_reconnect]\<rparr> else c)
      else (True, c\<lparr>wc_should_run := True, wc_state := Connecting, wc_ws := Some (wc_next c),
              wc_socks := (wc_socks c)(wc_next c := Sock_opening), wc_listening := wc_listening c @ [wc_next c],
              wc_unsettled := wc_unsettled c @ [(wc_next c, from_timer)], wc_next := Suc (wc_next c)\<rparr>))"

definition reconnect_fires :: "client \<Rightarrow> client" where
  "reconnect_fires c = snd (connect True (c\<lparr>wc_reconnect := None\<rparr>))"

definition disconnect :: "client \<Rightarrow> client" where
  "disconnect c =
     (let c1 = reject_all_pending (c\<lparr>wc_should_run := False, wc_heartbeat := False, wc_reconnect := None\<rparr>);
          c2 = (case wc_ws c1 of
                  None \<Rightarrow> c1
                | Some n \<Rightarrow> if wc_socks c1 n = Sock_open then c1\<lparr>wc_socks := (wc_socks c1)(n := Sock_gone)\<rparr> else c1)
      in (drop_socket c2)\<lparr>wc_state := Disconnected\<rparr>)"

text \<open>\<open>waitForResponse\<close> registers the waiter; then the frame is sent, which fails without an open socket.\<close>

definition await_response :: "waiter \<Rightarrow> client \<Rightarrow> client" where
  "await_response wt c = c\<lparr>wc_pending := jm_set (wc_next_req c) wt (wc_pending c), wc_next_req := Suc (wc_next_req c)\<rparr>"

definition subscribe :: "nat \<Rightarrow> client \<Rightarrow> client" where
  "subscribe n c =
     (let c1 = c\<lparr>wc_state := Subscribing\<rparr>
      in if socket_usable c1 then await_response (For_subscribe n) c1
         else (await_response Abandoned c1)\<lparr>wc_jobs := wc_jobs c1 @ [Sub_failed n]\<rparr>)"

definition on_open :: "nat \<Rightarrow> client \<Rightarrow> client" where
  "on_open n c = subscribe n (c\<lparr>wc_socks := (wc_socks c)(n := Sock_open)\<rparr>)"

definition settle_if_connecting :: "nat \<Rightarrow> client \<Rightarrow> client" where
  "settle_if_connecting n c =
     (if wc_state c = Connecting \<or> wc_state c = Subscribing then settle n False c else c)"

definition on_close :: "nat \<Rightarrow> client \<Rightarrow> client" where
  "on_close n c = handle_disconnect (settle_if_connecting n (c\<lparr>wc_socks := (wc_socks c)(n := Sock_gone)\<rparr>))"

definition on_error :: "nat \<Rightarrow> client \<Rightarrow> client" where
  "on_error n c = handle_disconnect (settle_if_connecting n c)"

definition on_unexpected_response :: "nat \<Rightarrow> client \<Rightarrow> client" where
  "on_unexpected_response n c = handle_disconnect (settle n False c)"

definition start_heartbeat :: "client \<Rightarrow> client" where
  "start_heartbeat c = (stop_heartbeat c)\<lparr>wc_state := Heartbeating, wc_heartbeat := True\<rparr>"

section \<open>Continuations\<close>

fun run_job :: "job \<Rightarrow> client \<Rightarrow> client" where
  "run_job (Sub_ok n) c =
     settle n True (start_heartbeat (c\<lparr>wc_state := Connected, wc_attempts := 0, wc_missed := 0\<rparr>))"
| "run_job (Sub_failed n) c = handle_disconnect (settle n False c)"
| "run_job (Ping_answer ok) c = (if ok then c\<lparr>wc_missed := 0\<rparr> else c)"
| "run_job Retry_reconnect c = schedule_reconnect c"

definition next_job :: "client \<Rightarrow> client" where
  "next_job c = (case wc_jobs c of [] \<Rightarrow> c | j # js' \<Rightarrow> run_job j (c\<lparr>wc_jobs := js'\<rparr>))"

section \<open>Heartbeat and responses\<close>

definition send_heartbeat :: "client \<Rightarrow> client" where
  "send_heartbeat c =
     (if \<not> socket_usable c then c
      else let c1 = c\<lparr>wc_missed := Suc (wc_missed c)\<rparr>
           in if wf_timeout_count (wc_config c) \<le> wc_missed c1 then handle_disconnect c1
              else await_response For_ping c1)"

fun resolution :: "waiter \<Rightarrow> bool \<Rightarrow> job list" where
  "resolution (For_subscribe n) ok = [if ok then Sub_ok n else Sub_failed n]"
| "resolution For_ping ok = [Ping_answer ok]"
| "resolution Abandoned ok = []"

text \<open>\<open>resolvePending\<close>; \<open>ok\<close> says whether the response's \<open>errcode\<close> is 0.\<close>

definition resolve_pending :: "nat \<Rightarrow> bool \<Rightarrow> client \<Rightarrow> client" where
  "resolve_pending r ok c =
     (case jm_get (wc_pending c) r of
        None \<Rightarrow> c
      | Some wt \<Rightarrow> c\<lparr>wc_pending := jm_delete r (wc_pending c), wc_jobs := wc_jobs c @ resolution wt ok\<rparr>)"

definition pending_timeout :: "nat \<Rightarrow> client \<Rightarrow> client" where
  "pending_timeout r c =
     (case jm_get (wc_pending c) r of
        None \<Rightarrow> c
      | Some wt \<Rightarrow> c\<lparr>wc_pending := jm_delete r (wc_pending c), wc_jobs := wc_jobs c @ rejection wt\<rparr>)"

section \<open>Incoming frames\<close>

record ws_message =
  bw_cmd :: jstr
  bw_req_id :: "jstr option"
  bw_msg_type :: jstr
  bw_msg_id :: "jstr option"
  bw_from :: "jstr option"
  bw_content :: "jstr option"
  bw_chat_id :: "jstr option"
  bw_chat_type :: "jstr option"
  bw_raw :: jobj

definition str_at :: "jobj \<Rightarrow> string \<Rightarrow> jstr option" where
  "str_at ob k = as_string (field_of ob (js k))"

definition parse_callback :: "jobj \<Rightarrow> jstr \<Rightarrow> jstr option \<Rightarrow> ws_message" where
  "parse_callback raw cmd rid =
     (let body = as_object (field_of raw (js ''body''));
          from = as_object (field_of body (js ''from''));
          txt = as_object (field_of body (js ''text''))
      in \<lparr>bw_cmd = cmd, bw_req_id = rid,
          bw_msg_type = default_to (js ''unknown'') (orelse (str_at body ''msgtype'') (str_at raw ''msgType'')),
          bw_msg_id = str_at body ''msgid'',
          bw_from = orelse (str_at from ''userid'') (str_at from ''userId''),
          bw_content = orelse (str_at txt ''content'') (orelse (str_at body ''content'') (str_at raw ''content'')),
          bw_chat_id = str_at body ''chatid'', bw_chat_type = str_at body ''chattype'', bw_raw = raw\<rparr>)"

text \<open>
  What \<open>handleMessage\<close> does with a frame: it answers a waiting request, is a heartbeat answer
  (possibly of a waiting request), goes to the callbacks, or is ignored. \<open>known\<close> tells whether
  a request identifier is waited for.
\<close>

datatype frame_action =
    Answer jstr
  | Pong "jstr option"
  | Callback ws_message
  | Ignored

definition classify_frame :: "(jstr \<Rightarrow> bool) \<Rightarrow> jobj \<Rightarrow> frame_action" where
  "classify_frame known raw =
     (let rid = as_string (field_of (as_object (field_of raw (js ''headers''))) (js ''req_id''));
          cmd = default_to [] (str_at raw ''cmd'');
          waited = (case rid of None \<Rightarrow> False | Some r \<Rightarrow> known r)
      in if waited \<and> \<not> nullish (field_of raw (js ''errcode'')) then Answer (the rid)
         else if cmd = js ''pong'' \<or> (waited \<and> cmd = []) then Pong (if waited then rid else None)
         else if cmd = js ''aibot_msg_callback'' \<or> cmd = js ''aibot_event_callback''
         then Callback (parse_callback raw cmd rid)
         else if \<not> nullish (field_of raw (js ''msgType'')) \<or> \<not> nullish (field_of raw (js ''body''))
         then Callback (parse_callback raw (if cmd = [] then js ''unknown'' else cmd) rid)
         else Ignored)"

text \<open>\<open>number\<close> is the \<open>Number\<close> conversion of the error code, -1 when there is none.\<close>

definition handle_message ::
  "(jstr \<Rightarrow> nat option) \<Rightarrow> (jval \<Rightarrow> int option) \<Rightarrow> jobj \<Rightarrow> client \<Rightarrow> ws_message list \<times> client" where
  "handle_message req_of number raw c =
     (let known = (\<lambda>r. case req_of r of None \<Rightarrow> False | Some i \<Rightarrow> jm_has (wc_pending c) i);
          ok = (number (coalesce (field_of raw (js ''errcode'')) (JNum (-1))) = Some 0)
      in case classify_frame known raw of
           Answer r \<Rightarrow> ([], resolve_pending (the (req_of r)) ok c)
         | Pong None \<Rightarrow> ([], c\<lparr>wc_missed := 0\<rparr>)
         | Pong (Some r) \<Rightarrow> ([], (resolve_pending (the (req_of r)) ok c)\<lparr>wc_missed := 0\<rparr>)
         | Callback m \<Rightarrow> (replicate (wc_callbacks c) m, c)
         | Ignored \<Rightarrow> ([], c))"

definition on_message :: "client \<Rightarrow> client" where
  "on_message c = c\<lparr>wc_callbacks := Suc (wc_callbacks c)\<rparr>"

section \<open>The event loop\<close>

inductive wc_step :: "client \<Rightarrow> client \<Rightarrow> bool" where
  job: "wc_jobs c \<noteq> [] \<Longrightarrow> wc_step c (next_job c)"
| call_connect: "wc_jobs c = [] \<Longrightarrow> wc_step c (snd (connect False c))"
| call_disconnect: "wc_jobs c = [] \<Longrightarrow> wc_step c (disconnect c)"
| call_on_message: "wc_jobs c = [] \<Longrightarrow> wc_step c (on_message c)"
| opened: "wc_jobs c = [] \<Longrightarrow> n \<in> set (wc_listening c) \<Longrightarrow> wc_socks c n = Sock_opening \<Longrightarrow> wc_step c (on_open n c)"
| closed: "wc_jobs c = [] \<Longrightarrow> n \<in> set (wc_listening c) \<Longrightarrow> wc_step c (on_close n c)"
| failed: "wc_jobs c = [] \<Longrightarrow> n \<in> set (wc_listening c) \<Longrightarrow> wc_step c (on_error n c)"
| refused: "wc_jobs c = [] \<Longrightarrow> n \<in> set (wc_listening c) \<Longrightarrow> wc_step c (on_unexpected_response n c)"
| frame: "wc_jobs c = [] \<Longrightarrow> n \<in> set (wc_listening c) \<Longrightarrow> wc_step c (snd (handle_message req_of number raw c))"
| beat: "wc_jobs c = [] \<Longrightarrow> wc_heartbeat c \<Longrightarrow> wc_step c (send_heartbeat c)"
| timeout: "wc_jobs c = [] \<Longrightarrow> wc_step c (pending_timeout r c)"
| reconnect: "wc_jobs c = [] \<Longrightarrow> wc_reconnect c \<noteq> None \<Longrightarrow> wc_step c (reconnect_fires c)"

inductive wc_reach :: "client_config \<Rightarrow> client \<Rightarrow> bool" for cfg where
  start: "wc_reach cfg (new_client cfg)"
| step: "wc_reach cfg c \<Longrightarrow> wc_step c c' \<Longrightarrow> wc_reach cfg c'"

inductive_cases wc_stepE: "wc_step c c'"

section \<open>Invariants\<close>

definition wc_core :: "client \<Rightarrow> bool" where
  "wc_core c \<longleftrightarrow>
     (\<forall>n. For_subscribe n \<in> snd ` set (wc_pending c) \<longrightarrow> wc_ws c \<noteq> None)
     \<and> (wc_state c = Heartbeating \<longrightarrow> wc_heartbeat c \<and> wc_ws c \<noteq> None)
     \<and> wc_attempts c \<le> wf_max_attempts (wc_config c) \<and> wc_state c \<noteq> Connected"

definition quiet :: "client \<Rightarrow> bool" where
  "quiet c \<longleftrightarrow> (\<forall>n. Sub_ok n \<notin> set (wc_jobs c))"

definition wc_inv :: "client \<Rightarrow> bool" where
  "wc_inv c \<longleftrightarrow> wc_core c \<and> (quiet c \<or> (\<exists>n. wc_jobs c = [Sub_ok n]) \<and> wc_ws c \<noteq> None)"

lemmas disconnect_defs = handle_disconnect_def drop_socket_def reject_all_pending_def stop_heartbeat_def
  schedule_reconnect_def

lemma no_sub_ok_rejection: "Sub_ok n \<notin> set (concat (map (rejection \<circ> snd) ps))"
proof (induction ps)
  case Nil
  then show ?case by simp
next
  case (Cons x ps)
  then show ?case by (cases "snd x") auto
qed

lemma handle_disconnect_inv:
  assumes "wc_attempts c \<le> wf_max_attempts (wc_config c)" "quiet c"
  shows "wc_core (handle_disconnect c) \<and> quiet (handle_disconnect c)"
  using assms no_sub_ok_rejection [of _ "wc_pending c"]
  by (auto simp: disconnect_defs Let_def wc_core_def quiet_def split: option.splits)

lemma schedule_reconnect_inv:
  "wc_core c \<Longrightarrow> quiet c \<Longrightarrow> wc_core (schedule_reconnect c) \<and> quiet (schedule_reconnect c)"
  by (auto simp: schedule_reconnect_def Let_def wc_core_def quiet_def)

lemma settle_inv: "wc_core c \<Longrightarrow> quiet c \<Longrightarrow> wc_core (settle n ok c) \<and> quiet (settle n ok c)"
  by (auto simp: settle_def wc_core_def quiet_def split: option.splits)

lemma settle_frame [simp]:
  "wc_attempts (settle n ok c) = wc_attempts c" "wc_config (settle n ok c) = wc_config c"
  "wc_state (settle n ok c) = wc_state c"
  by (simp_all add: settle_def split: option.splits)

lemma settle_if_connecting_inv:
  "wc_core c \<Longrightarrow> quiet c \<Longrightarrow> wc_core (settle_if_connecting n c) \<and> quiet (settle_if_connecting n c)"
  by (simp add: settle_if_connecting_def settle_inv)

lemma wc_core_attempts: "wc_core c \<Longrightarrow> wc_attempts c \<le> wf_max_attempts (wc_config c)"
  by (simp add: wc_core_def)

lemma connect_inv: "wc_core c \<Longrightarrow> quiet c \<Longrightarrow> wc_core (snd (connect ft c)) \<and> quiet (snd (connect ft c))"
  by (auto simp: connect_def wc_core_def quiet_def)

lemma connect_timer_inv: "wc_core c \<Longrightarrow> quiet c \<Longrightarrow> wc_core (reconnect_fires c) \<and> quiet (reconnect_fires c)"
  unfolding reconnect_fires_def by (rule connect_inv) (simp_all add: wc_core_def quiet_def)

lemma disconnect_inv: "wc_core c \<Longrightarrow> quiet c \<Longrightarrow> wc_core (disconnect c) \<and> quiet (disconnect c)"
  using no_sub_ok_rejection [of _ "wc_pending c"]
  by (auto simp: disconnect_def reject_all_pending_def drop_socket_def Let_def wc_core_def quiet_def
      split: option.splits)

lemma pending_set: "x \<in> snd ` set (jm_set k v m) \<Longrightarrow> x = v \<or> x \<in> snd ` set m"
  by (induction m) (auto simp: jm_set_def split: if_splits)

lemma pending_delete: "x \<in> snd ` set (jm_delete k m) \<Longrightarrow> x \<in> snd ` set m"
  by (auto simp: jm_delete_def AList.delete_eq)

lemma on_open_inv: "wc_core c \<Longrightarrow> quiet c \<Longrightarrow> wc_core (on_open n c) \<and> quiet (on_open n c)"
  by (auto simp: on_open_def subscribe_def await_response_def socket_usable_def Let_def wc_core_def quiet_def
      dest!: pending_set split: option.splits)

lemma send_heartbeat_inv:
  assumes "wc_core c" "quiet c"
  shows "wc_core (send_heartbeat c) \<and> quiet (send_heartbeat c)"
proof (cases "socket_usable c \<and> wf_timeout_count (wc_config c) \<le> Suc (wc_missed c)")
  case True
  have "wc_core (handle_disconnect (c\<lparr>wc_missed := Suc (wc_missed c)\<rparr>))
      \<and> quiet (handle_disconnect (c\<lparr>wc_missed := Suc (wc_missed c)\<rparr>))"
    by (rule handle_disconnect_inv) (use assms in \<open>simp_all add: wc_core_def quiet_def\<close>)
  with True show ?thesis by (simp add: send_heartbeat_def)
next
  case False
  with assms show ?thesis
    by (auto simp: send_heartbeat_def Let_def await_response_def wc_core_def quiet_def dest!: pending_set)
qed

lemma waiter_in: "jm_get m r = Some wt \<Longrightarrow> wt \<in> snd ` set m"
  by (force dest: jm_get_SomeD)

lemma resolve_pending_inv:
  assumes "wc_core c" "wc_jobs c = []"
  shows "wc_inv (resolve_pending r ok c)"
proof (cases "jm_get (wc_pending c) r")
  case None
  with assms show ?thesis by (simp add: resolve_pending_def wc_inv_def quiet_def)
next
  case (Some wt)
  have core: "wc_core (resolve_pending r ok c)"
    using assms Some by (auto simp: resolve_pending_def wc_core_def dest!: pending_delete)
  show ?thesis
  proof (cases wt)
    case (For_subscribe n)
    with assms Some waiter_in [OF Some] have "wc_ws c \<noteq> None" by (auto simp: wc_core_def)
    with core Some For_subscribe assms show ?thesis
      by (auto simp: wc_inv_def resolve_pending_def quiet_def)
  qed (use core Some assms in \<open>auto simp: wc_inv_def resolve_pending_def quiet_def\<close>)
qed

lemma pending_timeout_inv: "wc_core c \<Longrightarrow> quiet c \<Longrightarrow> wc_core (pending_timeout r c) \<and> quiet (pending_timeout r c)"
  using no_sub_ok_rejection [of _ "[(r, wt)]" for wt]
  by (auto simp: pending_timeout_def wc_core_def quiet_def dest!: pending_delete split: option.splits)

lemma handle_message_inv:
  assumes "wc_core c" "wc_jobs c = []"
  shows "wc_inv (snd (handle_message req_of number raw c))"
proof -
  have missed: "wc_inv (c'\<lparr>wc_missed := k\<rparr>) = wc_inv c'" for c' k
    by (simp add: wc_inv_def wc_core_def quiet_def)
  have same: "wc_inv c" using assms by (simp add: wc_inv_def quiet_def)
  show ?thesis
    by (auto simp: handle_message_def Let_def resolve_pending_inv [OF assms] missed same
        split: frame_action.splits option.splits)
qed

lemma run_job_inv:
  assumes "wc_inv c" "wc_jobs c = j # js'"
  shows "wc_inv (run_job j (c\<lparr>wc_jobs := js'\<rparr>))"
proof (cases j)
  case (Sub_ok n)
  with assms have "js' = []" "wc_ws c \<noteq> None" by (auto simp: wc_inv_def quiet_def)
  with Sub_ok assms show ?thesis
    by (auto simp: wc_inv_def wc_core_def quiet_def settle_def start_heartbeat_def stop_heartbeat_def
        split: option.splits)
next
  case (Sub_failed n)
  with assms have q: "quiet (c\<lparr>wc_jobs := js'\<rparr>)" "wc_core (c\<lparr>wc_jobs := js'\<rparr>)"
    by (auto simp: wc_inv_def quiet_def wc_core_def)
  from settle_inv [OF q(2,1)] Sub_failed show ?thesis
    using handle_disconnect_inv [OF wc_core_attempts] by (auto simp: wc_inv_def)
next
  case (Ping_answer ok)
  with assms show ?thesis by (auto simp: wc_inv_def quiet_def wc_core_def)
next
  case Retry_reconnect
  with assms have q: "quiet (c\<lparr>wc_jobs := js'\<rparr>)" "wc_core (c\<lparr>wc_jobs := js'\<rparr>)"
    by (auto simp: wc_inv_def quiet_def wc_core_def)
  from schedule_reconnect_inv [OF q(2,1)] Retry_reconnect show ?thesis by (simp add: wc_inv_def)
qed

lemma closing_inv:
  assumes "wc_core c" "quiet c"
  shows "wc_inv (on_close n c)" "wc_inv (on_error n c)" "wc_inv (on_unexpected_response n c)"
proof -
  have 0: "wc_core (c\<lparr>wc_socks := s\<rparr>)" "quiet (c\<lparr>wc_socks := s\<rparr>)" for s
    using assms by (simp_all add: wc_core_def quiet_def)
  show "wc_inv (on_close n c)" "wc_inv (on_error n c)" "wc_inv (on_unexpected_response n c)"
    using settle_if_connecting_inv [OF 0] settle_if_connecting_inv [OF assms] settle_inv [OF assms]
      handle_disconnect_inv [OF wc_core_attempts]
    by (simp_all add: wc_inv_def on_close_def on_error_def on_unexpected_response_def)
qed

lemma wc_inv_quiet: "wc_core c \<and> quiet c \<Longrightarrow> wc_inv c"
  by (simp add: wc_inv_def)

lemma on_message_inv: "wc_core c \<Longrightarrow> quiet c \<Longrightarrow> wc_core (on_message c) \<and> quiet (on_message c)"
  by (simp add: on_message_def wc_core_def quiet_def)

lemmas event_invs = connect_inv disconnect_inv on_message_inv on_open_inv send_heartbeat_inv
  pending_timeout_inv connect_timer_inv

lemma idle: "wc_inv c \<Longrightarrow> wc_jobs c = [] \<Longrightarrow> wc_core c" "wc_inv c \<Longrightarrow> wc_jobs c = [] \<Longrightarrow> quiet c"
  by (auto simp: wc_inv_def quiet_def)

lemmas event_steps = event_invs [OF idle, THEN wc_inv_quiet] closing_inv [OF idle] handle_message_inv [OF idle(1)]

lemma next_job_inv: "wc_inv c \<Longrightarrow> wc_inv (next_job c)"
  by (simp add: next_job_def run_job_inv split: list.splits)

lemma wc_step_inv: "wc_step c c' \<Longrightarrow> wc_inv c \<Longrightarrow> wc_inv c'"
  by (induction rule: wc_step.induct) (simp_all add: next_job_inv event_steps)

lemma wc_reach_inv: "wc_reach cfg c \<Longrightarrow> wc_inv c"
proof (induction rule: wc_reach.induct)
  case start
  then show ?case by (simp add: wc_inv_def wc_core_def quiet_def new_client_def)
next
  case (step c c')
  then show ?case using wc_step_inv by blast
qed

text \<open>
  C12: In every reachable state of the event loop, whatever the server, the timers and the
  callers do, a client that reports to be connected has a socket and a running heartbeat, its
  number of attempts never exceeds the configured maximum, and an answer to its subscription
  is awaited only while it has a socket.
\<close>

theorem connected_client_has_socket:
  assumes "wc_reach cfg c"
  shows "(is_connected c \<longrightarrow> wc_ws c \<noteq> None \<and> wc_heartbeat c)
    \<and> wc_attempts c \<le> wf_max_attempts (wc_config c)
    \<and> ((r, For_subscribe n) \<in> set (wc_pending c) \<longrightarrow> wc_ws c \<noteq> None)"
proof -
  have "wc_inv c" using assms by (rule wc_reach_inv)
  then show ?thesis by (force simp: wc_inv_def wc_core_def is_connected_def)
qed

definition demo_config :: client_config where
  "demo_config = default_client_config\<lparr>wf_bot_id := js ''bot'', wf_secret := js ''s''\<rparr>"

text \<open>A client whose first connection failed and whose reconnection is subscribing.\<close>

definition demo_resubscribing :: client where
  "demo_resubscribing = on_open 1 (reconnect_fires (on_close 0 (snd (connect False (new_client demo_config)))))"

lemmas client_defs = on_open_def subscribe_def await_response_def socket_usable_def reconnect_fires_def
  on_close_def settle_if_connecting_def settle_def connect_def is_connected_def disconnect_defs
  new_client_def demo_config_def default_client_config_def

lemma demo_reach: "wc_reach demo_config demo_resubscribing"
proof -
  let ?c0 = "new_client demo_config"
  let ?c1 = "snd (connect False ?c0)"
  let ?c2 = "on_close 0 ?c1"
  let ?c3 = "reconnect_fires ?c2"
  have 0: "wc_reach demo_config ?c0" by (rule wc_reach.start)
  have 1: "wc_reach demo_config ?c1"
    by (rule wc_reach.step [OF 0 wc_step.call_connect]) (simp add: new_client_def)
  have 2: "wc_reach demo_config ?c2"
    by (rule wc_reach.step [OF 1 wc_step.closed]) (simp_all add: client_defs Let_def)
  have 3: "wc_reach demo_config ?c3"
    by (rule wc_reach.step [OF 2 wc_step.reconnect]) (simp_all add: client_defs Let_def)
  show ?thesis unfolding demo_resubscribing_def
    by (rule wc_reach.step [OF 3 wc_step.opened]) (simp_all add: client_defs Let_def)
qed

theorem connected_client_has_socket_witness:
  "wc_attempts demo_resubscribing \<le> wf_max_attempts (wc_config demo_resubscribing)"
  using connected_client_has_socket [OF demo_reach, of 0 0] by simp

section \<open>Detecting a silent server\<close>

primrec beats :: "nat \<Rightarrow> client \<Rightarrow> client" where
  "beats 0 c = c"
| "beats (Suc k) c = beats k (send_heartbeat c)"

lemma beats_below:
  assumes "socket_usable c" "wc_missed c + k < wf_timeout_count (wc_config c)"
  shows "wc_missed (beats k c) = wc_missed c + k \<and> socket_usable (beats k c) \<and> wc_state (beats k c) = wc_state c
    \<and> wc_config (beats k c) = wc_config c \<and> wc_attempts (beats k c) = wc_attempts c
    \<and> wc_should_run (beats k c) = wc_should_run c"
  using assms
proof (induction k arbitrary: c)
  case 0
  then show ?case by simp
next
  case (Suc k)
  let ?c = "await_response For_ping (c\<lparr>wc_missed := Suc (wc_missed c)\<rparr>)"
  have "send_heartbeat c = ?c" using Suc.prems by (simp add: send_heartbeat_def)
  moreover have "socket_usable ?c"
    using Suc.prems(1) by (simp add: await_response_def socket_usable_def split: option.splits)
  ultimately show ?case using Suc.IH [of ?c] Suc.prems(2) by (simp add: await_response_def)
qed

lemma beats_Suc: "beats (Suc k) c = send_heartbeat (beats k c)"
  by (induction k arbitrary: c) simp_all

text \<open>
  A server that stops answering is noticed at exactly the configured number of heartbeats:
  before it the connection is kept, and with it the socket is given up and a reconnection is
  scheduled with the backoff delay.
\<close>

theorem silent_server_is_detected:
  assumes "socket_usable c" "wc_missed c = 0" "wc_should_run c"
    and "wc_attempts c < wf_max_attempts (wc_config c)" "wf_timeout_count (wc_config c) = Suc k"
  shows "(\<forall>i \<le> k. wc_state (beats i c) = wc_state c \<and> socket_usable (beats i c))
    \<and> wc_state (beats (Suc k) c) = Reconnecting \<and> wc_ws (beats (Suc k) c) = None
    \<and> wc_reconnect (beats (Suc k) c) = Some (reconnect_delay (wc_config c) (wc_attempts c))"
proof -
  have below: "\<forall>i \<le> k. wc_state (beats i c) = wc_state c \<and> socket_usable (beats i c)"
    using beats_below [OF assms(1)] assms(2,5) by simp
  have b: "wc_missed (beats k c) = k" "socket_usable (beats k c)" "wc_config (beats k c) = wc_config c"
    "wc_attempts (beats k c) = wc_attempts c" "wc_should_run (beats k c) = wc_should_run c"
    using beats_below [OF assms(1), of k] assms(2,5) by simp_all
  have "beats (Suc k) c = handle_disconnect ((beats k c)\<lparr>wc_missed := Suc k\<rparr>)"
    unfolding beats_Suc using b assms(5) by (simp add: send_heartbeat_def)
  with below b assms(3,4) show ?thesis
    by (simp add: disconnect_defs Let_def split: option.splits)
qed

definition demo_connected :: client where
  "demo_connected = (new_client demo_config)\<lparr>wc_state := Heartbeating, wc_ws := Some 0, wc_socks := (\<lambda>_. Sock_open),
     wc_listening := [0], wc_heartbeat := True, wc_should_run := True\<rparr>"

theorem silent_server_is_detected_witness:
  "wc_state (beats 3 demo_connected) = Reconnecting"
  using silent_server_is_detected [of demo_connected 2]
  by (simp add: demo_connected_def socket_usable_def new_client_def demo_config_def default_client_config_def
      numeral_3_eq_3 del: beats.simps)

section \<open>Stopping during a reconnection\<close>

text \<open>
  A client that is stopped while a reconnection of it is subscribing comes back: the
  rejected subscription reaches the retry of the reconnect timer, which does not look at the
  stop flag, and when the timer fires the client connects and is marked as running again.
\<close>

theorem stopped_client_revives:
  assumes "wc_jobs c = []" "wc_pending c = [(r, For_subscribe n)]" "wc_unsettled c = [(n, True)]"
    and "wc_attempts c < wf_max_attempts (wc_config c)" "wf_bot_id (wc_config c) \<noteq> []" "wf_secret (wc_config c) \<noteq> []"
  shows "\<not> wc_should_run (next_job (next_job (disconnect c))) \<and> wc_jobs (next_job (next_job (disconnect c))) = []
    \<and> wc_reconnect (next_job (next_job (disconnect c))) \<noteq> None
    \<and> wc_state (reconnect_fires (next_job (next_job (disconnect c)))) = Connecting
    \<and> wc_should_run (reconnect_fires (next_job (next_job (disconnect c))))"
proof -
  let ?c1 = "disconnect c"
  let ?c2 = "next_job ?c1"
  let ?c3 = "next_job ?c2"
  have 1: "wc_jobs ?c1 = [Sub_failed n]" "wc_pending ?c1 = []" "wc_ws ?c1 = None" "\<not> wc_should_run ?c1"
    "wc_unsettled ?c1 = [(n, True)]" "wc_config ?c1 = wc_config c" "wc_attempts ?c1 = wc_attempts c"
    using assms(1-3) by (simp_all add: disconnect_def reject_all_pending_def drop_socket_def Let_def split: option.splits)
  have 2: "wc_jobs ?c2 = [Retry_reconnect]" "\<not> wc_should_run ?c2" "wc_config ?c2 = wc_config c"
    "wc_attempts ?c2 = wc_attempts c"
    using 1 by (simp_all add: next_job_def settle_def disconnect_defs)
  have 3: "wc_jobs ?c3 = []" "\<not> wc_should_run ?c3" "wc_config ?c3 = wc_config c" "wc_state ?c3 = Reconnecting"
    "wc_reconnect ?c3 \<noteq> None"
    using 2 assms(4) by (simp_all add: next_job_def schedule_reconnect_def)
  with assms(5,6) show ?thesis by (simp add: reconnect_fires_def connect_def is_connected_def)
qed

theorem stopped_client_revives_witness:
  "wc_reach demo_config demo_resubscribing
   \<and> wc_should_run (reconnect_fires (next_job (next_job (disconnect demo_resubscribing))))"
  using demo_reach stopped_client_revives [of demo_resubscribing 0 1]
  by (simp add: demo_resubscribing_def client_defs Let_def jm_set_def)

end
