(* ===== verification/Wecom_Adapter.thy ===== *)
theory Wecom_Adapter
  imports Wecom_Client Bot_Mapper Redis_Stream
begin

text \<open>
  gateway/src/adapters/wecom/WecomBotAdapter.ts: what a bot does with the messages of its
  connection and with the pieces of an agent's reply. The stream reply of the client, the
  inbound handler and the clock are parameters; each method runs to its end before the next.
\<close>

section \<open>State\<close>

record pending_stream =
  ps_req_id :: jstr
  ps_stream_id :: jstr
  ps_buffer :: jstr
  ps_t0 :: int
  ps_first_delta :: "int option"
  ps_last_flush :: int
  ps_flush_count :: nat

record adapter =
  wa_bot_id :: jstr
  wa_builder :: card_builder
  wa_pending :: "(jstr, pending_stream) jmap"

definition new_adapter :: "jstr \<Rightarrow> jstr \<Rightarrow> jstr option \<Rightarrow> adapter" where
  "new_adapter bid src icon =
     \<lparr>wa_bot_id = bid, wa_builder = new_card_builder (Some src) icon, wa_pending = []\<rparr>"

definition flush_interval :: int where "flush_interval = 400"

text \<open>A stream reply: request, stream, content, whether it finishes the stream.\<close>

record stream_reply =
  sr_req_id :: jstr
  sr_stream_id :: jstr
  sr_content :: jstr
  sr_finish :: bool

text \<open>The surroundings: sending a reply at a time, and the inbound handler; each may fail.\<close>

record 'w adapter_env =
  ae_respond :: "int \<Rightarrow> stream_reply \<Rightarrow> 'w \<Rightarrow> bool \<times> 'w"
  ae_inbound :: "inbound_message \<Rightarrow> 'w \<Rightarrow> bool \<times> 'w"

definition stream_reply_of :: "pending_stream \<Rightarrow> jstr \<Rightarrow> bool \<Rightarrow> stream_reply" where
  "stream_reply_of ps content fin = \<lparr>sr_req_id = ps_req_id ps, sr_stream_id = ps_stream_id ps,
     sr_content = content, sr_finish = fin\<rparr>"

definition stop_adapter :: "adapter \<Rightarrow> adapter" where
  "stop_adapter a = a\<lparr>wa_pending := []\<rparr>"

section \<open>Inbound messages\<close>

definition session_id_of :: "adapter \<Rightarrow> jstr \<Rightarrow> jstr" where
  "session_id_of a key = js ''wecom-bot-'' @ wa_bot_id a @ js ''-'' @ key"

definition opt_val :: "jstr option \<Rightarrow> jval" where
  "opt_val m = (case m of None \<Rightarrow> JUndef | Some s \<Rightarrow> JStr s)"

definition mobile_of :: "jobj \<Rightarrow> jstr" where
  "mobile_of raw =
     (let body = as_object (field_of raw (js ''body''));
          from = as_object (coalesce (field_of body (js ''from'')) (field_of raw (js ''from'')))
      in default_to [] (orelse (str_at from ''mobile'') (str_at body ''mobile'')))"

definition receive :: "jstr \<Rightarrow> jstr \<Rightarrow> jstr \<Rightarrow> int \<Rightarrow> adapter \<Rightarrow> ws_message \<Rightarrow> inbound_message" where
  "receive u1 u2 now t0 a bm =
     (let user = default_to (js ''unknown'') (bw_from bm);
          key = (if bw_chat_type bm = Some (js ''group'') \<and> bw_chat_id bm \<noteq> None then the (bw_chat_id bm) else user)
      in \<lparr>im_id = default_to u1 (bw_msg_id bm), im_session_id = session_id_of a key, im_user_id = user,
          im_user_mobile = nonempty (Some (mobile_of (bw_raw bm))), im_channel_user_id = Some user,
          im_channel = js ''wecom-bot'', im_agent_id = None, im_content = default_to [] (bw_content bm),
          im_message_type = js ''text'', im_trace_id = u2, im_timestamp = now,
          im_metadata = Some (JObj [jp ''botCmd'' (JStr (bw_cmd bm)), jp ''botMsgType'' (JStr (bw_msg_type bm)),
            jp ''botReqId'' (opt_val (bw_req_id bm)), jp ''chatId'' (opt_val (bw_chat_id bm)),
            jp ''chatType'' (opt_val (bw_chat_type bm)),
            jp ''from'' (case bw_from bm of None \<Rightarrow> JUndef | Some s \<Rightarrow> JObj [jp ''userId'' (JStr s)]),
            jp ''raw'' (JObj (bw_raw bm)), jp ''perfT0'' (JNum t0)]),
          im_event_type = None, im_event_json = None, im_resume_token = None,
          im_selected_candidate = None, im_action = None\<rparr>)"

text \<open>\<open>pick\<close>: the first non-empty string under one of the keys, scope by scope.\<close>

definition pick_in :: "string list \<Rightarrow> jobj \<Rightarrow> jstr option" where
  "pick_in keys scope = (case List.map_filter (\<lambda>k. nonempty (str_at scope k)) keys of [] \<Rightarrow> None | s # _ \<Rightarrow> Some s)"

definition pick :: "string list \<Rightarrow> jobj list \<Rightarrow> jstr" where
  "pick keys scopes = (case List.map_filter (pick_in keys) scopes of [] \<Rightarrow> [] | s # _ \<Rightarrow> s)"

definition receive_event_callback :: "jstr \<Rightarrow> jstr \<Rightarrow> jstr \<Rightarrow> adapter \<Rightarrow> ws_message \<Rightarrow> inbound_message option" where
  "receive_event_callback u1 u2 now a bm =
     (let raw = bw_raw bm; body = as_object (field_of raw (js ''body''));
          event = as_object (field_of body (js ''event'')); scopes = [raw, body, event];
          task = pick [''task_id'', ''taskId'', ''taskID''] scopes
      in if task = [] then None
         else
           (let key = pick [''event_key'', ''eventKey'', ''EventKey'', ''key''] scopes;
                action = (if key = js ''manual'' then js ''manual'' else if key = js ''cancel'' then js ''cancel''
                          else js ''confirm'');
                candidate = (if action = js ''confirm'' \<and> key \<noteq> [] then Some (JObj [jp ''id'' (JStr key)]) else None);
                chat = pick [''chat_id'', ''chatId'', ''chatid''] scopes;
                from = (if is_object (field_of event (js ''from'')) then field_of event (js ''from'')
                        else if is_object (field_of body (js ''from'')) then field_of body (js ''from'') else JObj []);
                user = default_to (js ''unknown'') (orelse (bw_from bm) (str_at (as_object from) ''userid''));
                sid = session_id_of a (if chat \<noteq> [] then chat else user)
            in Some (build_entity_select u1 u2 now sid user (js ''wecom-bot'') task candidate (Some action) None
                       (Some user) None)))"

section \<open>Replies\<close>

definition on_agent_text_delta ::
  "'w adapter_env \<Rightarrow> int \<Rightarrow> jstr \<Rightarrow> jstr \<Rightarrow> adapter \<times> 'w \<Rightarrow> bool \<times> adapter \<times> 'w" where
  "on_agent_text_delta E now sid delta aw =
     (case jm_get (wa_pending (fst aw)) sid of
        None \<Rightarrow> (True, aw)
      | Some ps \<Rightarrow>
          (let ps1 = ps\<lparr>ps_buffer := ps_buffer ps @ delta,
                        ps_first_delta := orelse (ps_first_delta ps) (Some now)\<rparr>;
               put = (\<lambda>q. (fst aw)\<lparr>wa_pending := jm_set sid q (wa_pending (fst aw))\<rparr>)
           in if trim (ps_buffer ps1) \<noteq> [] \<and> flush_interval \<le> now - ps_last_flush ps1
              then (case ae_respond E now (stream_reply_of ps1 (ps_buffer ps1) False) (snd aw) of
                      (False, w1) \<Rightarrow> (False, put ps1, w1)
                    | (True, w1) \<Rightarrow>
                        (True, put (ps1\<lparr>ps_last_flush := now, ps_flush_count := Suc (ps_flush_count ps1)\<rparr>), w1))
              else (True, put ps1, snd aw)))"

text \<open>The last reply of a stream; the stream is forgotten whether or not the reply could be sent.\<close>

definition finish_stream ::
  "'w adapter_env \<Rightarrow> int \<Rightarrow> jstr \<Rightarrow> (pending_stream \<Rightarrow> jstr) \<Rightarrow> adapter \<times> 'w \<Rightarrow> bool \<times> adapter \<times> 'w" where
  "finish_stream E now sid content aw =
     (case jm_get (wa_pending (fst aw)) sid of
        None \<Rightarrow> (True, aw)
      | Some ps \<Rightarrow>
          (case ae_respond E now (stream_reply_of ps (content ps) True) (snd aw) of
             (ok, w1) \<Rightarrow> (ok, (fst aw)\<lparr>wa_pending := jm_delete sid (wa_pending (fst aw))\<rparr>, w1)))"

definition no_reply_text :: jstr where "no_reply_text = ([0xFF08, 0x65E0, 0x56DE, 0x590D, 0x5185, 0x5BB9, 0xFF09])"

definition on_agent_done :: "'w adapter_env \<Rightarrow> int \<Rightarrow> jstr \<Rightarrow> adapter \<times> 'w \<Rightarrow> bool \<times> adapter \<times> 'w" where
  "on_agent_done E now sid aw =
     finish_stream E now sid (\<lambda>ps. if trim (ps_buffer ps) \<noteq> [] then ps_buffer ps else no_reply_text) aw"

definition finish_with_error :: "'w adapter_env \<Rightarrow> int \<Rightarrow> jstr \<Rightarrow> jstr \<Rightarrow> adapter \<times> 'w \<Rightarrow> bool \<times> adapter \<times> 'w" where
  "finish_with_error E now sid msg aw = finish_stream E now sid (\<lambda>_. ([0x26A0, 0xFE0F] @ js '' '') @ msg) aw"

definition on_agent_error :: "'w adapter_env \<Rightarrow> int \<Rightarrow> jstr \<Rightarrow> jstr \<Rightarrow> adapter \<times> 'w \<Rightarrow> bool \<times> adapter \<times> 'w" where
  "on_agent_error E now sid msg aw =
     finish_with_error E now sid (default_to ([0x5904, 0x7406, 0x51FA, 0x9519]) (nonempty (Some msg))) aw"

text \<open>
  \<open>handleInbound\<close>; \<open>u\<close> gives the random identifiers, \<open>stamp\<close> the time as a string and \<open>t0\<close> as
  a number. The first component is \<open>False\<close> when a promise is rejected that nobody handles: the
  caller discards the promises of \<open>handleInbound\<close> and of the click's \<open>onMessage\<close>, and index.ts
  shuts the process down on an unhandled rejection.
\<close>

definition thinking_text :: jstr where "thinking_text = ([0x601D, 0x8003, 0x4E2D] @ js ''...'')"

definition routing_failed_text :: jstr where "routing_failed_text = ([0x6D88, 0x606F, 0x5904, 0x7406, 0x5931, 0x8D25, 0xFF0C, 0x8BF7, 0x7A0D, 0x540E, 0x91CD, 0x8BD5])"

definition handle_inbound ::
  "'w adapter_env \<Rightarrow> (nat \<Rightarrow> jstr) \<Rightarrow> jstr \<Rightarrow> int \<Rightarrow> ws_message \<Rightarrow> adapter \<times> 'w \<Rightarrow> bool \<times> adapter \<times> 'w" where
  "handle_inbound E u stamp t0 bm aw =
     (let (a, w) = aw
      in if bw_cmd bm = js ''aibot_event_callback''
         then (case receive_event_callback (u 0) (u 1) stamp a bm of
                 None \<Rightarrow> (True, a, w)
               | Some m \<Rightarrow> (case ae_inbound E m w of (ok, w1) \<Rightarrow> (ok, a, w1)))
         else if bw_cmd bm \<noteq> js ''aibot_msg_callback'' then (True, a, w)
         else if trim (default_to [] (bw_content bm)) = [] then (True, a, w)
         else case nonempty (bw_req_id bm) of
                None \<Rightarrow> (True, a, w)
              | Some rid \<Rightarrow>
                  (let m = receive (u 0) (u 1) stamp t0 a bm;
                       ps = \<lparr>ps_req_id = rid, ps_stream_id = u 2, ps_buffer = [], ps_t0 = t0, ps_first_delta = None,
                             ps_last_flush = 0, ps_flush_count = 0\<rparr>;
                       a1 = a\<lparr>wa_pending := jm_set (im_session_id m) ps (wa_pending a)\<rparr>;
                       w1 = snd (ae_respond E t0 (stream_reply_of ps thinking_text False) w)
                   in case ae_inbound E m w1 of
                        (True, w2) \<Rightarrow> (True, a1, w2)
                      | (False, w2) \<Rightarrow> finish_with_error E t0 (im_session_id m) routing_failed_text (a1, w2)))"

section \<open>Cards\<close>

text \<open>
  \<open>send\<close>: the card of the caller's conversion if it gives one, else a text for text and errors,
  else nothing.
\<close>

definition event_card :: "adapter \<Rightarrow> (agent_event \<Rightarrow> template_card option) option \<Rightarrow> agent_event \<Rightarrow> template_card option" where
  "event_card a convert ev =
     (case Option.bind convert (\<lambda>f. f ev) of
        Some c \<Rightarrow> Some c
      | None \<Rightarrow>
          if is_event ev Text_delta \<and> \<not> nullish (ae_content ev)
          then Some (build_text_notice (wa_builder a) (JStr (js ''AI'' @ [0x52A9, 0x624B, 0x56DE, 0x590D])) (ae_content ev) no_text_options)
          else if is_event ev Error_event
          then Some (build_text_notice (wa_builder a) (JStr ([0x26A0, 0xFE0F] @ js '' '' @ [0x5904, 0x7406, 0x51FA, 0x9519]))
                 (JStr (([0x9519, 0x8BEF] @ js '': '') @ js_string (coalesce (ae_error_message ev) (JStr ([0x672A, 0x77E5, 0x9519, 0x8BEF]))))) no_text_options)
          else None)"

definition adapter_send ::
  "adapter \<Rightarrow> jstr \<Rightarrow> (agent_event \<Rightarrow> template_card option) option \<Rightarrow> agent_event \<Rightarrow> jstr option \<Rightarrow> jstr option \<Rightarrow> jobj option" where
  "adapter_send a rid convert ev user chat =
     Option.bind (event_card a convert ev) (\<lambda>c. card_frame rid c user chat)"

section \<open>A reply as the user sees it\<close>

text \<open>A connection that always accepts, logging each reply with its time.\<close>

definition log_env :: "((int \<times> stream_reply) list) adapter_env" where
  "log_env = \<lparr>ae_respond = (\<lambda>now sr w. (True, w @ [(now, sr)])), ae_inbound = (\<lambda>m w. (True, w))\<rparr>"

primrec deltas ::
  "'w adapter_env \<Rightarrow> jstr \<Rightarrow> (int \<times> jstr) list \<Rightarrow> adapter \<times> 'w \<Rightarrow> adapter \<times> 'w" where
  "deltas E sid [] aw = aw"
| "deltas E sid (d # ds) aw = deltas E sid ds (snd (on_agent_text_delta E (fst d) sid (snd d) aw))"

text \<open>Successive updates: growing prefixes of a text, far enough apart in time, of one stream.\<close>

definition updates_ok :: "pending_stream \<Rightarrow> jstr \<Rightarrow> (int \<times> stream_reply) list \<Rightarrow> bool" where
  "updates_ok ps body ups \<longleftrightarrow>
     sorted_wrt (\<lambda>x y. fst x + flush_interval \<le> fst y \<and> prefix (sr_content (snd x)) (sr_content (snd y))) ups
     \<and> (\<forall>x \<in> set ups. prefix (sr_content (snd x)) body \<and> \<not> sr_finish (snd x)
          \<and> sr_req_id (snd x) = ps_req_id ps \<and> sr_stream_id (snd x) = ps_stream_id ps)"

lemma updates_ok_mono: "updates_ok ps body ups \<Longrightarrow> prefix body text' \<Longrightarrow> updates_ok ps text' ups"
  unfolding updates_ok_def by (meson prefix_order.order_trans)

lemma updates_ok_snoc:
  assumes "updates_ok ps body ups" "\<forall>x \<in> set ups. fst x \<le> l" "l + flush_interval \<le> now"
  shows "updates_ok ps body (ups @ [(now, stream_reply_of ps body False)])"
  using assms unfolding updates_ok_def stream_reply_of_def
  by (fastforce simp: sorted_wrt_append)

definition stream_inv :: "jstr \<Rightarrow> pending_stream \<Rightarrow> jstr \<Rightarrow> adapter \<times> (int \<times> stream_reply) list \<Rightarrow> bool" where
  "stream_inv sid ps0 body aw \<longleftrightarrow>
     (\<exists>ps. jm_get (wa_pending (fst aw)) sid = Some ps \<and> ps_buffer ps = body
        \<and> ps_req_id ps = ps_req_id ps0 \<and> ps_stream_id ps = ps_stream_id ps0
        \<and> updates_ok ps0 body (snd aw) \<and> (\<forall>x \<in> set (snd aw). fst x \<le> ps_last_flush ps))"

lemma delta_inv:
  assumes "stream_inv sid ps0 body aw"
  shows "stream_inv sid ps0 (body @ d) (snd (on_agent_text_delta log_env now sid d aw))"
proof -
  obtain ps where ps: "jm_get (wa_pending (fst aw)) sid = Some ps" "ps_buffer ps = body"
    "ps_req_id ps = ps_req_id ps0" "ps_stream_id ps = ps_stream_id ps0"
    "updates_ok ps0 body (snd aw)" "\<forall>x \<in> set (snd aw). fst x \<le> ps_last_flush ps"
    using assms by (auto simp: stream_inv_def)
  have mono: "updates_ok ps0 (body @ d) (snd aw)" using updates_ok_mono [OF ps(5)] by simp
  show ?thesis
  proof (cases "trim (body @ d) \<noteq> [] \<and> flush_interval \<le> now - ps_last_flush ps")
    case False
    then show ?thesis
      using ps mono by (auto simp: stream_inv_def on_agent_text_delta_def Let_def)
  next
    case True
    then have "updates_ok ps0 (body @ d) (snd aw @ [(now, stream_reply_of ps0 (body @ d) False)])"
      by (intro updates_ok_snoc [OF mono ps(6)]) simp
    moreover have "\<forall>x \<in> set (snd aw). fst x \<le> now" using ps(6) True by (force simp: flush_interval_def)
    moreover have "stream_reply_of ps0 (body @ d) False = stream_reply_of
        (ps\<lparr>ps_buffer := body @ d, ps_first_delta := orelse (ps_first_delta ps) (Some now)\<rparr>) (body @ d) False"
      using ps(3,4) by (simp add: stream_reply_of_def)
    ultimately show ?thesis
      using True ps by (simp add: stream_inv_def on_agent_text_delta_def Let_def log_env_def)
  qed
qed

lemma deltas_inv:
  "stream_inv sid ps0 body aw \<Longrightarrow> stream_inv sid ps0 (body @ concat (map snd ds)) (deltas log_env sid ds aw)"
proof (induction ds arbitrary: body aw)
  case Nil
  then show ?case by simp
next
  case (Cons d ds)
  from Cons.IH [OF delta_inv [OF Cons.prems, of "snd d" "fst d"]] show ?case by simp
qed

text \<open>
  C13: A reply that streams in pieces reaches the chat as one message: every update extends the
  one before it, updates are at least the flush interval apart and none of them finishes the
  message; the end of the reply sends the whole text once, as the finishing update of the same
  stream, and forgets the stream, so that a second end sends nothing.
\<close>

theorem streamed_reply_grows_and_finishes_once:
  assumes "jm_get (wa_pending a) sid = Some ps" "ps_buffer ps = []" "trim (concat (map snd ds)) \<noteq> []"
    and "deltas log_env sid ds (a, []) = (a1, ups)"
    and "on_agent_done log_env t sid (a1, ups) = (ok, a2, out)"
  shows "updates_ok ps (concat (map snd ds)) ups
    \<and> out = ups @ [(t, stream_reply_of ps (concat (map snd ds)) True)]
    \<and> on_agent_done log_env t' sid (a2, out) = (True, a2, out)"
proof -
  have "stream_inv sid ps [] (a, [])" using assms(1,2) by (auto simp: stream_inv_def updates_ok_def)
  from deltas_inv [OF this, of ds] assms(4) obtain ps1 where
    p: "jm_get (wa_pending a1) sid = Some ps1" "ps_buffer ps1 = concat (map snd ds)"
      "ps_req_id ps1 = ps_req_id ps" "ps_stream_id ps1 = ps_stream_id ps"
    and u: "updates_ok ps (concat (map snd ds)) ups"
    by (auto simp: stream_inv_def)
  from assms(5) p assms(3) have
    "out = ups @ [(t, stream_reply_of ps (concat (map snd ds)) True)]"
    "a2 = a1\<lparr>wa_pending := jm_delete sid (wa_pending a1)\<rparr>"
    by (auto simp: on_agent_done_def finish_stream_def log_env_def stream_reply_of_def)
  with u show ?thesis by (simp add: on_agent_done_def finish_stream_def)
qed

definition demo_stream :: pending_stream where
  "demo_stream = \<lparr>ps_req_id = js ''r'', ps_stream_id = js ''st'', ps_buffer = [], ps_t0 = 0, ps_first_delta = None,
     ps_last_flush = 0, ps_flush_count = 0\<rparr>"

definition demo_adapter :: adapter where
  "demo_adapter = (new_adapter (js ''b'') (js ''src'') None)\<lparr>wa_pending := [(js ''sid'', demo_stream)]\<rparr>"

theorem streamed_reply_grows_and_finishes_once_witness:
  "map (\<lambda>x. (fst x, sr_content (snd x))) (snd (snd (on_agent_done log_env 2000 (js ''sid'')
     (deltas log_env (js ''sid'') [(1000, js ''a''), (1200, js ''b''), (1500, js ''c'')] (demo_adapter, [])))))
   = [(1000, js ''a''), (1500, js ''abc''), (2000, js ''abc'')]"
proof -
  let ?ds = "[(1000, js ''a''), (1200, js ''b''), (1500, js ''c'')]"
  have ws: "trim (js ''a'') \<noteq> []" "trim (js ''abc'') \<noteq> []" "trim (js ''ab'') \<noteq> []"
    by (simp_all add: trim_eq_Nil js_def is_ws_def)
  have ups: "deltas log_env (js ''sid'') ?ds (demo_adapter, []) =
      (fst (deltas log_env (js ''sid'') ?ds (demo_adapter, [])),
       [(1000, stream_reply_of demo_stream (js ''a'') False), (1500, stream_reply_of demo_stream (js ''abc'') False)])"
    using ws
    by (simp add: demo_adapter_def new_adapter_def on_agent_text_delta_def Let_def log_env_def flush_interval_def
        demo_stream_def stream_reply_of_def jm_set_def jm_get_def flip: js_append)
  have "jm_get (wa_pending demo_adapter) (js ''sid'') = Some demo_stream"
    by (simp add: demo_adapter_def jm_get_def)
  moreover obtain a1 ups where u: "deltas log_env (js ''sid'') ?ds (demo_adapter, []) = (a1, ups)"
    by (rule prod.exhaust)
  moreover obtain ok a2 out where o': "on_agent_done log_env 2000 (js ''sid'') (a1, ups) = (ok, a2, out)"
    by (rule prod_cases3)
  ultimately have "out = ups @ [(2000, stream_reply_of demo_stream (js ''abc'') True)]"
    using streamed_reply_grows_and_finishes_once [of demo_adapter "js ''sid''" demo_stream ?ds a1 ups 2000 ok a2 out] ws
    by (simp add: demo_stream_def flip: js_append)
  with ups u o' show ?thesis by (simp add: stream_reply_of_def)
qed

section \<open>Session identifiers\<close>

definition bot_message_of :: "string \<Rightarrow> jobj \<Rightarrow> ws_message" where
  "bot_message_of cmd raw = parse_callback raw (js cmd) None"

text \<open>
  A click on a card of an entity selection comes back as the selection the card offered: the
  task of the card is the resume token, a candidate's button selects the candidate and confirms,
  and the two extra buttons are the manual and the cancel action.
\<close>

theorem click_resumes_selection:
  assumes "bw_raw bm = [jp ''cmd'' (JStr (js ''aibot_event_callback'')),
      jp ''body'' (JObj [jp ''event'' (JObj [jp ''task_id'' (JStr token), jp ''event_key'' (JStr key)])])]"
    and "token \<noteq> []" "key \<noteq> []" "bw_from bm = Some user"
  shows "\<exists>m. receive_event_callback u1 u2 now a bm = Some m \<and> im_resume_token m = Some token
    \<and> im_session_id m = session_id_of a user \<and> im_user_id m = user
    \<and> (if key \<in> {js ''manual'', js ''cancel''} then im_action m = Some key \<and> im_selected_candidate m = None
       else im_action m = Some (js ''confirm'') \<and> im_selected_candidate m = Some (JObj [jp ''id'' (JStr key)]))"
proof -
  have ne: "nonempty (Some token) = Some token" "nonempty (Some key) = Some key"
    using assms(2,3) by (simp_all add: nonempty_eq_Some)
  have "pick [''task_id'', ''taskId'', ''taskID''] [bw_raw bm, [jp ''event'' (JObj [jp ''task_id'' (JStr token), jp ''event_key'' (JStr key)])],
      [jp ''task_id'' (JStr token), jp ''event_key'' (JStr key)]] = token"
    by (simp add: assms(1) pick_def pick_in_def str_at_def map_filter_simps ne)
  moreover have "pick [''event_key'', ''eventKey'', ''EventKey'', ''key''] [bw_raw bm,
      [jp ''event'' (JObj [jp ''task_id'' (JStr token), jp ''event_key'' (JStr key)])],
      [jp ''task_id'' (JStr token), jp ''event_key'' (JStr key)]] = key"
    by (simp add: assms(1) pick_def pick_in_def str_at_def map_filter_simps ne)
  moreover have "pick [''chat_id'', ''chatId'', ''chatid''] [bw_raw bm,
      [jp ''event'' (JObj [jp ''task_id'' (JStr token), jp ''event_key'' (JStr key)])],
      [jp ''task_id'' (JStr token), jp ''event_key'' (JStr key)]] = []"
    by (simp add: assms(1) pick_def pick_in_def str_at_def map_filter_simps)
  ultimately show ?thesis
    using assms by (simp add: receive_event_callback_def Let_def build_entity_select_def)
qed

definition click_raw :: "string \<Rightarrow> jobj" where
  "click_raw key = [jp ''cmd'' (JStr (js ''aibot_event_callback'')),
      jp ''body'' (JObj [jp ''event'' (JObj [jp ''task_id'' (JStr (js ''t1'')), jp ''event_key'' (JStr (js key))])])]"

theorem click_resumes_selection_witness:
  "\<exists>m. receive_event_callback [] [] [] demo_adapter
      ((bot_message_of ''aibot_event_callback'' (click_raw ''c1''))\<lparr>bw_from := Some (js ''zhang'')\<rparr>) = Some m
    \<and> im_selected_candidate m = Some (JObj [jp ''id'' (JStr (js ''c1''))])"
  using click_resumes_selection [of "(bot_message_of ''aibot_event_callback'' (click_raw ''c1''))\<lparr>bw_from := Some (js ''zhang'')\<rparr>"
      "js ''t1''" "js ''c1''" "js ''zhang''" "[]" "[]" "[]" demo_adapter]
  by (auto simp: bot_message_of_def parse_callback_def click_raw_def Let_def)

text \<open>
  In a single chat whose frames carry a chat identifier, a message and a click of the same
  user are assigned to different sessions: the message to the user's, the click to the chat's.
\<close>

theorem click_session_differs_from_message_session:
  assumes "bw_chat_type bm = Some (js ''single'')" "bw_from bm = Some user" "chat \<noteq> user" "chat \<noteq> []"
    and "bw_raw bm = [jp ''task_id'' (JStr (js ''t1'')), jp ''body'' (JObj [jp ''chatid'' (JStr chat)])]"
  shows "im_session_id (receive u1 u2 now t0 a bm) = session_id_of a user
    \<and> map_option im_session_id (receive_event_callback u1 u2 now a bm) = Some (session_id_of a chat)
    \<and> session_id_of a user \<noteq> session_id_of a chat"
proof -
  have "nonempty (Some chat) = Some chat" using assms(4) by (simp add: nonempty_eq_Some)
  moreover have "nonempty (Some (js ''t1'')) = Some (js ''t1'')" by (simp add: nonempty_eq_Some)
  ultimately show ?thesis
    using assms by (simp add: receive_def receive_event_callback_def Let_def build_entity_select_def
        pick_def pick_in_def str_at_def map_filter_simps session_id_of_def)
qed

theorem click_session_differs_from_message_session_witness:
  "session_id_of demo_adapter (js ''zhang'') \<noteq> session_id_of demo_adapter (js ''chat9'')"
  using click_session_differs_from_message_session [of "(bot_message_of ''aibot_event_callback''
      [jp ''task_id'' (JStr (js ''t1'')), jp ''body'' (JObj [jp ''chatid'' (JStr (js ''chat9''))])])
        \<lparr>bw_chat_type := Some (js ''single''), bw_from := Some (js ''zhang'')\<rparr>" "js ''zhang''" "js ''chat9''"
      "[]" "[]" "[]" 0 demo_adapter]
  by (simp add: bot_message_of_def parse_callback_def Let_def)

section \<open>A message from the socket\<close>

definition is_question :: "ws_message \<Rightarrow> bool" where
  "is_question bm \<longleftrightarrow> bw_cmd bm = js ''aibot_msg_callback'' \<and> trim (default_to [] (bw_content bm)) \<noteq> []
     \<and> nonempty (bw_req_id bm) \<noteq> None"

definition fresh_stream :: "jstr \<Rightarrow> jstr \<Rightarrow> int \<Rightarrow> pending_stream" where
  "fresh_stream rid sid t0 = \<lparr>ps_req_id = rid, ps_stream_id = sid, ps_buffer = [], ps_t0 = t0, ps_first_delta = None,
     ps_last_flush = 0, ps_flush_count = 0\<rparr>"

text \<open>The session a message belongs to.\<close>

definition message_session :: "adapter \<Rightarrow> ws_message \<Rightarrow> jstr" where
  "message_session a bm = im_session_id (receive [] [] [] 0 a bm)"

lemma receive_session: "im_session_id (receive u1 u2 now t0 a bm) = message_session a bm"
  by (simp add: message_session_def receive_def Let_def)

lemma message_session_pending [simp]: "message_session (a\<lparr>wa_pending := p\<rparr>) bm = message_session a bm"
  by (simp add: message_session_def receive_def session_id_of_def Let_def)

lemma handle_question:
  assumes "is_question bm" "nonempty (bw_req_id bm) = Some rid"
  shows "handle_inbound E u stamp t0 bm (a, w) =
    (let a1 = a\<lparr>wa_pending := jm_set (message_session a bm) (fresh_stream rid (u 2) t0) (wa_pending a)\<rparr>;
         w1 = snd (ae_respond E t0 (stream_reply_of (fresh_stream rid (u 2) t0) thinking_text False) w)
     in case ae_inbound E (receive (u 0) (u 1) stamp t0 a bm) w1 of
          (True, w2) \<Rightarrow> (True, a1, w2)
        | (False, w2) \<Rightarrow> finish_with_error E t0 (message_session a bm) routing_failed_text (a1, w2))"
  using assms unfolding handle_inbound_def is_question_def receive_session fresh_stream_def Let_def by simp

text \<open>A connection that logs what it sends, with a router that accepts or refuses every message.\<close>

definition router_env :: "bool \<Rightarrow> ((int \<times> stream_reply) list) adapter_env" where
  "router_env ok = log_env\<lparr>ae_inbound := (\<lambda>m w. (ok, w))\<rparr>"

text \<open>
  A text message is acknowledged at once on the stream its reply will use, and a message
  that cannot be routed gets an error that finishes this stream, so the user is never left
  with an open one.
\<close>

theorem question_is_acknowledged:
  assumes "is_question bm" "bw_req_id bm = Some rid"
    and "handle_inbound (router_env ok) u stamp t0 bm (a, []) = (handled, a', out)"
  shows "handled \<and> out = (t0, stream_reply_of (fresh_stream rid (u 2) t0) thinking_text False)
           # (if ok then [] else [(t0, stream_reply_of (fresh_stream rid (u 2) t0) (([0x26A0, 0xFE0F] @ js '' '') @ routing_failed_text) True)])
    \<and> jm_get (wa_pending a') (message_session a bm) = (if ok then Some (fresh_stream rid (u 2) t0) else None)"
proof -
  have "nonempty (bw_req_id bm) = Some rid"
    using assms(1,2) by (cases rid) (simp_all add: is_question_def)
  note h = handle_question [OF assms(1) this]
  show ?thesis
    using assms(3)
    by (cases ok) (auto simp: h router_env_def log_env_def Let_def finish_with_error_def finish_stream_def)
qed

definition demo_question :: "string \<Rightarrow> ws_message" where
  "demo_question rid = \<lparr>bw_cmd = js ''aibot_msg_callback'', bw_req_id = Some (js rid), bw_msg_type = js ''text'',
     bw_msg_id = None, bw_from = Some (js ''u''), bw_content = Some (js ''hi''), bw_chat_id = None, bw_chat_type = None,
     bw_raw = []\<rparr>"

lemma demo_question_ok: "rid \<noteq> [] \<Longrightarrow> is_question (demo_question rid)"
  by (auto simp: is_question_def demo_question_def trim_eq_Nil js_def is_ws_def nonempty_eq_Some)

theorem question_is_acknowledged_witness:
  "length (snd (snd (handle_inbound (router_env False) (\<lambda>i. js ''x'') (js ''now'') 5 (demo_question ''r1'')
     (demo_adapter, [])))) = 2"
proof -
  obtain h a' out where r: "handle_inbound (router_env False) (\<lambda>i. js ''x'') (js ''now'') 5 (demo_question ''r1'') (demo_adapter, [])
      = (h, a', out)" by (rule prod_cases3)
  have "bw_req_id (demo_question ''r1'') = Some (js ''r1'')" by (simp add: demo_question_def)
  from question_is_acknowledged [OF demo_question_ok this r] r show ?thesis by auto
qed

lemma finish_stream_fst:
  "jm_get (wa_pending a) sid = Some ps \<Longrightarrow>
     fst (finish_stream E now sid f (a, w)) = fst (ae_respond E now (stream_reply_of ps (f ps) True) w)"
  by (simp add: finish_stream_def split: prod.splits)

lemma handle_question_fst:
  assumes "is_question bm" "\<And>m w. fst (ae_inbound E m w) = r" "\<And>n sr w. fst (ae_respond E n sr w) = c"
  shows "fst (handle_inbound E u stamp t0 bm (a, w)) = (r \<or> c)"
proof -
  obtain rid where rid: "nonempty (bw_req_id bm) = Some rid" using assms(1) by (auto simp: is_question_def)
  let ?ps = "fresh_stream rid (u 2) t0"
  let ?a1 = "a\<lparr>wa_pending := jm_set (message_session a bm) ?ps (wa_pending a)\<rparr>"
  obtain w2 where w2: "ae_inbound E (receive (u 0) (u 1) stamp t0 a bm) (snd (ae_respond E t0 (stream_reply_of ?ps thinking_text False) w)) = (r, w2)"
    using assms(2) by (metis prod.collapse)
  have "fst (finish_with_error E t0 (message_session a bm) routing_failed_text (?a1, w2)) = c"
    using assms(3) by (simp add: finish_with_error_def finish_stream_fst)
  with w2 show ?thesis by (cases r) (simp_all add: handle_question [OF assms(1) rid] Let_def)
qed

text \<open>
  A promise without a handler is rejected exactly when the selection of a click cannot be
  written to Redis, or when a text message can be neither routed nor answered.
\<close>

theorem inbound_rejections:
  assumes "\<And>m w. fst (ae_inbound E m w) = r" "\<And>n sr w. fst (ae_respond E n sr w) = c"
  shows "fst (handle_inbound E u stamp t0 bm (a, w)) =
    (if bw_cmd bm = js ''aibot_event_callback'' then receive_event_callback (u 0) (u 1) stamp a bm = None \<or> r
     else is_question bm \<longrightarrow> r \<or> c)"
proof -
  have i: "ae_inbound E m w = (r, snd (ae_inbound E m w))" for m w
    using assms(1) [of m w] by (cases "ae_inbound E m w") simp
  show ?thesis
  proof (cases "is_question bm")
    case True
    then have "bw_cmd bm = js ''aibot_msg_callback''" by (simp add: is_question_def)
    with True handle_question_fst [OF True assms] show ?thesis by simp
  next
    case False
    then show ?thesis
      using i by (auto simp: handle_inbound_def is_question_def split: option.splits prod.splits) (metis prod.inject)+
  qed
qed

theorem inbound_rejections_witness:
  "\<not> fst (handle_inbound \<lparr>ae_respond = (\<lambda>n sr w. (False, w)), ae_inbound = (\<lambda>m w. (False, w))\<rparr> (\<lambda>i. []) [] 0
     (demo_question ''r1'') (demo_adapter, ()))"
  using inbound_rejections [of "\<lparr>ae_respond = (\<lambda>n sr w. (False, w)), ae_inbound = (\<lambda>m w. (False, w))\<rparr>" False False
      "\<lambda>i. []" "[]" 0 "demo_question ''r1''" demo_adapter "()"] demo_question_ok [of "''r1''"]
  by (simp add: demo_question_def)

section \<open>Two messages of one session\<close>

text \<open>What the agent's answer does to a session: pieces, an end, an error.\<close>

datatype reply_op = Op_delta jstr | Op_done | Op_error jstr

fun run_op :: "'w adapter_env \<Rightarrow> int \<Rightarrow> jstr \<Rightarrow> reply_op \<Rightarrow> adapter \<times> 'w \<Rightarrow> adapter \<times> 'w" where
  "run_op E now sid (Op_delta d) aw = snd (on_agent_text_delta E now sid d aw)"
| "run_op E now sid Op_done aw = snd (on_agent_done E now sid aw)"
| "run_op E now sid (Op_error m) aw = snd (on_agent_error E now sid m aw)"

primrec run_ops :: "'w adapter_env \<Rightarrow> jstr \<Rightarrow> (int \<times> reply_op) list \<Rightarrow> adapter \<times> 'w \<Rightarrow> adapter \<times> 'w" where
  "run_ops E sid [] aw = aw"
| "run_ops E sid (x # xs) aw = run_ops E sid xs (run_op E (fst x) sid (snd x) aw)"

definition only_stream :: "jstr \<Rightarrow> jstr \<Rightarrow> (int \<times> stream_reply) list \<Rightarrow> adapter \<times> (int \<times> stream_reply) list \<Rightarrow> bool" where
  "only_stream sid k out aw \<longleftrightarrow>
     (\<forall>ps. jm_get (wa_pending (fst aw)) sid = Some ps \<longrightarrow> ps_stream_id ps = k)
     \<and> (\<exists>later. snd aw = out @ later \<and> (\<forall>x \<in> set later. sr_stream_id (snd x) = k))"

lemma only_stream_respond:
  assumes "only_stream sid k out (a, w)" "sr_stream_id sr = k" "\<forall>ps. jm_get (wa_pending a') sid = Some ps \<longrightarrow> ps_stream_id ps = k"
  shows "only_stream sid k out (a', w @ [(n, sr)])"
proof -
  obtain later where l: "w = out @ later" "\<forall>x \<in> set later. sr_stream_id (snd x) = k"
    using assms(1) by (auto simp: only_stream_def)
  with assms(2) have "w @ [(n, sr)] = out @ (later @ [(n, sr)])" "\<forall>x \<in> set (later @ [(n, sr)]). sr_stream_id (snd x) = k"
    by auto
  with assms(3) show ?thesis unfolding only_stream_def fst_conv snd_conv by blast
qed

lemma only_stream_silent:
  "only_stream sid k out (a, w) \<Longrightarrow> \<forall>ps. jm_get (wa_pending a') sid = Some ps \<longrightarrow> ps_stream_id ps = k \<Longrightarrow>
     only_stream sid k out (a', w)"
  by (simp add: only_stream_def)

lemma run_op_stream:
  assumes "only_stream sid k out (a, w)"
  shows "only_stream sid k out (run_op log_env now sid x (a, w))"
proof (cases "jm_get (wa_pending a) sid")
  case None
  with assms show ?thesis
    by (cases x) (simp_all add: on_agent_text_delta_def on_agent_done_def on_agent_error_def finish_with_error_def finish_stream_def)
next
  case (Some ps)
  with assms have k: "ps_stream_id ps = k" by (simp add: only_stream_def)
  show ?thesis
    using Some k only_stream_respond [OF assms] only_stream_silent [OF assms]
    by (cases x) (simp_all add: on_agent_text_delta_def on_agent_done_def on_agent_error_def finish_with_error_def
        finish_stream_def Let_def log_env_def stream_reply_of_def)
qed

lemma run_ops_stream: "only_stream sid k out aw \<Longrightarrow> only_stream sid k out (run_ops log_env sid xs aw)"
proof (induction xs arbitrary: aw)
  case (Cons x xs)
  show ?case using Cons.IH [of "run_op log_env (fst x) sid (snd x) aw"] Cons.prems
      run_op_stream [of sid k out "fst aw" "snd aw"] by simp
qed simp

text \<open>
  When a user sends a second message before the first is answered, the first stream is
  orphaned: whatever the agent still sends for the session goes to the second stream, and the
  first one is never finished.
\<close>

theorem second_question_orphans_first:
  assumes "is_question bm1" "is_question bm2" "message_session a bm1 = message_session a bm2"
    and "bw_req_id bm1 = Some r1" "bw_req_id bm2 = Some r2" "v 2 \<noteq> u 2"
    and "handle_inbound log_env u stamp1 t1 bm1 (a, []) = (h1, a1, out1)"
    and "handle_inbound log_env v stamp2 t2 bm2 (a1, out1) = (h2, a2, out2)"
    and "run_ops log_env (message_session a bm1) ops (a2, out2) = (a3, out3)"
  shows "(\<exists>x \<in> set out3. sr_stream_id (snd x) = u 2) \<and> (\<forall>x \<in> set out3. sr_stream_id (snd x) = u 2 \<longrightarrow> \<not> sr_finish (snd x))"
proof -
  have n: "nonempty (bw_req_id bm1) = Some r1" "nonempty (bw_req_id bm2) = Some r2"
    using assms(1,2,4,5) by (cases r1; cases r2; simp add: is_question_def)+
  have 1: "a1 = a\<lparr>wa_pending := jm_set (message_session a bm1) (fresh_stream r1 (u 2) t1) (wa_pending a)\<rparr>"
    "out1 = [(t1, stream_reply_of (fresh_stream r1 (u 2) t1) thinking_text False)]"
    using assms(7) by (auto simp: handle_question [OF assms(1) n(1)] log_env_def Let_def)
  have 2: "jm_get (wa_pending a2) (message_session a bm1) = Some (fresh_stream r2 (v 2) t2)"
    "out2 = out1 @ [(t2, stream_reply_of (fresh_stream r2 (v 2) t2) thinking_text False)]"
    using assms(8) 1(1) assms(3) by (auto simp: handle_question [OF assms(2) n(2)] log_env_def Let_def)
  have "only_stream (message_session a bm1) (v 2) out1 (a2, out2)"
    using 2 by (auto simp: only_stream_def stream_reply_of_def fresh_stream_def)
  from run_ops_stream [OF this, of ops] assms(9) obtain later
    where "out3 = out1 @ later" "\<forall>x \<in> set later. sr_stream_id (snd x) = v 2"
    by (auto simp: only_stream_def)
  with 1(2) assms(6) show ?thesis by (auto simp: stream_reply_of_def fresh_stream_def)
qed

theorem second_question_orphans_first_witness:
  "\<exists>out :: (int \<times> stream_reply) list. (\<forall>x \<in> set out. sr_stream_id (snd x) = js ''s1'' \<longrightarrow> \<not> sr_finish (snd x)) \<and> (\<exists>x \<in> set out. sr_stream_id (snd x) = js ''s1'')"
proof -
  let ?q1 = "demo_question ''r1''" and ?q2 = "demo_question ''r2''"
  obtain h1 a1 out1 where 1: "handle_inbound log_env (\<lambda>i. js ''s1'') [] 0 ?q1 (demo_adapter, []) = (h1, a1, out1)" by (rule prod_cases3)
  obtain h2 a2 out2 where 2: "handle_inbound log_env (\<lambda>i. js ''s2'') [] 1 ?q2 (a1, out1) = (h2, a2, out2)" by (rule prod_cases3)
  obtain a3 out3 where 3: "run_ops log_env (message_session demo_adapter ?q1) [(2, Op_done), (3, Op_done)] (a2, out2) = (a3, out3)"
    by (rule prod.exhaust)
  have "message_session demo_adapter ?q1 = message_session demo_adapter ?q2"
    by (simp add: message_session_def receive_def demo_question_def Let_def)
  from second_question_orphans_first [OF demo_question_ok demo_question_ok this _ _ _ 1 2 3, of "js ''r1''" "js ''r2''"]
  have "(\<exists>x \<in> set out3. sr_stream_id (snd x) = js ''s1'') \<and> (\<forall>x \<in> set out3. sr_stream_id (snd x) = js ''s1'' \<longrightarrow> \<not> sr_finish (snd x))"
    by (simp add: demo_question_def)
  then show ?thesis by blast
qed

end
