(* ===== verification/Bot_Config.thy ===== *)
theory Bot_Config
  imports Wecom_Client
begin

text \<open>
  gateway/src/config/botConfigSource.ts: the wanted bots, pulled from the backend, with one bot
  from the environment as fallback at start, and the polling that feeds the convergence. The
  HTTP client is outside the repository: the answer of a request is an argument. A pull that
  fails is \<open>None\<close>, as the code's \<open>null\<close>, and is different from an empty list.
\<close>

section \<open>Configurations\<close>

text \<open>The connection parameters every bot gets from the environment.\<close>

record conn_defaults =
  cd_heartbeat_sec :: nat
  cd_timeout_count :: nat
  cd_max_attempts :: nat
  cd_initial_delay :: rat
  cd_max_delay :: rat
  cd_multiplier :: rat
  cd_subscribe_timeout :: nat
  cd_default_ws_url :: jstr
  cd_source_name :: jstr
  cd_source_icon :: "jstr option"

record bot_config =
  bc_id :: jstr
  bc_name :: jstr
  bc_enabled :: bool
  bc_ws_url :: jstr
  bc_secret :: jstr
  bc_bound_agent :: "jstr option"
  bc_connection :: conn_defaults

record source_options =
  so_token :: jstr
  so_defaults :: conn_defaults
  so_env_id :: jstr
  so_env_secret :: jstr
  so_env_ws_url :: jstr

text \<open>The values of \<open>createBotConfigSourceFromEnv\<close> that are not read from the environment.\<close>

definition env_defaults :: "nat \<Rightarrow> nat \<Rightarrow> jstr \<Rightarrow> jstr \<Rightarrow> jstr option \<Rightarrow> conn_defaults" where
  "env_defaults beat sub url src icon = \<lparr>cd_heartbeat_sec = beat, cd_timeout_count = 3, cd_max_attempts = 10,
     cd_initial_delay = 1000, cd_max_delay = 30000, cd_multiplier = 2, cd_subscribe_timeout = sub,
     cd_default_ws_url = url, cd_source_name = src, cd_source_icon = nonempty icon\<rparr>"

text \<open>\<open>asString\<close>.\<close>

fun config_string :: "jval \<Rightarrow> jstr" where
  "config_string (JStr s) = trim s"
| "config_string _ = []"

definition to_runtime_config :: "conn_defaults \<Rightarrow> jobj \<Rightarrow> bot_config option" where
  "to_runtime_config d wire =
     (let i = config_string (field_of wire (js ''bot_id''));
          k = config_string (field_of wire (js ''secret''))
      in if i = [] \<or> k = [] then None
         else Some \<lparr>bc_id = i, bc_name = default_to i (nonempty (Some (config_string (field_of wire (js ''name''))))),
           bc_enabled = (field_of wire (js ''enabled'') \<noteq> JBool False),
           bc_ws_url = default_to (cd_default_ws_url d) (nonempty (Some (config_string (field_of wire (js ''ws_url''))))),
           bc_secret = k, bc_bound_agent = nonempty (Some (config_string (field_of wire (js ''bound_agent_id'')))),
           bc_connection = d\<rparr>)"

section \<open>Pulling\<close>

text \<open>The request failed, or was answered with a status and a body.\<close>

datatype http_answer = Http_failed | Http_answer int jval

definition wire_items :: "jval \<Rightarrow> jval list" where
  "wire_items body = (case field_of (as_object body) (js ''data'') of JArr xs \<Rightarrow> xs | _ \<Rightarrow> [])"

text \<open>Reading a field of \<open>null\<close> throws, which ends the whole pull; any other item has its fields, if any.\<close>

fun read_items :: "conn_defaults \<Rightarrow> jval list \<Rightarrow> bot_config list option" where
  "read_items d [] = Some []"
| "read_items d (x # xs) =
     (if nullish x then None
      else map_option (\<lambda>cs. (case to_runtime_config d (as_object x) of None \<Rightarrow> cs | Some c \<Rightarrow> c # cs)) (read_items d xs))"

definition fetch_runtime :: "source_options \<Rightarrow> http_answer \<Rightarrow> bot_config list option" where
  "fetch_runtime so ans =
     (if so_token so = [] then None
      else case ans of
             Http_failed \<Rightarrow> None
           | Http_answer st body \<Rightarrow> if st \<noteq> 200 then None else read_items (so_defaults so) (wire_items body))"

definition load_from_backend :: "source_options \<Rightarrow> http_answer \<Rightarrow> bot_config list" where
  "load_from_backend so ans =
     (if so_token so = [] then []
      else case ans of
             Http_failed \<Rightarrow> []
           | Http_answer st body \<Rightarrow>
               if st \<noteq> 200 then []
               else (case read_items (so_defaults so) (wire_items body) of None \<Rightarrow> [] | Some cs \<Rightarrow> cs))"

definition load_from_env :: "source_options \<Rightarrow> bot_config list" where
  "load_from_env so =
     (if so_env_id so = [] \<or> so_env_secret so = [] then []
      else [\<lparr>bc_id = so_env_id so, bc_name = so_env_id so @ js '' (env)'', bc_enabled = True,
             bc_ws_url = (if so_env_ws_url so \<noteq> [] then so_env_ws_url so else cd_default_ws_url (so_defaults so)),
             bc_secret = so_env_secret so, bc_bound_agent = None, bc_connection = so_defaults so\<rparr>])"

definition load_configs :: "source_options \<Rightarrow> http_answer \<Rightarrow> bot_config list" where
  "load_configs so ans =
     (let remote = load_from_backend so ans
      in if remote \<noteq> [] then remote else load_from_env so)"

section \<open>Polling\<close>

text \<open>\<open>pl_rounds\<close> counts the rounds whose pull or callback is still under way.\<close>

record poller =
  pl_timer :: bool
  pl_polling :: bool
  pl_rounds :: nat

definition new_poller :: poller where
  "new_poller = \<lparr>pl_timer = False, pl_polling = False, pl_rounds = 0\<rparr>"

text \<open>\<open>pollOnce\<close> up to its first wait.\<close>

definition poll_begin :: "poller \<Rightarrow> poller" where
  "poll_begin p = (if pl_polling p then p else p\<lparr>pl_polling := True, pl_rounds := Suc (pl_rounds p)\<rparr>)"

definition poll_end :: "poller \<Rightarrow> poller" where
  "poll_end p = p\<lparr>pl_polling := False, pl_rounds := pl_rounds p - 1\<rparr>"

definition start_polling :: "source_options \<Rightarrow> int \<Rightarrow> poller \<Rightarrow> poller" where
  "start_polling so interval p =
     (if interval \<le> 0 \<or> so_token so = [] then p
      else if pl_timer p then p
      else poll_begin (p\<lparr>pl_polling := False, pl_timer := True\<rparr>))"

definition stop_polling :: "poller \<Rightarrow> poller" where
  "stop_polling p = p\<lparr>pl_timer := False, pl_polling := False\<rparr>"

text \<open>The timer's tick, the end of a round, a start, and a stop.\<close>

datatype poll_event = Poll_tick | Poll_done | Poll_start int | Poll_stop

fun poll_enabled :: "poll_event \<Rightarrow> poller \<Rightarrow> bool" where
  "poll_enabled Poll_tick p = pl_timer p"
| "poll_enabled Poll_done p = (0 < pl_rounds p)"
| "poll_enabled (Poll_start _) p = True"
| "poll_enabled Poll_stop p = True"

fun poll_apply :: "source_options \<Rightarrow> poll_event \<Rightarrow> poller \<Rightarrow> poller" where
  "poll_apply so Poll_tick p = poll_begin p"
| "poll_apply so Poll_done p = poll_end p"
| "poll_apply so (Poll_start i) p = start_polling so i p"
| "poll_apply so Poll_stop p = stop_polling p"

inductive poll_run :: "source_options \<Rightarrow> poll_event list \<Rightarrow> poller \<Rightarrow> bool" for so where
  init: "poll_run so [] new_poller"
| step: "poll_run so es p \<Longrightarrow> poll_enabled e p \<Longrightarrow> poll_run so (es @ [e]) (poll_apply so e p)"

section \<open>Facts\<close>

lemma load_from_backend_fetch: "load_from_backend so ans = default_to [] (fetch_runtime so ans)"
  by (simp add: load_from_backend_def fetch_runtime_def default_to_def split: http_answer.splits)

text \<open>A configuration the gateway can start a connection with.\<close>

definition usable_config :: "conn_defaults \<Rightarrow> bot_config \<Rightarrow> bool" where
  "usable_config d c \<longleftrightarrow> bc_id c \<noteq> [] \<and> bc_secret c \<noteq> [] \<and> bc_name c \<noteq> []
     \<and> (cd_default_ws_url d \<noteq> [] \<longrightarrow> bc_ws_url c \<noteq> []) \<and> bc_bound_agent c \<noteq> Some [] \<and> bc_connection c = d"

lemma default_to_nonempty: "default_to d (nonempty (Some s)) = (if s = [] then d else s)"
  by (cases s) simp_all

lemma to_runtime_config_usable: "to_runtime_config d wire = Some c \<Longrightarrow> usable_config d c"
  by (auto simp: to_runtime_config_def usable_config_def default_to_nonempty nonempty_eq_Some Let_def split: if_splits)

lemma read_items_Some:
  "read_items d xs = (if \<exists>x \<in> set xs. nullish x then None else Some (List.map_filter (\<lambda>x. to_runtime_config d (as_object x)) xs))"
  by (induction xs) (auto simp: map_filter_simps split: option.splits)

text \<open>
  A pull fails exactly when there is no token, no answer, a status other than 200, or an
  item that is null; any other pull gives, in the backend's order, one configuration for every
  item with an identifier and a secret, and each of them is usable.
\<close>

theorem pull_outcomes:
  shows "fetch_runtime so ans =
    (case ans of
       Http_failed \<Rightarrow> None
     | Http_answer st body \<Rightarrow>
         if so_token so = [] \<or> st \<noteq> 200 \<or> (\<exists>x \<in> set (wire_items body). nullish x) then None
         else Some (List.map_filter (\<lambda>x. to_runtime_config (so_defaults so) (as_object x)) (wire_items body)))
    \<and> (\<forall>c \<in> set (default_to [] (fetch_runtime so ans)). usable_config (so_defaults so) c)"
  by (auto simp: fetch_runtime_def read_items_Some map_filter_def to_runtime_config_usable split: http_answer.splits)

definition demo_options :: source_options where
  "demo_options = \<lparr>so_token = js ''t'', so_defaults = env_defaults 30 10000 (js ''wss://d'') (js ''s'') None,
     so_env_id = js ''envbot'', so_env_secret = js ''k'', so_env_ws_url = []\<rparr>"

definition demo_answer :: http_answer where
  "demo_answer = Http_answer 200 (JObj [jp ''data'' (JArr [JObj [jp ''bot_id'' (JStr (js ''b'')), jp ''secret'' (JStr (js ''k''))],
     JObj [jp ''bot_id'' (JStr (js ''c''))]])])"

theorem pull_outcomes_witness:
  "\<exists>c. fetch_runtime demo_options demo_answer = Some [c] \<and> bc_id c = js ''b'' \<and> usable_config (so_defaults demo_options) c"
proof -
  have t: "trim (js ''b'') = js ''b''" "trim (js ''k'') = js ''k''" "trim (js ''c'') = js ''c''"
    by (simp_all add: trim_def js_def is_ws_def)
  obtain c where c: "to_runtime_config (so_defaults demo_options) [jp ''bot_id'' (JStr (js ''b'')), jp ''secret'' (JStr (js ''k''))] = Some c"
    "bc_id c = js ''b''"
    by (simp add: to_runtime_config_def field_of_def Let_def t)
  have "to_runtime_config (so_defaults demo_options) [jp ''bot_id'' (JStr (js ''c''))] = None"
    by (simp add: to_runtime_config_def field_of_def Let_def t)
  moreover have "wire_items (case demo_answer of Http_answer st body \<Rightarrow> body | Http_failed \<Rightarrow> JNull) =
      [JObj [jp ''bot_id'' (JStr (js ''b'')), jp ''secret'' (JStr (js ''k''))], JObj [jp ''bot_id'' (JStr (js ''c''))]]"
    by (simp add: demo_answer_def wire_items_def field_of_def)
  moreover have "so_token demo_options \<noteq> []" by (simp add: demo_options_def)
  ultimately have "fetch_runtime demo_options demo_answer = Some [c]"
    using c pull_outcomes [of demo_options demo_answer]
    by (simp add: demo_answer_def nullish_def map_filter_simps)
  with pull_outcomes [of demo_options demo_answer, THEN conjunct2] c(2) show ?thesis by auto
qed

text \<open>
  At start the gateway always gets a list: the backend's when it has a bot, else the bot of
  the environment, else none; a bot of the environment is never mixed with the backend's.
\<close>

theorem load_falls_back:
  "load_configs so ans =
    (case fetch_runtime so ans of Some (c # cs) \<Rightarrow> c # cs | _ \<Rightarrow> load_from_env so)"
  by (auto simp: load_configs_def load_from_backend_fetch split: option.splits list.splits)

lemma poll_run_inv:
  assumes "poll_run so es p" "Poll_stop \<notin> set es"
  shows "pl_rounds p = (if pl_polling p then 1 else 0) \<and> (pl_polling p \<longrightarrow> pl_timer p)"
  using assms
proof (induction rule: poll_run.induct)
  case init
  then show ?case by (simp add: new_poller_def)
next
  case (step es p e)
  then show ?case
    by (cases e) (auto simp: poll_begin_def poll_end_def start_polling_def split: if_splits)
qed

text \<open>
  As long as the polling is not stopped, at most one round is under way, however the ticks
  fall, and starting twice is the same as starting once.
\<close>

theorem polling_rounds_do_not_overlap:
  assumes "poll_run so es p" "Poll_stop \<notin> set es"
  shows "pl_rounds p \<le> 1 \<and> (pl_timer p \<longrightarrow> start_polling so i p = p)"
  using poll_run_inv [OF assms] by (simp add: start_polling_def)

theorem polling_rounds_do_not_overlap_witness:
  "pl_rounds (start_polling demo_options 30000 new_poller) \<le> 1"
proof -
  have "poll_run demo_options ([] @ [Poll_start 30000]) (poll_apply demo_options (Poll_start 30000) new_poller)"
    by (rule poll_run.step [OF poll_run.init]) simp
  from polling_rounds_do_not_overlap [OF this] show ?thesis by simp
qed

text \<open>
  A stop does not end the round that is under way, and it clears the guard: the round still
  hands its configurations on after the stop, and after a restart two rounds overlap.
\<close>

theorem stopped_polling_overlaps:
  assumes "0 < i" "so_token so \<noteq> []"
  shows "\<exists>p q. poll_run so [Poll_start i, Poll_stop] p \<and> \<not> pl_timer p \<and> poll_enabled Poll_done p
    \<and> poll_run so [Poll_start i, Poll_stop, Poll_start i] q \<and> pl_rounds q = 2"
proof -
  let ?p1 = "poll_apply so (Poll_start i) new_poller"
  let ?p2 = "poll_apply so Poll_stop ?p1"
  let ?p3 = "poll_apply so (Poll_start i) ?p2"
  have 1: "poll_run so ([] @ [Poll_start i]) ?p1" by (rule poll_run.step [OF poll_run.init]) simp
  have 2: "poll_run so (([] @ [Poll_start i]) @ [Poll_stop]) ?p2" by (rule poll_run.step [OF 1]) simp
  have 3: "poll_run so ((([] @ [Poll_start i]) @ [Poll_stop]) @ [Poll_start i]) ?p3" by (rule poll_run.step [OF 2]) simp
  have "\<not> pl_timer ?p2 \<and> poll_enabled Poll_done ?p2 \<and> pl_rounds ?p3 = 2"
    using assms by (simp add: start_polling_def poll_begin_def stop_polling_def new_poller_def)
  with 2 3 show ?thesis by auto
qed

theorem stopped_polling_overlaps_witness:
  "\<exists>q. poll_run demo_options [Poll_start 1, Poll_stop, Poll_start 1] q \<and> pl_rounds q = 2"
  using stopped_polling_overlaps [of 1 demo_options] by (auto simp: demo_options_def)

end
