(* ===== verification/Bot_Registry.thy ===== *)
theory Bot_Registry
  imports Wecom_Adapter Bot_Config Ownership
begin

text \<open>
  gateway/src/channels/BotRegistry.ts: the bots of one gateway, their adapters, the sessions
  they serve, and the convergence to a list of wanted bots under the leases of the cluster.
  The adapters, the lease coordinator and Redis act on a world \<open>'w\<close>; an adapter is the number
  it was created with. A rejected lease call ends the method that made it: its result is
  \<open>None\<close> (or \<open>False\<close>), beside the state it has reached.
\<close>

section \<open>State\<close>

record bot_entry =
  en_config :: bot_config
  en_adapter :: nat
  en_started :: bool
  en_error :: "jstr option"

record registry_state =
  rg_entries :: "(jstr, bot_entry) jmap"
  rg_sessions :: "(jstr, jstr) jmap"
  rg_max_sessions :: nat
  rg_wired :: bool                      \<comment> \<open>the inbound handler is set\<close>
  rg_gateway :: "jstr option"           \<comment> \<open>\<open>ownership\<close> and \<open>gatewayId\<close> are bound\<close>
  rg_drain :: bool
  rg_prev :: "(jstr, jstr) jmap"
  rg_redis :: bool

record reconcile_report =
  rp_started :: "jstr list"
  rp_stopped :: "jstr list"
  rp_restarted :: "jstr list"
  rp_metadata :: "jstr list"
  rp_removed :: "jstr list"
  rp_errors :: "(jstr \<times> jstr) list"

definition empty_report :: reconcile_report where
  "empty_report = \<lparr>rp_started = [], rp_stopped = [], rp_restarted = [], rp_metadata = [], rp_removed = [], rp_errors = []\<rparr>"

record 'w bot_env =
  be_new :: "bot_config \<Rightarrow> 'w \<Rightarrow> nat \<times> 'w"
  be_start :: "nat \<Rightarrow> 'w \<Rightarrow> jstr option \<times> 'w"            \<comment> \<open>\<open>None\<close>, or the reason of the failure\<close>
  be_stop :: "nat \<Rightarrow> 'w \<Rightarrow> 'w"
  be_connected :: "'w \<Rightarrow> nat \<Rightarrow> bool"
  be_current_owner :: "jstr \<Rightarrow> 'w \<Rightarrow> jstr option option \<times> 'w"
  be_set_prev :: "jstr \<Rightarrow> jstr \<Rightarrow> 'w \<Rightarrow> bool \<times> 'w"
  be_drain :: "jstr \<Rightarrow> 'w \<Rightarrow> bool \<times> 'w"
  be_remember :: "jstr \<Rightarrow> jstr \<Rightarrow> 'w \<Rightarrow> bool \<times> 'w"     \<comment> \<open>the write of \<open>session:{sid}:bot\<close>\<close>

definition new_bot_registry :: "nat option \<Rightarrow> registry_state" where
  "new_bot_registry cap = \<lparr>rg_entries = [], rg_sessions = [], rg_max_sessions = default_to 10000 cap,
     rg_wired = False, rg_gateway = None, rg_drain = False, rg_prev = [], rg_redis = False\<rparr>"

definition bind_cluster :: "jstr \<Rightarrow> bool \<Rightarrow> registry_state \<Rightarrow> registry_state" where
  "bind_cluster gw has_drain s = s\<lparr>rg_gateway := nonempty (Some gw), rg_drain := has_drain\<rparr>"

definition bind_redis :: "registry_state \<Rightarrow> registry_state" where
  "bind_redis s = s\<lparr>rg_redis := True\<rparr>"

definition rg_entry :: "registry_state \<Rightarrow> jstr \<Rightarrow> bot_entry option" where
  "rg_entry s b = jm_get (rg_entries s) b"

definition put_entry :: "jstr \<Rightarrow> bot_entry \<Rightarrow> registry_state \<Rightarrow> registry_state" where
  "put_entry b e s = s\<lparr>rg_entries := jm_set b e (rg_entries s)\<rparr>"

section \<open>Sessions\<close>

text \<open>\<open>dropSessionsOf\<close>.\<close>

definition drop_sessions_of :: "jstr \<Rightarrow> registry_state \<Rightarrow> registry_state" where
  "drop_sessions_of b s = s\<lparr>rg_sessions := filter (\<lambda>e. snd e \<noteq> b) (rg_sessions s)\<rparr>"

definition remember_session_owner :: "jstr \<Rightarrow> jstr \<Rightarrow> registry_state \<Rightarrow> registry_state" where
  "remember_session_owner sid b s =
     (if sid = [] then s
      else let m = rg_sessions s;
               m1 = (if \<not> jm_has m sid \<and> rg_max_sessions s \<le> length m
                     then (case jm_keys m of [] \<Rightarrow> m | oldest # _ \<Rightarrow> jm_delete oldest m) else m)
           in s\<lparr>rg_sessions := jm_set sid b m1\<rparr>)"

definition remember_session_bot :: "'w bot_env \<Rightarrow> jstr \<Rightarrow> jstr \<Rightarrow> registry_state \<times> 'w \<Rightarrow> registry_state \<times> 'w" where
  "remember_session_bot E sid b sw =
     (remember_session_owner sid b (fst sw),
      if rg_redis (fst sw) then snd (be_remember E sid b (snd sw)) else snd sw)"

definition resolve_targets :: "jstr \<Rightarrow> registry_state \<Rightarrow> nat list" where
  "resolve_targets sid s =
     (let all = map (en_adapter \<circ> snd) (filter (en_started \<circ> snd) (rg_entries s))
      in case jm_get (rg_sessions s) sid of
           None \<Rightarrow> all
         | Some b \<Rightarrow> (case rg_entry s b of
              None \<Rightarrow> all
            | Some e \<Rightarrow> if en_started e then [en_adapter e] else all))"

text \<open>
  Dispatch of a reply's piece, error or end to the targets in order; a target that throws ends
  the dispatch. \<open>dispatchDone\<close> then releases the session.
\<close>

fun dispatch_to :: "(nat \<Rightarrow> 'w \<Rightarrow> bool \<times> 'w) \<Rightarrow> nat list \<Rightarrow> 'w \<Rightarrow> bool \<times> 'w" where
  "dispatch_to f [] w = (True, w)"
| "dispatch_to f (t # ts) w = (case f t w of (False, w1) \<Rightarrow> (False, w1) | (True, w1) \<Rightarrow> dispatch_to f ts w1)"

definition dispatch_text_delta :: "(nat \<Rightarrow> 'w \<Rightarrow> bool \<times> 'w) \<Rightarrow> jstr \<Rightarrow> registry_state \<Rightarrow> 'w \<Rightarrow> bool \<times> 'w" where
  "dispatch_text_delta f sid s w = dispatch_to f (resolve_targets sid s) w"

definition dispatch_error :: "(nat \<Rightarrow> 'w \<Rightarrow> bool \<times> 'w) \<Rightarrow> jstr \<Rightarrow> registry_state \<Rightarrow> 'w \<Rightarrow> bool \<times> 'w" where
  "dispatch_error f sid s w = dispatch_to f (resolve_targets sid s) w"

definition dispatch_done ::
  "(nat \<Rightarrow> 'w \<Rightarrow> bool \<times> 'w) \<Rightarrow> jstr \<Rightarrow> registry_state \<Rightarrow> 'w \<Rightarrow> bool \<times> registry_state \<times> 'w" where
  "dispatch_done f sid s w =
     (case dispatch_to f (resolve_targets sid s) w of
        (False, w1) \<Rightarrow> (False, s, w1)
      | (True, w1) \<Rightarrow> (True, s\<lparr>rg_sessions := jm_delete sid (rg_sessions s)\<rparr>, w1))"

section \<open>Life cycle\<close>

definition new_entry :: "bot_config \<Rightarrow> nat \<Rightarrow> bot_entry" where
  "new_entry c a = \<lparr>en_config = c, en_adapter = a, en_started = False, en_error = None\<rparr>"

fun register_bots :: "'w bot_env \<Rightarrow> bot_config list \<Rightarrow> registry_state \<times> 'w \<Rightarrow> registry_state \<times> 'w" where
  "register_bots E [] sw = sw"
| "register_bots E (c # cs) sw =
     (let (s, w) = sw;
          w1 = (case rg_entry s (bc_id c) of
                  Some e \<Rightarrow> if en_started e then be_stop E (en_adapter e) w else w
                | None \<Rightarrow> w);
          (a, w2) = be_new E c w1
      in register_bots E cs (put_entry (bc_id c) (new_entry c a) s, w2))"

definition stop_bot :: "'w bot_env \<Rightarrow> jstr \<Rightarrow> registry_state \<times> 'w \<Rightarrow> bool \<times> registry_state \<times> 'w" where
  "stop_bot E b sw =
     (let (s, w) = sw
      in case rg_entry s b of
           None \<Rightarrow> (False, s, w)
         | Some e \<Rightarrow>
             if en_started e
             then (True, drop_sessions_of b (put_entry b (e\<lparr>en_started := False\<rparr>) s), be_stop E (en_adapter e) w)
             else (True, s, w))"

fun stop_each :: "'w bot_env \<Rightarrow> jstr list \<Rightarrow> registry_state \<times> 'w \<Rightarrow> registry_state \<times> 'w" where
  "stop_each E [] sw = sw"
| "stop_each E (b # bs) sw =
     (let (s, w) = sw
      in stop_each E bs (case rg_entry s b of
           Some e \<Rightarrow> if en_started e then (put_entry b (e\<lparr>en_started := False\<rparr>) s, be_stop E (en_adapter e) w) else (s, w)
         | None \<Rightarrow> (s, w)))"

definition stop_all :: "'w bot_env \<Rightarrow> registry_state \<times> 'w \<Rightarrow> registry_state \<times> 'w" where
  "stop_all E sw =
     (case stop_each E (jm_keys (rg_entries (fst sw))) sw of (s, w) \<Rightarrow> (s\<lparr>rg_sessions := []\<rparr>, w))"

definition not_wired :: jstr where "not_wired = js ''inbound handler not wired''"

definition start_entry :: "'w bot_env \<Rightarrow> jstr \<Rightarrow> bot_entry \<Rightarrow> registry_state \<times> 'w \<Rightarrow> bool \<times> registry_state \<times> 'w" where
  "start_entry E b e sw =
     (let (s, w) = sw
      in if \<not> rg_wired s then (False, put_entry b (e\<lparr>en_error := Some not_wired\<rparr>) s, w)
         else case be_start E (en_adapter e) w of
                (None, w1) \<Rightarrow> (True, put_entry b (e\<lparr>en_started := True, en_error := None\<rparr>) s, w1)
              | (Some reason, w1) \<Rightarrow>
                  (False, put_entry b (e\<lparr>en_started := False, en_error := Some reason\<rparr>) s, w1))"

definition start_bot :: "'w bot_env \<Rightarrow> jstr \<Rightarrow> registry_state \<times> 'w \<Rightarrow> bool \<times> registry_state \<times> 'w" where
  "start_bot E b sw =
     (case rg_entry (fst sw) b of
        None \<Rightarrow> (False, sw)
      | Some e \<Rightarrow> if en_started e then (True, sw)
                  else if \<not> rg_wired (fst sw) then (False, sw)
                  else start_entry E b e sw)"

text \<open>
  \<open>acquireBot\<close>: \<open>claim\<close> is the caller's lease claim. The previous owner that was observed is
  recorded and its stream drained when the claim succeeds.
\<close>

definition observe_owner :: "'w bot_env \<Rightarrow> jstr \<Rightarrow> registry_state \<times> 'w \<Rightarrow> bool \<times> registry_state \<times> 'w" where
  "observe_owner E b sw =
     (let (s, w) = sw
      in case rg_gateway s of
           None \<Rightarrow> (True, s, w)
         | Some gw \<Rightarrow>
             (case be_current_owner E b w of
                (None, w1) \<Rightarrow> (False, s, w1)
              | (Some None, w1) \<Rightarrow> (True, s, w1)
              | (Some (Some cur), w1) \<Rightarrow>
                  (True, if cur \<noteq> gw then s\<lparr>rg_prev := jm_set b cur (rg_prev s)\<rparr> else s, w1)))"

definition take_over :: "'w bot_env \<Rightarrow> jstr \<Rightarrow> registry_state \<times> 'w \<Rightarrow> bool \<times> registry_state \<times> 'w" where
  "take_over E b sw =
     (let (s, w) = sw
      in case rg_gateway s of
           None \<Rightarrow> (True, s, w)
         | Some gw \<Rightarrow>
             (case jm_get (rg_prev s) b of
                None \<Rightarrow> (True, s, w)
              | Some prev \<Rightarrow>
                  if prev = gw then (True, s, w)
                  else (case be_set_prev E b prev w of
                          (False, w1) \<Rightarrow> (False, s, w1)
                        | (True, w1) \<Rightarrow>
                            (True, s\<lparr>rg_prev := jm_delete b (rg_prev s)\<rparr>,
                              if rg_drain s then snd (be_drain E prev w1) else w1))))"

definition acquire_bot ::
  "'w bot_env \<Rightarrow> (jstr \<Rightarrow> 'w \<Rightarrow> bool option \<times> 'w) \<Rightarrow> jstr \<Rightarrow> registry_state \<times> 'w \<Rightarrow> bool option \<times> registry_state \<times> 'w" where
  "acquire_bot E claim b sw =
     (case observe_owner E b sw of
        (False, sw1) \<Rightarrow> (None, sw1)
      | (True, s, w) \<Rightarrow>
          (case claim b w of
             (None, w1) \<Rightarrow> (None, s, w1)
           | (Some False, w1) \<Rightarrow> (Some False, s, w1)
           | (Some True, w1) \<Rightarrow>
               (case take_over E b (s, w1) of
                  (True, sw2) \<Rightarrow> (Some True, sw2)
                | (False, sw2) \<Rightarrow> (None, sw2))))"

text \<open>The loop of \<open>startOwnedBots\<close>; \<open>None\<close> when a lease call was rejected.\<close>

fun start_owned_each ::
  "'w bot_env \<Rightarrow> (jstr \<Rightarrow> 'w \<Rightarrow> bool option \<times> 'w) \<Rightarrow> jstr list \<Rightarrow> nat \<Rightarrow> registry_state \<times> 'w
     \<Rightarrow> nat option \<times> registry_state \<times> 'w" where
  "start_owned_each E claim [] n sw = (Some n, sw)"
| "start_owned_each E claim (b # bs) n sw =
     (case rg_entry (fst sw) b of
        None \<Rightarrow> start_owned_each E claim bs n sw
      | Some e \<Rightarrow>
          if \<not> bc_enabled (en_config e) then start_owned_each E claim bs n sw
          else case acquire_bot E claim b sw of
                 (None, sw1) \<Rightarrow> (None, sw1)
               | (Some True, sw1) \<Rightarrow>
                   if en_started e then start_owned_each E claim bs (Suc n) sw1
                   else (case start_entry E b e sw1 of
                           (ok, sw2) \<Rightarrow> start_owned_each E claim bs (if ok then Suc n else n) sw2)
               | (Some False, sw1) \<Rightarrow>
                   start_owned_each E claim bs n (if en_started e then snd (stop_bot E b sw1) else sw1))"

definition start_owned_bots ::
  "'w bot_env \<Rightarrow> (jstr \<Rightarrow> 'w \<Rightarrow> bool option \<times> 'w) \<Rightarrow> registry_state \<times> 'w \<Rightarrow> nat option \<times> registry_state \<times> 'w" where
  "start_owned_bots E claim sw =
     start_owned_each E claim (jm_keys (rg_entries (fst sw))) 0 ((fst sw)\<lparr>rg_wired := True\<rparr>, snd sw)"

definition start_all :: "'w bot_env \<Rightarrow> registry_state \<times> 'w \<Rightarrow> nat option \<times> registry_state \<times> 'w" where
  "start_all E sw = start_owned_bots E (\<lambda>b w. (Some True, w)) sw"

section \<open>Convergence\<close>

definition configs_equal :: "bot_config \<Rightarrow> bot_config \<Rightarrow> bool" where
  "configs_equal a b \<longleftrightarrow> bc_name a = bc_name b \<and> bc_enabled a = bc_enabled b \<and> bc_ws_url a = bc_ws_url b
     \<and> bc_secret a = bc_secret b \<and> default_to [] (bc_bound_agent a) = default_to [] (bc_bound_agent b)"

definition restart_entry :: "'w bot_env \<Rightarrow> jstr \<Rightarrow> bot_entry \<Rightarrow> bot_config \<Rightarrow> registry_state \<times> 'w \<Rightarrow> registry_state \<times> 'w" where
  "restart_entry E b e c sw =
     (let (s, w) = sw;
          w1 = (if en_started e then be_stop E (en_adapter e) w else w);
          (a, w2) = be_new E c w1
      in (put_entry b (e\<lparr>en_config := c, en_adapter := a, en_started := False\<rparr>) s, w2))"

text \<open>The step of the loop that brings an existing entry's configuration up to date.\<close>

definition update_config ::
  "'w bot_env \<Rightarrow> bot_config \<Rightarrow> bot_entry \<Rightarrow> reconcile_report \<Rightarrow> registry_state \<times> 'w
     \<Rightarrow> reconcile_report \<times> registry_state \<times> 'w" where
  "update_config E c e rp sw =
     (if configs_equal (en_config e) c then (rp, sw)
      else if bc_ws_url (en_config e) \<noteq> bc_ws_url c \<or> bc_secret (en_config e) \<noteq> bc_secret c
      then (rp\<lparr>rp_restarted := rp_restarted rp @ [bc_id c]\<rparr>, restart_entry E (bc_id c) e c sw)
      else (rp\<lparr>rp_metadata := rp_metadata rp @ [bc_id c]\<rparr>,
            put_entry (bc_id c) (e\<lparr>en_config := c\<rparr>) (fst sw), snd sw))"

text \<open>Start of an entry, with its place in the report.\<close>

definition start_reported ::
  "'w bot_env \<Rightarrow> jstr \<Rightarrow> bot_entry \<Rightarrow> reconcile_report \<Rightarrow> registry_state \<times> 'w \<Rightarrow> reconcile_report \<times> registry_state \<times> 'w" where
  "start_reported E b e rp sw =
     (case start_entry E b e sw of
        (True, sw1) \<Rightarrow> (rp\<lparr>rp_started := js_add b (rp_started rp)\<rparr>, sw1)
      | (False, sw1) \<Rightarrow>
          (rp\<lparr>rp_errors := rp_errors rp @ [(b, default_to (js ''start failed'')
               (Option.bind (rg_entry (fst sw1) b) en_error))]\<rparr>, sw1))"

definition acquire_for ::
  "'w bot_env \<Rightarrow> (jstr \<Rightarrow> 'w \<Rightarrow> bool option \<times> 'w) option \<Rightarrow> jstr \<Rightarrow> registry_state \<times> 'w
     \<Rightarrow> bool option \<times> registry_state \<times> 'w" where
  "acquire_for E claim b sw = (case claim of None \<Rightarrow> (Some True, sw) | Some f \<Rightarrow> acquire_bot E f b sw)"

text \<open>The entry after the lease has been decided.\<close>

definition gate_entry ::
  "'w bot_env \<Rightarrow> jstr \<Rightarrow> reconcile_report \<Rightarrow> bool \<times> registry_state \<times> 'w \<Rightarrow> reconcile_report \<times> registry_state \<times> 'w" where
  "gate_entry E b rp osw =
     (let (ok, sw) = osw
      in case rg_entry (fst sw) b of
           None \<Rightarrow> (rp, sw)
         | Some e \<Rightarrow>
             if ok then (if en_started e then (rp, sw) else start_reported E b e rp sw)
             else if en_started e then (rp\<lparr>rp_stopped := js_add b (rp_stopped rp)\<rparr>, snd (stop_bot E b sw))
             else (rp, sw))"

definition gate_if_answered ::
  "'w bot_env \<Rightarrow> jstr \<Rightarrow> reconcile_report \<Rightarrow> bool option \<times> registry_state \<times> 'w \<Rightarrow> bool \<times> reconcile_report \<times> registry_state \<times> 'w" where
  "gate_if_answered E b rp osw =
     (case osw of
        (None, sw) \<Rightarrow> (False, rp, sw)
      | (Some ok, sw) \<Rightarrow> (True, gate_entry E b rp (ok, sw)))"

definition reconcile_one ::
  "'w bot_env \<Rightarrow> (jstr \<Rightarrow> 'w \<Rightarrow> bool option \<times> 'w) option \<Rightarrow> bot_config
     \<Rightarrow> reconcile_report \<times> registry_state \<times> 'w \<Rightarrow> bool \<times> reconcile_report \<times> registry_state \<times> 'w" where
  "reconcile_one E claim c rsw =
     (let (rp, s, w) = rsw; b = bc_id c
      in case rg_entry s b of
           None \<Rightarrow>
             (let (a, w1) = be_new E c w
              in gate_if_answered E b rp (acquire_for E claim b (put_entry b (new_entry c a) s, w1)))
         | Some e \<Rightarrow>
             (let (rp1, sw1) = update_config E c e rp (s, w)
              in gate_if_answered E b rp1 (acquire_for E claim b sw1)))"

fun reconcile_each ::
  "'w bot_env \<Rightarrow> (jstr \<Rightarrow> 'w \<Rightarrow> bool option \<times> 'w) option \<Rightarrow> bot_config list
     \<Rightarrow> reconcile_report \<times> registry_state \<times> 'w \<Rightarrow> bool \<times> reconcile_report \<times> registry_state \<times> 'w" where
  "reconcile_each E claim [] rsw = (True, rsw)"
| "reconcile_each E claim (c # cs) rsw =
     (case reconcile_one E claim c rsw of
        (False, rsw1) \<Rightarrow> (False, rsw1)
      | (True, rsw1) \<Rightarrow> reconcile_each E claim cs rsw1)"

text \<open>Entries that are no longer wanted.\<close>

definition remove_unwanted ::
  "'w bot_env \<Rightarrow> jstr list \<Rightarrow> jstr \<Rightarrow> reconcile_report \<times> registry_state \<times> 'w
     \<Rightarrow> reconcile_report \<times> registry_state \<times> 'w" where
  "remove_unwanted E wanted b rsw =
     (let (rp, s, w) = rsw
      in case rg_entry s b of
           None \<Rightarrow> (rp, s, w)
         | Some e \<Rightarrow>
             if b \<in> set wanted then (rp, s, w)
             else (let (rp1, s1, w1) =
                         (if en_started e then (rp\<lparr>rp_stopped := rp_stopped rp @ [b]\<rparr>, snd (stop_bot E b (s, w)))
                          else (rp, s, w))
                   in (rp1\<lparr>rp_removed := rp_removed rp1 @ [b]\<rparr>,
                       s1\<lparr>rg_entries := jm_delete b (rg_entries s1)\<rparr>, w1)))"

fun remove_each ::
  "'w bot_env \<Rightarrow> jstr list \<Rightarrow> jstr list \<Rightarrow> reconcile_report \<times> registry_state \<times> 'w
     \<Rightarrow> reconcile_report \<times> registry_state \<times> 'w" where
  "remove_each E wanted [] rsw = rsw"
| "remove_each E wanted (b # bs) rsw = remove_each E wanted bs (remove_unwanted E wanted b rsw)"

definition reconcile ::
  "'w bot_env \<Rightarrow> (jstr \<Rightarrow> 'w \<Rightarrow> bool option \<times> 'w) option \<Rightarrow> bot_config list \<Rightarrow> registry_state \<times> 'w
     \<Rightarrow> reconcile_report option \<times> registry_state \<times> 'w" where
  "reconcile E claim desired sw =
     (case reconcile_each E claim desired (empty_report, sw) of
        (False, rp, sw1) \<Rightarrow> (None, sw1)
      | (True, rp, sw1) \<Rightarrow>
          (case remove_each E (map bc_id desired) (jm_keys (rg_entries (fst sw1))) (rp, sw1) of
             (rp2, sw2) \<Rightarrow> (Some rp2, sw2)))"

section \<open>Queries\<close>

definition get_adapter :: "registry_state \<Rightarrow> jstr \<Rightarrow> nat option" where
  "get_adapter s b = map_option en_adapter (rg_entry s b)"

definition bot_count :: "registry_state \<Rightarrow> nat" where
  "bot_count s = length (rg_entries s)"

definition entry_connected :: "'w bot_env \<Rightarrow> 'w \<Rightarrow> bot_entry \<Rightarrow> bool" where
  "entry_connected E w e \<longleftrightarrow> en_started e \<and> be_connected E w (en_adapter e)"

definition connected_count :: "'w bot_env \<Rightarrow> registry_state \<times> 'w \<Rightarrow> nat" where
  "connected_count E sw = length (filter (entry_connected E (snd sw) \<circ> snd) (rg_entries (fst sw)))"

datatype bot_health = Health_connected | Health_disconnected | Health_unknown

definition health :: "'w bot_env \<Rightarrow> registry_state \<times> 'w \<Rightarrow> (jstr \<times> bot_health) list" where
  "health E sw = map (\<lambda>(b, e). (b, if entry_connected E (snd sw) e then Health_connected else Health_disconnected))
     (rg_entries (fst sw))"

record bot_status =
  bs_id :: jstr
  bs_name :: jstr
  bs_enabled :: bool
  bs_started :: bool
  bs_health :: bot_health
  bs_ws_url :: jstr
  bs_bound_agent :: "jstr option"
  bs_error :: "jstr option"

definition list_bots :: "'w bot_env \<Rightarrow> registry_state \<times> 'w \<Rightarrow> bot_status list" where
  "list_bots E sw =
     map (\<lambda>(b, e). \<lparr>bs_id = b, bs_name = bc_name (en_config e), bs_enabled = bc_enabled (en_config e),
        bs_started = en_started e, bs_health = default_to Health_disconnected (map_of (health E sw) b),
        bs_ws_url = bc_ws_url (en_config e), bs_bound_agent = bc_bound_agent (en_config e), bs_error = en_error e\<rparr>)
      (rg_entries (fst sw))"

section \<open>Facts on entries\<close>

lemma rg_entry_put [simp]: "rg_entry (put_entry b e s) b' = (if b' = b then Some e else rg_entry s b')"
  by (simp add: rg_entry_def put_entry_def)

lemma rg_entry_frame [simp]:
  "rg_entry (s\<lparr>rg_prev := pv\<rparr>) b = rg_entry s b"
  "rg_entry (s\<lparr>rg_sessions := ss\<rparr>) b = rg_entry s b"
  "rg_entry (s\<lparr>rg_wired := wd\<rparr>) b = rg_entry s b"
  "rg_entry (drop_sessions_of b' s) b = rg_entry s b"
  by (simp_all add: rg_entry_def drop_sessions_of_def)

lemma rg_entry_delete [simp]:
  "rg_entry (s\<lparr>rg_entries := jm_delete b (rg_entries s)\<rparr>) b' = (if b' = b then None else rg_entry s b')"
  by (simp add: rg_entry_def)

lemma rg_entry_keys: "b \<in> set (jm_keys (rg_entries s)) \<longleftrightarrow> rg_entry s b \<noteq> None"
  by (simp add: rg_entry_def jm_get_def jm_keys_def map_of_eq_None_iff)

lemma acquire_bot_entries:
  assumes "acquire_bot E claim b (s, w) = (res, s', w')"
  shows "rg_entry s' b' = rg_entry s b' \<and> rg_wired s' = rg_wired s"
  using assms
  by (auto simp: acquire_bot_def observe_owner_def take_over_def Let_def
      split: option.splits prod.splits bool.splits if_splits)

section \<open>What convergence achieves\<close>

text \<open>A claim that answers by a fixed assignment of the bots.\<close>

definition answers :: "(jstr \<Rightarrow> 'w \<Rightarrow> bool option \<times> 'w) \<Rightarrow> (jstr \<Rightarrow> bool) \<Rightarrow> bool" where
  "answers f own \<longleftrightarrow> (\<forall>b w. fst (f b w) = Some (own b))"

lemma acquire_answers:
  assumes "answers f own" "acquire_bot E f b sw = (Some ok, sw')"
  shows "ok = own b"
proof -
  obtain s w where o': "observe_owner E b sw = (True, s, w)"
    using assms(2) by (auto simp: acquire_bot_def split: prod.splits bool.splits)
  obtain w2 where "f b w = (Some (own b), w2)"
    using assms(1) by (metis answers_def surjective_pairing)
  with o' assms(2) show ?thesis by (cases "own b") (auto simp: acquire_bot_def split: prod.splits bool.splits)
qed

text \<open>The state a wanted bot is left in.\<close>

definition converged :: "(jstr \<Rightarrow> bool) \<Rightarrow> bot_config \<Rightarrow> reconcile_report \<Rightarrow> bot_entry \<Rightarrow> bool" where
  "converged own c rp e \<longleftrightarrow> configs_equal (en_config e) c \<and> (en_started e \<longrightarrow> own (bc_id c))
     \<and> (own (bc_id c) \<and> \<not> en_started e \<longrightarrow> en_error e \<noteq> None \<and> bc_id c \<in> fst ` set (rp_errors rp))"

lemma configs_equal_refl [simp]: "configs_equal c c"
  by (simp add: configs_equal_def)

lemma start_reported_entry:
  assumes "start_reported E b e rp sw = (rp', s', w')" "\<not> en_started e"
  shows "\<exists>e'. rg_entry s' b = Some e' \<and> en_config e' = en_config e
      \<and> (\<not> en_started e' \<longrightarrow> en_error e' \<noteq> None \<and> b \<in> fst ` set (rp_errors rp'))
      \<and> (\<forall>b'. b' \<noteq> b \<longrightarrow> rg_entry s' b' = rg_entry (fst sw) b')
      \<and> set (rp_errors rp) \<subseteq> set (rp_errors rp')"
  using assms
  by (cases sw) (auto simp: start_reported_def start_entry_def Let_def
      split: if_splits option.splits prod.splits bool.splits)

lemma stop_bot_entry:
  "rg_entry (fst (snd (stop_bot E b sw))) b' =
     (if b' = b then map_option (\<lambda>e. e\<lparr>en_started := False\<rparr>) (rg_entry (fst sw) b) else rg_entry (fst sw) b')"
  by (cases sw) (auto simp: stop_bot_def Let_def split: option.splits)

lemma gate_entry_converged:
  assumes "gate_entry E (bc_id c) rp (own (bc_id c), sw) = (rp', s', w')"
    and "rg_entry (fst sw) (bc_id c) = Some e" "configs_equal (en_config e) c"
  shows "(\<exists>e'. rg_entry s' (bc_id c) = Some e' \<and> converged own c rp' e')
    \<and> (\<forall>b'. b' \<noteq> bc_id c \<longrightarrow> rg_entry s' b' = rg_entry (fst sw) b') \<and> set (rp_errors rp) \<subseteq> set (rp_errors rp')"
proof (cases "own (bc_id c) \<and> \<not> en_started e")
  case True
  with assms(1,2) have "start_reported E (bc_id c) e rp sw = (rp', s', w')"
    by (cases sw) (simp add: gate_entry_def)
  from start_reported_entry [OF this] True assms(3) show ?thesis by (auto simp: converged_def)
next
  case False
  show ?thesis
  proof (cases "own (bc_id c)")
    case True
    with False assms show ?thesis by (cases sw) (auto simp: gate_entry_def converged_def)
  next
    case lost: False
    have "s' = (if en_started e then fst (snd (stop_bot E (bc_id c) sw)) else fst sw)" "rp_errors rp' = rp_errors rp"
      using lost assms(1,2) by (cases sw, auto simp: gate_entry_def split: if_splits)+
    with lost assms(2,3) show ?thesis by (simp add: converged_def stop_bot_entry)
  qed
qed

lemma update_config_entry:
  assumes "update_config E c e rp sw = (rp', s', w')" "rg_entry (fst sw) (bc_id c) = Some e"
  shows "(\<exists>e'. rg_entry s' (bc_id c) = Some e' \<and> configs_equal (en_config e') c)
    \<and> (\<forall>b'. b' \<noteq> bc_id c \<longrightarrow> rg_entry s' b' = rg_entry (fst sw) b') \<and> rp_errors rp' = rp_errors rp"
  using assms
  by (cases sw) (auto simp: update_config_def restart_entry_def Let_def split: if_splits prod.splits)

lemma reconcile_one_converged:
  assumes "answers f own" "reconcile_one E (Some f) c (rp, s, w) = (True, rp', s', w')"
  shows "(\<exists>e'. rg_entry s' (bc_id c) = Some e' \<and> converged own c rp' e')
    \<and> (\<forall>b'. b' \<noteq> bc_id c \<longrightarrow> rg_entry s' b' = rg_entry s b') \<and> set (rp_errors rp) \<subseteq> set (rp_errors rp')"
proof -
  obtain rp1 s1 w1 e1 where up: "rg_entry s1 (bc_id c) = Some e1" "configs_equal (en_config e1) c"
      "\<forall>b'. b' \<noteq> bc_id c \<longrightarrow> rg_entry s1 b' = rg_entry s b'" "rp_errors rp1 = rp_errors rp"
    and gate: "gate_if_answered E (bc_id c) rp1 (acquire_bot E f (bc_id c) (s1, w1)) = (True, rp', s', w')"
  proof (cases "rg_entry s (bc_id c)")
    case None
    obtain a w1 where n: "be_new E c w = (a, w1)" by (cases "be_new E c w")
    have "rg_entry (put_entry (bc_id c) (new_entry c a) s) (bc_id c) = Some (new_entry c a)" by simp
    then show ?thesis
      by (rule that [of _ _ rp w1]) (use assms(2) None n in \<open>auto simp: reconcile_one_def acquire_for_def new_entry_def Let_def\<close>)
  next
    case (Some e)
    obtain rp1 s1 w1 where u: "update_config E c e rp (s, w) = (rp1, s1, w1)" by (rule prod_cases3)
    from update_config_entry [OF u] Some obtain e1 where "rg_entry s1 (bc_id c) = Some e1"
      "configs_equal (en_config e1) c" "\<forall>b'. b' \<noteq> bc_id c \<longrightarrow> rg_entry s1 b' = rg_entry s b'"
      "rp_errors rp1 = rp_errors rp" by auto
    then show ?thesis
      by (rule that [of s1 e1 rp1 w1]) (use assms(2) Some u in \<open>simp_all add: reconcile_one_def acquire_for_def Let_def\<close>)
  qed
  from gate obtain ok s2 w2 where acq: "acquire_bot E f (bc_id c) (s1, w1) = (Some ok, s2, w2)"
    and g: "gate_entry E (bc_id c) rp1 (ok, s2, w2) = (rp', s', w')"
    by (auto simp: gate_if_answered_def split: prod.splits option.splits)
  have "ok = own (bc_id c)" by (rule acquire_answers [OF assms(1) acq])
  moreover have "rg_entry s2 b' = rg_entry s1 b'" for b' using acquire_bot_entries [OF acq] by blast
  ultimately show ?thesis
    using gate_entry_converged [of E c rp1 own "(s2, w2)" rp' s' w' e1] g up by auto
qed

lemma converged_mono:
  "converged own c rp e \<Longrightarrow> set (rp_errors rp) \<subseteq> set (rp_errors rp') \<Longrightarrow> converged own c rp' e"
  by (auto simp: converged_def)

lemma reconcile_each_converged:
  assumes "answers f own" "distinct (map bc_id cs)" "reconcile_each E (Some f) cs (rp, s, w) = (True, rp', s', w')"
  shows "(\<forall>c \<in> set cs. \<exists>e. rg_entry s' (bc_id c) = Some e \<and> converged own c rp' e)
    \<and> (\<forall>b. b \<notin> set (map bc_id cs) \<longrightarrow> rg_entry s' b = rg_entry s b) \<and> set (rp_errors rp) \<subseteq> set (rp_errors rp')"
  using assms(2,3)
proof (induction cs arbitrary: rp s w)
  case Nil
  then show ?case by simp
next
  case (Cons c cs)
  obtain rp1 s1 w1 where 1: "reconcile_one E (Some f) c (rp, s, w) = (True, rp1, s1, w1)"
    and 2: "reconcile_each E (Some f) cs (rp1, s1, w1) = (True, rp', s', w')"
    using Cons.prems(2) by (auto split: prod.splits bool.splits)
  from Cons.prems(1) have d: "distinct (map bc_id cs)" "bc_id c \<notin> set (map bc_id cs)" by simp_all
  from reconcile_one_converged [OF assms(1) 1] Cons.IH [OF d(1) 2] d(2)
  show ?case by (auto intro: converged_mono)
qed

lemma remove_unwanted_entry:
  "rg_entry (fst (snd (remove_unwanted E wanted x rsw))) b =
     (if b = x \<and> x \<notin> set wanted then None else rg_entry (fst (snd rsw)) b)
   \<and> rp_errors (fst (remove_unwanted E wanted x rsw)) = rp_errors (fst rsw)"
  by (cases rsw rule: prod_cases3; cases "rg_entry (fst (snd rsw)) x")
    (auto simp: remove_unwanted_def split_beta Let_def stop_bot_entry)

lemma remove_each_entry:
  "rg_entry (fst (snd (remove_each E wanted bs rsw))) b =
     (if b \<in> set bs \<and> b \<notin> set wanted then None else rg_entry (fst (snd rsw)) b)
   \<and> rp_errors (fst (remove_each E wanted bs rsw)) = rp_errors (fst rsw)"
  by (induction bs arbitrary: rsw) (auto simp: remove_unwanted_entry)

lemma reconcile_converged:
  assumes "answers f own" "distinct (map bc_id desired)" "reconcile E (Some f) desired sw = (Some rp, s', w')"
  shows "(\<forall>c \<in> set desired. \<exists>e. rg_entry s' (bc_id c) = Some e \<and> converged own c rp e)
    \<and> (\<forall>b. rg_entry s' b \<noteq> None \<longleftrightarrow> b \<in> set (map bc_id desired))"
proof -
  obtain rp1 s1 w1 where each: "reconcile_each E (Some f) desired (empty_report, fst sw, snd sw) = (True, rp1, s1, w1)"
    and rem: "remove_each E (map bc_id desired) (jm_keys (rg_entries s1)) (rp1, s1, w1) = (rp, s', w')"
    using assms(3) by (auto simp: reconcile_def split: prod.splits bool.splits)
  note c = reconcile_each_converged [OF assms(1,2) each]
  have r: "rg_entry s' b = (if rg_entry s1 b \<noteq> None \<and> b \<notin> set (map bc_id desired) then None else rg_entry s1 b)"
    and er: "rp_errors rp = rp_errors rp1" for b
    using remove_each_entry [of E "map bc_id desired" "jm_keys (rg_entries s1)" "(rp1, s1, w1)" b] rem
    by (simp_all add: rg_entry_keys)
  have "\<forall>c \<in> set desired. \<exists>e. rg_entry s' (bc_id c) = Some e \<and> converged own c rp e"
    using c r er by (force simp: converged_def)
  moreover have "rg_entry s' b \<noteq> None \<longleftrightarrow> b \<in> set (map bc_id desired)" for b
    using c r [of b] by (auto split: if_splits)
  ultimately show ?thesis by blast
qed


text \<open>Bots of a small world: adapters are numbered; a start fails for the given bots.\<close>

definition toy_env :: "nat list \<Rightarrow> (nat \<times> nat list) bot_env" where
  "toy_env bad = \<lparr>be_new = (\<lambda>c (n, run). (n, Suc n, run)),
     be_start = (\<lambda>a (n, run). if a \<in> set bad then (Some (js ''refused''), n, run) else (None, n, a # run)),
     be_stop = (\<lambda>a (n, run). (n, remove1 a run)), be_connected = (\<lambda>(n, run) a. a \<in> set run),
     be_current_owner = (\<lambda>b w. (Some None, w)), be_set_prev = (\<lambda>b p w. (True, w)), be_drain = (\<lambda>g w. (True, w)),
     be_remember = (\<lambda>s b w. (True, w))\<rparr>"

definition demo_bot :: "string \<Rightarrow> bot_config" where
  "demo_bot i = \<lparr>bc_id = js i, bc_name = js i, bc_enabled = True, bc_ws_url = js ''wss://x'', bc_secret = js ''k'',
     bc_bound_agent = None, bc_connection = env_defaults 30 10000 (js ''wss://d'') (js ''src'') None\<rparr>"

definition demo_registry :: registry_state where
  "demo_registry = (new_bot_registry None)\<lparr>rg_wired := True\<rparr>"

lemmas reconcile_eval = reconcile_def gate_if_answered_def remove_unwanted_def reconcile_one_def acquire_for_def acquire_bot_def observe_owner_def
  take_over_def gate_entry_def start_reported_def start_entry_def new_entry_def demo_bot_def demo_registry_def
  new_bot_registry_def toy_env_def empty_report_def rg_entry_def put_entry_def jm_set_def jm_get_def jm_keys_def
  js_add_def Let_def


section \<open>A second convergence changes nothing\<close>

lemma acquire_bot_frame:
  assumes "acquire_bot E claim b sw = (res, s', w')"
  shows "rg_entries s' = rg_entries (fst sw) \<and> rg_sessions s' = rg_sessions (fst sw)"
  using assms
  by (cases sw) (auto simp: acquire_bot_def observe_owner_def take_over_def Let_def
      split: option.splits prod.splits bool.splits if_splits)

definition settled :: "(jstr \<Rightarrow> bool) \<Rightarrow> bot_config \<Rightarrow> registry_state \<Rightarrow> bool" where
  "settled own c s \<longleftrightarrow> (\<exists>e. rg_entry s (bc_id c) = Some e \<and> configs_equal (en_config e) c \<and> en_started e = own (bc_id c))"

lemma settled_frame: "rg_entries s' = rg_entries s \<Longrightarrow> settled own c s' = settled own c s"
  by (simp add: settled_def rg_entry_def)

lemma reconcile_one_settled:
  assumes "answers f own" "settled own c s" "reconcile_one E (Some f) c (rp, s, w) = (True, rp', s', w')"
  shows "rp' = rp \<and> rg_entries s' = rg_entries s \<and> rg_sessions s' = rg_sessions s"
proof -
  obtain e where e: "rg_entry s (bc_id c) = Some e" "configs_equal (en_config e) c" "en_started e = own (bc_id c)"
    using assms(2) by (auto simp: settled_def)
  with assms(3) obtain ok s2 w2 where acq: "acquire_bot E f (bc_id c) (s, w) = (Some ok, s2, w2)"
    and g: "gate_entry E (bc_id c) rp (ok, s2, w2) = (rp', s', w')"
    by (auto simp: reconcile_one_def update_config_def acquire_for_def gate_if_answered_def Let_def split: prod.splits option.splits)
  have "ok = own (bc_id c)" by (rule acquire_answers [OF assms(1) acq])
  moreover have "rg_entry s2 (bc_id c) = Some e"
    using acquire_bot_frame [OF acq] e(1) by (simp add: rg_entry_def)
  ultimately have "rp' = rp" "s' = s2" using g e(3) by (auto simp: gate_entry_def split: if_splits)
  with acquire_bot_frame [OF acq] show ?thesis by simp
qed

lemma reconcile_each_settled:
  assumes "answers f own" "\<forall>c \<in> set cs. settled own c s" "reconcile_each E (Some f) cs (rp, s, w) = (True, rp', s', w')"
  shows "rp' = rp \<and> rg_entries s' = rg_entries s \<and> rg_sessions s' = rg_sessions s"
  using assms(2,3)
proof (induction cs arbitrary: rp s w)
  case Nil
  then show ?case by simp
next
  case (Cons c cs)
  obtain rp1 s1 w1 where 1: "reconcile_one E (Some f) c (rp, s, w) = (True, rp1, s1, w1)"
    and 2: "reconcile_each E (Some f) cs (rp1, s1, w1) = (True, rp', s', w')"
    using Cons.prems(2) by (auto split: prod.splits bool.splits)
  have f: "rp1 = rp \<and> rg_entries s1 = rg_entries s \<and> rg_sessions s1 = rg_sessions s"
    using reconcile_one_settled [OF assms(1) _ 1] Cons.prems(1) by simp
  then have "\<forall>c \<in> set cs. settled own c s1" using Cons.prems(1) settled_frame [of s1 s] by simp
  from Cons.IH [OF this 2] f show ?case by simp
qed

lemma remove_unwanted_wanted:
  "b \<in> set wanted \<or> rg_entry (fst (snd rsw)) b = None \<Longrightarrow> remove_unwanted E wanted b rsw = rsw"
  by (cases rsw rule: prod_cases3) (auto simp: remove_unwanted_def split: option.splits)

lemma remove_each_wanted:
  "\<forall>b \<in> set bs. b \<in> set wanted \<Longrightarrow> remove_each E wanted bs rsw = rsw"
  by (induction bs) (simp_all add: remove_unwanted_wanted)

lemma reconcile_settled:
  assumes "answers f own" "\<forall>c \<in> set desired. settled own c s"
    and "\<forall>b. rg_entry s b \<noteq> None \<longrightarrow> b \<in> set (map bc_id desired)"
    and "reconcile E (Some f) desired (s, w) = (Some rp, s', w')"
  shows "rp = empty_report \<and> rg_entries s' = rg_entries s \<and> rg_sessions s' = rg_sessions s"
proof -
  obtain rp1 s1 w1 where each: "reconcile_each E (Some f) desired (empty_report, s, w) = (True, rp1, s1, w1)"
    and rem: "remove_each E (map bc_id desired) (jm_keys (rg_entries s1)) (rp1, s1, w1) = (rp, s', w')"
    using assms(4) by (auto simp: reconcile_def split: prod.splits bool.splits)
  note f = reconcile_each_settled [OF assms(1,2) each]
  have "\<forall>b \<in> set (jm_keys (rg_entries s1)). b \<in> set (map bc_id desired)"
    using assms(3) f rg_entry_keys [of _ s] by auto
  from remove_each_wanted [OF this, of E "(rp1, s1, w1)"] rem f show ?thesis by simp
qed

text \<open>
  Convergence is idempotent: after a convergence that reported no error, a second one to the
  same list, with the leases unchanged, reports nothing and leaves every entry and every
  session owner as it was; in particular no running bot is restarted.
\<close>

theorem reconcile_idempotent:
  assumes "answers f own" "distinct (map bc_id desired)" "reconcile E (Some f) desired sw = (Some rp, s', w')"
    and "rp_errors rp = []" "reconcile E (Some f) desired (s', w') = (Some rp2, s2, w2)"
  shows "rp2 = empty_report \<and> rg_entries s2 = rg_entries s' \<and> rg_sessions s2 = rg_sessions s'"
proof (rule reconcile_settled [OF assms(1) _ _ assms(5)])
  note c = reconcile_converged [OF assms(1-3)]
  show "\<forall>c \<in> set desired. settled own c s'" using c assms(4) by (fastforce simp: settled_def converged_def)
  show "\<forall>b. rg_entry s' b \<noteq> None \<longrightarrow> b \<in> set (map bc_id desired)" using c by blast
qed

theorem reconcile_idempotent_witness:
  "\<exists>rp s' w' rp2 s2 w2. reconcile (toy_env []) (Some (\<lambda>b w. (Some (b = js ''b1''), w))) [demo_bot ''b1'', demo_bot ''b2'']
       (demo_registry, 0, []) = (Some rp, s', w')
     \<and> reconcile (toy_env []) (Some (\<lambda>b w. (Some (b = js ''b1''), w))) [demo_bot ''b1'', demo_bot ''b2''] (s', w')
         = (Some rp2, s2, w2) \<and> rp2 = empty_report"
proof -
  let ?f = "\<lambda>b w. (Some (b = js ''b1''), w)"
  obtain rp s' w' rp2 s2 w2 where r: "reconcile (toy_env []) (Some ?f) [demo_bot ''b1'', demo_bot ''b2''] (demo_registry, 0, [])
      = (Some rp, s', w')" "rp_errors rp = []"
    and r2: "reconcile (toy_env []) (Some ?f) [demo_bot ''b1'', demo_bot ''b2''] (s', w') = (Some rp2, s2, w2)"
    by (simp add: reconcile_eval update_config_def)
  have "answers ?f (\<lambda>b. b = js ''b1'')" by (simp add: answers_def)
  from reconcile_idempotent [OF this _ r r2] r r2 show ?thesis
    by (auto simp: demo_bot_def)
qed

section \<open>The table of sessions\<close>

lemma remember_bounded:
  "jm_inv (rg_sessions s) \<Longrightarrow> sid \<noteq> [] \<Longrightarrow> remember_session_owner sid b s =
     s\<lparr>rg_sessions := js_map.put_bounded (rg_max_sessions s) sid b (rg_sessions s)\<rparr>"
  using js_map.get_None [of "rg_sessions s" sid]
  by (simp add: remember_session_owner_def js_map.put_bounded_def jm_has_def Let_def jm_keys_def)

primrec remember_each :: "(jstr \<times> jstr) list \<Rightarrow> registry_state \<Rightarrow> registry_state" where
  "remember_each [] s = s"
| "remember_each (e # es) s = remember_each es (remember_session_owner (fst e) (snd e) s)"

lemma remember_each_bounded:
  "jm_inv (rg_sessions s) \<Longrightarrow> \<forall>x \<in> set es. fst x \<noteq> [] \<Longrightarrow> remember_each es s =
     s\<lparr>rg_sessions := js_map.put_all_bounded (rg_max_sessions s) es (rg_sessions s)\<rparr>"
  by (induction es arbitrary: s) (simp_all add: remember_bounded js_map.inv_put_bounded)

text \<open>
  The table of session owners never outgrows its capacity, and a session seen for the first
  time keeps its bot, and so exactly one target while the bot runs, until at least as many
  other sessions have been recorded as the table holds.
\<close>

theorem session_survives_below_capacity:
  assumes "jm_inv (rg_sessions s)" "length (rg_sessions s) \<le> rg_max_sessions s"
    and "jm_get (rg_sessions s) sid = None" "sid \<noteq> []" "\<forall>x \<in> set es. fst x \<noteq> []" "sid \<notin> fst ` set es"
    and "length es < rg_max_sessions s" "rg_entry s b = Some e" "en_started e"
  shows "resolve_targets sid (remember_each es (remember_session_owner sid b s)) = [en_adapter e]
    \<and> length (rg_sessions (remember_each es (remember_session_owner sid b s))) \<le> rg_max_sessions s"
proof -
  let ?cap = "rg_max_sessions s" and ?m = "rg_sessions s"
  let ?m1 = "js_map.put_bounded ?cap sid b ?m"
  have inv: "jm_inv ?m1" using assms(1) by (rule js_map.inv_put_bounded)
  have r: "remember_each es (remember_session_owner sid b s) =
      s\<lparr>rg_sessions := js_map.put_all_bounded ?cap es ?m1\<rparr>"
    using inv assms(1,4,5) by (simp add: remember_bounded remember_each_bounded)
  have "sid \<notin> set (jm_keys ?m)" using js_map.get_None [OF assms(1)] assms(3) by blast
  then obtain pre where k: "jm_keys ?m1 = pre @ sid # []"
    using js_map.keys_put_bounded [OF assms(1), of ?cap sid b] by (auto split: if_splits)
  have "jm_get (js_map.put_all_bounded ?cap es ?m1) sid = Some b"
    using js_map.put_all_bounded_keeps [OF inv k _ assms(6), of ?cap] assms(7)
    by (simp add: js_map.get_put_bounded [OF assms(1)])
  moreover have "length (js_map.put_all_bounded ?cap es ?m1) \<le> ?cap"
    using js_map.put_all_bounded_length [OF inv] js_map.length_put_bounded [OF assms(1), of ?cap sid b] assms(2,7)
    by (simp add: jm_keys_def)
  ultimately show ?thesis using assms(8,9) by (simp add: r resolve_targets_def)
qed

theorem session_survives_below_capacity_witness:
  "\<exists>s. resolve_targets (js ''s1'') (remember_each [(js ''s2'', js ''b2'')] (remember_session_owner (js ''s1'') (js ''b1'') s)) = [7]"
proof -
  let ?s = "put_entry (js ''b1'') \<lparr>en_config = demo_bot ''b1'', en_adapter = 7, en_started = True, en_error = None\<rparr>
      ((new_bot_registry (Some 2))\<lparr>rg_wired := True\<rparr>)"
  have "resolve_targets (js ''s1'') (remember_each [(js ''s2'', js ''b2'')] (remember_session_owner (js ''s1'') (js ''b1'') ?s))
      = [en_adapter \<lparr>en_config = demo_bot ''b1'', en_adapter = 7, en_started = True, en_error = None\<rparr>]"
    by (rule session_survives_below_capacity [THEN conjunct1]) (simp_all add: new_bot_registry_def put_entry_def rg_entry_def)
  then show ?thesis by (intro exI [of _ ?s]) simp
qed

section \<open>A registry over real connections\<close>

text \<open>
  The adapters of this world are the connections of \<open>Wecom_Client\<close>: adapter \<open>a\<close> is the \<open>a\<close>-th
  client. \<open>up\<close> says which of them the server accepts; a refused one sees its socket closed.
  \<open>WecomBotAdapter.start\<close> connects and then registers its callback, \<open>stop\<close> disconnects.
\<close>

definition bot_client :: "bot_config \<Rightarrow> client" where
  "bot_client c = (let d = bc_connection c in new_client \<lparr>wf_bot_id = bc_id c, wf_secret = bc_secret c,
     wf_ws_url = bc_ws_url c, wf_heartbeat_sec = cd_heartbeat_sec d, wf_timeout_count = cd_timeout_count d,
     wf_max_attempts = cd_max_attempts d, wf_initial_delay = cd_initial_delay d, wf_max_delay = cd_max_delay d,
     wf_multiplier = cd_multiplier d, wf_subscribe_timeout = cd_subscribe_timeout d\<rparr>)"

definition accepted_start :: "client \<Rightarrow> client" where
  "accepted_start c = on_message (next_job (resolve_pending (wc_next_req c) True (on_open (wc_next c) (snd (connect False c)))))"

definition refused_start :: "client \<Rightarrow> client" where
  "refused_start c = on_close (wc_next c) (snd (connect False c))"

definition fleet_env :: "(nat \<Rightarrow> bool) \<Rightarrow> client list bot_env" where
  "fleet_env up = \<lparr>be_new = (\<lambda>c w. (length w, w @ [bot_client c])),
     be_start = (\<lambda>a w. if up a then (None, w[a := accepted_start (w ! a)])
                       else (Some (js ''WebSocket closed during connect''), w[a := refused_start (w ! a)])),
     be_stop = (\<lambda>a w. w[a := disconnect (w ! a)]), be_connected = (\<lambda>w a. is_connected (w ! a)),
     be_current_owner = (\<lambda>b w. (Some None, w)), be_set_prev = (\<lambda>b p w. (True, w)), be_drain = (\<lambda>g w. (True, w)),
     be_remember = (\<lambda>s b w. (True, w))\<rparr>"

lemma refused_start_state:
  assumes "c = bot_client cfg" "bc_id cfg \<noteq> []" "bc_secret cfg \<noteq> []" "0 < cd_max_attempts (bc_connection cfg)"
  shows "wc_should_run (refused_start c) \<and> wc_reconnect (refused_start c) \<noteq> None
    \<and> wc_state (reconnect_fires (refused_start c)) = Connecting"
  using assms(2-4) unfolding assms(1)
  by (simp add: refused_start_def bot_client_def client_defs Let_def)

lemma accepted_start_state:
  assumes "\<not> is_connected c" "wc_jobs c = []" "wc_pending c = []"
    and "wf_bot_id (wc_config c) \<noteq> []" "wf_secret (wc_config c) \<noteq> []"
  shows "is_connected (accepted_start c) \<and> wc_callbacks (accepted_start c) = Suc (wc_callbacks c)
    \<and> wc_pending (accepted_start c) = [] \<and> wc_jobs (accepted_start c) = []
    \<and> wc_config (accepted_start c) = wc_config c"
proof -
  let ?o = "on_open (wc_next c) (snd (connect False c))"
  have o': "wc_pending ?o = [(wc_next_req c, For_subscribe (wc_next c))]" "wc_jobs ?o = []"
    "wc_config ?o = wc_config c" "wc_callbacks ?o = wc_callbacks c" "wc_next_req ?o = Suc (wc_next_req c)"
    using assms
    by (simp_all add: connect_def on_open_def subscribe_def socket_usable_def await_response_def jm_set_def Let_def)
  have r: "resolve_pending (wc_next_req c) True ?o = ?o\<lparr>wc_pending := [], wc_jobs := [Sub_ok (wc_next c)]\<rparr>"
    using o' by (simp add: resolve_pending_def jm_get_def jm_delete_def)
  show ?thesis
    unfolding accepted_start_def r using o'
    by (simp add: next_job_def start_heartbeat_def stop_heartbeat_def settle_def on_message_def is_connected_def
        split: option.splits)
qed

text \<open>
  A bot that is removed after its start failed keeps connecting: its entry leaves the
  registry without its adapter being stopped, so the client still means to run, its reconnect
  timer is armed, and when it fires the client connects with the removed bot's credentials.
\<close>

theorem removed_bot_keeps_reconnecting:
  assumes "bc_id c \<noteq> []" "bc_secret c \<noteq> []" "0 < cd_max_attempts (bc_connection c)"
  shows "\<exists>rp s w rp' s' cl.
      reconcile (fleet_env (\<lambda>_. False)) None [c] ((new_bot_registry None)\<lparr>rg_wired := True\<rparr>, []) = (Some rp, s, w)
    \<and> reconcile (fleet_env (\<lambda>_. False)) None [] (s, w) = (Some rp', s', [cl])
    \<and> rg_entries s' = [] \<and> rp_removed rp' = [bc_id c] \<and> rp_stopped rp' = []
    \<and> wc_should_run cl \<and> wc_reconnect cl \<noteq> None \<and> wc_state (reconnect_fires cl) = Connecting"
proof -
  have "\<exists>rp s w rp' s'.
      reconcile (fleet_env (\<lambda>_. False)) None [c] ((new_bot_registry None)\<lparr>rg_wired := True\<rparr>, []) = (Some rp, s, w)
    \<and> reconcile (fleet_env (\<lambda>_. False)) None [] (s, w) = (Some rp', s', [refused_start (bot_client c)])
    \<and> rg_entries s' = [] \<and> rp_removed rp' = [bc_id c] \<and> rp_stopped rp' = []"
    by (simp add: reconcile_eval fleet_env_def jm_delete_def)
  with refused_start_state [OF refl assms] show ?thesis by blast
qed

theorem removed_bot_keeps_reconnecting_witness:
  "\<exists>rp s w rp' s' cl.
      reconcile (fleet_env (\<lambda>_. False)) None [demo_bot ''b1''] ((new_bot_registry None)\<lparr>rg_wired := True\<rparr>, []) = (Some rp, s, w)
    \<and> reconcile (fleet_env (\<lambda>_. False)) None [] (s, w) = (Some rp', s', [cl]) \<and> wc_should_run cl"
  using removed_bot_keeps_reconnecting [of "demo_bot ''b1''"] by (simp add: demo_bot_def env_defaults_def) blast

lemma disconnect_state:
  assumes "wc_jobs c = []" "wc_pending c = []"
  shows "\<not> is_connected (disconnect c) \<and> wc_jobs (disconnect c) = [] \<and> wc_pending (disconnect c) = []
    \<and> wc_callbacks (disconnect c) = wc_callbacks c \<and> wc_config (disconnect c) = wc_config c"
  using assms
  by (auto simp: disconnect_def reject_all_pending_def drop_socket_def is_connected_def Let_def split: option.splits)

lemma restarted_client:
  assumes "bc_id c \<noteq> []" "bc_secret c \<noteq> []"
  shows "is_connected (accepted_start (disconnect (accepted_start (bot_client c))))
    \<and> wc_callbacks (accepted_start (disconnect (accepted_start (bot_client c)))) = 2"
proof -
  let ?b = "bot_client c"
  have b: "\<not> is_connected ?b" "wc_jobs ?b = []" "wc_pending ?b = []" "wc_callbacks ?b = 0"
    "wf_bot_id (wc_config ?b) \<noteq> []" "wf_secret (wc_config ?b) \<noteq> []"
    using assms by (simp_all add: bot_client_def new_client_def is_connected_def Let_def)
  note s = accepted_start_state [of ?b]
  note d = disconnect_state [of "accepted_start ?b"]
  show ?thesis using b s d accepted_start_state [of "disconnect (accepted_start ?b)"] by simp
qed

text \<open>A claim that succeeds, or fails, for every bot.\<close>

definition lease :: "bool \<Rightarrow> jstr \<Rightarrow> client list \<Rightarrow> bool option \<times> client list" where
  "lease yes b w = (Some yes, w)"

text \<open>
  A gateway that loses the lease of a bot and gains it again handles every message of the
  bot twice: the adapter is started again with its old connection object, whose list of
  callbacks still holds the callback of the first start.
\<close>

theorem regained_bot_is_handled_twice:
  assumes "bc_id c \<noteq> []" "bc_secret c \<noteq> []"
    and "classify_frame (\<lambda>r. False) raw = Callback m"
  shows "\<exists>rp1 s1 w1 rp2 s2 w2 rp3 s3 cl.
      reconcile (fleet_env (\<lambda>_. True)) (Some (lease True)) [c] ((new_bot_registry None)\<lparr>rg_wired := True\<rparr>, []) = (Some rp1, s1, w1)
    \<and> reconcile (fleet_env (\<lambda>_. True)) (Some (lease False)) [c] (s1, w1) = (Some rp2, s2, w2)
    \<and> reconcile (fleet_env (\<lambda>_. True)) (Some (lease True)) [c] (s2, w2) = (Some rp3, s3, [cl])
    \<and> rp_started rp1 = [bc_id c] \<and> rp_stopped rp2 = [bc_id c] \<and> rp_started rp3 = [bc_id c]
    \<and> is_connected cl \<and> fst (handle_message (\<lambda>r. None) number raw cl) = [m, m]"
proof -
  have "\<exists>rp1 s1 w1 rp2 s2 w2 rp3 s3.
      reconcile (fleet_env (\<lambda>_. True)) (Some (lease True)) [c] ((new_bot_registry None)\<lparr>rg_wired := True\<rparr>, []) = (Some rp1, s1, w1)
    \<and> reconcile (fleet_env (\<lambda>_. True)) (Some (lease False)) [c] (s1, w1) = (Some rp2, s2, w2)
    \<and> reconcile (fleet_env (\<lambda>_. True)) (Some (lease True)) [c] (s2, w2)
        = (Some rp3, s3, [accepted_start (disconnect (accepted_start (bot_client c)))])
    \<and> rp_started rp1 = [bc_id c] \<and> rp_stopped rp2 = [bc_id c] \<and> rp_started rp3 = [bc_id c]"
    by (simp add: reconcile_eval fleet_env_def lease_def update_config_def stop_bot_def drop_sessions_of_def)
  moreover have "fst (handle_message (\<lambda>r. None) number raw cl) = replicate (wc_callbacks cl) m" for cl
    using assms(3) by (simp add: handle_message_def Let_def)
  ultimately show ?thesis using restarted_client [OF assms(1,2)] by (auto simp: numeral_2_eq_2)
qed

definition demo_frame :: jobj where
  "demo_frame = frame ''aibot_msg_callback'' (js ''r1'') [jp ''msgtype'' (JStr (js ''text''))]"

theorem regained_bot_is_handled_twice_witness:
  "\<exists>rp1 s1 w1 rp2 s2 w2 rp3 s3 cl m.
      reconcile (fleet_env (\<lambda>_. True)) (Some (lease True)) [demo_bot ''b1''] ((new_bot_registry None)\<lparr>rg_wired := True\<rparr>, []) = (Some rp1, s1, w1)
    \<and> reconcile (fleet_env (\<lambda>_. True)) (Some (lease False)) [demo_bot ''b1''] (s1, w1) = (Some rp2, s2, w2)
    \<and> reconcile (fleet_env (\<lambda>_. True)) (Some (lease True)) [demo_bot ''b1''] (s2, w2) = (Some rp3, s3, [cl])
    \<and> fst (handle_message (\<lambda>r. None) (\<lambda>v. None) demo_frame cl) = [m, m]"
proof -
  have "classify_frame (\<lambda>r. False) demo_frame = Callback (parse_callback demo_frame (js ''aibot_msg_callback'') (Some (js ''r1'')))"
    by (simp add: classify_frame_def demo_frame_def frame_def field_of_def str_at_def Let_def)
  from regained_bot_is_handled_twice [OF _ _ this, of "demo_bot ''b1''" "\<lambda>v. None"] show ?thesis
    by (simp add: demo_bot_def) blast
qed

end
