(* ===== verification/Gateway.thy ===== *)
theory Gateway
  imports Bot_Registry
begin

text \<open>
  The bots of one gateway as gateway/src/index.ts puts them together: the registry, whose
  claims go to the lease coordinator, the polling callback that converges the registry, the
  heartbeat whose lost leases stop bots, and the shutdown. The world of the registry is the
  coordinator, the Redis server, and the adapters with their connections.
\<close>

section \<open>The registry on the coordinator\<close>

type_synonym ('r, 'a) gw_world = "ownership \<times> 'r \<times> 'a"

text \<open>
  \<open>A\<close> gives the adapters and the draining of an old stream; reading and recording owners and the
  session's bot go to the coordinator's server \<open>R\<close>, whose keys begin with \<open>p\<close>.
\<close>

definition gateway_env :: "'r kv_ops \<Rightarrow> jstr \<Rightarrow> 'a bot_env \<Rightarrow> ('r, 'a) gw_world bot_env" where
  "gateway_env R p A =
     \<lparr>be_new = (\<lambda>c (ow, r, a). case be_new A c a of (i, a1) \<Rightarrow> (i, ow, r, a1)),
      be_start = (\<lambda>i (ow, r, a). case be_start A i a of (e, a1) \<Rightarrow> (e, ow, r, a1)),
      be_stop = (\<lambda>i (ow, r, a). (ow, r, be_stop A i a)),
      be_connected = (\<lambda>(ow, r, a) i. be_connected A a i),
      be_current_owner = (\<lambda>b (ow, r, a).
        (if kv_down R r (bot_owner_key p b) then None else Some (ow_current_owner R p b r), ow, r, a)),
      be_set_prev = (\<lambda>b g (ow, r, a).
        if kv_down R r (bot_prev_owner_key p b) then (False, ow, r, a)
        else (True, ow, ow_set_prev_owner R p b g r, a)),
      be_drain = (\<lambda>g (ow, r, a). case be_drain A g a of (ok, a1) \<Rightarrow> (ok, ow, r, a1)),
      be_remember = (\<lambda>sid b (ow, r, a).
        if kv_down R r (session_bot_key p sid) then (False, ow, r, a)
        else (True, ow, kv_set_px R (session_bot_key p sid) b (86400 * 1000) r, a))\<rparr>"

text \<open>\<open>(botId) => ownership.claim(botId)\<close>.\<close>

definition claim_lease :: "'r kv_ops \<Rightarrow> jstr \<Rightarrow> jstr \<Rightarrow> ('r, 'a) gw_world \<Rightarrow> bool option \<times> ('r, 'a) gw_world" where
  "claim_lease R p b w =
     (case w of (ow, r, a) \<Rightarrow>
       (case ow_claim R p ow b r of
          None \<Rightarrow> (None, ow, r, a)
        | Some (ok, ow1, r1) \<Rightarrow> (Some ok, ow1, r1, a)))"

section \<open>What the gateway does\<close>

type_synonym ('r, 'a) gw_state = "registry_state \<times> ('r, 'a) gw_world"

text \<open>Up to the start of the bots: the coordinator with its heartbeat, and the registered bots.\<close>

definition gw_boot :: "'r kv_ops \<Rightarrow> jstr \<Rightarrow> 'a bot_env \<Rightarrow> jstr \<Rightarrow> bot_config list \<Rightarrow> 'r \<Rightarrow> 'a \<Rightarrow> ('r, 'a) gw_state" where
  "gw_boot R p A g cs r a =
     register_bots (gateway_env R p A) cs
       (bind_redis (bind_cluster g True (new_bot_registry None)), ow_start_heartbeat True (new_ownership g None None), r, a)"

definition gw_start :: "'r kv_ops \<Rightarrow> jstr \<Rightarrow> 'a bot_env \<Rightarrow> ('r, 'a) gw_state \<Rightarrow> ('r, 'a) gw_state" where
  "gw_start R p A st = snd (start_owned_bots (gateway_env R p A) (claim_lease R p) st)"

text \<open>The callback of a polling round; a failed pull leaves everything as it is.\<close>

definition gw_poll :: "'r kv_ops \<Rightarrow> jstr \<Rightarrow> 'a bot_env \<Rightarrow> bot_config list option \<Rightarrow> ('r, 'a) gw_state \<Rightarrow> ('r, 'a) gw_state" where
  "gw_poll R p A pulled st =
     (case pulled of
        None \<Rightarrow> st
      | Some cs \<Rightarrow> snd (reconcile (gateway_env R p A) (Some (claim_lease R p)) cs st))"

text \<open>
  A heartbeat. The callbacks of the lost leases come after the renewals here; they touch the
  registry and the adapters only, the renewals the coordinator and the server only.
\<close>

primrec stop_lost :: "'w bot_env \<Rightarrow> jstr list \<Rightarrow> registry_state \<times> 'w \<Rightarrow> registry_state \<times> 'w" where
  "stop_lost E [] sw = sw"
| "stop_lost E (b # bs) sw = stop_lost E bs (snd (stop_bot E b sw))"

definition gw_heartbeat :: "'r kv_ops \<Rightarrow> jstr \<Rightarrow> 'a bot_env \<Rightarrow> ('r, 'a) gw_state \<Rightarrow> ('r, 'a) gw_state" where
  "gw_heartbeat R p A st =
     (case st of (s, ow, r, a) \<Rightarrow>
       (case ow_heartbeat_tick R p ow r of
          (lost, ow1, r1) \<Rightarrow> stop_lost (gateway_env R p A) lost (s, ow1, r1, a)))"

text \<open>The two halves of the shutdown: the leases are released, then the adapters are stopped.\<close>

definition gw_release :: "'r kv_ops \<Rightarrow> jstr \<Rightarrow> ('r, 'a) gw_state \<Rightarrow> ('r, 'a) gw_state option" where
  "gw_release R p st =
     (case st of (s, ow, r, a) \<Rightarrow>
       map_option (\<lambda>(ow1, r1). (s, ow1, r1, a)) (ow_release_all R p (ow_stop_heartbeat ow) r))"

definition gw_shutdown :: "'r kv_ops \<Rightarrow> jstr \<Rightarrow> 'a bot_env \<Rightarrow> ('r, 'a) gw_state \<Rightarrow> ('r, 'a) gw_state option" where
  "gw_shutdown R p A st = map_option (stop_all (gateway_env R p A)) (gw_release R p st)"

text \<open>
  The life of gateway \<open>g\<close> from its boot on; in between anything may happen at the server.
\<close>

inductive gw_run :: "'r kv_ops \<Rightarrow> jstr \<Rightarrow> 'a bot_env \<Rightarrow> jstr \<Rightarrow> ('r, 'a) gw_state \<Rightarrow> bool"
  for R :: "'r kv_ops" and p :: jstr and A :: "'a bot_env" and g :: jstr where
  boot: "gw_run R p A g (gw_boot R p A g cs r a)"
| start: "gw_run R p A g st \<Longrightarrow> gw_run R p A g (gw_start R p A st)"
| poll: "gw_run R p A g st \<Longrightarrow> gw_run R p A g (gw_poll R p A pulled st)"
| beat: "gw_run R p A g st \<Longrightarrow> gw_run R p A g (gw_heartbeat R p A st)"
| server: "gw_run R p A g (s, ow, r, a) \<Longrightarrow> gw_run R p A g (s, ow, r', a)"
| adapters: "gw_run R p A g (s, ow, r, a) \<Longrightarrow> gw_run R p A g (s, ow, r, a')"

definition runs :: "registry_state \<Rightarrow> jstr \<Rightarrow> bool" where
  "runs s b \<longleftrightarrow> (\<exists>e. rg_entry s b = Some e \<and> en_started e)"

section \<open>Running bots are tracked\<close>

definition coordinator_ok :: "jstr \<Rightarrow> ownership \<Rightarrow> bool" where
  "coordinator_ok g ow \<longleftrightarrow> ow_gateway ow = g \<and> 0 < ow_lease_ttl ow \<and> ow_on_lost ow \<and> distinct (ow_owned ow)"

definition tracked :: "jstr \<Rightarrow> ('r, 'a) gw_state \<Rightarrow> bool" where
  "tracked g st \<longleftrightarrow> coordinator_ok g (fst (snd st)) \<and> (\<forall>b. runs (fst st) b \<longrightarrow> b \<in> set (ow_owned (fst (snd st))))"

lemma runs_put: "runs (put_entry b e s) b' \<longleftrightarrow> (if b' = b then en_started e else runs s b')"
  by (simp add: runs_def)

lemma runs_entries: "rg_entries s' = rg_entries s \<Longrightarrow> runs s' = runs s"
  by (simp add: runs_def rg_entry_def fun_eq_iff)

lemma runs_frame [simp]:
  "runs (s\<lparr>rg_prev := pv\<rparr>) = runs s" "runs (s\<lparr>rg_wired := wd\<rparr>) = runs s" "runs (drop_sessions_of b s) = runs s"
  by (simp_all add: runs_def fun_eq_iff)

lemma env_keeps:
  "be_new (gateway_env R p A) c (ow, r, a) = (i, w') \<Longrightarrow> fst w' = ow"
  "be_start (gateway_env R p A) i (ow, r, a) = (e, w') \<Longrightarrow> fst w' = ow"
  "be_stop (gateway_env R p A) i (ow, r, a) = w' \<Longrightarrow> fst w' = ow"
  "be_current_owner (gateway_env R p A) b (ow, r, a) = (x, w') \<Longrightarrow> fst w' = ow"
  "be_set_prev (gateway_env R p A) b g (ow, r, a) = (ok, w') \<Longrightarrow> fst w' = ow"
  "be_drain (gateway_env R p A) g (ow, r, a) = (ok, w') \<Longrightarrow> fst w' = ow"
  by (auto simp: gateway_env_def split: prod.splits if_splits)

lemma env_new: "be_new (gateway_env R p A) c w = (i, w') \<Longrightarrow> fst w' = fst w"
  by (cases w) (auto dest: env_keeps(1))

lemma env_keeps_fst [simp]:
  "fst (be_stop (gateway_env R p A) i w) = fst w" "fst (snd (be_drain (gateway_env R p A) g w)) = fst w"
  by (cases w, simp add: gateway_env_def split: prod.splits)+

lemma stop_bot_runs:
  "runs (fst (snd (stop_bot E b sw))) b' \<longleftrightarrow> b' \<noteq> b \<and> runs (fst sw) b'"
  using stop_bot_entry [of E b sw b'] by (auto simp: runs_def)

lemma stop_bot_own: "fst (snd (snd (stop_bot (gateway_env R p A) b sw))) = fst (snd sw)"
  by (cases sw) (auto simp: stop_bot_def split: option.splits)

lemma start_entry_tracked:
  assumes "tracked g sw" "b \<in> set (ow_owned (fst (snd sw)))"
  shows "tracked g (snd (start_entry (gateway_env R p A) b e sw))"
proof -
  obtain s ow r a where sw: "sw = (s, ow, r, a)" by (cases sw)
  obtain x w1 where st: "be_start (gateway_env R p A) (en_adapter e) (ow, r, a) = (x, w1)"
    by (cases "be_start (gateway_env R p A) (en_adapter e) (ow, r, a)")
  from env_keeps(2) [OF this] st assms show ?thesis
    by (cases x) (auto simp: sw start_entry_def tracked_def runs_put split: if_splits)
qed

lemma claim_lease_own:
  assumes "coordinator_ok g (fst w)" "claim_lease R p b w = (x, w')"
  shows "coordinator_ok g (fst w') \<and> set (ow_owned (fst w')) =
    (case x of None \<Rightarrow> set (ow_owned (fst w)) | Some True \<Rightarrow> insert b (set (ow_owned (fst w)))
       | Some False \<Rightarrow> set (ow_owned (fst w)) - {b})"
  using assms
  by (cases w) (auto simp: claim_lease_def ow_claim_def coordinator_ok_def Let_def
      split: if_splits option.splits prod.splits bool.splits)

lemma observe_own: "observe_owner (gateway_env R p A) b (s, w) = (k, s', w') \<Longrightarrow> fst w' = fst w"
  by (cases w) (auto simp: observe_owner_def dest!: env_keeps(4) split: option.splits prod.splits)

lemma take_over_own: "take_over (gateway_env R p A) b (s, w) = (k, s', w') \<Longrightarrow> fst w' = fst w"
  by (cases w) (auto simp: take_over_def dest!: env_keeps(5) split: option.splits prod.splits bool.splits if_splits)

lemma acquire_own:
  assumes "coordinator_ok g (fst w)" "acquire_bot (gateway_env R p A) (claim_lease R p) b (s, w) = (x, s', w')"
  shows "coordinator_ok g (fst w') \<and> rg_entries s' = rg_entries s
    \<and> (x = Some False \<longrightarrow> set (ow_owned (fst w')) = set (ow_owned (fst w)) - {b})
    \<and> (x = Some True \<longrightarrow> b \<in> set (ow_owned (fst w')))
    \<and> (x \<noteq> Some False \<longrightarrow> set (ow_owned (fst w)) \<subseteq> set (ow_owned (fst w')))"
proof -
  have e: "rg_entries s' = rg_entries s" using acquire_bot_frame [OF assms(2)] by simp
  obtain k s1 w1 where o': "observe_owner (gateway_env R p A) b (s, w) = (k, s1, w1)" by (rule prod_cases3)
  note w1 = observe_own [OF o']
  show ?thesis
  proof (cases k)
    case False
    with o' assms w1 e show ?thesis by (simp add: acquire_bot_def)
  next
    case True
    obtain y w2 where c: "claim_lease R p b w1 = (y, w2)" by (cases "claim_lease R p b w1")
    note own = claim_lease_own [OF _ c, of g]
    obtain k2 s3 w3 where t: "take_over (gateway_env R p A) b (s1, w2) = (k2, s3, w3)" by (rule prod_cases3)
    note w3 = take_over_own [OF t]
    consider "y = None" | "y = Some False" | "y = Some True" by (metis (full_types) option.exhaust)
    then show ?thesis
    proof cases
      case 3
      with own w1 w3 assms True o' c t e show ?thesis by (cases k2) (auto simp: acquire_bot_def)
    qed (use own w1 assms True o' c e in \<open>auto simp: acquire_bot_def\<close>)
  qed
qed

section \<open>Every action keeps the tracking\<close>

lemma tracked_ok: "tracked g (s, w) \<Longrightarrow> coordinator_ok g (fst w)"
  by (simp add: tracked_def)

lemma stop_bot_tracked:
  assumes "coordinator_ok g (fst w)" "\<forall>b'. runs s b' \<longrightarrow> b' = b \<or> b' \<in> set (ow_owned (fst w))"
  shows "tracked g (snd (stop_bot (gateway_env R p A) b (s, w)))"
  using assms by (auto simp: tracked_def stop_bot_runs stop_bot_own)

text \<open>After the answer of a claim, the bot is started, stopped or left, and all is tracked.\<close>

lemma acquire_some:
  assumes "tracked g (s, w)" "acquire_bot (gateway_env R p A) (claim_lease R p) b (s, w) = (x, s', w')"
  shows "coordinator_ok g (fst w') \<and> (\<forall>b'. runs s' b' \<longrightarrow> b' = b \<or> b' \<in> set (ow_owned (fst w')))
    \<and> (x \<noteq> Some False \<longrightarrow> tracked g (s', w')) \<and> (x = Some True \<longrightarrow> b \<in> set (ow_owned (fst w')))
    \<and> (\<not> runs s b \<longrightarrow> tracked g (s', w'))"
  using acquire_own [OF tracked_ok [OF assms(1)] assms(2)] runs_entries [of s' s] assms(1)
  by (auto simp: tracked_def)

lemma start_owned_each_tracked:
  assumes "tracked g sw"
  shows "tracked g (snd (start_owned_each (gateway_env R p A) (claim_lease R p) bs n sw))"
  using assms
proof (induction bs arbitrary: n sw)
  case Nil
  then show ?case by simp
next
  case (Cons b bs)
  obtain s w where sw: "sw = (s, w)" by (cases sw)
  show ?case
  proof (cases "rg_entry s b")
    case None
    with Cons sw show ?thesis by simp
  next
    case (Some e)
    obtain x s' w' where acq: "acquire_bot (gateway_env R p A) (claim_lease R p) b (s, w) = (x, s', w')"
      by (rule prod_cases3)
    note a = acquire_some [OF Cons.prems [unfolded sw] acq]
    have run: "runs s b = en_started e" using Some by (simp add: runs_def)
    consider "\<not> bc_enabled (en_config e)" | "bc_enabled (en_config e)" "x = None"
      | "bc_enabled (en_config e)" "x = Some True" | "bc_enabled (en_config e)" "x = Some False"
      by (metis (full_types) option.exhaust)
    then show ?thesis
    proof cases
      case 3
      with a have t: "tracked g (s', w')" "b \<in> set (ow_owned (fst (snd (s', w'))))" by simp_all
      from start_entry_tracked [OF t, of R p A e] t(1) 3 Some acq sw Cons.IH show ?thesis
        by (auto split: prod.splits)
    next
      case 4
      with a stop_bot_tracked [of g w' s' b R p A] have "tracked g (if en_started e then snd (stop_bot (gateway_env R p A) b (s', w')) else (s', w'))"
        using run by auto
      with 4 Some acq sw Cons.IH show ?thesis by simp
    qed (use Some acq sw Cons a in auto)
  qed
qed

lemma tracked_frame:
  "runs s' = runs s \<Longrightarrow> fst w' = fst w \<Longrightarrow> tracked g (s, w) \<Longrightarrow> tracked g (s', w')"
  by (simp add: tracked_def)

lemma gw_start_tracked: "tracked g st \<Longrightarrow> tracked g (gw_start R p A st)"
  unfolding gw_start_def start_owned_bots_def
  by (rule start_owned_each_tracked) (simp add: tracked_def)

lemma put_stopped_tracked: "\<not> en_started e \<Longrightarrow> fst w' = fst w \<Longrightarrow> tracked g (s, w) \<Longrightarrow> tracked g (put_entry b e s, w')"
  by (auto simp: tracked_def runs_put)

lemma restart_entry_tracked:
  assumes "tracked g (s, w)"
  shows "tracked g (restart_entry (gateway_env R p A) b e c (s, w))"
proof -
  let ?w1 = "if en_started e then be_stop (gateway_env R p A) (en_adapter e) w else w"
  obtain i w2 where n: "be_new (gateway_env R p A) c ?w1 = (i, w2)" by (cases "be_new (gateway_env R p A) c ?w1")
  have "fst w2 = fst w" using env_new [OF n] by simp
  with assms have "tracked g (put_entry b (e\<lparr>en_config := c, en_adapter := i, en_started := False\<rparr>) s, w2)"
    by (intro put_stopped_tracked) simp_all
  with n show ?thesis by (simp add: restart_entry_def Let_def)
qed

lemma update_config_tracked:
  assumes "tracked g (s, w)" "rg_entry s (bc_id c) = Some e" "update_config (gateway_env R p A) c e rp (s, w) = (rp', s', w')"
  shows "tracked g (s', w')"
proof -
  have meta: "tracked g (put_entry (bc_id c) (e\<lparr>en_config := c\<rparr>) s, w)"
    using assms(1,2) by (auto simp: tracked_def runs_put runs_def)
  have "snd (update_config (gateway_env R p A) c e rp (s, w)) \<in>
      {(s, w), restart_entry (gateway_env R p A) (bc_id c) e c (s, w), (put_entry (bc_id c) (e\<lparr>en_config := c\<rparr>) s, w)}"
    by (simp add: update_config_def)
  then have "tracked g (snd (update_config (gateway_env R p A) c e rp (s, w)))"
    using assms(1) meta restart_entry_tracked [OF assms(1)] by auto
  with assms(3) show ?thesis by simp
qed

lemma gate_entry_tracked:
  assumes "coordinator_ok g (fst w)" "\<forall>b'. runs s b' \<longrightarrow> b' = b \<or> b' \<in> set (ow_owned (fst w))"
    and "ok \<Longrightarrow> tracked g (s, w) \<and> b \<in> set (ow_owned (fst w))"
  shows "tracked g (snd (gate_entry (gateway_env R p A) b rp (ok, s, w)))"
proof (cases "rg_entry s b")
  case None
  then have "\<not> runs s b" by (simp add: runs_def)
  with assms None show ?thesis by (auto simp: gate_entry_def tracked_def)
next
  case (Some e)
  then have run: "runs s b = en_started e" by (simp add: runs_def)
  show ?thesis
  proof (cases "ok \<and> \<not> en_started e")
    case True
    with assms(3) have "tracked g (snd (start_entry (gateway_env R p A) b e (s, w)))"
      by (intro start_entry_tracked) simp_all
    with True Some show ?thesis by (auto simp: gate_entry_def start_reported_def split: prod.splits bool.splits)
  next
    case False
    with Some run assms stop_bot_tracked [OF assms(1,2), of R p A] show ?thesis
      by (auto simp: gate_entry_def tracked_def)
  qed
qed

lemma gate_if_answered_tracked:
  assumes "tracked g (s, w)"
  shows "tracked g (snd (snd (gate_if_answered (gateway_env R p A) b rp
    (acquire_for (gateway_env R p A) (Some (claim_lease R p)) b (s, w)))))"
proof -
  obtain x s' w' where acq: "acquire_bot (gateway_env R p A) (claim_lease R p) b (s, w) = (x, s', w')"
    by (rule prod_cases3)
  note a = acquire_some [OF assms acq]
  show ?thesis
  proof (cases x)
    case None
    with a acq show ?thesis by (simp add: gate_if_answered_def acquire_for_def)
  next
    case (Some ok)
    with a have "tracked g (snd (gate_entry (gateway_env R p A) b rp (ok, s', w')))"
      by (intro gate_entry_tracked) auto
    with acq Some show ?thesis by (simp add: gate_if_answered_def acquire_for_def)
  qed
qed

lemma reconcile_one_tracked:
  assumes "tracked g (s, w)"
  shows "tracked g (snd (snd (reconcile_one (gateway_env R p A) (Some (claim_lease R p)) c (rp, s, w))))"
proof (cases "rg_entry s (bc_id c)")
  case None
  obtain i w1 where n: "be_new (gateway_env R p A) c w = (i, w1)" by (cases "be_new (gateway_env R p A) c w")
  then have "fst w1 = fst w" by (rule env_new)
  with assms have "tracked g (put_entry (bc_id c) (new_entry c i) s, w1)"
    by (intro put_stopped_tracked) (simp_all add: new_entry_def)
  with None n show ?thesis by (simp add: reconcile_one_def gate_if_answered_tracked Let_def)
next
  case (Some e)
  obtain rp1 s1 w1 where u: "update_config (gateway_env R p A) c e rp (s, w) = (rp1, s1, w1)" by (rule prod_cases3)
  from update_config_tracked [OF assms Some u] Some u show ?thesis
    by (simp add: reconcile_one_def gate_if_answered_tracked Let_def)
qed

lemma reconcile_each_tracked:
  assumes "tracked g (s, w)"
  shows "tracked g (snd (snd (reconcile_each (gateway_env R p A) (Some (claim_lease R p)) cs (rp, s, w))))"
  using assms
proof (induction cs arbitrary: rp s w)
  case Nil
  then show ?case by simp
next
  case (Cons c cs)
  obtain k rp1 s1 w1 where 1: "reconcile_one (gateway_env R p A) (Some (claim_lease R p)) c (rp, s, w) = (k, rp1, s1, w1)"
    by (rule prod_cases4)
  with reconcile_one_tracked [OF Cons.prems, of R p A c rp] have "tracked g (s1, w1)" by simp
  with 1 Cons.IH [of s1 w1 rp1] show ?case by (cases k) simp_all
qed

lemma remove_unwanted_tracked:
  assumes "tracked g (s, w)"
  shows "tracked g (snd (remove_unwanted (gateway_env R p A) wanted b (rp, s, w)))"
proof -
  have del: "runs (s0\<lparr>rg_entries := jm_delete b (rg_entries s0)\<rparr>) b' \<longleftrightarrow> b' \<noteq> b \<and> runs s0 b'" for s0 b'
    by (simp add: runs_def)
  obtain k s1 w1 where st: "stop_bot (gateway_env R p A) b (s, w) = (k, s1, w1)" by (rule prod_cases3)
  have "tracked g (s1, w1)" using stop_bot_tracked [of g w s b R p A] assms st by (simp add: tracked_def)
  with assms st show ?thesis
    by (auto simp: remove_unwanted_def tracked_def del Let_def split: option.splits)
qed

lemma remove_each_tracked:
  "tracked g (snd rsw) \<Longrightarrow> tracked g (snd (remove_each (gateway_env R p A) wanted bs rsw))"
proof (induction bs arbitrary: rsw)
  case (Cons b bs)
  then show ?case
    using remove_unwanted_tracked [of g "fst (snd rsw)" "snd (snd rsw)" R p A wanted b "fst rsw"] by simp
qed simp

lemma gw_poll_tracked:
  assumes "tracked g st"
  shows "tracked g (gw_poll R p A pulled st)"
proof (cases pulled)
  case None
  with assms show ?thesis by (simp add: gw_poll_def)
next
  case (Some cs)
  obtain k rp1 s1 w1 where e: "reconcile_each (gateway_env R p A) (Some (claim_lease R p)) cs (empty_report, st) = (k, rp1, s1, w1)"
    by (rule prod_cases4)
  with reconcile_each_tracked [of g "fst st" "snd st" R p A cs empty_report] assms have t: "tracked g (s1, w1)" by simp
  from remove_each_tracked [of g "(rp1, s1, w1)" R p A "map bc_id cs" "jm_keys (rg_entries s1)"] t e Some show ?thesis
    by (cases k) (auto simp: gw_poll_def reconcile_def split: prod.splits)
qed

lemma ow_renew_each_lost:
  assumes "coordinator_ok g ow" "ow_renew_each R p bs ow r = (ls, ow', r')"
  shows "coordinator_ok g ow' \<and> set (ow_owned ow) - set ls \<subseteq> set (ow_owned ow')"
  using assms
proof (induction bs arbitrary: ow r ls)
  case Nil
  then show ?case by simp
next
  case (Cons b bs)
  have drop: "coordinator_ok g (ow_drop b o1)" if "coordinator_ok g o1" for o1
    using that by (simp add: coordinator_ok_def ow_drop_def)
  have lost: "ow_on_lost ow" using Cons.prems(1) by (simp add: coordinator_ok_def)
  show ?case
  proof (cases "ow_renew R p ow b r")
    case None
    then obtain ls1 where "ow_renew_each R p bs (ow_drop b ow) r = (ls1, ow', r')" "ls = b # ls1"
      using Cons.prems(2) lost by (auto split: prod.splits)
    with Cons.IH [OF drop [OF Cons.prems(1)]] show ?thesis by (auto simp: ow_drop_def)
  next
    case (Some x)
    then obtain ok o1 r1 where x: "ow_renew R p ow b r = Some (ok, o1, r1)" by (cases x) auto
    then have o1: "coordinator_ok g o1" "set (ow_owned ow) - {b} \<subseteq> set (ow_owned o1)" "ok \<longrightarrow> o1 = ow"
      using Cons.prems(1) drop by (auto simp: ow_renew_def ow_drop_def split: if_splits)
    show ?thesis
    proof (cases ok)
      case True
      with x Cons.prems o1 Cons.IH [of o1 r1 ls] show ?thesis by simp
    next
      case False
      with x lost Cons.prems(2) obtain ls1 where "ow_renew_each R p bs (ow_drop b o1) r1 = (ls1, ow', r')" "ls = b # ls1"
        by (auto split: prod.splits)
      with Cons.IH [OF drop [OF o1(1)]] o1(2) show ?thesis by (fastforce simp: ow_drop_def)
    qed
  qed
qed

lemma stop_lost_runs: "runs (fst (stop_lost E bs sw)) b \<longleftrightarrow> b \<notin> set bs \<and> runs (fst sw) b"
  by (induction bs arbitrary: sw) (auto simp: stop_bot_runs)

lemma stop_lost_own: "fst (snd (stop_lost (gateway_env R p A) bs sw)) = fst (snd sw)"
  by (induction bs arbitrary: sw) (simp_all add: stop_bot_own)

lemma gw_heartbeat_eq:
  assumes "ow_heartbeat_tick R p ow r = (lost, ow1, r1)" "gw_heartbeat R p A (s, ow, r, a) = (s', ow', r', a')"
  shows "ow' = ow1 \<and> r' = r1 \<and> (\<forall>b. runs s' b \<longleftrightarrow> b \<notin> set lost \<and> runs s b)"
proof -
  have e: "stop_lost (gateway_env R p A) lost (s, ow1, r1, a) = (s', ow', r', a')"
    using assms by (simp add: gw_heartbeat_def)
  have server: "fst (snd (snd (stop_lost (gateway_env R p A) bs sw))) = fst (snd (snd sw))" for bs and sw :: "('a, 'b) gw_state"
  proof (induction bs arbitrary: sw)
    case (Cons b bs)
    have "fst (snd (snd (snd (stop_bot (gateway_env R p A) b sw)))) = fst (snd (snd sw))"
      by (cases sw) (auto simp: stop_bot_def gateway_env_def split: option.splits)
    with Cons show ?case by simp
  qed simp
  show ?thesis
    using stop_lost_runs [of "gateway_env R p A" lost "(s, ow1, r1, a)"] stop_lost_own [of R p A lost "(s, ow1, r1, a)"]
      server [of lost "(s, ow1, r1, a)"] by (simp add: e)
qed

lemma gw_heartbeat_tracked:
  assumes "tracked g st"
  shows "tracked g (gw_heartbeat R p A st)"
proof -
  obtain s ow r a where st: "st = (s, ow, r, a)" by (cases st)
  obtain lost ow1 r1 where t: "ow_heartbeat_tick R p ow r = (lost, ow1, r1)" by (rule prod_cases3)
  obtain s' ow' r' a' where h: "gw_heartbeat R p A (s, ow, r, a) = (s', ow', r', a')" by (rule prod_cases4)
  note e = gw_heartbeat_eq [OF t h]
  from assms ow_renew_each_lost [OF _ t [unfolded ow_heartbeat_tick_def], of g] e show ?thesis
    by (auto simp: st h tracked_def)
qed

lemma register_bots_tracked: "tracked g sw \<Longrightarrow> tracked g (register_bots (gateway_env R p A) cs sw)"
proof (induction cs arbitrary: sw)
  case Nil
  then show ?case by simp
next
  case (Cons c cs)
  obtain s w where sw: "sw = (s, w)" by (cases sw)
  let ?w1 = "case rg_entry s (bc_id c) of
      Some e \<Rightarrow> if en_started e then be_stop (gateway_env R p A) (en_adapter e) w else w | None \<Rightarrow> w"
  obtain i w2 where n: "be_new (gateway_env R p A) c ?w1 = (i, w2)" by (cases "be_new (gateway_env R p A) c ?w1")
  have "fst w2 = fst w" using env_new [OF n] by (simp split: option.splits)
  with Cons.prems sw have "tracked g (put_entry (bc_id c) (new_entry c i) s, w2)"
    by (intro put_stopped_tracked) (simp_all add: new_entry_def)
  from Cons.IH [OF this] n sw show ?case by (simp add: Let_def)
qed

lemma gw_boot_tracked: "tracked g (gw_boot R p A g cs r a)"
  unfolding gw_boot_def
  by (rule register_bots_tracked)
     (simp add: tracked_def coordinator_ok_def runs_def rg_entry_def new_bot_registry_def bind_cluster_def bind_redis_def
        ow_start_heartbeat_def new_ownership_def)

lemma gw_run_tracked: "gw_run R p A g st \<Longrightarrow> tracked g st"
proof (induction rule: gw_run.induct)
  case (server s ow r a r')
  then show ?case by (simp add: tracked_def)
next
  case (adapters s ow r a a')
  then show ?case by (simp add: tracked_def)
qed (simp_all add: gw_boot_tracked gw_start_tracked gw_poll_tracked gw_heartbeat_tracked)

section \<open>A gateway for the witnesses\<close>

text \<open>Gateway \<open>g\<close> with one bot, booted and started on a server.\<close>

definition demo_boot :: "string \<Rightarrow> mem_kv \<Rightarrow> (mem_kv, nat \<times> nat list) gw_state" where
  "demo_boot g r = gw_boot mem_ops (js ''aip:'') (toy_env []) (js g) [demo_bot ''b1''] r (0, [])"

definition demo_start :: "string \<Rightarrow> mem_kv \<Rightarrow> (mem_kv, nat \<times> nat list) gw_state" where
  "demo_start g r = gw_start mem_ops (js ''aip:'') (toy_env []) (demo_boot g r)"

lemma demo_run:
  "gw_run mem_ops (js ''aip:'') (toy_env []) (js g) (demo_boot g r)"
  "gw_run mem_ops (js ''aip:'') (toy_env []) (js g) (demo_start g r)"
  unfolding demo_start_def demo_boot_def by (intro gw_run.intros)+

lemma mem_up_all: "\<forall>r k. \<not> kv_down mem_ops r k"
  by simp

lemma mem_empty_nothing: "kv_get mem_ops mem_empty k = None"
  by (simp add: mem_ops_def mem_live_def mem_empty_def)

lemma demo_boot_eq:
  "demo_boot g r = (put_entry (js ''b1'') (new_entry (demo_bot ''b1'') 0)
      (bind_redis (bind_cluster (js g) True (new_bot_registry None))),
    ow_start_heartbeat True (new_ownership (js g) None None), r, 1, [])"
  by (simp add: demo_boot_def gw_boot_def gateway_env_def toy_env_def demo_bot_def rg_entry_def new_bot_registry_def
      bind_cluster_def bind_redis_def)

lemma demo_start_runs:
  assumes "g \<noteq> []"
  shows "\<exists>s ow r a. demo_start g mem_empty = (s, ow, r, a) \<and> runs s (js ''b1'')
    \<and> ow_current_owner mem_ops (js ''aip:'') (js ''b1'') r = Some (js g)"
proof -
  let ?s0 = "put_entry (js ''b1'') (new_entry (demo_bot ''b1'') 0)
      (bind_redis (bind_cluster (js g) True (new_bot_registry None)))"
  let ?ow0 = "ow_start_heartbeat True (new_ownership (js g) None None)"
  let ?r = "kv_set_px mem_ops (bot_owner_key (js ''aip:'') (js ''b1'')) (js g) 30000 mem_empty"
  let ?E = "gateway_env mem_ops (js ''aip:'') (toy_env [])"
  have gw: "rg_gateway (?s0\<lparr>rg_wired := True\<rparr>) = Some (js g)" "rg_prev (?s0\<lparr>rg_wired := True\<rparr>) = []"
    using assms by (simp_all add: put_entry_def bind_redis_def bind_cluster_def nonempty_eq_Some new_bot_registry_def)
  have obs: "observe_owner ?E b (S, ow, mem_empty, a) = (True, S, ow, mem_empty, a)" if "rg_gateway S = Some x" for S b ow a x
    using that by (simp add: observe_owner_def gateway_env_def ow_current_owner_def mem_empty_nothing)
  have tk: "take_over ?E b (S, w) = (True, S, w)" if "rg_prev S = []" for S b w
    using that by (simp add: take_over_def split: option.splits)
  have cl: "claim_lease mem_ops (js ''aip:'') (js ''b1'') (?ow0, mem_empty, a)
      = (Some True, ?ow0\<lparr>ow_owned := [js ''b1'']\<rparr>, ?r, a)" for a :: "nat \<times> nat list"
    by (simp add: claim_lease_def ow_claim_def claim_script_def mem_empty_nothing ow_start_heartbeat_def new_ownership_def
        js_add_def Let_def)
  have acq: "acquire_bot ?E (claim_lease mem_ops (js ''aip:'')) (js ''b1'') (?s0\<lparr>rg_wired := True\<rparr>, ?ow0, mem_empty, a)
      = (Some True, ?s0\<lparr>rg_wired := True\<rparr>, ?ow0\<lparr>ow_owned := [js ''b1'']\<rparr>, ?r, a)" for a
    unfolding acquire_bot_def obs [OF gw(1)] by (simp add: cl tk [OF gw(2)])
  have "rg_entry ?s0 (js ''b1'') = Some (new_entry (demo_bot ''b1'') 0)" by simp
  moreover have "jm_keys (rg_entries ?s0) = [js ''b1'']"
    by (simp add: put_entry_def bind_redis_def bind_cluster_def new_bot_registry_def jm_keys_def jm_set_def)
  ultimately have "demo_start g mem_empty = snd (start_entry (gateway_env mem_ops (js ''aip:'') (toy_env [])) (js ''b1'')
      (new_entry (demo_bot ''b1'') 0) (?s0\<lparr>rg_wired := True\<rparr>, ?ow0\<lparr>ow_owned := [js ''b1'']\<rparr>, ?r, 1, []))"
    using acq by (simp add: demo_start_def demo_boot_eq gw_start_def start_owned_bots_def new_entry_def demo_bot_def
        split: prod.splits)
  then show ?thesis
    by (simp add: start_entry_def gateway_env_def toy_env_def new_entry_def runs_put ow_current_owner_def mem.kv_laws)
qed

section \<open>Properties\<close>

text \<open>
  At every moment of a gateway's life, whatever pulls, claims, heartbeats, failing commands
  and foreign writes come in whatever order, a bot that runs is tracked by the lease
  coordinator, so that its next heartbeat renews the lease or stops the bot.
\<close>

theorem running_bots_are_tracked:
  assumes "gw_run R p A g (s, ow, r, a)" "runs s b"
  shows "b \<in> set (ow_owned ow) \<and> ow_gateway ow = g"
  using gw_run_tracked [OF assms(1)] assms(2) by (simp add: tracked_def coordinator_ok_def)

theorem running_bots_are_tracked_witness:
  "\<exists>s ow r a. demo_start ''A'' mem_empty = (s, ow, r, a) \<and> runs s (js ''b1'') \<and> js ''b1'' \<in> set (ow_owned ow)"
proof -
  obtain s ow r a where d: "demo_start ''A'' mem_empty = (s, ow, r, a)" "runs s (js ''b1'')"
    using demo_start_runs [of "''A''"] by auto
  from running_bots_are_tracked [OF demo_run(2) [of "''A''" mem_empty, unfolded d(1)] d(2)] d show ?thesis by blast
qed

lemma heartbeat_leased:
  assumes "redis_kv R" "\<forall>r k. \<not> kv_down R r k" "tracked g (s, ow, r, a)"
    and "gw_heartbeat R p A (s, ow, r, a) = (s', ow', r', a')"
  shows "(\<forall>b. ow_current_owner R p b r' = ow_current_owner R p b r)
    \<and> (\<forall>b. runs s' b \<longleftrightarrow> runs s b \<and> ow_current_owner R p b r = Some g)"
proof -
  obtain lost ow1 r1 where t: "ow_heartbeat_tick R p ow r = (lost, ow1, r1)" by (rule prod_cases3)
  have ok: "0 < ow_lease_ttl ow" "distinct (ow_owned ow)" "ow_on_lost ow" "ow_gateway ow = g"
    using assms(3) by (simp_all add: tracked_def coordinator_ok_def)
  note S = redis_kv.ow_renew_each_spec [OF assms(1) ok(1) assms(2) ok(2,3) t [unfolded ow_heartbeat_tick_def]]
  note L = redis_kv.get_liveness [OF assms(1) ok(1)]
  from gw_heartbeat_eq [OF t assms(4)] S L ok(4) assms(3) show ?thesis
    by (auto simp: ow_current_owner_def tracked_def)
qed

text \<open>
  After a heartbeat that the server answers, a gateway runs exactly those of its bots whose
  lease is its own at that moment.
\<close>

theorem heartbeat_leaves_leased_bots:
  assumes "redis_kv R" "\<forall>r k. \<not> kv_down R r k" "gw_run R p A g (s, ow, r, a)"
    and "gw_heartbeat R p A (s, ow, r, a) = (s', ow', r', a')"
  shows "runs s' b \<longleftrightarrow> runs s b \<and> ow_current_owner R p b r' = Some g"
  using heartbeat_leased [OF assms(1,2) gw_run_tracked [OF assms(3)] assms(4)] by auto

theorem heartbeat_leaves_leased_bots_witness:
  "\<exists>s ow r a. gw_heartbeat mem_ops (js ''aip:'') (toy_env []) (demo_start ''A'' mem_empty) = (s, ow, r, a)
     \<and> (runs s (js ''b1'') \<longrightarrow> ow_current_owner mem_ops (js ''aip:'') (js ''b1'') r = Some (js ''A''))"
proof -
  obtain s ow r a where d: "demo_start ''A'' mem_empty = (s, ow, r, a)" by (rule prod_cases4)
  obtain s' ow' r' a' where h: "gw_heartbeat mem_ops (js ''aip:'') (toy_env []) (s, ow, r, a) = (s', ow', r', a')"
    by (rule prod_cases4)
  from heartbeat_leaves_leased_bots [OF redis_kv_mem mem_up_all demo_run(2) [of "''A''" mem_empty, unfolded d] h] d h
  show ?thesis by auto
qed



text \<open>
  A shutdown gives its bots away before it stops them: between its two halves a bot of the
  gateway still runs while any other gateway's claim of it succeeds.
\<close>

theorem released_bot_still_runs:
  assumes "redis_kv R" "\<forall>r k. \<not> kv_down R r k" "gw_run R p A g (s, ow, r, a)" "runs s b"
    and "ow_current_owner R p b r = Some g"
  shows "\<exists>ow' r'. gw_release R p (s, ow, r, a) = Some (s, ow', r', a) \<and> runs s b
    \<and> (\<exists>t' r2. ow_claim R p t b r' = Some (True, t', r2))"
proof -
  have t: "b \<in> set (ow_owned ow)" "ow_gateway ow = g"
    using gw_run_tracked [OF assms(3)] assms(4) by (simp_all add: tracked_def coordinator_ok_def)
  from redis_kv.ow_release_each_spec [OF assms(1,2), of p "ow_owned ow" "ow_stop_heartbeat ow" r]
  obtain ow' r' where rel: "ow_release_each R p (ow_owned ow) (ow_stop_heartbeat ow) r = Some (ow', r')"
    and free: "kv_get R r' (bot_owner_key p b) = None"
    using t assms(5) by (auto simp: ow_stop_heartbeat_def ow_current_owner_def)
  have "ow_release_all R p (ow_stop_heartbeat ow) r = Some (ow', r')"
    using rel by (simp add: ow_release_all_def ow_stop_heartbeat_def)
  moreover from redis_kv.ow_claim_free [OF assms(1) free] assms(2)
  obtain t' r2 where "ow_claim R p t b r' = Some (True, t', r2)" by blast
  ultimately show ?thesis using assms(4) by (auto simp: gw_release_def)
qed

theorem released_bot_still_runs_witness:
  "\<exists>s ow r a ow' r' t' r2. demo_start ''A'' mem_empty = (s, ow, r, a)
    \<and> gw_release mem_ops (js ''aip:'') (s, ow, r, a) = Some (s, ow', r', a) \<and> runs s (js ''b1'')
    \<and> ow_claim mem_ops (js ''aip:'') (demo_gw ''B'') (js ''b1'') r' = Some (True, t', r2)"
proof -
  obtain s ow r a where d: "demo_start ''A'' mem_empty = (s, ow, r, a)" "runs s (js ''b1'')"
    "ow_current_owner mem_ops (js ''aip:'') (js ''b1'') r = Some (js ''A'')"
    using demo_start_runs [of "''A''"] by auto
  from released_bot_still_runs [OF redis_kv_mem mem_up_all demo_run(2) [of "''A''" mem_empty, unfolded d(1)] d(2,3)] d(1)
  show ?thesis by blast
qed

text \<open>
  A failover is followed up once: an attempt that finds the bot with another gateway
  remembers that gateway, and the attempt that later wins the expired lease records it as the
  previous owner, drains its stream, and forgets it.
\<close>

theorem takeover_drains_previous_stream:
  assumes "rg_gateway s = Some g" "prev \<noteq> g" "rg_drain s"
    and "be_current_owner E b w = (Some (Some prev), w1)" "claim b w1 = (Some False, w2)"
    and "be_current_owner E b w3 = (Some None, w4)" "claim b w4 = (Some True, w5)"
    and "be_set_prev E b prev w5 = (True, w6)" "be_drain E prev w6 = (drained, w7)"
  shows "\<exists>s1 s2. acquire_bot E claim b (s, w) = (Some False, s1, w2)
    \<and> acquire_bot E claim b (s1, w3) = (Some True, s2, w7) \<and> jm_get (rg_prev s2) b = None"
  using assms by (simp add: acquire_bot_def observe_owner_def take_over_def)

text \<open>An environment whose bot is first owned by \<open>A\<close>, then free; a claim succeeds once it is free.\<close>

definition failover_env :: "(bool \<times> jstr list) bot_env" where
  "failover_env = \<lparr>be_new = (\<lambda>c w. (0, w)), be_start = (\<lambda>a w. (None, w)), be_stop = (\<lambda>a w. w), be_connected = (\<lambda>w a. True),
     be_current_owner = (\<lambda>b w. (Some (if fst w then None else Some (js ''A'')), w)), be_set_prev = (\<lambda>b p w. (True, w)),
     be_drain = (\<lambda>g w. (True, fst w, snd w @ [g])), be_remember = (\<lambda>s b w. (True, w))\<rparr>"

theorem takeover_drains_previous_stream_witness:
  "\<exists>s1 s2. acquire_bot failover_env (\<lambda>b w. (Some (fst w), w)) (js ''x'')
        (bind_cluster (js ''B'') True (new_bot_registry None), False, []) = (Some False, s1, False, [])
     \<and> acquire_bot failover_env (\<lambda>b w. (Some (fst w), w)) (js ''x'') (s1, True, []) = (Some True, s2, True, [js ''A''])"
proof -
  have "rg_gateway (bind_cluster (js ''B'') True (new_bot_registry None)) = Some (js ''B'')"
    by (simp add: bind_cluster_def nonempty_eq_Some)
  moreover have "js ''A'' \<noteq> js ''B''" "rg_drain (bind_cluster (js ''B'') True (new_bot_registry None))"
    by (simp_all add: bind_cluster_def)
  ultimately show ?thesis
    using takeover_drains_previous_stream [of "bind_cluster (js ''B'') True (new_bot_registry None)" "js ''B''" "js ''A''"
        failover_env "js ''x''" "(False, [])" "(False, [])" "\<lambda>b w. (Some (fst w), w)" "(False, [])" "(True, [])" "(True, [])"
        "(True, [])" "(True, [])" True "(True, [js ''A''])"]
    by (auto simp: failover_env_def)
qed

end
