(* ===== verification/Js_Bytes.thy ===== *)
theory Js_Bytes
  imports Js_Prelude
begin

text \<open>
  Node buffers as lists of bytes: \<open>subarray\<close>, big-endian 32-bit integers, and UTF-8. Strings are
  UTF-16, so encoding pairs up the surrogates first; an unpaired one becomes U+FFFD. Decoding
  follows the decoder of the WHATWG Encoding Standard, which replaces malformed bytes.
\<close>

type_synonym byte = "8 word"

named_theorems bytes_simps

section \<open>Buffers\<close>

text \<open>\<open>buf.subarray(i, j)\<close>: a negative end counts from the end of the buffer.\<close>

definition subarray :: "nat \<Rightarrow> int \<Rightarrow> byte list \<Rightarrow> byte list" where
  "subarray i j bs = slice i (nat (if j < 0 then int (length bs) + j else j)) bs"

definition write_uint32_be :: "nat \<Rightarrow> byte list" where
  "write_uint32_be n = [of_nat (n div 2 ^ 24), of_nat (n div 2 ^ 16), of_nat (n div 2 ^ 8), of_nat n]"

text \<open>\<open>readUInt32BE(i)\<close>; reading past the end is a RangeError.\<close>

definition read_uint32_be :: "nat \<Rightarrow> byte list \<Rightarrow> nat option" where
  "read_uint32_be i bs =
     (if i + 4 \<le> length bs
      then Some (unat (bs ! i) * 2 ^ 24 + unat (bs ! (i + 1)) * 2 ^ 16 + unat (bs ! (i + 2)) * 2 ^ 8 + unat (bs ! (i + 3)))
      else None)"

lemma subarray_take [bytes_simps]: "0 \<le> j \<Longrightarrow> subarray 0 j bs = take (nat j) bs"
  by (simp add: subarray_def slice_def)

lemma length_write_uint32_be [simp]: "length (write_uint32_be n) = 4"
  by (simp add: write_uint32_be_def)

lemma unat_of_nat_byte [simp]: "unat (of_nat n :: byte) = n mod 256"
  by (simp add: unat_of_nat)

lemma split_uint32:
  assumes "n < 2 ^ 32"
  shows "n div 2 ^ 24 mod 256 * 2 ^ 24 + n div 2 ^ 16 mod 256 * 2 ^ 16 + n div 2 ^ 8 mod 256 * 2 ^ 8 + n mod 256 = (n::nat)"
proof -
  define a where "a = n div 256"
  define b where "b = a div 256"
  define c where "c = b div 256"
  have "n = a * 256 + n mod 256" "a = b * 256 + a mod 256" "b = c * 256 + b mod 256"
    by (simp_all add: a_def b_def c_def)
  then have "c * 16777216 + b mod 256 * 65536 + a mod 256 * 256 + n mod 256 = n" by linarith
  moreover have "n div 2 ^ 24 = c" "n div 2 ^ 16 = b" "n div 2 ^ 8 = a"
    by (simp_all add: a_def b_def c_def flip: div_mult2_eq)
  moreover have "c < 256" using assms by (simp add: a_def b_def c_def div_less_iff_less_mult flip: div_mult2_eq)
  ultimately show ?thesis by simp
qed

lemma read_write_uint32:
  assumes "n < 2 ^ 32" "length a = i"
  shows "read_uint32_be i (a @ write_uint32_be n @ c) = Some n"
  using assms split_uint32 [OF assms(1)]
  by (simp add: read_uint32_be_def write_uint32_be_def nth_append del: power_numeral)

section \<open>Code points\<close>

abbreviation high_surrogate :: "cu \<Rightarrow> bool" where "high_surrogate c \<equiv> 0xD800 \<le> c \<and> c < 0xDC00"
abbreviation low_surrogate :: "cu \<Rightarrow> bool" where "low_surrogate c \<equiv> 0xDC00 \<le> c \<and> c < 0xE000"

definition unit_point :: "cu \<Rightarrow> nat" where
  "unit_point c = (if 0xD800 \<le> c \<and> c < 0xE000 then 0xFFFD else unat c)"

definition pair_point :: "cu \<Rightarrow> cu \<Rightarrow> nat" where
  "pair_point c d = 0x10000 + (unat c - 0xD800) * 0x400 + (unat d - 0xDC00)"

fun code_points :: "jstr \<Rightarrow> nat list" where
  "code_points [] = []"
| "code_points [c] = [unit_point c]"
| "code_points (c # d # s) =
     (if high_surrogate c \<and> low_surrogate d then pair_point c d # code_points s
      else unit_point c # code_points (d # s))"

definition point_units :: "nat \<Rightarrow> jstr" where
  "point_units n =
     (if n < 0x10000 then [of_nat n]
      else [of_nat (0xD800 + (n - 0x10000) div 0x400), of_nat (0xDC00 + (n - 0x10000) mod 0x400)])"

text \<open>Every surrogate of the string stands in a pair.\<close>

fun well_formed :: "jstr \<Rightarrow> bool" where
  "well_formed [] = True"
| "well_formed [c] = (\<not> (0xD800 \<le> c \<and> c < 0xE000))"
| "well_formed (c # d # s) =
     (if high_surrogate c \<and> low_surrogate d then well_formed s
      else \<not> (0xD800 \<le> c \<and> c < 0xE000) \<and> well_formed (d # s))"

definition scalar_value :: "nat \<Rightarrow> bool" where
  "scalar_value n \<longleftrightarrow> n < 0x110000 \<and> \<not> (0xD800 \<le> n \<and> n < 0xE000)"

lemma unit_point_scalar: "scalar_value (unit_point c)"
  using unsigned_less [of c, where ?'a = nat] by (auto simp: unit_point_def scalar_value_def word_le_nat_alt word_less_nat_alt)

lemma pair_point_scalar: "high_surrogate c \<Longrightarrow> low_surrogate d \<Longrightarrow> scalar_value (pair_point c d)"
  by (auto simp: pair_point_def scalar_value_def word_le_nat_alt word_less_nat_alt)

lemma code_points_scalar: "n \<in> set (code_points s) \<Longrightarrow> scalar_value n"
  by (induction s rule: code_points.induct) (auto simp: unit_point_scalar pair_point_scalar split: if_splits)

lemma point_units_unit: "\<not> (0xD800 \<le> c \<and> c < 0xE000) \<Longrightarrow> point_units (unit_point c) = [c]"
  using unsigned_less [of c, where ?'a = nat] by (auto simp: unit_point_def point_units_def)

lemma point_units_pair: "high_surrogate c \<Longrightarrow> low_surrogate d \<Longrightarrow> point_units (pair_point c d) = [c, d]"
proof -
  assume h: "high_surrogate c" and l: "low_surrogate d"
  let ?a = "unat c - 0xD800" and ?b = "unat d - 0xDC00"
  have b: "?b < 0x400" and c: "unat c = 0xD800 + ?a" "unat d = 0xDC00 + ?b"
    using h l by (auto simp: word_le_nat_alt word_less_nat_alt)
  have "pair_point c d - 0x10000 = ?a * 0x400 + ?b" by (simp add: pair_point_def)
  moreover have "(?a * 0x400 + ?b) div 0x400 = ?a" "(?a * 0x400 + ?b) mod 0x400 = ?b" using b by simp_all
  moreover have "(of_nat (0xD800 + ?a) :: cu) = c" "(of_nat (0xDC00 + ?b) :: cu) = d"
    by (simp_all flip: c )
  ultimately show ?thesis by (simp add: point_units_def pair_point_def)
qed

lemma units_of_code_points: "well_formed s \<Longrightarrow> concat (map point_units (code_points s)) = s"
  by (induction s rule: well_formed.induct) (auto simp: point_units_unit point_units_pair split: if_splits)

section \<open>UTF-8\<close>

definition byte_of :: "nat \<Rightarrow> byte" where
  "byte_of n = of_nat n"

lemma unat_byte_of [simp]: "n < 256 \<Longrightarrow> unat (byte_of n) = n"
  by (simp add: byte_of_def)

definition point_bytes :: "nat \<Rightarrow> byte list" where
  "point_bytes n =
     (if n < 0x80 then [byte_of n]
      else if n < 0x800 then [byte_of (0xC0 + n div 64), byte_of (0x80 + n mod 64)]
      else if n < 0x10000 then [byte_of (0xE0 + n div 4096), byte_of (0x80 + n div 64 mod 64), byte_of (0x80 + n mod 64)]
      else [byte_of (0xF0 + n div 262144), byte_of (0x80 + n div 4096 mod 64), byte_of (0x80 + n div 64 mod 64),
            byte_of (0x80 + n mod 64)])"

text \<open>\<open>Buffer.from(s, 'utf-8')\<close>.\<close>

definition utf8 :: "jstr \<Rightarrow> byte list" where
  "utf8 s = concat (map point_bytes (code_points s))"

text \<open>
  The decoder's state: the bits so far, the number of continuation bytes still needed, and the
  range of the next one.
\<close>

record utf8_state =
  us_point :: nat
  us_needed :: nat
  us_lower :: nat
  us_upper :: nat

definition utf8_idle :: utf8_state where
  "utf8_idle = \<lparr>us_point = 0, us_needed = 0, us_lower = 0x80, us_upper = 0xBF\<rparr>"

definition utf8_lead :: "nat \<Rightarrow> nat list \<times> utf8_state" where
  "utf8_lead b =
     (if b < 0x80 then ([b], utf8_idle)
      else if 0xC2 \<le> b \<and> b \<le> 0xDF then ([], utf8_idle\<lparr>us_point := b - 0xC0, us_needed := 1\<rparr>)
      else if 0xE0 \<le> b \<and> b \<le> 0xEF then
        ([], \<lparr>us_point = b - 0xE0, us_needed = 2, us_lower = (if b = 0xE0 then 0xA0 else 0x80),
              us_upper = (if b = 0xED then 0x9F else 0xBF)\<rparr>)
      else if 0xF0 \<le> b \<and> b \<le> 0xF4 then
        ([], \<lparr>us_point = b - 0xF0, us_needed = 3, us_lower = (if b = 0xF0 then 0x90 else 0x80),
              us_upper = (if b = 0xF4 then 0x8F else 0xBF)\<rparr>)
      else ([0xFFFD], utf8_idle))"

definition utf8_feed :: "utf8_state \<Rightarrow> nat \<Rightarrow> nat list \<times> utf8_state" where
  "utf8_feed st b =
     (if us_needed st = 0 then utf8_lead b
      else if us_lower st \<le> b \<and> b \<le> us_upper st then
        (if us_needed st = 1 then ([us_point st * 64 + (b - 0x80)], utf8_idle)
         else ([], \<lparr>us_point = us_point st * 64 + (b - 0x80), us_needed = us_needed st - 1, us_lower = 0x80, us_upper = 0xBF\<rparr>))
      else (0xFFFD # fst (utf8_lead b), snd (utf8_lead b)))"

primrec utf8_points :: "utf8_state \<Rightarrow> byte list \<Rightarrow> nat list" where
  "utf8_points st [] = (if us_needed st = 0 then [] else [0xFFFD])"
| "utf8_points st (b # bs) = fst (utf8_feed st (unat b)) @ utf8_points (snd (utf8_feed st (unat b))) bs"

text \<open>\<open>buf.toString('utf-8')\<close>.\<close>

definition from_utf8 :: "byte list \<Rightarrow> jstr" where
  "from_utf8 bs = concat (map point_units (utf8_points utf8_idle bs))"

lemma utf8_idle_needed [simp]: "us_needed utf8_idle = 0"
  by (simp add: utf8_idle_def)

lemmas utf8_step = utf8_feed_def utf8_lead_def utf8_idle_def

lemma split_2: "n = n div 64 * 64 + n mod (64::nat)"
  by simp

lemma split_3: "n = n div 4096 * 4096 + n div 64 mod 64 * 64 + n mod (64::nat)"
proof -
  have "n div 64 div 64 = n div 4096" by (simp flip: div_mult2_eq)
  with split_2 [of n] split_2 [of "n div 64"] show ?thesis by linarith
qed

lemma split_4: "n = n div 262144 * 262144 + n div 4096 mod 64 * 4096 + n div 64 mod 64 * 64 + n mod (64::nat)"
proof -
  have "n div 64 div 64 = n div 4096" "n div 4096 div 64 = n div 262144" by (simp_all flip: div_mult2_eq)
  with split_3 [of n] split_2 [of "n div 4096"] show ?thesis by linarith
qed

lemma utf8_points_1: "n < 0x80 \<Longrightarrow> utf8_points utf8_idle (point_bytes n @ bs) = n # utf8_points utf8_idle bs"
  by (simp add: point_bytes_def utf8_step)

lemma utf8_points_2:
  assumes "0x80 \<le> n" "n < 0x800"
  shows "utf8_points utf8_idle (point_bytes n @ bs) = n # utf8_points utf8_idle bs"
proof -
  define a where "a = n div 64"
  define b where "b = n mod 64"
  have n: "n = a * 64 + b" by (simp add: a_def b_def)
  have l: "a < 32" "b < 64" using assms(2) by (simp_all add: a_def b_def div_less_iff_less_mult)
  moreover have "2 \<le> a" using assms(1) n l by simp
  moreover have "point_bytes n = [byte_of (0xC0 + a), byte_of (0x80 + b)]"
    using assms by (simp add: point_bytes_def a_def b_def)
  ultimately show ?thesis by (simp add: utf8_step n)
qed

lemma utf8_points_3:
  assumes "0x800 \<le> n" "n < 0x10000" "\<not> (0xD800 \<le> n \<and> n < 0xE000)"
  shows "utf8_points utf8_idle (point_bytes n @ bs) = n # utf8_points utf8_idle bs"
proof -
  define a where "a = n div 4096"
  define b where "b = n div 64 mod 64"
  define c where "c = n mod 64"
  have n: "n = a * 4096 + b * 64 + c" using split_3 [of n] by (simp only: a_def b_def c_def)
  have l: "a < 16" "b < 64" "c < 64" using assms(2) by (simp_all add: a_def b_def c_def div_less_iff_less_mult)
  moreover have "a = 0 \<longrightarrow> 32 \<le> b" "a = 13 \<longrightarrow> b < 32" using assms(1,3) n l by auto
  moreover have "point_bytes n = [byte_of (0xE0 + a), byte_of (0x80 + b), byte_of (0x80 + c)]"
    using assms by (simp add: point_bytes_def a_def b_def c_def)
  ultimately show ?thesis by (auto simp: utf8_step n)
qed

lemma utf8_points_4:
  assumes "0x10000 \<le> n" "n < 0x110000"
  shows "utf8_points utf8_idle (point_bytes n @ bs) = n # utf8_points utf8_idle bs"
proof -
  define a where "a = n div 262144"
  define b where "b = n div 4096 mod 64"
  define c where "c = n div 64 mod 64"
  define d where "d = n mod 64"
  have n: "n = a * 262144 + b * 4096 + c * 64 + d" using split_4 [of n] by (simp only: a_def b_def c_def d_def)
  have l: "a < 5" "b < 64" "c < 64" "d < 64" using assms(2) by (simp_all add: a_def b_def c_def d_def div_less_iff_less_mult)
  moreover have "a = 0 \<longrightarrow> 16 \<le> b" "a = 4 \<longrightarrow> b < 16" using assms n l by auto
  moreover have "point_bytes n = [byte_of (0xF0 + a), byte_of (0x80 + b), byte_of (0x80 + c), byte_of (0x80 + d)]"
    using assms by (simp add: point_bytes_def a_def b_def c_def d_def)
  ultimately show ?thesis by (auto simp: utf8_step n)
qed

lemma utf8_points_point: "scalar_value n \<Longrightarrow> utf8_points utf8_idle (point_bytes n @ bs) = n # utf8_points utf8_idle bs"
  using utf8_points_1 [of n bs] utf8_points_2 [of n bs] utf8_points_3 [of n bs] utf8_points_4 [of n bs]
  by (force simp: scalar_value_def)

lemma utf8_points_bytes:
  "(\<forall>n \<in> set ns. scalar_value n) \<Longrightarrow> utf8_points utf8_idle (concat (map point_bytes ns)) = ns"
  by (induction ns) (simp_all add: utf8_points_point)

text \<open>Whatever the string, the bytes decode to its code points with the stray surrogates replaced.\<close>

lemma utf8_points_utf8: "utf8_points utf8_idle (utf8 s) = code_points s"
  by (simp add: utf8_def utf8_points_bytes code_points_scalar)

lemma from_utf8_utf8 [bytes_simps]: "well_formed s \<Longrightarrow> from_utf8 (utf8 s) = s"
  by (simp add: from_utf8_def utf8_points_utf8 units_of_code_points)

lemma code_points_ascii: "\<forall>c \<in> set s. c < 128 \<Longrightarrow> code_points s = map unat s"
  by (induction s rule: code_points.induct) (auto simp: unit_point_def word_le_nat_alt word_less_nat_alt)

lemma well_formed_ascii: "\<forall>c \<in> set s. c < 128 \<Longrightarrow> well_formed s"
  by (induction s rule: well_formed.induct) (auto simp: word_le_nat_alt word_less_nat_alt)

lemma length_utf8_ascii: "\<forall>c \<in> set s. c < 128 \<Longrightarrow> length (utf8 s) = length s"
  unfolding utf8_def by (simp add: code_points_ascii, induction s) (auto simp: point_bytes_def word_less_nat_alt)

end
