(* ===== verification/Wecom_Crypto.thy ===== *)
theory Wecom_Crypto
  imports Js_Bytes "HOL-Library.List_Lexorder" "HOL-Library.Multiset"
begin

text \<open>
  The encryption of WeCom callback messages, gateway/src/utils/crypto.ts. AES, SHA-1 and base64
  come with the platform and are the record \<open>crypto_lib\<close>; padding, framing, UTF-8, the signature
  and the class \<open>WecomCrypto\<close> are written out.
\<close>

section \<open>The platform's primitives\<close>

text \<open>
  AES-256-CBC without automatic padding takes key, initialisation vector and data, and is \<open>None\<close>
  where Node throws. The hash is the lower-case hexadecimal digest of a string.
\<close>

record crypto_lib =
  cl_b64_enc :: "byte list \<Rightarrow> jstr"
  cl_b64_dec :: "jstr \<Rightarrow> byte list"
  cl_aes_enc :: "byte list \<Rightarrow> byte list \<Rightarrow> byte list \<Rightarrow> byte list option"
  cl_aes_dec :: "byte list \<Rightarrow> byte list \<Rightarrow> byte list \<Rightarrow> byte list option"
  cl_sha1 :: "jstr \<Rightarrow> jstr"

text \<open>Their documented behaviour, as far as it is used here.\<close>

definition crypto_laws :: "crypto_lib \<Rightarrow> bool" where
  "crypto_laws L \<longleftrightarrow>
     (\<forall>x. cl_b64_dec L (cl_b64_enc L x) = x \<and> length (cl_b64_enc L x) = 4 * ((length x + 2) div 3)) \<and>
     (\<forall>key iv x. length key = 32 \<and> length iv = 16 \<and> 16 dvd length x \<longrightarrow>
        (\<exists>y. cl_aes_enc L key iv x = Some y \<and> length y = length x \<and> cl_aes_dec L key iv y = Some x)) \<and>
     (\<forall>s. length (cl_sha1 L s) = 40)"

section \<open>Padding and keys\<close>

datatype crypto_error =
    Bad_key_length nat
  | Empty_buffer
  | Bad_padding nat
  | Out_of_range
  | Cipher_failed
  | Corp_mismatch jstr jstr
  | Bad_signature

definition block_size :: nat where "block_size = 32"
definition aes_key_length :: nat where "aes_key_length = 43"

definition decode_aes_key :: "crypto_lib \<Rightarrow> jstr \<Rightarrow> crypto_error + byte list" where
  "decode_aes_key L k =
     (if length k \<noteq> aes_key_length then Inl (Bad_key_length (length k))
      else Inr (cl_b64_dec L (k @ js ''='')))"

definition pkcs7_pad :: "byte list \<Rightarrow> byte list" where
  "pkcs7_pad d = (let n = block_size - length d mod block_size in d @ replicate n (byte_of n))"

definition pkcs7_unpad :: "byte list \<Rightarrow> crypto_error + byte list" where
  "pkcs7_unpad d =
     (if d = [] then Inl Empty_buffer
      else let n = unat (last d) in
        if n < 1 \<or> block_size < n then Inl (Bad_padding n)
        else Inr (subarray 0 (int (length d) - int n) d))"

section \<open>Signature\<close>

definition calculate_signature :: "crypto_lib \<Rightarrow> jstr \<Rightarrow> jstr \<Rightarrow> jstr \<Rightarrow> jstr \<Rightarrow> jstr" where
  "calculate_signature L token timestamp nonce enc = cl_sha1 L (join [] (sort [token, timestamp, nonce, enc]))"

definition verify_signature :: "crypto_lib \<Rightarrow> jstr \<Rightarrow> jstr \<Rightarrow> jstr \<Rightarrow> jstr \<Rightarrow> jstr \<Rightarrow> bool" where
  "verify_signature L token timestamp nonce enc sig \<longleftrightarrow> calculate_signature L token timestamp nonce enc = sig"

section \<open>Encryption and decryption\<close>

text \<open>16 random bytes, the length of the message, the message, the receiver.\<close>

definition encrypt_message :: "crypto_lib \<Rightarrow> byte list \<Rightarrow> jstr \<Rightarrow> byte list \<Rightarrow> jstr \<Rightarrow> crypto_error + jstr" where
  "encrypt_message L rnd m key corp =
     (let mb = utf8 m in
      if 2 ^ 32 \<le> length mb then Inl Out_of_range
      else let raw = rnd @ write_uint32_be (length mb) @ mb @ utf8 corp in
        (case cl_aes_enc L key (slice 0 16 key) (pkcs7_pad raw) of
           None \<Rightarrow> Inl Cipher_failed
         | Some c \<Rightarrow> Inr (cl_b64_enc L c)))"

definition open_frame :: "byte list \<Rightarrow> jstr \<Rightarrow> crypto_error + jstr \<times> jstr" where
  "open_frame d corp =
     (case read_uint32_be 16 d of
        None \<Rightarrow> Inl Out_of_range
      | Some n \<Rightarrow>
          (let content = from_utf8 (slice 20 (20 + n) d);
               to_user = from_utf8 (drop (20 + n) d)
           in if to_user \<noteq> corp then Inl (Corp_mismatch corp to_user) else Inr (content, to_user)))"

definition decrypt_message :: "crypto_lib \<Rightarrow> jstr \<Rightarrow> byte list \<Rightarrow> jstr \<Rightarrow> crypto_error + jstr \<times> jstr" where
  "decrypt_message L enc key corp =
     (case cl_aes_dec L key (slice 0 16 key) (cl_b64_dec L enc) of
        None \<Rightarrow> Inl Cipher_failed
      | Some d \<Rightarrow> (case pkcs7_unpad d of Inl e \<Rightarrow> Inl e | Inr u \<Rightarrow> open_frame u corp))"

section \<open>The class\<close>

record wecom_encrypted =
  we_xml_content :: jstr
  we_msg_signature :: jstr
  we_timestamp :: jstr
  we_nonce :: jstr

record wecom_crypto =
  wk_aes_key :: "byte list"
  wk_token :: jstr
  wk_corp_id :: jstr

definition new_wecom_crypto :: "crypto_lib \<Rightarrow> jstr \<Rightarrow> jstr \<Rightarrow> jstr \<Rightarrow> crypto_error + wecom_crypto" where
  "new_wecom_crypto L encoding_key token corp =
     (case decode_aes_key L encoding_key of
        Inl e \<Rightarrow> Inl e
      | Inr k \<Rightarrow> Inr \<lparr>wk_aes_key = k, wk_token = token, wk_corp_id = corp\<rparr>)"

definition wecom_decrypt :: "crypto_lib \<Rightarrow> wecom_crypto \<Rightarrow> wecom_encrypted \<Rightarrow> crypto_error + jstr" where
  "wecom_decrypt L w e =
     (if \<not> verify_signature L (wk_token w) (we_timestamp e) (we_nonce e) (we_msg_signature e) (we_xml_content e)
      then Inl Bad_signature
      else (case decrypt_message L (we_xml_content e) (wk_aes_key w) (wk_corp_id w) of
              Inl x \<Rightarrow> Inl x
            | Inr (content, _) \<Rightarrow> Inr content))"

text \<open>The reply carries the ciphertext, its signature, the time stamp and the nonce.\<close>

definition wecom_encrypt :: "crypto_lib \<Rightarrow> byte list \<Rightarrow> nat \<Rightarrow> jstr \<Rightarrow> wecom_crypto \<Rightarrow> jstr \<Rightarrow> crypto_error + wecom_encrypted" where
  "wecom_encrypt L rnd now_s nonce w reply =
     (case encrypt_message L rnd reply (wk_aes_key w) (wk_corp_id w) of
        Inl e \<Rightarrow> Inl e
      | Inr c \<Rightarrow> Inr \<lparr>we_xml_content = c,
          we_msg_signature = calculate_signature L (wk_token w) (nat_dec now_s) nonce c,
          we_timestamp = nat_dec now_s, we_nonce = nonce\<rparr>)"

section \<open>Padding\<close>

lemma length_pkcs7_pad: "length (pkcs7_pad d) = 32 * (length d div 32) + 32"
proof -
  have "32 * (length d div 32) + length d mod 32 = length d" "length d mod 32 < 32" by simp_all
  then show ?thesis unfolding pkcs7_pad_def block_size_def Let_def length_append length_replicate by linarith
qed

lemma pkcs7_unpad_tail:
  assumes "1 \<le> n" "n \<le> 32" "length g = n - 1"
  shows "pkcs7_unpad (d @ g @ [byte_of n]) = Inr d"
proof -
  have "nat (int (length d + n) - int n) = length d" by simp
  with assms show ?thesis by (simp add: pkcs7_unpad_def block_size_def subarray_take)
qed

lemma pkcs7_unpad_pad: "pkcs7_unpad (pkcs7_pad d) = Inr d"
proof -
  define n where "n = 32 - length d mod 32"
  have "length d mod 32 < 32" by simp
  then have n: "1 \<le> n" "n \<le> 32" unfolding n_def by linarith+
  then have "replicate n (byte_of n) = replicate (n - 1) (byte_of n) @ [byte_of n]"
    by (metis Suc_diff_1 One_nat_def less_eq_Suc_le replicate_Suc replicate_append_same)
  with pkcs7_unpad_tail [OF n, of "replicate (n - 1) (byte_of n)" d] show ?thesis
    by (simp add: pkcs7_pad_def block_size_def Let_def flip: n_def)
qed

lemma dvd_pkcs7_pad: "32 dvd length (pkcs7_pad d)"
  by (simp add: length_pkcs7_pad)

section \<open>Encrypted messages\<close>

lemma crypto_lawsD:
  assumes "crypto_laws L"
  shows "cl_b64_dec L (cl_b64_enc L x) = x" "length (cl_b64_enc L x) = 4 * ((length x + 2) div 3)"
    and "length key = 32 \<Longrightarrow> length iv = 16 \<Longrightarrow> 16 dvd length x \<Longrightarrow>
      \<exists>y. cl_aes_enc L key iv x = Some y \<and> length y = length x \<and> cl_aes_dec L key iv y = Some x"
    and "length (cl_sha1 L s) = 40"
  using assms by (auto simp: crypto_laws_def)

lemma open_frame_written:
  assumes "length rnd = 16" "length mb < 2 ^ 32" "mb = utf8 m" "well_formed m" "well_formed corp"
  shows "open_frame (rnd @ write_uint32_be (length mb) @ mb @ utf8 corp) corp' =
    (if corp \<noteq> corp' then Inl (Corp_mismatch corp' corp) else Inr (m, corp))"
  using assms by (simp add: open_frame_def read_write_uint32 slice_def from_utf8_utf8 Let_def)

text \<open>What the encryption makes of a message, and what the cipher gives back for it.\<close>

lemma encrypt_message_cipher:
  assumes "crypto_laws L" "length key = 32" "length (utf8 m) < 2 ^ 32"
  obtains y where "encrypt_message L rnd m key corp = Inr (cl_b64_enc L y)" "32 \<le> length y"
    "cl_aes_dec L key (slice 0 16 key) y = Some (pkcs7_pad (rnd @ write_uint32_be (length (utf8 m)) @ utf8 m @ utf8 corp))"
proof -
  let ?raw = "rnd @ write_uint32_be (length (utf8 m)) @ utf8 m @ utf8 corp"
  have "16 dvd length (pkcs7_pad ?raw)" using dvd_pkcs7_pad [of ?raw] by (rule dvd_trans [rotated]) simp
  with crypto_lawsD(3) [OF assms(1,2), of "slice 0 16 key" "pkcs7_pad ?raw"] assms(2)
  obtain y where "cl_aes_enc L key (slice 0 16 key) (pkcs7_pad ?raw) = Some y" "length y = length (pkcs7_pad ?raw)"
    "cl_aes_dec L key (slice 0 16 key) y = Some (pkcs7_pad ?raw)"
    by (auto simp: length_slice)
  with assms(3) that [of y] show ?thesis by (simp add: encrypt_message_def Let_def length_pkcs7_pad)
qed

text \<open>
  C15: An encrypted message decrypts to itself and its receiver, and to nothing under another
  receiver's name, whatever the random bytes are and whatever characters the message has.
\<close>

theorem encrypted_message_decrypts:
  assumes "crypto_laws L" "length rnd = 16" "length key = 32" "length (utf8 m) < 2 ^ 32"
    and "well_formed m" "well_formed corp"
  shows "\<exists>c. encrypt_message L rnd m key corp = Inr c
    \<and> (\<forall>corp'. decrypt_message L c key corp' = (if corp \<noteq> corp' then Inl (Corp_mismatch corp' corp) else Inr (m, corp)))"
proof -
  obtain y where y: "encrypt_message L rnd m key corp = Inr (cl_b64_enc L y)"
    "cl_aes_dec L key (slice 0 16 key) y = Some (pkcs7_pad (rnd @ write_uint32_be (length (utf8 m)) @ utf8 m @ utf8 corp))"
    using encrypt_message_cipher [OF assms(1,3,4)] by metis
  then show ?thesis
    using open_frame_written [OF assms(2,4) refl assms(5,6)] crypto_lawsD(1) [OF assms(1)]
    by (simp add: decrypt_message_def pkcs7_unpad_pad)
qed

text \<open>A library that satisfies the laws: the identity as cipher.\<close>

definition demo_crypto :: crypto_lib where
  "demo_crypto =
     \<lparr>cl_b64_enc = (\<lambda>x. if x = [] then []
         else map (\<lambda>b. of_nat (unat b)) x @ 1 # replicate (4 * ((length x + 2) div 3) - length x - 1) 0),
      cl_b64_dec = (\<lambda>s. map (\<lambda>c. of_nat (unat c)) (rev (tl (dropWhile (\<lambda>c. c = 0) (rev s))))),
      cl_aes_enc = (\<lambda>key iv x. Some x), cl_aes_dec = (\<lambda>key iv x. Some x),
      cl_sha1 = (\<lambda>s. take 40 (s @ replicate 40 0))\<rparr>"

lemma demo_crypto_laws: "crypto_laws demo_crypto"
proof -
  have "(ucast (ucast b :: cu) :: byte) = b" for b
    by (transfer) simp
  moreover have "dropWhile (\<lambda>c. c = 0) (replicate n 0 @ 1 # x) = 1 # x" for n :: nat and x :: jstr
    by (induction n) auto
  moreover have "Suc (4 * (Suc (Suc (length x)) div 3) - Suc 0) = 4 * (Suc (Suc (length x)) div 3)
      \<and> Suc (length x) \<le> 4 * (Suc (Suc (length x)) div 3)"
    if "x \<noteq> []" for x :: "byte list"
  proof -
    have "0 < n \<Longrightarrow> Suc n \<le> 4 * (Suc (Suc n) div 3)" for n by presburger
    from this [of "length x"] that show ?thesis by (simp add: le_add_diff_inverse)
  qed
  ultimately show ?thesis by (auto simp: crypto_laws_def demo_crypto_def comp_def)
qed

theorem encrypted_message_decrypts_witness:
  "\<exists>c. encrypt_message demo_crypto (replicate 16 7) (js ''hello'') (replicate 32 1) (js ''corp'') = Inr c
     \<and> decrypt_message demo_crypto c (replicate 32 1) (js ''corp'') = Inr (js ''hello'', js ''corp'')"
proof -
  have "\<forall>c \<in> set (js ''hello''). c < 128" "\<forall>c \<in> set (js ''corp''). c < 128" by (simp_all add: js_def)
  from encrypted_message_decrypts [OF demo_crypto_laws, of "replicate 16 7" "replicate 32 1" "js ''hello''" "js ''corp''"]
    this [THEN well_formed_ascii] length_utf8_ascii [OF this(1)]
  show ?thesis by auto
qed

text \<open>
  C16: A message that carries the right signature is rejected: \<open>decrypt\<close> hands the signature to
  the check as the ciphertext and the ciphertext as the signature, and a ciphertext is longer
  than any signature.
\<close>

theorem genuine_messages_are_rejected:
  assumes "crypto_laws L" "length (wk_aes_key w) = 32" "length (utf8 reply) < 2 ^ 32"
  shows "\<exists>e. wecom_encrypt L rnd now_s nonce w reply = Inr e
    \<and> verify_signature L (wk_token w) (we_timestamp e) (we_nonce e) (we_xml_content e) (we_msg_signature e)
    \<and> wecom_decrypt L w e = Inl Bad_signature"
proof -
  obtain y where y: "encrypt_message L rnd reply (wk_aes_key w) (wk_corp_id w) = Inr (cl_b64_enc L y)" "32 \<le> length y"
    using encrypt_message_cipher [OF assms] by metis
  then have "44 \<le> length (cl_b64_enc L y)" by (simp add: crypto_lawsD(2) [OF assms(1)])
  moreover have "length (calculate_signature L a b c d) = 40" for a b c d
    by (simp add: calculate_signature_def crypto_lawsD(4) [OF assms(1)])
  ultimately have "length (calculate_signature L a b c d) \<noteq> length (cl_b64_enc L y)" for a b c d by simp
  then have "calculate_signature L a b c d \<noteq> cl_b64_enc L y" for a b c d by metis
  with y(1) show ?thesis by (simp add: wecom_encrypt_def wecom_decrypt_def verify_signature_def)
qed

theorem genuine_messages_are_rejected_witness:
  "\<exists>e. wecom_encrypt demo_crypto (replicate 16 7) 1700000000 (js ''n'') \<lparr>wk_aes_key = replicate 32 1, wk_token = js ''t'', wk_corp_id = js ''c''\<rparr> (js ''hi'') = Inr e
     \<and> wecom_decrypt demo_crypto \<lparr>wk_aes_key = replicate 32 1, wk_token = js ''t'', wk_corp_id = js ''c''\<rparr> e = Inl Bad_signature"
proof -
  have "\<forall>c \<in> set (js ''hi''). c < 128" by (simp add: js_def)
  then have "length (utf8 (js ''hi'')) < 2 ^ 32" by (simp add: length_utf8_ascii)
  with genuine_messages_are_rejected [OF demo_crypto_laws,
      of "\<lparr>wk_aes_key = replicate 32 1, wk_token = js ''t'', wk_corp_id = js ''c''\<rparr>" "js ''hi''"]
  show ?thesis by fastforce
qed

text \<open>The signature does not depend on the order of its four parts.\<close>

lemma signature_symmetric:
  "mset [a, b, c, d] = mset [a', b', c', d'] \<Longrightarrow> calculate_signature L a b c d = calculate_signature L a' b' c' d'"
proof -
  assume m: "mset [a, b, c, d] = mset [a', b', c', d']"
  have "sort [a, b, c, d] = sort [a', b', c', d']"
    by (rule properties_for_sort [OF _ sorted_sort, symmetric]) (simp only: mset_sort m)
  then show ?thesis by (simp only: calculate_signature_def)
qed

text \<open>The padding bytes but the last are not looked at.\<close>

lemma padding_is_not_checked:
  "length g < 32 \<Longrightarrow> pkcs7_unpad (d @ g @ [byte_of (Suc (length g))]) = Inr d"
  using pkcs7_unpad_tail [of "Suc (length g)" g d] by simp

end
