(* ===== verification/Auth.thy ===== *)
theory Auth
  imports Js_Map Js_Bytes Bot_Cards Wecom_Crypto
begin

text \<open>
  Authentication of HTTP requests, gateway/src/middleware/auth.ts: tokens signed by the platform
  itself (HS256), tokens of the surrounding system (RS256), the public paths, and the hook that
  admits or rejects a request. Signatures, base64 and JSON come with Node: the record \<open>jwt_lib\<close>.
\<close>

record jwt_lib =
  jl_b64_dec :: "jstr \<Rightarrow> byte list"
  jl_hmac :: "jstr \<Rightarrow> byte list \<Rightarrow> byte list"  \<comment> \<open>secret and input\<close>
  jl_rsa_verify :: "jstr \<Rightarrow> byte list \<Rightarrow> byte list \<Rightarrow> jstr + bool"  \<comment> \<open>key, input, signature; \<open>Inl\<close> for a key that cannot be loaded\<close>
  jl_json :: "jstr \<Rightarrow> jval option"  \<comment> \<open>\<open>None\<close> for a syntax error\<close>
  jl_le :: "jstr \<Rightarrow> int \<Rightarrow> bool"  \<comment> \<open>a string compared with a number by \<open><=\<close>\<close>

text \<open>An \<open>AuthError\<close> with its code and message, or an exception of the platform.\<close>

datatype auth_error = Auth_error int jstr | Other_error

section \<open>Tokens\<close>

definition base64_url_decode :: "jwt_lib \<Rightarrow> jstr \<Rightarrow> byte list" where
  "base64_url_decode L s =
     (let padded = map (\<lambda>c. if c = 95 then 47 else c) (map (\<lambda>c. if c = 45 then 43 else c) s);
          pad = (if length padded mod 4 = 0 then [] else replicate (4 - length padded mod 4) 61)
      in jl_b64_dec L (padded @ pad))"

text \<open>
  \<open>v <= n\<close> for a number \<open>n\<close>: \<open>undefined\<close> and objects become NaN, an array the string of its
  elements. Objects with a member toString of their own are left aside here and in \<open>js_string\<close>.
\<close>

fun js_le :: "jwt_lib \<Rightarrow> jval \<Rightarrow> int \<Rightarrow> bool" where
  "js_le L JUndef n = False"
| "js_le L JNull n = (0 \<le> n)"
| "js_le L (JBool b) n = ((if b then 1 else 0) \<le> n)"
| "js_le L (JNum m) n = (m \<le> n)"
| "js_le L (JStr s) n = jl_le L s n"
| "js_le L (JArr vs) n = jl_le L (js_string (JArr vs)) n"
| "js_le L (JObj ob) n = False"

definition signing_input :: "jstr \<Rightarrow> jstr \<Rightarrow> byte list" where
  "signing_input h p = utf8 (h @ js ''.'' @ p)"

definition issuer_error :: "jstr \<Rightarrow> jval \<Rightarrow> auth_error" where
  "issuer_error expected iss =
     Auth_error 1003 (js ''JWT issuer mismatch: expected '' @ expected @ js '', got '' @ js_string iss)"

definition expired_error :: auth_error where
  "expired_error = Auth_error 1004 (js ''JWT token expired'')"

definition format_error :: auth_error where
  "format_error = Auth_error 1001 (js ''Invalid JWT format: expected 3 parts'')"

text \<open>The payload with \<open>userId\<close> filled in; a property of \<open>null\<close> throws.\<close>

definition hs256_claims :: "jwt_lib \<Rightarrow> jstr \<Rightarrow> jobj option" where
  "hs256_claims L payload =
     (case jl_json L (from_utf8 (base64_url_decode L payload)) of
        None \<Rightarrow> None
      | Some raw \<Rightarrow>
          if nullish raw then None
          else let ob = as_object raw in
            Some (jm_set (js ''userId'')
              (coalesce (coalesce (field_of ob (js ''userId'')) (field_of ob (js ''user_id''))) (JStr [])) ob))"

definition check_claims :: "jwt_lib \<Rightarrow> int \<Rightarrow> jstr \<Rightarrow> jobj \<Rightarrow> auth_error + jobj" where
  "check_claims L now issuer claims =
     (if field_of claims (js ''iss'') \<noteq> JStr issuer then Inl (issuer_error issuer (field_of claims (js ''iss'')))
      else if js_le L (field_of claims (js ''exp'')) now then Inl expired_error
      else Inr claims)"

text \<open>\<open>timingSafeEqual\<close> throws for buffers of different lengths.\<close>

definition verify_jwt :: "jwt_lib \<Rightarrow> int \<Rightarrow> jstr \<Rightarrow> jstr \<Rightarrow> jstr \<Rightarrow> auth_error + jobj" where
  "verify_jwt L now token secret issuer =
     (case split_on 46 token of
        [h, p, sg] \<Rightarrow>
          (let expected = jl_hmac L secret (signing_input h p); actual = base64_url_decode L sg in
           if length expected \<noteq> length actual then Inl Other_error
           else if expected \<noteq> actual then Inl (Auth_error 1002 (js ''JWT signature verification failed''))
           else (case hs256_claims L p of
                   None \<Rightarrow> Inl Other_error
                 | Some claims \<Rightarrow> check_claims L now issuer claims))
      | _ \<Rightarrow> Inl format_error)"

text \<open>\<open>authorization\<close> is the header, \<open>query\<close> the query parameters.\<close>

definition extract_token :: "jstr option \<Rightarrow> jobj \<Rightarrow> jstr option" where
  "extract_token authorization query =
     (case authorization of
        Some h \<Rightarrow> if starts_with h (js ''Bearer '') then Some (drop 7 h)
                  else nonempty (as_string (field_of query (js ''token'')))
      | None \<Rightarrow> nonempty (as_string (field_of query (js ''token''))))"

definition string_or :: "jval \<Rightarrow> jstr \<Rightarrow> jval" where
  "string_or v d = (case v of JStr s \<Rightarrow> JStr s | _ \<Rightarrow> JStr d)"

definition number_or_zero :: "jval \<Rightarrow> jval" where
  "number_or_zero v = (case v of JNum n \<Rightarrow> JNum n | _ \<Rightarrow> JNum 0)"

text \<open>The payload of the surrounding system mapped to the gateway's claims.\<close>

definition rs256_claims :: "jobj \<Rightarrow> jobj" where
  "rs256_claims raw =
     [jp ''userId'' (JStr (js_string (coalesce (coalesce (coalesce (field_of raw (js ''sub'')) (field_of raw (js ''userId'')))
         (field_of raw (js ''user_id''))) (JStr [])))),
      jp ''username'' (string_or (field_of raw (js ''username'')) []),
      jp ''department'' (string_or (field_of raw (js ''department'')) []),
      jp ''roles'' (case field_of raw (js ''roles'') of JArr rs \<Rightarrow> JArr (map (\<lambda>r. JStr (js_string r)) rs) | _ \<Rightarrow> JArr []),
      jp ''channel'' (string_or (field_of raw (js ''channel'')) (js ''web'')),
      jp ''agentId'' (if \<not> nullish (field_of raw (js ''agent_id'')) then JStr (js_string (field_of raw (js ''agent_id'')))
         else if \<not> nullish (field_of raw (js ''agentId'')) then JStr (js_string (field_of raw (js ''agentId'')))
         else JUndef),
      jp ''iss'' (string_or (field_of raw (js ''iss'')) []),
      jp ''exp'' (number_or_zero (field_of raw (js ''exp''))),
      jp ''iat'' (number_or_zero (field_of raw (js ''iat'')))]"

definition check_rs256_claims :: "jwt_lib \<Rightarrow> int \<Rightarrow> jstr \<Rightarrow> jobj \<Rightarrow> auth_error + jobj" where
  "check_rs256_claims L now issuer claims =
     (if issuer \<noteq> [] \<and> field_of claims (js ''iss'') \<noteq> JStr issuer
      then Inl (issuer_error issuer (field_of claims (js ''iss'')))
      else if js_le L (field_of claims (js ''exp'')) now then Inl expired_error
      else Inr claims)"

definition check_rs256_header :: "jwt_lib \<Rightarrow> jstr \<Rightarrow> auth_error option" where
  "check_rs256_header L h =
     (case jl_json L (from_utf8 (base64_url_decode L h)) of
        None \<Rightarrow> Some Other_error
      | Some header \<Rightarrow>
          if nullish header then Some Other_error
          else let alg = field_of (as_object header) (js ''alg'') in
            if alg \<noteq> JStr (js ''RS256'')
            then Some (Auth_error 1005 (js ''Unsupported JWT alg: '' @ js_string (coalesce alg (JStr (js ''unknown'')))))
            else None)"

definition verify_jwt_rs256 :: "jwt_lib \<Rightarrow> int \<Rightarrow> jstr \<Rightarrow> jstr \<Rightarrow> jstr \<Rightarrow> auth_error + jobj" where
  "verify_jwt_rs256 L now token pem issuer =
     (case split_on 46 token of
        [h, p, sg] \<Rightarrow>
          (case check_rs256_header L h of
             Some e \<Rightarrow> Inl e
           | None \<Rightarrow>
               (case jl_rsa_verify L pem (signing_input h p) (base64_url_decode L sg) of
                  Inl m \<Rightarrow> Inl (Auth_error 1006 (js ''Failed to load MIS JWT public key: '' @ m))
                | Inr False \<Rightarrow> Inl (Auth_error 1002 (js ''JWT signature verification failed (RS256)''))
                | Inr True \<Rightarrow>
                    (case jl_json L (from_utf8 (base64_url_decode L p)) of
                       None \<Rightarrow> Inl Other_error
                     | Some raw \<Rightarrow>
                         if nullish raw then Inl Other_error
                         else check_rs256_claims L now issuer (rs256_claims (as_object raw)))))
      | _ \<Rightarrow> Inl format_error)"

section \<open>Callback signatures\<close>

definition calculate_wecom_signature :: "crypto_lib \<Rightarrow> jstr \<Rightarrow> jstr \<Rightarrow> jstr \<Rightarrow> jstr \<Rightarrow> jstr" where
  "calculate_wecom_signature L token timestamp nonce enc = cl_sha1 L (join [] (sort [token, timestamp, nonce, enc]))"

definition verify_wecom_signature :: "crypto_lib \<Rightarrow> jstr \<Rightarrow> jstr \<Rightarrow> jstr \<Rightarrow> jstr \<Rightarrow> jstr \<Rightarrow> bool option" where
  "verify_wecom_signature L token timestamp nonce enc sig =
     (let a = utf8 (calculate_wecom_signature L token timestamp nonce enc); b = utf8 sig
      in if length a \<noteq> length b then None else Some (a = b))"

section \<open>The hook\<close>

definition public_paths :: "jstr list" where
  "public_paths = map js
     [''/health'', ''/health/live'', ''/health/ready'', ''/auth/wecom/js-sdk-config'', ''/auth/wecom/callback'',
      ''/auth/login'', ''/auth/refresh'', ''/admin/bots/health'']"

definition is_public_path :: "jstr \<Rightarrow> bool" where
  "is_public_path path = (\<exists>p \<in> set public_paths. path = p \<or> starts_with path (p @ js ''/''))"

record auth_config =
  ac_jwt_secret :: jstr
  ac_jwt_issuer :: jstr
  ac_mis_public_key :: "jstr option"
  ac_mis_issuer :: jstr

datatype auth_outcome = Public_request | Authenticated jobj | Rejected int jstr

text \<open>The platform's own tokens first, then those of the surrounding system when its key is configured.\<close>

definition verify_token :: "jwt_lib \<Rightarrow> int \<Rightarrow> auth_config \<Rightarrow> jstr \<Rightarrow> auth_error + jobj" where
  "verify_token L now cfg token =
     (case verify_jwt L now token (ac_jwt_secret cfg) (ac_jwt_issuer cfg) of
        Inr claims \<Rightarrow> Inr claims
      | Inl e \<Rightarrow>
          (case nonempty (ac_mis_public_key cfg) of
             Some pem \<Rightarrow> verify_jwt_rs256 L now token pem (ac_mis_issuer cfg)
           | None \<Rightarrow> Inl e))"

text \<open>What a rejected request is answered.\<close>

definition reject :: "auth_error \<Rightarrow> auth_outcome" where
  "reject e = (case e of Auth_error c m \<Rightarrow> Rejected c m | Other_error \<Rightarrow> Rejected 1002 (js ''JWT verification failed''))"

definition on_request :: "jwt_lib \<Rightarrow> int \<Rightarrow> auth_config \<Rightarrow> jstr \<Rightarrow> jstr option \<Rightarrow> jobj \<Rightarrow> auth_outcome" where
  "on_request L now cfg url authorization query =
     (if is_public_path (hd (split_on 63 url)) then Public_request
      else (case extract_token authorization query of
              None \<Rightarrow> Rejected 1001 (js ''Authentication required: no token provided'')
            | Some token \<Rightarrow>
                (case verify_token L now cfg token of
                   Inr claims \<Rightarrow> Authenticated claims
                 | Inl e \<Rightarrow> reject e)))"

section \<open>Accepted tokens\<close>

text \<open>The token has three parts, and \<open>ok\<close> holds of its signed text and its signature.\<close>

definition signed_token :: "jwt_lib \<Rightarrow> (byte list \<Rightarrow> byte list \<Rightarrow> bool) \<Rightarrow> jstr \<Rightarrow> bool" where
  "signed_token L ok token \<longleftrightarrow>
     (\<exists>h p sg. token = h @ js ''.'' @ p @ js ''.'' @ sg \<and> ok (signing_input h p) (base64_url_decode L sg))"

lemma split_on_3:
  assumes "split_on d s = [a, b, c]"
  shows "s = a @ [d] @ b @ [d] @ c"
proof -
  have "join [d] (split_on d s) = s" by simp
  with assms show ?thesis by simp
qed

lemma js_dot: "js ''.'' = [46]"
  by (simp add: js_def)

lemma verify_jwt_accepted:
  assumes "verify_jwt L now token secret issuer = Inr claims"
  shows "signed_token L (\<lambda>m sg. jl_hmac L secret m = sg) token
    \<and> field_of claims (js ''iss'') = JStr issuer \<and> \<not> js_le L (field_of claims (js ''exp'')) now"
proof -
  obtain h p sg where t: "split_on 46 token = [h, p, sg]"
    using assms by (auto simp: verify_jwt_def split: list.splits)
  with assms have m: "jl_hmac L secret (signing_input h p) = base64_url_decode L sg"
    and c: "\<exists>ob. check_claims L now issuer ob = Inr claims"
    by (auto simp: verify_jwt_def Let_def split: if_splits option.splits)
  from split_on_3 [OF t] m have "signed_token L (\<lambda>m sg. jl_hmac L secret m = sg) token"
    unfolding signed_token_def js_dot by auto
  with c show ?thesis by (auto simp: check_claims_def split: if_splits)
qed

lemma verify_jwt_rs256_accepted:
  assumes "verify_jwt_rs256 L now token pem issuer = Inr claims"
  shows "signed_token L (\<lambda>m sg. jl_rsa_verify L pem m sg = Inr True) token
    \<and> (issuer \<noteq> [] \<longrightarrow> field_of claims (js ''iss'') = JStr issuer) \<and> (\<exists>n. field_of claims (js ''exp'') = JNum n \<and> now < n)"
proof -
  obtain h p sg where t: "split_on 46 token = [h, p, sg]"
    using assms by (auto simp: verify_jwt_rs256_def split: list.splits)
  with assms obtain raw where "jl_rsa_verify L pem (signing_input h p) (base64_url_decode L sg) = Inr True"
    "check_rs256_claims L now issuer (rs256_claims raw) = Inr claims"
    by (auto simp: verify_jwt_rs256_def split: option.splits sum.splits bool.splits if_splits)
  moreover have "\<exists>n. field_of (rs256_claims raw) (js ''exp'') = JNum n"
    by (auto simp: rs256_claims_def number_or_zero_def split: jval.splits)
  ultimately show ?thesis
    using split_on_3 [OF t] by (auto simp: check_rs256_claims_def signed_token_def js_dot split: if_splits)
qed

text \<open>
  C17: A request that is not for a public path is let through only with a token whose text is
  signed: by the platform's own secret and issuer, not expired where it says so, or by the
  surrounding system's key and issuer, with an expiry in the future.
\<close>

theorem admitted_requests_are_authenticated:
  assumes "on_request L now cfg url authorization query = outcome" "\<not> is_public_path (hd (split_on 63 url))"
    and "\<forall>c m. outcome \<noteq> Rejected c m"
  shows "\<exists>token claims. outcome = Authenticated claims \<and> extract_token authorization query = Some token \<and>
    (signed_token L (\<lambda>m sg. jl_hmac L (ac_jwt_secret cfg) m = sg) token
       \<and> field_of claims (js ''iss'') = JStr (ac_jwt_issuer cfg) \<and> \<not> js_le L (field_of claims (js ''exp'')) now
     \<or> (\<exists>pem n. ac_mis_public_key cfg = Some pem \<and> pem \<noteq> []
       \<and> signed_token L (\<lambda>m sg. jl_rsa_verify L pem m sg = Inr True) token
       \<and> (ac_mis_issuer cfg \<noteq> [] \<longrightarrow> field_of claims (js ''iss'') = JStr (ac_mis_issuer cfg))
       \<and> field_of claims (js ''exp'') = JNum n \<and> now < n))"
proof -
  obtain token claims where t: "extract_token authorization query = Some token"
    "verify_token L now cfg token = Inr claims" "outcome = Authenticated claims"
    using assms by (auto simp: on_request_def reject_def split: option.splits sum.splits auth_error.splits)
  from t(2) consider "verify_jwt L now token (ac_jwt_secret cfg) (ac_jwt_issuer cfg) = Inr claims"
    | pem where "ac_mis_public_key cfg = Some pem" "pem \<noteq> []"
        "verify_jwt_rs256 L now token pem (ac_mis_issuer cfg) = Inr claims"
    by (auto simp: verify_token_def nonempty_eq_Some split: sum.splits option.splits)
  then show ?thesis
  proof cases
    case 1
    from verify_jwt_accepted [OF this] t show ?thesis by auto
  next
    case 2
    from verify_jwt_rs256_accepted [OF 2(3)] 2 t show ?thesis by auto
  qed
qed

text \<open>A library whose signature of a text is its length, and whose payloads all read the same.\<close>

definition demo_jwt :: "jobj \<Rightarrow> jwt_lib" where
  "demo_jwt ob =
     \<lparr>jl_b64_dec = (\<lambda>s. map (\<lambda>c. of_nat (unat c)) s), jl_hmac = (\<lambda>k m. map (\<lambda>c. 120) [0..<4]),
      jl_rsa_verify = (\<lambda>k m sg. Inr True), jl_json = (\<lambda>s. Some (JObj ob)), jl_le = (\<lambda>s n. False)\<rparr>"

definition demo_auth :: auth_config where
  "demo_auth = \<lparr>ac_jwt_secret = js ''k'', ac_jwt_issuer = js ''ai'', ac_mis_public_key = None, ac_mis_issuer = js ''mis''\<rparr>"

lemma demo_token: "split_on 46 (js ''h.p.xxxx'') = [js ''h'', js ''p'', js ''xxxx'']"
  by (simp add: js_def)

lemma demo_accepted:
  "verify_jwt (demo_jwt [jp ''iss'' (JStr (js ''ai''))]) now (js ''h.p.xxxx'') (js ''k'') (js ''ai'') =
     Inr [jp ''iss'' (JStr (js ''ai'')), jp ''userId'' (JStr [])]"
  unfolding verify_jwt_def demo_token
  by (simp add: demo_jwt_def hs256_claims_def check_claims_def base64_url_decode_def jm_set_def coalesce_def Let_def upt_rec
      js_def [of "''xxxx''"])

theorem admitted_requests_are_authenticated_witness:
  "\<exists>claims. on_request (demo_jwt [jp ''iss'' (JStr (js ''ai''))]) 5 demo_auth (js ''/chat'') (Some (js ''Bearer h.p.xxxx'')) [] = Authenticated claims
     \<and> field_of claims (js ''iss'') = JStr (js ''ai'')"
proof -
  let ?L = "demo_jwt [jp ''iss'' (JStr (js ''ai''))]"
  have u: "split_on 63 (js ''/chat'') = [js ''/chat'']" by (simp add: js_def)
  have p: "\<not> is_public_path (hd (split_on 63 (js ''/chat'')))"
    by (simp add: u is_public_path_def public_paths_def starts_with_def flip: js_append)
  have x: "extract_token (Some (js ''Bearer h.p.xxxx'')) [] = Some (js ''h.p.xxxx'')"
    by (simp add: extract_token_def starts_with_def) (simp add: js_def)
  have r: "on_request ?L 5 demo_auth (js ''/chat'') (Some (js ''Bearer h.p.xxxx'')) [] =
      Authenticated [jp ''iss'' (JStr (js ''ai'')), jp ''userId'' (JStr [])]"
    using p demo_accepted by (simp add: on_request_def x verify_token_def demo_auth_def)
  from admitted_requests_are_authenticated [OF r p] r show ?thesis by (auto simp: demo_auth_def)
qed

section \<open>Expiry\<close>

lemma check_claims_undated:
  "check_claims L now issuer ob = Inr claims \<Longrightarrow> field_of claims (js ''exp'') = JUndef \<Longrightarrow> check_claims L later issuer ob = Inr claims"
  by (auto simp: check_claims_def split: if_splits)

lemma verify_jwt_undated:
  assumes "verify_jwt L now token secret issuer = Inr claims" "field_of claims (js ''exp'') = JUndef"
  shows "verify_jwt L later token secret issuer = Inr claims"
  using assms check_claims_undated [of L now issuer _ claims later]
  by (auto simp: verify_jwt_def Let_def split: list.splits if_splits option.splits)

lemma check_rs256_claims_late:
  "check_rs256_claims L now issuer ob = Inr claims \<Longrightarrow> field_of claims (js ''exp'') = JNum n \<Longrightarrow> n \<le> later \<Longrightarrow>
    check_rs256_claims L later issuer ob = Inl expired_error"
  by (auto simp: check_rs256_claims_def split: if_splits)

lemma verify_jwt_rs256_late:
  assumes "verify_jwt_rs256 L now token pem issuer = Inr claims" "field_of claims (js ''exp'') = JNum n" "n \<le> later"
  shows "verify_jwt_rs256 L later token pem issuer = Inl expired_error"
  using assms check_rs256_claims_late [of L now issuer _ claims n later]
  by (auto simp: verify_jwt_rs256_def split: list.splits if_splits option.splits sum.splits bool.splits)

lemma rs256_tokens_expire: "\<exists>n. \<forall>later \<ge> n. \<forall>claims. verify_jwt_rs256 L later token pem issuer \<noteq> Inr claims"
proof (cases "\<exists>now claims. verify_jwt_rs256 L now token pem issuer = Inr claims")
  case True
  then obtain now claims n where "verify_jwt_rs256 L now token pem issuer = Inr claims" "field_of claims (js ''exp'') = JNum n"
    using verify_jwt_rs256_accepted by blast
  from verify_jwt_rs256_late [OF this] show ?thesis by (metis Inl_Inr_False)
qed auto

text \<open>
  A token of the platform without an expiry is accepted for ever once it is accepted, while
  no token of the surrounding system is accepted for ever.
\<close>

theorem undated_tokens_never_expire:
  assumes "verify_jwt L now token secret issuer = Inr claims" "field_of claims (js ''exp'') = JUndef"
  shows "(\<forall>later. verify_jwt L later token secret issuer = Inr claims)
    \<and> (\<forall>token' pem issuer'. \<exists>n. \<forall>later \<ge> n. \<forall>claims'. verify_jwt_rs256 L later token' pem issuer' \<noteq> Inr claims')"
  using verify_jwt_undated [OF assms] rs256_tokens_expire [of L] by auto

theorem undated_tokens_never_expire_witness:
  "verify_jwt (demo_jwt [jp ''iss'' (JStr (js ''ai''))]) 9999999999 (js ''h.p.xxxx'') (js ''k'') (js ''ai'') =
     Inr [jp ''iss'' (JStr (js ''ai'')), jp ''userId'' (JStr [])]"
  using undated_tokens_never_expire [OF demo_accepted [of 0]] by simp

section \<open>The type of the claims\<close>

fun is_str :: "jval \<Rightarrow> bool" where
  "is_str (JStr s) = True"
| "is_str _ = False"

fun is_num :: "jval \<Rightarrow> bool" where
  "is_num (JNum n) = True"
| "is_num _ = False"

text \<open>The interface \<open>JwtClaims\<close>.\<close>

definition jwt_claims_type :: "jobj \<Rightarrow> bool" where
  "jwt_claims_type c \<longleftrightarrow>
     list_all (\<lambda>k. is_str (field_of c (js k))) [''userId'', ''username'', ''department'', ''channel'', ''iss''] \<and>
     list_all (\<lambda>k. is_num (field_of c (js k))) [''exp'', ''iat''] \<and>
     (case field_of c (js ''roles'') of JArr rs \<Rightarrow> list_all is_str rs | _ \<Rightarrow> False) \<and>
     (field_of c (js ''agentId'') = JUndef \<or> is_str (field_of c (js ''agentId'')))"

lemma is_str_string_or [simp]: "is_str (string_or v d)"
  by (simp add: string_or_def split: jval.splits)

lemma is_num_number_or_zero [simp]: "is_num (number_or_zero v)"
  by (simp add: number_or_zero_def split: jval.splits)

lemma rs256_claims_type: "jwt_claims_type (rs256_claims raw)"
  by (simp add: jwt_claims_type_def rs256_claims_def list_all_iff split: jval.splits)

text \<open>
  C18: The claims taken from a token of the surrounding system have the declared type, whatever
  JSON the token carries.
\<close>

theorem mis_claims_have_their_type:
  assumes "verify_jwt_rs256 L now token pem issuer = Inr claims"
  shows "jwt_claims_type claims"
  using assms rs256_claims_type
  by (auto simp: verify_jwt_rs256_def check_rs256_claims_def split: list.splits if_splits option.splits sum.splits bool.splits)

lemma demo_rs256:
  "verify_jwt_rs256 (demo_jwt [jp ''iss'' (JStr (js ''ai'')), jp ''alg'' (JStr (js ''RS256'')), jp ''exp'' (JNum 9)]) 5 (js ''h.p.xxxx'') pem [] =
     Inr (rs256_claims [jp ''iss'' (JStr (js ''ai'')), jp ''alg'' (JStr (js ''RS256'')), jp ''exp'' (JNum 9)])"
  unfolding verify_jwt_rs256_def demo_token
  by (simp add: check_rs256_header_def check_rs256_claims_def demo_jwt_def rs256_claims_def number_or_zero_def Let_def)

theorem mis_claims_have_their_type_witness:
  "\<exists>claims. verify_jwt_rs256 (demo_jwt [jp ''iss'' (JStr (js ''ai'')), jp ''alg'' (JStr (js ''RS256'')), jp ''exp'' (JNum 9)]) 5
       (js ''h.p.xxxx'') [] [] = Inr claims \<and> jwt_claims_type claims"
  using demo_rs256 mis_claims_have_their_type [OF demo_rs256] by blast

section \<open>Public paths\<close>

text \<open>
  A path is public exactly when its segments begin with the segments of a listed path: a
  listed path never opens a path that merely begins with the same characters, or its parents.
\<close>

theorem public_paths_by_segments:
  "is_public_path path \<longleftrightarrow> (\<exists>p \<in> set public_paths. prefix (split_on 47 p) (split_on 47 path))"
  by (simp add: is_public_path_def starts_with_def js_def [of "''/''"] flip: segment_prefix)

end
