(* ===== verification/Log_Mask.thy ===== *)
theory Log_Mask
  imports Js_Prelude
begin

text \<open>
  The masking of sensitive members before logging, \<open>maskSensitiveFields\<close> of
  gateway/src/middleware/logger.ts. Object values are members in order, so an assignment to a
  new key appends; assigning \<open>__proto__\<close> creates no member.
\<close>

definition sensitive_fields :: "jstr list" where
  "sensitive_fields = map js
     [''password'', ''token'', ''api_key'', ''apikey'', ''api-key'', ''secret'', ''aes_key'', ''aesKey'',
      ''authorization'', ''cookie'', ''access_token'', ''accessToken'', ''refresh_token'', ''refreshToken'',
      ''corpSecret'', ''corp_secret'', ''encodingAesKey'', ''encoding_aes_key'']"

definition mask_value :: jval where
  "mask_value = JStr (js ''***'')"

fun object_typed :: "jval \<Rightarrow> bool" where
  "object_typed (JArr _) = True"
| "object_typed (JObj _) = True"
| "object_typed _ = False"

lemma size_member [termination_simp]: "(k, v) \<in> set ob \<Longrightarrow> size v < Suc (size_list (size_prod (\<lambda>_. 0) size) ob)"
  by (induction ob) auto

function mask_sensitive_fields :: "nat \<Rightarrow> jval \<Rightarrow> jval" where
  "mask_sensitive_fields d v =
     (if 10 < d then v
      else (case v of
        JArr vs \<Rightarrow> JArr (map (mask_sensitive_fields (d + 1)) vs)
      | JObj ob \<Rightarrow> JObj (map (\<lambda>(k, x).
            (k, if to_lower k \<in> set sensitive_fields then mask_value
                else if object_typed x then mask_sensitive_fields (d + 1) x
                else x))
          (filter (\<lambda>(k, x). k \<noteq> js ''__proto__'') ob))
      | _ \<Rightarrow> v))"
  by pat_completeness auto
termination by (relation "measure (\<lambda>(d, v). 11 - d)") auto

declare mask_sensitive_fields.simps [simp del]

text \<open>The members of a value and of the values in it, \<open>n\<close> levels deep.\<close>

primrec members :: "nat \<Rightarrow> jval \<Rightarrow> (jstr \<times> jval) list" where
  "members 0 v = []"
| "members (Suc n) v =
     (case v of
        JArr vs \<Rightarrow> concat (map (members n) vs)
      | JObj ob \<Rightarrow> concat (map (\<lambda>(k, x). (k, x) # members n x) ob)
      | _ \<Rightarrow> [])"

lemma members_scalar [simp]: "\<not> object_typed v \<Longrightarrow> members n v = []"
  by (cases n; cases v) auto

lemma mask_value_scalar [simp]: "\<not> object_typed mask_value"
  by (simp add: mask_value_def)

lemma masked_members:
  "(k, v) \<in> set (members n (mask_sensitive_fields d x)) \<Longrightarrow> n + d \<le> 11 \<Longrightarrow> to_lower k \<in> set sensitive_fields \<Longrightarrow> v = mask_value"
proof (induction n arbitrary: d x)
  case 0
  then show ?case by simp
next
  case (Suc n)
  note d = mask_sensitive_fields.simps [of d x]
  show ?case
  proof (cases x)
    case (JArr vs)
    with Suc d show ?thesis by auto
  next
    case (JObj ob)
    with Suc d show ?thesis by (auto split: if_splits)
  qed (use Suc d in simp_all)
qed


lemma lower_names: "to_lower (js ''Token'') = js ''token''" "to_lower (js ''user'') = js ''user''"
  by (simp_all add: to_lower_def lower_unit_def js_def)


section \<open>Names that are never masked\<close>

definition camel_case_fields :: "jstr list" where
  "camel_case_fields = map js [''aesKey'', ''accessToken'', ''refreshToken'', ''corpSecret'', ''encodingAesKey'']"

text \<open>
  The camel-case names of the list are never masked: a key is compared in lower case, which
  no camel-case entry equals, so a secret under such a name stays readable.
\<close>

theorem camel_case_names_stay_readable:
  "set camel_case_fields \<subseteq> set sensitive_fields
   \<and> (\<forall>k \<in> set camel_case_fields. mask_sensitive_fields 0 (JObj [(k, JStr s)]) = JObj [(k, JStr s)])"
proof -
  have "to_lower k \<notin> set sensitive_fields \<and> k \<noteq> js ''__proto__''" if "k \<in> set camel_case_fields" for k
    using that by (auto simp: camel_case_fields_def sensitive_fields_def to_lower_def lower_unit_def js_def)
  then show ?thesis
    by (auto simp: mask_sensitive_fields.simps) (auto simp: camel_case_fields_def sensitive_fields_def)
qed

theorem camel_case_names_stay_readable_witness:
  "mask_sensitive_fields 0 (JObj [(js ''accessToken'', JStr (js ''x''))]) = JObj [(js ''accessToken'', JStr (js ''x''))]"
  using camel_case_names_stay_readable by (simp add: camel_case_fields_def)

end
