(* ===== verification/H5_Adapter.thy ===== *)
theory H5_Adapter
  imports Message_Router Ownership
begin

text \<open>
  The web channels: gateway/src/adapters/h5/H5Adapter.ts, adapters/wecom/WecomH5Adapter.ts and
  the WebSocket endpoint of server.ts. Sockets and server-sent-event replies are numbers; the
  world records what was written to each of them. The owning gateway of a session is kept in
  Redis under \<open>session_gateway_key\<close>.
\<close>

section \<open>State\<close>

record h5_adapter =
  ha_ws :: "(jstr, nat) jmap"
  ha_sse :: "(jstr, nat) jmap"
  ha_redis :: bool

record 'r h5_world =
  hw_redis :: 'r
  hw_open :: "nat set"  \<comment> \<open>the sockets whose state is OPEN\<close>
  hw_frames :: "(nat \<times> jstr) list"  \<comment> \<open>socket and text, in order\<close>
  hw_started :: "nat list"  \<comment> \<open>replies whose head was written\<close>
  hw_chunks :: "(nat \<times> jstr) list"  \<comment> \<open>reply and text, in order\<close>
  hw_ended :: "nat list"  \<comment> \<open>replies that were ended\<close>
  hw_closed :: "nat list"  \<comment> \<open>sockets that were closed with code 1001\<close>

definition new_h5_adapter :: h5_adapter where
  "new_h5_adapter = \<lparr>ha_ws = jm_empty, ha_sse = jm_empty, ha_redis = False\<rparr>"

definition h5_bind_redis :: "h5_adapter \<Rightarrow> h5_adapter" where
  "h5_bind_redis a = a\<lparr>ha_redis := True\<rparr>"

definition session_ttl_sec :: nat where "session_ttl_sec = 3600"

section \<open>Messages\<close>

text \<open>\<open>u1\<close> and \<open>u2\<close> are the random identifiers.\<close>

definition h5_receive :: "jstr \<Rightarrow> jstr \<Rightarrow> jstr \<Rightarrow> jstr \<Rightarrow> jstr \<Rightarrow> jstr option \<Rightarrow> jval option \<Rightarrow> jstr \<Rightarrow> jstr \<Rightarrow> inbound_message" where
  "h5_receive ch u1 u2 now content mtype metadata user sid =
     \<lparr>im_id = u1, im_session_id = sid, im_user_id = user, im_user_mobile = None, im_channel_user_id = Some user,
      im_channel = ch, im_agent_id = None, im_content = content, im_message_type = default_to (js ''text'') mtype,
      im_trace_id = u2, im_timestamp = now, im_metadata = metadata, im_event_type = None, im_event_json = None,
      im_resume_token = None, im_selected_candidate = None, im_action = None\<rparr>"

definition event_frame :: "(jval \<Rightarrow> jstr) \<Rightarrow> jstr \<Rightarrow> string \<Rightarrow> jval \<Rightarrow> jstr" where
  "event_frame stringify now type event =
     stringify (JObj [jp ''type'' (JStr (js type)), jp ''event'' event, jp ''timestamp'' (JStr now)])"

definition stream_event :: "(jval \<Rightarrow> jstr) \<Rightarrow> jstr \<Rightarrow> jval \<Rightarrow> nat \<Rightarrow> 'r h5_world \<Rightarrow> 'r h5_world" where
  "stream_event stringify now event ws w =
     (if ws \<notin> hw_open w then w
      else w\<lparr>hw_frames := hw_frames w @ [(ws, event_frame stringify now ''agent_event'' event)]\<rparr>)"

definition send_sse_event :: "(jval \<Rightarrow> jstr) \<Rightarrow> jstr \<Rightarrow> jval \<Rightarrow> nat \<Rightarrow> 'r h5_world \<Rightarrow> 'r h5_world" where
  "send_sse_event stringify now event reply w =
     w\<lparr>hw_chunks := hw_chunks w @ [(reply, js ''data: '' @ event_frame stringify now ''agent_event'' event @ [10, 10])]\<rparr>"

definition h5_send :: "(jval \<Rightarrow> jstr) \<Rightarrow> jstr \<Rightarrow> jval \<Rightarrow> jstr \<Rightarrow> h5_adapter \<Rightarrow> 'r h5_world \<Rightarrow> 'r h5_world" where
  "h5_send stringify now event sid a w =
     (case jm_get (ha_ws a) sid of
        Some ws \<Rightarrow> stream_event stringify now event ws w
      | None \<Rightarrow> (case jm_get (ha_sse a) sid of
                   Some reply \<Rightarrow> send_sse_event stringify now event reply w
                 | None \<Rightarrow> w))"

definition has_active_connection :: "jstr \<Rightarrow> h5_adapter \<Rightarrow> 'r h5_world \<Rightarrow> bool" where
  "has_active_connection sid a w =
     ((case jm_get (ha_ws a) sid of Some ws \<Rightarrow> ws \<in> hw_open w | None \<Rightarrow> False)
      \<or> jm_get (ha_sse a) sid \<noteq> None)"

definition get_connection_count :: "h5_adapter \<Rightarrow> nat" where
  "get_connection_count a = length (ha_ws a) + length (ha_sse a)"

section \<open>Connections\<close>

text \<open>A rejected command is caught.\<close>

definition persist_session_gateway :: "'r kv_ops \<Rightarrow> jstr \<Rightarrow> jstr \<Rightarrow> jstr \<Rightarrow> h5_adapter \<Rightarrow> 'r h5_world \<Rightarrow> 'r h5_world" where
  "persist_session_gateway R p sid gw a w =
     (if \<not> ha_redis a \<or> sid = [] \<or> gw = [] \<or> kv_down R (hw_redis w) (session_gateway_key p sid) then w
      else w\<lparr>hw_redis := kv_set_px R (session_gateway_key p sid) gw (1000 * session_ttl_sec) (hw_redis w)\<rparr>)"

definition clear_session_gateway :: "'r kv_ops \<Rightarrow> jstr \<Rightarrow> jstr \<Rightarrow> h5_adapter \<Rightarrow> 'r h5_world \<Rightarrow> 'r h5_world" where
  "clear_session_gateway R p sid a w =
     (if \<not> ha_redis a \<or> sid = [] \<or> kv_down R (hw_redis w) (session_gateway_key p sid) then w
      else w\<lparr>hw_redis := kv_del R (session_gateway_key p sid) (hw_redis w)\<rparr>)"

type_synonym 'r h5_state = "h5_adapter \<times> 'r h5_world"

definition register_ws :: "'r kv_ops \<Rightarrow> jstr \<Rightarrow> jstr \<Rightarrow> nat \<Rightarrow> jstr \<Rightarrow> 'r h5_state \<Rightarrow> 'r h5_state" where
  "register_ws R p sid ws gw aw =
     (let a = (fst aw)\<lparr>ha_ws := jm_set sid ws (ha_ws (fst aw))\<rparr>
      in (a, persist_session_gateway R p sid gw a (snd aw)))"

definition unregister_ws :: "'r kv_ops \<Rightarrow> jstr \<Rightarrow> jstr \<Rightarrow> 'r h5_state \<Rightarrow> 'r h5_state" where
  "unregister_ws R p sid aw =
     (let a = (fst aw)\<lparr>ha_ws := jm_delete sid (ha_ws (fst aw))\<rparr>
      in (a, clear_session_gateway R p sid a (snd aw)))"

definition register_sse :: "'r kv_ops \<Rightarrow> jstr \<Rightarrow> jstr \<Rightarrow> nat \<Rightarrow> jstr option \<Rightarrow> 'r h5_state \<Rightarrow> 'r h5_state" where
  "register_sse R p sid reply gw aw =
     (let a = (fst aw)\<lparr>ha_sse := jm_set sid reply (ha_sse (fst aw))\<rparr>;
          w = (snd aw)\<lparr>hw_started := hw_started (snd aw) @ [reply]\<rparr>
      in (a, case nonempty gw of Some g \<Rightarrow> persist_session_gateway R p sid g a w | None \<Rightarrow> w))"

definition unregister_sse :: "'r kv_ops \<Rightarrow> jstr \<Rightarrow> jstr \<Rightarrow> 'r h5_state \<Rightarrow> 'r h5_state" where
  "unregister_sse R p sid aw =
     (let w = (case jm_get (ha_sse (fst aw)) sid of
                 Some reply \<Rightarrow> (snd aw)\<lparr>hw_ended := hw_ended (snd aw) @ [reply]\<rparr>
               | None \<Rightarrow> snd aw);
          a = (fst aw)\<lparr>ha_sse := jm_delete sid (ha_sse (fst aw))\<rparr>
      in (a, clear_session_gateway R p sid a w))"

definition close_all_connections :: "'r h5_state \<Rightarrow> 'r h5_state" where
  "close_all_connections aw =
     (let w = snd aw;
          w1 = w\<lparr>hw_closed := hw_closed w @ filter (\<lambda>ws. ws \<in> hw_open w) (map snd (ha_ws (fst aw)))\<rparr>;
          w2 = w1\<lparr>hw_ended := hw_ended w1 @ map snd (ha_sse (fst aw))\<rparr>
      in ((fst aw)\<lparr>ha_ws := jm_empty, ha_sse := jm_empty\<rparr>, w2))"

text \<open>The adapter of the WeCom pages keeps sockets only and does not fall back to replies.\<close>

definition wecom_h5_send :: "(jval \<Rightarrow> jstr) \<Rightarrow> jstr \<Rightarrow> jval \<Rightarrow> jstr \<Rightarrow> h5_adapter \<Rightarrow> 'r h5_world \<Rightarrow> 'r h5_world" where
  "wecom_h5_send stringify now event sid a w =
     (case jm_get (ha_ws a) sid of
        None \<Rightarrow> w
      | Some ws \<Rightarrow>
          if ws \<notin> hw_open w then w
          else w\<lparr>hw_frames := hw_frames w @ [(ws, event_frame stringify now ''agent_event'' event)]\<rparr>)"

section \<open>The chat endpoint\<close>

text \<open>The declared type of a frame on \<open>/ws/chat\<close>.\<close>

record entity_response =
  er_resume_token :: "jstr option"
  er_candidate :: "jval option"
  er_action :: "jstr option"

record chat_frame =
  cf_type :: "jstr option"
  cf_content :: "jstr option"
  cf_session_id :: "jstr option"
  cf_agent_id :: "jstr option"
  cf_message_type :: "jstr option"
  cf_metadata :: "jval option"
  cf_entity :: "entity_response option"

definition chat_session :: "jstr option \<Rightarrow> jstr \<Rightarrow> jstr" where
  "chat_session query uuid = default_to (generate_session_id Web uuid) (nonempty query)"

text \<open>What a frame asks to route, if anything; the user is the one of the token.\<close>

definition chat_request :: "jstr \<Rightarrow> jstr \<Rightarrow> jstr \<Rightarrow> chat_frame \<Rightarrow> inbound_params option" where
  "chat_request user sid rid m =
     (if cf_type m = Some (js ''ping'') \<or> cf_type m = Some (js ''session.create'') \<or> cf_type m = Some (js ''session.close'')
      then None
      else if cf_type m = Some (js ''entity_select'') then
        (case Option.bind (cf_entity m) (\<lambda>er. nonempty (er_resume_token er)) of
           None \<Rightarrow> None
         | Some tok \<Rightarrow> Some
             \<lparr>ip_user_id = user, ip_channel = js ''h5'', ip_content = [], ip_message_type = Some (js ''entity_select''),
              ip_session_id = Some (default_to sid (cf_session_id m)), ip_agent_id = cf_agent_id m, ip_trace_id = Some rid,
              ip_user_mobile = None, ip_channel_user_id = None,
              ip_metadata = Some (JObj [jp ''source'' (JStr (js ''h5-entity-select''))]), ip_resume_token = Some tok,
              ip_selected = Option.bind (cf_entity m) er_candidate, ip_action = Option.bind (cf_entity m) er_action\<rparr>)
      else if cf_type m = Some (js ''chat'') \<or> cf_content m \<noteq> None then Some
         \<lparr>ip_user_id = user, ip_channel = js ''h5'', ip_content = default_to [] (cf_content m),
          ip_message_type = cf_message_type m, ip_session_id = Some (default_to sid (cf_session_id m)),
          ip_agent_id = cf_agent_id m, ip_trace_id = Some rid, ip_user_mobile = None, ip_channel_user_id = None,
          ip_metadata = cf_metadata m, ip_resume_token = None, ip_selected = None, ip_action = None\<rparr>
      else None)"

definition chat_error_frame :: "(jval \<Rightarrow> jstr) \<Rightarrow> jstr" where
  "chat_error_frame stringify =
     stringify (JObj [jp ''type'' (JStr (js ''error'')), jp ''message'' (JStr (js ''Failed to process message''))])"

text \<open>
  The socket's three events. A frame that cannot be parsed or routed is answered with an error
  frame.
\<close>

definition chat_open :: "'r kv_ops \<Rightarrow> jstr \<Rightarrow> jstr \<Rightarrow> jstr \<Rightarrow> nat \<Rightarrow> 'r h5_state \<Rightarrow> 'r h5_state" where
  "chat_open R p gw sid ws aw = register_ws R p sid ws gw (fst aw, (snd aw)\<lparr>hw_open := insert ws (hw_open (snd aw))\<rparr>)"

definition chat_close :: "'r kv_ops \<Rightarrow> jstr \<Rightarrow> jstr \<Rightarrow> nat \<Rightarrow> 'r h5_state \<Rightarrow> 'r h5_state" where
  "chat_close R p sid ws aw = unregister_ws R p sid (fst aw, (snd aw)\<lparr>hw_open := hw_open (snd aw) - {ws}\<rparr>)"

definition chat_message ::
  "'r kv_ops \<Rightarrow> (jstr list \<Rightarrow> 'r \<Rightarrow> jstr option \<times> 'r) \<Rightarrow> (jval \<Rightarrow> jstr) \<Rightarrow> jstr \<Rightarrow> (jstr \<Rightarrow> chat_frame option) \<Rightarrow> jstr
     \<Rightarrow> jstr \<Rightarrow> jstr \<Rightarrow> jstr \<Rightarrow> jstr \<Rightarrow> jstr \<Rightarrow> jstr \<Rightarrow> nat \<Rightarrow> 'r h5_world \<Rightarrow> 'r h5_world" where
  "chat_message R xadd stringify p parse user sid rid u1 u2 now data ws w =
     (let failed = (\<lambda>w. if ws \<in> hw_open w then w\<lparr>hw_frames := hw_frames w @ [(ws, chat_error_frame stringify)]\<rparr> else w) in
      case parse data of
        None \<Rightarrow> failed w
      | Some m \<Rightarrow>
          (case chat_request user sid rid m of
             None \<Rightarrow> w
           | Some q \<Rightarrow>
               (case route R xadd stringify p now (create_inbound_message u1 u2 [] now q) (hw_redis w) of
                  (Inl e, _, r) \<Rightarrow> failed (w\<lparr>hw_redis := r\<rparr>)
                | (Inr _, _, r) \<Rightarrow> w\<lparr>hw_redis := r\<rparr>)))"

section \<open>Events reach the session's connection\<close>

lemma register_ws_adapter [simp]: "fst (register_ws R p sid ws gw aw) = (fst aw)\<lparr>ha_ws := jm_set sid ws (ha_ws (fst aw))\<rparr>"
  by (simp add: register_ws_def Let_def)

lemma unregister_ws_adapter [simp]: "fst (unregister_ws R p sid aw) = (fst aw)\<lparr>ha_ws := jm_delete sid (ha_ws (fst aw))\<rparr>"
  by (simp add: unregister_ws_def Let_def)

lemma persist_frame [simp]:
  "hw_open (persist_session_gateway R p sid gw a w) = hw_open w"
  "hw_frames (persist_session_gateway R p sid gw a w) = hw_frames w"
  "hw_chunks (persist_session_gateway R p sid gw a w) = hw_chunks w"
  by (simp_all add: persist_session_gateway_def)

lemma clear_frame [simp]:
  "hw_open (clear_session_gateway R p sid a w) = hw_open w"
  "hw_frames (clear_session_gateway R p sid a w) = hw_frames w"
  "hw_chunks (clear_session_gateway R p sid a w) = hw_chunks w"
  by (simp_all add: clear_session_gateway_def)

lemma register_ws_world [simp]:
  "hw_open (snd (register_ws R p sid ws gw aw)) = hw_open (snd aw)"
  "hw_frames (snd (register_ws R p sid ws gw aw)) = hw_frames (snd aw)"
  "hw_chunks (snd (register_ws R p sid ws gw aw)) = hw_chunks (snd aw)"
  by (simp_all add: register_ws_def Let_def)

lemma unregister_ws_world [simp]:
  "hw_open (snd (unregister_ws R p sid aw)) = hw_open (snd aw)"
  "hw_frames (snd (unregister_ws R p sid aw)) = hw_frames (snd aw)"
  "hw_chunks (snd (unregister_ws R p sid aw)) = hw_chunks (snd aw)"
  by (simp_all add: unregister_ws_def Let_def)

text \<open>
  The connections of the endpoint over time: \<open>cs\<close> are the open ones with the session they were
  opened for. In between, events are sent and Redis changes.
\<close>

inductive conn_run :: "'r kv_ops \<Rightarrow> jstr \<Rightarrow> jstr \<Rightarrow> (jstr \<times> nat) list \<Rightarrow> 'r h5_state \<Rightarrow> bool"
  for R :: "'r kv_ops" and p :: jstr and gw :: jstr where
  init: "ha_ws a = [] \<Longrightarrow> hw_open w = {} \<Longrightarrow> conn_run R p gw [] (a, w)"
| opened: "conn_run R p gw cs aw \<Longrightarrow> ws \<notin> snd ` set cs \<Longrightarrow> conn_run R p gw ((sid, ws) # cs) (chat_open R p gw sid ws aw)"
| closed: "conn_run R p gw cs aw \<Longrightarrow> (sid, ws) \<in> set cs \<Longrightarrow>
    conn_run R p gw (filter (\<lambda>c. c \<noteq> (sid, ws)) cs) (chat_close R p sid ws aw)"
| sse: "conn_run R p gw cs aw \<Longrightarrow> conn_run R p gw cs (register_sse R p sid reply (Some gw) aw)"
| sse_closed: "conn_run R p gw cs aw \<Longrightarrow> conn_run R p gw cs (unregister_sse R p sid aw)"
| sent: "conn_run R p gw cs (a, w) \<Longrightarrow> conn_run R p gw cs (a, h5_send stringify now event sid a w)"
| server: "conn_run R p gw cs (a, w) \<Longrightarrow> conn_run R p gw cs (a, w\<lparr>hw_redis := r\<rparr>)"

definition conn_inv :: "(jstr \<times> nat) list \<Rightarrow> 'r h5_state \<Rightarrow> bool" where
  "conn_inv cs aw \<longleftrightarrow> distinct (map snd cs) \<and> hw_open (snd aw) = snd ` set cs
     \<and> (\<forall>sid ws. jm_get (ha_ws (fst aw)) sid = Some ws \<longrightarrow> (sid, ws) \<in> set cs)"

lemma distinct_snd: "distinct (map snd cs) \<Longrightarrow> (a, x) \<in> set cs \<Longrightarrow> (b, x) \<in> set cs \<Longrightarrow> a = b"
  by (induction cs) (auto simp: rev_image_eqI)

lemma conn_run_inv: "conn_run R p gw cs aw \<Longrightarrow> conn_inv cs aw"
proof (induction rule: conn_run.induct)
  case (init a w)
  then show ?case by (simp add: conn_inv_def)
next
  case (opened cs aw ws sid)
  then show ?case by (auto simp: conn_inv_def chat_open_def)
next
  case (closed cs aw sid ws)
  then have "snd ` set (filter (\<lambda>c. c \<noteq> (sid, ws)) cs) = snd ` set cs - {ws}"
    by (auto simp: conn_inv_def dest: distinct_snd intro: rev_image_eqI)
  with closed show ?case
    by (auto simp: conn_inv_def chat_close_def distinct_filter_map)
next
  case (sse cs aw sid reply)
  then show ?case by (auto simp: conn_inv_def register_sse_def Let_def split: option.splits)
next
  case (sse_closed cs aw sid)
  then show ?case by (auto simp: conn_inv_def unregister_sse_def Let_def split: option.splits)
next
  case (sent cs a w stringify now event sid)
  then show ?case by (auto simp: conn_inv_def h5_send_def stream_event_def send_sse_event_def split: option.splits)
next
  case (server cs a w r)
  then show ?case by (simp add: conn_inv_def)
qed

text \<open>
  C20: An event for a session is written to no socket but one that was opened for this session
  and is still open, whatever connections come and go.
\<close>

theorem event_goes_to_own_connection:
  assumes "conn_run R p gw cs (a, w)"
  shows "hw_frames (h5_send stringify now event sid a w) = hw_frames w
    \<or> (\<exists>ws. (sid, ws) \<in> set cs \<and> ws \<in> hw_open w
        \<and> hw_frames (h5_send stringify now event sid a w) = hw_frames w @ [(ws, event_frame stringify now ''agent_event'' event)])"
  using conn_run_inv [OF assms]
  by (auto simp: conn_inv_def h5_send_def stream_event_def send_sse_event_def split: option.splits)

text \<open>
  A session that reconnects before its old socket is closed goes silent: the close of the old
  socket unregisters the new one, so events are dropped although the new socket is open, and the
  session's gateway is forgotten.
\<close>

theorem reconnected_session_goes_silent:
  assumes "redis_kv R" "\<forall>r k. \<not> kv_down R r k" "ha_redis a" "sid \<noteq> []"
    and "ws1 \<noteq> ws2" "jm_get (ha_sse a) sid = None"
    and "chat_close R p sid ws1 (chat_open R p gw sid ws2 (chat_open R p gw sid ws1 (a, w))) = (a', w')"
  shows "ws2 \<in> hw_open w' \<and> h5_send stringify now event sid a' w' = w'
    \<and> kv_get R (hw_redis w') (session_gateway_key p sid) = None"
proof -
  have g: "jm_get (ha_ws a') sid = None" "jm_get (ha_sse a') sid = None" "ws2 \<in> hw_open w'"
    using assms(5-7) by (auto simp: chat_close_def chat_open_def register_ws_def unregister_ws_def Let_def)
  moreover have "kv_get R (hw_redis w') (session_gateway_key p sid) = None"
    using assms(7) assms(2-4)
    by (auto simp: chat_close_def unregister_ws_def chat_open_def register_ws_def Let_def clear_session_gateway_def
        redis_kv.get_del [OF assms(1)])
  ultimately show ?thesis by (simp add: h5_send_def)
qed

text \<open>
  The record of the session's gateway is written once and never renewed: an hour after the
  connection it is gone, while the socket is still registered and takes events.
\<close>

theorem session_gateway_expires:
  assumes "redis_kv R" "\<forall>r k. \<not> kv_down R r k" "ha_redis a" "sid \<noteq> []" "gw \<noteq> []"
    and "chat_open R p gw sid ws (a, w) = (a', w')"
  shows "kv_get R (kv_tick R d (hw_redis w')) (session_gateway_key p sid) = (if d < 3600000 then Some gw else None)
    \<and> hw_frames (h5_send stringify now event sid a' w') = hw_frames w @ [(ws, event_frame stringify now ''agent_event'' event)]"
proof -
  have r: "hw_redis w' = kv_set_px R (session_gateway_key p sid) gw 3600000 (hw_redis w)"
    and "hw_frames w' = hw_frames w" "ws \<in> hw_open w'" "jm_get (ha_ws a') sid = Some ws"
    using assms(2-6)
    by (auto simp: chat_open_def register_ws_def Let_def persist_session_gateway_def session_ttl_sec_def)
  then show ?thesis
    using redis_kv.get_set [OF assms(1)] redis_kv.pttl_set [OF assms(1)] redis_kv.get_tick [OF assms(1)]
    by (simp add: h5_send_def stream_event_def)
qed

section \<open>Witnesses\<close>

definition demo_h5 :: "mem_kv h5_state" where
  "demo_h5 = (h5_bind_redis new_h5_adapter,
     \<lparr>hw_redis = mem_empty, hw_open = {}, hw_frames = [], hw_started = [], hw_chunks = [], hw_ended = [], hw_closed = []\<rparr>)"

lemma demo_h5_state:
  "ha_redis (fst demo_h5)" "ha_ws (fst demo_h5) = []" "jm_get (ha_sse (fst demo_h5)) sid = None"
  "hw_open (snd demo_h5) = {}" "hw_frames (snd demo_h5) = []"
  by (simp_all add: demo_h5_def h5_bind_redis_def new_h5_adapter_def)

lemma mem_never_down: "\<forall>r k. \<not> kv_down mem_ops r k"
  by (simp add: mem_ops_def)

theorem event_goes_to_own_connection_witness:
  "\<exists>a w. chat_open mem_ops (js ''aip:'') (js ''g'') (js ''s'') 7 demo_h5 = (a, w)
     \<and> hw_frames (h5_send js_string [] JNull (js ''s'') a w) = [(7, event_frame js_string [] ''agent_event'' JNull)]"
proof -
  obtain a w where c: "chat_open mem_ops (js ''aip:'') (js ''g'') (js ''s'') 7 demo_h5 = (a, w)" by fastforce
  have "conn_run mem_ops (js ''aip:'') (js ''g'') [] demo_h5"
    using conn_run.init [of "fst demo_h5" "snd demo_h5"] by (simp add: demo_h5_state)
  from conn_run.opened [OF this, of 7 "js ''s''"] c
  have "conn_run mem_ops (js ''aip:'') (js ''g'') [(js ''s'', 7)] (a, w)" by simp
  from event_goes_to_own_connection [OF this, of js_string "[]" JNull "js ''s''"] c show ?thesis
    by (auto simp: chat_open_def register_ws_def Let_def demo_h5_state h5_send_def stream_event_def)
qed

theorem reconnected_session_goes_silent_witness:
  "\<exists>a w. chat_close mem_ops (js ''aip:'') (js ''s'') 1 (chat_open mem_ops (js ''aip:'') (js ''g'') (js ''s'') 2
       (chat_open mem_ops (js ''aip:'') (js ''g'') (js ''s'') 1 demo_h5)) = (a, w)
     \<and> 2 \<in> hw_open w \<and> h5_send js_string [] JNull (js ''s'') a w = w"
proof -
  obtain a w where c: "chat_close mem_ops (js ''aip:'') (js ''s'') 1 (chat_open mem_ops (js ''aip:'') (js ''g'') (js ''s'') 2
       (chat_open mem_ops (js ''aip:'') (js ''g'') (js ''s'') 1 (fst demo_h5, snd demo_h5))) = (a, w)" by fastforce
  from reconnected_session_goes_silent [OF redis_kv_mem mem_never_down demo_h5_state(1) _ _ demo_h5_state(3) c] c
  show ?thesis by simp
qed

theorem session_gateway_expires_witness:
  "\<exists>a w. chat_open mem_ops (js ''aip:'') (js ''g'') (js ''s'') 1 demo_h5 = (a, w)
     \<and> kv_get mem_ops (kv_tick mem_ops 3600000 (hw_redis w)) (session_gateway_key (js ''aip:'') (js ''s'')) = None"
proof -
  obtain a w where c: "chat_open mem_ops (js ''aip:'') (js ''g'') (js ''s'') 1 (fst demo_h5, snd demo_h5) = (a, w)" by fastforce
  from session_gateway_expires [OF redis_kv_mem mem_never_down demo_h5_state(1) _ _ c, of 3600000] c
  show ?thesis by simp
qed

end
