(* ===== verification/Js_Number.thy ===== *)
theory Js_Number
  imports Js_Prelude
begin

text \<open>
  Reading decimal numbers: \<open>parseInt(s, 10)\<close>, and \<open>Number(s)\<close> for the numerals of identifiers. Both
  read back what \<open>String(n)\<close> writes of an integer.
\<close>

section \<open>Digits\<close>

definition digit :: "cu \<Rightarrow> bool" where
  "digit c \<longleftrightarrow> 48 \<le> c \<and> c \<le> 57"

definition digits_value :: "jstr \<Rightarrow> int" where
  "digits_value ds = foldl (\<lambda>n c. 10 * n + (int (unat c) - 48)) 0 ds"

lemma digits_value_snoc: "digits_value (ds @ [c]) = 10 * digits_value ds + (int (unat c) - 48)"
  by (simp add: digits_value_def)

lemma unat_digit: "n < 10 \<Longrightarrow> unat (of_nat (48 + n) :: cu) = 48 + n"
  by (simp add: unat_of_nat del: of_nat_add)

lemma digit_of_nat: "n < 10 \<Longrightarrow> digit (of_nat (48 + n))"
  by (simp add: digit_def word_le_nat_alt unat_digit del: of_nat_add)

lemma digits_value_nat_dec [simp]: "digits_value (nat_dec n) = int n"
proof (induction n rule: nat_dec.induct)
  case (1 n)
  show ?case
  proof (cases "n < 10")
    case True
    then have "nat_dec n = [] @ [of_nat (48 + n)]" by (subst nat_dec.simps) simp
    then show ?thesis using True by (simp only: digits_value_snoc unat_digit) (simp add: digits_value_def)
  next
    case False
    then have "nat_dec n = nat_dec (n div 10) @ [of_nat (48 + n mod 10)]" by (subst nat_dec.simps) simp
    then have "digits_value (nat_dec n) = 10 * digits_value (nat_dec (n div 10)) + (int (unat (of_nat (48 + n mod 10) :: cu)) - 48)"
      by (simp only: digits_value_snoc)
    also have "int (unat (of_nat (48 + n mod 10) :: cu)) = int (48 + n mod 10)" by (subst unat_digit) simp_all
    also have "digits_value (nat_dec (n div 10)) = int (n div 10)" using 1 False by simp
    finally have "digits_value (nat_dec n) = 10 * int (n div 10) + int (n mod 10)" by simp
    moreover have "int (10 * (n div 10) + n mod 10) = int n" by (simp only: mult_div_mod_eq)
    ultimately show ?thesis by (simp only: of_nat_add of_nat_mult of_nat_numeral)
  qed
qed

lemma digits_nat_dec: "list_all digit (nat_dec n)"
proof (induction n rule: nat_dec.induct)
  case (1 n)
  show ?case
  proof (cases "n < 10")
    case True
    then show ?thesis by (subst nat_dec.simps) (simp add: digit_of_nat del: of_nat_add)
  next
    case False
    with 1 show ?thesis by (subst nat_dec.simps) (simp add: digit_of_nat del: of_nat_add)
  qed
qed

lemma takeWhile_nat_dec [simp]: "takeWhile digit (nat_dec n) = nat_dec n"
  using digits_nat_dec [of n] by (simp add: takeWhile_eq_all_conv list_all_iff)

lemma digit_not_ws: "digit c \<Longrightarrow> \<not> is_ws c"
  by (auto simp: digit_def is_ws_def word_le_nat_alt unat_word_ariths dest: order_trans)

section \<open>parseInt and Number\<close>

text \<open>NaN is \<open>None\<close>.\<close>

definition parse_int_opt :: "jstr \<Rightarrow> int option" where
  "parse_int_opt s =
     (let t = dropWhile is_ws s;
          neg = (t \<noteq> [] \<and> hd t = 45);
          u = (if t \<noteq> [] \<and> (hd t = 45 \<or> hd t = 43) then tl t else t);
          ds = takeWhile digit u
      in if ds = [] then None else Some (if neg then - digits_value ds else digits_value ds))"

text \<open>
  \<open>Number(s)\<close> for a string that is empty or a decimal integer; any other string counts as NaN, so
  fractions, exponents and hexadecimal numerals, which the identifiers are not, are left out.
\<close>

definition id_number :: "jstr \<Rightarrow> int option" where
  "id_number s =
     (let t = trim s;
          neg = (t \<noteq> [] \<and> hd t = 45);
          ds = (if t \<noteq> [] \<and> (hd t = 45 \<or> hd t = 43) then tl t else t)
      in if t = [] then Some 0
         else if ds = [] \<or> \<not> list_all digit ds then None
         else Some (if neg then - digits_value ds else digits_value ds))"

lemma hd_nat_dec: "digit (hd (nat_dec n))"
  using digits_nat_dec [of n] by (cases "nat_dec n") auto

lemma dropWhile_ws_int_dec [simp]: "dropWhile is_ws (int_dec i) = int_dec i"
proof -
  have "\<not> is_ws (hd (int_dec i))"
    using digit_not_ws [OF hd_nat_dec [of "nat i"]] by (simp add: int_dec_def js_def is_ws_def)
  then show ?thesis by (cases "int_dec i") auto
qed

lemma trim_int_dec [simp]: "trim (int_dec i) = int_dec i"
proof -
  have l: "int_dec i \<noteq> []" by (simp add: int_dec_def)
  have "digit (last (nat_dec n))" for n using digits_nat_dec [of n] by (simp add: list_all_iff)
  then have "digit (last (int_dec i))" by (simp add: int_dec_def)
  then have "\<not> is_ws (hd (rev (int_dec i)))" using l by (simp add: hd_rev digit_not_ws)
  then have "dropWhile is_ws (rev (int_dec i)) = rev (int_dec i)" using l by (cases "rev (int_dec i)") auto
  then show ?thesis by (simp add: trim_def)
qed

lemma digit_sign: "\<not> digit 45" "\<not> digit 43"
  by (simp_all add: digit_def)

lemma parse_int_int_dec [simp]: "parse_int_opt (int_dec i) = Some i"
proof (cases "i < 0")
  case True
  then have "int_dec i = 45 # nat_dec (nat (- i))" by (simp add: int_dec_def js_def)
  moreover from this have "dropWhile is_ws (45 # nat_dec (nat (- i))) = 45 # nat_dec (nat (- i))" by (metis dropWhile_ws_int_dec)
  ultimately show ?thesis using True by (simp add: parse_int_opt_def Let_def del: dropWhile.simps)
next
  case False
  then have "int_dec i = nat_dec (nat i)" by (simp add: int_dec_def)
  moreover from this have "dropWhile is_ws (nat_dec (nat i)) = nat_dec (nat i)" by (metis dropWhile_ws_int_dec)
  moreover have "hd (nat_dec (nat i)) \<noteq> 45" "hd (nat_dec (nat i)) \<noteq> 43"
    using hd_nat_dec [of "nat i"] digit_sign by auto
  ultimately show ?thesis using False by (simp add: parse_int_opt_def Let_def)
qed

lemma id_number_int_dec [simp]: "id_number (int_dec i) = Some i"
proof (cases "i < 0")
  case True
  then have "int_dec i = 45 # nat_dec (nat (- i))" by (simp add: int_dec_def js_def)
  moreover from this have "trim (45 # nat_dec (nat (- i))) = 45 # nat_dec (nat (- i))" by (metis trim_int_dec)
  ultimately show ?thesis using True digits_nat_dec by (simp add: id_number_def Let_def)
next
  case False
  then have "int_dec i = nat_dec (nat i)" by (simp add: int_dec_def)
  moreover from this have "trim (nat_dec (nat i)) = nat_dec (nat i)" by (metis trim_int_dec)
  moreover have "hd (nat_dec (nat i)) \<noteq> 45" "hd (nat_dec (nat i)) \<noteq> 43"
    using hd_nat_dec [of "nat i"] digit_sign by auto
  ultimately show ?thesis using False digits_nat_dec by (simp add: id_number_def Let_def)
qed

end
