(* ===== verification/Wecom_Token.thy ===== *)
theory Wecom_Token
  imports Retry Bot_Cards Js_Bytes Js_Number
begin

text \<open>
  Access tokens and tickets of the WeCom API with their caches, and application messages:
  gateway/src/adapters/wecom/WecomJSSDKHelper.ts and WecomAppMessage.ts. The HTTP calls are
  arguments acting on a world \<open>'w\<close>; they are made through \<open>with_retry\<close>, whose surroundings
  \<open>E\<close> also give the time.
\<close>

section \<open>Requests\<close>

record token_answer =
  ta_errcode :: int
  ta_errmsg :: jstr
  ta_value :: jstr
  ta_expires_in :: int

datatype token_error = Request_failed "jval retry_error" | Api_error int jstr

type_synonym 'w http_get = "'w \<Rightarrow> (jval + token_answer) \<times> 'w"

text \<open>\<open>status\<close> gives the response status of an error of the HTTP library.\<close>

definition wecom_retry_options :: "(jval \<Rightarrow> int option) \<Rightarrow> jval retry_options" where
  "wecom_retry_options status = default_retry_options
     \<lparr>ro_max_retries := 3, ro_initial_delay := 1000,
      ro_retry_on := Some (\<lambda>e. is_network_error e \<or> (case status e of Some st \<Rightarrow> 500 \<le> st | None \<Rightarrow> False))\<rparr>"

definition checked_get :: "(jval, 'w) retry_env \<Rightarrow> (jval \<Rightarrow> int option) \<Rightarrow> 'w http_get \<Rightarrow> 'w \<Rightarrow> (token_error + token_answer) \<times> 'w" where
  "checked_get E status get w =
     (case with_retry E (wecom_retry_options status) get w of
        (Inl e, w1) \<Rightarrow> (Inl (Request_failed e), w1)
      | (Inr r, w1) \<Rightarrow>
          (let d = rr_value r
           in if ta_errcode d \<noteq> 0 then (Inl (Api_error (ta_errcode d) (ta_errmsg d)), w1) else (Inr d, w1)))"

section \<open>The caches\<close>

record cache_item =
  ci_value :: jstr
  ci_expires_at :: int

record js_sdk =
  jk_corp_id :: jstr
  jk_access_token :: "cache_item option"
  jk_ticket :: "cache_item option"

definition ttl_buffer :: int where "ttl_buffer = 300"

text \<open>The cached value while it is not expired.\<close>

definition cached :: "cache_item option \<Rightarrow> int \<Rightarrow> jstr option" where
  "cached c now = (case c of Some i \<Rightarrow> if now < ci_expires_at i then Some (ci_value i) else None | None \<Rightarrow> None)"

definition cache_answer :: "token_answer \<Rightarrow> int \<Rightarrow> cache_item" where
  "cache_answer d now = \<lparr>ci_value = ta_value d, ci_expires_at = now + (ta_expires_in d - ttl_buffer) * 1000\<rparr>"

definition get_access_token ::
  "(jval, 'w) retry_env \<Rightarrow> (jval \<Rightarrow> int option) \<Rightarrow> 'w http_get \<Rightarrow> js_sdk \<Rightarrow> 'w \<Rightarrow> (token_error + jstr) \<times> js_sdk \<times> 'w" where
  "get_access_token E status get s w =
     (case cached (jk_access_token s) (re_now E w) of
        Some v \<Rightarrow> (Inr v, s, w)
      | None \<Rightarrow>
          (case checked_get E status get w of
             (Inl e, w1) \<Rightarrow> (Inl e, s, w1)
           | (Inr d, w1) \<Rightarrow> (Inr (ta_value d), s\<lparr>jk_access_token := Some (cache_answer d (re_now E w1))\<rparr>, w1)))"

definition get_js_api_ticket ::
  "(jval, 'w) retry_env \<Rightarrow> (jval \<Rightarrow> int option) \<Rightarrow> 'w http_get \<Rightarrow> (jstr \<Rightarrow> 'w http_get) \<Rightarrow> js_sdk \<Rightarrow> 'w
     \<Rightarrow> (token_error + jstr) \<times> js_sdk \<times> 'w" where
  "get_js_api_ticket E status get get_ticket s w =
     (case cached (jk_ticket s) (re_now E w) of
        Some v \<Rightarrow> (Inr v, s, w)
      | None \<Rightarrow>
          (case get_access_token E status get s w of
             (Inl e, s1, w1) \<Rightarrow> (Inl e, s1, w1)
           | (Inr token, s1, w1) \<Rightarrow>
               (case checked_get E status (get_ticket token) w1 of
                  (Inl e, w2) \<Rightarrow> (Inl e, s1, w2)
                | (Inr d, w2) \<Rightarrow> (Inr (ta_value d), s1\<lparr>jk_ticket := Some (cache_answer d (re_now E w2))\<rparr>, w2))))"

record js_sdk_signature =
  sg_app_id :: jstr
  sg_timestamp :: jstr
  sg_nonce :: jstr
  sg_signature :: jstr

definition sign_url :: "(jstr \<Rightarrow> jstr) \<Rightarrow> jstr \<Rightarrow> jstr \<Rightarrow> jstr \<Rightarrow> jstr \<Rightarrow> jstr" where
  "sign_url sha1 ticket nonce timestamp url =
     sha1 (js ''jsapi_ticket='' @ ticket @ js ''&noncestr='' @ nonce @ js ''&timestamp='' @ timestamp @ js ''&url='' @ url)"

definition get_js_sdk_config ::
  "(jval, 'w) retry_env \<Rightarrow> (jval \<Rightarrow> int option) \<Rightarrow> 'w http_get \<Rightarrow> (jstr \<Rightarrow> 'w http_get) \<Rightarrow> (jstr \<Rightarrow> jstr) \<Rightarrow> jstr \<Rightarrow> jstr
     \<Rightarrow> js_sdk \<Rightarrow> 'w \<Rightarrow> (token_error + js_sdk_signature) \<times> js_sdk \<times> 'w" where
  "get_js_sdk_config E status get get_ticket sha1 nonce url s w =
     (case get_js_api_ticket E status get get_ticket s w of
        (Inl e, s1, w1) \<Rightarrow> (Inl e, s1, w1)
      | (Inr ticket, s1, w1) \<Rightarrow>
          (let timestamp = int_dec (re_now E w1 div 1000)
           in (Inr \<lparr>sg_app_id = jk_corp_id s1, sg_timestamp = timestamp, sg_nonce = nonce,
                 sg_signature = sign_url sha1 ticket nonce timestamp url\<rparr>, s1, w1)))"

definition invalidate_js_sdk :: "js_sdk \<Rightarrow> js_sdk" where
  "invalidate_js_sdk s = s\<lparr>jk_access_token := None, jk_ticket := None\<rparr>"

section \<open>Application messages\<close>

record app_message =
  am_agent_id :: jstr
  am_token :: "jstr option"
  am_expires_at :: int

definition new_app_message :: "jstr \<Rightarrow> app_message" where
  "new_app_message agent = \<lparr>am_agent_id = agent, am_token = None, am_expires_at = 0\<rparr>"

text \<open>\<open>parseInt(s, 10)\<close>; NaN is written to JSON as \<open>null\<close>.\<close>

definition parse_int :: "jstr \<Rightarrow> jval" where
  "parse_int s = (case parse_int_opt s of None \<Rightarrow> JNull | Some n \<Rightarrow> JNum n)"

definition app_access_token ::
  "(jval, 'w) retry_env \<Rightarrow> (jval \<Rightarrow> int option) \<Rightarrow> 'w http_get \<Rightarrow> app_message \<Rightarrow> 'w \<Rightarrow> (token_error + jstr) \<times> app_message \<times> 'w" where
  "app_access_token E status get s w =
     (let fetch = (case checked_get E status get w of
                     (Inl e, w1) \<Rightarrow> (Inl e, s, w1)
                   | (Inr d, w1) \<Rightarrow> (Inr (ta_value d),
                       s\<lparr>am_token := Some (ta_value d), am_expires_at := re_now E w1 + (ta_expires_in d - 300) * 1000\<rparr>, w1))
      in case am_token s of
           Some v \<Rightarrow> if re_now E w < am_expires_at s then (Inr v, s, w) else fetch
         | None \<Rightarrow> fetch)"

text \<open>\<open>post token message\<close> is the call of the sending interface; its value is the message id.\<close>

definition send_message ::
  "(jval, 'w) retry_env \<Rightarrow> (jval \<Rightarrow> int option) \<Rightarrow> 'w http_get \<Rightarrow> (jstr \<Rightarrow> jobj \<Rightarrow> 'w http_get) \<Rightarrow> jobj \<Rightarrow> app_message \<Rightarrow> 'w
     \<Rightarrow> (token_error + jstr) \<times> app_message \<times> 'w" where
  "send_message E status get post message s w =
     (case app_access_token E status get s w of
        (Inl e, s1, w1) \<Rightarrow> (Inl e, s1, w1)
      | (Inr token, s1, w1) \<Rightarrow>
          (case checked_get E status (post token message) w1 of
             (Inl e, w2) \<Rightarrow> (Inl e, s1, w2)
           | (Inr d, w2) \<Rightarrow> (Inr (ta_value d), s1, w2)))"

definition text_message :: "app_message \<Rightarrow> jstr \<Rightarrow> jstr \<Rightarrow> jobj" where
  "text_message s touser content =
     [jp ''touser'' (JStr touser), jp ''msgtype'' (JStr (js ''text'')), jp ''agentid'' (parse_int (am_agent_id s)),
      jp ''text'' (JObj [jp ''content'' (JStr content)]), jp ''enable_id_trans'' (JBool True),
      jp ''enable_duplicate_check'' (JBool True), jp ''duplicate_check_interval'' (JNum 1800)]"

definition markdown_message :: "app_message \<Rightarrow> jstr \<Rightarrow> jstr \<Rightarrow> jobj" where
  "markdown_message s touser content =
     [jp ''touser'' (JStr touser), jp ''msgtype'' (JStr (js ''markdown'')), jp ''agentid'' (parse_int (am_agent_id s)),
      jp ''markdown'' (JObj [jp ''content'' (JStr content)]), jp ''enable_id_trans'' (JBool True)]"

definition news_message :: "app_message \<Rightarrow> jstr \<Rightarrow> jstr \<Rightarrow> jstr \<Rightarrow> jstr \<Rightarrow> jstr \<Rightarrow> jobj" where
  "news_message s touser title description url picurl =
     [jp ''touser'' (JStr touser), jp ''msgtype'' (JStr (js ''news'')), jp ''agentid'' (parse_int (am_agent_id s)),
      jp ''news'' (JObj [jp ''articles'' (JArr [JObj [jp ''title'' (JStr title), jp ''description'' (JStr description),
         jp ''url'' (JStr url), jp ''picurl'' (JStr picurl)]])]),
      jp ''enable_id_trans'' (JBool True)]"

text \<open>Heading, title, description and link, separated by empty lines.\<close>

definition approval_content :: "jstr \<Rightarrow> jstr \<Rightarrow> jstr \<Rightarrow> jstr" where
  "approval_content title description url =
     join [10] [js ''## '' @ [0x5BA1, 0x6279, 0x901A, 0x77E5], [], js ''**'' @ title @ js ''**'', [], description, [],
       js ''['' @ [0x70B9, 0x51FB, 0x67E5, 0x770B, 0x8BE6, 0x60C5, 0x5E76, 0x5904, 0x7406] @ js ''](''  @ url @ js '')'']"

definition send_approval_notification ::
  "(jval, 'w) retry_env \<Rightarrow> (jval \<Rightarrow> int option) \<Rightarrow> 'w http_get \<Rightarrow> (jstr \<Rightarrow> jobj \<Rightarrow> 'w http_get) \<Rightarrow> jstr \<Rightarrow> jstr \<Rightarrow> jstr
     \<Rightarrow> jstr \<Rightarrow> app_message \<Rightarrow> 'w \<Rightarrow> (token_error + jstr) \<times> app_message \<times> 'w" where
  "send_approval_notification E status get post touser title description url s w =
     send_message E status get post (markdown_message s touser (approval_content title description url)) s w"

definition invalidate_app :: "app_message \<Rightarrow> app_message" where
  "invalidate_app s = s\<lparr>am_token := None, am_expires_at := 0\<rparr>"

section \<open>Caching\<close>

text \<open>
  After a request for an access token, the token is handed out without a request until five
  minutes before the life the answer gave it is over, and from then on a new one is requested.
\<close>

theorem access_token_is_cached:
  assumes "get_access_token E status get s w = (Inr v, s1, w1)" "cached (jk_access_token s) (re_now E w) = None"
  shows "\<exists>d. checked_get E status get w = (Inr d, w1) \<and> ta_value d = v \<and> (\<forall>w2.
    if re_now E w2 < re_now E w1 + (ta_expires_in d - 300) * 1000
    then get_access_token E status get s1 w2 = (Inr v, s1, w2)
    else snd (snd (get_access_token E status get s1 w2)) = snd (checked_get E status get w2))"
proof -
  obtain d where d: "checked_get E status get w = (Inr d, w1)" "v = ta_value d"
    "s1 = s\<lparr>jk_access_token := Some (cache_answer d (re_now E w1))\<rparr>"
    using assms by (auto simp: get_access_token_def split: prod.splits sum.splits)
  then show ?thesis
    by (auto simp: get_access_token_def cached_def cache_answer_def ttl_buffer_def split: prod.splits sum.splits)
qed

definition demo_get :: "nat http_get" where
  "demo_get w = (Inr \<lparr>ta_errcode = 0, ta_errmsg = [], ta_value = nat_dec w, ta_expires_in = 7200\<rparr>, Suc w)"

definition demo_clock :: "(jval, nat) retry_env" where
  "demo_clock = \<lparr>re_now = int, re_sleep = (\<lambda>d w. w), re_random = (\<lambda>w. (0, w)), re_on_retry = (\<lambda>e n d w. w)\<rparr>"

definition demo_sdk :: js_sdk where
  "demo_sdk = \<lparr>jk_corp_id = js ''corp'', jk_access_token = None, jk_ticket = None\<rparr>"

lemma demo_checked_get: "checked_get demo_clock (\<lambda>e. None) demo_get w = (Inr \<lparr>ta_errcode = 0, ta_errmsg = [], ta_value = nat_dec w, ta_expires_in = 7200\<rparr>, Suc w)"
  by (simp add: checked_get_def with_retry_def retry_from.simps demo_get_def wecom_retry_options_def default_retry_options_def Let_def)

theorem access_token_is_cached_witness:
  "\<exists>s1. get_access_token demo_clock (\<lambda>e. None) demo_get demo_sdk 0 = (Inr (nat_dec 0), s1, 1)
     \<and> get_access_token demo_clock (\<lambda>e. None) demo_get s1 6900000 = (Inr (nat_dec 0), s1, 6900000)"
proof -
  obtain s1 where g: "get_access_token demo_clock (\<lambda>e. None) demo_get demo_sdk 0 = (Inr (nat_dec 0), s1, 1)"
    by (simp add: get_access_token_def demo_checked_get demo_sdk_def cached_def)
  have "cached (jk_access_token demo_sdk) (re_now demo_clock 0) = None" by (simp add: demo_sdk_def cached_def)
  from access_token_is_cached [OF g this] obtain d where
    d: "checked_get demo_clock (\<lambda>e. None) demo_get 0 = (Inr d, 1)"
    and f: "if re_now demo_clock 6900000 < re_now demo_clock 1 + (ta_expires_in d - 300) * 1000
      then get_access_token demo_clock (\<lambda>e. None) demo_get s1 6900000 = (Inr (nat_dec 0), s1, 6900000) else True"
    by (metis (full_types))
  from d have "ta_expires_in d = 7200" by (auto simp: demo_checked_get)
  with f have "get_access_token demo_clock (\<lambda>e. None) demo_get s1 6900000 = (Inr (nat_dec 0), s1, 6900000)"
    by (simp add: demo_clock_def)
  with g show ?thesis by blast
qed

text \<open>A token the API rejects stays in the cache: every message until its expiry goes out with it.\<close>

lemma rejected_token_is_kept:
  assumes "am_token s = Some v" "re_now E w < am_expires_at s" "send_message E status get post message s w = (Inl e, s1, w1)"
    and "re_now E w2 < am_expires_at s"
  shows "s1 = s \<and> snd (snd (send_message E status get post message2 s1 w2)) = snd (checked_get E status (post v message2) w2)"
  using assms by (auto simp: send_message_def app_access_token_def split: prod.splits sum.splits)

end
