(* ===== verification/Tab_Store.thy ===== *)
theory Tab_Store
  imports Js_Map
begin

text \<open>
  The workspace tabs of the administration frontend,
  frontend/mis-admin-web/src/stores/tab-store.ts with the landing routes of lib/nav/host-apps.ts.
  The store is a record; a null and a missing optional member are both \<open>None\<close>.
  Tables keyed by application code are plain objects; codes are taken not to be names of members
  of \<open>Object.prototype\<close>.
\<close>

section \<open>The store\<close>

record tab =
  tb_id :: jstr
  tb_path :: jstr
  tb_title :: jstr
  tb_icon :: "jstr option"
  tb_pinned :: "bool option"
  tb_app :: "jstr option"

record tab_state =
  ts_tabs :: "tab list"
  ts_active :: "jstr option"
  ts_last :: "(jstr, jstr) jmap"  \<comment> \<open>\<open>lastActivePathByApp\<close>\<close>

definition default_app :: jstr where "default_app = js ''system''"

definition dashboard_tab :: "jstr \<Rightarrow> tab" where
  "dashboard_tab title = \<lparr>tb_id = js ''/dashboard'', tb_path = js ''/dashboard'', tb_title = title,
     tb_icon = Some (js ''LayoutDashboard''), tb_pinned = Some True, tb_app = Some default_app\<rparr>"

definition initial_tabs :: "jstr \<Rightarrow> tab_state" where
  "initial_tabs title = \<lparr>ts_tabs = [dashboard_tab title], ts_active = Some (js ''/dashboard''),
     ts_last = [(default_app, js ''/dashboard'')]\<rparr>"

abbreviation pinned :: "tab \<Rightarrow> bool" where
  "pinned t \<equiv> tb_pinned t = Some True"

definition tab_app_code :: "tab option \<Rightarrow> jstr" where
  "tab_app_code t = default_to default_app (Option.bind t tb_app)"

abbreviation app_of :: "tab \<Rightarrow> jstr" where
  "app_of t \<equiv> tab_app_code (Some t)"

definition find_tab :: "jstr \<Rightarrow> tab list \<Rightarrow> tab option" where
  "find_tab i ts = List.find (\<lambda>t. tb_id t = i) ts"

definition with_last_active :: "(jstr, jstr) jmap \<Rightarrow> jstr \<Rightarrow> jstr \<Rightarrow> (jstr, jstr) jmap" where
  "with_last_active m app path = (if jm_get m app = Some path then m else jm_set app path m)"

text \<open>What an existing tab takes over from the opened one.\<close>

definition refresh_tab :: "tab \<Rightarrow> tab \<Rightarrow> tab" where
  "refresh_tab tb t = t\<lparr>tb_title := (if tb_title tb = [] then tb_title t else tb_title tb),
     tb_icon := orelse (tb_icon tb) (tb_icon t), tb_pinned := orelse (tb_pinned tb) (tb_pinned t),
     tb_app := orelse (tb_app tb) (tb_app t)\<rparr>"

text \<open>The argument of \<open>openTab\<close> is a tab whose identifier may be missing.\<close>

definition open_tab :: "jstr option \<Rightarrow> tab \<Rightarrow> tab_state \<Rightarrow> tab_state" where
  "open_tab given tb s =
     (let i = default_to (tb_path tb) given;
          found = find_tab i (ts_tabs s);
          app = default_to (tab_app_code found) (tb_app tb)
      in case found of
           Some e \<Rightarrow>
             s\<lparr>ts_active := Some i, ts_last := with_last_active (ts_last s) app (tb_path e),
               ts_tabs := map (\<lambda>t. if tb_id t = i then refresh_tab tb t else t) (ts_tabs s)\<rparr>
         | None \<Rightarrow>
             s\<lparr>ts_tabs := ts_tabs s @ [tb\<lparr>tb_id := i, tb_pinned := Some (default_to False (tb_pinned tb)), tb_app := Some app\<rparr>],
               ts_active := Some i, ts_last := with_last_active (ts_last s) app (tb_path tb)\<rparr>)"

definition activate_tab :: "jstr \<Rightarrow> tab_state \<Rightarrow> tab_state" where
  "activate_tab i s =
     (case find_tab i (ts_tabs s) of
        None \<Rightarrow> s\<lparr>ts_active := Some i\<rparr>
      | Some t \<Rightarrow> s\<lparr>ts_active := Some i, ts_last := with_last_active (ts_last s) (app_of t) (tb_path t)\<rparr>)"

fun index_of :: "jstr \<Rightarrow> tab list \<Rightarrow> nat" where
  "index_of i [] = 0"
| "index_of i (t # ts) = (if tb_id t = i then 0 else Suc (index_of i ts))"

text \<open>\<open>nextTabs[Math.max(0, idx - 1)] ?? nextTabs[0] ?? null\<close>.\<close>

definition neighbour :: "nat \<Rightarrow> tab list \<Rightarrow> tab option" where
  "neighbour k ts = (if k - 1 < length ts then Some (ts ! (k - 1)) else case ts of [] \<Rightarrow> None | t # _ \<Rightarrow> Some t)"

definition forget_closed :: "tab \<Rightarrow> tab list \<Rightarrow> jstr option \<Rightarrow> (jstr, jstr) jmap \<Rightarrow> (jstr, jstr) jmap" where
  "forget_closed target next_tabs next_active m =
     (let app = app_of target in
      if jm_get m app \<noteq> Some (tb_path target) then m
      else case Option.bind next_active (\<lambda>i. find_tab i next_tabs) of
             Some t \<Rightarrow> if app_of t = app then jm_set app (tb_path t) m
                       else (case List.find (\<lambda>t. app_of t = app) next_tabs of
                               Some t \<Rightarrow> jm_set app (tb_path t) m | None \<Rightarrow> jm_delete app m)
           | None \<Rightarrow> (case List.find (\<lambda>t. app_of t = app) next_tabs of
                        Some t \<Rightarrow> jm_set app (tb_path t) m | None \<Rightarrow> jm_delete app m))"

definition close_tab :: "jstr \<Rightarrow> tab_state \<Rightarrow> jstr option \<times> tab_state" where
  "close_tab i s =
     (case find_tab i (ts_tabs s) of
        None \<Rightarrow> (ts_active s, s)
      | Some target \<Rightarrow>
          if pinned target then (ts_active s, s)
          else (let next_tabs = filter (\<lambda>t. tb_id t \<noteq> i) (ts_tabs s);
                    next_active = (if ts_active s = Some i then map_option tb_id (neighbour (index_of i (ts_tabs s)) next_tabs)
                                   else ts_active s)
                in (next_active, s\<lparr>ts_tabs := next_tabs, ts_active := next_active,
                      ts_last := forget_closed target next_tabs next_active (ts_last s)\<rparr>)))"

definition remember_all :: "tab list \<Rightarrow> (jstr, jstr) jmap \<Rightarrow> (jstr, jstr) jmap" where
  "remember_all ts m = foldl (\<lambda>m t. jm_set (app_of t) (tb_path t) m) m ts"

definition close_others :: "jstr \<Rightarrow> tab_state \<Rightarrow> tab_state" where
  "close_others i s =
     (let keep = filter (\<lambda>t. pinned t \<or> tb_id t = i) (ts_tabs s);
          m1 = remember_all (filter (\<lambda>t. tb_id t = i \<or> pinned t) keep) (ts_last s);
          m2 = filter (\<lambda>e. \<exists>t \<in> set keep. app_of t = fst e) m1;
          m3 = (case find_tab i keep of Some t \<Rightarrow> jm_set (app_of t) (tb_path t) m2 | None \<Rightarrow> m2)
      in s\<lparr>ts_tabs := keep, ts_active := Some i, ts_last := m3\<rparr>)"

definition close_all :: "tab_state \<Rightarrow> jstr option \<times> tab_state" where
  "close_all s =
     (let keep = filter pinned (ts_tabs s);
          next = (case keep of [] \<Rightarrow> None | t # _ \<Rightarrow> Some (tb_id t))
      in (next, s\<lparr>ts_tabs := keep, ts_active := next, ts_last := remember_all keep []\<rparr>))"

definition set_active_by_path :: "jstr \<Rightarrow> tab_state \<Rightarrow> tab_state" where
  "set_active_by_path path s =
     (case List.find (\<lambda>t. tb_path t = path) (ts_tabs s) of
        None \<Rightarrow> s
      | Some t \<Rightarrow> s\<lparr>ts_active := Some (tb_id t), ts_last := with_last_active (ts_last s) (app_of t) (tb_path t)\<rparr>)"

definition get_last_active_path :: "jstr \<Rightarrow> tab_state \<Rightarrow> jstr option" where
  "get_last_active_path app s =
     (case nonempty (jm_get (ts_last s) app) of
        None \<Rightarrow> None
      | Some path \<Rightarrow> if \<exists>t \<in> set (ts_tabs s). tb_path t = path \<and> app_of t = app then Some path else None)"

section \<open>Landing routes\<close>

definition host_app_landing :: "(jstr \<times> jstr) list" where
  "host_app_landing = [(js ''system'', js ''/dashboard''), (js ''kb'', js ''/kb/overview''), (js ''agent'', js ''/agent/overview'')]"

definition resolve_host_landing :: "jstr option \<Rightarrow> jstr option \<Rightarrow> jstr" where
  "resolve_host_landing code base =
     (case Option.bind (nonempty code) (map_of host_app_landing) of
        Some r \<Rightarrow> r
      | None \<Rightarrow> (case base of
                   Some b \<Rightarrow> if starts_with b (js ''/'') then b else js ''/dashboard''
                 | None \<Rightarrow> js ''/dashboard''))"

definition resolve_app_entry :: "jstr \<Rightarrow> jstr option \<Rightarrow> tab_state \<Rightarrow> jstr" where
  "resolve_app_entry code base s =
     (case get_last_active_path code s of Some path \<Rightarrow> path | None \<Rightarrow> resolve_host_landing (Some code) base)"

definition in_section :: "jstr \<Rightarrow> string \<Rightarrow> bool" where
  "in_section path name \<longleftrightarrow> path = js (''/'' @ name) \<or> starts_with path (js (''/'' @ name @ ''/''))"

definition resolve_active_app :: "jstr \<Rightarrow> jstr option \<Rightarrow> jstr" where
  "resolve_active_app path login_app =
     (let otherwise = default_to (js ''system'') (nonempty login_app) in
      if in_section path ''kb'' then js ''kb''
      else if in_section path ''agent'' then js ''agent''
      else if starts_with path (js ''/iframe/'') then
        (case hd (split_on 47 (drop (length (js ''/iframe/'')) path)) of [] \<Rightarrow> otherwise | code \<Rightarrow> code)
      else otherwise)"

section \<open>Consistency\<close>

definition remembers :: "tab list \<Rightarrow> (jstr, jstr) jmap \<Rightarrow> bool" where
  "remembers ts m \<longleftrightarrow> (\<forall>app path. jm_get m app = Some path \<longrightarrow> (\<exists>t \<in> set ts. tb_path t = path \<and> app_of t = app))"

definition active_ok :: "jstr option \<Rightarrow> tab list \<Rightarrow> bool" where
  "active_ok a ts = (case a of Some i \<Rightarrow> i \<in> tb_id ` set ts | None \<Rightarrow> ts = [])"

definition tabs_ok :: "tab_state \<Rightarrow> bool" where
  "tabs_ok s \<longleftrightarrow> distinct (map tb_id (ts_tabs s)) \<and> remembers (ts_tabs s) (ts_last s)
     \<and> active_ok (ts_active s) (ts_tabs s)"

datatype tab_call = Open "jstr option" tab | Activate jstr | Close jstr | Close_others jstr | Close_all | Set_active jstr

fun tab_apply :: "tab_call \<Rightarrow> tab_state \<Rightarrow> tab_state" where
  "tab_apply (Open given tb) s = open_tab given tb s"
| "tab_apply (Activate i) s = activate_tab i s"
| "tab_apply (Close i) s = snd (close_tab i s)"
| "tab_apply (Close_others i) s = close_others i s"
| "tab_apply Close_all s = snd (close_all s)"
| "tab_apply (Set_active path) s = set_active_by_path path s"

text \<open>
  The views call with identifiers of open tabs, and open a tab that exists under the application
  it belongs to.
\<close>

fun proper_call :: "tab_call \<Rightarrow> tab_state \<Rightarrow> bool" where
  "proper_call (Open given tb) s =
     (case find_tab (default_to (tb_path tb) given) (ts_tabs s) of
        Some e \<Rightarrow> tb_app tb = None \<or> tb_app tb = Some (app_of e)
      | None \<Rightarrow> True)"
| "proper_call (Activate i) s = (i \<in> tb_id ` set (ts_tabs s))"
| "proper_call (Close_others i) s = (i \<in> tb_id ` set (ts_tabs s))"
| "proper_call _ s = True"

inductive tab_run :: "tab_state \<Rightarrow> bool" where
  init: "tab_run (initial_tabs title)"
| step: "tab_run s \<Longrightarrow> proper_call c s \<Longrightarrow> tab_run (tab_apply c s)"

lemma active_ok_simps [simp]: "active_ok (Some i) ts \<longleftrightarrow> i \<in> tb_id ` set ts" "active_ok None ts \<longleftrightarrow> ts = []"
  by (simp_all add: active_ok_def)

lemma find_Some: "List.find P xs = Some x \<Longrightarrow> x \<in> set xs \<and> P x"
  by (induction xs) (auto split: if_splits)

lemma find_tab_Some: "find_tab i ts = Some t \<Longrightarrow> t \<in> set ts \<and> tb_id t = i"
  by (auto simp: find_tab_def dest: find_Some)

lemma find_tab_None: "find_tab i ts = None \<longleftrightarrow> i \<notin> tb_id ` set ts"
  by (auto simp: find_tab_def find_None_iff)

lemma find_tab_exists: "i \<in> tb_id ` set ts \<Longrightarrow> \<exists>t \<in> set ts. find_tab i ts = Some t \<and> tb_id t = i"
  using find_tab_None [of i ts] find_tab_Some [of i ts] by (cases "find_tab i ts") auto

lemma with_last_active_get: "jm_get (with_last_active m app path) = (jm_get m)(app := Some path)"
  by (auto simp: with_last_active_def)

lemma app_of_id [simp]: "app_of (t\<lparr>tb_id := i\<rparr>) = app_of t"
  by (simp add: tab_app_code_def)

lemma remembers_set: "remembers ts m \<Longrightarrow> t \<in> set ts \<Longrightarrow> remembers ts (jm_set (app_of t) (tb_path t) m)"
  by (auto simp: remembers_def)

lemma remembers_with: "remembers ts m \<Longrightarrow> t \<in> set ts \<Longrightarrow> remembers ts (with_last_active m (app_of t) (tb_path t))"
  by (simp add: with_last_active_def remembers_set)

lemma remembers_all: "remembers ts m \<Longrightarrow> set us \<subseteq> set ts \<Longrightarrow> remembers ts (remember_all us m)"
  unfolding remember_all_def by (induction us arbitrary: m) (simp_all add: remembers_set)

lemma remembers_mono: "remembers ts m \<Longrightarrow> set ts \<subseteq> set us \<Longrightarrow> remembers us m"
  unfolding remembers_def by (meson subsetD)

lemma set_active_ok: "tabs_ok s \<Longrightarrow> tabs_ok (set_active_by_path path s)"
  by (auto simp: set_active_by_path_def tabs_ok_def remembers_with dest!: find_Some split: option.splits)

lemma activate_ok: "tabs_ok s \<Longrightarrow> i \<in> tb_id ` set (ts_tabs s) \<Longrightarrow> tabs_ok (activate_tab i s)"
  using find_tab_exists [of i "ts_tabs s"] by (auto simp: activate_tab_def tabs_ok_def remembers_with)

lemma close_all_ok: "tabs_ok s \<Longrightarrow> tabs_ok (snd (close_all s))"
proof -
  assume ok: "tabs_ok s"
  have "remembers ts (remember_all ts [])" for ts
    by (rule remembers_all) (simp_all add: remembers_def)
  with ok show ?thesis
    by (auto simp: close_all_def tabs_ok_def distinct_filter_map Let_def split: list.splits)
qed

lemma neighbour_in: "neighbour k ts = Some t \<Longrightarrow> t \<in> set ts"
  by (auto simp: neighbour_def split: if_splits list.splits)

lemma neighbour_None: "neighbour k ts = None \<longleftrightarrow> ts = []"
  by (auto simp: neighbour_def split: list.splits)

lemma neighbour_active: "active_ok (map_option tb_id (neighbour k ts)) ts"
  using neighbour_in [of k ts] neighbour_None [of k ts] by (cases "neighbour k ts") auto

lemma forget_closed_get:
  assumes "jm_get (forget_closed target ts active m) app = Some path"
  shows "(\<exists>t \<in> set ts. tb_path t = path \<and> app_of t = app)
    \<or> jm_get m app = Some path \<and> (app \<noteq> app_of target \<or> path \<noteq> tb_path target)"
  using assms
  by (auto simp: forget_closed_def Let_def dest!: find_Some find_tab_Some split: if_splits option.splits bind_splits)

lemma close_tab_ok: assumes "tabs_ok s" shows "tabs_ok (snd (close_tab i s))"
proof (cases "find_tab i (ts_tabs s)")
  case None
  with assms show ?thesis by (simp add: close_tab_def)
next
  case (Some target)
  let ?ts = "filter (\<lambda>t. tb_id t \<noteq> i) (ts_tabs s)"
  have t: "target \<in> set (ts_tabs s)" "tb_id target = i" using find_tab_Some [OF Some] by auto
  have uniq: "t = target" if "t \<in> set (ts_tabs s)" "tb_id t = i" for t
    using assms t that by (auto simp: tabs_ok_def distinct_map inj_on_def)
  have rem: "remembers ?ts (forget_closed target ?ts a (ts_last s))" for a
    unfolding remembers_def
  proof (intro allI impI)
    fix app path
    assume "jm_get (forget_closed target ?ts a (ts_last s)) app = Some path"
    from forget_closed_get [OF this] show "\<exists>t \<in> set ?ts. tb_path t = path \<and> app_of t = app"
    proof
      assume b: "jm_get (ts_last s) app = Some path \<and> (app \<noteq> app_of target \<or> path \<noteq> tb_path target)"
      with assms obtain t where "t \<in> set (ts_tabs s)" "tb_path t = path" "app_of t = app"
        unfolding tabs_ok_def remembers_def by blast
      moreover from this b uniq have "tb_id t \<noteq> i" by metis
      ultimately show ?thesis by auto
    qed
  qed
  define na where "na = (if ts_active s = Some i then map_option tb_id (neighbour (index_of i (ts_tabs s)) ?ts) else ts_active s)"
  have act: "active_ok na ?ts"
  proof (cases "ts_active s = Some i")
    case True
    then show ?thesis by (simp add: na_def neighbour_active)
  next
    case False
    with assms show ?thesis by (cases "ts_active s") (auto simp: na_def tabs_ok_def)
  qed
  have "close_tab i s = (if pinned target then (ts_active s, s) else
      (na, s\<lparr>ts_tabs := ?ts, ts_active := na, ts_last := forget_closed target ?ts na (ts_last s)\<rparr>))"
    by (simp add: close_tab_def Some na_def Let_def)
  with assms rem [of na] act show ?thesis by (simp add: tabs_ok_def distinct_filter_map)
qed

lemma jm_get_filter: "jm_get (filter (\<lambda>e. P (fst e)) m) k = (if P k then jm_get m k else None)"
  by (induction m) (auto simp: jm_get_def)

lemma remember_all_get:
  "jm_get (remember_all us m) app = Some path \<Longrightarrow> \<exists>u \<in> set us. app_of u = app \<Longrightarrow>
    \<exists>u \<in> set us. tb_path u = path \<and> app_of u = app"
  unfolding remember_all_def
proof (induction us arbitrary: m rule: rev_induct)
  case (snoc u us)
  then show ?case by (cases "app_of u = app") auto
qed simp

lemma close_others_ok: assumes "tabs_ok s" "i \<in> tb_id ` set (ts_tabs s)" shows "tabs_ok (close_others i s)"
proof -
  let ?keep = "filter (\<lambda>t. pinned t \<or> tb_id t = i) (ts_tabs s)"
  obtain t where t: "t \<in> set ?keep" "find_tab i ?keep = Some t" "tb_id t = i"
    using find_tab_exists [of i ?keep] assms(2) by auto
  have "remembers ?keep (filter (\<lambda>e. \<exists>t \<in> set ?keep. app_of t = fst e) (remember_all ?keep (ts_last s)))"
    unfolding remembers_def jm_get_filter [of "\<lambda>k. \<exists>t \<in> set ?keep. app_of t = k"]
  proof (intro allI impI)
    fix app path
    assume g: "(if \<exists>t \<in> set ?keep. app_of t = app then jm_get (remember_all ?keep (ts_last s)) app else None) = Some path"
    have "\<exists>t \<in> set ?keep. app_of t = app"
    proof (rule ccontr)
      assume n: "\<not> (\<exists>t \<in> set ?keep. app_of t = app)"
      from g show False unfolding if_not_P [OF n] by simp
    qed
    with g remember_all_get [of ?keep "ts_last s" app path] show "\<exists>t \<in> set ?keep. tb_path t = path \<and> app_of t = app"
      by presburger
  qed
  then have "remembers ?keep (jm_set (app_of t) (tb_path t)
      (filter (\<lambda>e. \<exists>t \<in> set ?keep. app_of t = fst e) (remember_all ?keep (ts_last s))))"
    using t(1) by (rule remembers_set)
  moreover have "filter (\<lambda>t. tb_id t = i \<or> pinned t) ?keep = ?keep" by (auto intro!: filter_cong)
  ultimately show ?thesis
    using assms t by (auto simp: close_others_def Let_def tabs_ok_def distinct_filter_map)
qed

lemma refresh_tab_id [simp]: "tb_id (refresh_tab tb t) = tb_id t" "tb_path (refresh_tab tb t) = tb_path t"
  by (simp_all add: refresh_tab_def)

lemma if_refresh [simp]:
  "tb_id (if b then refresh_tab tb t else t) = tb_id t" "tb_path (if b then refresh_tab tb t else t) = tb_path t"
  by simp_all

lemma remembers_map:
  assumes "\<And>t. t \<in> set ts \<Longrightarrow> tb_path (f t) = tb_path t \<and> app_of (f t) = app_of t" "remembers ts m"
  shows "remembers (map f ts) m"
  unfolding remembers_def
proof (intro allI impI)
  fix a path
  assume "jm_get m a = Some path"
  with assms(2) obtain t where "t \<in> set ts" "tb_path t = path" "app_of t = a" by (auto simp: remembers_def)
  with assms(1) show "\<exists>t \<in> set (map f ts). tb_path t = path \<and> app_of t = a"
    by (intro bexI [of _ "f t"]) auto
qed

lemma open_tab_ok: assumes "tabs_ok s" "proper_call (Open given tb) s" shows "tabs_ok (open_tab given tb s)"
proof -
  let ?i = "default_to (tb_path tb) given"
  show ?thesis
  proof (cases "find_tab ?i (ts_tabs s)")
    case None
    let ?t = "tb\<lparr>tb_id := ?i, tb_pinned := Some (default_to False (tb_pinned tb)),
      tb_app := Some (default_to (tab_app_code None) (tb_app tb))\<rparr>"
    have "remembers (ts_tabs s @ [?t]) (with_last_active (ts_last s) (app_of ?t) (tb_path ?t))"
      using assms(1) by (intro remembers_with [OF remembers_mono [of "ts_tabs s"]]) (auto simp: tabs_ok_def)
    moreover have "app_of ?t = default_to (tab_app_code None) (tb_app tb)" by (simp add: tab_app_code_def)
    moreover have "distinct (map tb_id (ts_tabs s @ [?t]))"
      using assms(1) None [unfolded find_tab_None] by (simp add: tabs_ok_def)
    ultimately show ?thesis by (simp add: open_tab_def Let_def tabs_ok_def None)
  next
    case (Some e)
    note e = find_tab_Some [OF Some]
    let ?f = "\<lambda>t. if tb_id t = ?i then refresh_tab tb t else t"
    have uniq: "t = e" if "t \<in> set (ts_tabs s)" "tb_id t = ?i" for t
      using assms(1) e that by (auto simp: tabs_ok_def distinct_map inj_on_def)
    have app: "app_of (?f t) = app_of t" if "t \<in> set (ts_tabs s)" for t
      using assms(2) Some uniq [OF that] by (auto simp: tab_app_code_def refresh_tab_def)
    have r: "remembers (map ?f (ts_tabs s)) (with_last_active (ts_last s) (app_of e) (tb_path e))"
      using assms(1) e app by (intro remembers_map remembers_with) (auto simp: tabs_ok_def)
    have a: "default_to (app_of e) (tb_app tb) = app_of e" using assms(2) Some by auto
    have d: "distinct (map tb_id (map ?f (ts_tabs s)))" using assms(1) by (simp add: tabs_ok_def comp_def)
    have "(\<lambda>t. tb_id (?f t)) ` set (ts_tabs s) = tb_id ` set (ts_tabs s)" by (simp only: if_refresh)
    then have i: "?i \<in> tb_id ` set (map ?f (ts_tabs s))"
      unfolding set_map image_image using e by (metis imageI)
    have "open_tab given tb s = s\<lparr>ts_active := Some ?i, ts_last := with_last_active (ts_last s) (app_of e) (tb_path e),
        ts_tabs := map ?f (ts_tabs s)\<rparr>"
      unfolding open_tab_def Let_def Some option.case a ..
    then show ?thesis unfolding tabs_ok_def using r d i by (simp del: map_map set_map)
  qed
qed

lemma tab_apply_ok: "tabs_ok s \<Longrightarrow> proper_call c s \<Longrightarrow> tabs_ok (tab_apply c s)"
  by (cases c) (simp_all add: open_tab_ok activate_ok close_tab_ok close_others_ok close_all_ok set_active_ok
      del: proper_call.simps(1))

lemma tab_run_ok: "tab_run s \<Longrightarrow> tabs_ok s"
proof (induction rule: tab_run.induct)
  case (init title)
  then show ?case
    by (simp add: tabs_ok_def remembers_def initial_tabs_def dashboard_tab_def tab_app_code_def jm_get_def)
qed (rule tab_apply_ok)

text \<open>
  C21: In every state the views can reach, the tabs have different identifiers, the active tab is
  open (there is none only when no tab is open), and what is remembered for an application is
  the path of one of its open tabs, so that entering the application leads back to it.
\<close>

theorem tabs_stay_consistent:
  assumes "tab_run s"
  shows "distinct (map tb_id (ts_tabs s)) \<and> active_ok (ts_active s) (ts_tabs s)
    \<and> (\<forall>app. case nonempty (jm_get (ts_last s) app) of
         Some path \<Rightarrow> resolve_app_entry app base s = path \<and> (\<exists>t \<in> set (ts_tabs s). tb_path t = path \<and> app_of t = app)
       | None \<Rightarrow> resolve_app_entry app base s = resolve_host_landing (Some app) base)"
proof -
  have "case nonempty (jm_get (ts_last s) app) of
         Some path \<Rightarrow> resolve_app_entry app base s = path \<and> (\<exists>t \<in> set (ts_tabs s). tb_path t = path \<and> app_of t = app)
       | None \<Rightarrow> resolve_app_entry app base s = resolve_host_landing (Some app) base" for app
  proof (cases "nonempty (jm_get (ts_last s) app)")
    case None
    then show ?thesis by (simp add: resolve_app_entry_def get_last_active_path_def)
  next
    case (Some path)
    then have "jm_get (ts_last s) app = Some path" by (simp add: nonempty_eq_Some)
    with tab_run_ok [OF assms] have "\<exists>t \<in> set (ts_tabs s). tb_path t = path \<and> app_of t = app"
      by (simp add: tabs_ok_def remembers_def)
    with Some show ?thesis by (simp add: resolve_app_entry_def get_last_active_path_def)
  qed
  with tab_run_ok [OF assms] show ?thesis by (simp add: tabs_ok_def)
qed

text \<open>
  Closing tabs never removes a pinned one, whichever of the closing operations it is.
\<close>

theorem pinned_tabs_survive:
  assumes "t \<in> set (ts_tabs s)" "pinned t" "distinct (map tb_id (ts_tabs s))" "c \<in> {Close i, Close_others i, Close_all}"
  shows "t \<in> set (ts_tabs (tab_apply c s))"
proof -
  have "u = t" if "find_tab i (ts_tabs s) = Some u" "tb_id t = i" for u
    using find_tab_Some [OF that(1)] that(2) assms(1,3) by (auto simp: distinct_map inj_on_def)
  with assms show ?thesis
    by (auto simp: close_tab_def close_others_def close_all_def Let_def split: option.splits)
qed

lemma find_tab_unique: "distinct (map tb_id ts) \<Longrightarrow> t \<in> set ts \<Longrightarrow> find_tab (tb_id t) ts = Some t"
  by (induction ts) (auto simp: find_tab_def rev_image_eqI)

lemma filter_other: "i \<notin> tb_id ` set xs \<Longrightarrow> filter (\<lambda>v. tb_id v \<noteq> i) xs = xs"
  by (induction xs) auto

lemma index_of_append: "i \<notin> tb_id ` set xs \<Longrightarrow> index_of i (xs @ t # ys) = (if tb_id t = i then length xs else Suc (length xs) + index_of i ys)"
  by (induction xs) auto

text \<open>
  Closing the active tab activates its left neighbour, whichever application that belongs to,
  even when the application of the closed tab has other tabs open.
\<close>

theorem closing_activates_left_neighbour:
  assumes "distinct (map tb_id (ts_tabs s))" "ts_tabs s = xs @ u # t # ys" "ts_active s = Some (tb_id t)" "\<not> pinned t"
  shows "close_tab (tb_id t) s = (Some (tb_id u), snd (close_tab (tb_id t) s))
    \<and> ts_active (snd (close_tab (tb_id t) s)) = Some (tb_id u) \<and> ts_tabs (snd (close_tab (tb_id t) s)) = xs @ u # ys"
proof -
  have f: "filter (\<lambda>v. tb_id v \<noteq> tb_id t) (ts_tabs s) = xs @ u # ys"
    using assms(1,2) by (simp add: filter_other)
  have "find_tab (tb_id t) (ts_tabs s) = Some t"
    by (rule find_tab_unique [OF assms(1)]) (simp add: assms(2))
  moreover have "index_of (tb_id t) (ts_tabs s) = Suc (length xs)"
    using assms(1,2) index_of_append [of "tb_id t" "xs @ [u]" t ys] by auto
  ultimately show ?thesis
    using assms(3,4) f by (simp add: close_tab_def Let_def neighbour_def nth_append)
qed

section \<open>Witnesses\<close>

definition demo_tab :: "string \<Rightarrow> string \<Rightarrow> tab" where
  "demo_tab path app = \<lparr>tb_id = [], tb_path = js path, tb_title = js path, tb_icon = None, tb_pinned = None, tb_app = Some (js app)\<rparr>"

text \<open>The dashboard, a page of the knowledge base, one of the system, another of the knowledge base.\<close>

definition demo_tabs :: tab_state where
  "demo_tabs = open_tab None (demo_tab ''/kb/b'' ''kb'') (open_tab None (demo_tab ''/users'' ''system'')
     (open_tab None (demo_tab ''/kb/a'' ''kb'') (initial_tabs (js ''Home''))))"

lemmas demo_tab_defs = demo_tab_def initial_tabs_def dashboard_tab_def open_tab_def find_tab_def tab_app_code_def
  with_last_active_def jm_set_def jm_get_def default_app_def Let_def

lemma demo_tabs_eq:
  "ts_tabs demo_tabs = [dashboard_tab (js ''Home''), (demo_tab ''/kb/a'' ''kb'')\<lparr>tb_id := js ''/kb/a'', tb_pinned := Some False\<rparr>]
     @ (demo_tab ''/users'' ''system'')\<lparr>tb_id := js ''/users'', tb_pinned := Some False\<rparr>
     # (demo_tab ''/kb/b'' ''kb'')\<lparr>tb_id := js ''/kb/b'', tb_pinned := Some False\<rparr> # []"
  "ts_active demo_tabs = Some (js ''/kb/b'')" "jm_get (ts_last demo_tabs) (js ''kb'') = Some (js ''/kb/b'')"
  by (simp_all add: demo_tabs_def demo_tab_defs)

lemma demo_tabs_run: "tab_run demo_tabs"
proof -
  have p: "proper_call (Open None (demo_tab x a)) s" if "js x \<notin> tb_id ` set (ts_tabs s)" for x a s
    using that by (simp add: find_tab_None [symmetric] demo_tab_def)
  have "tab_run (tab_apply (Open None (demo_tab ''/kb/b'' ''kb'')) (tab_apply (Open None (demo_tab ''/users'' ''system''))
     (tab_apply (Open None (demo_tab ''/kb/a'' ''kb'')) (initial_tabs (js ''Home'')))))"
    by (intro tab_run.step tab_run.init p) (simp_all add: demo_tab_defs)
  then show ?thesis by (simp add: demo_tabs_def)
qed

theorem tabs_stay_consistent_witness:
  "resolve_app_entry (js ''kb'') None demo_tabs = js ''/kb/b'' \<and> distinct (map tb_id (ts_tabs demo_tabs))"
proof -
  have n: "nonempty (jm_get (ts_last demo_tabs) (js ''kb'')) = Some (js ''/kb/b'')"
    unfolding demo_tabs_eq(3) by (simp add: nonempty_eq_Some)
  note c = tabs_stay_consistent [OF demo_tabs_run, of None]
  from c have "case nonempty (jm_get (ts_last demo_tabs) (js ''kb'')) of
      Some path \<Rightarrow> resolve_app_entry (js ''kb'') None demo_tabs = path \<and> (\<exists>t \<in> set (ts_tabs demo_tabs). tb_path t = path \<and> app_of t = js ''kb'')
    | None \<Rightarrow> resolve_app_entry (js ''kb'') None demo_tabs = resolve_host_landing (Some (js ''kb'')) None"
    by blast
  with c show ?thesis unfolding n by simp
qed

theorem pinned_tabs_survive_witness:
  "dashboard_tab (js ''Home'') \<in> set (ts_tabs (tab_apply (Close (js ''/dashboard'')) demo_tabs))"
proof (rule pinned_tabs_survive [of _ _ _ "js ''/dashboard''"])
  show "dashboard_tab (js ''Home'') \<in> set (ts_tabs demo_tabs)" by (simp add: demo_tabs_eq)
  show "distinct (map tb_id (ts_tabs demo_tabs))" by (simp add: demo_tabs_eq dashboard_tab_def)
qed (simp_all add: dashboard_tab_def)

theorem closing_activates_left_neighbour_witness:
  "ts_active (snd (close_tab (js ''/kb/b'') demo_tabs)) = Some (js ''/users'')
   \<and> (\<exists>t \<in> set (ts_tabs (snd (close_tab (js ''/kb/b'') demo_tabs))). app_of t = js ''kb'')"
proof -
  have "distinct (map tb_id (ts_tabs demo_tabs))" by (simp add: demo_tabs_eq dashboard_tab_def)
  from closing_activates_left_neighbour [OF this demo_tabs_eq(1)] demo_tabs_eq(2) show ?thesis
    by (simp add: tab_app_code_def demo_tab_def)
qed

end
