(* ===== verification/Dept_Tree.thy ===== *)
theory Dept_Tree
  imports Js_Map
begin

text \<open>
  The department tree of the administration frontend: the rows made of local departments and of
  the departments of linked organisations (features/system/dept/dept-tree-types.ts), the
  recursive rendering and the clicks of dept-tree-page.tsx, and the loading of linked
  organisations (use-pierce-tree.ts). Paths are relative to frontend/mis-admin-web/src. A null
  and a missing member are both \<open>None\<close>.
\<close>

section \<open>Departments and rows\<close>

record dept_fields =
  dn_id :: jstr
  dn_org :: jstr
  dn_code :: "jstr option"
  dn_name :: jstr
  dn_sort :: "int option"
  dn_status :: int
  dn_linked :: "jstr option"
  dn_linked_name :: "jstr option"
  dn_type_id :: "jstr option"
  dn_type_name :: "jstr option"
  dn_establishment :: "int option"
  dn_leaf :: "int option"

datatype dept = Dept dept_fields "dept list"

record pierce_fields =
  pn_id :: jstr
  pn_org :: jstr
  pn_org_name :: "jstr option"
  pn_code :: "jstr option"
  pn_name :: jstr
  pn_sort :: "int option"
  pn_status :: int
  pn_linked :: "jstr option"
  pn_linked_name :: "jstr option"
  pn_type_id :: "jstr option"
  pn_type_name :: "jstr option"

datatype pierce = Pierce pierce_fields "pierce list"

record row_fields =
  rw_id :: jstr
  rw_raw_id :: jstr
  rw_org :: jstr
  rw_code :: "jstr option"
  rw_name :: jstr
  rw_sort :: int
  rw_status :: int
  rw_linked :: "jstr option"
  rw_linked_name :: "jstr option"
  rw_type_id :: "jstr option"
  rw_type_name :: "jstr option"
  rw_establishment :: "int option"
  rw_leaf :: "int option"
  rw_source_name :: "jstr option"
  rw_read_only :: bool
  rw_chain :: "jstr list"
  rw_node :: "dept option"
  rw_pierce :: "pierce option"

datatype dept_row = Row (row_of: row_fields) (row_kids: "dept_row list")

definition pierce_row_id :: "jstr \<Rightarrow> jstr \<Rightarrow> jstr" where
  "pierce_row_id org d = js ''pierce'' @ js '':'' @ org @ js '':'' @ d"

definition build_org_chain :: "jstr list \<Rightarrow> jstr \<Rightarrow> jstr list" where
  "build_org_chain chain org = (if org = [] then chain else if org \<in> set chain then chain else chain @ [org])"

definition is_org_in_chain :: "jstr list \<Rightarrow> jstr \<Rightarrow> bool" where
  "is_org_in_chain chain org \<longleftrightarrow> org \<noteq> [] \<and> org \<in> set chain"

fun normalize_dept_node :: "jstr list \<Rightarrow> dept \<Rightarrow> dept_row" where
  "normalize_dept_node chain (Dept f kids) =
     (let c = build_org_chain chain (dn_org f) in
      Row \<lparr>rw_id = dn_id f, rw_raw_id = dn_id f, rw_org = dn_org f, rw_code = dn_code f, rw_name = dn_name f,
           rw_sort = default_to 0 (dn_sort f), rw_status = dn_status f, rw_linked = dn_linked f,
           rw_linked_name = dn_linked_name f, rw_type_id = dn_type_id f, rw_type_name = dn_type_name f,
           rw_establishment = dn_establishment f, rw_leaf = dn_leaf f, rw_source_name = None, rw_read_only = False,
           rw_chain = c, rw_node = Some (Dept f kids), rw_pierce = None\<rparr>
        (map (normalize_dept_node c) kids))"

definition normalize_dept_nodes :: "jstr list \<Rightarrow> dept list \<Rightarrow> dept_row list" where
  "normalize_dept_nodes chain ds = map (normalize_dept_node chain) ds"

fun normalize_pierce_node :: "jstr list \<Rightarrow> pierce \<Rightarrow> dept_row" where
  "normalize_pierce_node chain (Pierce f kids) =
     (let c = build_org_chain chain (pn_org f) in
      Row \<lparr>rw_id = pierce_row_id (pn_org f) (pn_id f), rw_raw_id = pn_id f, rw_org = pn_org f, rw_code = pn_code f,
           rw_name = pn_name f, rw_sort = default_to 0 (pn_sort f), rw_status = pn_status f, rw_linked = pn_linked f,
           rw_linked_name = pn_linked_name f, rw_type_id = pn_type_id f, rw_type_name = pn_type_name f,
           rw_establishment = None, rw_leaf = None, rw_source_name = pn_org_name f, rw_read_only = True,
           rw_chain = c, rw_node = None, rw_pierce = Some (Pierce f kids)\<rparr>
        (map (normalize_pierce_node c) kids))"

definition normalize_pierce_forest :: "jstr list \<Rightarrow> pierce list \<Rightarrow> dept_row list" where
  "normalize_pierce_forest chain ps = map (normalize_pierce_node chain) ps"

text \<open>A top-level department without a link is left out and its children take its place.\<close>

fun skip_top_node :: "jstr list \<Rightarrow> pierce \<Rightarrow> dept_row list" where
  "skip_top_node chain (Pierce f kids) =
     (if nonempty (pn_linked f) = None then normalize_pierce_forest (build_org_chain chain (pn_org f)) kids
      else [normalize_pierce_node chain (Pierce f kids)])"

definition normalize_skip_top_level :: "jstr list \<Rightarrow> pierce list \<Rightarrow> dept_row list" where
  "normalize_skip_top_level chain ps = concat (map (skip_top_node chain) ps)"

section \<open>Rendering and clicks\<close>

text \<open>What the page keeps: the expanded row identifiers and the departments of linked organisations.\<close>

record tree_view =
  tv_expanded :: "jstr list"
  tv_cache :: "(jstr, pierce list) jmap"

definition collapsed_view :: tree_view where
  "collapsed_view = \<lparr>tv_expanded = [], tv_cache = []\<rparr>"

definition child_rows :: "tree_view \<Rightarrow> dept_row \<Rightarrow> dept_row list" where
  "child_rows v r =
     (case nonempty (rw_linked (row_of r)) of
        None \<Rightarrow> row_kids r
      | Some org \<Rightarrow>
          (case jm_get (tv_cache v) org of
             Some forest \<Rightarrow> normalize_skip_top_level (build_org_chain (rw_chain (row_of r)) org) forest
           | None \<Rightarrow> []))"

text \<open>The rendered rows with their depth; \<open>None\<close> when the recursion does not end.\<close>

partial_function (option) render_nodes :: "tree_view \<Rightarrow> dept_row list \<Rightarrow> nat \<Rightarrow> (dept_row \<times> nat) list option" where
  "render_nodes v rows depth =
     (case rows of
        [] \<Rightarrow> Some []
      | r # rs \<Rightarrow>
          Option.bind (if rw_id (row_of r) \<in> set (tv_expanded v) then render_nodes v (child_rows v r) (Suc depth) else Some [])
            (\<lambda>kids. Option.bind (render_nodes v rs depth) (\<lambda>rest. Some ((r, depth) # kids @ rest))))"

definition toggle_expand :: "jstr \<Rightarrow> tree_view \<Rightarrow> tree_view" where
  "toggle_expand i v =
     (if i \<in> set (tv_expanded v) then v\<lparr>tv_expanded := js_remove i (tv_expanded v)\<rparr>
      else v\<lparr>tv_expanded := js_add i (tv_expanded v)\<rparr>)"

text \<open>
  \<open>loadPierceOrg\<close> up to its answer: whether the row may be expanded, and the view with the loaded
  departments. \<open>fetch\<close> is the request, \<open>None\<close> when it fails.
\<close>

definition load_pierce_org :: "(jstr \<Rightarrow> pierce list option) \<Rightarrow> jstr \<Rightarrow> jstr list \<Rightarrow> tree_view \<Rightarrow> bool \<times> tree_view" where
  "load_pierce_org fetch org chain v =
     (if org = [] then (False, v)
      else if is_org_in_chain chain org then (False, v)
      else if jm_get (tv_cache v) org \<noteq> None then (True, v)
      else case fetch org of
             None \<Rightarrow> (False, v)
           | Some forest \<Rightarrow> (True, v\<lparr>tv_cache := jm_set org forest (tv_cache v)\<rparr>))"

definition on_arrow_click :: "(jstr \<Rightarrow> pierce list option) \<Rightarrow> dept_row \<Rightarrow> tree_view \<Rightarrow> tree_view" where
  "on_arrow_click fetch r v =
     (case nonempty (rw_linked (row_of r)) of
        Some org \<Rightarrow>
          if rw_id (row_of r) \<notin> set (tv_expanded v) then
            (case load_pierce_org fetch org (rw_chain (row_of r)) v of
               (ok, v1) \<Rightarrow> if ok then toggle_expand (rw_id (row_of r)) v1 else v1)
          else toggle_expand (rw_id (row_of r)) v
      | None \<Rightarrow> toggle_expand (rw_id (row_of r)) v)"

section \<open>Rows of linked organisations\<close>

fun all_rows :: "dept_row \<Rightarrow> row_fields list" where
  "all_rows (Row f kids) = f # concat (map all_rows kids)"

fun pierce_ids :: "pierce \<Rightarrow> jstr list" where
  "pierce_ids (Pierce f kids) = pierce_row_id (pn_org f) (pn_id f) # concat (map pierce_ids kids)"

text \<open>A row that cannot be edited, of an organisation in its chain, which extends the given one.\<close>

definition pierced_row :: "jstr list \<Rightarrow> row_fields \<Rightarrow> bool" where
  "pierced_row chain f \<longleftrightarrow> rw_read_only f \<and> rw_node f = None \<and> prefix chain (rw_chain f)
     \<and> (rw_org f \<noteq> [] \<longrightarrow> rw_org f \<in> set (rw_chain f)) \<and> (distinct chain \<longrightarrow> distinct (rw_chain f))"

lemma prefix_build [simp]: "prefix chain (build_org_chain chain org)"
  by (simp add: build_org_chain_def)

lemma set_build: "set (build_org_chain chain org) = set chain \<union> (if org = [] then {} else {org})"
  by (auto simp: build_org_chain_def)

lemma distinct_build [simp]: "distinct chain \<Longrightarrow> distinct (build_org_chain chain org)"
  by (simp add: build_org_chain_def)

lemma pierced_row_mono: "pierced_row (build_org_chain chain org) f \<Longrightarrow> pierced_row chain f"
  unfolding pierced_row_def using prefix_build prefix_order.trans distinct_build by blast

lemma normalized_rows:
  "map rw_id (all_rows (normalize_pierce_node chain p)) = pierce_ids p
   \<and> list_all (pierced_row chain) (all_rows (normalize_pierce_node chain p))"
proof (induction chain p rule: normalize_pierce_node.induct)
  case (1 chain f kids)
  then have "map rw_id (concat (map all_rows (map (normalize_pierce_node (build_org_chain chain (pn_org f))) kids)))
      = concat (map pierce_ids kids)"
    by (induction kids) auto
  moreover from 1 have "pierced_row chain g"
    if "k \<in> set kids" "g \<in> set (all_rows (normalize_pierce_node (build_org_chain chain (pn_org f)) k))" for k g
    using that by (auto simp: list_all_iff intro: pierced_row_mono)
  ultimately show ?case
    by (auto simp: Let_def list_all_iff pierced_row_def [of chain "row_of _"] set_build comp_def) (auto simp: pierced_row_def set_build)
qed

fun shown_ids :: "pierce \<Rightarrow> jstr list" where
  "shown_ids (Pierce f kids) =
     (if nonempty (pn_linked f) = None then concat (map pierce_ids kids) else pierce_ids (Pierce f kids))"

lemma skip_top_node_rows:
  "map rw_id (concat (map all_rows (skip_top_node chain p))) = shown_ids p
   \<and> list_all (pierced_row chain) (concat (map all_rows (skip_top_node chain p)))"
proof (cases p)
  case (Pierce f kids)
  let ?c = "build_org_chain chain (pn_org f)"
  have f: "map rw_id (concat (map all_rows (normalize_pierce_forest ?c kids))) = concat (map pierce_ids kids)"
    "list_all (pierced_row ?c) (concat (map all_rows (normalize_pierce_forest ?c kids)))"
    using normalized_rows by (induction kids) (auto simp: normalize_pierce_forest_def)
  have "list_all (pierced_row chain) (concat (map all_rows (normalize_pierce_forest ?c kids)))"
    by (rule list.pred_mono_strong [OF f(2)]) (rule pierced_row_mono)
  with f(1) show ?thesis
    using Pierce normalized_rows [of chain p] by (simp del: normalize_pierce_node.simps pierce_ids.simps)
qed

text \<open>
  Drilling into a linked organisation shows every one of its departments but the top-level
  ones without a link of their own, in order and below their parents; none of these rows can be
  edited, and each carries the organisations on the way to it, its own included.
\<close>

theorem drill_down_rows:
  "map rw_id (concat (map all_rows (normalize_skip_top_level chain ps))) = concat (map shown_ids ps)
   \<and> list_all (pierced_row chain) (concat (map all_rows (normalize_skip_top_level chain ps)))"
  using skip_top_node_rows by (induction ps) (auto simp: normalize_skip_top_level_def)

section \<open>Rendering ends unless links form a cycle\<close>

declare render_nodes.simps [simp del]

lemma render_Nil [simp]: "render_nodes v [] d = Some []"
  by (subst render_nodes.simps) simp

lemma render_Cons:
  "render_nodes v (r # rs) d =
     Option.bind (if rw_id (row_of r) \<in> set (tv_expanded v) then render_nodes v (child_rows v r) (Suc d) else Some [])
       (\<lambda>kids. Option.bind (render_nodes v rs d) (\<lambda>rest. Some ((r, d) # kids @ rest)))"
  by (subst render_nodes.simps) simp

definition renders :: "tree_view \<Rightarrow> dept_row list \<Rightarrow> bool" where
  "renders v rows \<longleftrightarrow> (\<forall>d. \<exists>out. render_nodes v rows d = Some out)"

lemma renders_all: "(\<And>r. r \<in> set rows \<Longrightarrow> renders v (child_rows v r)) \<Longrightarrow> renders v rows"
  unfolding renders_def
proof (induction rows)
  case (Cons r rs)
  have "\<exists>out. render_nodes v (child_rows v r) d = Some out" "\<exists>out. render_nodes v rs d = Some out" for d
    using Cons.IH Cons.prems by (meson list.set_intros)+
  note ex = this
  show ?case
  proof
    fix d
    obtain out1 out2 where "render_nodes v (child_rows v r) (Suc d) = Some out1" "render_nodes v rs d = Some out2"
      using ex by metis
    then show "\<exists>out. render_nodes v (r # rs) d = Some out" by (simp add: render_Cons)
  qed
qed simp

fun row_links :: "dept_row \<Rightarrow> jstr set" where
  "row_links (Row f kids) = set_option (nonempty (rw_linked f)) \<union> (\<Union>k \<in> set kids. row_links k)"

fun pierce_links :: "pierce \<Rightarrow> jstr set" where
  "pierce_links (Pierce f kids) = set_option (nonempty (pn_linked f)) \<union> (\<Union>k \<in> set kids. pierce_links k)"

lemma normalized_links: "row_links (normalize_pierce_node chain p) = pierce_links p"
  by (induction chain p rule: normalize_pierce_node.induct) (simp add: Let_def)

lemma skip_top_links: "r \<in> set (normalize_skip_top_level chain ps) \<Longrightarrow> row_links r \<subseteq> (\<Union>p \<in> set ps. pierce_links p)"
proof -
  have "row_links r \<subseteq> pierce_links p" if "r \<in> set (skip_top_node chain p)" for p
    using that by (cases p) (auto simp: normalized_links normalize_pierce_forest_def split: if_splits
        simp del: normalize_pierce_node.simps pierce_links.simps, auto)
  then show "r \<in> set (normalize_skip_top_level chain ps) \<Longrightarrow> row_links r \<subseteq> (\<Union>p \<in> set ps. pierce_links p)"
    by (fastforce simp: normalize_skip_top_level_def)
qed

text \<open>The organisations the departments of a loaded organisation link to.\<close>

definition org_links :: "tree_view \<Rightarrow> (jstr \<times> jstr) set" where
  "org_links v = {(o', org). \<exists>forest. jm_get (tv_cache v) org = Some forest \<and> o' \<in> (\<Union>p \<in> set forest. pierce_links p)}"

definition drill_ok :: "tree_view \<Rightarrow> jstr \<Rightarrow> bool" where
  "drill_ok v org \<longleftrightarrow> (\<forall>chain forest. jm_get (tv_cache v) org = Some forest \<longrightarrow> renders v (normalize_skip_top_level chain forest))"

lemma child_rows_render:
  "\<forall>org \<in> row_links r. drill_ok v org \<Longrightarrow> renders v (child_rows v r)"
proof (induction r)
  case (Row f kids)
  show ?case
  proof (cases "nonempty (rw_linked f)")
    case None
    have "renders v kids"
      by (rule renders_all) (use Row in auto)
    with None show ?thesis by (simp add: child_rows_def)
  next
    case (Some org)
    with Row.prems have "drill_ok v org" by simp
    with Some show ?thesis by (auto simp: child_rows_def drill_ok_def renders_def split: option.splits)
  qed
qed

text \<open>
  The recursive rendering of the tree ends, whatever is expanded, when the links between the
  loaded organisations have no cycle.
\<close>

theorem rendering_ends_without_cycles:
  assumes "wf (org_links v)"
  shows "\<exists>out. render_nodes v rows depth = Some out"
proof -
  have "drill_ok v org" for org
    using assms
  proof (induction org rule: wf_induct_rule)
    case (less org)
    show ?case unfolding drill_ok_def
    proof (intro allI impI)
      fix chain forest
      assume f: "jm_get (tv_cache v) org = Some forest"
      show "renders v (normalize_skip_top_level chain forest)"
      proof (rule renders_all)
        fix r assume "r \<in> set (normalize_skip_top_level chain forest)"
        from skip_top_links [OF this] f less show "renders v (child_rows v r)"
          by (intro child_rows_render) (auto simp: org_links_def)
      qed
    qed
  qed
  then have "renders v (child_rows v r)" for r by (intro child_rows_render) auto
  then have "renders v rows" by (rule renders_all)
  then show ?thesis by (simp add: renders_def)
qed

section \<open>A cycle the guard does not stop\<close>

text \<open>The views a user can reach by clicking on rendered rows.\<close>

inductive tree_run :: "(jstr \<Rightarrow> pierce list option) \<Rightarrow> dept_row list \<Rightarrow> tree_view \<Rightarrow> bool"
  for fetch :: "jstr \<Rightarrow> pierce list option" and rows :: "dept_row list" where
  start: "tree_run fetch rows collapsed_view"
| click: "tree_run fetch rows v \<Longrightarrow> render_nodes v rows 0 = Some out \<Longrightarrow> (r, d) \<in> set out
    \<Longrightarrow> tree_run fetch rows (on_arrow_click fetch r v)"

text \<open>
  Organisation A links to B and C; a department \<open>x\<close> of B links to C, a department \<open>y\<close> of C to B.
\<close>

definition demo_dept :: "string \<Rightarrow> string \<Rightarrow> dept" where
  "demo_dept i link = Dept \<lparr>dn_id = js i, dn_org = js ''A'', dn_code = None, dn_name = js i, dn_sort = None, dn_status = 1,
     dn_linked = Some (js link), dn_linked_name = None, dn_type_id = None, dn_type_name = None,
     dn_establishment = None, dn_leaf = None\<rparr> []"

definition demo_pierce :: "string \<Rightarrow> string \<Rightarrow> string option \<Rightarrow> pierce list \<Rightarrow> pierce" where
  "demo_pierce org i link kids = Pierce \<lparr>pn_id = js i, pn_org = js org, pn_org_name = None, pn_code = None, pn_name = js i,
     pn_sort = None, pn_status = 1, pn_linked = map_option js link, pn_linked_name = None, pn_type_id = None,
     pn_type_name = None\<rparr> kids"

definition demo_x :: pierce where "demo_x = demo_pierce ''B'' ''x'' (Some ''C'') []"
definition demo_y :: pierce where "demo_y = demo_pierce ''C'' ''y'' (Some ''B'') []"

definition demo_fetch :: "jstr \<Rightarrow> pierce list option" where
  "demo_fetch org = (if org = js ''B'' then Some [demo_pierce ''B'' ''root'' None [demo_x]]
     else if org = js ''C'' then Some [demo_pierce ''C'' ''root'' None [demo_y]] else None)"

definition demo_rows :: "dept_row list" where
  "demo_rows = normalize_dept_nodes [] [demo_dept ''d'' ''B'', demo_dept ''e'' ''C'']"

definition row_x :: "jstr list \<Rightarrow> dept_row" where "row_x chain = normalize_pierce_node chain demo_x"
definition row_y :: "jstr list \<Rightarrow> dept_row" where "row_y chain = normalize_pierce_node chain demo_y"

definition looping :: "tree_view \<Rightarrow> bool" where
  "looping v \<longleftrightarrow> {pierce_row_id (js ''B'') (js ''x''), pierce_row_id (js ''C'') (js ''y'')} \<subseteq> set (tv_expanded v)
     \<and> jm_get (tv_cache v) (js ''B'') = demo_fetch (js ''B'') \<and> jm_get (tv_cache v) (js ''C'') = demo_fetch (js ''C'')"

lemma rows_xy:
  "rw_id (row_of (row_x c)) = pierce_row_id (js ''B'') (js ''x'')" "rw_id (row_of (row_y c)) = pierce_row_id (js ''C'') (js ''y'')"
  "rw_linked (row_of (row_x c)) = Some (js ''C'')" "rw_linked (row_of (row_y c)) = Some (js ''B'')"
  "rw_chain (row_of (row_x c)) = build_org_chain c (js ''B'')" "rw_chain (row_of (row_y c)) = build_org_chain c (js ''C'')"
  by (simp_all add: row_x_def row_y_def demo_x_def demo_y_def demo_pierce_def Let_def)

lemma nonempty_js [simp]: "nonempty (Some (js s)) = (if s = [] then None else Some (js s))"
  by (cases "js s") (auto simp: nonempty_def split: list.splits)

lemma children_xy:
  assumes "looping v"
  shows "\<exists>c'. child_rows v (row_x c) = [row_y c']" "\<exists>c'. child_rows v (row_y c) = [row_x c']"
  using assms
  by (auto simp: child_rows_def rows_xy looping_def demo_fetch_def normalize_skip_top_level_def demo_pierce_def
      normalize_pierce_forest_def row_x_def [symmetric] row_y_def [symmetric] simp del: normalize_pierce_node.simps)

lemma looping_diverges:
  assumes "looping v"
  shows "render_nodes v (row_x c # rs) d \<noteq> Some out \<and> render_nodes v (row_y c # rs) d \<noteq> Some out"
proof (induction "length out" arbitrary: c rs d out rule: less_induct)
  case less
  have e: "rw_id (row_of (row_x c)) \<in> set (tv_expanded v)" "rw_id (row_of (row_y c)) \<in> set (tv_expanded v)" for c
    using assms by (auto simp: rows_xy looping_def)
  have "\<exists>kids rest. render_nodes v (child_rows v r) (Suc d) = Some kids \<and> length kids < length out"
    if "render_nodes v (r # rs) d = Some out" "rw_id (row_of r) \<in> set (tv_expanded v)" for r
    using that by (auto simp: render_Cons bind_eq_Some_conv)
  with e less children_xy [OF assms] show ?case by metis
qed

text \<open>The four clicks: on \<open>e\<close>, on \<open>y\<close> below it, on \<open>d\<close>, and on \<open>x\<close> below that.\<close>

definition row_d :: dept_row where "row_d = normalize_dept_node [] (demo_dept ''d'' ''B'')"
definition row_e :: dept_row where "row_e = normalize_dept_node [] (demo_dept ''e'' ''C'')"

definition view1 :: tree_view where "view1 = on_arrow_click demo_fetch row_e collapsed_view"
definition view2 :: tree_view where "view2 = on_arrow_click demo_fetch (row_y [js ''A'', js ''C'']) view1"
definition view3 :: tree_view where "view3 = on_arrow_click demo_fetch row_d view2"
definition view4 :: tree_view where "view4 = on_arrow_click demo_fetch (row_x [js ''A'', js ''B'']) view3"

lemma pierce_row_id_js [simp]: "pierce_row_id (js a) (js b) = js (''pierce:'' @ a @ '':'' @ b)"
  by (simp add: pierce_row_id_def flip: js_append)

lemma rows_de:
  "rw_id (row_of row_d) = js ''d''" "rw_linked (row_of row_d) = Some (js ''B'')" "rw_chain (row_of row_d) = [js ''A'']"
  "rw_id (row_of row_e) = js ''e''" "rw_linked (row_of row_e) = Some (js ''C'')" "rw_chain (row_of row_e) = [js ''A'']"
  by (simp_all add: row_d_def row_e_def demo_dept_def build_org_chain_def Let_def)

lemma demo_rows_de: "demo_rows = [row_d, row_e]"
  by (simp add: demo_rows_def normalize_dept_nodes_def row_d_def row_e_def)

definition forest_b :: "pierce list" where "forest_b = [demo_pierce ''B'' ''root'' None [demo_x]]"
definition forest_c :: "pierce list" where "forest_c = [demo_pierce ''C'' ''root'' None [demo_y]]"

lemma demo_fetch_forest: "demo_fetch (js ''B'') = Some forest_b" "demo_fetch (js ''C'') = Some forest_c"
  by (simp_all add: demo_fetch_def forest_b_def forest_c_def)

lemma forest_rows:
  "normalize_skip_top_level c forest_b = [row_x (build_org_chain c (js ''B''))]"
  "normalize_skip_top_level c forest_c = [row_y (build_org_chain c (js ''C''))]"
  by (simp_all add: normalize_skip_top_level_def forest_b_def forest_c_def demo_pierce_def normalize_pierce_forest_def
      row_x_def row_y_def del: normalize_pierce_node.simps)

lemmas click_simps = on_arrow_click_def load_pierce_org_def is_org_in_chain_def toggle_expand_def js_add_def js_remove_def
  collapsed_view_def rows_de rows_xy demo_fetch_forest build_org_chain_def

lemma views:
  "view1 = \<lparr>tv_expanded = [js ''e''], tv_cache = jm_set (js ''C'') forest_c []\<rparr>"
  "view2 = \<lparr>tv_expanded = [js ''e'', js ''pierce:C:y''], tv_cache = jm_set (js ''B'') forest_b (jm_set (js ''C'') forest_c [])\<rparr>"
  "view3 = \<lparr>tv_expanded = [js ''e'', js ''pierce:C:y'', js ''d''],
     tv_cache = jm_set (js ''B'') forest_b (jm_set (js ''C'') forest_c [])\<rparr>"
  "view4 = \<lparr>tv_expanded = [js ''e'', js ''pierce:C:y'', js ''d'', js ''pierce:B:x''],
     tv_cache = jm_set (js ''B'') forest_b (jm_set (js ''C'') forest_c [])\<rparr>"
proof -
  show 1: "view1 = \<lparr>tv_expanded = [js ''e''], tv_cache = jm_set (js ''C'') forest_c []\<rparr>"
    by (simp add: view1_def click_simps)
  show 2: "view2 = \<lparr>tv_expanded = [js ''e'', js ''pierce:C:y''], tv_cache = jm_set (js ''B'') forest_b (jm_set (js ''C'') forest_c [])\<rparr>"
    by (simp add: view2_def 1 click_simps)
  show 3: "view3 = \<lparr>tv_expanded = [js ''e'', js ''pierce:C:y'', js ''d''],
     tv_cache = jm_set (js ''B'') forest_b (jm_set (js ''C'') forest_c [])\<rparr>"
    by (simp add: view3_def 2 click_simps)
  show "view4 = \<lparr>tv_expanded = [js ''e'', js ''pierce:C:y'', js ''d'', js ''pierce:B:x''],
     tv_cache = jm_set (js ''B'') forest_b (jm_set (js ''C'') forest_c [])\<rparr>"
    by (simp add: view4_def 3 click_simps)
qed

lemmas render_simps = render_Cons demo_rows_de child_rows_def rows_de rows_xy forest_rows build_org_chain_def

lemma renders_before:
  "render_nodes collapsed_view demo_rows 0 = Some [(row_d, 0), (row_e, 0)]"
  "render_nodes view1 demo_rows 0 = Some [(row_d, 0), (row_e, 0), (row_y [js ''A'', js ''C''], 1)]"
  "render_nodes view2 demo_rows 0 = Some [(row_d, 0), (row_e, 0), (row_y [js ''A'', js ''C''], 1), (row_x [js ''A'', js ''C'', js ''B''], 2)]"
  "render_nodes view3 demo_rows 0 = Some [(row_d, 0), (row_x [js ''A'', js ''B''], 1), (row_e, 0), (row_y [js ''A'', js ''C''], 1),
     (row_x [js ''A'', js ''C'', js ''B''], 2)]"
  by (simp_all add: views render_simps collapsed_view_def)

lemma view4_run: "tree_run demo_fetch demo_rows view4"
proof -
  have 1: "tree_run demo_fetch demo_rows view1"
    unfolding view1_def by (rule tree_run.click [OF tree_run.start renders_before(1), of row_e 0]) simp
  have 2: "tree_run demo_fetch demo_rows view2"
    unfolding view2_def by (rule tree_run.click [OF 1 renders_before(2), of _ 1]) simp
  have 3: "tree_run demo_fetch demo_rows view3"
    unfolding view3_def by (rule tree_run.click [OF 2 renders_before(3), of _ 0]) simp
  show ?thesis
    unfolding view4_def by (rule tree_run.click [OF 3 renders_before(4), of _ 1]) simp
qed

text \<open>
  With links in a cycle, four clicks that the guard permits lead to a tree whose rendering does
  not end: rows of linked organisations have one identifier wherever they appear, so a row
  expanded under one chain of organisations is expanded under every other.
\<close>

theorem permitted_clicks_can_hang_the_page:
  "\<exists>fetch rows v. tree_run fetch rows v \<and> (\<forall>depth. render_nodes v rows depth = None)"
proof -
  have "looping view4"
    by (simp add: looping_def views demo_fetch_forest)
  then have "render_nodes view4 [row_x [js ''A'', js ''B'']] d = None" for d
    using looping_diverges by (metis option.exhaust)
  moreover have "child_rows view4 row_d = [row_x [js ''A'', js ''B'']]" "js ''d'' \<in> set (tv_expanded view4)"
    by (simp_all add: views child_rows_def rows_de forest_rows build_org_chain_def)
  ultimately have "\<forall>depth. render_nodes view4 demo_rows depth = None"
    unfolding demo_rows_de render_Cons [of view4 row_d] by (simp add: rows_de)
  with view4_run show ?thesis by blast
qed

theorem rendering_ends_without_cycles_witness:
  "\<exists>out. render_nodes view1 demo_rows 0 = Some out"
proof (rule rendering_ends_without_cycles)
  have "org_links view1 = {(js ''B'', js ''C'')}"
    by (auto simp: org_links_def views forest_c_def demo_pierce_def demo_y_def split: if_splits)
  then show "wf (org_links view1)" by (simp add: wf_insert)
qed

end
