(* ===== verification/Pierce_Load.thy ===== *)
theory Pierce_Load
  imports Dept_Tree
begin

text \<open>
  The loading of linked organisations with its requests under way, \<open>usePierceTree\<close> of
  frontend/mis-admin-web/src/features/system/dept/use-pierce-tree.ts. A request is a numbered
  task; the continuation after its answer is the operation \<open>pierce_complete\<close>. The cache shown and
  its mirror are always the same table.
\<close>

section \<open>State and operations\<close>

record pierce_state =
  ps_cache :: "(jstr, pierce list) jmap"
  ps_inflight :: "(jstr, nat) jmap"
  ps_loading :: "jstr jset"
  ps_tasks :: "(nat \<times> jstr) list"  \<comment> \<open>requests without an answer yet\<close>
  ps_next :: nat

definition new_pierce :: pierce_state where
  "new_pierce = \<lparr>ps_cache = [], ps_inflight = [], ps_loading = [], ps_tasks = [], ps_next = 0\<rparr>"

text \<open>The promise \<open>loadPierceOrg\<close> returns: settled, or the one of a task.\<close>

datatype load_answer = Refused | Ready | Waits nat

definition pierce_load :: "jstr \<Rightarrow> jstr list \<Rightarrow> pierce_state \<Rightarrow> load_answer \<times> pierce_state" where
  "pierce_load org chain s =
     (if org = [] then (Refused, s)
      else if is_org_in_chain chain org then (Refused, s)
      else if jm_get (ps_cache s) org \<noteq> None then (Ready, s)
      else case jm_get (ps_inflight s) org of
             Some t \<Rightarrow> (Waits t, s)
           | None \<Rightarrow> (Waits (ps_next s),
               s\<lparr>ps_loading := js_add org (ps_loading s), ps_tasks := ps_tasks s @ [(ps_next s, org)],
                 ps_inflight := jm_set org (ps_next s) (ps_inflight s), ps_next := Suc (ps_next s)\<rparr>))"

text \<open>The answer of a task: the departments, or a failure.\<close>

definition pierce_complete :: "nat \<Rightarrow> jstr \<Rightarrow> pierce list option \<Rightarrow> pierce_state \<Rightarrow> pierce_state" where
  "pierce_complete t org ans s =
     (let s1 = (case ans of Some forest \<Rightarrow> s\<lparr>ps_cache := jm_set org forest (ps_cache s)\<rparr> | None \<Rightarrow> s)
      in s1\<lparr>ps_inflight := jm_delete org (ps_inflight s1), ps_loading := js_remove org (ps_loading s1),
            ps_tasks := filter (\<lambda>x. fst x \<noteq> t) (ps_tasks s1)\<rparr>)"

definition reset_pierce :: "pierce_state \<Rightarrow> pierce_state" where
  "reset_pierce s = s\<lparr>ps_cache := [], ps_inflight := [], ps_loading := []\<rparr>"

definition is_pierce_loading :: "jstr \<Rightarrow> pierce_state \<Rightarrow> bool" where
  "is_pierce_loading org s \<longleftrightarrow> org \<in> set (ps_loading s)"

section \<open>One request per organisation\<close>

text \<open>What happens between two resets.\<close>

inductive pierce_run :: "pierce_state \<Rightarrow> bool" where
  fresh: "ps_tasks s = [] \<Longrightarrow> pierce_run (reset_pierce s)"
| load: "pierce_run s \<Longrightarrow> pierce_run (snd (pierce_load org chain s))"
| complete: "pierce_run s \<Longrightarrow> (t, org) \<in> set (ps_tasks s) \<Longrightarrow> pierce_run (pierce_complete t org ans s)"

definition pierce_inv :: "pierce_state \<Rightarrow> bool" where
  "pierce_inv s \<longleftrightarrow> distinct (map snd (ps_tasks s))
     \<and> (\<forall>t org. (t, org) \<in> set (ps_tasks s) \<longrightarrow> t < ps_next s \<and> jm_get (ps_cache s) org = None)
     \<and> (\<forall>t org org'. (t, org) \<in> set (ps_tasks s) \<and> (t, org') \<in> set (ps_tasks s) \<longrightarrow> org = org')
     \<and> (\<forall>org t. jm_get (ps_inflight s) org = Some t \<longleftrightarrow> (t, org) \<in> set (ps_tasks s))
     \<and> (\<forall>org. org \<in> set (ps_loading s) \<longleftrightarrow> (\<exists>t. (t, org) \<in> set (ps_tasks s)))"

lemma pierce_invD:
  assumes "pierce_inv s"
  shows "distinct (map snd (ps_tasks s))" "(t, org) \<in> set (ps_tasks s) \<Longrightarrow> t < ps_next s \<and> jm_get (ps_cache s) org = None"
    "(t, org) \<in> set (ps_tasks s) \<Longrightarrow> (t, org') \<in> set (ps_tasks s) \<Longrightarrow> org = org'"
    "jm_get (ps_inflight s) org = Some t \<longleftrightarrow> (t, org) \<in> set (ps_tasks s)"
    "org \<in> set (ps_loading s) \<longleftrightarrow> (\<exists>t. (t, org) \<in> set (ps_tasks s))"
  using assms unfolding pierce_inv_def by blast+

lemma pierce_load_new:
  assumes "pierce_inv s" "jm_get (ps_cache s) org = None" "jm_get (ps_inflight s) org = None"
  shows "pierce_inv (s\<lparr>ps_loading := js_add org (ps_loading s), ps_tasks := ps_tasks s @ [(ps_next s, org)],
    ps_inflight := jm_set org (ps_next s) (ps_inflight s), ps_next := Suc (ps_next s)\<rparr>)"
proof -
  note i = pierce_invD [OF assms(1)]
  have n: "(t, org) \<notin> set (ps_tasks s)" for t using i(4) [of org t] assms(3) by simp
  then have "distinct (map snd (ps_tasks s @ [(ps_next s, org)]))" using i(1) by force
  moreover have "(ps_next s, org') \<notin> set (ps_tasks s)" for org' using i(2) by fast
  ultimately show ?thesis
    unfolding pierce_inv_def using i n assms(2) by (auto simp: less_Suc_eq)
qed

lemma pierce_load_inv: "pierce_inv s \<Longrightarrow> pierce_inv (snd (pierce_load org chain s))"
  using pierce_load_new by (simp add: pierce_load_def split: option.splits)

lemma pierce_complete_inv:
  assumes "pierce_inv s" "(t, org) \<in> set (ps_tasks s)"
  shows "pierce_inv (pierce_complete t org ans s)"
proof -
  note i = pierce_invD [OF assms(1)]
  have "(t', org') \<in> set (filter (\<lambda>x. fst x \<noteq> t) (ps_tasks s)) \<longleftrightarrow> (t', org') \<in> set (ps_tasks s) \<and> org' \<noteq> org" for t' org'
  proof -
    have "t' = t" if "(t', org) \<in> set (ps_tasks s)" using i(4) [of org] that assms(2) by (metis option.inject)
    moreover have "org' = org" if "(t, org') \<in> set (ps_tasks s)" using i(3) that assms(2) by blast
    ultimately show ?thesis by auto
  qed
  note m = this
  have "jm_get (ps_cache (pierce_complete t org ans s)) org' = jm_get (ps_cache s) org'" if "org' \<noteq> org" for org'
    using that by (auto simp: pierce_complete_def Let_def split: option.splits)
  moreover have "ps_tasks (pierce_complete t org ans s) = filter (\<lambda>x. fst x \<noteq> t) (ps_tasks s)"
    "ps_inflight (pierce_complete t org ans s) = jm_delete org (ps_inflight s)"
    "ps_loading (pierce_complete t org ans s) = js_remove org (ps_loading s)"
    "ps_next (pierce_complete t org ans s) = ps_next s"
    by (auto simp: pierce_complete_def Let_def split: option.splits)
  ultimately show ?thesis
    unfolding pierce_inv_def using i m by (simp add: distinct_filter_map del: filter_set set_filter) blast
qed



text \<open>
  A reset does not stop the requests under way: the answer of a request made before the reset
  fills the cache after it, and takes the mark of a newer request away, so the organisation is
  requested once more while that one is still under way.
\<close>

theorem reset_does_not_stop_requests:
  assumes "org \<noteq> []" "\<not> is_org_in_chain chain org" "jm_get (ps_cache s) org = None" "jm_get (ps_inflight s) org = None"
    and "pierce_load org chain s = (Waits t, s1)" "pierce_load org chain (reset_pierce s1) = (Waits t2, s2)"
  shows "t2 \<noteq> t \<and> jm_get (ps_cache (pierce_complete t org (Some old) s2)) org = Some old
    \<and> (\<exists>t3 s3. pierce_load org chain (pierce_complete t org None s2) = (Waits t3, s3) \<and> t3 \<noteq> t2 \<and> (t2, org) \<in> set (ps_tasks s3))"
proof -
  have s1: "t = ps_next s" "ps_next s1 = Suc t"
    using assms(1-5) by (auto simp: pierce_load_def)
  then have s2: "t2 = Suc t" "(t2, org) \<in> set (ps_tasks s2)" "ps_next s2 = Suc t2" "jm_get (ps_cache s2) org = None"
    using assms(1,2,6) by (auto simp: pierce_load_def reset_pierce_def)
  then show ?thesis
    using assms(1,2) by (auto simp: pierce_complete_def pierce_load_def Let_def)
qed

theorem reset_does_not_stop_requests_witness:
  "\<exists>s1 s2. pierce_load (js ''B'') [] new_pierce = (Waits 0, s1) \<and> pierce_load (js ''B'') [] (reset_pierce s1) = (Waits 1, s2)
     \<and> jm_get (ps_cache (pierce_complete 0 (js ''B'') (Some []) s2)) (js ''B'') = Some []"
proof -
  let ?b = "js ''B''"
  obtain s1 s2 where l: "pierce_load ?b [] new_pierce = (Waits 0, s1)" "pierce_load ?b [] (reset_pierce s1) = (Waits 1, s2)"
    by (simp add: pierce_load_def new_pierce_def reset_pierce_def is_org_in_chain_def)
  have "?b \<noteq> []" "\<not> is_org_in_chain [] ?b" "jm_get (ps_cache new_pierce) ?b = None" "jm_get (ps_inflight new_pierce) ?b = None"
    by (simp_all add: is_org_in_chain_def new_pierce_def)
  from reset_does_not_stop_requests [OF this l] l show ?thesis by blast
qed

end
