(* ===== verification/Nav_Menu.thy ===== *)
theory Nav_Menu
  imports Js_Map
begin

text \<open>
  The navigation of the administration frontend: the sidebar tree made from the router menu
  (frontend/mis-admin-web/src/lib/nav/menu-tree.ts), and the merge of the dynamic menu into the
  static one (lib/nav/menus-to-nav.ts). Null children are left out of the lists, and a missing
  \<open>meta\<close> is one without title and icon.
\<close>

section \<open>Router menus\<close>

record router_fields =
  rn_id :: jstr
  rn_name :: jstr
  rn_path :: jstr
  rn_component :: "jstr option"
  rn_title :: "jstr option"
  rn_icon :: "jstr option"

datatype router_node = Router_Node router_fields "router_node list"

record nav_leaf =
  nl_id :: jstr
  nl_path :: jstr
  nl_title :: jstr
  nl_icon :: "jstr option"

datatype nav_entry = Nav_Leaf nav_leaf | Nav_Group jstr jstr "jstr option" "nav_leaf list"

text \<open>\<open>replace(/\/+/g, '/')\<close>.\<close>

fun collapse_slashes :: "jstr \<Rightarrow> jstr" where
  "collapse_slashes (c # d # s) = (if c = 47 \<and> d = 47 then collapse_slashes (d # s) else c # collapse_slashes (d # s))"
| "collapse_slashes s = s"

definition with_slash :: "jstr \<Rightarrow> jstr" where
  "with_slash s = (if starts_with s (js ''/'') then s else js ''/'' @ s)"

definition join_path :: "jstr \<Rightarrow> jstr \<Rightarrow> jstr" where
  "join_path parent segment =
     with_slash (if starts_with segment (js ''/'') then segment else collapse_slashes (parent @ js ''/'' @ segment))"

definition is_page :: "router_fields \<Rightarrow> bool" where
  "is_page f = (case nonempty (rn_component f) of Some c \<Rightarrow> c \<noteq> js ''Layout'' | None \<Rightarrow> False)"

definition nav_leaf_of :: "router_fields \<Rightarrow> jstr \<Rightarrow> nav_leaf" where
  "nav_leaf_of f path = \<lparr>nl_id = rn_id f, nl_path = path, nl_title = default_to (rn_name f) (rn_title f), nl_icon = rn_icon f\<rparr>"

fun entry_leaves :: "nav_entry \<Rightarrow> nav_leaf list" where
  "entry_leaves (Nav_Leaf l) = [l]"
| "entry_leaves (Nav_Group i t icon ls) = ls"

text \<open>
  What a node adds to the list: itself as a leaf when it is a page; a layout with children the
  group of its pages, those below a nested layout included.
\<close>

fun node_entries :: "jstr \<Rightarrow> router_node \<Rightarrow> nav_entry list" where
  "node_entries parent (Router_Node f kids) =
     (let full = join_path parent (rn_path f);
          base = (if full = js ''/'' then [] else full) in
      if \<not> is_page f \<and> kids \<noteq> [] then
        (let leaves = concat (map (\<lambda>k. case k of Router_Node g subs \<Rightarrow>
               if is_page g then [nav_leaf_of g (join_path base (rn_path g))]
               else if subs \<noteq> [] then concat (map entry_leaves (node_entries base k))
               else []) kids)
         in if leaves \<noteq> [] then [Nav_Group (rn_id f) (default_to (rn_name f) (rn_title f)) (rn_icon f) leaves] else [])
      else if is_page f then [Nav_Leaf (nav_leaf_of f full)]
      else [])"

definition build_nav_tree :: "router_node list \<Rightarrow> jstr \<Rightarrow> nav_entry list" where
  "build_nav_tree nodes parent = concat (map (node_entries parent) nodes)"

definition under_path :: "jstr \<Rightarrow> jstr \<Rightarrow> bool" where
  "under_path path base \<longleftrightarrow> path = base \<or> starts_with path (base @ js ''/'')"

definition better_leaf :: "jstr \<Rightarrow> nav_leaf option \<Rightarrow> nav_leaf \<Rightarrow> nav_leaf option" where
  "better_leaf path best l =
     (if \<not> under_path path (nl_path l) then best
      else case best of
             None \<Rightarrow> Some l
           | Some b \<Rightarrow> if length (nl_path b) < length (nl_path l) then Some l else best)"

definition find_nav_leaf :: "nav_entry list \<Rightarrow> jstr \<Rightarrow> nav_leaf option" where
  "find_nav_leaf entries path = foldl (better_leaf path) None (concat (map entry_leaves entries))"

definition find_nav_title :: "nav_entry list \<Rightarrow> jstr \<Rightarrow> jstr option" where
  "find_nav_title entries path = map_option nl_title (find_nav_leaf entries path)"

definition find_nav_icon :: "nav_entry list \<Rightarrow> jstr \<Rightarrow> jstr option" where
  "find_nav_icon entries path = Option.bind (find_nav_leaf entries path) nl_icon"

definition group_is_active :: "nav_entry \<Rightarrow> jstr \<Rightarrow> bool" where
  "group_is_active g path \<longleftrightarrow> (\<exists>l \<in> set (entry_leaves g). under_path path (nl_path l))"

section \<open>The pages of the tree\<close>

text \<open>The pages of a router tree in order: a page hides what is below it.\<close>

fun page_leaves :: "jstr \<Rightarrow> router_node \<Rightarrow> nav_leaf list" where
  "page_leaves parent (Router_Node f kids) =
     (let full = join_path parent (rn_path f) in
      if is_page f then [nav_leaf_of f full]
      else concat (map (page_leaves (if full = js ''/'' then [] else full)) kids))"

lemma entries_page_leaves: "concat (map entry_leaves (node_entries parent n)) = page_leaves parent n"
proof (induction parent n rule: page_leaves.induct)
  case (1 parent f kids)
  define base where "base = (if join_path parent (rn_path f) = js ''/'' then [] else join_path parent (rn_path f))"
  let ?kid = "\<lambda>k. case k of Router_Node g subs \<Rightarrow>
     if is_page g then [nav_leaf_of g (join_path base (rn_path g))]
     else if subs \<noteq> [] then concat (map entry_leaves (node_entries base k)) else []"
  have "?kid k = page_leaves base k" if "k \<in> set kids" "\<not> is_page f" for k
  proof (cases k)
    case (Router_Node g subs)
    from 1 [OF refl that(2) that(1)] Router_Node show ?thesis
      by (auto simp: base_def Let_def simp del: node_entries.simps)
  qed
  then have m: "\<not> is_page f \<Longrightarrow> map ?kid kids = map (page_leaves base) kids" by (intro map_cong) simp_all
  have n: "node_entries parent (Router_Node f kids) =
      (if \<not> is_page f \<and> kids \<noteq> [] then
         (if concat (map ?kid kids) \<noteq> []
          then [Nav_Group (rn_id f) (default_to (rn_name f) (rn_title f)) (rn_icon f) (concat (map ?kid kids))] else [])
       else if is_page f then [Nav_Leaf (nav_leaf_of f (join_path parent (rn_path f)))] else [])"
    unfolding node_entries.simps Let_def base_def ..
  have p: "page_leaves parent (Router_Node f kids) =
      (if is_page f then [nav_leaf_of f (join_path parent (rn_path f))] else concat (map (page_leaves base) kids))"
    unfolding page_leaves.simps Let_def base_def ..
  show ?case
  proof (cases "is_page f")
    case True
    then show ?thesis unfolding n p by simp
  next
    case False
    then show ?thesis unfolding n p m [OF False] by (cases "concat (map (page_leaves base) kids)") auto
  qed
qed

text \<open>
  The sidebar shows exactly the pages of the router tree, in order, whatever layouts they are
  nested in, and its groups are never empty.
\<close>

theorem sidebar_shows_all_pages:
  "concat (map entry_leaves (build_nav_tree nodes parent)) = concat (map (page_leaves parent) nodes)
   \<and> [] \<notin> set (map entry_leaves (build_nav_tree nodes parent))"
proof -
  have "concat (map entry_leaves (build_nav_tree nodes parent)) = concat (map (page_leaves parent) nodes)"
    unfolding build_nav_tree_def by (induction nodes) (simp_all add: entries_page_leaves)
  moreover have "entry_leaves e \<noteq> []" if "e \<in> set (node_entries parent n)" for e n
    using that by (cases n) (auto simp: Let_def split: if_splits)
  ultimately show ?thesis by (fastforce simp: build_nav_tree_def)
qed

section \<open>The current entry\<close>

lemma better_leaf_fold:
  "foldl (better_leaf path) best ls = Some l \<Longrightarrow>
     (l \<in> set ls \<and> under_path path (nl_path l) \<or> best = Some l)
     \<and> (\<forall>k \<in> set ls. under_path path (nl_path k) \<longrightarrow> length (nl_path k) \<le> length (nl_path l))
     \<and> (\<forall>b. best = Some b \<longrightarrow> length (nl_path b) \<le> length (nl_path l))"
proof (induction ls arbitrary: best)
  case (Cons k ls)
  from Cons.IH [of "better_leaf path best k"] Cons.prems show ?case
    by (cases best) (auto simp: better_leaf_def split: if_splits)
qed simp

lemma better_leaf_fold_None: "foldl (better_leaf path) best ls = None \<longleftrightarrow> best = None \<and> (\<forall>k \<in> set ls. \<not> under_path path (nl_path k))"
  by (induction ls arbitrary: best) (auto simp: better_leaf_def split: option.splits)

lemma under_path_segments: "under_path path base \<longleftrightarrow> prefix (split_on 47 base) (split_on 47 path)"
  by (simp add: under_path_def starts_with_def js_def segment_prefix)

text \<open>
  The current entry is a page whose path begins the current one by whole segments, and no
  such page has a longer path; there is none only when no page begins the path.
\<close>

theorem current_entry_is_longest:
  "case find_nav_leaf entries path of
     Some l \<Rightarrow> l \<in> set (concat (map entry_leaves entries)) \<and> prefix (split_on 47 (nl_path l)) (split_on 47 path)
       \<and> (\<forall>k \<in> set (concat (map entry_leaves entries)). prefix (split_on 47 (nl_path k)) (split_on 47 path)
            \<longrightarrow> length (nl_path k) \<le> length (nl_path l))
   | None \<Rightarrow> \<forall>e \<in> set entries. \<not> group_is_active e path"
proof (cases "find_nav_leaf entries path")
  case None
  then have "\<forall>e \<in> set entries. \<not> group_is_active e path"
    by (auto simp: find_nav_leaf_def better_leaf_fold_None group_is_active_def)
  with None show ?thesis by simp
next
  case (Some l)
  from better_leaf_fold [OF this [unfolded find_nav_leaf_def]] Some show ?thesis
    by (simp add: under_path_segments)
qed

theorem current_entry_is_longest_witness:
  "find_nav_leaf [Nav_Leaf \<lparr>nl_id = [], nl_path = js ''/kb'', nl_title = [], nl_icon = None\<rparr>] (js ''/agent'') = None"
proof -
  let ?l = "Nav_Leaf \<lparr>nl_id = [], nl_path = js ''/kb'', nl_title = [], nl_icon = None\<rparr>"
  have "split_on 47 (js ''/kb'') = [[], js ''kb'']" "split_on 47 (js ''/agent'') = [[], js ''agent'']"
    by (simp_all add: js_def)
  then show ?thesis
    using current_entry_is_longest [of "[?l]" "js ''/agent''"] by (auto split: option.splits)
qed

section \<open>Dynamic menus\<close>

record sys_leaf =
  sl_path :: jstr
  sl_title :: jstr
  sl_icon :: jstr

datatype sys_node = Sys_Leaf sys_leaf | Sys_Branch jstr jstr "sys_leaf list"

fun node_leaves :: "sys_node \<Rightarrow> sys_leaf list" where
  "node_leaves (Sys_Leaf l) = [l]"
| "node_leaves (Sys_Branch t i ls) = ls"

definition flatten_leaves :: "sys_node list \<Rightarrow> sys_leaf list" where
  "flatten_leaves ns = concat (map node_leaves ns)"

definition drop_last_slash :: "jstr \<Rightarrow> jstr" where
  "drop_last_slash s = (if ends_with s (js ''/'') then butlast s else s)"

definition menu_join :: "jstr \<Rightarrow> jstr \<Rightarrow> jstr" where
  "menu_join parent segment =
     (let root = (if parent = [] then js ''/'' else parent); seg = trim segment in
      if seg = [] then root
      else if starts_with seg (js ''/'') then seg
      else let base = drop_last_slash root in
        if base = [] \<or> base = js ''/'' then js ''/'' @ seg else collapse_slashes (base @ js ''/'' @ seg))"

definition text_or :: "jstr option \<Rightarrow> jstr \<Rightarrow> jstr" where
  "text_or t d = default_to d (nonempty t)"

fun collect_leaves :: "jstr \<Rightarrow> router_node \<Rightarrow> sys_leaf list" where
  "collect_leaves parent (Router_Node f kids) =
     (let full = menu_join parent (rn_path f) in
      if kids = [] then [\<lparr>sl_path = with_slash full, sl_title = text_or (rn_title f) (rn_name f), sl_icon = text_or (rn_icon f) (js ''Circle'')\<rparr>]
      else concat (map (collect_leaves full) kids))"

definition router_menu_node :: "router_node \<Rightarrow> sys_node" where
  "router_menu_node n =
     (case n of Router_Node f kids \<Rightarrow>
        (let title = text_or (rn_title f) (rn_name f); icon = text_or (rn_icon f) (js ''Folder'');
             full = menu_join (js ''/'') (rn_path f)
         in if kids = [] then Sys_Leaf \<lparr>sl_path = with_slash full, sl_title = title, sl_icon = icon\<rparr>
            else Sys_Branch title icon (concat (map (collect_leaves full) kids))))"

definition router_menus_to_nav :: "router_node list \<Rightarrow> sys_node list option" where
  "router_menus_to_nav menus = (if menus = [] then None else Some (map router_menu_node menus))"

definition leaf_table :: "sys_node list option \<Rightarrow> (jstr, sys_leaf) jmap" where
  "leaf_table dyn = foldl (\<lambda>m l. jm_set (sl_path l) l m) [] (flatten_leaves (default_to [] dyn))"

definition merge_leaf :: "(jstr, sys_leaf) jmap \<Rightarrow> sys_leaf \<Rightarrow> sys_leaf" where
  "merge_leaf m l = (case jm_get m (sl_path l) of Some d \<Rightarrow> l\<lparr>sl_title := sl_title d, sl_icon := sl_icon d\<rparr> | None \<Rightarrow> l)"

fun merge_node :: "(jstr, sys_leaf) jmap \<Rightarrow> sys_node \<Rightarrow> sys_node" where
  "merge_node m (Sys_Leaf l) = Sys_Leaf (merge_leaf m l)"
| "merge_node m (Sys_Branch t i ls) = Sys_Branch t i (map (merge_leaf m) ls)"

definition merge_nav :: "sys_node list \<Rightarrow> sys_node list option \<Rightarrow> sys_node list" where
  "merge_nav fallback dyn = map (merge_node (leaf_table dyn)) fallback"

fun node_shape :: "sys_node \<Rightarrow> (jstr \<times> jstr) option \<times> jstr list" where
  "node_shape (Sys_Leaf l) = (None, [sl_path l])"
| "node_shape (Sys_Branch t i ls) = (Some (t, i), map sl_path ls)"

lemma merge_leaf_path [simp]: "sl_path (merge_leaf m l) = sl_path l"
  by (simp add: merge_leaf_def split: option.splits)

lemma merge_leaf_again [simp]: "merge_leaf m (merge_leaf m l) = merge_leaf m l"
  by (simp add: merge_leaf_def split: option.splits)

lemma leaf_table_paths: "\<forall>k d. jm_get m k = Some d \<longrightarrow> sl_path d = k \<Longrightarrow>
    jm_get (foldl (\<lambda>m l. jm_set (sl_path l) l m) m ls) k = Some d \<Longrightarrow> sl_path d = k \<and> (d \<in> set ls \<or> jm_get m k = Some d)"
proof (induction ls arbitrary: m)
  case (Cons l ls)
  have "\<forall>k d. jm_get (jm_set (sl_path l) l m) k = Some d \<longrightarrow> sl_path d = k" using Cons.prems(1) by simp
  from Cons.IH [OF this] Cons.prems(2) show ?case by (auto split: if_splits)
qed simp

lemma leaf_table_has: "l \<in> set ls \<Longrightarrow> \<exists>d. jm_get (foldl (\<lambda>m l. jm_set (sl_path l) l m) m ls) (sl_path l) = Some d"
proof (induction ls arbitrary: m rule: rev_induct)
  case (snoc x xs)
  then show ?case by (cases "sl_path x = sl_path l") auto
qed simp

text \<open>
  Merging the dynamic menu keeps every route of the static navigation in its place and adds
  none; every leaf the dynamic menu knows takes the title of one of its entries for that path,
  the others keep theirs, and merging again changes nothing.
\<close>

theorem merge_keeps_routes:
  "map node_shape (merge_nav fallback dyn) = map node_shape fallback
   \<and> merge_nav (merge_nav fallback dyn) dyn = merge_nav fallback dyn
   \<and> (\<forall>l \<in> set (flatten_leaves (merge_nav fallback dyn)).
        l \<in> set (flatten_leaves fallback) \<and> sl_path l \<notin> sl_path ` set (flatten_leaves (default_to [] dyn))
        \<or> (\<exists>d \<in> set (flatten_leaves (default_to [] dyn)). sl_path d = sl_path l \<and> sl_title d = sl_title l))"
proof -
  have s: "node_shape (merge_node m n) = node_shape n" "merge_node m (merge_node m n) = merge_node m n" for m n
    by (cases n; simp)+
  have leaf: "merge_leaf (leaf_table dyn) k = k \<and> sl_path k \<notin> sl_path ` set (flatten_leaves (default_to [] dyn))
      \<or> (\<exists>d \<in> set (flatten_leaves (default_to [] dyn)). sl_path d = sl_path k \<and> sl_title d = sl_title (merge_leaf (leaf_table dyn) k))" for k
  proof (cases "jm_get (leaf_table dyn) (sl_path k)")
    case None
    with leaf_table_has [of _ "flatten_leaves (default_to [] dyn)" "[]"] show ?thesis
      by (force simp: merge_leaf_def leaf_table_def)
  next
    case (Some d)
    with leaf_table_paths [of "[]" "flatten_leaves (default_to [] dyn)" "sl_path k" d] show ?thesis
      by (auto simp: merge_leaf_def leaf_table_def)
  qed
  have nl: "node_leaves (merge_node m n) = map (merge_leaf m) (node_leaves n)" for m n by (cases n) simp_all
  have fl: "flatten_leaves (merge_nav fallback dyn) = map (merge_leaf (leaf_table dyn)) (flatten_leaves fallback)"
    by (simp add: flatten_leaves_def merge_nav_def nl map_concat comp_def)
  have "\<forall>l \<in> set (flatten_leaves (merge_nav fallback dyn)).
        l \<in> set (flatten_leaves fallback) \<and> sl_path l \<notin> sl_path ` set (flatten_leaves (default_to [] dyn))
        \<or> (\<exists>d \<in> set (flatten_leaves (default_to [] dyn)). sl_path d = sl_path l \<and> sl_title d = sl_title l)"
  proof
    fix l assume "l \<in> set (flatten_leaves (merge_nav fallback dyn))"
    then obtain k where "k \<in> set (flatten_leaves fallback)" "l = merge_leaf (leaf_table dyn) k" unfolding fl by auto
    with leaf [of k] show "l \<in> set (flatten_leaves fallback) \<and> sl_path l \<notin> sl_path ` set (flatten_leaves (default_to [] dyn))
        \<or> (\<exists>d \<in> set (flatten_leaves (default_to [] dyn)). sl_path d = sl_path l \<and> sl_title d = sl_title l)"
      by (metis merge_leaf_path)
  qed
  with s show ?thesis by (simp add: merge_nav_def comp_def)
qed

theorem merge_keeps_routes_witness:
  "merge_nav (merge_nav [Sys_Leaf \<lparr>sl_path = js ''/a'', sl_title = js ''A'', sl_icon = []\<rparr>] None) None
     = merge_nav [Sys_Leaf \<lparr>sl_path = js ''/a'', sl_title = js ''A'', sl_icon = []\<rparr>] None"
  using merge_keeps_routes by blast

end
