(* ===== verification/Client_Sort.thy ===== *)
theory Client_Sort
  imports Bot_Cards "HOL-Library.Multiset"
begin

text \<open>
  The column sorting of tables, frontend/mis-admin-web/src/components/common/use-client-sort.ts.
  \<open>Array.prototype.sort\<close> is the stable insertion sort \<open>sort_by\<close>, which is what the language
  prescribes for a consistent comparison; \<open>coll\<close> is the locale's comparison of strings. Dates are
  not among the values.
\<close>

section \<open>Sorting\<close>

datatype sort_dir = Asc | Desc

record sort_state =
  ss_key :: "jstr option"
  ss_dir :: sort_dir

definition new_sort :: sort_state where
  "new_sort = \<lparr>ss_key = None, ss_dir = Asc\<rparr>"

definition toggle_sort :: "jstr \<Rightarrow> sort_state \<Rightarrow> sort_state" where
  "toggle_sort key s =
     (if ss_key s \<noteq> Some key then \<lparr>ss_key = Some key, ss_dir = Asc\<rparr>
      else if ss_dir s = Asc then s\<lparr>ss_dir := Desc\<rparr>
      else \<lparr>ss_key = None, ss_dir = Asc\<rparr>)"

definition compare_sort_values :: "(jstr \<Rightarrow> jstr \<Rightarrow> int) \<Rightarrow> jval \<Rightarrow> jval \<Rightarrow> int" where
  "compare_sort_values coll a b =
     (if nullish a \<and> nullish b then 0
      else if nullish a then 1
      else if nullish b then -1
      else case (a, b) of
             (JNum m, JNum n) \<Rightarrow> m - n
           | (JBool p, JBool q) \<Rightarrow> (if p then 1 else 0) - (if q then 1 else 0)
           | _ \<Rightarrow> coll (js_string a) (js_string b))"

primrec insert_by :: "('a \<Rightarrow> 'a \<Rightarrow> int) \<Rightarrow> 'a \<Rightarrow> 'a list \<Rightarrow> 'a list" where
  "insert_by cmp x [] = [x]"
| "insert_by cmp x (y # ys) = (if cmp x y \<le> 0 then x # y # ys else y # insert_by cmp x ys)"

definition sort_by :: "('a \<Rightarrow> 'a \<Rightarrow> int) \<Rightarrow> 'a list \<Rightarrow> 'a list" where
  "sort_by cmp xs = foldr (insert_by cmp) xs []"

definition sorted_rows :: "(jstr \<Rightarrow> jstr \<Rightarrow> int) \<Rightarrow> ('a \<Rightarrow> jstr \<Rightarrow> jval) \<Rightarrow> sort_state \<Rightarrow> 'a list \<Rightarrow> 'a list" where
  "sorted_rows coll get s rows =
     (case nonempty (ss_key s) of
        None \<Rightarrow> rows
      | Some key \<Rightarrow>
          sort_by (\<lambda>a b. let c = compare_sort_values coll (get a key) (get b key) in if ss_dir s = Asc then c else - c) rows)"

lemma mset_insert_by [simp]: "mset (insert_by cmp x ys) = add_mset x (mset ys)"
  by (induction ys) auto

lemma mset_sort_by [simp]: "mset (sort_by cmp xs) = mset xs"
  unfolding sort_by_def by (induction xs) simp_all

section \<open>Sorting by a consistent comparison\<close>

lemma set_insert_by [simp]: "set (insert_by cmp x ys) = insert x (set ys)"
  by (metis mset_insert_by set_mset_add_mset_insert set_mset_mset)

lemma set_sort_by [simp]: "set (sort_by cmp xs) = set xs"
  by (metis mset_sort_by set_mset_mset)

lemma sort_by_Cons: "sort_by cmp (x # xs) = insert_by cmp x (sort_by cmp xs)"
  by (simp add: sort_by_def)

text \<open>What the language asks of a comparison on the elements of \<open>S\<close>.\<close>

definition consistent_on :: "'a set \<Rightarrow> ('a \<Rightarrow> 'a \<Rightarrow> int) \<Rightarrow> bool" where
  "consistent_on S cmp \<longleftrightarrow>
     (\<forall>a\<in>S. \<forall>b\<in>S. cmp b a \<le> 0 \<longleftrightarrow> 0 \<le> cmp a b) \<and>
     (\<forall>a\<in>S. \<forall>b\<in>S. \<forall>c\<in>S. cmp a b \<le> 0 \<longrightarrow> cmp b c \<le> 0 \<longrightarrow> cmp a c \<le> 0)"

lemma consistent_flip: "consistent_on S cmp \<Longrightarrow> a \<in> S \<Longrightarrow> b \<in> S \<Longrightarrow> cmp b a \<le> 0 \<longleftrightarrow> 0 \<le> cmp a b"
  unfolding consistent_on_def by blast

lemma consistent_trans:
  "consistent_on S cmp \<Longrightarrow> a \<in> S \<Longrightarrow> b \<in> S \<Longrightarrow> c \<in> S \<Longrightarrow> cmp a b \<le> 0 \<Longrightarrow> cmp b c \<le> 0 \<Longrightarrow> cmp a c \<le> 0"
  unfolding consistent_on_def by blast

lemma consistent_neg:
  assumes "consistent_on S cmp"
  shows "consistent_on S (\<lambda>a b. - cmp a b)"
  unfolding consistent_on_def
proof (intro conjI ballI impI)
  fix a b assume "a \<in> S" "b \<in> S"
  then show "(- cmp b a \<le> 0) = (0 \<le> - cmp a b)" using consistent_flip [OF assms] by simp
next
  fix a b c assume s: "a \<in> S" "b \<in> S" "c \<in> S" and "- cmp a b \<le> 0" "- cmp b c \<le> 0"
  then have "cmp b a \<le> 0" "cmp c b \<le> 0"
    using consistent_flip [OF assms s(1,2)] consistent_flip [OF assms s(2,3)] by simp_all
  then have "cmp c a \<le> 0" by (rule consistent_trans [OF assms s(3,2,1), rotated])
  then show "- cmp a c \<le> 0" using consistent_flip [OF assms s(1,3)] by simp
qed

lemma consistent_mono: "consistent_on S cmp \<Longrightarrow> T \<subseteq> S \<Longrightarrow> consistent_on T cmp"
  unfolding consistent_on_def by blast

lemma consistent_map: "consistent_on (set (map f xs)) cmp \<Longrightarrow> consistent_on (set xs) (\<lambda>a b. cmp (f a) (f b))"
  unfolding consistent_on_def set_map by blast

lemma insert_sorted:
  assumes "consistent_on (insert x (set ys)) cmp" "sorted_wrt (\<lambda>a b. cmp a b \<le> 0) ys"
  shows "sorted_wrt (\<lambda>a b. cmp a b \<le> 0) (insert_by cmp x ys)"
  using assms
proof (induction ys)
  case (Cons y ys)
  have sub: "consistent_on (insert x (set ys)) cmp" using Cons.prems(1) by (rule consistent_mono) auto
  show ?case
  proof (cases "cmp x y \<le> 0")
    case True
    then have "cmp x z \<le> 0" if "z \<in> set ys" for z
      using consistent_trans [OF Cons.prems(1), of x y z] Cons.prems(2) that by auto
    with True Cons.prems(2) show ?thesis by auto
  next
    case False
    then have "cmp y x \<le> 0" using consistent_flip [OF Cons.prems(1), of x y] by auto
    with False Cons.IH [OF sub] Cons.prems(2) show ?thesis by auto
  qed
qed simp

lemma sort_sorted: "consistent_on (set xs) cmp \<Longrightarrow> sorted_wrt (\<lambda>a b. cmp a b \<le> 0) (sort_by cmp xs)"
proof (induction xs)
  case (Cons x xs)
  have "consistent_on (set xs) cmp" using Cons.prems by (rule consistent_mono) auto
  with Cons show ?case by (simp add: sort_by_Cons insert_sorted)
qed (simp add: sort_by_def)

lemma insert_stable:
  "(\<And>y. y \<in> set ys \<Longrightarrow> P x \<Longrightarrow> P y \<Longrightarrow> cmp x y \<le> 0) \<Longrightarrow> filter P (insert_by cmp x ys) = filter P (x # ys)"
  by (induction ys) auto

lemma sort_stable:
  "(\<And>a b. a \<in> set xs \<Longrightarrow> b \<in> set xs \<Longrightarrow> P a \<Longrightarrow> P b \<Longrightarrow> cmp a b \<le> 0) \<Longrightarrow> filter P (sort_by cmp xs) = filter P xs"
proof (induction xs)
  case (Cons x xs)
  have "filter P (sort_by cmp (x # xs)) = filter P (x # sort_by cmp xs)"
    unfolding sort_by_Cons by (rule insert_stable) (use Cons.prems in auto)
  also have "filter P (sort_by cmp xs) = filter P xs" by (rule Cons.IH) (use Cons.prems in auto)
  then have "filter P (x # sort_by cmp xs) = filter P (x # xs)" by simp
  finally show ?case .
qed (simp add: sort_by_def)

text \<open>A list whose elements with \<open>P\<close> all come first, or all come last.\<close>

lemma split_at_class: "sorted_wrt (\<lambda>a b. P a \<or> \<not> P b) xs \<Longrightarrow> xs = filter P xs @ filter (\<lambda>x. \<not> P x) xs"
proof (induction xs)
  case (Cons x xs)
  show ?case
  proof (cases "P x")
    case False
    with Cons.prems have "\<forall>y \<in> set xs. \<not> P y" by auto
    then have "filter P xs = []" "filter (\<lambda>x. \<not> P x) xs = xs" by (simp_all add: filter_empty_conv)
    with False show ?thesis by simp
  qed (use Cons in simp)
qed simp

section \<open>Columns\<close>

definition column_of :: "(jval \<Rightarrow> bool) \<Rightarrow> jval set \<Rightarrow> bool" where
  "column_of kind vs \<longleftrightarrow> (\<forall>v\<in>vs. nullish v \<or> kind v)"

definition uniform_column :: "jval set \<Rightarrow> bool" where
  "uniform_column vs \<longleftrightarrow> column_of (\<lambda>v. \<exists>n. v = JNum n) vs \<or> column_of (\<lambda>v. \<exists>b. v = JBool b) vs
     \<or> column_of (\<lambda>v. \<exists>s. v = JStr s) vs"

lemma compare_gaps [simp]:
  "nullish a \<Longrightarrow> nullish b \<Longrightarrow> compare_sort_values coll a b = 0"
  "nullish a \<Longrightarrow> \<not> nullish b \<Longrightarrow> compare_sort_values coll a b = 1"
  "\<not> nullish a \<Longrightarrow> nullish b \<Longrightarrow> compare_sort_values coll a b = -1"
  by (simp_all add: compare_sort_values_def)

lemma column_consistent:
  assumes "column_of kind vs" "consistent_on {v. kind v \<and> \<not> nullish v} (compare_sort_values coll)"
  shows "consistent_on vs (compare_sort_values coll)"
proof -
  let ?c = "compare_sort_values coll"
  have kind: "v \<in> {v. kind v \<and> \<not> nullish v}" if "v \<in> vs" "\<not> nullish v" for v
    using assms(1) that by (auto simp: column_of_def)
  show ?thesis
    unfolding consistent_on_def
  proof (intro conjI ballI impI)
    fix a b assume m: "a \<in> vs" "b \<in> vs"
    show "(?c b a \<le> 0) = (0 \<le> ?c a b)"
    proof (cases "nullish a \<or> nullish b")
      case True then show ?thesis by (cases "nullish a"; cases "nullish b") simp_all
    next
      case False
      with kind m have "a \<in> {v. kind v \<and> \<not> nullish v}" "b \<in> {v. kind v \<and> \<not> nullish v}" by blast+
      then show ?thesis by (rule consistent_flip [OF assms(2)])
    qed
  next
    fix a b c assume m: "a \<in> vs" "b \<in> vs" "c \<in> vs" and le: "?c a b \<le> 0" "?c b c \<le> 0"
    show "?c a c \<le> 0"
    proof (cases "nullish c")
      case True then show ?thesis by (cases "nullish a") simp_all
    next
      case False
      with le(2) have b: "\<not> nullish b" by (cases "nullish b") simp_all
      with le(1) have "\<not> nullish a" by (cases "nullish a") simp_all
      with b False kind m have "a \<in> {v. kind v \<and> \<not> nullish v}" "b \<in> {v. kind v \<and> \<not> nullish v}"
        "c \<in> {v. kind v \<and> \<not> nullish v}" by blast+
      then show ?thesis using le by (rule consistent_trans [OF assms(2)])
    qed
  qed
qed

lemma uniform_consistent:
  assumes "uniform_column vs" "consistent_on UNIV coll"
  shows "consistent_on vs (compare_sort_values coll)"
proof -
  have n: "consistent_on {v. (\<exists>n. v = JNum n) \<and> \<not> nullish v} (compare_sort_values coll)"
    unfolding consistent_on_def compare_sort_values_def by auto
  have b: "consistent_on {v. (\<exists>b. v = JBool b) \<and> \<not> nullish v} (compare_sort_values coll)"
    unfolding consistent_on_def compare_sort_values_def by auto
  have s: "consistent_on {v. (\<exists>s. v = JStr s) \<and> \<not> nullish v} (compare_sort_values coll)"
    unfolding consistent_on_def
  proof (intro conjI ballI impI)
    fix a b assume "a \<in> {v. (\<exists>s. v = JStr s) \<and> \<not> nullish v}" "b \<in> {v. (\<exists>s. v = JStr s) \<and> \<not> nullish v}"
    then show "(compare_sort_values coll b a \<le> 0) = (0 \<le> compare_sort_values coll a b)"
      using consistent_flip [OF assms(2)] by (auto simp: compare_sort_values_def)
  next
    fix a b c assume "a \<in> {v. (\<exists>s. v = JStr s) \<and> \<not> nullish v}" "b \<in> {v. (\<exists>s. v = JStr s) \<and> \<not> nullish v}"
      "c \<in> {v. (\<exists>s. v = JStr s) \<and> \<not> nullish v}" "compare_sort_values coll a b \<le> 0" "compare_sort_values coll b c \<le> 0"
    then show "compare_sort_values coll a c \<le> 0"
      using consistent_trans [OF assms(2)] by (auto simp: compare_sort_values_def)
  qed
  show ?thesis
    using assms(1) column_consistent [OF _ n] column_consistent [OF _ b] column_consistent [OF _ s]
    unfolding uniform_column_def by blast
qed

text \<open>The comparison of rows that the hook sorts with.\<close>

definition row_order :: "(jstr \<Rightarrow> jstr \<Rightarrow> int) \<Rightarrow> ('a \<Rightarrow> jstr \<Rightarrow> jval) \<Rightarrow> sort_dir \<Rightarrow> jstr \<Rightarrow> 'a \<Rightarrow> 'a \<Rightarrow> int" where
  "row_order coll get d key a b =
     (let c = compare_sort_values coll (get a key) (get b key) in if d = Asc then c else - c)"

lemma row_consistent:
  assumes "uniform_column (set (map (\<lambda>r. get r key) rows))" "consistent_on UNIV coll"
  shows "consistent_on (set rows) (row_order coll get d key)"
proof -
  have "consistent_on (set rows) (\<lambda>a b. compare_sort_values coll (get a key) (get b key))"
    by (rule consistent_map) (rule uniform_consistent [OF assms])
  note up = this
  have "row_order coll get Asc key = (\<lambda>a b. compare_sort_values coll (get a key) (get b key))"
    "row_order coll get Desc key = (\<lambda>a b. - compare_sort_values coll (get a key) (get b key))"
    by (simp_all add: fun_eq_iff row_order_def Let_def)
  then show ?thesis using up consistent_neg [OF up] by (cases d) simp_all
qed

lemma sorted_rows_eq:
  "key \<noteq> [] \<Longrightarrow> sorted_rows coll get \<lparr>ss_key = Some key, ss_dir = d\<rparr> rows = sort_by (row_order coll get d key) rows"
  by (cases key) (simp_all add: sorted_rows_def row_order_def [abs_def])

text \<open>
  Sorting a table by a column of numbers, of truth values or of strings (each possibly with gaps)
  permutes its rows, puts them in the order of the column, in the chosen direction, and keeps rows
  that compare equal in their old order.
\<close>

theorem column_sort_is_stable:
  assumes "key \<noteq> []" "uniform_column (set (map (\<lambda>r. get r key) rows))" "consistent_on UNIV coll" "x \<in> set rows"
  shows "(let out = sorted_rows coll get \<lparr>ss_key = Some key, ss_dir = d\<rparr> rows in
      mset out = mset rows \<and> sorted_wrt (\<lambda>a b. row_order coll get d key a b \<le> 0) out
      \<and> filter (\<lambda>r. row_order coll get d key x r = 0) out = filter (\<lambda>r. row_order coll get d key x r = 0) rows)"
proof -
  note c = row_consistent [where d = d and get = get and key = key, OF assms(2,3)] and x = assms(4)
  have "filter (\<lambda>r. row_order coll get d key x r = 0) (sort_by (row_order coll get d key) rows)
      = filter (\<lambda>r. row_order coll get d key x r = 0) rows"
  proof (rule sort_stable)
    fix a b assume m: "a \<in> set rows" "b \<in> set rows" and e: "row_order coll get d key x a = 0" "row_order coll get d key x b = 0"
    have "row_order coll get d key a x \<le> 0" using consistent_flip [OF c x m(1)] e by simp
    then show "row_order coll get d key a b \<le> 0" using consistent_trans [OF c m(1) x m(2)] e by simp
  qed
  with sort_sorted [OF c] show ?thesis by (simp add: sorted_rows_eq [OF assms(1)])
qed

lemma column_sort_is_stable_witness:
  "filter (\<lambda>r. row_order (\<lambda>_ _. 0) (\<lambda>r _. JNum (fst r)) Asc (js ''n'') (1, True) r = 0)
      (sorted_rows (\<lambda>_ _. 0) (\<lambda>r _. JNum (fst r)) \<lparr>ss_key = Some (js ''n''), ss_dir = Asc\<rparr> [(2, True), (1, True), (1, False)])
   = [(1, True), (1, False)]"
proof -
  let ?rows = "[(2, True), (1, True), (1, False)] :: (int \<times> bool) list"
  have "uniform_column (set (map (\<lambda>r. JNum (fst r)) ?rows))" by (simp add: uniform_column_def column_of_def)
  moreover have "consistent_on UNIV (\<lambda>(_::jstr) _::jstr. 0)" by (simp add: consistent_on_def)
  ultimately show ?thesis
    using column_sort_is_stable [of "js ''n''" "\<lambda>r _. JNum (fst r)" ?rows "\<lambda>_ _. 0" "(1, True)" Asc]
    by (simp add: Let_def js_def row_order_def compare_sort_values_def)
qed

text \<open>
  The rows without a value come last in ascending order and first in descending order, in both
  cases in their old order, although the comment says that they sink to the bottom.
\<close>

theorem gaps_rise_when_descending:
  assumes "key \<noteq> []" "uniform_column (set (map (\<lambda>r. get r key) rows))" "consistent_on UNIV coll"
  shows "sorted_rows coll get \<lparr>ss_key = Some key, ss_dir = d\<rparr> rows =
    (let gaps = filter (\<lambda>r. nullish (get r key)) rows;
         vals = filter (\<lambda>r. \<not> nullish (get r key)) (sorted_rows coll get \<lparr>ss_key = Some key, ss_dir = d\<rparr> rows)
     in if d = Asc then vals @ gaps else gaps @ vals)"
proof -
  let ?gap = "\<lambda>r. nullish (get r key)" and ?out = "sorted_rows coll get \<lparr>ss_key = Some key, ss_dir = d\<rparr> rows"
  have out: "?out = sort_by (row_order coll get d key) rows" using assms(1) by (rule sorted_rows_eq)
  have keep: "filter ?gap ?out = filter ?gap rows"
    unfolding out by (rule sort_stable) (simp add: row_order_def)
  have so: "sorted_wrt (\<lambda>a b. row_order coll get d key a b \<le> 0) ?out"
    unfolding out by (rule sort_sorted [OF row_consistent [where d = d and get = get and key = key, OF assms(2,3)]])
  show ?thesis
  proof (cases d)
    case Asc
    have "\<not> ?gap a \<or> \<not> \<not> ?gap b" if "row_order coll get d key a b \<le> 0" for a b
      using that Asc by (cases "?gap a"; cases "?gap b") (simp_all add: row_order_def)
    then have "sorted_wrt (\<lambda>a b. \<not> ?gap a \<or> \<not> \<not> ?gap b) ?out" by (rule sorted_wrt_mono_rel [OF _ so])
    from split_at_class [OF this] keep Asc show ?thesis by simp
  next
    case Desc
    have "?gap a \<or> \<not> ?gap b" if "row_order coll get d key a b \<le> 0" for a b
      using that Desc by (cases "?gap a"; cases "?gap b") (simp_all add: row_order_def)
    then have "sorted_wrt (\<lambda>a b. ?gap a \<or> \<not> ?gap b) ?out" by (rule sorted_wrt_mono_rel [OF _ so])
    from split_at_class [OF this] keep Desc show ?thesis by simp
  qed
qed

lemma gaps_rise_when_descending_witness:
  "sorted_rows (\<lambda>_ _. 0) (\<lambda>r _. r) \<lparr>ss_key = Some (js ''n''), ss_dir = Desc\<rparr> [JNum 1, JNull, JNum 2] = [JNull, JNum 2, JNum 1]"
proof -
  have "uniform_column (set (map (\<lambda>r. r) [JNum 1, JNull, JNum 2]))" by (simp add: uniform_column_def column_of_def)
  moreover have "consistent_on UNIV (\<lambda>(_::jstr) _::jstr. 0)" by (simp add: consistent_on_def)
  ultimately have "sorted_rows (\<lambda>_ _. 0) (\<lambda>r _. r) \<lparr>ss_key = Some (js ''n''), ss_dir = Desc\<rparr> [JNum 1, JNull, JNum 2]
      = [JNull] @ filter (\<lambda>r. \<not> nullish r) (sorted_rows (\<lambda>_ _. 0) (\<lambda>r _. r) \<lparr>ss_key = Some (js ''n''), ss_dir = Desc\<rparr> [JNum 1, JNull, JNum 2])"
    using gaps_rise_when_descending [of "js ''n''" "\<lambda>r _. r" "[JNum 1, JNull, JNum 2]" "\<lambda>_ _. 0" Desc] by (simp add: js_def)
  then show ?thesis by (simp add: sorted_rows_def sort_by_def compare_sort_values_def js_def)
qed

text \<open>Three clicks on one column header lead back to the unsorted table.\<close>

lemma three_clicks_unsort:
  "ss_key s \<noteq> Some key \<Longrightarrow> toggle_sort key (toggle_sort key (toggle_sort key s)) = new_sort"
  by (simp add: toggle_sort_def new_sort_def)

end
