(* ===== verification/Js_Json.thy ===== *)
theory Js_Json
  imports Js_Map "HOL-Library.Countable"
begin

text \<open>
  JSON as far as the code relies on it: \<open>JSON.parse\<close> gives values without \<open>undefined\<close> whose objects
  list each key once, array indices first and in order, as every object of the language does; and
  what \<open>JSON.stringify\<close> writes of such a value, \<open>JSON.parse\<close> reads back. No object is written as the
  empty string. Values are countable, so there are functions with these laws, which the witnesses use.
\<close>

text \<open>The keys that are array indices.\<close>

definition index_value :: "jstr \<Rightarrow> nat" where
  "index_value k = foldl (\<lambda>a c. 10 * a + (unat c - 48)) 0 k"

definition is_index :: "jstr \<Rightarrow> bool" where
  "is_index k \<longleftrightarrow> k \<noteq> [] \<and> list_all (\<lambda>c. 48 \<le> c \<and> c \<le> 57) k \<and> (hd k = 48 \<longrightarrow> length k = 1) \<and> index_value k < 2 ^ 32 - 1"

definition canonical_keys :: "jstr list \<Rightarrow> bool" where
  "canonical_keys ks \<longleftrightarrow> distinct ks \<and> sorted_wrt (\<lambda>k l. is_index l \<longrightarrow> is_index k \<and> index_value k < index_value l) ks"

fun json_value :: "jval \<Rightarrow> bool" where
  "json_value JUndef = False"
| "json_value (JArr vs) = list_all json_value vs"
| "json_value (JObj ob) = (canonical_keys (map fst ob) \<and> list_all (\<lambda>(k, v). json_value v) ob)"
| "json_value _ = True"

definition json_inverse :: "(jstr \<Rightarrow> jval option) \<Rightarrow> (jval \<Rightarrow> jstr) \<Rightarrow> bool" where
  "json_inverse parse stringify \<longleftrightarrow>
     (\<forall>v. json_value v \<longrightarrow> parse (stringify v) = Some v)
     \<and> (\<forall>s v. parse s = Some v \<longrightarrow> json_value v)
     \<and> (\<forall>ob. stringify (JObj ob) \<noteq> [])"

lemma json_parse_stringify: "json_inverse parse stringify \<Longrightarrow> json_value v \<Longrightarrow> parse (stringify v) = Some v"
  by (simp add: json_inverse_def)

lemma json_parsed: "json_inverse parse stringify \<Longrightarrow> parse s = Some v \<Longrightarrow> json_value v"
  by (simp add: json_inverse_def)

lemma json_object_not_empty: "json_inverse parse stringify \<Longrightarrow> stringify (JObj ob) \<noteq> []"
  by (simp add: json_inverse_def)

lemma canonical_single [simp]: "canonical_keys []" "canonical_keys [k]"
  by (simp_all add: canonical_keys_def)

lemma canonical_plain: "list_all (\<lambda>k. \<not> is_index k) ks \<Longrightarrow> distinct ks \<Longrightarrow> canonical_keys ks"
  unfolding canonical_keys_def by (induction ks) (auto simp: list_all_iff)

lemma canonical_snoc: "canonical_keys ks \<Longrightarrow> \<not> is_index k \<Longrightarrow> k \<notin> set ks \<Longrightarrow> canonical_keys (ks @ [k])"
  by (simp add: canonical_keys_def sorted_wrt_append)

lemma canonical_filter: "canonical_keys ks \<Longrightarrow> canonical_keys (filter P ks)"
  by (simp add: canonical_keys_def sorted_wrt_filter)

lemma json_value_set:
  assumes "json_value (JObj ob)" "json_value v" "\<not> is_index k"
  shows "json_value (JObj (jm_set k v ob))"
proof -
  have "canonical_keys (map fst (jm_set k v ob))"
    using assms(1,3) jm_keys_set [of k v ob] canonical_snoc by (simp add: jm_keys_def)
  moreover have "set (jm_set k v ob) \<subseteq> insert (k, v) (set ob)"
    unfolding jm_set_def by (induction ob) auto
  ultimately show ?thesis using assms(1,2) by (auto simp: list_all_iff)
qed

lemma json_value_delete:
  assumes "json_value (JObj ob)"
  shows "json_value (JObj (jm_delete k ob))"
proof -
  have "canonical_keys (map fst (jm_delete k ob))"
    using assms jm_keys_delete [of k ob] canonical_filter by (simp add: jm_keys_def)
  moreover have "set (jm_delete k ob) \<subseteq> set ob" by (auto simp: jm_delete_def AList.delete_eq)
  ultimately show ?thesis using assms by (auto simp: list_all_iff)
qed

lemma json_value_field: "json_value (JObj ob) \<Longrightarrow> field_of ob k = JUndef \<or> json_value (field_of ob k)"
  by (auto simp: field_of_def list_all_iff split: option.split dest!: map_of_SomeD)

instance jval :: countable by countable_datatype

definition demo_stringify :: "jval \<Rightarrow> jstr" where
  "demo_stringify v = replicate (Suc (to_nat v)) 49"

definition demo_parse :: "jstr \<Rightarrow> jval option" where
  "demo_parse s =
     (if s = [] then None else let v = from_nat (length s - 1) in if json_value v then Some v else None)"

lemma demo_json: "json_inverse demo_parse demo_stringify"
  by (simp add: json_inverse_def demo_parse_def demo_stringify_def Let_def)

end
