(* ===== verification/Card_Adapter.thy ===== *)
theory Card_Adapter
  imports Agent_Event Js_Map
begin

text \<open>
  The event as the chat frontend sees it, agent/ai-platform/frontend/src/types/event.ts, and its
  adapter utils/cardAdapter.ts, which reads the snake-case names of the backend. Events come
  unchecked from a socket, so fields are values of type unknown; a thrown error is \<open>None\<close>.
\<close>

section \<open>Keys\<close>

text \<open>\<open>replace(/_([a-z])/g, ...)\<close>.\<close>

fun snake_to_camel :: "jstr \<Rightarrow> jstr" where
  "snake_to_camel (c # d # s) =
     (if c = 95 \<and> 97 \<le> d \<and> d \<le> 122 then (d - 32) # snake_to_camel s else c # snake_to_camel (d # s))"
| "snake_to_camel s = s"

text \<open>A key that is written twice keeps its place and gets the later value.\<close>

fun camelize_keys :: "jval \<Rightarrow> jval" where
  "camelize_keys (JArr vs) = JArr (map camelize_keys vs)"
| "camelize_keys (JObj ob) =
     JObj (foldl (\<lambda>m kv. jm_set (fst kv) (snd kv) m) [] (map (\<lambda>(k, v). (snake_to_camel k, camelize_keys v)) ob))"
| "camelize_keys v = v"

text \<open>A property of a value that is not \<open>null\<close> or \<open>undefined\<close>, and \<open>Object.entries\<close>.\<close>

fun jprop :: "jval \<Rightarrow> string \<Rightarrow> jval" where
  "jprop (JObj ob) k = field_of ob (js k)"
| "jprop _ k = JUndef"

fun js_entries :: "jval \<Rightarrow> jobj" where
  "js_entries (JObj ob) = ob"
| "js_entries (JArr vs) = zip (map nat_dec [0..<length vs]) vs"
| "js_entries (JStr s) = zip (map nat_dec [0..<length s]) (map (\<lambda>c. JStr [c]) s)"
| "js_entries _ = []"

text \<open>The keys that every object inherits.\<close>

definition object_prototype :: "jstr list" where
  "object_prototype = map js [''constructor'', ''__defineGetter__'', ''__defineSetter__'', ''hasOwnProperty'',
     ''__lookupGetter__'', ''__lookupSetter__'', ''isPrototypeOf'', ''propertyIsEnumerable'', ''toString'',
     ''valueOf'', ''__proto__'', ''toLocaleString'']"

section \<open>Events\<close>

record chat_event =
  ce_type :: jval
  ce_content :: jval
  ce_tool_name :: jval
  ce_args :: jval
  ce_result :: jval
  ce_component :: jval
  ce_props :: jval
  ce_skill_id :: jval
  ce_detail :: "jobj option"
  ce_error_code :: jval
  ce_message :: jval
  ce_usage :: "(jval \<times> jval \<times> jval) option"  \<comment> \<open>prompt, completion and total\<close>
  ce_trace :: "jval list option"

definition copy_detail :: "jobj \<Rightarrow> jstr \<times> jval \<Rightarrow> jobj" where
  "copy_detail detail kv =
     (let camel = snake_to_camel (fst kv) in
      if jm_has detail camel \<or> camel \<in> set object_prototype then detail else jm_set camel (camelize_keys (snd kv)) detail)"

definition adapt_approval_detail :: "jval \<Rightarrow> jobj option" where
  "adapt_approval_detail raw =
     (if nullish raw then None
      else Some (foldl copy_detail
        [jp ''title'' (coalesce (jprop raw ''title'') (coalesce (jprop raw ''title'') (JStr []))),
         jp ''description'' (coalesce (jprop raw ''description'') (coalesce (jprop raw ''description'') (JStr []))),
         jp ''skillId'' (coalesce (jprop raw ''skill_id'') (coalesce (jprop raw ''skillId'') (JStr []))),
         jp ''approvalId'' (coalesce (jprop raw ''approval_id'') (coalesce (jprop raw ''approvalId'') (JStr [])))]
        (js_entries raw)))"

fun object_like :: "jval \<Rightarrow> bool" where
  "object_like (JObj _) = True"
| "object_like (JArr _) = True"
| "object_like _ = False"

definition adapt_dispatch_trace :: "jval \<Rightarrow> jval list" where
  "adapt_dispatch_trace raw = (case jprop raw ''entries'' of JArr vs \<Rightarrow> filter object_like vs | _ \<Rightarrow> [])"

definition adapt_token_usage :: "jval \<Rightarrow> (jval \<times> jval \<times> jval) option" where
  "adapt_token_usage raw = (if truthy raw then Some (jprop raw ''prompt'', jprop raw ''completion'', jprop raw ''total'') else None)"

text \<open>A field that is there but \<open>null\<close> has no properties.\<close>

definition read_usage :: "jval \<Rightarrow> (jval \<times> jval \<times> jval) option option" where
  "read_usage v =
     (if v = JUndef then Some None else if v = JNull then None
      else Some (Some (jprop v ''prompt'', jprop v ''completion'', jprop v ''total'')))"

definition read_detail :: "jval \<Rightarrow> jobj option option" where
  "read_detail v = (if v = JUndef then Some None else map_option Some (adapt_approval_detail v))"

definition if_undefined :: "jval \<Rightarrow> jval \<Rightarrow> jval" where
  "if_undefined v d = (if v = JUndef then d else v)"

definition adapt_agent_event :: "jval \<Rightarrow> chat_event option" where
  "adapt_agent_event raw =
     Option.bind (read_detail (jprop raw ''detail'')) (\<lambda>detail.
     Option.bind (read_usage (jprop raw ''token_usage'')) (\<lambda>usage. Some
       \<lparr>ce_type = jprop raw ''type'',
        ce_content = jprop raw ''content'',
        ce_tool_name = jprop raw ''tool_name'',
        ce_args = jprop raw ''args'',
        ce_result = jprop raw ''result'',
        ce_component = jprop raw ''component'',
        ce_props = jprop raw ''props'',
        ce_skill_id = jprop raw ''skill_id'',
        ce_detail = detail,
        ce_error_code = if_undefined (jprop raw ''error_code'') (jprop raw ''errorCode''),
        ce_message = if_undefined (jprop raw ''message'') (jprop raw ''errorMessage''),
        ce_usage = usage,
        ce_trace = (if jprop raw ''trace'' = JUndef then None else Some (adapt_dispatch_trace (jprop raw ''trace'')))\<rparr>))"

text \<open>A batch stops at the first event that throws.\<close>

definition adapt_agent_events :: "jval list \<Rightarrow> chat_event list option" where
  "adapt_agent_events raws = those (map adapt_agent_event raws)"

section \<open>What arrives of an event\<close>

text \<open>
  The event as the gateway writes it: the object made by \<open>parseBackendAgentEvent\<close>, whose members
  have camel-case names, in the order in which they are set.
\<close>

definition gateway_object :: "agent_event \<Rightarrow> jobj" where
  "gateway_object ev =
     jp ''type'' (ae_type ev) # opt_prop ''content'' (ae_content ev) @ opt_prop ''toolName'' (ae_tool_name ev)
     @ opt_prop ''args'' (ae_args ev) @ opt_prop ''result'' (ae_result ev)
     @ opt_prop ''component'' (ae_component ev) @ opt_prop ''props'' (ae_props ev)
     @ opt_prop ''skillId'' (ae_skill_id ev) @ opt_prop ''detail'' (ae_detail ev)
     @ opt_prop ''errorCode'' (ae_error_code ev) @ opt_prop ''errorMessage'' (ae_error_message ev)
     @ opt_prop ''tokenUsage'' (ae_token_usage ev) @ opt_prop ''trace'' (ae_trace ev)"

lemma unless_null_not_null [simp]: "unless_null v \<noteq> JNull" "coalesce (unless_null v) JUndef = unless_null v"
  by (auto simp: unless_null_def coalesce_def)

lemma event_of_never_null [simp]: "coalesce (pick_field raw a b) JUndef = pick_field raw a b"
  "coalesce (keep_field raw k) JUndef = keep_field raw k"
  by (simp_all add: pick_field_coalesce keep_field_def)

lemma keep_nullish: "nullish (keep_field raw k) \<longleftrightarrow> keep_field raw k = JUndef"
  by (simp add: keep_field_def unless_null_def nullish_def)

text \<open>
  Whatever the backend writes, the chat frontend gets the text, arguments, results, components,
  error codes and messages of an event that came through the gateway as they were written, but
  no tool name, no skill and no token usage: the gateway writes these with camel-case names and
  the adapter looks for the snake-case ones only.
\<close>

theorem tool_names_are_lost_on_the_way:
  "\<exists>e. adapt_agent_event (JObj (gateway_object (event_of raw))) = Some e
    \<and> ce_tool_name e = JUndef \<and> ce_skill_id e = JUndef \<and> ce_usage e = None
    \<and> ce_type e = field_of raw (js ''type'') \<and> ce_content e = keep_field raw ''content''
    \<and> ce_args e = keep_field raw ''args'' \<and> ce_result e = keep_field raw ''result''
    \<and> ce_component e = keep_field raw ''component'' \<and> ce_props e = keep_field raw ''props''
    \<and> ce_error_code e = pick_field raw ''error_code'' ''errorCode''
    \<and> ce_message e = pick_field raw ''message'' ''errorMessage''"
proof -
  have "read_detail (keep_field raw ''detail'') \<noteq> None"
    by (auto simp: read_detail_def adapt_approval_detail_def keep_nullish)
  then obtain d where "read_detail (keep_field raw ''detail'') = Some d" by blast
  then show ?thesis
    by (simp add: adapt_agent_event_def gateway_object_def event_of_def read_usage_def if_undefined_def)
qed

text \<open>An event written by the backend itself, in snake case, keeps them.\<close>

lemma snake_case_names_arrive:
  "map_option (\<lambda>e. (ce_tool_name e, ce_skill_id e)) (adapt_agent_event (JObj (backend_fields ev)))
     \<in> {None, Some (coalesce (ae_tool_name ev) JUndef, coalesce (ae_skill_id ev) JUndef)}"
  by (cases "adapt_agent_event (JObj (backend_fields ev))") (auto simp: adapt_agent_event_def backend_fields_def bind_eq_Some_conv)

end
