(* ===== verification/Last_Session.thy ===== *)
theory Last_Session
  imports Card_Adapter Client_Sort Js_Json
begin

text \<open>
  The chat sessions remembered in the browser, agent/ai-platform/frontend/src/utils/lastSession.ts.
  The local storage is a map of strings, \<open>parse\<close> and \<open>stringify\<close> stand for JSON, and \<open>now\<close> for the
  clock in milliseconds. The remembered times are numbers, the identifiers are strings, and no agent has the name of a property
  that every object inherits; what is saved for an agent whose name is an array index is left aside,
  because such keys have an order of their own.
\<close>

section \<open>Storage\<close>

type_synonym storage = "(jstr, jstr) jmap"

record last_store =
  lt_agent :: "jstr option"
  lt_by_agent :: jobj

definition storage_key :: "jstr \<Rightarrow> jstr" where
  "storage_key user = js ''aip.lastSessions.v2:'' @ user"

definition legacy_key :: "jstr \<Rightarrow> jstr" where
  "legacy_key user = js ''aip.lastSession.v1:'' @ user"

definition empty_store :: last_store where
  "empty_store = \<lparr>lt_agent = None, lt_by_agent = []\<rparr>"

definition last_ref :: "jstr \<Rightarrow> jstr \<Rightarrow> int \<Rightarrow> jval" where
  "last_ref sid agent time =
     JObj [jp ''sessionId'' (JStr sid), jp ''agentId'' (JStr agent), jp ''updatedAt'' (JNum time)]"

definition store_object :: "last_store \<Rightarrow> jval" where
  "store_object s =
     JObj [jp ''lastAgentId'' (case lt_agent s of Some a \<Rightarrow> JStr a | None \<Rightarrow> JNull), jp ''byAgent'' (JObj (lt_by_agent s))]"

text \<open>The single reference an older version kept; \<open>None\<close> when it cannot be used.\<close>

definition migrate_legacy :: "int \<Rightarrow> jval \<Rightarrow> last_store option" where
  "migrate_legacy now v =
     (if truthy (jprop v ''sessionId'') \<and> truthy (jprop v ''agentId'') then
        (let agent = js_string (jprop v ''agentId'') in Some
          \<lparr>lt_agent = Some agent,
           lt_by_agent = [(agent, JObj [jp ''sessionId'' (jprop v ''sessionId''), jp ''agentId'' (jprop v ''agentId''),
             jp ''updatedAt'' (case jprop v ''updatedAt'' of JNum t \<Rightarrow> JNum t | _ \<Rightarrow> JNum now)])]\<rparr>)
      else None)"

definition store_of :: "jval \<Rightarrow> last_store" where
  "store_of v =
     \<lparr>lt_agent = as_string (jprop v ''lastAgentId''),
      lt_by_agent = (if object_like (jprop v ''byAgent'') then js_entries (jprop v ''byAgent'') else [])\<rparr>"

definition read_store :: "(jstr \<Rightarrow> jval option) \<Rightarrow> (jval \<Rightarrow> jstr) \<Rightarrow> int \<Rightarrow> jstr \<Rightarrow> storage \<Rightarrow> last_store \<times> storage" where
  "read_store parse stringify now user st =
     (if user = [] then (empty_store, st)
      else case nonempty (jm_get st (storage_key user)) of
        Some raw \<Rightarrow>
          (case parse raw of Some v \<Rightarrow> (if nullish v then empty_store else store_of v, st) | None \<Rightarrow> (empty_store, st))
      | None \<Rightarrow>
          (case Option.bind (nonempty (jm_get st (legacy_key user))) parse of
             None \<Rightarrow> (empty_store, st)
           | Some v \<Rightarrow>
               (case (if nullish v then None else migrate_legacy now v) of
                  None \<Rightarrow> (empty_store, st)
                | Some s \<Rightarrow> (s, jm_set (storage_key user) (stringify (store_object s)) st))))"

definition write_store :: "(jval \<Rightarrow> jstr) \<Rightarrow> jstr \<Rightarrow> last_store \<Rightarrow> storage \<Rightarrow> storage" where
  "write_store stringify user s st =
     (if user = [] then st else jm_set (storage_key user) (stringify (store_object s)) st)"

section \<open>Operations\<close>

definition later :: "jval \<Rightarrow> jval \<Rightarrow> bool" where
  "later a b = (case (jprop a ''updatedAt'', jprop b ''updatedAt'') of (JNum m, JNum n) \<Rightarrow> n < m | _ \<Rightarrow> False)"

definition better_ref :: "jval option \<Rightarrow> jval \<Rightarrow> jval option" where
  "better_ref best r =
     (if \<not> truthy (jprop r ''sessionId'') \<or> \<not> truthy (jprop r ''agentId'') then best
      else case best of None \<Rightarrow> Some r | Some b \<Rightarrow> if later r b then Some r else best)"

definition best_ref :: "jobj \<Rightarrow> jval option" where
  "best_ref ob = foldl better_ref None (map snd ob)"

definition load_from :: "last_store \<Rightarrow> jval option" where
  "load_from s =
     (case nonempty (lt_agent s) of
        Some a \<Rightarrow> if truthy (field_of (lt_by_agent s) a) then Some (field_of (lt_by_agent s) a) else best_ref (lt_by_agent s)
      | None \<Rightarrow> best_ref (lt_by_agent s))"

definition load_last_session ::
  "(jstr \<Rightarrow> jval option) \<Rightarrow> (jval \<Rightarrow> jstr) \<Rightarrow> int \<Rightarrow> jstr \<Rightarrow> storage \<Rightarrow> jval option \<times> storage" where
  "load_last_session parse stringify now user st =
     (let (s, st') = read_store parse stringify now user st in (load_from s, st'))"

definition load_last_session_for_agent ::
  "(jstr \<Rightarrow> jval option) \<Rightarrow> (jval \<Rightarrow> jstr) \<Rightarrow> int \<Rightarrow> jstr \<Rightarrow> jstr \<Rightarrow> storage \<Rightarrow> jval option \<times> storage" where
  "load_last_session_for_agent parse stringify now user agent st =
     (if agent = [] then (None, st)
      else let (s, st') = read_store parse stringify now user st; r = field_of (lt_by_agent s) agent
        in (if truthy (jprop r ''sessionId'') then Some r else None, st'))"

definition save_last_session ::
  "(jstr \<Rightarrow> jval option) \<Rightarrow> (jval \<Rightarrow> jstr) \<Rightarrow> int \<Rightarrow> jstr \<Rightarrow> jstr \<Rightarrow> jstr \<Rightarrow> storage \<Rightarrow> storage" where
  "save_last_session parse stringify now user sid agent st =
     (if user = [] \<or> sid = [] \<or> agent = [] then st
      else let (s, st') = read_store parse stringify now user st
        in write_store stringify user
             (s\<lparr>lt_agent := Some agent, lt_by_agent := jm_set agent (last_ref sid agent now) (lt_by_agent s)\<rparr>) st')"

definition newest_first :: "jval \<Rightarrow> jval \<Rightarrow> int" where
  "newest_first a b = (case (jprop a ''updatedAt'', jprop b ''updatedAt'') of (JNum m, JNum n) \<Rightarrow> n - m | _ \<Rightarrow> 0)"

definition next_agent :: "jobj \<Rightarrow> jval" where
  "next_agent ob = (case sort_by newest_first (map snd ob) of r # _ \<Rightarrow> coalesce (jprop r ''agentId'') JNull | [] \<Rightarrow> JNull)"

definition forget_agent :: "jstr \<Rightarrow> last_store \<Rightarrow> last_store" where
  "forget_agent agent s =
     (let ob = jm_delete agent (lt_by_agent s)
      in \<lparr>lt_agent = (if lt_agent s = Some agent then as_string (next_agent ob) else lt_agent s), lt_by_agent = ob\<rparr>)"

definition clear_last_session ::
  "(jstr \<Rightarrow> jval option) \<Rightarrow> (jval \<Rightarrow> jstr) \<Rightarrow> int \<Rightarrow> jstr \<Rightarrow> jstr option \<Rightarrow> storage \<Rightarrow> storage" where
  "clear_last_session parse stringify now user agent st =
     (if user = [] then st
      else case nonempty agent of
        None \<Rightarrow> jm_delete (storage_key user) st
      | Some a \<Rightarrow> let (s, st') = read_store parse stringify now user st in write_store stringify user (forget_agent a s) st')"

section \<open>What is remembered\<close>

lemma key_eq [simp]: "storage_key u = storage_key v \<longleftrightarrow> u = v" "legacy_key u \<noteq> storage_key v" "storage_key v \<noteq> legacy_key u"
  by (simp_all add: storage_key_def legacy_key_def js_def)

lemma store_of_object [simp]: "store_of (store_object s) = s"
  by (cases "lt_agent s") (auto intro!: last_store.equality simp: store_of_def store_object_def)

lemma store_object_json: "json_value (store_object s) \<longleftrightarrow> json_value (JObj (lt_by_agent s))"
proof -
  have "canonical_keys [js ''lastAgentId'', js ''byAgent'']" by (rule canonical_plain) (simp_all add: is_index_def js_def)
  then show ?thesis by (cases "lt_agent s") (simp_all add: store_object_def)
qed

lemma read_written:
  assumes "json_inverse parse stringify" "user \<noteq> []" "json_value (JObj (lt_by_agent s))"
  shows "read_store parse stringify now user (jm_set (storage_key user) (stringify (store_object s)) st)
    = (s, jm_set (storage_key user) (stringify (store_object s)) st)"
proof -
  have ne: "nonempty (Some (stringify (store_object s))) = Some (stringify (store_object s))"
    using json_object_not_empty [OF assms(1)] by (simp add: store_object_def nonempty_eq_Some)
  have "parse (stringify (store_object s)) = Some (store_object s)"
    using json_parse_stringify [OF assms(1)] assms(3) by (simp add: store_object_json)
  moreover have "\<not> nullish (store_object s)" by (simp add: store_object_def)
  ultimately show ?thesis using assms(2) ne by (simp add: read_store_def)
qed

text \<open>An array in the place of the object \<open>byAgent\<close>, which the code never writes there.\<close>

definition no_array_stored :: "(jstr \<Rightarrow> jval option) \<Rightarrow> jstr \<Rightarrow> storage \<Rightarrow> bool" where
  "no_array_stored parse user st =
     (case Option.bind (jm_get st (storage_key user)) parse of
        Some v \<Rightarrow> (case jprop v ''byAgent'' of JArr _ \<Rightarrow> False | _ \<Rightarrow> True)
      | None \<Rightarrow> True)"

lemma jprop_json: "json_value v \<Longrightarrow> jprop v k = JUndef \<or> json_value (jprop v k)"
  using json_value_field by (cases v) auto

lemma store_of_json:
  assumes "json_value v" "\<nexists>vs. jprop v ''byAgent'' = JArr vs"
  shows "json_value (JObj (lt_by_agent (store_of v)))"
  using assms(2) jprop_json [OF assms(1), of "''byAgent''"] by (cases "jprop v ''byAgent''") (auto simp: store_of_def)

lemma ref_json:
  assumes "json_value a" "json_value b" "json_value c"
  shows "json_value (JObj [jp ''sessionId'' a, jp ''agentId'' b, jp ''updatedAt'' c])"
proof -
  have "canonical_keys [js ''sessionId'', js ''agentId'', js ''updatedAt'']"
    by (rule canonical_plain) (simp_all add: is_index_def js_def)
  with assms show ?thesis by simp
qed

lemma migrate_json:
  assumes "json_value v" "migrate_legacy now v = Some s"
  shows "json_value (JObj (lt_by_agent s))"
proof -
  have "json_value (jprop v ''sessionId'')" "json_value (jprop v ''agentId'')"
    using assms jprop_json [OF assms(1)] by (auto simp: migrate_legacy_def split: if_splits) (metis truthy.simps(1))+
  moreover have "json_value (case jprop v ''updatedAt'' of JNum t \<Rightarrow> JNum t | _ \<Rightarrow> JNum now)"
    by (cases "jprop v ''updatedAt''") simp_all
  ultimately show ?thesis
    using assms(2) ref_json by (auto simp: migrate_legacy_def Let_def split: if_splits)
qed

lemma read_json:
  assumes "json_inverse parse stringify" "no_array_stored parse user st"
  shows "json_value (JObj (lt_by_agent (fst (read_store parse stringify now user st))))"
proof -
  have stored: "json_value (JObj (lt_by_agent (store_of v)))"
    if "nonempty (jm_get st (storage_key user)) = Some raw" "parse raw = Some v" for raw v
  proof (rule store_of_json)
    show "json_value v" using json_parsed [OF assms(1)] that(2) .
    show "\<nexists>vs. jprop v ''byAgent'' = JArr vs"
      using assms(2) that by (auto simp: no_array_stored_def nonempty_eq_Some)
  qed
  have legacy: "json_value (JObj (lt_by_agent s))" if "parse raw = Some v" "migrate_legacy now v = Some s" for raw v s
    using migrate_json [OF json_parsed [OF assms(1) that(1)] that(2)] .
  show ?thesis
    using stored legacy by (auto simp: read_store_def empty_store_def split: option.split bind_splits)
qed

lemma field_of_jm: "field_of ob k = default_to JUndef (jm_get ob k)"
  by (simp add: field_of_def jm_get_def default_to_def)

lemma field_of_jm_set [simp]: "field_of (jm_set k v ob) k' = (if k' = k then v else field_of ob k')"
  by (simp add: field_of_jm)

lemma read_store_other: "user' \<noteq> user \<Longrightarrow> jm_get (snd (read_store parse stringify now user st)) (storage_key user') = jm_get st (storage_key user')"
  "jm_get (snd (read_store parse stringify now user st)) (legacy_key user') = jm_get st (legacy_key user')"
  by (auto simp: read_store_def split: option.splits)

lemma save_eq:
  assumes "user \<noteq> []" "sid \<noteq> []" "agent \<noteq> []"
  shows "save_last_session parse stringify now user sid agent st =
    (let (s, st') = read_store parse stringify now user st
     in jm_set (storage_key user) (stringify (store_object
          (s\<lparr>lt_agent := Some agent, lt_by_agent := jm_set agent (last_ref sid agent now) (lt_by_agent s)\<rparr>))) st')"
  using assms by (simp add: save_last_session_def write_store_def split_beta Let_def)

definition ref_for :: "jstr \<Rightarrow> last_store \<Rightarrow> jval option" where
  "ref_for agent s =
     (if agent = [] \<or> \<not> truthy (jprop (field_of (lt_by_agent s) agent) ''sessionId'') then None
      else Some (field_of (lt_by_agent s) agent))"

lemma load_fst:
  "fst (load_last_session parse stringify now user st) = load_from (fst (read_store parse stringify now user st))"
  "fst (load_last_session_for_agent parse stringify now user agent st) = ref_for agent (fst (read_store parse stringify now user st))"
  by (simp_all add: load_last_session_def load_last_session_for_agent_def ref_for_def split_beta Let_def)

text \<open>
  C25: A saved session is the one restored next, for the user at large and for its agent; what is
  remembered for the user's other agents and for other users does not change.
\<close>

theorem saved_session_is_restored:
  assumes "json_inverse parse stringify" "user \<noteq> []" "sid \<noteq> []" "agent \<noteq> []"
    and "no_array_stored parse user st" "\<not> is_index agent"
  shows "(let st' = save_last_session parse stringify now user sid agent st;
              load_agent = (\<lambda>u a s. fst (load_last_session_for_agent parse stringify now u a s)) in
      fst (load_last_session parse stringify now user st') = Some (last_ref sid agent now)
      \<and> load_agent user agent st' = Some (last_ref sid agent now)
      \<and> (a' = agent \<or> load_agent user a' st' = load_agent user a' st)
      \<and> (u' = user \<or> load_agent u' a' st' = load_agent u' a' st
           \<and> fst (load_last_session parse stringify now u' st') = fst (load_last_session parse stringify now u' st)))"
proof -
  obtain s st1 where r: "read_store parse stringify now user st = (s, st1)" by fastforce
  let ?s = "s\<lparr>lt_agent := Some agent, lt_by_agent := jm_set agent (last_ref sid agent now) (lt_by_agent s)\<rparr>"
  let ?st = "jm_set (storage_key user) (stringify (store_object ?s)) st1"
  have sv: "save_last_session parse stringify now user sid agent st = ?st"
    using save_eq [OF assms(2-4)] r by simp
  have "json_value (last_ref sid agent now)" unfolding last_ref_def by (rule ref_json) simp_all
  then have "json_value (JObj (lt_by_agent ?s))"
    using json_value_set [OF _ _ assms(6)] read_json [OF assms(1,5), of now] r by simp
  then have rd: "read_store parse stringify now user ?st = (?s, ?st)" by (intro read_written [OF assms(1,2)])
  have other: "fst (read_store parse stringify now u' ?st) = fst (read_store parse stringify now u' st)" if "u' \<noteq> user"
  proof -
    have "jm_get ?st (storage_key u') = jm_get st (storage_key u')" "jm_get ?st (legacy_key u') = jm_get st (legacy_key u')"
      using read_store_other(1) [OF that, of parse stringify now st] read_store_other(2) [of parse stringify now user st u'] r that
      by simp_all
    then show ?thesis by (simp add: read_store_def split: option.splits)
  qed
  have new: "truthy (last_ref sid agent now)" "truthy (jprop (last_ref sid agent now) ''sessionId'')"
    using assms(3) by (simp_all add: last_ref_def)
  have "nonempty (Some agent) = Some agent" using assms(4) by (simp add: nonempty_eq_Some)
  then have "load_from ?s = Some (last_ref sid agent now)" "ref_for agent ?s = Some (last_ref sid agent now)"
    "ref_for a' ?s = ref_for a' s" if "a' \<noteq> agent" for a'
    using new assms(4) that by (simp_all add: load_from_def ref_for_def)
  moreover have "load_from ?s = Some (last_ref sid agent now)" "ref_for agent ?s = Some (last_ref sid agent now)"
    using new assms(4) \<open>nonempty (Some agent) = Some agent\<close> by (simp_all add: load_from_def ref_for_def)
  ultimately show ?thesis
    unfolding sv Let_def load_fst rd fst_conv using other by (metis fst_conv r)
qed

text \<open>
  Clearing what is remembered of a user does not clear the reference an older version left: the
  next read migrates it again, so the session that was cleared comes back.
\<close>

theorem cleared_session_comes_back:
  assumes "user \<noteq> []" "jm_get st (legacy_key user) = Some (stringify (last_ref sid agent time))"
    and "json_inverse parse stringify" "sid \<noteq> []" "agent \<noteq> []"
  shows "fst (load_last_session parse stringify now user (clear_last_session parse stringify now user None st))
    = Some (last_ref sid agent time)"
proof -
  let ?r = "last_ref sid agent time"
  have "json_value ?r" unfolding last_ref_def by (rule ref_json) simp_all
  then have "parse (stringify ?r) = Some ?r" by (rule json_parse_stringify [OF assms(3)])
  moreover have "nonempty (Some (stringify ?r)) = Some (stringify ?r)"
    using json_object_not_empty [OF assms(3)] by (simp add: last_ref_def nonempty_eq_Some)
  moreover have "migrate_legacy now ?r = Some \<lparr>lt_agent = Some agent, lt_by_agent = [(agent, ?r)]\<rparr>"
    using assms(4,5) by (simp add: migrate_legacy_def last_ref_def)
  moreover have "\<not> nullish ?r" by (simp add: last_ref_def)
  moreover have "nonempty (Some agent) = Some agent" using assms(5) by (simp add: nonempty_eq_Some)
  ultimately show ?thesis
    using assms(1,2)
    by (simp add: load_last_session_def clear_last_session_def read_store_def load_from_def last_ref_def)
qed

lemma demo_user: "js ''u'' \<noteq> []" "js ''s'' \<noteq> []" "js ''a'' \<noteq> []"
  by (simp_all add: js_def)

lemma saved_session_is_restored_witness:
  "fst (load_last_session demo_parse demo_stringify 7 (js ''u'')
     (save_last_session demo_parse demo_stringify 7 (js ''u'') (js ''s'') (js ''a'') []))
   = Some (last_ref (js ''s'') (js ''a'') 7)"
  using saved_session_is_restored [OF demo_json demo_user, of "[]"] by (simp add: Let_def no_array_stored_def is_index_def js_def)

lemma cleared_session_comes_back_witness:
  "fst (load_last_session demo_parse demo_stringify 7 (js ''u'') (clear_last_session demo_parse demo_stringify 7 (js ''u'') None
     [(legacy_key (js ''u''), demo_stringify (last_ref (js ''s'') (js ''a'') 3))]))
   = Some (last_ref (js ''s'') (js ''a'') 3)"
  by (rule cleared_session_comes_back [OF demo_user(1) _ demo_json demo_user(2,3)]) (simp add: jm_get_def)

end
