(* ===== verification/Session_Adapter.thy ===== *)
theory Session_Adapter
  imports Card_Adapter
begin

text \<open>
  Answers of the session API as the chat frontend reads them,
  agent/ai-platform/frontend/src/utils/sessionAdapter.ts. Scalars come unchecked and are values of
  type unknown where the code only passes them on; \<open>pretty\<close> stands for \<open>JSON.stringify(v, null, 2)\<close>
  and \<open>iso\<close> for the current time as text.
\<close>

section \<open>Messages\<close>

datatype msg_role = User_role | Assistant_role | System_role | Tool_role

datatype msg_status = Msg_pending | Msg_sending | Msg_streaming | Msg_delivered | Msg_error

record attachment =
  at_file_id :: jstr
  at_name :: jstr
  at_mime :: jstr
  at_size :: int
  at_url :: "jstr option"

record feedback =
  fb_rating :: jstr
  fb_comment :: "jstr option"

record transcript_message =
  cm_id :: jstr
  cm_session :: jstr
  cm_role :: msg_role
  cm_content :: jstr
  cm_status :: msg_status
  cm_time :: jstr
  cm_agent :: "jstr option"
  cm_files :: "attachment list"  \<comment> \<open>empty when absent\<close>
  cm_tool :: jval
  cm_args :: "jstr option"
  cm_result :: "jstr option"
  cm_approval :: "jval option"  \<comment> \<open>the approval the message requires\<close>
  cm_a2ui :: "(jval \<times> jval) option"
  cm_feedback :: "feedback option"

definition plain_message :: "jstr \<Rightarrow> jstr \<Rightarrow> msg_role \<Rightarrow> jstr \<Rightarrow> msg_status \<Rightarrow> jstr \<Rightarrow> transcript_message" where
  "plain_message i sid role content status time =
     \<lparr>cm_id = i, cm_session = sid, cm_role = role, cm_content = content, cm_status = status, cm_time = time,
      cm_agent = None, cm_files = [], cm_tool = JUndef, cm_args = None, cm_result = None, cm_approval = None,
      cm_a2ui = None, cm_feedback = None\<rparr>"

section \<open>Sessions\<close>

record session_detail =
  sd_session :: jval
  sd_agent :: jval
  sd_user :: jval
  sd_channel :: jval

definition either_name :: "jval \<Rightarrow> string \<Rightarrow> string \<Rightarrow> jval" where
  "either_name raw camel snake = coalesce (jprop raw camel) (coalesce (jprop raw snake) (JStr []))"

definition session_detail_of :: "jval \<Rightarrow> session_detail" where
  "session_detail_of raw =
     \<lparr>sd_session = either_name raw ''sessionId'' ''session_id'', sd_agent = either_name raw ''agentId'' ''agent_id'',
      sd_user = either_name raw ''userId'' ''user_id'', sd_channel = coalesce (jprop raw ''channel'') (JStr (js ''web''))\<rparr>"

text \<open>The left results are the messages of the errors thrown.\<close>

definition no_session_id :: jstr where
  "no_session_id = [0x521B, 0x5EFA, 0x4F1A, 0x8BDD, 0x5931, 0x8D25, 0xFF1A, 0x670D, 0x52A1, 0x7AEF, 0x672A, 0x8FD4, 0x56DE] @ js '' session_id''"

definition session_gone :: jstr where
  "session_gone = [0x4F1A, 0x8BDD, 0x4E0D, 0x5B58, 0x5728, 0x6216, 0x5DF2, 0x8FC7, 0x671F]"

definition normalize_create_session_response :: "jval \<Rightarrow> jstr + session_detail" where
  "normalize_create_session_response raw =
     (if truthy (either_name raw ''sessionId'' ''session_id'') then Inr (session_detail_of raw) else Inl no_session_id)"

definition normalize_session_detail :: "jval \<Rightarrow> jstr + session_detail" where
  "normalize_session_detail raw =
     (if truthy (either_name raw ''sessionId'' ''session_id'') then Inr (session_detail_of raw) else Inl session_gone)"

section \<open>History\<close>

definition parse_feedback :: "jval \<Rightarrow> feedback option" where
  "parse_feedback meta =
     (let raw = jprop meta ''feedback'' in
      if \<not> object_like raw then None
      else case jprop raw ''rating'' of
             JStr r \<Rightarrow> if r = js ''up'' \<or> r = js ''down''
                        then Some \<lparr>fb_rating = r, fb_comment = as_string (jprop raw ''comment'')\<rparr> else None
           | _ \<Rightarrow> None)"

definition as_role :: "jval \<Rightarrow> msg_role" where
  "as_role v =
     (if v = JStr (js ''user'') then User_role else if v = JStr (js ''system'') then System_role
      else if v = JStr (js ''tool'') then Tool_role else Assistant_role)"

definition normalize_attachment :: "jval \<Rightarrow> attachment option" where
  "normalize_attachment item =
     (if \<not> object_like item then None
      else let fid = js_string (coalesce (jprop item ''fileId'') (coalesce (jprop item ''file_id'') (JStr []))) in
        if fid = [] then None
        else Some \<lparr>at_file_id = fid,
          at_name = js_string (coalesce (jprop item ''name'') (JStr fid)),
          at_mime = js_string (coalesce (jprop item ''mimeType'') (coalesce (jprop item ''mime_type'') (JStr []))),
          at_size = (case jprop item ''size'' of JNum n \<Rightarrow> n | _ \<Rightarrow> 0),
          at_url = Some (case jprop item ''url'' of JStr u \<Rightarrow> u | _ \<Rightarrow> js ''/api/v1/files/'' @ fid)\<rparr>)"

definition normalize_attachments :: "jval \<Rightarrow> attachment list" where
  "normalize_attachments raw = (case raw of JArr vs \<Rightarrow> List.map_filter normalize_attachment vs | _ \<Rightarrow> [])"

definition tool_text :: "(jval \<Rightarrow> jstr) \<Rightarrow> jval \<Rightarrow> string \<Rightarrow> string \<Rightarrow> jstr option" where
  "tool_text pretty meta camel raw =
     (case jprop meta camel of
        JStr s \<Rightarrow> Some s
      | _ \<Rightarrow> if nullish (jprop meta raw) then None else Some (pretty (jprop meta raw)))"

definition tool_name_of :: "jval \<Rightarrow> jval" where
  "tool_name_of meta =
     (case jprop meta ''toolName'' of
        JStr s \<Rightarrow> JStr s
      | _ \<Rightarrow> (case jprop meta ''tool_name'' of JStr s \<Rightarrow> JStr s | _ \<Rightarrow> JUndef))"

text \<open>An element is an object; its identifier, content and time are strings when they are there.\<close>

definition history_message :: "(jval \<Rightarrow> jstr) \<Rightarrow> jstr \<Rightarrow> jstr \<Rightarrow> nat \<Rightarrow> jval \<Rightarrow> transcript_message" where
  "history_message pretty iso_now sid index raw =
     (let meta = coalesce (jprop raw ''metadata'') (JObj []) in
      (plain_message
         (js_string (coalesce (jprop raw ''id'') (JStr (sid @ js ''-msg-'' @ nat_dec index)))) sid (as_role (jprop raw ''role''))
         (js_string (coalesce (jprop raw ''content'') (JStr []))) Msg_delivered
         (js_string (coalesce (jprop raw ''timestamp'') (JStr iso_now))))
      \<lparr>cm_files := normalize_attachments (jprop meta ''attachments''), cm_tool := tool_name_of meta,
       cm_args := tool_text pretty meta ''toolArgs'' ''args'', cm_result := tool_text pretty meta ''toolResult'' ''result'',
       cm_feedback := parse_feedback meta\<rparr>)"

definition normalize_session_messages :: "(jval \<Rightarrow> jstr) \<Rightarrow> jstr \<Rightarrow> jstr \<Rightarrow> jval \<Rightarrow> transcript_message list" where
  "normalize_session_messages pretty iso_now sid raws =
     (case raws of JArr vs \<Rightarrow> map (\<lambda>(i, v). history_message pretty iso_now sid i v) (List.enumerate 0 vs) | _ \<Rightarrow> [])"

section \<open>Facts\<close>

text \<open>The restored transcript has a message per entry, none of them streaming, all of the session.\<close>

lemma restored_messages:
  "length (normalize_session_messages pretty iso_now sid raws) = (case raws of JArr vs \<Rightarrow> length vs | _ \<Rightarrow> 0)"
  "m \<in> set (normalize_session_messages pretty iso_now sid raws) \<Longrightarrow>
     cm_session m = sid \<and> cm_status m = Msg_delivered \<and> cm_approval m = None"
  by (auto simp: normalize_session_messages_def history_message_def plain_message_def Let_def split: jval.splits)

lemma attachments_have_files:
  assumes "a \<in> set (normalize_attachments raw)"
  shows "at_file_id a \<noteq> [] \<and> at_url a \<noteq> None"
proof -
  obtain v where "normalize_attachment v = Some a"
    using assms by (auto simp: normalize_attachments_def map_filter_def split: jval.splits)
  then show ?thesis
    unfolding normalize_attachment_def Let_def by (simp split: if_split_asm) (auto simp del: js_string.simps)
qed

text \<open>Reading a normalised answer again changes nothing.\<close>

definition session_object :: "session_detail \<Rightarrow> jval" where
  "session_object d = JObj [jp ''sessionId'' (sd_session d), jp ''agentId'' (sd_agent d), jp ''userId'' (sd_user d), jp ''channel'' (sd_channel d)]"

lemma normalize_twice:
  assumes "normalize_session_detail raw = Inr d"
  shows "normalize_session_detail (session_object d) = Inr d"
proof -
  have d: "d = session_detail_of raw" "truthy (sd_session d)"
    using assms by (auto simp: normalize_session_detail_def session_detail_of_def split: if_splits)
  have c: "\<not> nullish (coalesce v (coalesce v' (JStr s)))" "\<not> nullish (coalesce v (JStr s))" for v v' s
    by (simp_all add: coalesce_def)
  have "\<not> nullish (sd_session d)" "\<not> nullish (sd_agent d)" "\<not> nullish (sd_user d)" "\<not> nullish (sd_channel d)"
    unfolding d(1) session_detail_of_def either_name_def using c by simp_all
  with d(2) show ?thesis
    by (simp add: normalize_session_detail_def session_detail_of_def session_object_def either_name_def coalesce_def)
qed

end
