(* ===== verification/Chat_Store.thy ===== *)
theory Chat_Store
  imports Session_Adapter
begin

text \<open>
  The two stores of the chat frontend, agent/ai-platform/frontend/src/store/chatStore.ts and
  store/approvalStore.ts. A count of tokens is \<open>None\<close> once something that is not a number was added
  to it. The senders the chat hook injects are the numbers of the hooks they belong to.
\<close>

section \<open>Chat store\<close>

datatype ws_state = Ws_disconnected | Ws_connecting | Ws_connected | Ws_reconnecting | Ws_error

record token_usage =
  tu_prompt :: "int option"
  tu_completion :: "int option"
  tu_total :: "int option"

record pending_approval =
  pa_id :: jval
  pa_skill :: jval
  pa_detail :: jobj
  pa_message :: jstr
  pa_created :: int

record chat_store =
  cs_session :: "jstr option"
  cs_agent :: "jstr option"
  cs_messages :: "transcript_message list"
  cs_ws :: ws_state
  cs_generating :: bool
  cs_usage :: token_usage
  cs_pending :: "pending_approval list"  \<comment> \<open>all of them with status pending\<close>
  cs_trace :: "jval list"
  cs_error :: "jstr option"
  cs_approval_sender :: "nat option"
  cs_entity_sender :: "nat option"

definition initial_usage :: token_usage where
  "initial_usage = \<lparr>tu_prompt = Some 0, tu_completion = Some 0, tu_total = Some 0\<rparr>"

definition new_chat_store :: chat_store where
  "new_chat_store =
     \<lparr>cs_session = None, cs_agent = None, cs_messages = [], cs_ws = Ws_disconnected, cs_generating = False,
      cs_usage = initial_usage, cs_pending = [], cs_trace = [], cs_error = None,
      cs_approval_sender = None, cs_entity_sender = None\<rparr>"

definition set_session_id :: "jstr option \<Rightarrow> chat_store \<Rightarrow> chat_store" where
  "set_session_id sid s = s\<lparr>cs_session := sid\<rparr>"

definition set_agent_id :: "jstr option \<Rightarrow> chat_store \<Rightarrow> chat_store" where
  "set_agent_id agent s = s\<lparr>cs_agent := agent\<rparr>"

definition set_ws_state :: "ws_state \<Rightarrow> chat_store \<Rightarrow> chat_store" where
  "set_ws_state ws s = s\<lparr>cs_ws := ws\<rparr>"

definition add_message :: "transcript_message \<Rightarrow> chat_store \<Rightarrow> chat_store" where
  "add_message m s = s\<lparr>cs_messages := cs_messages s @ [m]\<rparr>"

definition update_message :: "jstr \<Rightarrow> (transcript_message \<Rightarrow> transcript_message) \<Rightarrow> chat_store \<Rightarrow> chat_store" where
  "update_message i f s = s\<lparr>cs_messages := map (\<lambda>m. if cm_id m = i then f m else m) (cs_messages s)\<rparr>"

definition update_message_status :: "jstr \<Rightarrow> msg_status \<Rightarrow> chat_store \<Rightarrow> chat_store" where
  "update_message_status i st s = update_message i (\<lambda>m. m\<lparr>cm_status := st\<rparr>) s"

definition set_messages :: "transcript_message list \<Rightarrow> chat_store \<Rightarrow> chat_store" where
  "set_messages ms s =
     s\<lparr>cs_messages := ms, cs_pending := [], cs_trace := [], cs_usage := initial_usage, cs_generating := False\<rparr>"

definition clear_messages :: "chat_store \<Rightarrow> chat_store" where
  "clear_messages s =
     s\<lparr>cs_messages := [], cs_pending := [], cs_trace := [], cs_usage := initial_usage, cs_generating := False\<rparr>"

definition set_generating :: "bool \<Rightarrow> chat_store \<Rightarrow> chat_store" where
  "set_generating b s = s\<lparr>cs_generating := b\<rparr>"

definition add_count :: "int option \<Rightarrow> jval \<Rightarrow> int option" where
  "add_count n v = (case (n, v) of (Some a, JNum b) \<Rightarrow> Some (a + b) | _ \<Rightarrow> None)"

definition add_token_usage :: "jval \<times> jval \<times> jval \<Rightarrow> chat_store \<Rightarrow> chat_store" where
  "add_token_usage u s =
     (case u of (p, c, t) \<Rightarrow> s\<lparr>cs_usage :=
        \<lparr>tu_prompt = add_count (tu_prompt (cs_usage s)) p, tu_completion = add_count (tu_completion (cs_usage s)) c,
         tu_total = add_count (tu_total (cs_usage s)) t\<rparr>\<rparr>)"

definition set_dispatch_trace :: "jval list \<Rightarrow> chat_store \<Rightarrow> chat_store" where
  "set_dispatch_trace es s = s\<lparr>cs_trace := es\<rparr>"

definition set_error :: "jstr option \<Rightarrow> chat_store \<Rightarrow> chat_store" where
  "set_error e s = s\<lparr>cs_error := e\<rparr>"

definition add_pending_approval :: "pending_approval \<Rightarrow> chat_store \<Rightarrow> chat_store" where
  "add_pending_approval a s = s\<lparr>cs_pending := cs_pending s @ [a]\<rparr>"

text \<open>\<open>===\<close> on values of type unknown that were made separately: objects are never the same.\<close>

definition same_value :: "jval \<Rightarrow> jval \<Rightarrow> bool" where
  "same_value a b \<longleftrightarrow> a = b \<and> \<not> object_like a"

definition remove_pending_approval :: "jstr \<Rightarrow> chat_store \<Rightarrow> chat_store" where
  "remove_pending_approval i s = s\<lparr>cs_pending := filter (\<lambda>a. \<not> same_value (pa_id a) (JStr i)) (cs_pending s)\<rparr>"

definition set_approval_sender :: "nat option \<Rightarrow> chat_store \<Rightarrow> chat_store" where
  "set_approval_sender h s = s\<lparr>cs_approval_sender := h\<rparr>"

definition set_entity_select_sender :: "nat option \<Rightarrow> chat_store \<Rightarrow> chat_store" where
  "set_entity_select_sender h s = s\<lparr>cs_entity_sender := h\<rparr>"

definition reset_chat :: "chat_store \<Rightarrow> chat_store" where
  "reset_chat s = new_chat_store\<lparr>cs_approval_sender := cs_approval_sender s, cs_entity_sender := cs_entity_sender s\<rparr>"

lemmas chat_actions = set_session_id_def set_agent_id_def set_ws_state_def add_message_def update_message_def
  update_message_status_def set_messages_def clear_messages_def set_generating_def add_token_usage_def
  set_dispatch_trace_def set_error_def add_pending_approval_def remove_pending_approval_def
  set_approval_sender_def set_entity_select_sender_def reset_chat_def

section \<open>Approval store\<close>

record approval_record =
  ar_id :: jval
  ar_session :: jval
  ar_agent :: jval
  ar_skill :: jval
  ar_detail :: jval
  ar_user :: jval
  ar_status :: jval
  ar_created :: jval
  ar_resolved :: jval
  ar_comment :: jval
  ar_timeout :: jval

record approval_store =
  as_approvals :: "approval_record list"
  as_loading :: bool
  as_error :: "jstr option"

definition new_approval_store :: approval_store where
  "new_approval_store = \<lparr>as_approvals = [], as_loading = False, as_error = None\<rparr>"

definition snake_or_camel :: "jval \<Rightarrow> string \<Rightarrow> string \<Rightarrow> jval" where
  "snake_or_camel item snake camel = coalesce (jprop item snake) (coalesce (jprop item camel) (JStr []))"

definition no_detail :: jval where
  "no_detail = JObj [jp ''title'' (JStr []), jp ''description'' (JStr []), jp ''skillId'' (JStr []), jp ''approvalId'' (JStr [])]"

definition approval_record_of :: "jval \<Rightarrow> approval_record" where
  "approval_record_of item =
     \<lparr>ar_id = snake_or_camel item ''approval_id'' ''approvalId'', ar_session = snake_or_camel item ''session_id'' ''sessionId'',
      ar_agent = snake_or_camel item ''agent_id'' ''agentId'', ar_skill = snake_or_camel item ''skill_id'' ''skillId'',
      ar_detail = coalesce (jprop item ''detail'') no_detail, ar_user = snake_or_camel item ''user_id'' ''userId'',
      ar_status = coalesce (jprop item ''status'') (JStr (js ''pending'')),
      ar_created = snake_or_camel item ''created_at'' ''createdAt'',
      ar_resolved = coalesce (jprop item ''resolved_at'') (coalesce (jprop item ''resolvedAt'') JNull),
      ar_comment = coalesce (jprop item ''comment'') JNull,
      ar_timeout = coalesce (jprop item ''timeout_seconds'') (JNum 300)\<rparr>"

text \<open>
  The request for the list: \<open>fetch_path\<close> is what is asked, \<open>fetch_started\<close> and \<open>fetch_ended\<close> are the
  store before and after the wait. The answer is the data or the message of the error;
  \<open>type_error\<close> is what the engine says about data it cannot map.
\<close>

definition fetch_path :: "jstr option \<Rightarrow> jstr" where
  "fetch_path status = js ''/push/approvals'' @ (case nonempty status of Some st \<Rightarrow> js ''?status='' @ st | None \<Rightarrow> [])"

definition fetch_started :: "approval_store \<Rightarrow> approval_store" where
  "fetch_started s = s\<lparr>as_loading := True, as_error := None\<rparr>"

definition approvals_of :: "jval \<Rightarrow> approval_record list option" where
  "approvals_of v =
     (if \<not> truthy v then Some []
      else case v of JArr vs \<Rightarrow> if \<exists>x \<in> set vs. nullish x then None else Some (map approval_record_of vs) | _ \<Rightarrow> None)"

definition fetch_ended :: "jstr \<Rightarrow> jstr + jval \<Rightarrow> approval_store \<Rightarrow> approval_store" where
  "fetch_ended type_error ans s =
     (case ans of
        Inl msg \<Rightarrow> s\<lparr>as_loading := False, as_error := Some msg\<rparr>
      | Inr v \<Rightarrow> (case approvals_of v of
                    Some rs \<Rightarrow> s\<lparr>as_approvals := rs, as_loading := False\<rparr>
                  | None \<Rightarrow> s\<lparr>as_loading := False, as_error := Some type_error\<rparr>))"

definition fetch_stats :: "jstr + jval \<Rightarrow> jval list" where
  "fetch_stats ans =
     (case ans of
        Inr v \<Rightarrow> if nullish v then replicate 5 (JNum 0)
                 else map (\<lambda>k. coalesce (jprop v k) (JNum 0)) [''total'', ''pending'', ''approved'', ''rejected'', ''timeout'']
      | Inl _ \<Rightarrow> replicate 5 (JNum 0))"

definition add_approval :: "approval_record \<Rightarrow> approval_store \<Rightarrow> approval_store" where
  "add_approval r s =
     (if \<exists>a \<in> set (as_approvals s). same_value (ar_id a) (ar_id r) then s
      else s\<lparr>as_approvals := r # as_approvals s\<rparr>)"

definition update_approval_status :: "jstr \<Rightarrow> jstr \<Rightarrow> jstr \<Rightarrow> jstr option \<Rightarrow> approval_store \<Rightarrow> approval_store" where
  "update_approval_status iso_now i status comment s =
     s\<lparr>as_approvals := map (\<lambda>a. if same_value (ar_id a) (JStr i)
         then a\<lparr>ar_status := JStr status, ar_resolved := JStr iso_now,
                 ar_comment := (case comment of Some c \<Rightarrow> JStr c | None \<Rightarrow> JNull)\<rparr>
         else a) (as_approvals s)\<rparr>"

definition respond_started :: "approval_store \<Rightarrow> approval_store" where
  "respond_started s = s\<lparr>as_error := None\<rparr>"

definition respond_ended :: "jstr \<Rightarrow> jstr \<Rightarrow> jstr \<Rightarrow> jstr option \<Rightarrow> jstr option \<Rightarrow> approval_store \<Rightarrow> bool \<times> approval_store" where
  "respond_ended iso_now i decision comment failure s =
     (case failure of
        None \<Rightarrow> (True, update_approval_status iso_now i decision comment s)
      | Some msg \<Rightarrow> (False, s\<lparr>as_error := Some msg\<rparr>))"

definition remove_approval :: "jstr \<Rightarrow> approval_store \<Rightarrow> approval_store" where
  "remove_approval i s = s\<lparr>as_approvals := filter (\<lambda>a. \<not> same_value (ar_id a) (JStr i)) (as_approvals s)\<rparr>"

definition clear_approvals :: "approval_store \<Rightarrow> approval_store" where
  "clear_approvals s = s\<lparr>as_approvals := [], as_error := None\<rparr>"

definition clear_approval_error :: "approval_store \<Rightarrow> approval_store" where
  "clear_approval_error s = s\<lparr>as_error := None\<rparr>"

text \<open>The lists the approval hook derives, and when its timer fetches (hooks/useApproval.ts).\<close>

definition is_pending :: "approval_record \<Rightarrow> bool" where
  "is_pending a \<longleftrightarrow> ar_status a = JStr (js ''pending'')"

definition pending_approvals :: "approval_store \<Rightarrow> approval_record list" where
  "pending_approvals s = filter is_pending (as_approvals s)"

definition resolved_approvals :: "approval_store \<Rightarrow> approval_record list" where
  "resolved_approvals s = filter (\<lambda>a. \<not> is_pending a) (as_approvals s)"

definition poll_fetches :: "approval_store \<Rightarrow> bool" where
  "poll_fetches s \<longleftrightarrow> (\<exists>a \<in> set (as_approvals s). is_pending a)"

text \<open>
  The list is fetched every ten seconds. An answer that was on its way when the user decided
  shows the approval as pending again: the list of the answer replaces the store's.
\<close>

theorem stale_list_undoes_decision:
  assumes "as_approvals s = as1 @ [a] @ as2" "ar_id a = JStr i" "is_pending a"
    and "approvals_of data = Some (as1 @ [a] @ as2)"
    and "respond_ended iso_now i (js ''approved'') comment None (fetch_started s) = (ok, s1)"
  shows "ok \<and> (\<forall>x \<in> set (pending_approvals s1). ar_id x \<noteq> JStr i)
    \<and> a \<in> set (pending_approvals (fetch_ended type_error (Inr data) s1))"
proof -
  have s1: "ok" "s1 = update_approval_status iso_now i (js ''approved'') comment (fetch_started s)"
    using assms(5) by (auto simp: respond_ended_def)
  have "js ''approved'' \<noteq> js ''pending''" by simp
  then have "\<forall>x \<in> set (pending_approvals s1). ar_id x \<noteq> JStr i"
    by (auto simp: s1 pending_approvals_def update_approval_status_def is_pending_def same_value_def split: if_splits)
  with s1(1) show ?thesis using assms(3,4) by (simp add: fetch_ended_def pending_approvals_def)
qed

text \<open>Approvals that arrive as events keep the identifiers in the store different.\<close>

lemma add_approval_distinct:
  assumes "distinct (map ar_id (as_approvals s))" "\<not> object_like (ar_id r)"
  shows "distinct (map ar_id (as_approvals (add_approval r s)))"
  using assms by (auto simp: add_approval_def same_value_def)

definition demo_item :: jval where
  "demo_item = JObj [jp ''approval_id'' (JStr (js ''x''))]"

lemma stale_list_undoes_decision_witness:
  "approval_record_of demo_item \<in> set (pending_approvals (fetch_ended [] (Inr (JArr [demo_item]))
     (snd (respond_ended [] (js ''x'') (js ''approved'') None None
        (fetch_started (new_approval_store\<lparr>as_approvals := [approval_record_of demo_item]\<rparr>))))))"
proof -
  let ?s = "new_approval_store\<lparr>as_approvals := [approval_record_of demo_item]\<rparr>"
  have "ar_id (approval_record_of demo_item) = JStr (js ''x'')" "is_pending (approval_record_of demo_item)"
    "approvals_of (JArr [demo_item]) = Some [approval_record_of demo_item]"
    by (simp_all add: approval_record_of_def demo_item_def snake_or_camel_def coalesce_def is_pending_def approvals_of_def)
  then show ?thesis
    using stale_list_undoes_decision [of ?s "[]" "approval_record_of demo_item" "[]" "js ''x''" "JArr [demo_item]" "[]" None
        "fst (respond_ended [] (js ''x'') (js ''approved'') None None (fetch_started ?s))"
        "snd (respond_ended [] (js ''x'') (js ''approved'') None None (fetch_started ?s))" "[]"]
    by simp
qed

end
