(* ===== verification/Chat_Hook.thy ===== *)
theory Chat_Hook
  imports Chat_Store Last_Session
begin

text \<open>
  The chat hook, agent/ai-platform/frontend/src/hooks/useChat.ts. \<open>chat_hook\<close> is what one instance of
  the hook keeps in its references and timers; the \<open>page\<close> is what all instances share: the stores,
  the sockets of the browser with the frames sent, and the local storage. The handlers of a socket
  carry the session and the agent of the render they were made in. The environment gives the user,
  the random identifiers, the time and JSON; a description of an approval is a string.
\<close>

section \<open>State\<close>

record chat_env =
  en_user :: "jstr option"
  en_id :: "nat \<Rightarrow> jstr"
  en_iso :: jstr
  en_ms :: int
  en_json :: "jval \<Rightarrow> jstr"
  en_pretty :: "jval \<Rightarrow> jstr"
  en_parse :: "jstr \<Rightarrow> jval option"

datatype sock_state = Sk_connecting | Sk_open | Sk_closing | Sk_closed

record chat_socket =
  sk_session :: jstr
  sk_agent :: "jstr option"
  sk_state :: sock_state
  sk_live :: bool  \<comment> \<open>its handlers are attached\<close>

record reconnect_timer =
  rt_session :: jstr
  rt_agent :: "jstr option"
  rt_delay :: nat

record chat_hook =
  hk_ws :: "nat option"
  hk_attempts :: nat
  hk_heartbeat :: "nat option"  \<comment> \<open>the socket that is pinged\<close>
  hk_reconnect :: "reconnect_timer option"
  hk_intentional :: bool
  hk_session :: "jstr option"
  hk_streaming :: "jstr option"
  hk_watchdog :: bool

record page =
  pg_store :: chat_store
  pg_approvals :: approval_store
  pg_sockets :: "chat_socket list"
  pg_frames :: "(nat \<times> jstr) list"
  pg_ids :: nat  \<comment> \<open>identifiers drawn so far\<close>
  pg_storage :: storage

type_synonym hook_page = "chat_hook \<times> page"

definition max_reconnect_attempts :: nat where "max_reconnect_attempts = 5"
definition reconnect_base_delay :: nat where "reconnect_base_delay = 1000"

definition new_hook :: chat_hook where
  "new_hook = \<lparr>hk_ws = None, hk_attempts = 0, hk_heartbeat = None, hk_reconnect = None, hk_intentional = False,
     hk_session = None, hk_streaming = None, hk_watchdog = False\<rparr>"

definition new_page :: page where
  "new_page = \<lparr>pg_store = new_chat_store, pg_approvals = new_approval_store, pg_sockets = [], pg_frames = [],
     pg_ids = 0, pg_storage = []\<rparr>"

definition in_store :: "(chat_store \<Rightarrow> chat_store) \<Rightarrow> hook_page \<Rightarrow> hook_page" where
  "in_store f hp = (fst hp, (snd hp)\<lparr>pg_store := f (pg_store (snd hp))\<rparr>)"

definition in_hook :: "(chat_hook \<Rightarrow> chat_hook) \<Rightarrow> hook_page \<Rightarrow> hook_page" where
  "in_hook f hp = (f (fst hp), snd hp)"

abbreviation store_of_page :: "hook_page \<Rightarrow> chat_store" where
  "store_of_page hp \<equiv> pg_store (snd hp)"

definition is_open :: "nat \<Rightarrow> page \<Rightarrow> bool" where
  "is_open i p \<longleftrightarrow> i < length (pg_sockets p) \<and> sk_state (pg_sockets p ! i) = Sk_open"

definition set_socket :: "nat \<Rightarrow> (chat_socket \<Rightarrow> chat_socket) \<Rightarrow> page \<Rightarrow> page" where
  "set_socket i f p = p\<lparr>pg_sockets := (pg_sockets p)[i := f (pg_sockets p ! i)]\<rparr>"

section \<open>Messages to the gateway and the watchdog\<close>

definition not_connected :: jstr where
  "not_connected = js ''WebSocket '' @ [0x672A, 0x8FDE, 0x63A5, 0xFF0C, 0x65E0, 0x6CD5, 0x53D1, 0x9001, 0x6D88, 0x606F]"

definition timed_out :: jstr where
  "timed_out = [0x8BF7, 0x6C42, 0x8D85, 0x65F6, 0xFF0C, 0x8BF7, 0x7A0D, 0x540E, 0x91CD, 0x8BD5]"

definition send_inbound :: "chat_env \<Rightarrow> jval \<Rightarrow> hook_page \<Rightarrow> bool \<times> hook_page" where
  "send_inbound E message hp =
     (case hk_ws (fst hp) of
        Some i \<Rightarrow> if is_open i (snd hp) then (True, (fst hp, (snd hp)\<lparr>pg_frames := pg_frames (snd hp) @ [(i, en_json E message)]\<rparr>))
                  else (False, in_store (set_error (Some not_connected)) hp)
      | None \<Rightarrow> (False, in_store (set_error (Some not_connected)) hp))"

definition clear_generation_watchdog :: "hook_page \<Rightarrow> hook_page" where
  "clear_generation_watchdog = in_hook (\<lambda>h. h\<lparr>hk_watchdog := False\<rparr>)"

definition finish_streaming :: "msg_status \<Rightarrow> hook_page \<Rightarrow> hook_page" where
  "finish_streaming st hp =
     (case hk_streaming (fst hp) of
        Some i \<Rightarrow> in_hook (\<lambda>h. h\<lparr>hk_streaming := None\<rparr>) (in_store (update_message_status i st) hp)
      | None \<Rightarrow> hp)"

definition abort_generating :: "jstr \<Rightarrow> hook_page \<Rightarrow> hook_page" where
  "abort_generating msg hp =
     in_store (set_error (Some msg)) (in_store (set_generating False)
       (finish_streaming Msg_error (clear_generation_watchdog hp)))"

definition arm_generation_watchdog :: "hook_page \<Rightarrow> hook_page" where
  "arm_generation_watchdog hp = in_hook (\<lambda>h. h\<lparr>hk_watchdog := True\<rparr>) (clear_generation_watchdog hp)"

text \<open>The watchdog's timer, 120 seconds after it was armed.\<close>

definition watchdog_fires :: "hook_page \<Rightarrow> hook_page" where
  "watchdog_fires hp =
     (if hk_watchdog (fst hp) \<and> cs_generating (store_of_page hp) then abort_generating timed_out hp
      else in_hook (\<lambda>h. h\<lparr>hk_watchdog := False\<rparr>) hp)"

section \<open>Events\<close>

definition draw_id :: "chat_env \<Rightarrow> hook_page \<Rightarrow> jstr \<times> hook_page" where
  "draw_id E hp = (en_id E (pg_ids (snd hp)), (fst hp, (snd hp)\<lparr>pg_ids := Suc (pg_ids (snd hp))\<rparr>))"

definition find_message :: "(transcript_message \<Rightarrow> bool) \<Rightarrow> hook_page \<Rightarrow> transcript_message option" where
  "find_message P hp = List.find P (cs_messages (store_of_page hp))"

definition last_message :: "(transcript_message \<Rightarrow> bool) \<Rightarrow> hook_page \<Rightarrow> transcript_message option" where
  "last_message P hp = List.find P (rev (cs_messages (store_of_page hp)))"

text \<open>\<open>delta.includes\<close>: a value without the method throws, which ends the handling.\<close>

fun mentions_sources :: "jval \<Rightarrow> bool" where
  "mentions_sources (JStr s) = str_includes s (js ''kb-sources'')"
| "mentions_sources (JArr vs) = (JStr (js ''kb-sources'') \<in> set vs)"
| "mentions_sources _ = False"

definition on_text_delta :: "jval \<Rightarrow> hook_page \<Rightarrow> hook_page" where
  "on_text_delta content hp =
     (let delta = coalesce content (JStr []) in
      case hk_streaming (fst hp) of
        Some i \<Rightarrow>
          (case find_message (\<lambda>m. cm_id m = i) hp of
             Some ex \<Rightarrow> in_store (update_message i (\<lambda>m. m\<lparr>cm_content := cm_content ex @ js_string delta, cm_status := Msg_streaming\<rparr>)) hp
           | None \<Rightarrow> hp)
      | None \<Rightarrow>
          if \<not> mentions_sources delta then hp
          else (case last_message (\<lambda>m. cm_role m = Assistant_role) hp of
                  Some l \<Rightarrow> if str_includes (cm_content l) (js ''```kb-sources'') then hp
                            else in_store (update_message (cm_id l) (\<lambda>m. m\<lparr>cm_content := cm_content l @ js_string delta\<rparr>)) hp
                | None \<Rightarrow> hp))"

definition tool_call_text :: "jval \<Rightarrow> jstr" where
  "tool_call_text name = [0x8C03, 0x7528, 0x5DE5, 0x5177] @ js '': '' @ js_string (coalesce name (JStr (js ''unknown'')))"

definition tool_done_text :: "jval \<Rightarrow> jstr" where
  "tool_done_text name = [0x5DE5, 0x5177] @ js '' '' @ js_string (coalesce name (JStr (js ''unknown''))) @ js '' '' @ [0x6267, 0x884C, 0x5B8C, 0x6210]"

definition pretty_if :: "chat_env \<Rightarrow> jval \<Rightarrow> jstr option" where
  "pretty_if E v = (if truthy v then Some (en_pretty E v) else None)"

definition on_tool_call :: "chat_env \<Rightarrow> jstr \<Rightarrow> chat_event \<Rightarrow> hook_page \<Rightarrow> hook_page" where
  "on_tool_call E sid e hp =
     (let (i, hp1) = draw_id E hp in
      in_store (add_message ((plain_message i sid Tool_role (tool_call_text (ce_tool_name e)) Msg_delivered (en_iso E))
        \<lparr>cm_tool := ce_tool_name e, cm_args := pretty_if E (ce_args e)\<rparr>)) hp1)"

definition on_tool_result :: "chat_env \<Rightarrow> chat_event \<Rightarrow> hook_page \<Rightarrow> hook_page" where
  "on_tool_result E e hp =
     (case last_message (\<lambda>m. cm_role m = Tool_role \<and> same_value (cm_tool m) (ce_tool_name e)) hp of
        Some l \<Rightarrow> in_store (update_message (cm_id l)
                    (\<lambda>m. m\<lparr>cm_result := pretty_if E (ce_result e), cm_content := tool_done_text (ce_tool_name e)\<rparr>)) hp
      | None \<Rightarrow> hp)"

definition on_ui_render :: "chat_env \<Rightarrow> jstr \<Rightarrow> chat_event \<Rightarrow> hook_page \<Rightarrow> hook_page" where
  "on_ui_render E sid e hp =
     (if nullish (ce_component e) \<or> nullish (ce_props e) then hp
      else let (i, hp1) = draw_id E hp in
        in_store (add_message ((plain_message i sid Assistant_role [] Msg_delivered (en_iso E))
          \<lparr>cm_a2ui := Some (ce_component e, ce_props e)\<rparr>)) hp1)"

definition needs_approval :: jstr where
  "needs_approval = [0x9700, 0x8981, 0x5BA1, 0x6279, 0x64CD, 0x4F5C]"

definition record_approval :: "approval_record \<Rightarrow> hook_page \<Rightarrow> hook_page" where
  "record_approval r hp = (fst hp, (snd hp)\<lparr>pg_approvals := add_approval r (pg_approvals (snd hp))\<rparr>)"

definition on_approval_request :: "chat_env \<Rightarrow> jstr \<Rightarrow> jstr option \<Rightarrow> chat_event \<Rightarrow> hook_page \<Rightarrow> hook_page" where
  "on_approval_request E sid agent e hp =
     (case ce_detail e of
        None \<Rightarrow> hp
      | Some d \<Rightarrow>
          (let (i, hp1) = draw_id E hp;
               aid = field_of d (js ''approvalId'');
               skill = coalesce (ce_skill_id e) (field_of d (js ''skillId''));
               text = (if truthy (field_of d (js ''description'')) then js_string (field_of d (js ''description'')) else needs_approval);
               hp2 = in_store (add_message ((plain_message i sid Assistant_role text Msg_delivered (en_iso E))
                       \<lparr>cm_approval := Some aid\<rparr>)) hp1;
               hp3 = in_store (add_pending_approval
                       \<lparr>pa_id = aid, pa_skill = skill, pa_detail = d, pa_message = i, pa_created = en_ms E\<rparr>) hp2
           in record_approval
                 \<lparr>ar_id = aid, ar_session = JStr sid, ar_agent = JStr (default_to [] agent), ar_skill = skill, ar_detail = JObj d,
                  ar_user = JStr (default_to [] (en_user E)), ar_status = JStr (js ''pending''), ar_created = JStr (en_iso E),
                  ar_resolved = JNull, ar_comment = JNull, ar_timeout = JNum 300\<rparr> hp3))"

definition on_dispatch_trace :: "chat_event \<Rightarrow> hook_page \<Rightarrow> hook_page" where
  "on_dispatch_trace e hp =
     (let es = default_to [] (ce_trace e) in if es = [] then hp else in_store (set_dispatch_trace es) hp)"

definition error_text :: "chat_event \<Rightarrow> jstr" where
  "error_text e = [0x9519, 0x8BEF] @ js '' ['' @ js_string (coalesce (ce_error_code e) (JStr (js ''unknown''))) @ js '']: ''
     @ js_string (coalesce (ce_message e) (JStr ([0x672A, 0x77E5, 0x9519, 0x8BEF])))"

definition on_error_event :: "chat_event \<Rightarrow> hook_page \<Rightarrow> hook_page" where
  "on_error_event e hp =
     in_store (set_generating False) (clear_generation_watchdog
       (finish_streaming Msg_error (in_store (set_error (Some (error_text e))) hp)))"

definition on_done :: "chat_event \<Rightarrow> hook_page \<Rightarrow> hook_page" where
  "on_done e hp =
     (let hp1 = finish_streaming Msg_delivered hp;
          hp2 = (case ce_usage e of Some u \<Rightarrow> in_store (add_token_usage u) hp1 | None \<Rightarrow> hp1)
      in in_store (set_generating False) (clear_generation_watchdog hp2))"

definition keep_watch :: "hook_page \<Rightarrow> hook_page" where
  "keep_watch hp = (if cs_generating (store_of_page hp) then arm_generation_watchdog hp else hp)"

text \<open>\<open>sid\<close> and \<open>agent\<close> are those of the render in which the handler was made.\<close>

definition handle_event :: "chat_env \<Rightarrow> jstr \<Rightarrow> jstr option \<Rightarrow> chat_event \<Rightarrow> hook_page \<Rightarrow> hook_page" where
  "handle_event E sid agent e hp0 =
     (let hp = keep_watch hp0 in
      case event_case (ce_type e) of
        Some Text_delta \<Rightarrow> on_text_delta (ce_content e) hp
      | Some Tool_call \<Rightarrow> on_tool_call E sid e hp
      | Some Tool_result \<Rightarrow> on_tool_result E e hp
      | Some Ui_render \<Rightarrow> on_ui_render E sid e hp
      | Some Approval_request \<Rightarrow> on_approval_request E sid agent e hp
      | Some Dispatch_trace \<Rightarrow> on_dispatch_trace e hp
      | Some Error_event \<Rightarrow> on_error_event e hp
      | Some Done_event \<Rightarrow> on_done e hp
      | None \<Rightarrow> hp)"

definition handle_raw_event :: "chat_env \<Rightarrow> jstr \<Rightarrow> jstr option \<Rightarrow> jval \<Rightarrow> hook_page \<Rightarrow> hook_page" where
  "handle_raw_event E sid agent raw hp =
     (case adapt_agent_event raw of Some e \<Rightarrow> handle_event E sid agent e hp | None \<Rightarrow> hp)"

text \<open>The event in a frame, in one of its four envelopes.\<close>

fun includes_dot :: "jval \<Rightarrow> bool" where
  "includes_dot (JStr s) = str_includes s (js ''.'')"
| "includes_dot (JArr vs) = (JStr (js ''.'') \<in> set vs)"
| "includes_dot _ = False"

fun has_includes :: "jval \<Rightarrow> bool" where
  "has_includes (JStr s) = True"
| "has_includes (JArr vs) = True"
| "has_includes _ = False"

definition envelope_event :: "jval \<Rightarrow> jval option" where
  "envelope_event v =
     (let ty = jprop v ''type''; ev = jprop v ''event''; d = jprop v ''data'' in
      if nullish v then None
      else if (ty = JStr (js ''event'') \<or> ty = JStr (js ''agent_event'')) \<and> truthy ev then Some ev
      else if truthy ty \<and> \<not> has_includes ty then None
      else if truthy ty \<and> includes_dot ty then Some v
      else if object_like d then
        (case jprop d ''type'' of JStr (c # cs) \<Rightarrow> Some d | _ \<Rightarrow> None)
      else None)"

definition handle_ws_message :: "chat_env \<Rightarrow> jstr \<Rightarrow> jstr option \<Rightarrow> jstr \<Rightarrow> hook_page \<Rightarrow> hook_page" where
  "handle_ws_message E sid agent text hp =
     (case Option.bind (en_parse E text) envelope_event of
        Some raw \<Rightarrow> handle_raw_event E sid agent raw hp
      | None \<Rightarrow> hp)"

section \<open>Connection\<close>

definition close_socket_intentionally :: "hook_page \<Rightarrow> hook_page" where
  "close_socket_intentionally hp =
     (let h = (fst hp)\<lparr>hk_intentional := True, hk_reconnect := None, hk_attempts := 0, hk_heartbeat := None\<rparr> in
      case hk_ws h of
        Some i \<Rightarrow> (h\<lparr>hk_ws := None\<rparr>, set_socket i (\<lambda>k. k\<lparr>sk_live := False, sk_state := Sk_closed\<rparr>) (snd hp))
      | None \<Rightarrow> (h, snd hp))"

definition open_socket :: "jstr \<Rightarrow> jstr option \<Rightarrow> hook_page \<Rightarrow> hook_page" where
  "open_socket sid agent hp =
     ((fst hp)\<lparr>hk_ws := Some (length (pg_sockets (snd hp)))\<rparr>,
      (snd hp)\<lparr>pg_sockets := pg_sockets (snd hp)
        @ [\<lparr>sk_session = sid, sk_agent = agent, sk_state = Sk_connecting, sk_live = True\<rparr>]\<rparr>)"

definition chat_connect :: "chat_env \<Rightarrow> jstr option \<Rightarrow> hook_page \<Rightarrow> hook_page" where
  "chat_connect E agent hp =
     (case (nonempty (hk_session (fst hp)), en_user E) of
        (Some sid, Some u) \<Rightarrow>
          open_socket sid agent (in_store (set_ws_state Ws_connecting)
            (in_hook (\<lambda>h. h\<lparr>hk_intentional := False\<rparr>) (close_socket_intentionally hp)))
      | _ \<Rightarrow> hp)"

definition socket_opens :: "nat \<Rightarrow> hook_page \<Rightarrow> hook_page" where
  "socket_opens i hp =
     (if hk_session (fst hp) \<noteq> Some (sk_session (pg_sockets (snd hp) ! i)) then
        ((fst hp)\<lparr>hk_intentional := True\<rparr>, set_socket i (\<lambda>k. k\<lparr>sk_state := Sk_closing\<rparr>) (snd hp))
      else in_hook (\<lambda>h. h\<lparr>hk_attempts := 0, hk_heartbeat := Some i\<rparr>)
             (in_store (set_ws_state Ws_connected) (fst hp, set_socket i (\<lambda>k. k\<lparr>sk_state := Sk_open\<rparr>) (snd hp))))"

definition heartbeat_fires :: "chat_env \<Rightarrow> hook_page \<Rightarrow> hook_page" where
  "heartbeat_fires E hp =
     (case hk_heartbeat (fst hp) of
        Some i \<Rightarrow> if is_open i (snd hp)
                  then (fst hp, (snd hp)\<lparr>pg_frames := pg_frames (snd hp)
                          @ [(i, en_json E (JObj [jp ''type'' (JStr (js ''ping'')), jp ''timestamp'' (JStr (en_iso E))]))]\<rparr>)
                  else hp
      | None \<Rightarrow> hp)"

definition socket_message :: "chat_env \<Rightarrow> nat \<Rightarrow> jstr \<Rightarrow> hook_page \<Rightarrow> hook_page" where
  "socket_message E i text hp =
     (let k = pg_sockets (snd hp) ! i in handle_ws_message E (sk_session k) (sk_agent k) text hp)"

definition connection_error :: jstr where
  "connection_error = js ''WebSocket '' @ [0x8FDE, 0x63A5, 0x9519, 0x8BEF]"

definition socket_fails :: "hook_page \<Rightarrow> hook_page" where
  "socket_fails hp =
     (if hk_intentional (fst hp) then hp
      else in_store (set_error (Some connection_error)) (in_store (set_ws_state Ws_error) hp))"

definition schedule_retry :: "chat_socket \<Rightarrow> hook_page \<Rightarrow> hook_page" where
  "schedule_retry k hp =
     (if hk_attempts (fst hp) < max_reconnect_attempts then
        in_hook (\<lambda>h. h\<lparr>hk_attempts := Suc (hk_attempts h), hk_reconnect := Some
            \<lparr>rt_session = sk_session k, rt_agent = sk_agent k, rt_delay = reconnect_base_delay * 2 ^ (Suc (hk_attempts h) - 1)\<rparr>\<rparr>)
          (in_store (set_ws_state Ws_reconnecting) hp)
      else hp)"

definition socket_closes :: "nat \<Rightarrow> hook_page \<Rightarrow> hook_page" where
  "socket_closes i hp =
     (let k = pg_sockets (snd hp) ! i;
          hp1 = clear_generation_watchdog (in_hook (\<lambda>h. h\<lparr>hk_ws := (if hk_ws h = Some i then None else hk_ws h), hk_heartbeat := None\<rparr>)
                  (fst hp, set_socket i (\<lambda>k. k\<lparr>sk_state := Sk_closed\<rparr>) (snd hp)))
      in if hk_intentional (fst hp1) \<or> hk_session (fst hp1) \<noteq> Some (sk_session k)
         then in_hook (\<lambda>h. h\<lparr>hk_intentional := False\<rparr>) hp1
         else schedule_retry k (in_store (set_ws_state Ws_disconnected) hp1))"

definition retry_fires :: "chat_env \<Rightarrow> hook_page \<Rightarrow> hook_page" where
  "retry_fires E hp =
     (case hk_reconnect (fst hp) of
        Some t \<Rightarrow>
          (let hp1 = in_hook (\<lambda>h. h\<lparr>hk_reconnect := None\<rparr>) hp
           in if hk_session (fst hp) = Some (rt_session t) then chat_connect E (rt_agent t) hp1 else hp1)
      | None \<Rightarrow> hp)"

text \<open>
  The effect of a render with another session, the clean-up of the one before included, and the
  first and the last moment of an instance \<open>n\<close> of the hook.
\<close>

definition session_effect :: "chat_env \<Rightarrow> jstr option \<Rightarrow> hook_page \<Rightarrow> hook_page" where
  "session_effect E sid hp =
     (let hp1 = clear_generation_watchdog (close_socket_intentionally (in_hook (\<lambda>h. h\<lparr>hk_session := sid\<rparr>) hp)) in
      if nonempty sid \<noteq> None \<and> en_user E \<noteq> None then chat_connect E (cs_agent (store_of_page hp)) hp1
      else in_store (set_ws_state Ws_disconnected) (close_socket_intentionally hp1))"

definition rerender :: "chat_env \<Rightarrow> hook_page \<Rightarrow> hook_page" where
  "rerender E hp =
     (if hk_session (fst hp) = cs_session (store_of_page hp) then hp else session_effect E (cs_session (store_of_page hp)) hp)"

definition mount :: "chat_env \<Rightarrow> nat \<Rightarrow> page \<Rightarrow> hook_page" where
  "mount E n p =
     in_store (\<lambda>s. set_entity_select_sender (Some n) (set_approval_sender (Some n) s))
       (session_effect E (cs_session (pg_store p)) (new_hook, p))"

definition unmount :: "hook_page \<Rightarrow> page" where
  "unmount hp = snd (in_store (\<lambda>s. set_entity_select_sender None (set_approval_sender None s))
     (clear_generation_watchdog (close_socket_intentionally hp)))"

section \<open>What the user does\<close>

definition defined_props :: "jobj \<Rightarrow> jobj" where
  "defined_props ob = filter (\<lambda>kv. snd kv \<noteq> JUndef) ob"

definition opt_str :: "jstr option \<Rightarrow> jval" where
  "opt_str m = (case m of Some s \<Rightarrow> JStr s | None \<Rightarrow> JUndef)"

definition inbound_object :: "chat_env \<Rightarrow> string \<Rightarrow> jstr option \<Rightarrow> jobj \<Rightarrow> jval" where
  "inbound_object E ty sid members =
     JObj (defined_props ([jp ''type'' (JStr (js ty)), jp ''sessionId'' (JStr (default_to [] sid)),
       jp ''userId'' (JStr (default_to [] (en_user E)))] @ members @ [jp ''timestamp'' (JStr (en_iso E))]))"

definition attachment_object :: "attachment \<Rightarrow> jval" where
  "attachment_object a =
     JObj (defined_props [jp ''fileId'' (JStr (at_file_id a)), jp ''file_id'' (JStr (at_file_id a)), jp ''name'' (JStr (at_name a)),
       jp ''mimeType'' (JStr (at_mime a)), jp ''mime_type'' (JStr (at_mime a)), jp ''size'' (JNum (at_size a)),
       jp ''url'' (opt_str (at_url a))])"

definition message_type :: "jstr \<Rightarrow> attachment list \<Rightarrow> string" where
  "message_type text files =
     (if files = [] then ''text''
      else if (\<exists>a \<in> set files. starts_with (at_mime a) (js ''image/'')) \<and> text = [] then ''image'' else ''file'')"

definition attachment_mark :: jstr where
  "attachment_mark = [0xFF08, 0x9644, 0x4EF6, 0xFF09]"

definition prepare_turn :: "chat_env \<Rightarrow> jstr \<Rightarrow> attachment list \<Rightarrow> hook_page \<Rightarrow> hook_page" where
  "prepare_turn E text files hp =
     (let sid = default_to [] (hk_session (fst hp));
          (i, hp1) = draw_id E hp;
          hp2 = in_store (add_message ((plain_message i sid User_role
                  (if text \<noteq> [] then text else if files \<noteq> [] then attachment_mark else []) Msg_delivered (en_iso E))\<lparr>cm_files := files\<rparr>)) hp1;
          (j, hp3) = draw_id E hp2;
          hp4 = in_store (add_message ((plain_message j sid Assistant_role [] Msg_streaming (en_iso E))
                  \<lparr>cm_agent := cs_agent (store_of_page hp)\<rparr>)) hp3
      in arm_generation_watchdog (in_store (set_dispatch_trace []) (in_store (set_generating True)
           (in_hook (\<lambda>h. h\<lparr>hk_streaming := Some j\<rparr>) hp4))))"

definition send_chat_message :: "chat_env \<Rightarrow> jstr \<Rightarrow> attachment list \<Rightarrow> hook_page \<Rightarrow> hook_page" where
  "send_chat_message E content attachments hp =
     (let text = trim content; files = filter (\<lambda>a. at_file_id a \<noteq> []) attachments in
      if text = [] \<and> files = [] then hp
      else let (ok, hp1) = send_inbound E
                 (inbound_object E ''chat'' (hk_session (fst hp))
                   [jp ''agentId'' (opt_str (cs_agent (store_of_page hp))), jp ''content'' (JStr text),
                    jp ''messageType'' (JStr (js (message_type text files))),
                    jp ''metadata'' (if files = [] then JUndef else JObj [jp ''attachments'' (JArr (map attachment_object files))])])
                 (prepare_turn E text files hp)
        in if ok then hp1 else abort_generating not_connected hp1)"

definition respond_to_approval :: "chat_env \<Rightarrow> jstr \<Rightarrow> jstr \<Rightarrow> jstr option \<Rightarrow> hook_page \<Rightarrow> hook_page" where
  "respond_to_approval E i decision comment hp =
     in_store (remove_pending_approval i)
       (snd (send_inbound E (inbound_object E ''approval'' (hk_session (fst hp))
          [jp ''approvalResponse'' (JObj [jp ''approvalId'' (JStr i), jp ''decision'' (JStr decision),
             jp ''comment'' (JStr (default_to [] comment))])]) hp))"

definition respond_to_entity_select :: "chat_env \<Rightarrow> jstr \<Rightarrow> jval \<Rightarrow> jstr \<Rightarrow> hook_page \<Rightarrow> hook_page" where
  "respond_to_entity_select E token candidate action hp =
     snd (send_inbound E (inbound_object E ''entity_select'' (hk_session (fst hp))
       [jp ''entitySelectResponse'' (JObj (defined_props [jp ''resumeToken'' (JStr token),
          jp ''selectedCandidate'' candidate, jp ''action'' (JStr action)]))]) hp)"

section \<open>Sessions\<close>

text \<open>
  Creating and restoring a session wait for the backend: the first part runs before the wait,
  the second with the answer, a value or the message of an error.
\<close>

definition not_logged_in :: jstr where
  "not_logged_in = [0x7528, 0x6237, 0x672A, 0x767B, 0x5F55, 0xFF0C, 0x65E0, 0x6CD5, 0x521B, 0x5EFA, 0x4F1A, 0x8BDD]"

definition stop_turn :: "hook_page \<Rightarrow> hook_page" where
  "stop_turn hp =
     in_store (set_generating False) (clear_generation_watchdog (in_hook (\<lambda>h. h\<lparr>hk_streaming := None\<rparr>) hp))"

definition create_started :: "chat_env \<Rightarrow> hook_page \<Rightarrow> bool \<times> hook_page" where
  "create_started E hp =
     (case nonempty (en_user E) of
        None \<Rightarrow> (False, in_store (set_error (Some not_logged_in)) hp)
      | Some u \<Rightarrow> (True, stop_turn hp))"

definition remember_session :: "chat_env \<Rightarrow> jstr \<Rightarrow> jstr \<Rightarrow> hook_page \<Rightarrow> hook_page" where
  "remember_session E sid agent hp =
     (fst hp, (snd hp)\<lparr>pg_storage := save_last_session (en_parse E) (en_json E) (en_ms E) (default_to [] (en_user E)) sid agent (pg_storage (snd hp))\<rparr>)"

definition forget_sessions :: "chat_env \<Rightarrow> jstr option \<Rightarrow> hook_page \<Rightarrow> hook_page" where
  "forget_sessions E agent hp =
     (fst hp, (snd hp)\<lparr>pg_storage := clear_last_session (en_parse E) (en_json E) (en_ms E) (default_to [] (en_user E)) agent (pg_storage (snd hp))\<rparr>)"

definition create_ended :: "chat_env \<Rightarrow> jstr \<Rightarrow> jstr + jval \<Rightarrow> hook_page \<Rightarrow> hook_page" where
  "create_ended E agent ans hp =
     (case (case ans of Inl msg \<Rightarrow> Inl msg | Inr raw \<Rightarrow> normalize_create_session_response raw) of
        Inl msg \<Rightarrow> in_store (set_error (Some msg)) hp
      | Inr d \<Rightarrow> remember_session E (js_string (sd_session d)) agent
          (in_store (\<lambda>s. set_error None (set_session_id (Some (js_string (sd_session d)))
             (clear_messages (set_agent_id (Some agent) s)))) hp))"

definition restore_started :: "chat_env \<Rightarrow> jstr \<Rightarrow> hook_page \<Rightarrow> bool \<times> hook_page" where
  "restore_started E target hp = (if nonempty (en_user E) = None \<or> target = [] then (False, hp) else (True, stop_turn hp))"

text \<open>\<open>detail\<close> and \<open>messages\<close> are the answers of the two requests, the second made when the first succeeds.\<close>

definition restore_ended ::
  "chat_env \<Rightarrow> jstr option \<Rightarrow> jstr + jval \<Rightarrow> jstr + jval \<Rightarrow> hook_page \<Rightarrow> bool \<times> hook_page" where
  "restore_ended E preferred detail messages hp =
     (case (case detail of Inl msg \<Rightarrow> Inl msg | Inr raw \<Rightarrow> normalize_session_detail raw) of
        Inl msg \<Rightarrow> (False, forget_sessions E None hp)
      | Inr d \<Rightarrow>
          if truthy (sd_user d) \<and> sd_user d \<noteq> JStr (default_to [] (en_user E)) then (False, forget_sessions E None hp)
          else (case messages of
                  Inl msg \<Rightarrow> (False, forget_sessions E None hp)
                | Inr raws \<Rightarrow>
                    let sid = js_string (sd_session d);
                        agent = (if truthy (sd_agent d) then js_string (sd_agent d) else default_to [] preferred);
                        hp1 = in_store (\<lambda>s. set_error None (set_session_id (Some sid)
                                (set_messages (normalize_session_messages (en_pretty E) (en_iso E) sid raws)
                                  (set_agent_id (nonempty (Some agent)) s)))) hp
                    in (True, if agent \<noteq> [] then remember_session E sid agent hp1 else hp1)))"

definition close_session :: "chat_env \<Rightarrow> hook_page \<Rightarrow> hook_page" where
  "close_session E hp =
     (let hp1 = (if nonempty (hk_session (fst hp)) = None then hp
                 else snd (send_inbound E (inbound_object E ''session.close'' (hk_session (fst hp)) []) hp));
          hp2 = (if nonempty (en_user E) = None then hp1 else forget_sessions E (cs_agent (store_of_page hp)) hp1)
      in in_store (set_generating False) (clear_generation_watchdog
           (in_store (\<lambda>s. set_session_id None (clear_messages s)) (close_socket_intentionally hp2))))"

definition reconnect :: "chat_env \<Rightarrow> hook_page \<Rightarrow> hook_page" where
  "reconnect E hp =
     chat_connect E (cs_agent (store_of_page hp)) (in_hook (\<lambda>h. h\<lparr>hk_attempts := 0, hk_intentional := False\<rparr>) hp)"

end
