(* ===== verification/Chat_Run.thy ===== *)
theory Chat_Run
  imports Chat_Hook
begin

text \<open>
  What holds of one instance of the chat hook over time: its connection, the reconnections, the
  watchdog, and the assembly of a reply.
\<close>

section \<open>The connection over time\<close>

text \<open>The part of the state that the connection consists of.\<close>

definition conn_of :: "hook_page \<Rightarrow> nat option \<times> nat \<times> nat option \<times> reconnect_timer option \<times> bool \<times> jstr option \<times> chat_socket list" where
  "conn_of hp = (hk_ws (fst hp), hk_attempts (fst hp), hk_heartbeat (fst hp), hk_reconnect (fst hp), hk_intentional (fst hp),
     hk_session (fst hp), pg_sockets (snd hp))"

named_theorems same_conn

lemma in_store_simps [simp]:
  "fst (in_store f hp) = fst hp" "pg_store (snd (in_store f hp)) = f (store_of_page hp)"
  "pg_sockets (snd (in_store f hp)) = pg_sockets (snd hp)" "pg_ids (snd (in_store f hp)) = pg_ids (snd hp)"
  "pg_frames (snd (in_store f hp)) = pg_frames (snd hp)" "pg_storage (snd (in_store f hp)) = pg_storage (snd hp)"
  by (simp_all add: in_store_def)

lemma in_hook_simps [simp]: "fst (in_hook f hp) = f (fst hp)" "snd (in_hook f hp) = snd hp"
  by (simp_all add: in_hook_def)

lemma conn_in_store [same_conn]: "conn_of (in_store f hp) = conn_of hp"
  by (simp add: conn_of_def)

lemma conn_watchdog [same_conn]: "conn_of (clear_generation_watchdog hp) = conn_of hp"
  "conn_of (arm_generation_watchdog hp) = conn_of hp"
  by (simp_all add: conn_of_def clear_generation_watchdog_def arm_generation_watchdog_def)

lemma conn_finish [same_conn]: "conn_of (finish_streaming st hp) = conn_of hp"
  by (simp add: conn_of_def finish_streaming_def split: option.splits)

lemma conn_draw [same_conn]: "conn_of (snd (draw_id E hp)) = conn_of hp" "draw_id E hp = (i, hp') \<Longrightarrow> conn_of hp' = conn_of hp"
  by (auto simp: conn_of_def draw_id_def)

lemma conn_abort [same_conn]: "conn_of (abort_generating msg hp) = conn_of hp"
  by (simp add: abort_generating_def same_conn)

lemma conn_watchdog_fires [same_conn]: "conn_of (watchdog_fires hp) = conn_of hp"
  by (simp add: watchdog_fires_def same_conn) (simp add: conn_of_def)

lemma conn_send [same_conn]: "conn_of (snd (send_inbound E m hp)) = conn_of hp"
  by (simp add: send_inbound_def same_conn split: option.splits) (simp add: conn_of_def)

lemma conn_text [same_conn]: "conn_of (on_text_delta c hp) = conn_of hp"
  by (simp add: on_text_delta_def same_conn Let_def split: option.splits)

lemma conn_events [same_conn]:
  "conn_of (on_tool_call E sid e hp) = conn_of hp" "conn_of (on_tool_result E e hp) = conn_of hp"
  "conn_of (on_ui_render E sid e hp) = conn_of hp" "conn_of (on_dispatch_trace e hp) = conn_of hp"
  "conn_of (on_error_event e hp) = conn_of hp" "conn_of (on_done e hp) = conn_of hp"
  by (simp_all add: on_tool_call_def on_tool_result_def on_ui_render_def on_dispatch_trace_def on_error_event_def on_done_def
      same_conn Let_def split_beta split: option.splits)

lemma conn_record [same_conn]: "conn_of (record_approval r hp) = conn_of hp"
  by (simp add: conn_of_def record_approval_def)

lemma conn_approval [same_conn]: "conn_of (on_approval_request E sid agent e hp) = conn_of hp"
  by (simp add: on_approval_request_def same_conn Let_def split_beta split: option.splits)

lemma conn_keep_watch [same_conn]: "conn_of (keep_watch hp) = conn_of hp"
  by (simp add: keep_watch_def same_conn)

lemma conn_handle [same_conn]: "conn_of (handle_event E sid agent e hp) = conn_of hp"
  unfolding handle_event_def Let_def by (simp add: same_conn split: option.split event_type.split)

lemma conn_message [same_conn]: "conn_of (socket_message E i text hp) = conn_of hp"
  by (simp add: socket_message_def handle_ws_message_def handle_raw_event_def same_conn Let_def split: option.splits)

lemma conn_prepare [same_conn]: "conn_of (prepare_turn E text files hp) = conn_of hp"
proof -
  have "conn_of (in_hook (\<lambda>h. h\<lparr>hk_streaming := x\<rparr>) hp') = conn_of hp'" for hp' x by (simp add: conn_of_def)
  then show ?thesis by (simp add: prepare_turn_def Let_def split_beta same_conn)
qed

lemma conn_user [same_conn]:
  "conn_of (send_chat_message E content files hp) = conn_of hp" "conn_of (respond_to_approval E i d c hp) = conn_of hp"
  "conn_of (respond_to_entity_select E tok cand act hp) = conn_of hp"
  by (simp_all add: send_chat_message_def respond_to_approval_def respond_to_entity_select_def Let_def split_beta same_conn)

lemma conn_stop [same_conn]: "conn_of (stop_turn hp) = conn_of hp"
  by (simp add: stop_turn_def same_conn) (simp add: conn_of_def)

lemma conn_storage [same_conn]: "conn_of (remember_session E sid a hp) = conn_of hp" "conn_of (forget_sessions E a' hp) = conn_of hp"
  by (simp_all add: conn_of_def remember_session_def forget_sessions_def)

lemma conn_sessions [same_conn]:
  "conn_of (snd (create_started E hp)) = conn_of hp" "conn_of (create_ended E a ans hp) = conn_of hp"
  "conn_of (snd (restore_started E t hp)) = conn_of hp" "conn_of (snd (restore_ended E pref det ms hp)) = conn_of hp"
  by (simp_all add: create_started_def create_ended_def restore_started_def restore_ended_def same_conn Let_def
      split: option.splits sum.splits)

lemma conn_heartbeat [same_conn]: "conn_of (heartbeat_fires E hp) = conn_of hp"
  by (simp add: heartbeat_fires_def conn_of_def split: option.splits)

lemma conn_fails [same_conn]: "conn_of (socket_fails hp) = conn_of hp"
  by (simp add: socket_fails_def same_conn)

text \<open>
  Anything that happens to an instance: \<open>Local\<close> stands for what does not touch the connection, a
  frame received, a heartbeat, the watchdog, and what the user does.
\<close>

inductive chat_step :: "chat_env \<Rightarrow> hook_page \<Rightarrow> hook_page \<Rightarrow> bool" for E :: chat_env where
  opens: "i < length (pg_sockets (snd hp)) \<Longrightarrow> sk_live (pg_sockets (snd hp) ! i) \<Longrightarrow>
    sk_state (pg_sockets (snd hp) ! i) = Sk_connecting \<Longrightarrow> chat_step E hp (socket_opens i hp)"
| closes: "i < length (pg_sockets (snd hp)) \<Longrightarrow> sk_live (pg_sockets (snd hp) ! i) \<Longrightarrow>
    sk_state (pg_sockets (snd hp) ! i) \<noteq> Sk_closed \<Longrightarrow> chat_step E hp (socket_closes i hp)"
| fails: "chat_step E hp (socket_fails hp)"
| frame: "i < length (pg_sockets (snd hp)) \<Longrightarrow> sk_live (pg_sockets (snd hp) ! i) \<Longrightarrow>
    sk_state (pg_sockets (snd hp) ! i) = Sk_open \<Longrightarrow> chat_step E hp (socket_message E i text hp)"
| retry: "chat_step E hp (retry_fires E hp)"
| heartbeat: "chat_step E hp (heartbeat_fires E hp)"
| watchdog: "chat_step E hp (watchdog_fires hp)"
| send: "chat_step E hp (send_chat_message E content files hp)"
| approval: "chat_step E hp (respond_to_approval E aid decision comment hp)"
| entity: "chat_step E hp (respond_to_entity_select E token candidate action hp)"
| create_start: "chat_step E hp (snd (create_started E hp))"
| create_end: "chat_step E hp (create_ended E agent ans hp)"
| restore_start: "chat_step E hp (snd (restore_started E target hp))"
| restore_end: "chat_step E hp (snd (restore_ended E preferred detail messages hp))"
| close: "chat_step E hp (close_session E hp)"
| manual: "chat_step E hp (reconnect E hp)"
| render: "chat_step E hp (rerender E hp)"

inductive chat_run :: "chat_env \<Rightarrow> hook_page \<Rightarrow> bool" for E :: chat_env where
  mounted: "pg_sockets p = [] \<Longrightarrow> chat_run E (mount E n p)"
| step: "chat_run E hp \<Longrightarrow> chat_step E hp hp' \<Longrightarrow> chat_run E hp'"

definition sockets_ok :: "nat option \<Rightarrow> chat_socket list \<Rightarrow> bool" where
  "sockets_ok ws ks \<longleftrightarrow> (\<forall>i < length ks. (sk_live (ks ! i) \<and> sk_state (ks ! i) \<noteq> Sk_closed) = (ws = Some i))
     \<and> (\<forall>i. ws = Some i \<longrightarrow> i < length ks)"

fun conn_ok :: "nat option \<times> nat \<times> nat option \<times> reconnect_timer option \<times> bool \<times> jstr option \<times> chat_socket list \<Rightarrow> bool" where
  "conn_ok (ws, attempts, heartbeat, retry, intentional, sid, ks) \<longleftrightarrow>
     sockets_ok ws ks
     \<and> (case ws of
          Some i \<Rightarrow> sid = Some (sk_session (ks ! i)) \<and> attempts = 0 \<and> retry = None \<and> \<not> intentional
            \<and> (heartbeat = None \<or> heartbeat = Some i \<and> sk_state (ks ! i) = Sk_open)
        | None \<Rightarrow> heartbeat = None \<and> attempts \<le> 1
            \<and> (\<forall>t. retry = Some t \<longrightarrow> sid = Some (rt_session t) \<and> rt_delay t = reconnect_base_delay))"

lemma sockets_close: "sockets_ok (Some i) ks \<Longrightarrow> sk_state k = Sk_closed \<Longrightarrow> sockets_ok None (ks[i := k])"
  by (auto simp: sockets_ok_def nth_list_update)

lemma sockets_open: "sockets_ok None ks \<Longrightarrow> sk_live k \<Longrightarrow> sk_state k \<noteq> Sk_closed \<Longrightarrow> sockets_ok (Some (length ks)) (ks @ [k])"
  by (auto simp: sockets_ok_def nth_append)

lemma sockets_opened: "sockets_ok (Some i) ks \<Longrightarrow> sk_live k \<Longrightarrow> sk_state k \<noteq> Sk_closed \<Longrightarrow> sockets_ok (Some i) (ks[i := k])"
  by (auto simp: sockets_ok_def nth_list_update)

lemma sockets_current: "sockets_ok ws ks \<Longrightarrow> i < length ks \<Longrightarrow> sk_live (ks ! i) \<Longrightarrow> sk_state (ks ! i) \<noteq> Sk_closed \<Longrightarrow> ws = Some i"
  by (auto simp: sockets_ok_def)

lemma conn_ok_sockets: "conn_ok (conn_of hp) \<Longrightarrow> sockets_ok (hk_ws (fst hp)) (pg_sockets (snd hp))"
  by (simp add: conn_of_def)

lemma close_conn:
  assumes "sockets_ok (hk_ws (fst hp)) (pg_sockets (snd hp))"
  shows "\<exists>ks. sockets_ok None ks \<and> conn_of (close_socket_intentionally hp) = (None, 0, None, None, True, hk_session (fst hp), ks)"
proof (cases "hk_ws (fst hp)")
  case None
  with assms show ?thesis by (auto simp: close_socket_intentionally_def conn_of_def)
next
  case (Some i)
  let ?ks = "(pg_sockets (snd hp))[i := (pg_sockets (snd hp) ! i)\<lparr>sk_live := False, sk_state := Sk_closed\<rparr>]"
  have "sockets_ok None ?ks" using assms Some by (intro sockets_close) simp_all
  with Some show ?thesis by (auto simp: close_socket_intentionally_def conn_of_def set_socket_def)
qed

lemma connect_conn:
  assumes "conn_ok (conn_of hp)"
  shows "conn_ok (conn_of (chat_connect E agent hp))"
proof (cases "\<exists>sid u. nonempty (hk_session (fst hp)) = Some sid \<and> en_user E = Some u")
  case False
  then show ?thesis using assms by (auto simp: chat_connect_def split: option.splits)
next
  case True
  then obtain sid u where s: "nonempty (hk_session (fst hp)) = Some sid" "en_user E = Some u" by blast
  obtain ks where ks: "sockets_ok None ks"
    "conn_of (close_socket_intentionally hp) = (None, 0, None, None, True, hk_session (fst hp), ks)"
    using close_conn [OF conn_ok_sockets [OF assms]] by blast
  have "hk_session (fst hp) = Some sid" using s(1) by (simp add: nonempty_eq_Some)
  with s ks sockets_open [OF ks(1)] show ?thesis
    by (simp add: chat_connect_def open_socket_def conn_of_def nth_append)
qed

lemma opens_conn:
  assumes ok: "conn_ok (conn_of hp)" and "i < length (pg_sockets (snd hp))" "sk_live (pg_sockets (snd hp) ! i)"
    "sk_state (pg_sockets (snd hp) ! i) = Sk_connecting"
  shows "conn_ok (conn_of (socket_opens i hp))"
proof -
  have ws: "hk_ws (fst hp) = Some i" using sockets_current [OF conn_ok_sockets [OF ok]] assms by simp
  have so: "sockets_ok (Some i) (pg_sockets (snd hp))" using conn_ok_sockets [OF ok] ws by simp
  show ?thesis
    using ok ws assms(2,3) sockets_opened [OF so]
    by (simp add: socket_opens_def conn_of_def set_socket_def)
qed

lemma closes_eq:
  assumes ok: "conn_ok (conn_of hp)" and ws: "hk_ws (fst hp) = Some i"
  shows "conn_of (socket_closes i hp) =
    (None, 1, None, Some \<lparr>rt_session = sk_session (pg_sockets (snd hp) ! i), rt_agent = sk_agent (pg_sockets (snd hp) ! i),
       rt_delay = reconnect_base_delay\<rparr>, False, hk_session (fst hp),
     (pg_sockets (snd hp))[i := (pg_sockets (snd hp) ! i)\<lparr>sk_state := Sk_closed\<rparr>])"
    "cs_ws (store_of_page (socket_closes i hp)) = Ws_reconnecting"
  using ok ws
  by (simp_all add: socket_closes_def schedule_retry_def conn_of_def Let_def clear_generation_watchdog_def set_socket_def
      max_reconnect_attempts_def set_ws_state_def)

lemma closes_conn:
  assumes ok: "conn_ok (conn_of hp)" and "i < length (pg_sockets (snd hp))" "sk_live (pg_sockets (snd hp) ! i)"
    "sk_state (pg_sockets (snd hp) ! i) \<noteq> Sk_closed"
  shows "conn_ok (conn_of (socket_closes i hp))"
proof -
  have ws: "hk_ws (fst hp) = Some i" using sockets_current [OF conn_ok_sockets [OF ok]] assms by simp
  have so: "sockets_ok (Some i) (pg_sockets (snd hp))" using conn_ok_sockets [OF ok] ws by simp
  have "hk_session (fst hp) = Some (sk_session (pg_sockets (snd hp) ! i))" using ok ws by (simp add: conn_of_def)
  then show ?thesis using sockets_close [OF so] by (simp add: closes_eq(1) [OF ok ws])
qed

lemma retry_conn: "conn_ok (conn_of hp) \<Longrightarrow> conn_ok (conn_of (retry_fires E hp))"
proof -
  assume ok: "conn_ok (conn_of hp)"
  have "conn_ok (conn_of (in_hook (\<lambda>h. h\<lparr>hk_reconnect := None\<rparr>) hp))"
    using ok by (simp add: conn_of_def split: option.splits)
  then show ?thesis using ok connect_conn by (simp add: retry_fires_def Let_def split: option.splits)
qed

lemma effect_conn:
  assumes "sockets_ok (hk_ws (fst hp)) (pg_sockets (snd hp))"
  shows "conn_ok (conn_of (session_effect E sid hp))"
proof -
  let ?hp = "in_hook (\<lambda>h. h\<lparr>hk_session := sid\<rparr>) hp"
  have s: "sockets_ok (hk_ws (fst ?hp)) (pg_sockets (snd ?hp))" using assms by simp
  have ok: "conn_ok (conn_of (clear_generation_watchdog (close_socket_intentionally ?hp)))"
    using close_conn [OF s] by (auto simp: same_conn)
  have "conn_ok (conn_of (close_socket_intentionally (clear_generation_watchdog (close_socket_intentionally ?hp))))"
    using close_conn [OF conn_ok_sockets [OF ok]] by auto
  with connect_conn [OF ok] show ?thesis by (simp add: session_effect_def Let_def same_conn)
qed

lemma close_session_conn: "conn_ok (conn_of hp) \<Longrightarrow> conn_ok (conn_of (close_session E hp))"
proof -
  assume ok: "conn_ok (conn_of hp)"
  have "conn_ok (conn_of (close_socket_intentionally hp'))" if "conn_of hp' = conn_of hp" for hp'
    using close_conn [OF conn_ok_sockets [of hp']] ok that by auto
  then show ?thesis by (simp add: close_session_def Let_def same_conn)
qed

lemma manual_conn: "conn_ok (conn_of hp) \<Longrightarrow> conn_ok (conn_of (reconnect E hp))"
  unfolding reconnect_def by (rule connect_conn) (simp add: conn_of_def split: option.splits)

lemma step_conn: "chat_step E hp hp' \<Longrightarrow> conn_ok (conn_of hp) \<Longrightarrow> conn_ok (conn_of hp')"
proof (induction rule: chat_step.induct)
  case (render hp)
  then show ?case by (simp add: rerender_def effect_conn conn_ok_sockets)
qed (simp_all add: same_conn opens_conn closes_conn retry_conn close_session_conn manual_conn)

lemma run_conn: "chat_run E hp \<Longrightarrow> conn_ok (conn_of hp)"
proof (induction rule: chat_run.induct)
  case (mounted p n)
  have "sockets_ok (hk_ws (fst (new_hook, p))) (pg_sockets (snd (new_hook, p)))"
    using mounted by (simp add: new_hook_def sockets_ok_def)
  then show ?case by (simp add: mount_def same_conn effect_conn)
qed (rule step_conn)

text \<open>
  C24: In every reachable state at most one socket has live handlers, the one for the session of the
  last render, and only that one is pinged, when it is open.
\<close>

theorem one_live_socket:
  assumes "chat_run E (h, p)" "i < length (pg_sockets p)" "sk_live (pg_sockets p ! i)" "sk_state (pg_sockets p ! i) \<noteq> Sk_closed"
  shows "hk_ws h = Some i \<and> hk_session h = Some (sk_session (pg_sockets p ! i))
    \<and> (\<forall>j < length (pg_sockets p). sk_live (pg_sockets p ! j) \<and> sk_state (pg_sockets p ! j) \<noteq> Sk_closed \<longrightarrow> j = i)
    \<and> (hk_heartbeat h = None \<or> hk_heartbeat h = Some i \<and> is_open i p)"
proof -
  have ok: "conn_ok (conn_of (h, p))" by (rule run_conn [OF assms(1)])
  have so: "sockets_ok (hk_ws h) (pg_sockets p)" using ok by (simp add: conn_of_def)
  have ws: "hk_ws h = Some i" by (rule sockets_current [OF so assms(2-4)])
  then have "j = i" if "j < length (pg_sockets p)" "sk_live (pg_sockets p ! j)" "sk_state (pg_sockets p ! j) \<noteq> Sk_closed" for j
    using sockets_current [OF so that] by simp
  with ok ws assms(2) show ?thesis by (auto simp: conn_of_def is_open_def)
qed

text \<open>
  The reconnections never end: however often the connection has been lost before, its loss
  schedules the next attempt, always after the base delay, because opening a socket first calls
  \<open>closeSocketIntentionally\<close>, which resets the count of attempts. The limit of five attempts is
  never reached and the delay never grows.
\<close>

theorem reconnection_never_gives_up:
  assumes "chat_run E (h, p)" "hk_ws h = Some i" "en_user E \<noteq> None" "sk_session (pg_sockets p ! i) \<noteq> []"
  shows "hk_attempts (fst (socket_closes i (h, p))) = 1
    \<and> map_option rt_delay (hk_reconnect (fst (socket_closes i (h, p)))) = Some reconnect_base_delay
    \<and> cs_ws (store_of_page (socket_closes i (h, p))) = Ws_reconnecting
    \<and> hk_ws (fst (retry_fires E (socket_closes i (h, p)))) = Some (length (pg_sockets p))
    \<and> chat_run E (retry_fires E (socket_closes i (h, p)))"
proof -
  have ok: "conn_ok (conn_of (h, p))" by (rule run_conn [OF assms(1)])
  have s: "hk_session h = Some (sk_session (pg_sockets p ! i))" "i < length (pg_sockets p)"
    "sk_live (pg_sockets p ! i)" "sk_state (pg_sockets p ! i) \<noteq> Sk_closed"
    using ok assms(2) by (auto simp: conn_of_def sockets_ok_def)
  obtain h1 p1 where c: "socket_closes i (h, p) = (h1, p1)" by fastforce
  note cl = closes_eq [OF ok, of i, simplified, OF assms(2), unfolded c]
  have n: "nonempty (Some (sk_session (pg_sockets p ! i))) = Some (sk_session (pg_sockets p ! i))"
    using assms(4) by (simp add: nonempty_eq_Some)
  have "hk_ws (fst (retry_fires E (h1, p1))) = Some (length (pg_sockets p))"
    using cl(1) s(1) n assms(3)
    by (auto simp: conn_of_def retry_fires_def chat_connect_def open_socket_def close_socket_intentionally_def)
  moreover have "chat_run E (retry_fires E (h1, p1))"
    using chat_run.step [OF chat_run.step [OF assms(1) chat_step.closes [of i]] chat_step.retry] s c by simp
  ultimately show ?thesis using cl by (simp add: c conn_of_def)
qed

section \<open>An instance\<close>

definition demo_env :: chat_env where
  "demo_env = \<lparr>en_user = Some (js ''u''), en_id = (\<lambda>n. replicate (Suc n) 97), en_iso = [], en_ms = 0,
     en_json = demo_stringify, en_pretty = js_string, en_parse = demo_parse\<rparr>"

definition demo_chat_page :: page where
  "demo_chat_page = new_page\<lparr>pg_store := new_chat_store\<lparr>cs_session := Some (js ''s'')\<rparr>\<rparr>"

lemma demo_session: "nonempty (Some (js ''s'')) = Some (js ''s'')"
  by (simp add: nonempty_eq_Some js_def)

lemma demo_mounted:
  "hk_ws (fst (mount demo_env 0 demo_chat_page)) = Some 0"
  "pg_sockets (snd (mount demo_env 0 demo_chat_page)) = [\<lparr>sk_session = js ''s'', sk_agent = None, sk_state = Sk_connecting, sk_live = True\<rparr>]"
  "chat_run demo_env (mount demo_env 0 demo_chat_page)"
proof -
  show "chat_run demo_env (mount demo_env 0 demo_chat_page)"
    by (rule chat_run.mounted) (simp add: demo_chat_page_def new_page_def)
qed (simp_all add: mount_def session_effect_def chat_connect_def open_socket_def close_socket_intentionally_def
    clear_generation_watchdog_def new_hook_def demo_chat_page_def new_page_def new_chat_store_def demo_env_def demo_session)

lemma one_live_socket_witness: "hk_session (fst (mount demo_env 0 demo_chat_page)) = Some (js ''s'')"
  using one_live_socket [of demo_env "fst (mount demo_env 0 demo_chat_page)" "snd (mount demo_env 0 demo_chat_page)" 0]
  by (simp add: demo_mounted)

lemma reconnection_never_gives_up_witness:
  "map_option rt_delay (hk_reconnect (fst (socket_closes 0 (mount demo_env 0 demo_chat_page)))) = Some 1000"
proof -
  have "en_user demo_env \<noteq> None" "js ''s'' \<noteq> []" by (simp_all add: demo_env_def js_def)
  then show ?thesis
    using reconnection_never_gives_up [of demo_env "fst (mount demo_env 0 demo_chat_page)" "snd (mount demo_env 0 demo_chat_page)" 0]
    by (simp add: demo_mounted reconnect_base_delay_def)
qed

end
