(* ===== verification/Chat_Reply.thy ===== *)
theory Chat_Reply
  imports Chat_Run
begin

text \<open>
  The turns of the chat hook: how a reply is assembled, what a lost connection does to a turn, and
  which tool message a result reaches.
\<close>

section \<open>A lost connection\<close>

text \<open>What happens without a frame from the gateway and without the user: sockets and timers.\<close>

inductive quiet :: "chat_env \<Rightarrow> hook_page \<Rightarrow> hook_page \<Rightarrow> bool" for E :: chat_env where
  now: "quiet E hp hp"
| opens: "quiet E hp hp' \<Longrightarrow> quiet E hp (socket_opens i hp')"
| closes: "quiet E hp hp' \<Longrightarrow> quiet E hp (socket_closes i hp')"
| fails: "quiet E hp hp' \<Longrightarrow> quiet E hp (socket_fails hp')"
| retry: "quiet E hp hp' \<Longrightarrow> quiet E hp (retry_fires E hp')"
| heartbeat: "quiet E hp hp' \<Longrightarrow> quiet E hp (heartbeat_fires E hp')"
| watchdog: "quiet E hp hp' \<Longrightarrow> quiet E hp (watchdog_fires hp')"

text \<open>The part of the state that a turn consists of.\<close>

definition turn_of :: "hook_page \<Rightarrow> bool \<times> bool \<times> jstr option \<times> transcript_message list" where
  "turn_of hp = (hk_watchdog (fst hp), cs_generating (store_of_page hp), hk_streaming (fst hp), cs_messages (store_of_page hp))"

named_theorems same_turn

lemma turn_store [same_turn]:
  "turn_of (in_store (set_ws_state w) hp) = turn_of hp" "turn_of (in_store (set_error e) hp) = turn_of hp"
  by (simp_all add: turn_of_def set_ws_state_def set_error_def)

lemma turn_close [same_turn]: "turn_of (close_socket_intentionally hp) = turn_of hp"
  by (simp add: turn_of_def close_socket_intentionally_def set_socket_def Let_def split: option.splits)

lemma turn_connect [same_turn]: "turn_of (chat_connect E agent hp) = turn_of hp"
proof -
  have "turn_of (open_socket sid agent hp') = turn_of hp'" "turn_of (in_hook (\<lambda>h. h\<lparr>hk_intentional := x\<rparr>) hp') = turn_of hp'"
    for sid hp' x by (simp_all add: turn_of_def open_socket_def)
  then show ?thesis by (simp add: chat_connect_def same_turn split: option.splits)
qed

lemma turn_retry [same_turn]: "turn_of (retry_fires E hp) = turn_of hp"
proof -
  have "turn_of (in_hook (\<lambda>h. h\<lparr>hk_reconnect := x\<rparr>) hp) = turn_of hp" for x by (simp add: turn_of_def)
  then show ?thesis by (simp add: retry_fires_def same_turn Let_def split: option.splits)
qed

lemma turn_opens [same_turn]: "turn_of (socket_opens i hp) = turn_of hp"
  by (simp add: socket_opens_def turn_of_def set_socket_def set_ws_state_def)

lemma turn_others [same_turn]: "turn_of (socket_fails hp) = turn_of hp" "turn_of (heartbeat_fires E hp) = turn_of hp"
  by (simp add: socket_fails_def same_turn) (simp add: heartbeat_fires_def turn_of_def split: option.splits)

lemma turn_closes:
  "turn_of (socket_closes i hp) = (False, cs_generating (store_of_page hp), hk_streaming (fst hp), cs_messages (store_of_page hp))"
  by (simp add: socket_closes_def schedule_retry_def turn_of_def Let_def clear_generation_watchdog_def set_socket_def set_ws_state_def)

lemma turn_watchdog: "fst (turn_of hp) = False \<Longrightarrow> turn_of (watchdog_fires hp) = turn_of hp"
  by (simp add: watchdog_fires_def turn_of_def)

text \<open>
  When the connection is lost during a turn, the watchdog is cleared with it and nothing arms it
  again: without an event from the gateway the page stays in the state of generating and the
  placeholder keeps streaming, whatever timers fire and however often the socket is reopened.
\<close>

theorem lost_connection_hangs_the_turn:
  assumes "cs_generating (store_of_page hp)" "quiet E (socket_closes i hp) hp'"
  shows "cs_generating (store_of_page hp') \<and> \<not> hk_watchdog (fst hp') \<and> hk_streaming (fst hp') = hk_streaming (fst hp)
    \<and> cs_messages (store_of_page hp') = cs_messages (store_of_page hp)"
proof -
  have "turn_of hp' = (False, cs_generating (store_of_page hp), hk_streaming (fst hp), cs_messages (store_of_page hp))"
    using assms(2)
  proof (induction "socket_closes i hp" hp' rule: quiet.induct)
    case (watchdog hp')
    then show ?case by (simp add: turn_watchdog)
  next
    case (closes hp' j)
    then show ?case by (simp add: turn_closes) (simp add: turn_of_def)
  qed (simp_all add: turn_closes same_turn)
  with assms(1) show ?thesis by (simp add: turn_of_def)
qed

section \<open>The assembly of a reply\<close>

text \<open>A list of messages with the placeholder \<open>j\<close> that has received the text \<open>acc\<close>, and the state during its turn.\<close>

definition placeholder :: "jstr \<Rightarrow> jstr \<Rightarrow> msg_status \<Rightarrow> transcript_message list \<Rightarrow> bool" where
  "placeholder j acc st ms \<longleftrightarrow> (\<exists>pre m post. ms = pre @ m # post \<and> cm_id m = j \<and> cm_role m = Assistant_role
     \<and> cm_content m = acc \<and> cm_status m = st \<and> (\<forall>x \<in> set pre \<union> set post. cm_id x \<noteq> j))"

definition in_turn :: "chat_env \<Rightarrow> jstr \<Rightarrow> jstr \<Rightarrow> hook_page \<Rightarrow> bool" where
  "in_turn E j acc hp \<longleftrightarrow> hk_streaming (fst hp) = Some j \<and> cs_generating (store_of_page hp) \<and> hk_watchdog (fst hp)
     \<and> (\<forall>n \<ge> pg_ids (snd hp). en_id E n \<noteq> j) \<and> placeholder j acc Msg_streaming (cs_messages (store_of_page hp))"

definition delta_text :: "chat_event \<Rightarrow> jstr" where
  "delta_text e = (if ce_type e = JStr (event_name Text_delta) then js_string (coalesce (ce_content e) (JStr [])) else [])"

definition ends_turn :: "chat_event \<Rightarrow> bool" where
  "ends_turn e \<longleftrightarrow> event_case (ce_type e) = Some Done_event \<or> event_case (ce_type e) = Some Error_event"

lemma placeholder_add: "placeholder j acc st ms \<Longrightarrow> cm_id m \<noteq> j \<Longrightarrow> placeholder j acc st (ms @ [m])"
  unfolding placeholder_def
proof (elim exE conjE)
  fix pre x post
  assume "ms = pre @ x # post" "cm_id x = j" "cm_role x = Assistant_role" "cm_content x = acc" "cm_status x = st"
    "\<forall>x \<in> set pre \<union> set post. cm_id x \<noteq> j" "cm_id m \<noteq> j"
  then show "\<exists>pre x post'. ms @ [m] = pre @ x # post' \<and> cm_id x = j \<and> cm_role x = Assistant_role
      \<and> cm_content x = acc \<and> cm_status x = st \<and> (\<forall>x \<in> set pre \<union> set post'. cm_id x \<noteq> j)"
    by (intro exI [of _ pre] exI [of _ x] exI [of _ "post @ [m]"]) auto
qed

lemma placeholder_others:
  "placeholder j acc st ms \<Longrightarrow> k \<noteq> j \<Longrightarrow> (\<And>m. cm_id (f m) = cm_id m) \<Longrightarrow>
     placeholder j acc st (map (\<lambda>m. if cm_id m = k then f m else m) ms)"
  unfolding placeholder_def
proof (elim exE conjE)
  fix pre x post
  assume "ms = pre @ x # post" "cm_id x = j" "cm_role x = Assistant_role" "cm_content x = acc" "cm_status x = st"
    "\<forall>x \<in> set pre \<union> set post. cm_id x \<noteq> j" "k \<noteq> j" "\<And>m. cm_id (f m) = cm_id m"
  then show "\<exists>pre x post. map (\<lambda>m. if cm_id m = k then f m else m) ms = pre @ x # post \<and> cm_id x = j \<and> cm_role x = Assistant_role
      \<and> cm_content x = acc \<and> cm_status x = st \<and> (\<forall>x \<in> set pre \<union> set post. cm_id x \<noteq> j)"
    by (intro exI [of _ "map (\<lambda>m. if cm_id m = k then f m else m) pre"] exI [of _ x]
          exI [of _ "map (\<lambda>m. if cm_id m = k then f m else m) post"]) auto
qed

lemma update_none: "\<forall>x \<in> set ms. cm_id x \<noteq> j \<Longrightarrow> map (\<lambda>m. if cm_id m = j then f m else m) ms = ms"
  by (induction ms) auto

lemma placeholder_update:
  "placeholder j acc st ms \<Longrightarrow> (\<And>m. cm_id m = j \<Longrightarrow> cm_role m = Assistant_role \<Longrightarrow> cm_content m = acc \<Longrightarrow> cm_status m = st \<Longrightarrow>
       cm_id (f m) = j \<and> cm_role (f m) = Assistant_role \<and> cm_content (f m) = acc' \<and> cm_status (f m) = st') \<Longrightarrow>
     placeholder j acc' st' (map (\<lambda>m. if cm_id m = j then f m else m) ms)"
  unfolding placeholder_def
proof (elim exE conjE)
  fix pre x post
  assume m: "ms = pre @ x # post" "cm_id x = j" "cm_role x = Assistant_role" "cm_content x = acc" "cm_status x = st"
    "\<forall>x \<in> set pre \<union> set post. cm_id x \<noteq> j"
    and f: "\<And>m. cm_id m = j \<Longrightarrow> cm_role m = Assistant_role \<Longrightarrow> cm_content m = acc \<Longrightarrow> cm_status m = st \<Longrightarrow>
       cm_id (f m) = j \<and> cm_role (f m) = Assistant_role \<and> cm_content (f m) = acc' \<and> cm_status (f m) = st'"
  have "map (\<lambda>m. if cm_id m = j then f m else m) ms = pre @ f x # post"
    using m by (simp add: update_none)
  with f [OF m(2-5)] m(6) show "\<exists>pre x post. map (\<lambda>m. if cm_id m = j then f m else m) ms = pre @ x # post \<and> cm_id x = j
      \<and> cm_role x = Assistant_role \<and> cm_content x = acc' \<and> cm_status x = st' \<and> (\<forall>x \<in> set pre \<union> set post. cm_id x \<noteq> j)"
    by blast
qed

lemma placeholder_find:
  assumes "placeholder j acc st ms"
  shows "\<exists>x. List.find (\<lambda>m. cm_id m = j) ms = Some x \<and> cm_content x = acc"
proof -
  obtain pre x post where m: "ms = pre @ x # post" "cm_id x = j" "cm_content x = acc" "\<forall>y \<in> set pre. cm_id y \<noteq> j"
    using assms by (auto simp: placeholder_def)
  have "List.find (\<lambda>m. cm_id m = j) ms = Some x" using m(2,4) unfolding m(1) by (induction pre) auto
  with m(3) show ?thesis by blast
qed

lemma placeholder_role: "placeholder j acc st ms \<Longrightarrow> m \<in> set ms \<Longrightarrow> cm_role m = Tool_role \<Longrightarrow> cm_id m \<noteq> j"
  unfolding placeholder_def by (elim exE conjE) auto

lemma turn_keep_watch: "in_turn E j acc hp \<Longrightarrow> in_turn E j acc (keep_watch hp)"
  by (simp add: in_turn_def keep_watch_def arm_generation_watchdog_def clear_generation_watchdog_def)

lemma turn_delta:
  assumes "in_turn E j acc hp"
  shows "in_turn E j (acc @ js_string (coalesce c (JStr []))) (on_text_delta c hp)"
proof -
  let ?ms = "cs_messages (store_of_page hp)"
  have p: "placeholder j acc Msg_streaming ?ms" and s: "hk_streaming (fst hp) = Some j" using assms by (simp_all add: in_turn_def)
  obtain x where x: "List.find (\<lambda>m. cm_id m = j) ?ms = Some x" "cm_content x = acc" using placeholder_find [OF p] by blast
  have "on_text_delta c hp = in_store (update_message j
      (\<lambda>m. m\<lparr>cm_content := acc @ js_string (coalesce c (JStr [])), cm_status := Msg_streaming\<rparr>)) hp"
    using s x by (simp add: on_text_delta_def find_message_def Let_def)
  moreover have "placeholder j (acc @ js_string (coalesce c (JStr []))) Msg_streaming (map (\<lambda>m. if cm_id m = j
      then m\<lparr>cm_content := acc @ js_string (coalesce c (JStr [])), cm_status := Msg_streaming\<rparr> else m) ?ms)"
    by (rule placeholder_update [OF p]) simp
  ultimately show ?thesis using assms by (simp add: in_turn_def update_message_def)
qed

lemma turn_append:
  "in_turn E j acc hp \<Longrightarrow> cm_id m = en_id E (pg_ids (snd hp)) \<Longrightarrow> in_turn E j acc (in_store (add_message m) (snd (draw_id E hp)))"
  by (auto simp: in_turn_def draw_id_def add_message_def intro!: placeholder_add)

lemma turn_keep:
  "in_turn E j acc hp \<Longrightarrow> in_turn E j acc (in_store (add_pending_approval a) hp)"
  "in_turn E j acc hp \<Longrightarrow> in_turn E j acc (record_approval r hp)"
  "in_turn E j acc hp \<Longrightarrow> in_turn E j acc (in_store (set_dispatch_trace es) hp)"
  by (simp_all add: in_turn_def add_pending_approval_def record_approval_def set_dispatch_trace_def)

lemma turn_result:
  assumes "in_turn E j acc hp"
  shows "in_turn E j acc (on_tool_result E e hp)"
proof (cases "last_message (\<lambda>m. cm_role m = Tool_role \<and> same_value (cm_tool m) (ce_tool_name e)) hp")
  case (Some l)
  have "l \<in> set (cs_messages (store_of_page hp))" "cm_role l = Tool_role"
    using Some by (auto simp: last_message_def find_Some_iff) (metis nth_mem set_rev length_rev)
  then have "cm_id l \<noteq> j" using assms placeholder_role unfolding in_turn_def by blast
  then have "placeholder j acc Msg_streaming (map (\<lambda>m. if cm_id m = cm_id l
      then m\<lparr>cm_result := pretty_if E (ce_result e), cm_content := tool_done_text (ce_tool_name e)\<rparr> else m) (cs_messages (store_of_page hp)))"
    using assms by (intro placeholder_others) (simp_all add: in_turn_def)
  with Some assms show ?thesis by (simp add: on_tool_result_def in_turn_def update_message_def)
qed (use assms in \<open>simp add: on_tool_result_def\<close>)

lemma turn_event:
  assumes "in_turn E j acc hp" "\<not> ends_turn e"
  shows "in_turn E j (acc @ delta_text e) (handle_event E sid agent e hp)"
proof -
  let ?hp = "keep_watch hp"
  have a: "in_turn E j acc ?hp" by (rule turn_keep_watch [OF assms(1)])
  have no_text: "delta_text e = []" if "event_case (ce_type e) \<noteq> Some Text_delta"
    using that event_case_name [of Text_delta] by (auto simp: delta_text_def simp del: event_name.simps event_case_name)
  show ?thesis
  proof (cases "event_case (ce_type e)")
    case None
    with a no_text show ?thesis by (simp add: handle_event_def)
  next
    case (Some t)
    show ?thesis
    proof (cases t)
      case Text_delta
      then have "ce_type e = JStr (event_name Text_delta)" using event_case_Some [OF Some] by (simp only:)
      with Text_delta Some turn_delta [OF a] show ?thesis by (simp add: handle_event_def delta_text_def)
    next
      case Tool_call
      with Some no_text show ?thesis
        by (simp add: handle_event_def on_tool_call_def split_beta Let_def)
          (rule turn_append [OF a], simp add: draw_id_def plain_message_def)
    next
      case Tool_result
      with Some no_text turn_result [OF a] show ?thesis by (simp add: handle_event_def)
    next
      case Ui_render
      have "in_turn E j acc (on_ui_render E sid e ?hp)"
        using turn_append [OF a] a by (simp add: on_ui_render_def split_beta draw_id_def plain_message_def)
      with Ui_render Some no_text show ?thesis by (simp add: handle_event_def)
    next
      case Approval_request
      have "in_turn E j acc (on_approval_request E sid agent e ?hp)"
        using a by (auto simp: on_approval_request_def split_beta Let_def draw_id_def plain_message_def split: option.split
            intro!: turn_keep turn_append [OF a, unfolded draw_id_def, simplified])
      with Approval_request Some no_text show ?thesis by (simp add: handle_event_def)
    next
      case Dispatch_trace
      with Some no_text a turn_keep(3) [OF a] show ?thesis by (simp add: handle_event_def on_dispatch_trace_def Let_def)
    qed (use Some assms(2) in \<open>simp_all add: ends_turn_def\<close>)
  qed
qed

lemma turn_events:
  "in_turn E j acc hp \<Longrightarrow> \<forall>e \<in> set evs. \<not> ends_turn e \<Longrightarrow>
     in_turn E j (acc @ concat (map delta_text evs)) (foldl (\<lambda>hp e. handle_event E sid agent e hp) hp evs)"
proof (induction evs arbitrary: acc hp)
  case (Cons e evs)
  have "in_turn E j (acc @ delta_text e) (handle_event E sid agent e hp)" using Cons.prems by (intro turn_event) simp_all
  from Cons.IH [OF this] Cons.prems(2) show ?case by simp
qed simp

lemma prepare_in_turn:
  assumes "inj (en_id E)" "\<forall>m \<in> set (cs_messages (store_of_page hp)). \<forall>n \<ge> pg_ids (snd hp). cm_id m \<noteq> en_id E n"
  shows "in_turn E (en_id E (Suc (pg_ids (snd hp)))) [] (prepare_turn E text files hp)"
proof -
  let ?j = "en_id E (Suc (pg_ids (snd hp)))" and ?st = "store_of_page (prepare_turn E text files hp)"
  have ids: "en_id E m = en_id E n \<longleftrightarrow> m = n" for m n using assms(1) by (auto dest: injD)
  define um where "um = (plain_message (en_id E (pg_ids (snd hp))) (default_to [] (hk_session (fst hp))) User_role
      (if text \<noteq> [] then text else if files \<noteq> [] then attachment_mark else []) Msg_delivered (en_iso E))\<lparr>cm_files := files\<rparr>"
  define am where "am = (plain_message ?j (default_to [] (hk_session (fst hp))) Assistant_role [] Msg_streaming (en_iso E))
      \<lparr>cm_agent := cs_agent (store_of_page hp)\<rparr>"
  have "cs_messages ?st = (cs_messages (store_of_page hp) @ [um]) @ am # []"
    by (simp add: prepare_turn_def draw_id_def Let_def um_def am_def add_message_def set_dispatch_trace_def set_generating_def
        arm_generation_watchdog_def clear_generation_watchdog_def)
  moreover have "\<forall>x \<in> set (cs_messages (store_of_page hp) @ [um]) \<union> set []. cm_id x \<noteq> ?j"
    using assms(2) ids by (auto simp: um_def plain_message_def)
  moreover have "cm_id am = ?j" "cm_role am = Assistant_role" "cm_content am = []" "cm_status am = Msg_streaming"
    by (simp_all add: am_def plain_message_def)
  ultimately have "placeholder ?j [] Msg_streaming (cs_messages ?st)" unfolding placeholder_def by blast
  moreover have "pg_ids (snd (prepare_turn E text files hp)) = Suc (Suc (pg_ids (snd hp)))"
    by (simp add: prepare_turn_def draw_id_def Let_def arm_generation_watchdog_def clear_generation_watchdog_def)
  moreover have "hk_streaming (fst (prepare_turn E text files hp)) = Some ?j" "hk_watchdog (fst (prepare_turn E text files hp))"
    "cs_generating ?st"
    by (simp_all add: prepare_turn_def draw_id_def Let_def arm_generation_watchdog_def clear_generation_watchdog_def
        set_generating_def set_dispatch_trace_def)
  ultimately show ?thesis by (auto simp: in_turn_def ids)
qed

lemma send_in_turn: "in_turn E j acc hp \<Longrightarrow> hk_ws (fst hp) = Some i \<Longrightarrow> is_open i (snd hp) \<Longrightarrow>
    fst (send_inbound E m hp) \<and> in_turn E j acc (snd (send_inbound E m hp))"
  by (simp add: send_inbound_def in_turn_def)

lemma done_event:
  assumes "in_turn E j acc hp" "ce_type d = JStr (event_name Done_event)"
  shows "placeholder j acc Msg_delivered (cs_messages (store_of_page (handle_event E sid agent d hp)))
    \<and> \<not> cs_generating (store_of_page (handle_event E sid agent d hp)) \<and> \<not> hk_watchdog (fst (handle_event E sid agent d hp))
    \<and> hk_streaming (fst (handle_event E sid agent d hp)) = None"
proof -
  have "placeholder j acc Msg_delivered
      (map (\<lambda>m. if cm_id m = j then m\<lparr>cm_status := Msg_delivered\<rparr> else m) (cs_messages (store_of_page hp)))"
    using assms(1) by (intro placeholder_update [where acc = acc and st = Msg_streaming]) (simp_all add: in_turn_def)
  moreover have "event_case (ce_type d) = Some Done_event" using assms(2) by (simp del: event_name.simps)
  ultimately show ?thesis
    using assms(1)
    by (cases "ce_usage d") (simp_all add: handle_event_def on_done_def finish_streaming_def in_turn_def Let_def split_beta
        keep_watch_def arm_generation_watchdog_def clear_generation_watchdog_def set_generating_def update_message_status_def
        update_message_def add_token_usage_def)
qed

text \<open>
  C23: A message sent over an open connection gets one reply: while events come in, among them tool
  calls, results, components and approvals, its placeholder holds exactly the text received so
  far; the event that ends the turn marks it as delivered with the whole text, and the page stops
  generating.
\<close>

theorem reply_is_assembled:
  assumes "hk_ws (fst hp) = Some i" "is_open i (snd hp)" "trim content \<noteq> []" "inj (en_id E)"
    and "\<forall>m \<in> set (cs_messages (store_of_page hp)). \<forall>n \<ge> pg_ids (snd hp). cm_id m \<noteq> en_id E n"
    and "\<forall>e \<in> set evs. \<not> ends_turn e" "ce_type d = JStr (event_name Done_event)"
  shows "(let j = en_id E (Suc (pg_ids (snd hp)));
              run = foldl (\<lambda>hp e. handle_event E sid agent e hp) (send_chat_message E content files hp);
              reply = concat (map delta_text evs) in
      placeholder j reply Msg_streaming (cs_messages (store_of_page (run evs))) \<and> cs_generating (store_of_page (run evs))
      \<and> placeholder j reply Msg_delivered (cs_messages (store_of_page (run (evs @ [d]))))
      \<and> \<not> cs_generating (store_of_page (run (evs @ [d]))) \<and> \<not> hk_watchdog (fst (run (evs @ [d]))))"
proof -
  let ?j = "en_id E (Suc (pg_ids (snd hp)))"
  let ?files = "filter (\<lambda>a. at_file_id a \<noteq> []) files"
  let ?p = "prepare_turn E (trim content) ?files hp"
  have p: "in_turn E ?j [] ?p" by (rule prepare_in_turn [OF assms(4,5)])
  have "conn_of ?p = conn_of hp" by (simp add: same_conn)
  then have "hk_ws (fst ?p) = Some i" "is_open i (snd ?p)" using assms(1,2) by (simp_all add: conn_of_def is_open_def)
  note snt = send_in_turn [OF p this]
  have "in_turn E ?j [] (send_chat_message E content files hp)"
    using snt assms(3) by (simp add: send_chat_message_def split_beta Let_def)
  from turn_events [OF this assms(6)] have t: "in_turn E ?j (concat (map delta_text evs))
      (foldl (\<lambda>hp e. handle_event E sid agent e hp) (send_chat_message E content files hp) evs)" by simp
  with done_event [OF t assms(7)] show ?thesis by (simp add: in_turn_def Let_def)
qed

section \<open>Results of tools\<close>

lemma draw_eq: "draw_id E hp = (en_id E (pg_ids (snd hp)), (fst hp, (snd hp)\<lparr>pg_ids := Suc (pg_ids (snd hp))\<rparr>))"
  by (simp add: draw_id_def)

lemma keep_watch_simps [simp]:
  "store_of_page (keep_watch hp) = store_of_page hp" "pg_ids (snd (keep_watch hp)) = pg_ids (snd hp)"
  by (simp_all add: keep_watch_def arm_generation_watchdog_def clear_generation_watchdog_def)

definition tool_message :: "chat_env \<Rightarrow> jstr \<Rightarrow> nat \<Rightarrow> chat_event \<Rightarrow> transcript_message" where
  "tool_message E sid n e = (plain_message (en_id E n) sid Tool_role (tool_call_text (ce_tool_name e)) Msg_delivered (en_iso E))
     \<lparr>cm_tool := ce_tool_name e, cm_args := pretty_if E (ce_args e)\<rparr>"

definition tool_answered :: "chat_env \<Rightarrow> chat_event \<Rightarrow> transcript_message \<Rightarrow> transcript_message" where
  "tool_answered E e m = m\<lparr>cm_result := pretty_if E (ce_result e), cm_content := tool_done_text (ce_tool_name e)\<rparr>"

lemma call_messages:
  assumes "ce_type e = JStr (event_name Tool_call)"
  shows "cs_messages (store_of_page (handle_event E sid agent e hp)) = cs_messages (store_of_page hp) @ [tool_message E sid (pg_ids (snd hp)) e]"
    "pg_ids (snd (handle_event E sid agent e hp)) = Suc (pg_ids (snd hp))"
proof -
  have "event_case (ce_type e) = Some Tool_call" using assms by (simp del: event_name.simps)
  then show "cs_messages (store_of_page (handle_event E sid agent e hp)) = cs_messages (store_of_page hp) @ [tool_message E sid (pg_ids (snd hp)) e]"
    "pg_ids (snd (handle_event E sid agent e hp)) = Suc (pg_ids (snd hp))"
    by (simp_all add: handle_event_def on_tool_call_def draw_eq Let_def add_message_def tool_message_def)
qed

lemma result_messages:
  assumes "ce_type e = JStr (event_name Tool_result)" "cs_messages (store_of_page hp) = ms @ [m]"
    and "cm_role m = Tool_role" "same_value (cm_tool m) (ce_tool_name e)" "\<forall>x \<in> set ms. cm_id x \<noteq> cm_id m"
  shows "cs_messages (store_of_page (handle_event E sid agent e hp)) = ms @ [tool_answered E e m]"
proof -
  let ?hp = "keep_watch hp"
  have st: "store_of_page ?hp = store_of_page hp" by simp
  have "event_case (ce_type e) = Some Tool_result" using assms(1) by (simp del: event_name.simps)
  moreover have "last_message (\<lambda>m. cm_role m = Tool_role \<and> same_value (cm_tool m) (ce_tool_name e)) ?hp = Some m"
    unfolding last_message_def st assms(2) using assms(3,4) by simp
  ultimately have "cs_messages (store_of_page (handle_event E sid agent e hp))
      = cs_messages (update_message (cm_id m) (tool_answered E e) (store_of_page hp))"
    by (simp add: handle_event_def on_tool_result_def Let_def tool_answered_def [abs_def])
  also have "\<dots> = ms @ [tool_answered E e m]"
    using assms(2) update_none [OF assms(5)] by (simp add: update_message_def)
  finally show ?thesis .
qed

text \<open>
  Two calls of tools with the same name, which all names are once the gateway has dropped them,
  both have their results written to the second call's message: the first one shows a call that
  never returns, and the second one the result that came last.
\<close>

theorem results_reach_the_last_call:
  assumes "ce_type c1 = JStr (event_name Tool_call)" "ce_type c2 = JStr (event_name Tool_call)"
    and "ce_type r1 = JStr (event_name Tool_result)" "ce_type r2 = JStr (event_name Tool_result)"
    and "\<forall>e \<in> {c1, c2, r1, r2}. ce_tool_name e = name" "\<not> object_like name" "inj (en_id E)"
    and "\<forall>m \<in> set (cs_messages (store_of_page hp)). \<forall>n \<ge> pg_ids (snd hp). cm_id m \<noteq> en_id E n"
  shows "\<exists>m1 m2. cs_messages (store_of_page (foldl (\<lambda>hp e. handle_event E sid agent e hp) hp [c1, c2, r1, r2]))
      = cs_messages (store_of_page hp) @ [m1, m2]
    \<and> cm_result m1 = None \<and> cm_content m1 = tool_call_text name
    \<and> cm_result m2 = pretty_if E (ce_result r2) \<and> cm_args m2 = pretty_if E (ce_args c2)"
proof -
  let ?h = "\<lambda>e hp. handle_event E sid agent e hp" and ?n = "pg_ids (snd hp)" and ?ms = "cs_messages (store_of_page hp)"
  let ?m1 = "tool_message E sid ?n c1" and ?m2 = "tool_message E sid (Suc ?n) c2"
  have ids: "en_id E m = en_id E n \<longleftrightarrow> m = n" for m n using assms(7) by (auto dest: injD)
  have two: "cs_messages (store_of_page (?h c2 (?h c1 hp))) = (?ms @ [?m1]) @ [?m2]"
    by (simp add: call_messages [OF assms(2)] call_messages [OF assms(1)])
  have fr: "\<forall>x \<in> set (?ms @ [?m1]). cm_id x \<noteq> cm_id ?m2"
    using assms(8) ids by (auto simp: tool_message_def plain_message_def)
  have sv: "same_value name name" using assms(6) by (simp add: same_value_def)
  have a: "cs_messages (store_of_page (?h r1 (?h c2 (?h c1 hp)))) = (?ms @ [?m1]) @ [tool_answered E r1 ?m2]"
    by (rule result_messages [OF assms(3) two _ _ fr]) (use assms(5) sv in \<open>simp_all add: tool_message_def plain_message_def\<close>)
  have "cs_messages (store_of_page (?h r2 (?h r1 (?h c2 (?h c1 hp))))) = (?ms @ [?m1]) @ [tool_answered E r2 (tool_answered E r1 ?m2)]"
    by (rule result_messages [OF assms(4) a])
      (use assms(5) sv fr in \<open>simp_all add: tool_message_def tool_answered_def plain_message_def\<close>)
  then show ?thesis using assms(5) by (simp add: tool_message_def tool_answered_def plain_message_def)
qed

section \<open>Instances\<close>

definition demo_open :: hook_page where
  "demo_open = (new_hook\<lparr>hk_ws := Some 0, hk_session := Some (js ''s'')\<rparr>,
     demo_chat_page\<lparr>pg_sockets := [\<lparr>sk_session = js ''s'', sk_agent = None, sk_state = Sk_open, sk_live = True\<rparr>]\<rparr>)"

definition demo_chat_event :: "event_type \<Rightarrow> chat_event" where
  "demo_chat_event t =
     \<lparr>ce_type = JStr (event_name t), ce_content = JStr (js ''hi''), ce_tool_name = JUndef, ce_args = JUndef, ce_result = JStr (js ''r''),
      ce_component = JUndef, ce_props = JUndef, ce_skill_id = JUndef, ce_detail = None, ce_error_code = JUndef,
      ce_message = JUndef, ce_usage = None, ce_trace = None\<rparr>"

lemma demo_open_facts:
  "hk_ws (fst demo_open) = Some 0" "is_open 0 (snd demo_open)" "cs_messages (store_of_page demo_open) = []" "inj (en_id demo_env)"
  by (simp_all add: demo_open_def is_open_def demo_chat_page_def new_page_def new_chat_store_def demo_env_def inj_def)

lemma lost_connection_hangs_the_turn_witness:
  "cs_generating (store_of_page (watchdog_fires (socket_closes 0 (in_store (set_generating True) demo_open))))"
proof -
  let ?hp = "in_store (set_generating True) demo_open"
  have "quiet demo_env (socket_closes 0 ?hp) (watchdog_fires (socket_closes 0 ?hp))" by (intro quiet.intros)
  moreover have "cs_generating (store_of_page ?hp)" by (simp add: set_generating_def)
  ultimately show ?thesis using lost_connection_hangs_the_turn by blast
qed

lemma demo_events [simp]: "ce_type (demo_chat_event t) = JStr (event_name t)" "delta_text (demo_chat_event Text_delta) = js ''hi''"
  "ce_tool_name (demo_chat_event t) = JUndef" "ce_result (demo_chat_event t) = JStr (js ''r'')"
  by (simp_all add: demo_chat_event_def delta_text_def coalesce_def)

lemma reply_is_assembled_witness:
  "placeholder (en_id demo_env (Suc (pg_ids (snd demo_open)))) (js ''hi'') Msg_delivered
     (cs_messages (store_of_page (handle_event demo_env (js ''s'') None (demo_chat_event Done_event)
       (handle_event demo_env (js ''s'') None (demo_chat_event Text_delta) (send_chat_message demo_env (js ''q'') [] demo_open)))))"
proof -
  have "trim (js ''q'') \<noteq> []" by (simp add: trim_def js_def is_ws_def)
  moreover have "\<not> ends_turn (demo_chat_event Text_delta)" by (simp add: ends_turn_def del: event_name.simps)
  ultimately show ?thesis
    using reply_is_assembled [of demo_open 0 "js ''q''" demo_env "[demo_chat_event Text_delta]" "demo_chat_event Done_event" "js ''s''" None "[]"]
      demo_open_facts by (simp add: Let_def del: event_name.simps)
qed

lemma results_reach_the_last_call_witness:
  "\<exists>m1 m2. cs_messages (store_of_page (foldl (\<lambda>hp e. handle_event demo_env (js ''s'') None e hp) demo_open
       (map demo_chat_event [Tool_call, Tool_call, Tool_result, Tool_result]))) = [m1, m2]
     \<and> cm_result m1 = None \<and> cm_result m2 = Some (js ''r'')"
proof -
  have "pretty_if demo_env (JStr (js ''r'')) = Some (js ''r'')"
    by (simp add: pretty_if_def demo_env_def)
  then show ?thesis
    using results_reach_the_last_call [of "demo_chat_event Tool_call" "demo_chat_event Tool_call" "demo_chat_event Tool_result"
        "demo_chat_event Tool_result" JUndef demo_env demo_open "js ''s''" None] demo_open_facts
    by (auto simp del: event_name.simps foldl.simps)
qed

end
