(* ===== verification/Chat_Link.thy ===== *)
theory Chat_Link
  imports Chat_Reply H5_Adapter
begin

text \<open>
  The chat frontend together with the gateway it is connected to: several instances of the chat
  hook on one page, and the gateway's table of connections, which holds one socket per session.
  The sockets of the browser and those of the gateway have the same numbers.
\<close>

section \<open>A second instance on the page\<close>

lemma mount_eq:
  assumes "cs_session (pg_store p) = Some sid" "sid \<noteq> []" "en_user E \<noteq> None"
  shows "hk_ws (fst (mount E n p)) = Some (length (pg_sockets p))" "hk_streaming (fst (mount E n p)) = None"
    "hk_session (fst (mount E n p)) = Some sid"
    "pg_sockets (snd (mount E n p)) = pg_sockets p
       @ [\<lparr>sk_session = sid, sk_agent = cs_agent (pg_store p), sk_state = Sk_connecting, sk_live = True\<rparr>]"
    "cs_messages (store_of_page (mount E n p)) = cs_messages (pg_store p)"
proof -
  have "nonempty (Some sid) = Some sid" using assms(2) by (simp add: nonempty_eq_Some)
  with assms(1,3) show "hk_ws (fst (mount E n p)) = Some (length (pg_sockets p))" "hk_streaming (fst (mount E n p)) = None"
    "hk_session (fst (mount E n p)) = Some sid"
    "pg_sockets (snd (mount E n p)) = pg_sockets p
       @ [\<lparr>sk_session = sid, sk_agent = cs_agent (pg_store p), sk_state = Sk_connecting, sk_live = True\<rparr>]"
    "cs_messages (store_of_page (mount E n p)) = cs_messages (pg_store p)"
    by (auto simp: mount_def session_effect_def chat_connect_def open_socket_def close_socket_intentionally_def
        clear_generation_watchdog_def new_hook_def set_entity_select_sender_def set_approval_sender_def set_ws_state_def)
qed

lemma opened_messages: "cs_messages (store_of_page (socket_opens i hp)) = cs_messages (store_of_page hp)"
  "hk_streaming (fst (socket_opens i hp)) = hk_streaming (fst hp)"
  using turn_opens [of i hp] by (simp_all add: turn_of_def)

lemma idle_delta:
  assumes "hk_streaming (fst hp) = None" "ce_type e = JStr (event_name Text_delta)"
    "\<not> mentions_sources (coalesce (ce_content e) (JStr []))"
  shows "cs_messages (store_of_page (handle_event E sid agent e hp)) = cs_messages (store_of_page hp)"
    "hk_streaming (fst (handle_event E sid agent e hp)) = None"
proof -
  have "event_case (ce_type e) = Some Text_delta" using assms(2) by (simp del: event_name.simps)
  moreover have "hk_streaming (fst (keep_watch hp)) = None"
    using assms(1) by (simp add: keep_watch_def arm_generation_watchdog_def clear_generation_watchdog_def)
  ultimately show "cs_messages (store_of_page (handle_event E sid agent e hp)) = cs_messages (store_of_page hp)"
    "hk_streaming (fst (handle_event E sid agent e hp)) = None"
    using assms(3) by (simp_all add: handle_event_def on_text_delta_def Let_def)
qed

lemma idle_deltas:
  "hk_streaming (fst hp) = None \<Longrightarrow>
   \<forall>e \<in> set evs. ce_type e = JStr (event_name Text_delta) \<and> \<not> mentions_sources (coalesce (ce_content e) (JStr [])) \<Longrightarrow>
     cs_messages (store_of_page (foldl (\<lambda>hp e. handle_event E sid agent e hp) hp evs)) = cs_messages (store_of_page hp)
     \<and> hk_streaming (fst (foldl (\<lambda>hp e. handle_event E sid agent e hp) hp evs)) = None"
  by (induction evs arbitrary: hp) (simp_all add: idle_delta)

lemma idle_done:
  assumes "hk_streaming (fst hp) = None" "ce_type d = JStr (event_name Done_event)"
  shows "cs_messages (store_of_page (handle_event E sid agent d hp)) = cs_messages (store_of_page hp)
    \<and> \<not> cs_generating (store_of_page (handle_event E sid agent d hp))"
proof -
  have "event_case (ce_type d) = Some Done_event" using assms(2) by (simp del: event_name.simps)
  moreover have "hk_streaming (fst (keep_watch hp)) = None"
    using assms(1) by (simp add: keep_watch_def arm_generation_watchdog_def clear_generation_watchdog_def)
  ultimately show ?thesis
    by (cases "ce_usage d") (simp_all add: handle_event_def on_done_def finish_streaming_def Let_def split_beta
        clear_generation_watchdog_def set_generating_def add_token_usage_def)
qed

text \<open>
  A card for an approval is an instance of the chat hook of its own. When it appears, it opens a
  second socket for the session, which replaces the panel's in the gateway's table. From then on
  every event of the session is written to the card's socket, and the card's hook, which has no
  placeholder, drops the text of the reply and ends the turn, so that the panel's placeholder keeps
  streaming with the text it had.
\<close>

theorem approval_card_takes_the_stream:
  assumes "cs_session (pg_store p) = Some sid" "sid \<noteq> []" "en_user E \<noteq> None"
    and "\<forall>e \<in> set evs. ce_type e = JStr (event_name Text_delta) \<and> \<not> mentions_sources (coalesce (ce_content e) (JStr []))"
    and "ce_type d = JStr (event_name Done_event)"
  shows "(let k = length (pg_sockets p); card = socket_opens k (mount E n p); (a, w) = chat_open R gp gw sid k aw;
              final = foldl (\<lambda>hp e. handle_event E sid (cs_agent (pg_store p)) e hp) card (evs @ [d]) in
      hw_frames (h5_send stringify now event sid a w) = hw_frames (snd aw) @ [(k, event_frame stringify now ''agent_event'' event)]
      \<and> sk_session (pg_sockets (snd card) ! k) = sid
      \<and> cs_messages (store_of_page final) = cs_messages (pg_store p) \<and> \<not> cs_generating (store_of_page final))"
proof -
  let ?k = "length (pg_sockets p)" and ?run = "foldl (\<lambda>hp e. handle_event E sid (cs_agent (pg_store p)) e hp)"
  let ?card = "socket_opens ?k (mount E n p)"
  note m = mount_eq [OF assms(1-3), of n]
  have "sk_session (pg_sockets (snd ?card) ! ?k) = sid"
    by (simp add: socket_opens_def set_socket_def m(3,4))
  moreover have "hw_frames (h5_send stringify now event sid (fst (chat_open R gp gw sid ?k aw)) (snd (chat_open R gp gw sid ?k aw)))
      = hw_frames (snd aw) @ [(?k, event_frame stringify now ''agent_event'' event)]"
    by (simp add: chat_open_def h5_send_def stream_event_def)
  moreover have "hk_streaming (fst ?card) = None" "cs_messages (store_of_page ?card) = cs_messages (pg_store p)"
    by (simp_all add: opened_messages m)
  with idle_deltas [OF _ assms(4), of ?card E sid "cs_agent (pg_store p)"]
  have "cs_messages (store_of_page (?run ?card evs)) = cs_messages (pg_store p)" "hk_streaming (fst (?run ?card evs)) = None"
    by simp_all
  with idle_done [OF _ assms(5), of "?run ?card evs" E sid "cs_agent (pg_store p)"]
  have "cs_messages (store_of_page (?run ?card (evs @ [d]))) = cs_messages (pg_store p)"
    "\<not> cs_generating (store_of_page (?run ?card (evs @ [d])))" by simp_all
  ultimately show ?thesis by (simp add: Let_def split_beta)
qed

lemma approval_card_takes_the_stream_witness:
  "cs_messages (store_of_page (foldl (\<lambda>hp e. handle_event demo_env (js ''s'') None e hp)
     (socket_opens 0 (mount demo_env 1 demo_chat_page)) (map demo_chat_event [Text_delta, Done_event]))) = []"
proof -
  have c: "cs_session (pg_store demo_chat_page) = Some (js ''s'')" "cs_agent (pg_store demo_chat_page) = None"
    "pg_sockets demo_chat_page = []" "cs_messages (pg_store demo_chat_page) = []"
    by (simp_all add: demo_chat_page_def new_page_def new_chat_store_def)
  have "\<not> mentions_sources (coalesce (ce_content (demo_chat_event Text_delta)) (JStr []))"
    by (auto simp: demo_chat_event_def coalesce_def str_includes_def dest!: sublist_length_le)
  moreover have "js ''s'' \<noteq> []" "en_user demo_env \<noteq> None" by (simp_all add: js_def demo_env_def)
  ultimately show ?thesis
    using approval_card_takes_the_stream [OF c(1), of demo_env "[demo_chat_event Text_delta]" "demo_chat_event Done_event" 1
        mem_ops "[]" "[]" demo_h5 js_string "[]" JNull]
    by (simp add: c Let_def split_beta del: event_name.simps)
qed

text \<open>When the card goes, it takes the senders with it, although the panel that set them is still there.\<close>

lemma unmounted_card_leaves_no_sender:
  "cs_approval_sender (pg_store (unmount hp)) = None" "cs_entity_sender (pg_store (unmount hp)) = None"
  by (simp_all add: unmount_def set_entity_select_sender_def set_approval_sender_def)

section \<open>An approval without a connection\<close>

text \<open>
  A decision that cannot be sent is not kept: without an open socket nothing reaches the gateway,
  but the approval is no longer pending, so the user cannot decide again.
\<close>

lemma unsent_decision_is_not_kept:
  assumes "case hk_ws (fst hp) of Some i \<Rightarrow> \<not> is_open i (snd hp) | None \<Rightarrow> True"
  shows "pg_frames (snd (respond_to_approval E i decision comment hp)) = pg_frames (snd hp)
    \<and> (\<forall>a \<in> set (cs_pending (store_of_page (respond_to_approval E i decision comment hp))). pa_id a \<noteq> JStr i)"
  using assms
  by (auto simp: respond_to_approval_def send_inbound_def remove_pending_approval_def same_value_def split: option.splits)

end
