(* ===== verification/Api_Client.thy ===== *)
theory Api_Client
  imports Js_Map
begin

text \<open>
  The two HTTP clients that renew an access token and repeat a call:
  agent/ai-platform/frontend/src/utils/api.ts and frontend/mis-admin-web/src/lib/api/client.ts. A
  client is a state machine over the calls made through it: calls start, their answers arrive in
  any order, and so does the answer of the renewal. Axios is a library; a call that is answered
  with a status outside 2xx, or not at all, reaches the response interceptor as an error.
\<close>

section \<open>Calls\<close>

datatype call_state = In_flight | Awaiting | Fulfilled | Rejected

record api_call =
  ac_url :: jstr
  ac_retry :: bool
  ac_sent :: "jstr option list"  \<comment> \<open>the tokens it was sent with, in order\<close>
  ac_state :: call_state

definition new_call :: "jstr \<Rightarrow> jstr option \<Rightarrow> api_call" where
  "new_call url token = \<lparr>ac_url = url, ac_retry = False, ac_sent = [token], ac_state = In_flight\<rparr>"

text \<open>The continuation of a call that waits for the renewal, with the new token if there is one.\<close>

definition resume_call :: "jstr option \<Rightarrow> api_call \<Rightarrow> api_call" where
  "resume_call token c =
     (if ac_state c \<noteq> Awaiting then c
      else case token of
             Some t \<Rightarrow> c\<lparr>ac_sent := ac_sent c @ [Some t], ac_state := In_flight\<rparr>
           | None \<Rightarrow> c\<lparr>ac_state := Rejected\<rparr>)"

definition call_ok :: "bool \<Rightarrow> api_call \<Rightarrow> bool" where
  "call_ok renewing c \<longleftrightarrow>
     (if ac_retry c then length (ac_sent c) \<in> {1, 2} \<and> (ac_state c = In_flight \<longrightarrow> length (ac_sent c) = 2)
        \<and> (ac_state c = Awaiting \<longrightarrow> length (ac_sent c) = 1 \<and> renewing)
      else length (ac_sent c) = 1 \<and> ac_state c \<noteq> Awaiting)"

definition calls_ok :: "bool \<Rightarrow> api_call list \<Rightarrow> bool" where
  "calls_ok renewing cs \<longleftrightarrow> (\<forall>c \<in> set cs. call_ok renewing c)"

lemma calls_ok_simps [simp]:
  "calls_ok r []" "calls_ok r (cs @ [c]) \<longleftrightarrow> calls_ok r cs \<and> call_ok r c"
  by (auto simp: calls_ok_def)

lemma new_call_ok [simp]: "call_ok r (new_call url token)"
  by (simp add: call_ok_def new_call_def)

lemma resumed_call_ok: "call_ok r c \<Longrightarrow> call_ok r' (resume_call token c)"
proof -
  assume c: "call_ok r c"
  show ?thesis
  proof (cases "ac_state c = Awaiting")
    case True
    then have "ac_retry c \<and> length (ac_sent c) = 1" using c by (simp add: call_ok_def split: if_splits)
    with True show ?thesis by (cases token) (simp_all add: call_ok_def resume_call_def)
  next
    case False
    with c show ?thesis by (simp add: call_ok_def resume_call_def split: if_splits)
  qed
qed

lemma resumed_ok: "calls_ok r cs \<Longrightarrow> calls_ok r' (map (resume_call token) cs)"
  unfolding calls_ok_def by (simp add: resumed_call_ok [of r])

lemma calls_ok_update: "calls_ok r cs \<Longrightarrow> call_ok r c \<Longrightarrow> calls_ok r (cs[i := c])"
  unfolding calls_ok_def using set_update_subset_insert [of cs i c] by blast

lemma calls_ok_mono: "calls_ok r cs \<Longrightarrow> calls_ok True cs"
  by (auto simp: calls_ok_def call_ok_def split: if_splits)

lemma calls_ok_nth: "calls_ok r cs \<Longrightarrow> i < length cs \<Longrightarrow> call_ok r (cs ! i)"
  by (simp add: calls_ok_def)

lemma settled_ok: "call_ok r c \<Longrightarrow> st \<in> {Fulfilled, Rejected} \<Longrightarrow> call_ok r (c\<lparr>ac_state := st\<rparr>)"
  by (auto simp: call_ok_def)

lemma waiting_ok: "call_ok r c \<Longrightarrow> \<not> ac_retry c \<Longrightarrow> call_ok True (c\<lparr>ac_retry := True, ac_state := Awaiting\<rparr>)"
  by (auto simp: call_ok_def)

lemma resumed_awaits [simp]: "ac_state (resume_call token c) \<noteq> Awaiting"
  by (simp add: resume_call_def split: option.splits)

section \<open>The client of the chat\<close>

record chat_client =
  cn_access :: "jstr option"
  cn_refresh :: "jstr option"
  cn_refreshing :: bool
  cn_refreshes :: "jstr list"  \<comment> \<open>the refresh tokens that were sent\<close>
  cn_calls :: "api_call list"
  cn_logins :: nat  \<comment> \<open>redirections to the login page\<close>

text \<open>An answer is a status, or \<open>None\<close> when there is none.\<close>

type_synonym answer = "nat option"

definition is_success :: "answer \<Rightarrow> bool" where
  "is_success a = (case a of Some s \<Rightarrow> 200 \<le> s \<and> s < 300 | None \<Rightarrow> False)"

definition clear_tokens :: "chat_client \<Rightarrow> chat_client" where
  "clear_tokens c = c\<lparr>cn_access := None, cn_refresh := None\<rparr>"

definition store_tokens :: "jstr \<Rightarrow> jstr \<Rightarrow> chat_client \<Rightarrow> chat_client" where
  "store_tokens access refresh c = c\<lparr>cn_access := Some access, cn_refresh := Some refresh\<rparr>"

definition start_call :: "jstr \<Rightarrow> chat_client \<Rightarrow> chat_client" where
  "start_call url c = c\<lparr>cn_calls := cn_calls c @ [new_call url (nonempty (cn_access c))]\<rparr>"

text \<open>The renewal has its result: the waiting calls go on.\<close>

definition refresh_settles :: "jstr option \<Rightarrow> chat_client \<Rightarrow> chat_client" where
  "refresh_settles token c =
     (let waiting = length (filter (\<lambda>k. ac_state k = Awaiting) (cn_calls c));
          c1 = c\<lparr>cn_refreshing := False, cn_calls := map (resume_call token) (cn_calls c)\<rparr>
      in if token = None \<and> 0 < waiting then (clear_tokens c1)\<lparr>cn_logins := cn_logins c + waiting\<rparr> else c1)"

definition begin_refresh :: "chat_client \<Rightarrow> chat_client" where
  "begin_refresh c =
     (case nonempty (cn_refresh c) of
        None \<Rightarrow> refresh_settles None (clear_tokens c)
      | Some t \<Rightarrow> c\<lparr>cn_refreshing := True, cn_refreshes := cn_refreshes c @ [t]\<rparr>)"

definition call_answered :: "nat \<Rightarrow> answer \<Rightarrow> chat_client \<Rightarrow> chat_client" where
  "call_answered i a c =
     (let k = cn_calls c ! i in
      if is_success a then c\<lparr>cn_calls := (cn_calls c)[i := k\<lparr>ac_state := Fulfilled\<rparr>]\<rparr>
      else if a = Some 401 \<and> \<not> ac_retry k \<and> \<not> str_includes (ac_url k) (js ''/auth/'') then
        (let c1 = c\<lparr>cn_calls := (cn_calls c)[i := k\<lparr>ac_retry := True, ac_state := Awaiting\<rparr>]\<rparr>
         in if cn_refreshing c1 then c1 else begin_refresh c1)
      else c\<lparr>cn_calls := (cn_calls c)[i := k\<lparr>ac_state := Rejected\<rparr>]\<rparr>)"

text \<open>The answer to the renewal: a failure, or the code and the token of the body.\<close>

definition refresh_answered :: "(int \<times> jstr option) option \<Rightarrow> chat_client \<Rightarrow> chat_client" where
  "refresh_answered a c =
     (case a of
        None \<Rightarrow> refresh_settles None (clear_tokens c)
      | Some (code, token) \<Rightarrow>
          (case nonempty token of
             Some t \<Rightarrow> if code = 0 then refresh_settles (Some t) (c\<lparr>cn_access := Some t\<rparr>) else refresh_settles None c
           | None \<Rightarrow> refresh_settles None c))"

inductive client_run :: "chat_client \<Rightarrow> bool" where
  fresh: "cn_calls c = [] \<Longrightarrow> \<not> cn_refreshing c \<Longrightarrow> cn_refreshes c = [] \<Longrightarrow> client_run c"
| start: "client_run c \<Longrightarrow> client_run (start_call url c)"
| answered: "client_run c \<Longrightarrow> i < length (cn_calls c) \<Longrightarrow> ac_state (cn_calls c ! i) = In_flight \<Longrightarrow> client_run (call_answered i a c)"
| renewed: "client_run c \<Longrightarrow> cn_refreshing c \<Longrightarrow> client_run (refresh_answered r c)"
| login: "client_run c \<Longrightarrow> client_run (store_tokens access refresh c)"
| logout: "client_run c \<Longrightarrow> client_run (clear_tokens c)"

abbreviation client_ok :: "chat_client \<Rightarrow> bool" where
  "client_ok c \<equiv> calls_ok (cn_refreshing c) (cn_calls c)"

lemma settles_calls [simp]: "cn_calls (refresh_settles t c) = map (resume_call t) (cn_calls c)"
  "cn_refreshing (refresh_settles t c) = False"
  by (simp_all add: refresh_settles_def Let_def clear_tokens_def)

lemma clear_tokens_simps [simp]: "cn_calls (clear_tokens c) = cn_calls c" "cn_refreshing (clear_tokens c) = cn_refreshing c"
  by (simp_all add: clear_tokens_def)

lemma settles_ok: "calls_ok r (cn_calls c) \<Longrightarrow> client_ok (refresh_settles t c)"
  by (simp add: resumed_ok)

lemma begin_ok: "calls_ok True (cn_calls c) \<Longrightarrow> client_ok (begin_refresh c)"
  by (auto simp: begin_refresh_def resumed_ok split: option.split)

lemma answered_ok:
  assumes "client_ok c" "i < length (cn_calls c)"
  shows "client_ok (call_answered i a c)"
proof -
  let ?k = "cn_calls c ! i"
  have k: "call_ok (cn_refreshing c) ?k" using assms by (rule calls_ok_nth)
  have f: "calls_ok (cn_refreshing c) ((cn_calls c)[i := ?k\<lparr>ac_state := st\<rparr>])" if "st \<in> {Fulfilled, Rejected}" for st
    using assms(1) settled_ok [OF k that] by (rule calls_ok_update)
  have w: "calls_ok True ((cn_calls c)[i := ?k\<lparr>ac_retry := True, ac_state := Awaiting\<rparr>])" if "\<not> ac_retry ?k"
    using calls_ok_mono [OF assms(1)] waiting_ok [OF k that] by (rule calls_ok_update)
  show ?thesis
    unfolding call_answered_def Let_def using f w begin_ok by auto
qed

lemma client_run_ok: "client_run c \<Longrightarrow> client_ok c"
proof (induction rule: client_run.induct)
  case (start c url)
  then show ?case by (simp add: start_call_def)
next
  case (answered c i a)
  then show ?case by (simp add: answered_ok)
next
  case (renewed c r)
  then show ?case by (auto simp: refresh_answered_def resumed_ok split: option.split prod.split)
qed (simp_all add: store_tokens_def)

text \<open>
  A renewal lets every waiting call go on: when it succeeds, each of them is sent again with the
  new token, and when it fails, each is rejected, the tokens are gone and the page goes to the
  login.
\<close>

lemma renewal_resumes_waiting_calls:
  assumes "t \<noteq> []"
  shows "cn_calls (refresh_answered (Some (0, Some t)) c) = map (resume_call (Some t)) (cn_calls c)
    \<and> cn_access (refresh_answered (Some (0, Some t)) c) = Some t
    \<and> cn_calls (refresh_answered None c) = map (resume_call None) (cn_calls c)
    \<and> cn_access (refresh_answered None c) = None"
proof -
  have "nonempty (Some t) = Some t" using assms by (simp add: nonempty_eq_Some)
  then show ?thesis
    by (simp add: refresh_answered_def) (simp add: refresh_settles_def clear_tokens_def Let_def)
qed

text \<open>\<open>getAuthedFileUrl\<close> (the token is appended to the query; a URL parser is a parameter).\<close>

definition authed_file_url :: "(jstr \<Rightarrow> jstr option) \<Rightarrow> (jstr \<Rightarrow> jstr) \<Rightarrow> jstr option \<Rightarrow> jstr \<Rightarrow> jstr" where
  "authed_file_url path_and_search encode token url =
     (let p1 = (if starts_with (js ''http://'') url \<or> starts_with (js ''https://'') url
                then default_to url (path_and_search url) else url);
          p2 = (if starts_with (js ''/'') p1 then p1 else js ''/api/v1/files/'' @ p1)
      in case nonempty token of
           None \<Rightarrow> p2
         | Some t \<Rightarrow> p2 @ (if str_includes p2 (js ''?'') then js ''&'' else js ''?'') @ js ''token='' @ encode t)"

text \<open>\<open>apiGet\<close>, \<open>apiPost\<close>, \<open>apiPut\<close> and \<open>apiDelete\<close>: the data, or the \<open>ApiError\<close>.\<close>

record 'd api_response =
  ar_code :: int
  ar_message :: jstr
  ar_data :: 'd
  ar_trace :: "jstr option"

record api_error = ae_message :: jstr  ae_code :: int  ae_trace :: jstr

definition unwrap_response :: "'d api_response \<Rightarrow> api_error + 'd" where
  "unwrap_response r =
     (if ar_code r \<noteq> 0 then
        Inl \<lparr>ae_message = default_to (js ''API request failed'') (nonempty (Some (ar_message r))),
             ae_code = ar_code r, ae_trace = default_to [] (ar_trace r)\<rparr>
      else Inr (ar_data r))"

section \<open>The client of the administration pages\<close>

record admin_client =
  dn_access :: "jstr option"
  dn_renewing :: bool  \<comment> \<open>whether there is a \<open>refreshPromise\<close>\<close>
  dn_renewals :: nat
  dn_calls :: "api_call list"
  dn_logins :: nat

text \<open>An answer that reaches the interceptor as an error: its status and the code of its body.\<close>

type_synonym failure = "nat option \<times> int option"

definition exempt_url :: "jstr \<Rightarrow> bool" where
  "exempt_url url \<longleftrightarrow> str_includes url (js ''/auth/refresh'') \<or> str_includes url (js ''/auth/login'')"

definition should_refresh :: "failure \<Rightarrow> bool" where
  "should_refresh f \<longleftrightarrow> fst f = Some 401 \<or> snd f = Some 40101"

definition start_admin_call :: "jstr \<Rightarrow> admin_client \<Rightarrow> admin_client" where
  "start_admin_call url d = d\<lparr>dn_calls := dn_calls d @ [new_call url (nonempty (dn_access d))]\<rparr>"

definition admin_refresh :: "admin_client \<Rightarrow> admin_client" where
  "admin_refresh d = (if dn_renewing d then d else d\<lparr>dn_renewing := True, dn_renewals := Suc (dn_renewals d)\<rparr>)"

definition admin_call_succeeds :: "nat \<Rightarrow> admin_client \<Rightarrow> admin_client" where
  "admin_call_succeeds i d = d\<lparr>dn_calls := (dn_calls d)[i := (dn_calls d ! i)\<lparr>ac_state := Fulfilled\<rparr>]\<rparr>"

definition admin_call_fails :: "nat \<Rightarrow> failure \<Rightarrow> admin_client \<Rightarrow> admin_client" where
  "admin_call_fails i f d =
     (let k = dn_calls d ! i in
      if exempt_url (ac_url k) \<or> \<not> should_refresh f \<or> ac_retry k
      then d\<lparr>dn_calls := (dn_calls d)[i := k\<lparr>ac_state := Rejected\<rparr>]\<rparr>
      else admin_refresh (d\<lparr>dn_calls := (dn_calls d)[i := k\<lparr>ac_retry := True, ac_state := Awaiting\<rparr>]\<rparr>))"

text \<open>
  The answer to the renewal: a failure, or the code and the token of the body (\<open>None\<close> when the body
  has no data). The calls that wait go on with the token if it is not empty.
\<close>

definition admin_renewed :: "(int \<times> jstr option) option \<Rightarrow> admin_client \<Rightarrow> admin_client" where
  "admin_renewed a d =
     (let token = (case a of Some (code, Some t) \<Rightarrow> if code = 0 then Some t else None | _ \<Rightarrow> None);
          waiting = length (filter (\<lambda>k. ac_state k = Awaiting) (dn_calls d))
      in d\<lparr>dn_access := token, dn_renewing := False,
           dn_calls := map (resume_call (nonempty token)) (dn_calls d),
           dn_logins := dn_logins d + (if nonempty token = None then waiting else 0)\<rparr>)"

inductive admin_run :: "admin_client \<Rightarrow> bool" where
  fresh: "admin_run \<lparr>dn_access = a, dn_renewing = False, dn_renewals = 0, dn_calls = [], dn_logins = 0\<rparr>"
| start: "admin_run d \<Longrightarrow> admin_run (start_admin_call url d)"
| succeeds: "admin_run d \<Longrightarrow> i < length (dn_calls d) \<Longrightarrow> ac_state (dn_calls d ! i) = In_flight
    \<Longrightarrow> admin_run (admin_call_succeeds i d)"
| fails: "admin_run d \<Longrightarrow> i < length (dn_calls d) \<Longrightarrow> ac_state (dn_calls d ! i) = In_flight
    \<Longrightarrow> admin_run (admin_call_fails i f d)"
| renewed: "admin_run d \<Longrightarrow> dn_renewing d \<Longrightarrow> admin_run (admin_renewed r d)"
| login: "admin_run d \<Longrightarrow> admin_run (d\<lparr>dn_access := t\<rparr>)"

abbreviation admin_ok :: "admin_client \<Rightarrow> bool" where
  "admin_ok d \<equiv> calls_ok (dn_renewing d) (dn_calls d)"

lemma admin_refresh_simps [simp]: "dn_renewing (admin_refresh d)" "dn_calls (admin_refresh d) = dn_calls d"
  by (simp_all add: admin_refresh_def)

lemma admin_renewed_simps [simp]: "\<not> dn_renewing (admin_renewed r d)"
  "\<exists>t. dn_calls (admin_renewed r d) = map (resume_call t) (dn_calls d)"
  by (auto simp: admin_renewed_def Let_def)

lemma admin_fails_ok:
  assumes "admin_ok d" "i < length (dn_calls d)"
  shows "admin_ok (admin_call_fails i f d)"
proof -
  let ?k = "dn_calls d ! i"
  have k: "call_ok (dn_renewing d) ?k" using assms by (rule calls_ok_nth)
  have "admin_ok (d\<lparr>dn_calls := (dn_calls d)[i := ?k\<lparr>ac_state := Rejected\<rparr>]\<rparr>)"
    using assms(1) settled_ok [OF k] by (simp add: calls_ok_update)
  moreover have "calls_ok True ((dn_calls d)[i := ?k\<lparr>ac_retry := True, ac_state := Awaiting\<rparr>])" if "\<not> ac_retry ?k"
    using calls_ok_mono [OF assms(1)] waiting_ok [OF k that] by (rule calls_ok_update)
  ultimately show ?thesis by (simp add: admin_call_fails_def Let_def)
qed

lemma admin_run_ok: "admin_run d \<Longrightarrow> admin_ok d"
proof (induction rule: admin_run.induct)
  case (start d url)
  then show ?case by (simp add: start_admin_call_def)
next
  case (succeeds d i)
  then show ?case using settled_ok [OF calls_ok_nth [OF succeeds.IH]]
    by (simp add: admin_call_succeeds_def calls_ok_update)
next
  case (fails d i f)
  then show ?case by (simp add: admin_fails_ok)
next
  case (renewed d r)
  obtain t where "dn_calls (admin_renewed r d) = map (resume_call t) (dn_calls d)"
    using admin_renewed_simps(2) by blast
  with renewed.IH show ?case by (simp add: resumed_ok)
qed simp_all

section \<open>Bounds\<close>

definition retried :: "api_call list \<Rightarrow> nat" where
  "retried cs = length (filter ac_retry cs)"

lemma resumed_retry [simp]: "ac_retry (resume_call t c) = ac_retry c"
  by (simp add: resume_call_def split: option.split)

lemma resumed_retried [simp]: "retried (map (resume_call t) cs) = retried cs"
  by (simp add: retried_def filter_map o_def)

lemma retried_simps [simp]: "retried [] = 0" "retried (cs @ [c]) = retried cs + (if ac_retry c then 1 else 0)"
  by (simp_all add: retried_def)

lemma retried_update:
  assumes "i < length cs"
  shows "retried (cs[i := c]) + (if ac_retry (cs ! i) then 1 else 0) = retried cs + (if ac_retry c then 1 else 0)"
proof -
  have "retried cs = length (filter ac_retry (take i cs @ cs ! i # drop (Suc i) cs))"
    using assms by (simp add: retried_def flip: id_take_nth_drop)
  with assms show ?thesis by (simp add: retried_def upd_conv_take_nth_drop)
qed

lemma retried_kept: "i < length cs \<Longrightarrow> retried (cs[i := (cs ! i)\<lparr>ac_state := st\<rparr>]) = retried cs"
  using retried_update [of i cs "(cs ! i)\<lparr>ac_state := st\<rparr>"] by (simp split: if_splits)

lemma retried_more: "i < length cs \<Longrightarrow> \<not> ac_retry (cs ! i) \<Longrightarrow>
    retried (cs[i := (cs ! i)\<lparr>ac_retry := True, ac_state := st\<rparr>]) = Suc (retried cs)"
  using retried_update [of i cs "(cs ! i)\<lparr>ac_retry := True, ac_state := st\<rparr>"] by simp

lemma settles_refreshes [simp]: "cn_refreshes (refresh_settles t c) = cn_refreshes c"
  by (simp add: refresh_settles_def clear_tokens_def Let_def)

lemma begin_refresh_grows: "length (cn_refreshes (begin_refresh c)) \<le> Suc (length (cn_refreshes c))
    \<and> retried (cn_calls (begin_refresh c)) = retried (cn_calls c)"
  by (auto simp: begin_refresh_def clear_tokens_def split: option.split)

lemma admin_renewals_step:
  "i < length (dn_calls d) \<Longrightarrow> dn_renewals d \<le> retried (dn_calls d) \<Longrightarrow>
    dn_renewals (admin_call_fails i f d) \<le> retried (dn_calls (admin_call_fails i f d))"
  by (auto simp: admin_call_fails_def Let_def retried_kept retried_more admin_refresh_def)

lemma admin_renewals: "admin_run d \<Longrightarrow> dn_renewals d \<le> retried (dn_calls d)"
proof (induction rule: admin_run.induct)
  case (start d url)
  then show ?case by (simp add: start_admin_call_def new_call_def)
next
  case (succeeds d i)
  then show ?case by (simp add: admin_call_succeeds_def retried_kept)
next
  case (fails d i f)
  then show ?case by (simp add: admin_renewals_step)
next
  case (renewed d r)
  then show ?case by (simp add: admin_renewed_def Let_def)
qed simp_all

lemma chat_renewals_step:
  assumes "i < length (cn_calls c)" "length (cn_refreshes c) \<le> retried (cn_calls c)"
  shows "length (cn_refreshes (call_answered i a c)) \<le> retried (cn_calls (call_answered i a c))"
proof -
  let ?w = "c\<lparr>cn_calls := (cn_calls c)[i := (cn_calls c ! i)\<lparr>ac_retry := True, ac_state := Awaiting\<rparr>]\<rparr>"
  have "length (cn_refreshes (begin_refresh ?w)) \<le> retried (cn_calls (begin_refresh ?w))" if "\<not> ac_retry (cn_calls c ! i)"
    using begin_refresh_grows [of ?w] assms that by (simp add: retried_more)
  with assms show ?thesis
    by (auto simp: call_answered_def Let_def retried_kept retried_more)
qed

lemma chat_renewals: "client_run c \<Longrightarrow> length (cn_refreshes c) \<le> retried (cn_calls c)"
proof (induction rule: client_run.induct)
  case (start c url)
  then show ?case by (simp add: start_call_def new_call_def)
next
  case (answered c i a)
  then show ?case by (simp add: chat_renewals_step)
next
  case (renewed c r)
  then show ?case by (auto simp: refresh_answered_def clear_tokens_def split: option.split prod.split)
qed (simp_all add: store_tokens_def clear_tokens_def)

lemma call_ok_sent: "call_ok r k \<Longrightarrow> length (ac_sent k) \<le> 2 \<and> (ac_state k = Awaiting \<longrightarrow> r \<and> length (ac_sent k) = 1)"
  by (auto simp: call_ok_def split: if_splits)

text \<open>
  C30: Both clients, however many calls are under way and in whatever order they are answered: no call
  is sent more than twice, a call waits only while the token is being renewed, and the token is
  renewed at most once for every call that had to be repeated.
\<close>

theorem calls_are_sent_at_most_twice:
  assumes "client_run c" and "admin_run d"
  shows "(\<forall>k \<in> set (cn_calls c). length (ac_sent k) \<le> 2 \<and> (ac_state k = Awaiting \<longrightarrow> cn_refreshing c))
    \<and> length (cn_refreshes c) \<le> retried (cn_calls c)
    \<and> (\<forall>k \<in> set (dn_calls d). length (ac_sent k) \<le> 2 \<and> (ac_state k = Awaiting \<longrightarrow> dn_renewing d))
    \<and> dn_renewals d \<le> retried (dn_calls d)"
  using client_run_ok [OF assms(1)] chat_renewals [OF assms(1)] admin_run_ok [OF assms(2)] admin_renewals [OF assms(2)]
    call_ok_sent unfolding calls_ok_def by blast

definition fresh_client :: chat_client where
  "fresh_client = \<lparr>cn_access = Some (js ''old''), cn_refresh = Some (js ''r''), cn_refreshing = False, cn_refreshes = [],
     cn_calls = [], cn_logins = 0\<rparr>"

definition two_calls :: chat_client where
  "two_calls = call_answered 1 (Some 401) (call_answered 0 (Some 401)
     (start_call (js ''/b'') (start_call (js ''/a'') fresh_client)))"

lemma two_calls_value:
  "ac_state (cn_calls two_calls ! 0) = Awaiting \<and> ac_state (cn_calls two_calls ! 1) = Awaiting
   \<and> length (cn_refreshes two_calls) = 1 \<and> cn_refreshing two_calls
   \<and> map ac_sent (cn_calls (refresh_answered (Some (0, Some (js ''new''))) two_calls))
       = replicate 2 [Some (js ''old''), Some (js ''new'')]"
  by code_simp

lemma two_calls_run: "client_run two_calls"
proof -
  let ?s = "start_call (js ''/b'') (start_call (js ''/a'') fresh_client)"
  have s: "client_run ?s"
    by (intro client_run.start client_run.fresh) (simp_all add: fresh_client_def)
  have 0: "client_run (call_answered 0 (Some 401) ?s)"
    by (rule client_run.answered [OF s]) code_simp+
  show ?thesis unfolding two_calls_def
    by (rule client_run.answered [OF 0]) code_simp+
qed

lemma calls_are_sent_at_most_twice_witness:
  "length (cn_refreshes two_calls) \<le> retried (cn_calls two_calls)
   \<and> length (cn_calls two_calls) = 2
   \<and> dn_renewals \<lparr>dn_access = None, dn_renewing = False, dn_renewals = 0, dn_calls = [], dn_logins = 0\<rparr>
     \<le> retried (dn_calls \<lparr>dn_access = None, dn_renewing = False, dn_renewals = 0, dn_calls = [], dn_logins = 0\<rparr>)"
proof -
  have "length (cn_calls two_calls) = 2" by code_simp
  then show ?thesis
    using calls_are_sent_at_most_twice [OF two_calls_run admin_run.fresh [of None]] by blast
qed

end
