(* ===== verification/Session_Renewal.thy ===== *)
theory Session_Renewal
  imports Api_Client
begin

text \<open>
  The clients of the administration pages together. frontend/mis-admin-web has two of them,
  src/lib/api/client.ts and src/features/agent/api/agent-chat-api.ts, with the same interceptors
  and a \<open>refreshPromise\<close> each; they share the access token (the auth store), the cookie that
  carries the refresh token, and the server, whose RefreshTokenService.rotate revokes the token
  it is given and issues another. The model has any number of clients, so that the page with one
  client can be compared with the page as it is. Refresh tokens are numbered in the order they are
  issued; \<open>grant n\<close> is the access token issued together with the n-th.
\<close>

record client_page =
  pg_active :: nat  \<comment> \<open>the refresh token the server accepts\<close>
  pg_cookie :: nat  \<comment> \<open>the refresh token of the browser\<close>
  pg_clients :: "admin_client list"
  pg_pending :: "nat option list"  \<comment> \<open>the refresh token each client's renewal was sent with\<close>

definition rotate_token :: "nat \<Rightarrow> nat \<Rightarrow> nat option" where
  "rotate_token active t = (if t = active then Some (Suc active) else None)"

text \<open>The auth store is one: a client that stores a token stores it for all of them.\<close>

definition share_access :: "jstr option \<Rightarrow> admin_client list \<Rightarrow> admin_client list" where
  "share_access token ds = map (\<lambda>d. d\<lparr>dn_access := token\<rparr>) ds"

definition page_start :: "nat \<Rightarrow> jstr \<Rightarrow> client_page \<Rightarrow> client_page" where
  "page_start c url p = p\<lparr>pg_clients := (pg_clients p)[c := start_admin_call url (pg_clients p ! c)]\<rparr>"

definition page_succeeds :: "nat \<Rightarrow> nat \<Rightarrow> client_page \<Rightarrow> client_page" where
  "page_succeeds c i p = p\<lparr>pg_clients := (pg_clients p)[c := admin_call_succeeds i (pg_clients p ! c)]\<rparr>"

text \<open>The renewal that a failed call starts carries the cookie of that moment.\<close>

definition page_fails :: "nat \<Rightarrow> nat \<Rightarrow> failure \<Rightarrow> client_page \<Rightarrow> client_page" where
  "page_fails c i f p =
     (let d = pg_clients p ! c; d' = admin_call_fails i f d
      in p\<lparr>pg_clients := (pg_clients p)[c := d'],
           pg_pending := (if dn_renewing d' \<and> \<not> dn_renewing d then (pg_pending p)[c := Some (pg_cookie p)] else pg_pending p)\<rparr>)"

text \<open>The server answers a client's renewal.\<close>

definition page_renewed :: "(nat \<Rightarrow> jstr) \<Rightarrow> nat \<Rightarrow> client_page \<Rightarrow> client_page" where
  "page_renewed grant c p =
     (case pg_pending p ! c of
        None \<Rightarrow> p
      | Some t \<Rightarrow>
          (let q = p\<lparr>pg_pending := (pg_pending p)[c := None]\<rparr>
           in case rotate_token (pg_active p) t of
                Some n \<Rightarrow>
                  q\<lparr>pg_active := n, pg_cookie := n,
                    pg_clients := share_access (Some (grant n))
                      ((pg_clients p)[c := admin_renewed (Some (0, Some (grant n))) (pg_clients p ! c)])\<rparr>
              | None \<Rightarrow>
                  q\<lparr>pg_clients := share_access None ((pg_clients p)[c := admin_renewed None (pg_clients p ! c)])\<rparr>))"

definition fresh_page :: "nat \<Rightarrow> jstr option \<Rightarrow> client_page" where
  "fresh_page n token =
     \<lparr>pg_active = 0, pg_cookie = 0,
      pg_clients = replicate n \<lparr>dn_access = token, dn_renewing = False, dn_renewals = 0, dn_calls = [], dn_logins = 0\<rparr>,
      pg_pending = replicate n None\<rparr>"

inductive page_run :: "(nat \<Rightarrow> jstr) \<Rightarrow> nat \<Rightarrow> client_page \<Rightarrow> bool" for grant n where
  fresh: "page_run grant n (fresh_page n token)"
| start: "page_run grant n p \<Longrightarrow> c < n \<Longrightarrow> page_run grant n (page_start c url p)"
| succeeds: "page_run grant n p \<Longrightarrow> c < n \<Longrightarrow> i < length (dn_calls (pg_clients p ! c))
    \<Longrightarrow> page_run grant n (page_succeeds c i p)"
| fails: "page_run grant n p \<Longrightarrow> c < n \<Longrightarrow> i < length (dn_calls (pg_clients p ! c))
    \<Longrightarrow> page_run grant n (page_fails c i f p)"
| renewed: "page_run grant n p \<Longrightarrow> c < n \<Longrightarrow> page_run grant n (page_renewed grant c p)"

lemma share_access_simps [simp]: "length (share_access t ds) = length ds"
  "i < length ds \<Longrightarrow> share_access t ds ! i = (ds ! i)\<lparr>dn_access := t\<rparr>"
  by (simp_all add: share_access_def)

lemma calls_keep_renewing [simp]: "dn_renewing (start_admin_call url d) = dn_renewing d"
  "dn_renewing (admin_call_succeeds i d) = dn_renewing d"
  by (simp_all add: start_admin_call_def admin_call_succeeds_def)

lemma fails_keeps_renewing: "dn_renewing d \<Longrightarrow> dn_renewing (admin_call_fails i f d)"
  by (simp add: admin_call_fails_def Let_def admin_refresh_def)

lemma renewed_not_renewing [simp]: "dn_renewing (admin_renewed r d) = False"
  by simp

text \<open>A client is renewing exactly when a renewal of it is under way.\<close>

definition page_ok :: "nat \<Rightarrow> client_page \<Rightarrow> bool" where
  "page_ok n p \<longleftrightarrow> length (pg_clients p) = n \<and> length (pg_pending p) = n \<and> pg_cookie p = pg_active p
     \<and> (\<forall>c < n. dn_renewing (pg_clients p ! c) \<longleftrightarrow> pg_pending p ! c \<noteq> None)
     \<and> (\<forall>c < n. \<forall>t. pg_pending p ! c = Some t \<longrightarrow> t \<le> pg_active p)"

lemma page_ok_renewed:
  assumes "page_ok n p" "c < n"
  shows "page_ok n (page_renewed grant c p)"
proof (cases "pg_pending p ! c")
  case None
  then show ?thesis using assms by (simp add: page_renewed_def)
next
  case (Some t)
  then show ?thesis using assms
    by (auto simp: page_renewed_def rotate_token_def page_ok_def nth_list_update le_SucI)
qed

lemma page_ok_fails:
  assumes "page_ok n p" "c < n"
  shows "page_ok n (page_fails c i f p)"
  using assms fails_keeps_renewing [of "pg_clients p ! c" i f]
  by (auto simp: page_fails_def Let_def page_ok_def nth_list_update)

lemma page_run_ok: "page_run grant n p \<Longrightarrow> page_ok n p"
proof (induction rule: page_run.induct)
  case (fresh token)
  then show ?case by (simp add: fresh_page_def page_ok_def)
next
  case (start p c url)
  then show ?case by (auto simp: page_start_def page_ok_def nth_list_update)
next
  case (succeeds p c i)
  then show ?case by (auto simp: page_succeeds_def page_ok_def nth_list_update)
qed (simp_all add: page_ok_fails page_ok_renewed)

text \<open>With one client, the renewal under way always carries the token the server accepts.\<close>

lemma single_pending:
  assumes "page_run grant n p"
  shows "n = 1 \<Longrightarrow> pg_pending p ! 0 = Some t \<Longrightarrow> t = pg_active p"
  using assms
proof (induction arbitrary: t rule: page_run.induct)
  case (fresh token)
  then show ?case by (simp add: fresh_page_def)
next
  case (start p c url)
  then show ?case by (simp add: page_start_def)
next
  case (succeeds p c i)
  then show ?case by (simp add: page_succeeds_def)
next
  case (fails p c i f)
  have "pg_cookie p = pg_active p" "length (pg_pending p) = n"
    using page_run_ok [OF fails.hyps(1)] by (simp_all add: page_ok_def)
  with fails show ?case by (auto simp: page_fails_def Let_def split: if_splits)
next
  case (renewed p c)
  have "length (pg_pending p) = n" using page_run_ok [OF renewed.hyps(1)] by (simp add: page_ok_def)
  with renewed show ?case
    by (auto simp: page_renewed_def Let_def rotate_token_def split: option.splits)
qed

text \<open>
  A page whose calls all go through one client is never logged out by its own renewals: every
  answer of the server to a renewal brings the next access token, and each call that waited is
  sent again with it.
\<close>

theorem one_client_stays_logged_in:
  assumes "page_run grant 1 p" "dn_renewing (pg_clients p ! 0)" "\<forall>n. grant n \<noteq> []"
  shows "let q = page_renewed grant 0 p; token = grant (Suc (pg_active p)) in
    dn_access (pg_clients q ! 0) = Some token
    \<and> dn_calls (pg_clients q ! 0) = map (resume_call (Some token)) (dn_calls (pg_clients p ! 0))
    \<and> dn_logins (pg_clients q ! 0) = dn_logins (pg_clients p ! 0)"
proof -
  have ok: "page_ok 1 p" using assms(1) by (rule page_run_ok)
  with assms(2) obtain t where t: "pg_pending p ! 0 = Some t" by (auto simp: page_ok_def)
  then have a: "t = pg_active p" using single_pending [OF assms(1)] by simp
  have n: "nonempty (Some (grant (Suc (pg_active p)))) = Some (grant (Suc (pg_active p)))"
    using assms(3) by (simp add: nonempty_eq_Some)
  show ?thesis
    using ok by (simp add: page_renewed_def t a rotate_token_def page_ok_def admin_renewed_def n Let_def)
qed

text \<open>
  C31: The page has two clients. When a renewal of each is under way with the same cookie, the server
  accepts the one that arrives first and rejects the other, and the rejected client clears the
  session that the other has just renewed: the access token is gone, its waiting calls are
  rejected and the user is sent to the login page, although the browser holds a valid refresh token.
\<close>

theorem two_clients_log_each_other_out:
  assumes "page_run grant 2 p" "pg_pending p = [Some (pg_cookie p), Some (pg_cookie p)]"
    and "c < 2" "dn_calls (pg_clients p ! (1 - c)) = cs"
  shows "let q = page_renewed grant (1 - c) (page_renewed grant c p) in
    pg_cookie q = pg_active q
    \<and> map dn_access (pg_clients q) = [None, None]
    \<and> dn_calls (pg_clients q ! (1 - c)) = map (resume_call None) cs
    \<and> dn_logins (pg_clients q ! (1 - c)) = dn_logins (pg_clients p ! (1 - c)) + length (filter (\<lambda>k. ac_state k = Awaiting) cs)"
proof -
  have ok: "page_ok 2 p" using assms(1) by (rule page_run_ok)
  then obtain a b where ab: "pg_clients p = [a, b]"
    by (auto simp: page_ok_def length_Suc_conv numeral_2_eq_2)
  have k: "pg_cookie p = pg_active p" using ok by (simp add: page_ok_def)
  have "c = 0 \<or> c = 1" using assms(3) by auto
  then show ?thesis
    using assms(2,4) ab k
    by (auto simp: page_renewed_def rotate_token_def admin_renewed_def share_access_def Let_def)
qed

definition demo_grant :: "nat \<Rightarrow> jstr" where
  "demo_grant n = replicate (Suc n) 65"

text \<open>A call of client \<open>c\<close> that is answered with 401.\<close>

definition refused :: "nat \<Rightarrow> client_page \<Rightarrow> client_page" where
  "refused c p = page_fails c 0 (Some 401, None) (page_start c (js ''/x'') p)"

definition one_refused :: client_page where
  "one_refused = refused 0 (fresh_page 1 (Some (demo_grant 0)))"

definition both_refused :: client_page where
  "both_refused = refused 1 (refused 0 (fresh_page 2 (Some (demo_grant 0))))"

lemma refused_run:
  assumes "page_run demo_grant n p" "c < n" "dn_calls (pg_clients p ! c) = []"
  shows "page_run demo_grant n (refused c p)"
proof -
  have "length (pg_clients p) = n" using page_run_ok [OF assms(1)] by (simp add: page_ok_def)
  then have "0 < length (dn_calls (pg_clients (page_start c (js ''/x'') p) ! c))"
    using assms by (simp add: page_start_def start_admin_call_def)
  with assms show ?thesis unfolding refused_def by (intro page_run.fails page_run.start)
qed

lemma one_refused_run: "page_run demo_grant 1 one_refused"
  unfolding one_refused_def by (rule refused_run [OF page_run.fresh]) code_simp+

lemma both_refused_run: "page_run demo_grant 2 both_refused"
  unfolding both_refused_def by (rule refused_run [OF refused_run [OF page_run.fresh]]) code_simp+

lemma one_client_stays_logged_in_witness:
  "dn_access (pg_clients (page_renewed demo_grant 0 one_refused) ! 0) = Some (demo_grant (Suc (pg_active one_refused)))"
proof -
  have "dn_renewing (pg_clients one_refused ! 0)" by code_simp
  then show ?thesis
    using one_client_stays_logged_in [OF one_refused_run] by (simp add: demo_grant_def Let_def)
qed

lemma two_clients_log_each_other_out_witness:
  "map dn_access (pg_clients (page_renewed demo_grant 1 (page_renewed demo_grant 0 both_refused))) = [None, None]"
proof -
  have "pg_pending both_refused = [Some (pg_cookie both_refused), Some (pg_cookie both_refused)]" by code_simp
  then show ?thesis
    using two_clients_log_each_other_out [OF both_refused_run, of 0] by (simp add: Let_def)
qed

end
