(* ===== verification/Auth_Store.thy ===== *)
theory Auth_Store
  imports Api_Client Auth Card_Adapter
begin

text \<open>
  Who is logged in to the chat pages, agent/ai-platform/frontend/src/store/authStore.ts. The store
  keeps the user and works on the two tokens of the local storage, which it shares with the HTTP
  client. \<open>atob\<close> and \<open>JSON.parse\<close> come with the browser (\<open>None\<close> when they throw); the times \<open>now\<close> are
  milliseconds, and a member \<open>exp\<close> that is there is a number.
\<close>

section \<open>Reading a token\<close>

record browser_lib =
  bl_atob :: "jstr \<Rightarrow> byte list option"
  bl_json :: "jstr \<Rightarrow> jval option"

text \<open>The string \<open>atob\<close> returns has one code unit per byte.\<close>

definition latin1 :: "byte list \<Rightarrow> jstr" where
  "latin1 bs = map (\<lambda>b. ucast b) bs"

definition url_to_base64 :: "jstr \<Rightarrow> jstr" where
  "url_to_base64 s = map (\<lambda>c. if c = 95 then 47 else c) (map (\<lambda>c. if c = 45 then 43 else c) s)"

text \<open>The text that is parsed.\<close>

definition payload_text :: "browser_lib \<Rightarrow> jstr \<Rightarrow> jstr option" where
  "payload_text B token =
     (case split_on 46 token of
        [h, p, sg] \<Rightarrow> map_option latin1 (bl_atob B (url_to_base64 p))
      | _ \<Rightarrow> None)"

definition decode_jwt_payload :: "browser_lib \<Rightarrow> jstr \<Rightarrow> jval option" where
  "decode_jwt_payload B token = Option.bind (payload_text B token) (bl_json B)"

record auth_user =
  au_user_id :: jstr
  au_username :: jval
  au_department :: jval
  au_roles :: "jval list"
  au_channel :: jval
  au_agent_id :: jval

definition build_auth_user :: "jval \<Rightarrow> auth_user" where
  "build_auth_user payload =
     \<lparr>au_user_id = js_string (coalesce (jprop payload ''userId'') (coalesce (jprop payload ''user_id'')
        (coalesce (jprop payload ''sub'') (JStr [])))),
      au_username = coalesce (jprop payload ''username'') (JStr []),
      au_department = coalesce (jprop payload ''department'') (JStr []),
      au_roles = (case jprop payload ''roles'' of JArr rs \<Rightarrow> rs | _ \<Rightarrow> []),
      au_channel = coalesce (jprop payload ''channel'')
        (JStr (if jprop payload ''iss'' = JStr (js ''mis-platform'') then js ''web'' else js ''wecom_h5'')),
      au_agent_id = coalesce (jprop payload ''agent_id'') (coalesce (jprop payload ''agentId'') JNull)\<rparr>"

text \<open>The user of a token whose payload decodes to something truthy.\<close>

definition token_user :: "browser_lib \<Rightarrow> jstr \<Rightarrow> auth_user option" where
  "token_user B token =
     (case decode_jwt_payload B token of
        Some p \<Rightarrow> if truthy p then Some (build_auth_user p) else None
      | None \<Rightarrow> None)"

section \<open>The store\<close>

record chat_app =
  ca_user :: "auth_user option"
  ca_authenticated :: bool
  ca_loading :: bool
  ca_error :: "jstr option"
  ca_net :: chat_client

definition login_begins :: "chat_app \<Rightarrow> chat_app" where
  "login_begins a = a\<lparr>ca_loading := True, ca_error := None\<rparr>"

text \<open>The answer to a login: tokens and, from the password login, perhaps the user.\<close>

definition login_succeeds :: "browser_lib \<Rightarrow> jstr \<Rightarrow> jstr \<Rightarrow> auth_user option \<Rightarrow> chat_app \<Rightarrow> chat_app" where
  "login_succeeds B access refresh user a =
     a\<lparr>ca_user := orelse user (token_user B access), ca_authenticated := True, ca_loading := False, ca_error := None,
       ca_net := store_tokens access refresh (ca_net a)\<rparr>"

definition login_fails :: "jstr \<Rightarrow> chat_app \<Rightarrow> chat_app" where
  "login_fails message a = a\<lparr>ca_loading := False, ca_error := Some message, ca_authenticated := False\<rparr>"

definition logout :: "chat_app \<Rightarrow> chat_app" where
  "logout a = a\<lparr>ca_net := clear_tokens (ca_net a), ca_user := None, ca_authenticated := False, ca_error := None\<rparr>"

definition accept_embedded_token :: "browser_lib \<Rightarrow> jstr \<Rightarrow> chat_app \<Rightarrow> chat_app" where
  "accept_embedded_token B token a =
     a\<lparr>ca_net := (ca_net a)\<lparr>cn_access := Some token\<rparr>, ca_user := token_user B token,
       ca_authenticated := token_user B token \<noteq> None, ca_error := None\<rparr>"

definition token_expired :: "int \<Rightarrow> jval \<Rightarrow> bool" where
  "token_expired now p = (case jprop p ''exp'' of JNum e \<Rightarrow> e \<noteq> 0 \<and> e * 1000 \<le> now | _ \<Rightarrow> False)"

definition forget_login :: "chat_app \<Rightarrow> chat_app" where
  "forget_login a = a\<lparr>ca_net := clear_tokens (ca_net a), ca_user := None, ca_authenticated := False\<rparr>"

definition initialize_auth :: "browser_lib \<Rightarrow> int \<Rightarrow> jstr option \<Rightarrow> chat_app \<Rightarrow> chat_app" where
  "initialize_auth B now url_token a =
     (case nonempty (orelse (cn_access (ca_net a)) url_token) of
        None \<Rightarrow> a\<lparr>ca_user := None, ca_authenticated := False\<rparr>
      | Some token \<Rightarrow>
          (let a1 = (if url_token \<noteq> None \<and> cn_access (ca_net a) = None
                     then a\<lparr>ca_net := (ca_net a)\<lparr>cn_access := url_token\<rparr>\<rparr> else a)
           in case decode_jwt_payload B token of
                None \<Rightarrow> forget_login a1
              | Some p \<Rightarrow>
                  if \<not> truthy p then forget_login a1
                  else if token_expired now p \<and> nonempty (cn_refresh (ca_net a1)) = None then forget_login a1
                  else a1\<lparr>ca_user := Some (build_auth_user p), ca_authenticated := True\<rparr>))"

definition clear_error :: "chat_app \<Rightarrow> chat_app" where
  "clear_error a = a\<lparr>ca_error := None\<rparr>"

section \<open>The page and the gateway\<close>

lemma ucast_byte: "c < 128 \<Longrightarrow> (ucast (byte_of (unat c)) :: cu) = c"
proof -
  assume "c < 128"
  then have "unat c < 256" by (simp add: word_less_nat_alt)
  then have "unat (ucast (byte_of (unat c)) :: cu) = unat c" by (simp add: unsigned_ucast_eq take_bit_nat_eq_self)
  then show ?thesis by (simp add: word_unat_eq_iff)
qed

lemma utf8_ascii: "\<forall>c \<in> set s. c < 128 \<Longrightarrow> utf8 s = map (\<lambda>c. byte_of (unat c)) s"
  unfolding utf8_def by (simp add: code_points_ascii, induction s) (auto simp: point_bytes_def word_less_nat_alt)

lemma ascii_latin1: "\<forall>c \<in> set s. c < 128 \<Longrightarrow> latin1 (utf8 s) = s"
  by (simp add: utf8_ascii latin1_def ucast_byte map_idI)

lemma point_bytes_length: "1 \<le> length (point_bytes n)" "128 \<le> n \<Longrightarrow> 2 \<le> length (point_bytes n)"
    "0x10000 \<le> n \<Longrightarrow> length (point_bytes n) = 4"
  by (simp_all add: point_bytes_def)

lemma utf8_Cons: "length (utf8 [c]) = length (point_bytes (unit_point c))"
  by (simp add: utf8_def)

lemma unit_point_large: "\<not> c < 128 \<Longrightarrow> 128 \<le> unit_point c"
  by (simp add: unit_point_def word_less_nat_alt)

lemma utf8_length:
  "length s \<le> length (utf8 s) \<and> ((\<exists>c \<in> set s. \<not> c < 128) \<longrightarrow> length s < length (utf8 s))"
proof (induction s rule: code_points.induct)
  case 1
  then show ?case by (simp add: utf8_def)
next
  case (2 c)
  then show ?case using point_bytes_length [of "unit_point c"] unit_point_large [of c] by (auto simp: utf8_def)
next
  case (3 c d s)
  show ?case
  proof (cases "high_surrogate c \<and> low_surrogate d")
    case True
    have "length (point_bytes (pair_point c d)) = 4" by (simp add: point_bytes_length pair_point_def)
    with 3(1) True show ?thesis by (auto simp: utf8_def)
  next
    case False
    then have "length (utf8 (c # d # s)) = length (point_bytes (unit_point c)) + length (utf8 (d # s))" by (auto simp: utf8_def)
    with 3(2) False show ?thesis
      using point_bytes_length [of "unit_point c"] unit_point_large [of c] by (auto simp: utf8_def)
  qed
qed

lemma latin1_round_trip: "latin1 (utf8 s) = s \<longleftrightarrow> (\<forall>c \<in> set s. c < 128)"
  using ascii_latin1 [of s] utf8_length [of s] by (metis latin1_def length_map nat_neq_iff)

text \<open>
  The text that the page parses is the payload exactly when the payload is ASCII: \<open>atob\<close> gives one
  code unit per byte of the UTF-8 text, so a Chinese name comes out garbled.
\<close>

theorem payload_is_read_iff_ascii:
  assumes "split_on 46 token = [h, p, sg]" "bl_atob B (url_to_base64 p) = Some (utf8 s)"
  shows "payload_text B token = Some s \<longleftrightarrow> (\<forall>c \<in> set s. c < 128)"
  using assms latin1_round_trip [of s] by (simp add: payload_text_def)

lemma payload_is_read_iff_ascii_witness:
  "payload_text \<lparr>bl_atob = \<lambda>p. Some (utf8 [0x5F20]), bl_json = \<lambda>s. None\<rparr> (js ''h.p.xxxx'') \<noteq> Some [0x5F20]"
  using payload_is_read_iff_ascii [OF demo_token, of "\<lparr>bl_atob = \<lambda>p. Some (utf8 [0x5F20]), bl_json = \<lambda>s. None\<rparr>" "[0x5F20]"]
  by simp

text \<open>
  The page and the gateway have the same \<open>JSON.parse\<close>, and their base64 decoders agree on this
  token (\<open>atob\<close> rejects what is not base64, \<open>Buffer.from\<close> skips it).
\<close>

definition same_libraries :: "jwt_lib \<Rightarrow> browser_lib \<Rightarrow> jstr \<Rightarrow> bool" where
  "same_libraries L B token \<longleftrightarrow> bl_json B = jl_json L \<and>
     (case split_on 46 token of [h, p, sg] \<Rightarrow> bl_atob B (url_to_base64 p) = Some (base64_url_decode L p) | _ \<Rightarrow> True)"

definition ascii_payload :: "jwt_lib \<Rightarrow> jstr \<Rightarrow> bool" where
  "ascii_payload L token \<longleftrightarrow>
     (case split_on 46 token of [h, p, sg] \<Rightarrow> \<exists>s. base64_url_decode L p = utf8 s \<and> (\<forall>c \<in> set s. c < 128) | _ \<Rightarrow> True)"

lemma claims_of_payload:
  assumes "hs256_claims L p = Some claims" "same_libraries L B token" "ascii_payload L token" "split_on 46 token = [h, p, sg]"
  shows "\<exists>v. decode_jwt_payload B token = Some v \<and> \<not> nullish v \<and>
    claims = jm_set (js ''userId'') (coalesce (coalesce (field_of (as_object v) (js ''userId'')) (field_of (as_object v) (js ''user_id'')))
      (JStr [])) (as_object v)"
proof -
  obtain s where s: "base64_url_decode L p = utf8 s" "\<forall>c \<in> set s. c < 128" using assms(3,4) by (auto simp: ascii_payload_def)
  have "from_utf8 (utf8 s) = s" "latin1 (utf8 s) = s"
    using s(2) by (simp_all add: from_utf8_utf8 well_formed_ascii ascii_latin1)
  with assms s(1) show ?thesis
    by (auto simp: hs256_claims_def decode_jwt_payload_def payload_text_def same_libraries_def Let_def split: option.splits if_splits)
qed

text \<open>
  C29: A token the gateway accepts as its own names the same user to the page: with an ASCII payload
  and a user in it, the page logs in the user whose requests the gateway will see.
\<close>

theorem page_and_gateway_agree_on_user:
  assumes "verify_jwt L now token secret issuer = Inr claims" "same_libraries L B token" "ascii_payload L token"
    and "field_of claims (js ''userId'') \<noteq> JStr []"
  shows "\<exists>u. ca_user (accept_embedded_token B token a) = Some u \<and> au_user_id u = js_string (field_of claims (js ''userId''))
    \<and> ca_authenticated (accept_embedded_token B token a)"
proof -
  obtain h p sg where t: "split_on 46 token = [h, p, sg]"
    using assms(1) by (auto simp: verify_jwt_def split: list.splits)
  then obtain ob where c: "hs256_claims L p = Some ob" "check_claims L now issuer ob = Inr claims"
    using assms(1) by (auto simp: verify_jwt_def Let_def split: if_splits option.splits)
  then have o: "ob = claims" "field_of claims (js ''iss'') = JStr issuer"
    by (auto simp: check_claims_def split: if_splits)
  obtain v where v: "decode_jwt_payload B token = Some v" "\<not> nullish v"
    "claims = jm_set (js ''userId'') (coalesce (coalesce (field_of (as_object v) (js ''userId'')) (field_of (as_object v) (js ''user_id'')))
      (JStr [])) (as_object v)"
    using claims_of_payload [OF c(1) assms(2,3) t] o(1) by blast
  let ?id = "coalesce (coalesce (field_of (as_object v) (js ''userId'')) (field_of (as_object v) (js ''user_id''))) (JStr [])"
  have f: "field_of claims k = (if k = js ''userId'' then ?id else field_of (as_object v) k)" for k
    by (simp add: v(3) field_of_def jm_set_def update_conv)
  obtain ob' where ob': "v = JObj ob'"
  proof (cases v)
    case (JObj ob)
    then show ?thesis by (rule that)
  qed (use o(2) f in \<open>auto simp: field_of_def\<close>)
  have "coalesce (jprop v ''userId'') (coalesce (jprop v ''user_id'') (coalesce (jprop v ''sub'') (JStr []))) = ?id"
    using assms(4) f [of "js ''userId''"] by (auto simp: ob' coalesce_def split: if_splits)
  then show ?thesis
    using v(1) f [of "js ''userId''"] by (simp add: accept_embedded_token_def token_user_def build_auth_user_def ob')
qed

definition named_claims :: jobj where
  "named_claims = [jp ''iss'' (JStr (js ''ai'')), jp ''userId'' (JStr (js ''u1''))]"

definition same_browser :: "jwt_lib \<Rightarrow> browser_lib" where
  "same_browser L = \<lparr>bl_atob = \<lambda>p. Some (jl_b64_dec L p), bl_json = jl_json L\<rparr>"

definition new_app :: chat_app where
  "new_app = \<lparr>ca_user = None, ca_authenticated = False, ca_loading = False, ca_error = None, ca_net = fresh_client\<rparr>"

lemma page_and_gateway_agree_on_user_witness:
  "ca_authenticated (accept_embedded_token (same_browser (demo_jwt named_claims)) (js ''h.pppp.xxxx'') new_app)"
proof -
  let ?L = "demo_jwt named_claims"
  have t: "split_on 46 (js ''h.pppp.xxxx'') = [js ''h'', js ''pppp'', js ''xxxx'']" by (simp add: js_def)
  have d: "base64_url_decode ?L (js ''pppp'') = utf8 (js ''pppp'')" by code_simp
  have v: "verify_jwt ?L 5 (js ''h.pppp.xxxx'') (js ''k'') (js ''ai'') = Inr named_claims"
    unfolding verify_jwt_def t
    by (simp add: demo_jwt_def hs256_claims_def check_claims_def base64_url_decode_def jm_set_def coalesce_def Let_def upt_rec
        named_claims_def nullish_def field_of_def js_def [of "''xxxx''"])
  have "same_libraries ?L (same_browser ?L) (js ''h.pppp.xxxx'')"
    by (simp add: same_libraries_def t same_browser_def base64_url_decode_def url_to_base64_def Let_def)
  moreover have "ascii_payload ?L (js ''h.pppp.xxxx'')"
    unfolding ascii_payload_def t list.case d by (rule exI [of _ "js ''pppp''"]) (simp add: js_def)
  moreover have "field_of named_claims (js ''userId'') \<noteq> JStr []" by (simp add: named_claims_def field_of_def)
  ultimately show ?thesis using page_and_gateway_agree_on_user [OF v] by blast
qed

section \<open>Two logins on one page\<close>

text \<open>
  An embedded token replaces the access token and leaves the refresh token of an earlier login in
  the storage. When the embedded token runs out, the HTTP client renews with that refresh token:
  from then on the calls carry the token of the earlier login, while the page still shows the
  embedded user.
\<close>

theorem embedded_session_renews_as_earlier_login:
  assumes "cn_refresh (ca_net a) = Some earlier" "earlier \<noteq> []" "\<not> cn_refreshing (ca_net a)" "t \<noteq> []"
    and "\<not> str_includes url (js ''/auth/'')"
  shows "let a1 = accept_embedded_token B embedded a;
             n = length (cn_calls (ca_net a));
             c = call_answered n (Some 401) (start_call url (ca_net a1));
             c' = refresh_answered (Some (0, Some t)) c in
    cn_refreshes c = cn_refreshes (ca_net a) @ [earlier]
    \<and> cn_access c' = Some t
    \<and> List.last (ac_sent (cn_calls c' ! n)) = Some t
    \<and> ca_user a1 = token_user B embedded"
proof -
  have "nonempty (Some earlier) = Some earlier" "nonempty (Some t) = Some t"
    using assms(2,4) by (simp_all add: nonempty_eq_Some)
  with assms show ?thesis
    by (simp add: accept_embedded_token_def start_call_def new_call_def call_answered_def is_success_def begin_refresh_def
        refresh_answered_def refresh_settles_def Let_def resume_call_def nth_append)
qed

lemma embedded_session_renews_as_earlier_login_witness:
  "cn_refreshes (call_answered 0 (Some 401) (start_call (js ''/x'') (ca_net
     (accept_embedded_token (same_browser (demo_jwt named_claims)) (js ''h.pppp.xxxx'') new_app)))) = [js ''r'']"
proof -
  have i: "\<not> str_includes (js ''/x'') (js ''/auth/'')" by code_simp
  have c: "cn_refresh (ca_net new_app) = Some (js ''r'')" "js ''r'' \<noteq> []" "\<not> cn_refreshing (ca_net new_app)" "js ''t'' \<noteq> []"
    "cn_calls (ca_net new_app) = []" "cn_refreshes (ca_net new_app) = []"
    by (simp_all add: new_app_def fresh_client_def)
  show ?thesis
    using embedded_session_renews_as_earlier_login [OF c(1-4) i, of "same_browser (demo_jwt named_claims)" "js ''h.pppp.xxxx''"] c(5,6)
    by (simp add: Let_def)
qed

end
