(* ===== verification/Page_Guard.thy ===== *)
theory Page_Guard
  imports Auth_Store
begin

text \<open>
  Which page of the chat frontend is shown, agent/ai-platform/frontend/src/routes/router.tsx and
  AppRoutes.tsx, and which pages read the stored login: \<open>initialize\<close> is called when the chat page or
  the layout of an administration page is mounted (pages/ChatPage.tsx, components/Layout.tsx), and
  nowhere else. Redirections of the router are followed until a page is shown.
\<close>

section \<open>Routes\<close>

datatype screen = Login_screen | Chat_screen | Admin_screen jstr | Waiting_screen | Timed_out_screen

definition admin_pages :: "jstr list" where
  "admin_pages = map js [''/admin/skills'', ''/admin/monitor'', ''/admin/approvals'']"

definition admin_redirects :: "jstr list" where
  "admin_redirects = map js [''/admin/agents'', ''/admin/users'', ''/admin'']"

text \<open>\<open>RequireAuth\<close>: the page, or what is shown instead of it; and the path then.\<close>

definition require_auth :: "bool \<Rightarrow> bool \<Rightarrow> bool \<Rightarrow> jstr \<Rightarrow> screen \<Rightarrow> screen \<times> jstr" where
  "require_auth authenticated framed timed_out path scr =
     (if authenticated then (scr, path)
      else if framed then (if timed_out then Timed_out_screen else Waiting_screen, path)
      else (Login_screen, js ''/login''))"

definition open_path :: "bool \<Rightarrow> bool \<Rightarrow> bool \<Rightarrow> jstr \<Rightarrow> screen \<times> jstr" where
  "open_path authenticated framed timed_out path =
     (if path = js ''/login'' then (Login_screen, path)
      else if path \<in> set admin_pages then require_auth authenticated framed timed_out path (Admin_screen path)
      else if path \<in> set admin_redirects
           then (if authenticated then (Admin_screen (js ''/admin/skills''), js ''/admin/skills'')
                 else require_auth authenticated framed timed_out path Login_screen)
      else require_auth authenticated framed timed_out (js ''/chat'') Chat_screen)"

fun protected_screen :: "screen \<Rightarrow> bool" where
  "protected_screen Chat_screen = True"
| "protected_screen (Admin_screen _) = True"
| "protected_screen _ = False"

section \<open>The site\<close>

record site =
  st_app :: chat_app
  st_path :: jstr
  st_embed :: bool
  st_url_token :: "jstr option"
  st_timed_out :: bool
  st_screen :: "screen option"  \<comment> \<open>what is mounted\<close>
  st_initialized :: nat  \<comment> \<open>how often \<open>initialize\<close> was called\<close>

definition site_path :: "site \<Rightarrow> screen \<times> jstr" where
  "site_path s = open_path (ca_authenticated (st_app s)) (st_embed s) (st_timed_out s) (st_path s)"

definition show_screen :: "site \<Rightarrow> site" where
  "show_screen s = s\<lparr>st_screen := Some (fst (site_path s)), st_path := snd (site_path s)\<rparr>"

text \<open>A protected page that is newly mounted calls \<open>initialize\<close>, after which the guard looks again.\<close>

definition settle_site :: "browser_lib \<Rightarrow> int \<Rightarrow> site \<Rightarrow> site" where
  "settle_site B now s =
     (let scr = fst (site_path s) in
      if protected_screen scr \<and> st_screen s \<noteq> Some scr
      then show_screen ((show_screen s)\<lparr>st_app := initialize_auth B now (st_url_token s) (st_app s),
                                        st_initialized := Suc (st_initialized s)\<rparr>)
      else show_screen s)"

text \<open>Loading the page: the memory is new, the local storage is as it was.\<close>

definition load_site :: "browser_lib \<Rightarrow> int \<Rightarrow> jstr \<Rightarrow> bool \<Rightarrow> jstr option \<Rightarrow> chat_client \<Rightarrow> site" where
  "load_site B now path framed url_token net =
     settle_site B now
       \<lparr>st_app = \<lparr>ca_user = None, ca_authenticated = False, ca_loading = False, ca_error = None, ca_net = net\<rparr>,
        st_path = path, st_embed = framed, st_url_token = url_token, st_timed_out = False, st_screen = None, st_initialized = 0\<rparr>"

definition site_timeout :: "browser_lib \<Rightarrow> int \<Rightarrow> site \<Rightarrow> site" where
  "site_timeout B now s =
     (if st_embed s \<and> \<not> ca_authenticated (st_app s) then settle_site B now (s\<lparr>st_timed_out := True\<rparr>) else s)"

definition site_navigate :: "browser_lib \<Rightarrow> int \<Rightarrow> jstr \<Rightarrow> site \<Rightarrow> site" where
  "site_navigate B now path s = settle_site B now (s\<lparr>st_path := path\<rparr>)"

definition site_login :: "browser_lib \<Rightarrow> int \<Rightarrow> jstr \<Rightarrow> jstr \<Rightarrow> auth_user option \<Rightarrow> jstr \<Rightarrow> site \<Rightarrow> site" where
  "site_login B now access refresh user from_path s =
     settle_site B now (s\<lparr>st_app := login_succeeds B access refresh user (st_app s), st_path := from_path\<rparr>)"

definition site_login_failed :: "browser_lib \<Rightarrow> int \<Rightarrow> jstr \<Rightarrow> site \<Rightarrow> site" where
  "site_login_failed B now message s = settle_site B now (s\<lparr>st_app := login_fails message (st_app s)\<rparr>)"

definition site_token :: "browser_lib \<Rightarrow> int \<Rightarrow> jstr \<Rightarrow> site \<Rightarrow> site" where
  "site_token B now token s = settle_site B now (s\<lparr>st_app := accept_embedded_token B token (st_app s)\<rparr>)"

definition site_logout :: "browser_lib \<Rightarrow> int \<Rightarrow> site \<Rightarrow> site" where
  "site_logout B now s = settle_site B now (s\<lparr>st_app := logout (st_app s)\<rparr>)"

inductive site_run :: "browser_lib \<Rightarrow> site \<Rightarrow> bool" for B where
  load: "site_run B (load_site B now path framed url_token net)"
| waited: "site_run B s \<Longrightarrow> site_run B (site_timeout B now s)"
| navigate: "site_run B s \<Longrightarrow> site_run B (site_navigate B now path s)"
| login: "site_run B s \<Longrightarrow> site_run B (site_login B now access refresh user from_path s)"
| login_failed: "site_run B s \<Longrightarrow> site_run B (site_login_failed B now message s)"
| embedded_token: "site_run B s \<Longrightarrow> site_run B (site_token B now token s)"
| logged_out: "site_run B s \<Longrightarrow> site_run B (site_logout B now s)"

section \<open>Protected pages\<close>

definition guarded :: "site \<Rightarrow> bool" where
  "guarded s \<longleftrightarrow> (\<exists>scr. st_screen s = Some scr \<and> (protected_screen scr \<longrightarrow> ca_authenticated (st_app s)))"

lemma require_auth_guards: "protected_screen (fst (require_auth a e t p scr)) \<Longrightarrow> a"
  by (simp add: require_auth_def split: if_splits)

lemma open_path_guards: "protected_screen (fst (open_path a e t p)) \<Longrightarrow> a"
  by (auto simp: open_path_def require_auth_def split: if_splits)

lemma show_guarded: "guarded (show_screen s)"
  by (auto simp: guarded_def show_screen_def site_path_def dest: open_path_guards)

lemma settle_guarded: "guarded (settle_site B now s)"
  by (simp add: settle_site_def show_guarded Let_def)

text \<open>
  C28: Whatever happens on the site, a chat or administration page is on the screen only while someone
  is logged in.
\<close>

theorem protected_pages_need_login:
  assumes "site_run B s"
  shows "\<exists>scr. st_screen s = Some scr \<and> (protected_screen scr \<longrightarrow> ca_authenticated (st_app s))"
proof -
  from assms have "guarded s"
  proof (induction rule: site_run.induct)
    case (waited s now)
    then show ?case by (simp add: site_timeout_def settle_guarded)
  qed (simp_all add: load_site_def site_navigate_def site_login_def site_login_failed_def site_token_def site_logout_def settle_guarded)
  then show ?thesis by (simp add: guarded_def)
qed

text \<open>
  The stored login is not restored: whatever tokens the storage and the address hold, loading the
  site at any path shows the login page, or waits when it is embedded; \<open>initialize\<close>, which would
  read them, is called only by pages that the guard does not show. Nor does navigating or waiting help.
\<close>

lemma open_path_unauthenticated:
  "fst (open_path False e t p) = (if p = js ''/login'' \<or> \<not> e then Login_screen else if t then Timed_out_screen else Waiting_screen)"
  by (simp add: open_path_def require_auth_def)

lemma settle_unauthenticated:
  "\<not> ca_authenticated (st_app s) \<Longrightarrow> settle_site B now s = show_screen s"
  by (auto simp: settle_site_def site_path_def Let_def dest: open_path_guards)

theorem stored_login_is_not_restored:
  "let s = foldl (\<lambda>s p. site_navigate B now p s) (load_site B now path framed url_token net) paths;
       s' = site_timeout B now s in
    st_initialized s' = 0 \<and> \<not> ca_authenticated (st_app s') \<and> ca_net (st_app s') = net
    \<and> (\<exists>scr. st_screen s' = Some scr \<and> \<not> protected_screen scr)"
proof -
  let ?ok = "\<lambda>s. st_initialized s = 0 \<and> \<not> ca_authenticated (st_app s) \<and> ca_net (st_app s) = net
    \<and> (\<exists>scr. st_screen s = Some scr \<and> \<not> protected_screen scr)"
  have show_ok: "?ok (show_screen s)" if "st_initialized s = 0" "\<not> ca_authenticated (st_app s)" "ca_net (st_app s) = net" for s
    using that by (auto simp: show_screen_def site_path_def dest: open_path_guards)
  have "?ok (foldl (\<lambda>s p. site_navigate B now p s) (load_site B now path framed url_token net) paths)"
    by (induction paths rule: rev_induct)
       (simp_all add: load_site_def site_navigate_def settle_unauthenticated show_ok)
  then show ?thesis
    by (simp add: site_timeout_def settle_unauthenticated show_ok Let_def)
qed

lemma protected_pages_need_login_witness:
  "\<exists>scr. st_screen (load_site (same_browser (demo_jwt [])) 0 (js ''/chat'') False None fresh_client) = Some scr
     \<and> (\<not> protected_screen scr \<or> ca_authenticated (st_app (load_site (same_browser (demo_jwt [])) 0 (js ''/chat'') False None fresh_client)))"
  using protected_pages_need_login [OF site_run.load [of "same_browser (demo_jwt [])" 0 "js ''/chat''" False None fresh_client]] by auto

end
