(* ===== verification/Embed_Auth.thy ===== *)
theory Embed_Auth
  imports Page_Guard
begin

text \<open>
  The assistant inside the administration pages. The frame of frontend/mis-admin-web/src/components/
  layout/copilot-panel.tsx shows the chat frontend, whose bridge (agent/ai-platform/frontend/src/
  components/EmbedAuthBridge.tsx) says that it is ready and is given the access token and the page.
  The two windows exchange messages that carry their sender's origin; other windows may send
  messages too. React effects run in the order the code declares them.
\<close>

section \<open>The panel\<close>

datatype parent_msg = Auth_token_msg jstr | Page_context_msg jstr jstr

record copilot =
  cp_open :: bool
  cp_ever_opened :: bool
  cp_attempted :: bool
  cp_ready :: bool
  cp_error :: bool
  cp_frame :: nat
  cp_token :: "jstr option"
  cp_path :: jstr

definition derive_module_from_path :: "jstr \<Rightarrow> jstr" where
  "derive_module_from_path path =
     (case filter (\<lambda>p. p \<noteq> []) (split_on 47 path) of
        [] \<Rightarrow> []
      | [p] \<Rightarrow> p
      | p # q # ps \<Rightarrow> q)"

definition frame_mounted :: "copilot \<Rightarrow> bool" where
  "frame_mounted c \<longleftrightarrow> cp_ever_opened c \<and> \<not> cp_error c"

text \<open>What is posted to the frame's window, if there is one.\<close>

definition push_auth_and_context :: "copilot \<Rightarrow> parent_msg list" where
  "push_auth_and_context c =
     (case nonempty (cp_token c) of
        Some t \<Rightarrow> if frame_mounted c then [Auth_token_msg t, Page_context_msg (cp_path c) (derive_module_from_path (cp_path c))] else []
      | None \<Rightarrow> [])"

definition remount_iframe :: "copilot \<Rightarrow> copilot" where
  "remount_iframe c = c\<lparr>cp_ready := False, cp_error := False, cp_frame := Suc (cp_frame c)\<rparr>"

definition open_panel :: "copilot \<Rightarrow> copilot \<times> parent_msg list" where
  "open_panel c =
     (if cp_open c then (c, [])
      else let c1 = c\<lparr>cp_open := True, cp_ever_opened := True\<rparr>;
               c2 = (if cp_attempted c \<and> \<not> cp_ready c then remount_iframe c1 else c1)\<lparr>cp_attempted := True\<rparr>
        in (c2, if cp_ready c2 then push_auth_and_context c2 else []))"

definition close_panel :: "copilot \<Rightarrow> copilot" where
  "close_panel c = c\<lparr>cp_open := False\<rparr>"

definition ready_timeout :: "copilot \<Rightarrow> copilot" where
  "ready_timeout c = (if cp_open c \<and> cp_ever_opened c \<and> \<not> cp_error c \<and> \<not> cp_ready c then c\<lparr>cp_error := True\<rparr> else c)"

definition copilot_message :: "jstr \<Rightarrow> jstr \<Rightarrow> jstr \<Rightarrow> copilot \<Rightarrow> copilot \<times> parent_msg list" where
  "copilot_message h5 origin type c =
     (if cp_ever_opened c \<and> origin = h5 \<and> type = js ''AUTH_READY''
      then (c\<lparr>cp_ready := True, cp_error := False\<rparr>, push_auth_and_context c) else (c, []))"

definition repush :: "copilot \<Rightarrow> parent_msg list" where
  "repush c = (if cp_open c \<and> cp_ready c then push_auth_and_context c else [])"

definition token_changes :: "jstr option \<Rightarrow> copilot \<Rightarrow> copilot \<times> parent_msg list" where
  "token_changes t c = (c\<lparr>cp_token := t\<rparr>, if t = cp_token c then [] else repush (c\<lparr>cp_token := t\<rparr>))"

definition path_changes :: "jstr \<Rightarrow> copilot \<Rightarrow> copilot \<times> parent_msg list" where
  "path_changes p c = (c\<lparr>cp_path := p\<rparr>, if p = cp_path c then [] else repush (c\<lparr>cp_path := p\<rparr>))"

section \<open>The bridge\<close>

definition parse_parent_origins :: "jstr \<Rightarrow> jstr list" where
  "parse_parent_origins env = filter (\<lambda>s. s \<noteq> []) (map trim (split_on 44 env))"

record frame_window =
  fw_site :: site
  fw_context :: "(jstr \<times> jstr) option"

definition bridge_message :: "browser_lib \<Rightarrow> int \<Rightarrow> jstr list \<Rightarrow> jstr \<Rightarrow> parent_msg \<Rightarrow> frame_window \<Rightarrow> frame_window" where
  "bridge_message B now allowed origin m w =
     (if allowed = [] \<or> origin \<notin> set allowed then w
      else case m of
             Auth_token_msg t \<Rightarrow> w\<lparr>fw_site := site_token B now t (fw_site w)\<rparr>
           | Page_context_msg route module \<Rightarrow> w\<lparr>fw_context := Some (route, module)\<rparr>)"

section \<open>Both windows\<close>

record embedding =
  eb_parent :: copilot
  eb_child :: "frame_window option"
  eb_net :: chat_client  \<comment> \<open>the storage of the frame's origin while no frame is loaded\<close>
  eb_to_child :: "(jstr \<times> parent_msg) list"  \<comment> \<open>target origin and message\<close>
  eb_ready :: nat  \<comment> \<open>announcements on their way to the panel\<close>
  eb_tokens :: "jstr set"  \<comment> \<open>the tokens the panel has had\<close>

text \<open>The frame's window goes when the frame is mounted anew or taken away.\<close>

definition drop_frame :: "embedding \<Rightarrow> embedding" where
  "drop_frame e = e\<lparr>eb_net := (case eb_child e of Some w \<Rightarrow> ca_net (st_app (fw_site w)) | None \<Rightarrow> eb_net e),
     eb_child := None, eb_to_child := [], eb_ready := 0\<rparr>"

definition parent_acts :: "jstr \<Rightarrow> copilot \<times> parent_msg list \<Rightarrow> embedding \<Rightarrow> embedding" where
  "parent_acts h5 r e =
     (let e1 = (if cp_frame (fst r) \<noteq> cp_frame (eb_parent e) \<or> \<not> frame_mounted (fst r) then drop_frame e else e)
      in e1\<lparr>eb_parent := fst r, eb_to_child := eb_to_child e1 @ map (\<lambda>m. (h5, m)) (snd r)\<rparr>)"

definition frame_loads :: "browser_lib \<Rightarrow> int \<Rightarrow> embedding \<Rightarrow> embedding" where
  "frame_loads B now e =
     (if frame_mounted (eb_parent e) \<and> eb_child e = None
      then e\<lparr>eb_child := Some \<lparr>fw_site = load_site B now (js ''/chat'') True None (eb_net e), fw_context = None\<rparr>,
             eb_ready := Suc (eb_ready e)\<rparr>
      else e)"

definition child_receives :: "browser_lib \<Rightarrow> int \<Rightarrow> jstr list \<Rightarrow> jstr \<Rightarrow> parent_msg \<Rightarrow> embedding \<Rightarrow> embedding" where
  "child_receives B now allowed origin m e = e\<lparr>eb_child := map_option (bridge_message B now allowed origin m) (eb_child e)\<rparr>"

text \<open>The next message of the panel arrives, if the frame has the origin it is meant for.\<close>

definition deliver_to_child :: "browser_lib \<Rightarrow> int \<Rightarrow> jstr list \<Rightarrow> jstr \<Rightarrow> jstr \<Rightarrow> embedding \<Rightarrow> embedding" where
  "deliver_to_child B now allowed h5 po e =
     (case eb_to_child e of
        [] \<Rightarrow> e
      | (target, m) # ms \<Rightarrow>
          (let e1 = e\<lparr>eb_to_child := ms\<rparr> in if target = h5 then child_receives B now allowed po m e1 else e1))"

definition deliver_ready :: "jstr \<Rightarrow> embedding \<Rightarrow> embedding" where
  "deliver_ready h5 e =
     (if eb_ready e = 0 then e
      else parent_acts h5 (copilot_message h5 h5 (js ''AUTH_READY'') (eb_parent e)) (e\<lparr>eb_ready := eb_ready e - 1\<rparr>))"

definition change_token :: "jstr \<Rightarrow> jstr option \<Rightarrow> embedding \<Rightarrow> embedding" where
  "change_token h5 t e =
     (parent_acts h5 (token_changes t (eb_parent e)) e)\<lparr>eb_tokens := eb_tokens e \<union> set_option t\<rparr>"

text \<open>\<open>po\<close> is the origin of the administration pages, \<open>h5\<close> that of the chat frontend.\<close>

inductive embed_run :: "browser_lib \<Rightarrow> jstr list \<Rightarrow> jstr \<Rightarrow> jstr \<Rightarrow> embedding \<Rightarrow> bool" for B allowed h5 po where
  start: "embed_run B allowed h5 po
    \<lparr>eb_parent = \<lparr>cp_open = False, cp_ever_opened = False, cp_attempted = False, cp_ready = False, cp_error = False,
        cp_frame = 0, cp_token = token, cp_path = path\<rparr>,
     eb_child = None, eb_net = net, eb_to_child = [], eb_ready = 0, eb_tokens = set_option token\<rparr>"
| panel_opens: "embed_run B allowed h5 po e \<Longrightarrow> embed_run B allowed h5 po (parent_acts h5 (open_panel (eb_parent e)) e)"
| panel_closes: "embed_run B allowed h5 po e \<Longrightarrow> embed_run B allowed h5 po (parent_acts h5 (close_panel (eb_parent e), []) e)"
| times_out: "embed_run B allowed h5 po e \<Longrightarrow> embed_run B allowed h5 po (parent_acts h5 (ready_timeout (eb_parent e), []) e)"
| remount: "embed_run B allowed h5 po e \<Longrightarrow> embed_run B allowed h5 po (parent_acts h5 (remount_iframe (eb_parent e), []) e)"
| path: "embed_run B allowed h5 po e \<Longrightarrow> embed_run B allowed h5 po (parent_acts h5 (path_changes p (eb_parent e)) e)"
| new_token: "embed_run B allowed h5 po e \<Longrightarrow> embed_run B allowed h5 po (change_token h5 t e)"
| frame: "embed_run B allowed h5 po e \<Longrightarrow> embed_run B allowed h5 po (frame_loads B now e)"
| child_gets: "embed_run B allowed h5 po e \<Longrightarrow> embed_run B allowed h5 po (deliver_to_child B now allowed h5 po e)"
| parent_gets: "embed_run B allowed h5 po e \<Longrightarrow> embed_run B allowed h5 po (deliver_ready h5 e)"
| stranger_to_parent: "embed_run B allowed h5 po e
    \<Longrightarrow> embed_run B allowed h5 po (parent_acts h5 (copilot_message h5 origin type (eb_parent e)) e)"
| stranger_to_child: "embed_run B allowed h5 po e \<Longrightarrow> origin \<notin> set allowed
    \<Longrightarrow> embed_run B allowed h5 po (child_receives B now allowed origin m e)"
| child_waits: "embed_run B allowed h5 po e
    \<Longrightarrow> embed_run B allowed h5 po (e\<lparr>eb_child := map_option (fw_site_update (site_timeout B now)) (eb_child e)\<rparr>)"

section \<open>Whose login the frame has\<close>

definition app_ok :: "browser_lib \<Rightarrow> jstr set \<Rightarrow> chat_app \<Rightarrow> bool" where
  "app_ok B T a \<longleftrightarrow> (ca_authenticated a \<longrightarrow>
     (\<exists>t \<in> T. cn_access (ca_net a) = Some t \<and> ca_user a = token_user B t \<and> ca_user a \<noteq> None))"

lemma initialize_ok:
  assumes "app_ok B T a" "ca_authenticated a"
  shows "app_ok B T (initialize_auth B now url a)"
proof -
  from assms obtain t where t: "t \<in> T" "cn_access (ca_net a) = Some t" by (auto simp: app_ok_def)
  show ?thesis
    using t by (auto simp: initialize_auth_def app_ok_def forget_login_def token_user_def nonempty_eq_Some Let_def
        split: option.split)
qed

lemma show_screen_app [simp]: "st_app (show_screen s) = st_app s"
  by (simp add: show_screen_def)

lemma settle_ok: "app_ok B T (st_app s) \<Longrightarrow> app_ok B T (st_app (settle_site B now s))"
  by (auto simp: settle_site_def site_path_def Let_def dest: open_path_guards intro: initialize_ok)

lemma load_ok: "app_ok B T (st_app (load_site B now p f u net))"
  unfolding load_site_def by (rule settle_ok) (simp add: app_ok_def)

lemma token_ok: "t \<in> T \<Longrightarrow> app_ok B T (st_app (site_token B now t s))"
  unfolding site_token_def by (rule settle_ok) (auto simp: app_ok_def accept_embedded_token_def)

lemma timeout_ok: "app_ok B T (st_app s) \<Longrightarrow> app_ok B T (st_app (site_timeout B now s))"
  by (simp add: site_timeout_def settle_ok)

lemma app_ok_mono: "app_ok B T a \<Longrightarrow> T \<subseteq> U \<Longrightarrow> app_ok B U a"
  by (auto simp: app_ok_def)

definition window_ok :: "browser_lib \<Rightarrow> jstr list \<Rightarrow> jstr \<Rightarrow> jstr set \<Rightarrow> frame_window \<Rightarrow> bool" where
  "window_ok B allowed po T w \<longleftrightarrow> app_ok B T (st_app (fw_site w)) \<and> (ca_authenticated (st_app (fw_site w)) \<longrightarrow> po \<in> set allowed)"

definition msg_ok :: "jstr \<Rightarrow> jstr set \<Rightarrow> jstr \<times> parent_msg \<Rightarrow> bool" where
  "msg_ok h5 T om \<longleftrightarrow> fst om = h5 \<and> (\<forall>t. snd om = Auth_token_msg t \<longrightarrow> t \<in> T)"

definition embedding_ok :: "browser_lib \<Rightarrow> jstr list \<Rightarrow> jstr \<Rightarrow> jstr \<Rightarrow> embedding \<Rightarrow> bool" where
  "embedding_ok B allowed h5 po e \<longleftrightarrow>
     (\<forall>om \<in> set (eb_to_child e). msg_ok h5 (eb_tokens e) om)
     \<and> set_option (cp_token (eb_parent e)) \<subseteq> eb_tokens e
     \<and> (\<forall>w. eb_child e = Some w \<longrightarrow> window_ok B allowed po (eb_tokens e) w)"

lemma load_unauthenticated: "\<not> ca_authenticated (st_app (load_site B now p f u net))"
  by (simp add: load_site_def settle_unauthenticated)

lemma drop_frame_simps [simp]: "eb_child (drop_frame e) = None" "eb_to_child (drop_frame e) = []"
  "eb_tokens (drop_frame e) = eb_tokens e" "eb_parent (drop_frame e) = eb_parent e"
  by (simp_all add: drop_frame_def)

lemma parent_acts_simps [simp]: "eb_tokens (parent_acts h5 r e) = eb_tokens e" "eb_parent (parent_acts h5 r e) = fst r"
  by (simp_all add: parent_acts_def Let_def)

lemma push_ok: "m \<in> set (push_auth_and_context c) \<Longrightarrow> m = Auth_token_msg t \<Longrightarrow> cp_token c = Some t"
  by (cases "nonempty (cp_token c)") (auto simp: push_auth_and_context_def nonempty_eq_Some split: if_splits)

lemma parent_acts_ok:
  assumes "embedding_ok B allowed h5 po e" "set_option (cp_token (fst r)) \<subseteq> eb_tokens e"
    and "\<And>t. Auth_token_msg t \<in> set (snd r) \<Longrightarrow> t \<in> eb_tokens e"
  shows "embedding_ok B allowed h5 po (parent_acts h5 r e)"
  using assms by (auto simp: embedding_ok_def parent_acts_def Let_def msg_ok_def)

text \<open>What the panel does of its own accord keeps its token and posts no other.\<close>

definition keeps_token :: "copilot \<Rightarrow> copilot \<times> parent_msg list \<Rightarrow> bool" where
  "keeps_token c r \<longleftrightarrow> cp_token (fst r) = cp_token c \<and> (\<forall>t. Auth_token_msg t \<in> set (snd r) \<longrightarrow> cp_token c = Some t)"

lemma keeps_token_simps [simp]: "keeps_token c (open_panel c)" "keeps_token c (close_panel c, [])"
  "keeps_token c (ready_timeout c, [])" "keeps_token c (remount_iframe c, [])" "keeps_token c (path_changes p c)"
  "keeps_token c (copilot_message h5 origin type c)"
  using push_ok by (fastforce simp: keeps_token_def open_panel_def close_panel_def ready_timeout_def remount_iframe_def
      path_changes_def copilot_message_def repush_def Let_def)+

lemma keeps_token_ok:
  "embedding_ok B allowed h5 po e \<Longrightarrow> keeps_token (eb_parent e) r \<Longrightarrow> embedding_ok B allowed h5 po (parent_acts h5 r e)"
  by (rule parent_acts_ok) (auto simp: keeps_token_def embedding_ok_def)

lemma change_token_ok:
  assumes "embedding_ok B allowed h5 po e"
  shows "embedding_ok B allowed h5 po (change_token h5 t e)"
proof -
  let ?e = "e\<lparr>eb_tokens := eb_tokens e \<union> set_option t\<rparr>"
  have "embedding_ok B allowed h5 po ?e"
    using assms app_ok_mono [of B "eb_tokens e" _ "eb_tokens e \<union> set_option t"]
    by (auto simp: embedding_ok_def window_ok_def msg_ok_def)
  moreover have "change_token h5 t e = parent_acts h5 (token_changes t (eb_parent e)) ?e"
    by (cases "eb_child e") (simp_all add: change_token_def parent_acts_def drop_frame_def Let_def)
  moreover have "u \<in> set_option t" if "Auth_token_msg u \<in> set (push_auth_and_context (eb_parent e\<lparr>cp_token := t\<rparr>))" for u
    using push_ok [OF that] by simp
  ultimately show ?thesis
    by (auto intro!: parent_acts_ok simp: token_changes_def repush_def split: if_splits)
qed

lemma bridge_ok:
  assumes "window_ok B allowed po T w" "origin = po \<or> origin \<notin> set allowed" "\<And>t. m = Auth_token_msg t \<Longrightarrow> origin = po \<Longrightarrow> t \<in> T"
  shows "window_ok B allowed po T (bridge_message B now allowed origin m w)"
  using assms token_ok by (auto simp: bridge_message_def window_ok_def split: parent_msg.split)

lemma child_receives_ok:
  assumes "embedding_ok B allowed h5 po e" "origin = po \<or> origin \<notin> set allowed"
    "\<And>t. m = Auth_token_msg t \<Longrightarrow> origin = po \<Longrightarrow> t \<in> eb_tokens e"
  shows "embedding_ok B allowed h5 po (child_receives B now allowed origin m e)"
  using assms bridge_ok by (auto simp: embedding_ok_def child_receives_def)

lemma deliver_to_child_ok:
  assumes "embedding_ok B allowed h5 po e"
  shows "embedding_ok B allowed h5 po (deliver_to_child B now allowed h5 po e)"
proof (cases "eb_to_child e")
  case Nil
  then show ?thesis using assms by (simp add: deliver_to_child_def)
next
  case (Cons om ms)
  obtain target m where om: "om = (target, m)" by fastforce
  have e1: "embedding_ok B allowed h5 po (e\<lparr>eb_to_child := ms\<rparr>)" using assms Cons by (simp add: embedding_ok_def)
  have "\<And>t. m = Auth_token_msg t \<Longrightarrow> t \<in> eb_tokens e" using assms Cons om by (simp add: embedding_ok_def msg_ok_def)
  then show ?thesis
    using child_receives_ok [OF e1, of po m now] e1 Cons om by (simp add: deliver_to_child_def Let_def)
qed

lemma frame_loads_ok: "embedding_ok B allowed h5 po e \<Longrightarrow> embedding_ok B allowed h5 po (frame_loads B now e)"
  by (simp add: frame_loads_def embedding_ok_def window_ok_def load_ok load_unauthenticated)

lemma deliver_ready_ok: "embedding_ok B allowed h5 po e \<Longrightarrow> embedding_ok B allowed h5 po (deliver_ready h5 e)"
  unfolding deliver_ready_def by (auto intro!: keeps_token_ok) (simp_all add: embedding_ok_def)

lemma child_waits_ok:
  assumes "embedding_ok B allowed h5 po e"
  shows "embedding_ok B allowed h5 po (e\<lparr>eb_child := map_option (fw_site_update (site_timeout B now)) (eb_child e)\<rparr>)"
proof -
  have "window_ok B allowed po T (fw_site_update (site_timeout B now) w)" if "window_ok B allowed po T w" for T w
  proof -
    have "ca_authenticated (st_app (site_timeout B now (fw_site w))) \<Longrightarrow> ca_authenticated (st_app (fw_site w))"
      by (auto simp: site_timeout_def settle_unauthenticated split: if_splits)
    then show ?thesis using that timeout_ok by (auto simp: window_ok_def)
  qed
  then show ?thesis using assms by (auto simp: embedding_ok_def)
qed

lemma embed_run_ok: "embed_run B allowed h5 po e \<Longrightarrow> embedding_ok B allowed h5 po e"
proof (induction rule: embed_run.induct)
  case (start token path net)
  then show ?case by (simp add: embedding_ok_def)
next
  case (stranger_to_child e origin now m)
  then show ?case
    by (cases "origin = po") (auto intro!: child_receives_ok simp: embedding_ok_def child_receives_def bridge_message_def)
qed (simp_all add: keeps_token_ok change_token_ok frame_loads_ok deliver_to_child_ok deliver_ready_ok child_waits_ok)


section \<open>The handshake\<close>

definition handshake :: "browser_lib \<Rightarrow> int \<Rightarrow> jstr list \<Rightarrow> jstr \<Rightarrow> jstr \<Rightarrow> embedding \<Rightarrow> embedding" where
  "handshake B now allowed h5 po e =
     deliver_to_child B now allowed h5 po (deliver_ready h5 (frame_loads B now e))"

lemma handshake_child:
  assumes "cp_ever_opened c" "\<not> cp_error c" "cp_token c = Some t" "t \<noteq> []" "po \<in> set allowed"
    and "eb_parent e = c" "eb_child e = None" "eb_to_child e = []" "eb_ready e = 0"
  shows "eb_child (handshake B now allowed h5 po e) =
    Some \<lparr>fw_site = site_token B now t (load_site B now (js ''/chat'') True None (eb_net e)), fw_context = None\<rparr>"
proof -
  have p: "push_auth_and_context c = [Auth_token_msg t, Page_context_msg (cp_path c) (derive_module_from_path (cp_path c))]"
    using assms(1-4) by (simp add: push_auth_and_context_def frame_mounted_def nonempty_eq_Some[THEN iffD2])
  have "allowed \<noteq> []" using assms(5) by auto
  then show ?thesis
    using assms p
    by (simp add: handshake_def frame_loads_def frame_mounted_def deliver_ready_def copilot_message_def parent_acts_def
        deliver_to_child_def child_receives_def bridge_message_def Let_def)
qed

lemma accepted_shows_chat:
  assumes "t \<noteq> []" "decode_jwt_payload B t = Some p" "truthy p" "\<not> token_expired now p"
  shows "let s = site_token B now t (load_site B now (js ''/chat'') True None net) in
    st_screen s = Some Chat_screen \<and> ca_authenticated (st_app s) \<and> ca_user (st_app s) = Some (build_auth_user p)"
proof -
  have n: "nonempty (Some t) = Some t" using assms(1) by (simp add: nonempty_eq_Some)
  have u: "token_user B t = Some (build_auth_user p)" using assms(2,3) by (simp add: token_user_def)
  have path: "open_path a True tm (js ''/chat'') = (if a then Chat_screen else if tm then Timed_out_screen else Waiting_screen, js ''/chat'')" for a tm
    by (simp add: open_path_def require_auth_def admin_pages_def admin_redirects_def)
  show ?thesis
    by (simp add: load_site_def settle_unauthenticated show_screen_def site_path_def path site_token_def settle_site_def
        accept_embedded_token_def u initialize_auth_def n assms Let_def)
qed

text \<open>
  C27: When the panel is opened, the frame loads and the announcement and the token arrive, the chat page
  is on the screen and its user is the user of the panel's token, provided the frame trusts the
  administration pages and the token can be read and has not expired.
\<close>

theorem handshake_logs_in:
  assumes "cp_ever_opened c" "\<not> cp_error c" "cp_token c = Some t" "t \<noteq> []" "po \<in> set allowed"
    and "eb_parent e = c" "eb_child e = None" "eb_to_child e = []" "eb_ready e = 0"
    and "decode_jwt_payload B t = Some p" "truthy p" "\<not> token_expired now p"
  shows "\<exists>w. eb_child (handshake B now allowed h5 po e) = Some w \<and> st_screen (fw_site w) = Some Chat_screen
    \<and> ca_authenticated (st_app (fw_site w)) \<and> ca_user (st_app (fw_site w)) = Some (build_auth_user p)"
  using handshake_child [OF assms(1-9), of B now h5] accepted_shows_chat [OF assms(4,10-12), of "eb_net e"]
  by (simp add: Let_def)

abbreviation demo_browser :: browser_lib where
  "demo_browser \<equiv> same_browser (demo_jwt named_claims)"

definition closed_panel :: embedding where
  "closed_panel =
    \<lparr>eb_parent = \<lparr>cp_open = False, cp_ever_opened = False, cp_attempted = False, cp_ready = False, cp_error = False,
        cp_frame = 0, cp_token = Some (js ''h.pppp.xxxx''), cp_path = js ''/system/user''\<rparr>,
     eb_child = None, eb_net = fresh_client, eb_to_child = [], eb_ready = 0, eb_tokens = set_option (Some (js ''h.pppp.xxxx''))\<rparr>"

definition opened_panel :: embedding where
  "opened_panel = parent_acts (js ''https://h5'') (open_panel (eb_parent closed_panel)) closed_panel"

lemma opened_panel_facts:
  "cp_ever_opened (eb_parent opened_panel)" "\<not> cp_error (eb_parent opened_panel)"
  "cp_token (eb_parent opened_panel) = Some (js ''h.pppp.xxxx'')" "eb_child opened_panel = None"
  "eb_to_child opened_panel = []" "eb_ready opened_panel = 0"
  by (simp_all add: opened_panel_def closed_panel_def open_panel_def parent_acts_def frame_mounted_def Let_def)

lemma opened_panel_run: "embed_run demo_browser [js ''https://mis''] (js ''https://h5'') (js ''https://mis'') opened_panel"
  unfolding opened_panel_def closed_panel_def by (intro embed_run.panel_opens embed_run.start)

lemma demo_payload: "decode_jwt_payload demo_browser (js ''h.pppp.xxxx'') = Some (JObj named_claims)"
proof -
  have "split_on 46 (js ''h.pppp.xxxx'') = [js ''h'', js ''pppp'', js ''xxxx'']" by (simp add: js_def)
  then show ?thesis by (simp add: decode_jwt_payload_def payload_text_def same_browser_def demo_jwt_def)
qed

lemma handshake_logs_in_witness:
  "\<exists>w. eb_child (handshake demo_browser 0 [js ''https://mis''] (js ''https://h5'') (js ''https://mis'') opened_panel) = Some w
     \<and> ca_authenticated (st_app (fw_site w))"
proof -
  have "js ''h.pppp.xxxx'' \<noteq> []" "js ''https://mis'' \<in> set [js ''https://mis'']" by simp_all
  moreover have "truthy (JObj named_claims)" "\<not> token_expired 0 (JObj named_claims)"
    by (simp_all add: token_expired_def named_claims_def field_of_def)
  ultimately show ?thesis
    using handshake_logs_in [OF opened_panel_facts(1-3) _ _ refl opened_panel_facts(4-6) demo_payload] by blast
qed


text \<open>
  Logging out of the administration pages says nothing to the frame: no message is posted, and the
  assistant stays logged in as the user who left.
\<close>

theorem frame_outlives_logout:
  "let e' = change_token h5 None e in
    eb_to_child e' = (if frame_mounted (eb_parent e) then eb_to_child e else [])
    \<and> eb_child e' = (if frame_mounted (eb_parent e) then eb_child e else None)"
  by (simp add: change_token_def parent_acts_def token_changes_def repush_def push_auth_and_context_def frame_mounted_def Let_def)

end
