(* ===== verification/Skill_Builder.thy ===== *)
theory Skill_Builder
  imports Bot_Cards
begin

text \<open>
  The conversation that writes a skill, frontend/mis-admin-web/src/features/agent/skills/
  skill-builder-utils.ts: the SKILL.md is taken out of the answer's code block, the parsed
  metadata fills the form, and the changed members are marked. Parsing the YAML is a call of the
  server.
\<close>

section \<open>Searching\<close>

text \<open>\<open>s.indexOf(t, i)\<close> and \<open>s.lastIndexOf(t)\<close>, \<open>None\<close> for -1.\<close>

definition index_from :: "'a list \<Rightarrow> nat \<Rightarrow> 'a list \<Rightarrow> nat option" where
  "index_from t i s = find (\<lambda>j. prefix t (drop j s)) [i..<Suc (length s)]"

definition last_index_of :: "'a list \<Rightarrow> 'a list \<Rightarrow> nat option" where
  "last_index_of t s = find (\<lambda>j. prefix t (drop j s)) (rev [0..<Suc (length s)])"

lemma index_from_Some:
  assumes "index_from t i s = Some j"
  shows "i \<le> j \<and> prefix t (drop j s) \<and> (\<forall>k. i \<le> k \<and> k < j \<longrightarrow> \<not> prefix t (drop k s))"
proof -
  let ?u = "[i..<Suc (length s)]"
  from assms obtain m where m: "m < length ?u" "prefix t (drop (?u ! m) s)" "j = ?u ! m"
    "\<forall>k < m. \<not> prefix t (drop (?u ! k) s)"
    unfolding index_from_def find_Some_iff by blast
  then have j: "j = i + m" by (simp only: nth_upt length_upt less_diff_conv add.commute)
  have "\<not> prefix t (drop k s)" if "i \<le> k" "k < j" for k
  proof -
    have "?u ! (k - i) = k" using that m(1) j by (simp del: upt_Suc)
    moreover have "k - i < m" using that j by simp
    ultimately show ?thesis using m(4) by metis
  qed
  with m j show ?thesis by auto
qed

lemma index_from_bound: "index_from t i s = Some j \<Longrightarrow> t \<noteq> [] \<Longrightarrow> j < length s"
  using index_from_Some [of t i s j] by (cases "length s \<le> j") auto

lemma index_from_None: "index_from t i s = None \<longleftrightarrow> (\<forall>k. i \<le> k \<and> k \<le> length s \<longrightarrow> \<not> prefix t (drop k s))"
  by (auto simp: index_from_def find_None_iff)

lemma index_from_eq:
  assumes "prefix t (drop j s)" "i \<le> j" "t \<noteq> []" "\<And>k. i \<le> k \<Longrightarrow> k < j \<Longrightarrow> \<not> prefix t (drop k s)"
  shows "index_from t i s = Some j"
proof -
  have "j \<le> length s" using assms(1,3) by (cases "length s \<le> j") auto
  then have "index_from t i s \<noteq> None" using assms(1,2) by (auto simp: index_from_None)
  then obtain k where k: "index_from t i s = Some k" by auto
  from index_from_Some [OF this] have "k = j"
    using assms by (metis linorder_neqE_nat)
  with k show ?thesis by simp
qed

lemma find_appended: "find P (xs @ ys) = (case find P xs of Some x \<Rightarrow> Some x | None \<Rightarrow> find P ys)"
  by (induction xs) auto

lemma last_index_of_eq:
  assumes "prefix t (drop j s)" "t \<noteq> []" "\<And>k. j < k \<Longrightarrow> \<not> prefix t (drop k s)"
  shows "last_index_of t s = Some j"
proof -
  have j: "j \<le> length s" using assms(1,2) by (cases "length s \<le> j") auto
  have "rev [0..<Suc (length s)] = rev [Suc j..<Suc (length s)] @ j # rev [0..<j]"
  proof -
    have "[0..<Suc (length s)] = [0..<j] @ j # [Suc j..<Suc (length s)]"
      using j upt_add_eq_append [of 0 j "Suc (length s) - j"] upt_conv_Cons [of j "Suc (length s)"] by (simp del: upt_Suc)
    then show ?thesis by (simp only: rev_append rev.simps append_assoc append.simps)
  qed
  moreover have "find (\<lambda>k. prefix t (drop k s)) (rev [Suc j..<Suc (length s)]) = None"
    unfolding find_None_iff using assms(3) by (metis atLeastLessThan_iff less_eq_Suc_le set_rev set_upt)
  ultimately show ?thesis
    using assms(1) by (simp add: last_index_of_def find_appended)
qed

section \<open>Fences\<close>

definition fence :: jstr where
  "fence = js ''```''"

text \<open>The loop of \<open>countFences\<close> from index \<open>i\<close> on.\<close>

function count_from :: "jstr \<Rightarrow> nat \<Rightarrow> nat" where
  "count_from src i =
     (if i < length src then (case index_from fence i src of None \<Rightarrow> 0 | Some found \<Rightarrow> Suc (count_from src (found + 3))) else 0)"
  by pat_completeness auto
termination
  by (relation "measure (\<lambda>(src, i). length src - i)") (auto dest: index_from_Some)

declare count_from.simps [simp del]

definition count_fences :: "jstr \<Rightarrow> nat" where
  "count_fences src = count_from src 0"

definition fence_info :: "jstr \<Rightarrow> nat \<Rightarrow> jstr" where
  "fence_info src pos =
     (let line_end = (case index_from [10] (pos + 3) src of None \<Rightarrow> length src | Some nl \<Rightarrow> nl)
      in trim (slice (pos + 3) line_end src))"

definition extract_skill_md :: "jstr \<Rightarrow> jstr option" where
  "extract_skill_md src =
     (case index_from fence 0 src of
        None \<Rightarrow> None
      | Some opening \<Rightarrow>
          (case index_from [10] (opening + 3) src of
             None \<Rightarrow> None
           | Some nl \<Rightarrow>
               (let close = default_to 0 (last_index_of fence src);
                    to_eof = (odd (count_fences src) \<or> fence_info src close \<noteq> [] \<or> close \<le> nl)
                in nonempty (Some (trim (if to_eof then drop (nl + 1) src else slice (nl + 1) close src))))))"

section \<open>Filling the form\<close>

record skill_form =
  sk_id :: jstr
  sk_name :: jstr
  sk_description :: jstr
  sk_category :: jstr
  sk_tags :: jstr
  sk_handler :: jstr

definition meta_str :: "jobj \<Rightarrow> jstr \<Rightarrow> jstr" where
  "meta_str meta key = default_to [] (as_string (field_of meta key))"

definition meta_tags :: "jobj \<Rightarrow> jstr" where
  "meta_tags meta =
     (case field_of meta (js ''tags'') of
        JArr vs \<Rightarrow> join (js '', '') (List.map_filter as_string vs)
      | v \<Rightarrow> default_to [] (as_string v))"

text \<open>\<open>s || t\<close> on strings.\<close>

definition str_or :: "jstr \<Rightarrow> jstr \<Rightarrow> jstr" where
  "str_or s t = (if s = [] then t else s)"

definition apply_parsed_skill :: "jobj \<Rightarrow> jstr option \<Rightarrow> skill_form \<Rightarrow> skill_form \<times> jstr" where
  "apply_parsed_skill meta body current =
     (current\<lparr>sk_name := str_or (meta_str meta (js ''name'')) (sk_name current),
              sk_description := str_or (meta_str meta (js ''description'')) (sk_description current),
              sk_category := str_or (meta_str meta (js ''category'')) (sk_category current),
              sk_tags := str_or (meta_tags meta) (sk_tags current),
              sk_handler := str_or (meta_str meta (js ''handler'')) (sk_handler current)\<rparr>,
      default_to [] body)"

definition highlight_keys :: "(jstr \<times> (skill_form \<Rightarrow> jstr)) list" where
  "highlight_keys = [(js ''id'', sk_id), (js ''name'', sk_name), (js ''description'', sk_description),
     (js ''category'', sk_category), (js ''tags'', sk_tags), (js ''handler'', sk_handler)]"

definition diff_highlight :: "skill_form \<Rightarrow> skill_form \<Rightarrow> jstr list" where
  "diff_highlight before after = map fst (filter (\<lambda>(k, f). f before \<noteq> f after) highlight_keys)"

section \<open>The block that is taken out\<close>

text \<open>A second form of the count, over the rest of the text.\<close>

fun fences :: "jstr \<Rightarrow> nat" where
  "fences [] = 0"
| "fences (c # s) = (if prefix fence (c # s) then Suc (fences (drop 2 s)) else fences s)"

lemma fence_eq: "fence = [96, 96, 96]"
  by (simp add: fence_def js_def)

lemma fences_skip: "(\<And>k. k < j \<Longrightarrow> \<not> prefix fence (drop k s)) \<Longrightarrow> fences s = fences (drop j s)"
proof (induction j arbitrary: s)
  case (Suc j)
  show ?case
  proof (cases s)
    case (Cons c u)
    have "\<not> prefix fence (c # u)" using Suc.prems [of 0] Cons by simp
    moreover have "\<not> prefix fence (drop k u)" if "k < j" for k using Suc.prems [of "Suc k"] Cons that by simp
    ultimately show ?thesis using Suc.IH [of u] Cons by simp
  qed simp
qed simp

lemma fences_prefix: "prefix fence s \<Longrightarrow> fences s = Suc (fences (drop 3 s))"
  by (cases s) (auto simp: fence_eq numeral_3_eq_3 numeral_2_eq_2)

lemma count_from_fences: "count_from src i = fences (drop i src)"
proof (induction src i rule: count_from.induct)
  case (1 src i)
  show ?case
  proof (cases "index_from fence i src")
    case None
    then have "\<not> prefix fence (drop k (drop i src))" for k
      by (cases "i + k \<le> length src") (auto simp: index_from_None add.commute fence_eq)
    then have "fences (drop i src) = fences (drop (length src) (drop i src))" by (intro fences_skip) blast
    with None show ?thesis by (subst count_from.simps) simp
  next
    case (Some found)
    have f: "i \<le> found" "prefix fence (drop found src)" "\<And>k. i \<le> k \<Longrightarrow> k < found \<Longrightarrow> \<not> prefix fence (drop k src)"
      using index_from_Some [OF Some] by auto
    have l: "found < length src" using index_from_bound [OF Some] by (simp add: fence_eq)
    have "fences (drop i src) = fences (drop (found - i) (drop i src))"
      by (rule fences_skip) (simp add: f(3) less_diff_conv add.commute)
    also have "\<dots> = Suc (fences (drop (found + 3) src))"
      using f(1,2) by (simp add: fences_prefix add.commute)
    finally show ?thesis using 1 Some f(1) l by (subst count_from.simps) simp
  qed
qed

lemma count_fences_eq: "count_fences src = fences src"
  by (simp add: count_fences_def count_from_fences)

lemma fence_not_over: "c \<noteq> 96 \<Longrightarrow> prefix fence (s @ c # t) \<longleftrightarrow> prefix fence s"
  by (auto simp: fence_eq prefix_def Cons_eq_append_conv append_eq_Cons_conv)

lemma fences_append: "c \<noteq> 96 \<Longrightarrow> fences (s @ c # t) = fences s + fences t"
proof (induction s rule: fences.induct)
  case 1
  then show ?case by (simp add: fence_eq)
next
  case (2 d s)
  show ?case
  proof (cases "prefix fence (d # s)")
    case True
    then have l: "2 \<le> length s" by (auto simp: fence_eq prefix_def)
    then have "drop 2 (s @ c # t) = drop 2 s @ c # t" by simp
    with 2 True show ?thesis using fence_not_over [of c "d # s" t] by simp
  next
    case False
    with 2 show ?thesis using fence_not_over [of c "d # s" t] by simp
  qed
qed

lemma fences_none: "96 \<notin> set s \<Longrightarrow> fences s = 0"
  by (induction s) (auto simp: fence_eq)

lemma fence_at:
  assumes "prefix fence (drop k s)"
  shows "k + 2 < length s \<and> s ! k = 96 \<and> s ! (k + 2) = 96"
proof -
  from assms obtain u where u: "drop k s = [96, 96, 96] @ u" by (auto simp: fence_eq prefix_def)
  then have "length (drop k s) = length u + 3" by simp
  then have l: "k + 2 < length s" by simp
  then show ?thesis using nth_drop [of k s 0] nth_drop [of k s 2] u by simp
qed

lemma trim_newline: "trim s \<noteq> [] \<Longrightarrow> trim (s @ [10]) = trim s"
proof -
  assume "trim s \<noteq> []"
  then obtain c where "c \<in> set s" "\<not> is_ws c" by (auto simp: trim_eq_Nil)
  then have "dropWhile is_ws (s @ [10]) = dropWhile is_ws s @ [10]" by simp
  then show ?thesis by (simp add: trim_def is_ws_def)
qed

lemma drop_past: "n = length xs + m \<Longrightarrow> drop n (xs @ ys) = drop m ys"
  by simp

text \<open>An answer with one outer block.\<close>

definition skill_answer :: "jstr \<Rightarrow> jstr \<Rightarrow> jstr \<Rightarrow> jstr \<Rightarrow> jstr" where
  "skill_answer pre info body post = pre @ fence @ info @ [10] @ body @ [10] @ fence @ post"

definition plain_line :: "jstr \<Rightarrow> bool" where
  "plain_line s \<longleftrightarrow> 96 \<notin> set s \<and> 10 \<notin> set s"

definition plain_rest :: "jstr \<Rightarrow> bool" where
  "plain_rest s \<longleftrightarrow> 96 \<notin> set s \<and> (s = [] \<or> hd s = 10)"

lemma answer_opening:
  assumes "96 \<notin> set pre"
  shows "index_from fence 0 (skill_answer pre info body post) = Some (length pre)"
proof (rule index_from_eq)
  show "\<not> prefix fence (drop k (skill_answer pre info body post))" if "k < length pre" for k
  proof
    assume "prefix fence (drop k (skill_answer pre info body post))"
    then have "skill_answer pre info body post ! k = 96" by (blast dest: fence_at)
    then have "pre ! k = 96" using that by (simp add: skill_answer_def nth_append)
    with that assms show False by (metis nth_mem)
  qed
qed (simp_all add: skill_answer_def fence_eq)

lemma answer_newline:
  assumes "plain_line info"
  shows "index_from [10] (length pre + 3) (skill_answer pre info body post) = Some (length pre + 3 + length info)"
proof (rule index_from_eq)
  show "\<not> prefix [10] (drop k (skill_answer pre info body post))"
    if k: "length pre + 3 \<le> k" "k < length pre + 3 + length info" for k
  proof -
    obtain m where m: "k = length pre + 3 + m" "m < length info" using k by (auto simp: le_iff_add)
    then have "drop k (skill_answer pre info body post) = drop m info @ [10] @ body @ [10] @ fence @ post"
      using drop_past [of k "pre @ fence" m "info @ [10] @ body @ [10] @ fence @ post"]
      by (simp add: skill_answer_def fence_eq del: drop_append) (simp add: drop_append)
    moreover have "drop m info = info ! m # drop (Suc m) info" using m(2) by (simp add: Cons_nth_drop_Suc)
    moreover have "info ! m \<noteq> 10" using assms m(2) by (metis nth_mem plain_line_def)
    ultimately show ?thesis by simp
  qed
  show "prefix [10] (drop (length pre + 3 + length info) (skill_answer pre info body post))"
    using drop_past [of "length pre + 3 + length info" "pre @ fence @ info" 0] by (simp add: skill_answer_def fence_eq)
qed simp_all

definition close_at :: "jstr \<Rightarrow> jstr \<Rightarrow> jstr \<Rightarrow> nat" where
  "close_at pre info body = length (pre @ fence @ info @ [10] @ body @ [10])"

lemma drop_close: "drop (close_at pre info body) (skill_answer pre info body post) = fence @ post"
proof -
  have "skill_answer pre info body post = (pre @ fence @ info @ [10] @ body @ [10]) @ fence @ post" by (simp add: skill_answer_def)
  then show ?thesis using drop_past [of "close_at pre info body" _ 0] by (metis add_0_right close_at_def drop_0)
qed

lemma answer_close:
  assumes "96 \<notin> set post"
  shows "last_index_of fence (skill_answer pre info body post) = Some (close_at pre info body)"
proof (rule last_index_of_eq)
  show "\<not> prefix fence (drop k (skill_answer pre info body post))" if k: "close_at pre info body < k" for k
  proof
    let ?s = "skill_answer pre info body post"
    assume f: "prefix fence (drop k ?s)"
    have "drop k ?s = drop (k - close_at pre info body) (fence @ post)"
      using k drop_drop [of "k - close_at pre info body" "close_at pre info body" ?s] by (simp add: drop_close)
    with f have "prefix fence (drop (k - close_at pre info body) (fence @ post))" by simp
    then have d: "k - close_at pre info body + 2 < length (fence @ post)" "(fence @ post) ! (k - close_at pre info body + 2) = 96"
      by (blast dest: fence_at)+
    obtain m where m: "k - close_at pre info body = Suc m" using k by (metis Suc_diff_Suc)
    with d have "m < length post" "post ! m = 96" by (simp_all add: fence_eq)
    with assms show False by (metis nth_mem)
  qed
qed (simp_all add: drop_close, simp add: fence_eq)

lemma answer_info:
  assumes "plain_rest post"
  shows "fence_info (skill_answer pre info body post) (close_at pre info body) = []"
proof -
  let ?s = "skill_answer pre info body post" and ?c = "close_at pre info body"
  have d: "drop (?c + 3) ?s = post"
    using arg_cong [OF drop_close [of pre info body post], of "drop 3"] by (simp add: add.commute fence_eq)
  show ?thesis
  proof (cases post)
    case Nil
    with d have l: "length ?s \<le> ?c + 3" by simp
    then show ?thesis by (cases "index_from [10] (?c + 3) ?s") (simp_all add: fence_info_def slice_def)
  next
    case (Cons c u)
    with assms d have "prefix [10] (drop (?c + 3) ?s)" by (simp add: plain_rest_def)
    then have "index_from [10] (?c + 3) ?s = Some (?c + 3)" by (intro index_from_eq) simp_all
    then show ?thesis by (simp add: fence_info_def slice_def)
  qed
qed

lemma answer_fences:
  assumes "96 \<notin> set pre" "plain_line info" "plain_rest post"
  shows "even (fences (skill_answer pre info body post)) \<longleftrightarrow> even (fences body)"
proof -
  have close: "fences (fence @ post) = 1"
    using assms(3) by (subst fences_prefix) (simp_all add: fence_eq fences_none plain_rest_def)
  have info: "fences (info @ u) = fences u" if "96 \<notin> set info" for info u
    using that by (induction info) (auto simp: fence_eq)
  have "fences (fence @ info) = 1"
    using assms(2) by (subst fences_prefix) (simp_all add: fence_eq fences_none plain_line_def)
  then have "fences (fence @ info @ 10 # body @ 10 # fence @ post) = 1 + (fences body + 1)"
    using fences_append [of 10 "fence @ info" "body @ 10 # fence @ post"] fences_append [of 10 body "fence @ post"] close by simp
  then show ?thesis using info [OF assms(1)] by (simp add: skill_answer_def)
qed

text \<open>
  C32: A SKILL.md that the answer puts in one code block comes out of it whole, examples in inner
  blocks included, whatever plain text stands before and after the block. When the fences in it
  do not pair up, the closing fence and the text after it are taken along.
\<close>

theorem skill_block_round_trip:
  assumes "96 \<notin> set pre" "plain_line info" "plain_rest post" "trim body \<noteq> []"
  shows "extract_skill_md (skill_answer pre info body post) =
    Some (if even (fences body) then trim body else trim (body @ [10] @ fence @ post))"
proof -
  let ?s = "skill_answer pre info body post" and ?nl = "length pre + 3 + length info"
  have d: "drop (?nl + 1) ?s = body @ [10] @ fence @ post"
    using drop_past [of "?nl + 1" "pre @ fence @ info @ [10]" 0] by (simp add: skill_answer_def fence_eq)
  let ?c = "close_at pre info body"
  have c: "?c = ?nl + 1 + (length body + 1)" by (simp add: close_at_def fence_eq)
  have s: "slice (?nl + 1) ?c ?s = body @ [10]"
    using d by (simp add: slice_def c del: drop_append)
  have le: "\<not> ?c \<le> ?nl" using c by simp
  obtain x where x: "x \<in> set body" "\<not> is_ws x" using assms(4) by (auto simp: trim_eq_Nil)
  then have n: "trim (body @ [10] @ fence @ post) \<noteq> []" by (auto simp: trim_eq_Nil)
  have "96 \<notin> set post" using assms(3) by (simp add: plain_rest_def)
  note facts = answer_opening [OF assms(1)] answer_newline [OF assms(2)] answer_close [OF this] answer_info [OF assms(3)]
  have "odd (count_fences ?s) = odd (fences body)"
    using answer_fences [OF assms(1-3)] by (simp add: count_fences_eq)
  then have "extract_skill_md ?s = nonempty (Some (trim (if odd (fences body) then body @ [10] @ fence @ post else body @ [10])))"
    unfolding extract_skill_md_def Let_def facts option.case default_to_simps d s using le by simp
  then show ?thesis using n assms(4) by (auto simp: trim_newline nonempty_eq_Some)
qed

lemma skill_block_round_trip_witness:
  "extract_skill_md (skill_answer (js ''Here:'') (js ''SKILL.md'') (js ''name: a'' @ [10] @ fence @ js ''json'' @ [10] @ fence) []) =
    Some (js ''name: a'' @ [10] @ fence @ js ''json'' @ [10] @ fence)"
proof -
  let ?b = "js ''name: a'' @ [10] @ fence @ js ''json'' @ [10] @ fence"
  have "96 \<notin> set (js ''Here:'')" "plain_line (js ''SKILL.md'')" "plain_rest []" "trim ?b = ?b" "even (fences ?b)" "?b \<noteq> []"
    by code_simp+
  then show ?thesis using skill_block_round_trip [of "js ''Here:''" "js ''SKILL.md''" "[]" ?b] by simp
qed

section \<open>The form after an answer\<close>

text \<open>
  Filling the form never empties a member and never changes the identifier; filling it twice with
  the same metadata changes nothing more; and the marked members are exactly those whose parsed
  value is not empty and differs from what the form held.
\<close>

theorem parsed_skill_fills_form:
  "let form' = fst (apply_parsed_skill meta body form) in
    sk_id form' = sk_id form
    \<and> (\<forall>f \<in> set (map snd highlight_keys). f form \<noteq> [] \<longrightarrow> f form' \<noteq> [])
    \<and> fst (apply_parsed_skill meta body form') = form'
    \<and> diff_highlight form form' =
        map fst (filter (\<lambda>(k, parsed, old). parsed \<noteq> [] \<and> parsed \<noteq> old)
          [(js ''name'', meta_str meta (js ''name''), sk_name form),
           (js ''description'', meta_str meta (js ''description''), sk_description form),
           (js ''category'', meta_str meta (js ''category''), sk_category form),
           (js ''tags'', meta_tags meta, sk_tags form),
           (js ''handler'', meta_str meta (js ''handler''), sk_handler form)])"
  by (simp add: apply_parsed_skill_def highlight_keys_def diff_highlight_def str_or_def Let_def eq_commute)

lemma parsed_skill_fills_form_witness:
  "sk_name (fst (apply_parsed_skill [jp ''name'' (JStr (js ''b''))] None \<lparr>sk_id = [], sk_name = js ''a'', sk_description = [],
     sk_category = [], sk_tags = [], sk_handler = []\<rparr>)) \<noteq> []"
  using parsed_skill_fills_form [of "[jp ''name'' (JStr (js ''b''))]" None "\<lparr>sk_id = [], sk_name = js ''a'', sk_description = [],
     sk_category = [], sk_tags = [], sk_handler = []\<rparr>"] by (simp add: highlight_keys_def Let_def)

end
