(* ===== verification/Column_Widths.thy ===== *)
theory Column_Widths
  imports Card_Adapter Js_Json
begin

text \<open>
  Table columns of adjustable width, frontend/mis-admin-web/src/components/common/
  use-column-widths.ts: the widths in memory (the React state and the ref hold the same), the
  drag under way, and the layout in the local storage. \<open>measured i\<close> is the rounded width of the
  i-th header cell on the page, \<open>None\<close> when there is no cell; widths and mouse positions are whole
  pixels.
\<close>

section \<open>The hook\<close>

record resizable_column =
  rc_key :: jstr
  rc_locked :: bool

record resize_drag =
  rd_key :: jstr
  rd_start_x :: int
  rd_start_w :: int

type_synonym widths = "(jstr, int) jmap"

record width_state =
  ws_widths :: widths
  ws_drag :: "resize_drag option"
  ws_stored :: "jstr option"

definition default_col_width :: int where "default_col_width = 160"
definition min_col_width :: int where "min_col_width = 64"
definition max_col_width :: int where "max_col_width = 480"
definition min_flex_col_width :: int where "min_flex_col_width = 120"

definition flex_key :: "resizable_column list \<Rightarrow> jstr" where
  "flex_key cols =
     (case find rc_locked cols of
        Some c \<Rightarrow> rc_key c
      | None \<Rightarrow> if cols = [] then js ''__ops__'' else rc_key (List.last cols))"

text \<open>The entries of a stored layout that are kept.\<close>

definition keep_width :: "resizable_column list \<Rightarrow> widths \<Rightarrow> jstr \<times> jval \<Rightarrow> widths" where
  "keep_width cols m kv =
     (if fst kv = flex_key cols \<or> fst kv \<notin> rc_key ` set cols then m
      else case snd kv of JNum n \<Rightarrow> jm_set (fst kv) n m | _ \<Rightarrow> m)"

definition load_widths :: "(jstr \<Rightarrow> jval option) \<Rightarrow> resizable_column list \<Rightarrow> jstr option \<Rightarrow> widths" where
  "load_widths parse cols stored =
     (case Option.bind (nonempty stored) parse of
        None \<Rightarrow> []
      | Some v \<Rightarrow> if nullish v then [] else foldl (keep_width cols) [] (js_entries (jprop v ''widths'')))"

definition saved_layout :: "resizable_column list \<Rightarrow> widths \<Rightarrow> jval" where
  "saved_layout cols ws =
     JObj [jp ''widths'' (JObj (map (\<lambda>(k, n). (k, JNum n)) (filter (\<lambda>(k, n). k \<noteq> flex_key cols) ws)))]"

definition open_table :: "(jstr \<Rightarrow> jval option) \<Rightarrow> resizable_column list \<Rightarrow> jstr option \<Rightarrow> width_state" where
  "open_table parse cols stored = \<lparr>ws_widths = load_widths parse cols stored, ws_drag = None, ws_stored = stored\<rparr>"

definition rendered_width :: "(nat \<Rightarrow> int option) \<Rightarrow> widths \<Rightarrow> nat \<Rightarrow> resizable_column \<Rightarrow> int" where
  "rendered_width measured ws i c =
     (case measured i of
        Some w \<Rightarrow> if 0 < w then w else default_to default_col_width (jm_get ws (rc_key c))
      | None \<Rightarrow> default_to default_col_width (jm_get ws (rc_key c)))"

definition freeze_data_columns :: "(nat \<Rightarrow> int option) \<Rightarrow> resizable_column list \<Rightarrow> widths \<Rightarrow> widths" where
  "freeze_data_columns measured cols ws =
     foldl (\<lambda>m (i, c). if rc_key c = flex_key cols then m else jm_set (rc_key c) (rendered_width measured ws i c) m)
       [] (zip [0..<length cols] cols)"

text \<open>\<open>left_button\<close> is \<open>e.button === 0\<close>; \<open>in_table\<close> whether the handle has a table around it.\<close>

definition start_resize ::
  "resizable_column list \<Rightarrow> (nat \<Rightarrow> int option) \<Rightarrow> bool \<Rightarrow> bool \<Rightarrow> int \<Rightarrow> jstr \<Rightarrow> width_state \<Rightarrow> width_state" where
  "start_resize cols measured in_table left_button x key s =
     (if (case find (\<lambda>c. rc_key c = key) cols of Some c \<Rightarrow> rc_locked c | None \<Rightarrow> False) \<or> key = flex_key cols \<or> \<not> left_button
      then s
      else let frozen = jm_delete (flex_key cols) (if in_table then freeze_data_columns measured cols (ws_widths s) else ws_widths s)
        in s\<lparr>ws_widths := frozen,
             ws_drag := Some \<lparr>rd_key = key, rd_start_x = x, rd_start_w = default_to default_col_width (jm_get frozen key)\<rparr>\<rparr>)"

definition clamp_width :: "int \<Rightarrow> int" where
  "clamp_width w = max min_col_width (min max_col_width w)"

definition on_move :: "int \<Rightarrow> width_state \<Rightarrow> width_state" where
  "on_move x s =
     (case ws_drag s of
        None \<Rightarrow> s
      | Some r \<Rightarrow>
          (let next_w = clamp_width (rd_start_w r + (x - rd_start_x r))
           in if jm_get (ws_widths s) (rd_key r) = Some next_w then s
              else s\<lparr>ws_widths := jm_set (rd_key r) next_w (ws_widths s)\<rparr>))"

definition on_end :: "(jval \<Rightarrow> jstr) \<Rightarrow> resizable_column list \<Rightarrow> width_state \<Rightarrow> width_state" where
  "on_end stringify cols s = s\<lparr>ws_drag := None, ws_stored := Some (stringify (saved_layout cols (ws_widths s)))\<rparr>"

definition reset_widths :: "width_state \<Rightarrow> width_state" where
  "reset_widths s = s\<lparr>ws_widths := [], ws_stored := None\<rparr>"

definition width_of :: "resizable_column list \<Rightarrow> width_state \<Rightarrow> jstr \<Rightarrow> int option" where
  "width_of cols s key =
     (if key = flex_key cols then None else Some (default_to default_col_width (jm_get (ws_widths s) key)))"

definition table_min_width :: "resizable_column list \<Rightarrow> width_state \<Rightarrow> int" where
  "table_min_width cols s =
     sum_list (map (\<lambda>c. default_to default_col_width (jm_get (ws_widths s) (rc_key c))) (filter (\<lambda>c. rc_key c \<noteq> flex_key cols) cols))
     + min_flex_col_width"

definition has_custom :: "resizable_column list \<Rightarrow> width_state \<Rightarrow> bool" where
  "has_custom cols s = list_ex (\<lambda>k. k \<noteq> flex_key cols) (jm_keys (ws_widths s))"

section \<open>A drag\<close>

lemma clamp_bounds: "64 \<le> clamp_width w" "clamp_width w \<le> 480"
  by (simp_all add: clamp_width_def min_col_width_def max_col_width_def)

lemma on_move_get:
  "ws_drag s = Some r \<Longrightarrow> jm_get (ws_widths (on_move x s)) k =
     (if k = rd_key r then Some (clamp_width (rd_start_w r + (x - rd_start_x r))) else jm_get (ws_widths s) k)"
  by (simp add: on_move_def Let_def)

lemma on_move_rest [simp]: "ws_drag (on_move x s) = ws_drag s" "ws_stored (on_move x s) = ws_stored s"
  by (simp_all add: on_move_def Let_def split: option.split)

definition drag_moves :: "int list \<Rightarrow> width_state \<Rightarrow> width_state" where
  "drag_moves xs s = foldl (\<lambda>s x. on_move x s) s xs"

lemma drag_moves_rest: "ws_drag (drag_moves xs s) = ws_drag s" "ws_stored (drag_moves xs s) = ws_stored s"
  unfolding drag_moves_def by (induction xs arbitrary: s) simp_all

lemma drag_moves_get:
  "ws_drag s = Some r \<Longrightarrow> jm_get (ws_widths (drag_moves (xs @ [x]) s)) k =
     (if k = rd_key r then Some (clamp_width (rd_start_w r + (x - rd_start_x r))) else jm_get (ws_widths s) k)"
proof (induction xs arbitrary: x rule: rev_induct)
  case (snoc y ys)
  have "ws_drag (drag_moves (ys @ [y]) s) = Some r" using snoc.prems by (simp add: drag_moves_rest)
  moreover have "drag_moves ((ys @ [y]) @ [x]) s = on_move x (drag_moves (ys @ [y]) s)" by (simp add: drag_moves_def)
  ultimately show ?case using on_move_get snoc.IH snoc.prems by simp
qed (simp add: drag_moves_def on_move_get)

lemma jm_keys_nodup: "distinct (jm_keys m) \<Longrightarrow> distinct (jm_keys (jm_set k v m))"
  by (simp add: jm_keys_set)

lemma kept_keys:
  assumes "set (jm_keys m) \<subseteq> rc_key ` set cols - {flex_key cols}"
  shows "set (jm_keys (foldl (keep_width cols) m kvs)) \<subseteq> rc_key ` set cols - {flex_key cols}"
  using assms
proof (induction kvs arbitrary: m)
  case (Cons kv kvs)
  show ?case unfolding foldl_Cons
    by (rule Cons.IH) (use Cons.prems in \<open>auto simp: keep_width_def jm_keys_set split: jval.split\<close>)
qed simp

lemma kept_inv: "jm_inv m \<Longrightarrow> jm_inv (foldl (keep_width cols) m kvs)"
  by (induction kvs arbitrary: m) (simp_all add: keep_width_def js_map.inv_put split: jval.split)

lemma frozen_keys:
  assumes "set ics \<subseteq> UNIV \<times> set cols" "set (jm_keys m) \<subseteq> rc_key ` set cols - {flex_key cols}" "jm_inv m"
  shows "set (jm_keys (foldl (\<lambda>m (i, c). if rc_key c = flex_key cols then m else jm_set (rc_key c) (g i c) m) m ics))
      \<subseteq> rc_key ` set cols - {flex_key cols}
    \<and> jm_inv (foldl (\<lambda>m (i, c). if rc_key c = flex_key cols then m else jm_set (rc_key c) (g i c) m) m ics)"
  using assms
proof (induction ics arbitrary: m)
  case (Cons ic ics)
  show ?case unfolding foldl_Cons
    by (rule Cons.IH) (use Cons.prems in \<open>auto simp: jm_keys_set js_map.inv_put split: prod.split\<close>)
qed simp

definition widths_ok :: "resizable_column list \<Rightarrow> widths \<Rightarrow> bool" where
  "widths_ok cols ws \<longleftrightarrow> jm_inv ws \<and> set (jm_keys ws) \<subseteq> rc_key ` set cols - {flex_key cols}"

lemma open_ok: "widths_ok cols (load_widths parse cols stored)"
  using kept_keys [of "[]" cols] kept_inv [of "[]" cols]
  by (auto simp: widths_ok_def load_widths_def jm_keys_def split: option.split)

lemma freeze_ok: "widths_ok cols (freeze_data_columns measured cols ws)"
proof -
  have "set (zip [0..<length cols] cols) \<subseteq> UNIV \<times> set cols" by (auto dest: set_zip_rightD)
  from frozen_keys [OF this, of "[]" "rendered_width measured ws"] show ?thesis
    by (simp add: widths_ok_def freeze_data_columns_def jm_keys_def)
qed

lemma widths_ok_delete: "widths_ok cols ws \<Longrightarrow> widths_ok cols (jm_delete k ws)"
  by (auto simp: widths_ok_def jm_keys_delete js_map.inv_del)

lemma widths_ok_set: "widths_ok cols ws \<Longrightarrow> k \<in> rc_key ` set cols \<Longrightarrow> k \<noteq> flex_key cols \<Longrightarrow> widths_ok cols (jm_set k n ws)"
  by (auto simp: widths_ok_def jm_keys_set js_map.inv_put)

text \<open>
  What happens to a table that is on the page. A handle belongs to the header of a column.
\<close>

inductive table_run :: "(jstr \<Rightarrow> jval option) \<Rightarrow> (jval \<Rightarrow> jstr) \<Rightarrow> resizable_column list \<Rightarrow> width_state \<Rightarrow> bool"
  for parse stringify cols where
  opened: "table_run parse stringify cols (open_table parse cols stored)"
| grab: "table_run parse stringify cols s \<Longrightarrow> key \<in> rc_key ` set cols
    \<Longrightarrow> table_run parse stringify cols (start_resize cols measured in_table left_button x key s)"
| move: "table_run parse stringify cols s \<Longrightarrow> table_run parse stringify cols (on_move x s)"
| drop: "table_run parse stringify cols s \<Longrightarrow> table_run parse stringify cols (on_end stringify cols s)"
| reset: "table_run parse stringify cols s \<Longrightarrow> table_run parse stringify cols (reset_widths s)"

definition table_ok :: "resizable_column list \<Rightarrow> width_state \<Rightarrow> bool" where
  "table_ok cols s \<longleftrightarrow> widths_ok cols (ws_widths s)
     \<and> (\<forall>r. ws_drag s = Some r \<longrightarrow> rd_key r \<in> rc_key ` set cols \<and> rd_key r \<noteq> flex_key cols)"

lemma start_ok:
  assumes "table_ok cols s" "key \<in> rc_key ` set cols"
  shows "table_ok cols (start_resize cols measured in_table left_button x key s)"
proof -
  have "widths_ok cols (jm_delete (flex_key cols) (if in_table then freeze_data_columns measured cols (ws_widths s) else ws_widths s))"
    using assms(1) by (simp add: widths_ok_delete freeze_ok table_ok_def)
  with assms show ?thesis by (auto simp: start_resize_def table_ok_def Let_def)
qed

lemma move_ok: "table_ok cols s \<Longrightarrow> table_ok cols (on_move x s)"
  by (auto simp: on_move_def table_ok_def widths_ok_set Let_def split: option.split)

lemma table_run_ok: "table_run parse stringify cols s \<Longrightarrow> table_ok cols s"
proof (induction rule: table_run.induct)
  case (opened stored)
  then show ?case by (simp add: table_ok_def open_table_def open_ok)
next
  case (drop s)
  then show ?case by (simp add: table_ok_def on_end_def)
next
  case (reset s)
  then show ?case by (simp add: table_ok_def reset_widths_def widths_ok_def jm_keys_def)
qed (simp_all add: start_ok move_ok)

section \<open>Reloading\<close>

lemma keep_all:
  assumes "distinct (map fst (acc @ ws))" "set (jm_keys ws) \<subseteq> rc_key ` set cols - {flex_key cols}"
  shows "foldl (keep_width cols) acc (map (\<lambda>(k, n). (k, JNum n)) ws) = acc @ ws"
  using assms
proof (induction ws arbitrary: acc)
  case (Cons kn ws)
  obtain k n where kn: "kn = (k, n)" by fastforce
  have "jm_set k n acc = acc @ [(k, n)]"
    using Cons.prems(1) kn unfolding jm_set_def by (induction acc) auto
  then have "keep_width cols acc (k, JNum n) = acc @ [(k, n)]"
    using Cons.prems(2) kn by (auto simp: keep_width_def jm_keys_def)
  then show ?case using Cons.IH [of "acc @ [(k, n)]"] Cons.prems kn by (simp add: jm_keys_def)
qed simp

lemma layout_reads_back:
  assumes "json_inverse parse stringify" "widths_ok cols ws" "\<forall>c \<in> set cols. \<not> is_index (rc_key c)"
  shows "load_widths parse cols (Some (stringify (saved_layout cols ws))) = ws"
proof -
  have k: "set (jm_keys ws) \<subseteq> rc_key ` set cols - {flex_key cols}" "distinct (map fst ws)"
    using assms(2) by (simp_all add: widths_ok_def jm_inv_def)
  then have f: "filter (\<lambda>(k, n). k \<noteq> flex_key cols) ws = ws" by (auto simp: filter_id_conv jm_keys_def)
  have m: "map fst (map (\<lambda>(k, n). (k, JNum n)) ws) = map fst ws" by (simp add: case_prod_unfold)
  have "canonical_keys (map fst ws)"
    by (rule canonical_plain) (use k assms(3) in \<open>force simp: list_all_iff jm_keys_def\<close>)+
  then have "json_value (JObj (map (\<lambda>(k, n). (k, JNum n)) ws))"
    by (simp add: m list_all_iff case_prod_unfold del: map_map) (simp add: o_def)
  then have "json_value (saved_layout cols ws)" by (simp add: saved_layout_def f)
  then have "parse (stringify (saved_layout cols ws)) = Some (saved_layout cols ws)"
    by (rule json_parse_stringify [OF assms(1)])
  moreover have "nonempty (Some (stringify (saved_layout cols ws))) = Some (stringify (saved_layout cols ws))"
    using json_object_not_empty [OF assms(1)] by (simp add: saved_layout_def nonempty_eq_Some)
  ultimately show ?thesis
    using keep_all [of "[]" ws cols] k by (simp add: load_widths_def) (simp add: saved_layout_def f)
qed

lemma start_drag:
  assumes "ws_drag s = None" "ws_drag (start_resize cols measured in_table left_button x key s) = Some r"
  shows "rd_key r = key \<and> rd_start_x r = x"
  using assms by (auto simp: start_resize_def Let_def split: if_splits)

text \<open>
  Dragging a column: however the mouse moves, the column ends where the last position puts it,
  between 64 and 480 pixels; no other column changes after the drag has begun and the absorbing
  column has no width; and the table that is opened again has the layout that was left.
\<close>

theorem dragged_layout_survives_reload:
  assumes "table_run parse stringify cols s" "ws_drag s = None" "key \<in> rc_key ` set cols"
    and "json_inverse parse stringify" "\<forall>c \<in> set cols. \<not> is_index (rc_key c)"
    and "ws_drag (start_resize cols measured in_table True x0 key s) = Some r"
  shows "let s0 = start_resize cols measured in_table True x0 key s;
             s1 = on_end stringify cols (drag_moves (xs @ [x]) s0);
             w = max 64 (min 480 (rd_start_w r + (x - x0))) in
    width_of cols s1 key = Some w
    \<and> (k = key \<or> width_of cols s1 k = width_of cols s0 k)
    \<and> width_of cols s1 (flex_key cols) = None
    \<and> ws_widths (open_table parse cols (ws_stored s1)) = ws_widths s1"
proof -
  let ?s0 = "start_resize cols measured in_table True x0 key s"
  let ?m = "drag_moves (xs @ [x]) ?s0"
  have r: "rd_key r = key" "rd_start_x r = x0" using start_drag [OF assms(2,6)] by simp_all
  have run: "table_run parse stringify cols ?s0" by (rule table_run.grab [OF assms(1,3)])
  have moves: "table_run parse stringify cols (drag_moves ys ?s0)" for ys
    by (induction ys rule: rev_induct) (simp_all add: drag_moves_def run table_run.move)
  have ok: "widths_ok cols (ws_widths ?m)" using table_run_ok [OF moves] by (simp add: table_ok_def)
  have ne: "key \<noteq> flex_key cols" using table_run_ok [OF run] assms(6) r by (simp add: table_ok_def)
  have "jm_get (ws_widths ?m) l = (if l = key then Some (clamp_width (rd_start_w r + (x - x0))) else jm_get (ws_widths ?s0) l)" for l
    using drag_moves_get [OF assms(6)] r by simp
  then show ?thesis
    using ne layout_reads_back [OF assms(4) ok assms(5)]
    by (simp add: width_of_def on_end_def open_table_def clamp_width_def min_col_width_def max_col_width_def)
qed

definition demo_cols :: "resizable_column list" where
  "demo_cols = [\<lparr>rc_key = js ''a'', rc_locked = False\<rparr>, \<lparr>rc_key = js ''b'', rc_locked = False\<rparr>, \<lparr>rc_key = js ''ops'', rc_locked = True\<rparr>]"

lemma dragged_layout_survives_reload_witness:
  "ws_widths (open_table demo_parse demo_cols (ws_stored (on_end demo_stringify demo_cols (drag_moves ([10] @ [40])
     (start_resize demo_cols (\<lambda>i. Some 200) True True 20 (js ''a'') (open_table demo_parse demo_cols None))))))
   = [(js ''a'', 220), (js ''b'', 200)]"
proof -
  let ?s = "open_table demo_parse demo_cols None"
  let ?g = "start_resize demo_cols (\<lambda>i. Some 200) True True 20 (js ''a'') ?s"
  have run: "table_run demo_parse demo_stringify demo_cols ?s" by (rule table_run.opened)
  have keys: "js ''a'' \<in> rc_key ` set demo_cols" "\<forall>c \<in> set demo_cols. \<not> is_index (rc_key c)"
    by (simp_all add: demo_cols_def is_index_def js_def)
  have d: "ws_drag ?s = None" "ws_drag ?g = Some \<lparr>rd_key = js ''a'', rd_start_x = 20, rd_start_w = 200\<rparr>"
    "ws_widths (drag_moves ([10] @ [40]) ?g) = [(js ''a'', 220), (js ''b'', 200)]"
    by (simp_all add: demo_cols_def open_table_def load_widths_def start_resize_def freeze_data_columns_def rendered_width_def flex_key_def
        upt_rec jm_set_def jm_delete_def jm_get_def drag_moves_def on_move_def clamp_width_def min_col_width_def
        max_col_width_def Let_def AList.delete_eq)
  show ?thesis
    using dragged_layout_survives_reload [OF run d(1) keys(1) demo_json keys(2) d(2), where xs = "[10]" and x = 40 and k = "js ''a''"] d(3)
    by (simp add: Let_def on_end_def)
qed

end
