(* ===== verification/Desensitize.thy ===== *)
theory Desensitize
  imports Skill_Builder
begin

text \<open>
  What the administration pages hide of a record before it is sent to the assistant,
  frontend/mis-admin-web/src/features/ai/lib/desensitize.ts. The two regular expressions are
  written out; the keys are distinct and none is the name of an inherited property.
\<close>

section \<open>Masks\<close>

definition is_digit :: "cu \<Rightarrow> bool" where
  "is_digit c \<longleftrightarrow> 48 \<le> c \<and> c \<le> 57"

definition is_letter :: "cu \<Rightarrow> bool" where
  "is_letter c \<longleftrightarrow> (65 \<le> c \<and> c \<le> 90) \<or> (97 \<le> c \<and> c \<le> 122)"

text \<open>17 digits followed by a digit, X or x, anywhere in the text.\<close>

definition id_re :: "jstr \<Rightarrow> bool" where
  "id_re s = list_ex (\<lambda>i. let w = take 18 (drop i s) in
       length w = 18 \<and> list_all is_digit (take 17 w) \<and> (is_digit (w ! 17) \<or> w ! 17 \<in> {88, 120})) [0..<length s]"

definition local_char :: "cu \<Rightarrow> bool" where
  "local_char c \<longleftrightarrow> is_letter c \<or> is_digit c \<or> c \<in> set (js ''._%+-'')"

definition domain_char :: "cu \<Rightarrow> bool" where
  "domain_char c \<longleftrightarrow> is_letter c \<or> is_digit c \<or> c \<in> set (js ''.-'')"

text \<open>What follows the \<open>@\<close>: domain characters, a dot and two letters.\<close>

definition domain_re :: "jstr \<Rightarrow> bool" where
  "domain_re s = list_ex (\<lambda>j. 1 \<le> j \<and> list_all domain_char (take j s) \<and> s ! j = 46 \<and> is_letter (s ! (j + 1)) \<and> is_letter (s ! (j + 2)))
     [0..<length s - 2]"

definition email_re :: "jstr \<Rightarrow> bool" where
  "email_re s = list_ex (\<lambda>i. s ! i = 64 \<and> 0 < i \<and> local_char (s ! (i - 1)) \<and> domain_re (drop (i + 1) s)) [0..<length s]"

definition last_chars :: "nat \<Rightarrow> jstr \<Rightarrow> jstr" where
  "last_chars n s = drop (length s - n) s"

definition mask_phone :: "jstr \<Rightarrow> jstr" where
  "mask_phone s = (if length s < 7 then s else slice 0 3 s @ js ''****'' @ last_chars 4 s)"

definition mask_id :: "jstr \<Rightarrow> jstr" where
  "mask_id s = (if length s < 12 then s else slice 0 6 s @ js ''********'' @ last_chars 4 s)"

definition mask_email :: "jstr \<Rightarrow> jstr" where
  "mask_email s =
     (case index_from [64] 0 s of
        Some at_pos \<Rightarrow> if at_pos \<le> 1 then s else [hd s] @ js ''***'' @ drop at_pos s
      | None \<Rightarrow> s)"

text \<open>The kind of a value, from its key and its text; the order is that of the code.\<close>

datatype sensitive = Phone_number | Id_number | Email_address

definition phone_words :: "jstr list" where
  "phone_words = [js ''phone'', js ''mobile'', [0x624B, 0x673A]]"

definition id_words :: "jstr list" where
  "id_words = [js ''id_card'', js ''idcard'', [0x8EAB, 0x4EFD, 0x8BC1]]"

definition email_words :: "jstr list" where
  "email_words = [js ''email'', [0x90AE, 0x7BB1]]"

definition sensitive_kind :: "jstr \<Rightarrow> jstr \<Rightarrow> sensitive option" where
  "sensitive_kind key s =
     (let k = to_lower key in
      if list_ex (str_includes k) phone_words then Some Phone_number
      else if list_ex (str_includes k) id_words \<or> id_re s then Some Id_number
      else if list_ex (str_includes k) email_words \<or> email_re s then Some Email_address
      else None)"

fun mask_of :: "sensitive \<Rightarrow> jstr \<Rightarrow> jstr" where
  "mask_of Phone_number = mask_phone"
| "mask_of Id_number = mask_id"
| "mask_of Email_address = mask_email"

definition desensitize_value :: "jstr \<Rightarrow> jval \<Rightarrow> jval" where
  "desensitize_value key v =
     (if nullish v then v
      else case sensitive_kind key (js_string v) of
             Some k \<Rightarrow> JStr (mask_of k (js_string v))
           | None \<Rightarrow> v)"

definition desensitize_record :: "bool \<Rightarrow> jobj \<Rightarrow> jobj" where
  "desensitize_record agent_side ob = (if \<not> agent_side then ob else map (\<lambda>(k, v). (k, desensitize_value k v)) ob)"

section \<open>What stays hidden\<close>

text \<open>The parts of a value that the mask shows; \<open>None\<close> when it shows everything.\<close>

fun shown_parts :: "sensitive \<Rightarrow> jstr \<Rightarrow> (jstr \<times> jstr) option" where
  "shown_parts Phone_number s = (if length s \<le> 7 then None else Some (take 3 s, last_chars 4 s))"
| "shown_parts Id_number s = (if length s < 12 then None else Some (take 6 s, last_chars 4 s))"
| "shown_parts Email_address s =
     (case index_from [64] 0 s of Some i \<Rightarrow> if i \<le> 1 then None else Some ([hd s], drop i s) | None \<Rightarrow> None)"

lemma mask_shows: "shown_parts k s = Some (a, b) \<Longrightarrow> \<exists>stars. \<forall>t. shown_parts k t = Some (a, b) \<longrightarrow> mask_of k t = a @ stars @ b"
  by (cases k) (auto simp: mask_phone_def mask_id_def mask_email_def slice_def split: option.splits if_splits)

text \<open>Two values that a reader of the masked record must not tell apart.\<close>

definition alike :: "jstr \<Rightarrow> jval \<Rightarrow> jval \<Rightarrow> bool" where
  "alike key v w \<longleftrightarrow> v = w \<or> (\<not> nullish v \<and> \<not> nullish w \<and>
     (\<exists>k. sensitive_kind key (js_string v) = Some k \<and> sensitive_kind key (js_string w) = Some k
        \<and> shown_parts k (js_string v) = shown_parts k (js_string w) \<and> shown_parts k (js_string v) \<noteq> None))"

lemma same_mask:
  assumes "shown_parts k s = shown_parts k t" "shown_parts k s \<noteq> None"
  shows "mask_of k s = mask_of k t"
proof -
  obtain a b where "shown_parts k s = Some (a, b)" using assms(2) by (metis not_None_eq surj_pair)
  with assms(1) mask_shows [of k s a b] show ?thesis by metis
qed

lemma alike_masked: "alike key v w \<Longrightarrow> desensitize_value key v = desensitize_value key w"
proof (cases "v = w")
  case False
  assume "alike key v w"
  with False obtain k where "\<not> nullish v" "\<not> nullish w"
    "sensitive_kind key (js_string v) = Some k" "sensitive_kind key (js_string w) = Some k"
    "mask_of k (js_string v) = mask_of k (js_string w)"
    unfolding alike_def using same_mask by blast
  then show ?thesis by (simp add: desensitize_value_def)
qed simp

text \<open>
  A phone number of more than seven characters, an identity number of twelve or more and an
  address with a local part of two or more stay hidden: records that differ only in what the
  masks cover are sent as the same record.
\<close>

theorem masked_parts_are_not_sent:
  assumes "list_all2 (\<lambda>(k, v) (l, w). k = l \<and> alike k v w) ob ob'"
  shows "desensitize_record True ob = desensitize_record True ob'"
  using assms by (induction rule: list_all2_induct) (auto simp: desensitize_record_def alike_masked)

lemma masked_parts_are_not_sent_witness:
  "desensitize_record True [(js ''mobile'', JStr (js ''13812341001'')), (js ''note'', JStr (js ''bob@mis.com''))]
   = desensitize_record True [(js ''mobile'', JStr (js ''13898761001'')), (js ''note'', JStr (js ''ben@mis.com''))]"
proof (rule masked_parts_are_not_sent)
  have "sensitive_kind (js ''mobile'') (js ''13812341001'') = Some Phone_number"
    "sensitive_kind (js ''mobile'') (js ''13898761001'') = Some Phone_number"
    "sensitive_kind (js ''note'') (js ''bob@mis.com'') = Some Email_address"
    "sensitive_kind (js ''note'') (js ''ben@mis.com'') = Some Email_address"
    "shown_parts Phone_number (js ''13812341001'') = Some (js ''138'', js ''1001'')"
    "shown_parts Phone_number (js ''13898761001'') = Some (js ''138'', js ''1001'')"
    "shown_parts Email_address (js ''bob@mis.com'') = Some (js ''b'', js ''@mis.com'')"
    "shown_parts Email_address (js ''ben@mis.com'') = Some (js ''b'', js ''@mis.com'')"
    by code_simp+
  then show "list_all2 (\<lambda>(k, v) (l, w). k = l \<and> alike k v w)
      [(js ''mobile'', JStr (js ''13812341001'')), (js ''note'', JStr (js ''bob@mis.com''))]
      [(js ''mobile'', JStr (js ''13898761001'')), (js ''note'', JStr (js ''ben@mis.com''))]"
    by (simp add: alike_def nullish_def del: shown_parts.simps)
qed

text \<open>
  Three ways around the mask: a number of seven characters, an address with a local part of one
  character, and a phone number in a member whose name does not say so, such as the phone number
  of a nested object.
\<close>

theorem some_values_are_sent_in_full:
  "mask_phone (js ''8612345'') = js ''861****2345''
   \<and> desensitize_value (js ''email'') (JStr (js ''x@mis.com'')) = JStr (js ''x@mis.com'')
   \<and> desensitize_value (js ''tel'') (JStr (js ''13812341001'')) = JStr (js ''13812341001'')
   \<and> desensitize_value (js ''owner'') (JObj [jp ''phone'' (JStr (js ''13812341001''))])
       = JObj [jp ''phone'' (JStr (js ''13812341001''))]"
  by code_simp

end
