(* ===== verification/Ai_Stream.thy ===== *)
theory Ai_Stream
  imports Card_Adapter
begin

text \<open>
  The streamed answers of the assistant in the administration pages: frames of server-sent events
  (frontend/mis-admin-web/src/lib/api/sse-client.ts), what a frame means (features/ai/ai-sse-client.ts)
  and the hook that shows the answer (features/ai/use-ai.ts). Splitting the stream into events is done by
  a library; \<open>parse\<close> is \<open>JSON.parse\<close>, \<open>None\<close> when it throws. A hook may have several runs under way.
\<close>

section \<open>Frames\<close>

record sse_frame =
  sf_event :: jstr
  sf_data :: "jval option"
  sf_raw :: jstr

definition sse_message :: "(jstr \<Rightarrow> jval option) \<Rightarrow> jstr \<Rightarrow> jstr \<Rightarrow> sse_frame option" where
  "sse_message parse event data =
     (if data = [] then None
      else Some \<lparr>sf_event = event,
                 sf_data = (case parse data of Some v \<Rightarrow> if object_like v then Some v else None | None \<Rightarrow> None),
                 sf_raw = data\<rparr>)"

text \<open>\<open>k in d\<close> for the keys the code asks for.\<close>

fun has_member :: "jval \<Rightarrow> string \<Rightarrow> bool" where
  "has_member (JObj ob) k = (map_of ob (js k) \<noteq> None)"
| "has_member _ k = False"

definition is_delta_frame :: "sse_frame \<Rightarrow> bool" where
  "is_delta_frame f \<longleftrightarrow> sf_event f = js ''delta'' \<or>
     (case sf_data f of
        None \<Rightarrow> False
      | Some d \<Rightarrow> jprop d ''type'' = JStr (js ''delta'') \<or> has_member d ''text'' \<or> has_member d ''delta'')"

definition delta_text :: "sse_frame \<Rightarrow> jstr" where
  "delta_text f =
     (case sf_data f of
        None \<Rightarrow> sf_raw f
      | Some d \<Rightarrow> default_to [] (orelse (as_string (jprop d ''text'')) (as_string (jprop d ''delta''))))"

datatype ai_event = Ai_delta jstr | Ai_done "jstr option" "jstr option" | Ai_error jstr | Ai_nothing

definition default_ai_error :: jstr where
  "default_ai_error = js ''AI '' @ [0x54CD, 0x5E94, 0x9519, 0x8BEF]"

definition ai_frame :: "sse_frame \<Rightarrow> ai_event" where
  "ai_frame f =
     (case sf_data f of
        None \<Rightarrow> Ai_delta (sf_raw f)
      | Some d \<Rightarrow>
          if is_delta_frame f then Ai_delta (delta_text f)
          else if sf_event f = js ''done'' \<or> jprop d ''type'' = JStr (js ''done'')
               then Ai_done (as_string (jprop d ''finishReason'')) (as_string (jprop d ''sessionId''))
          else if sf_event f = js ''error'' \<or> jprop d ''type'' = JStr (js ''error'')
               then Ai_error (default_to default_ai_error (as_string (jprop d ''message'')))
          else Ai_nothing)"

section \<open>Errors\<close>

datatype ai_error_kind = Ai_gate | Ai_timeout | Ai_network | Ai_business

record ai_failure =
  al_status :: "nat option"
  al_code :: "int option"
  al_data_message :: "jstr option"
  al_trace :: "jstr option"
  al_message :: "jstr option"

record ai_err =
  ai_kind :: ai_error_kind
  ai_message :: jstr
  ai_code :: "int option"
  ai_trace :: "jstr option"

definition text_unauthorized :: jstr where
  "text_unauthorized = [0x672A, 0x6388, 0x6743, 0xFF0C, 0x8BF7, 0x91CD, 0x65B0, 0x767B, 0x5F55]"

definition text_timeout :: jstr where
  "text_timeout = [0x8BF7, 0x6C42, 0x8D85, 0x65F6, 0xFF0C, 0x8BF7, 0x91CD, 0x8BD5]"

definition text_network :: jstr where
  "text_network = [0x7F51, 0x7EDC, 0x5F02, 0x5E38, 0xFF0C, 0x8BF7, 0x68C0, 0x67E5, 0x8FDE, 0x63A5]"

definition text_failed :: jstr where
  "text_failed = [0x8BF7, 0x6C42, 0x5931, 0x8D25]"

definition to_ai_error :: "ai_failure \<Rightarrow> ai_err" where
  "to_ai_error e =
     (let code = orelse (al_code e) (map_option int (al_status e)) in
      if al_status e = Some 401 then
        \<lparr>ai_kind = Ai_gate, ai_message = default_to text_unauthorized (nonempty (al_data_message e)), ai_code = Some 401, ai_trace = None\<rparr>
      else if al_status e = Some 408 \<or> al_code e = Some 40800 then
        \<lparr>ai_kind = Ai_timeout, ai_message = text_timeout, ai_code = code, ai_trace = None\<rparr>
      else if al_status e = None \<or> al_status e = Some 0 then
        \<lparr>ai_kind = Ai_network, ai_message = text_network, ai_code = None, ai_trace = al_trace e\<rparr>
      else
        \<lparr>ai_kind = Ai_business,
         ai_message = default_to text_failed (orelse (nonempty (al_data_message e)) (nonempty (al_message e))), ai_code = code, ai_trace = al_trace e\<rparr>)"

section \<open>The hook\<close>

datatype ai_callback = On_token jstr | On_done jval | On_error ai_err

record ai_hook =
  ah_data :: "jval option"
  ah_streaming :: jstr
  ah_loading :: bool
  ah_error :: "ai_err option"
  ah_runs :: "jstr list"  \<comment> \<open>the text each streaming run has gathered\<close>
  ah_calls :: "ai_callback list"

definition ai_start :: "ai_hook \<Rightarrow> ai_hook" where
  "ai_start h = h\<lparr>ah_loading := True, ah_error := None, ah_data := None, ah_streaming := [], ah_runs := ah_runs h @ [[]]\<rparr>"

definition report_error :: "ai_err \<Rightarrow> ai_hook \<Rightarrow> ai_hook" where
  "report_error e h = h\<lparr>ah_error := Some e, ah_calls := ah_calls h @ [On_error e]\<rparr>"

definition network_error :: "jstr \<Rightarrow> ai_err" where
  "network_error m = \<lparr>ai_kind = Ai_network, ai_message = m, ai_code = None, ai_trace = None\<rparr>"

definition ai_on_event :: "nat \<Rightarrow> ai_event \<Rightarrow> ai_hook \<Rightarrow> ai_hook" where
  "ai_on_event i ev h =
     (case ev of
        Ai_delta d \<Rightarrow>
          (let acc = (ah_runs h ! i) @ d
           in h\<lparr>ah_runs := (ah_runs h)[i := acc], ah_streaming := acc, ah_calls := ah_calls h @ [On_token d]\<rparr>)
      | Ai_done _ _ \<Rightarrow> h\<lparr>ah_data := Some (JStr (ah_runs h ! i)), ah_calls := ah_calls h @ [On_done (JStr (ah_runs h ! i))]\<rparr>
      | Ai_error m \<Rightarrow> report_error (network_error m) h
      | Ai_nothing \<Rightarrow> h)"

definition ai_on_frame :: "nat \<Rightarrow> sse_frame \<Rightarrow> ai_hook \<Rightarrow> ai_hook" where
  "ai_on_frame i f h = ai_on_event i (ai_frame f) h"

text \<open>The stream ends, or breaks: the connection's error callback, and then the rejected promise.\<close>

definition ai_finish :: "ai_hook \<Rightarrow> ai_hook" where
  "ai_finish h = h\<lparr>ah_loading := False\<rparr>"

definition ai_break :: "jstr \<Rightarrow> ai_hook \<Rightarrow> ai_hook" where
  "ai_break m h =
     (report_error (to_ai_error \<lparr>al_status = None, al_code = None, al_data_message = None, al_trace = None, al_message = Some m\<rparr>)
       (report_error (network_error m) h))\<lparr>ah_loading := False\<rparr>"

text \<open>A stream that is refused: the callback of \<open>onopen\<close> before those of the broken connection.\<close>

definition open_message :: "nat \<Rightarrow> jstr" where
  "open_message status = js ''AI '' @ [0x8FDE, 0x63A5, 0x5931, 0x8D25] @ js '' ('' @ nat_dec status @ js '')''"

definition ai_refused :: "nat \<Rightarrow> ai_hook \<Rightarrow> ai_hook" where
  "ai_refused status h = ai_break (js ''SSE open failed: '' @ nat_dec status) (report_error (network_error (open_message status)) h)"

text \<open>The answer of a call without streaming: its code, message, trace and data.\<close>

definition ai_answered :: "int \<Rightarrow> jstr option \<Rightarrow> jstr option \<Rightarrow> jval \<Rightarrow> ai_hook \<Rightarrow> ai_hook" where
  "ai_answered code message trace data h =
     (if code = 0 then h\<lparr>ah_data := Some data, ah_calls := ah_calls h @ [On_done data], ah_loading := False\<rparr>
      else (report_error (to_ai_error \<lparr>al_status = Some 200, al_code = Some code, al_data_message = message, al_trace = trace, al_message = None\<rparr>)
             h)\<lparr>ah_loading := False\<rparr>)"

section \<open>The streamed text\<close>

definition deltas :: "sse_frame list \<Rightarrow> jstr list" where
  "deltas fs = List.map_filter (\<lambda>f. case ai_frame f of Ai_delta d \<Rightarrow> Some d | _ \<Rightarrow> None) fs"

definition ai_frames :: "nat \<Rightarrow> sse_frame list \<Rightarrow> ai_hook \<Rightarrow> ai_hook" where
  "ai_frames i fs h = foldl (\<lambda>h f. ai_on_frame i f h) h fs"

lemma deltas_snoc: "deltas (fs @ [f]) = deltas fs @ (case ai_frame f of Ai_delta d \<Rightarrow> [d] | _ \<Rightarrow> [])"
  by (simp add: deltas_def map_filter_def split: ai_event.split)

lemma frames_runs:
  assumes "i < length (ah_runs h)"
  shows "ah_runs (ai_frames i fs h) = (ah_runs h)[i := ah_runs h ! i @ concat (deltas fs)]"
    and "ah_streaming (ai_frames i fs h) = (if deltas fs = [] then ah_streaming h else ah_runs h ! i @ concat (deltas fs))"
    and "List.map_filter (\<lambda>c. case c of On_token d \<Rightarrow> Some d | _ \<Rightarrow> None) (ah_calls (ai_frames i fs h))
      = List.map_filter (\<lambda>c. case c of On_token d \<Rightarrow> Some d | _ \<Rightarrow> None) (ah_calls h) @ deltas fs"
  using assms
proof (induction fs rule: rev_induct)
  case Nil
  { case 1 then show ?case by (simp add: ai_frames_def deltas_def map_filter_def)
  next case 2 then show ?case by (simp add: ai_frames_def deltas_def map_filter_def)
  next case 3 then show ?case by (simp add: ai_frames_def deltas_def map_filter_def) }
next
  case (snoc f fs)
  have step: "ai_frames i (fs @ [f]) h = ai_on_event i (ai_frame f) (ai_frames i fs h)"
    by (simp add: ai_frames_def ai_on_frame_def)
  { case 1 then show ?case using snoc(1)
      by (simp add: step deltas_snoc ai_on_event_def report_error_def Let_def split: ai_event.split)
  next case 2 then show ?case using snoc(1,2)
      by (auto simp: step deltas_snoc ai_on_event_def report_error_def Let_def split: ai_event.split)
  next case 3 then show ?case using snoc(1,3)
      by (simp add: step deltas_snoc ai_on_event_def report_error_def Let_def map_filter_def split: ai_event.split) }
qed

text \<open>
  The answer of a run whose stream is not mixed with another: at every moment the text shown is the
  concatenation of the text of its frames, each piece is reported once in order, and a done frame
  makes the whole text the answer.
\<close>

theorem streamed_text_is_all_deltas:
  "let i = length (ah_runs h); s = ai_frames i fs (ai_start h) in
    ah_streaming s = concat (deltas fs)
    \<and> ah_loading s \<and> \<not> ah_loading (ai_finish s)
    \<and> ah_data (ai_on_event i (Ai_done reason sid) s) = Some (JStr (concat (deltas fs)))
    \<and> List.map_filter (\<lambda>c. case c of On_token d \<Rightarrow> Some d | _ \<Rightarrow> None) (ah_calls s)
      = List.map_filter (\<lambda>c. case c of On_token d \<Rightarrow> Some d | _ \<Rightarrow> None) (ah_calls h) @ deltas fs"
proof -
  let ?i = "length (ah_runs h)" and ?h = "ai_start h"
  have i: "?i < length (ah_runs ?h)" "ah_runs ?h ! ?i = []" by (simp_all add: ai_start_def)
  have l: "ah_loading (ai_frames ?i fs ?h)"
    by (induction fs rule: rev_induct)
       (auto simp: ai_frames_def ai_start_def ai_on_frame_def ai_on_event_def report_error_def Let_def split: ai_event.split)
  have c: "ah_calls ?h = ah_calls h" "ah_streaming ?h = []" by (simp_all add: ai_start_def)
  show ?thesis
    using frames_runs [OF i(1), of fs] i l c by (simp add: Let_def ai_finish_def ai_on_event_def)
qed

text \<open>
  Two runs share what is shown: a late piece of the first replaces the text of the second.
\<close>

theorem old_run_replaces_new_text:
  assumes "i < length (ah_runs h)" "ai_frame f = Ai_delta d"
  shows "ah_streaming (ai_on_frame i f (ai_frames (length (ah_runs h)) fs (ai_start h))) = ah_runs h ! i @ d"
proof -
  have "length (ah_runs h) < length (ah_runs (ai_start h))" "ah_runs (ai_start h) ! i = ah_runs h ! i"
    using assms(1) by (simp_all add: ai_start_def nth_append)
  then show ?thesis
    using frames_runs(1) [of "length (ah_runs h)" "ai_start h" fs] assms
    by (simp add: ai_on_frame_def ai_on_event_def Let_def)
qed

text \<open>
  A stream that the server refuses, an expired login included, is reported three times, and what
  stays on the screen is always the message about the network.
\<close>

theorem refused_stream_shows_network_error:
  "ah_error (ai_refused status h) = Some \<lparr>ai_kind = Ai_network, ai_message = text_network, ai_code = None, ai_trace = None\<rparr>
   \<and> length (ah_calls (ai_refused status h)) = length (ah_calls h) + 3"
  by (simp add: ai_refused_def ai_break_def report_error_def to_ai_error_def Let_def)

end
