(* ===== verification/Skill_Fill.thy ===== *)
theory Skill_Fill
  imports Last_Session
begin

text \<open>
  Filling a form from a sentence, frontend/mis-admin-web/src/features/ai/hooks/useSkillFill.ts, and
  what it learns of the user's choices, useEntityMapping.ts. The local storage is a map of strings;
  the parts of a storage key contain no separator, and no original value has the name of an inherited
  property or of an array index. What the page does with the filled members is the log \<open>sf_filled\<close>.
\<close>

section \<open>Learned choices\<close>

definition mapping_key :: "jstr \<Rightarrow> jstr \<Rightarrow> jstr" where
  "mapping_key user field = js ''ai-entity-mapping-'' @ user @ js ''-'' @ field"

definition get_mapping :: "(jstr \<Rightarrow> jval option) \<Rightarrow> jstr option \<Rightarrow> jstr \<Rightarrow> jstr \<Rightarrow> storage \<Rightarrow> jval" where
  "get_mapping parse user field original st =
     (case nonempty user of
        None \<Rightarrow> JUndef
      | Some u \<Rightarrow>
          (case Option.bind (nonempty (jm_get st (mapping_key u field))) parse of
             Some v \<Rightarrow> (case v of JObj ob \<Rightarrow> field_of ob original | _ \<Rightarrow> JUndef)
           | None \<Rightarrow> JUndef))"

text \<open>A stored text that cannot be read, or is no object, makes the write fail silently.\<close>

definition save_mapping ::
  "(jstr \<Rightarrow> jval option) \<Rightarrow> (jval \<Rightarrow> jstr) \<Rightarrow> jstr option \<Rightarrow> jstr \<Rightarrow> jstr \<Rightarrow> jstr \<Rightarrow> storage \<Rightarrow> storage" where
  "save_mapping parse stringify user field original candidate st =
     (case nonempty user of
        None \<Rightarrow> st
      | Some u \<Rightarrow>
          (case nonempty (jm_get st (mapping_key u field)) of
             None \<Rightarrow> jm_set (mapping_key u field) (stringify (JObj (jm_set original (JStr candidate) []))) st
           | Some raw \<Rightarrow>
               (case parse raw of
                  Some (JObj ob) \<Rightarrow> jm_set (mapping_key u field) (stringify (JObj (jm_set original (JStr candidate) ob))) st
                | _ \<Rightarrow> st)))"

section \<open>The hook\<close>

record hitl_payload =
  hp_field :: jstr
  hp_original :: jstr
  hp_candidates :: "jval list"

datatype skill_answer = Fill_success jobj | Fill_hitl "hitl_payload option" | Fill_manual | Fill_error "jstr option"

record skill_fill =
  sf_loading :: bool
  sf_hitl_open :: bool
  sf_manual_open :: bool
  sf_payload :: "hitl_payload option"
  sf_error :: "jstr option"
  sf_storage :: storage
  sf_filled :: "jobj list"
  sf_manual :: "jstr list"  \<comment> \<open>the members reported for manual selection\<close>

definition execute_begins :: "skill_fill \<Rightarrow> skill_fill" where
  "execute_begins s = s\<lparr>sf_loading := True, sf_error := None\<rparr>"

definition failed_text :: jstr where
  "failed_text = [0x6267, 0x884C, 0x5931, 0x8D25]"

definition execute_answered :: "(jstr \<Rightarrow> jval option) \<Rightarrow> jstr option \<Rightarrow> skill_answer \<Rightarrow> skill_fill \<Rightarrow> skill_fill" where
  "execute_answered parse user answer s =
     (let s1 = (case answer of
          Fill_success ob \<Rightarrow> s\<lparr>sf_filled := sf_filled s @ [ob]\<rparr>
        | Fill_hitl None \<Rightarrow> s
        | Fill_hitl (Some p) \<Rightarrow>
            (let mapped = get_mapping parse user (hp_field p) (hp_original p) (sf_storage s) in
             if truthy mapped then s\<lparr>sf_filled := sf_filled s @ [[(hp_field p, mapped)]]\<rparr>
             else s\<lparr>sf_payload := Some p, sf_hitl_open := True\<rparr>)
        | Fill_manual \<Rightarrow> s\<lparr>sf_manual_open := True\<rparr>
        | Fill_error m \<Rightarrow> s\<lparr>sf_error := Some (default_to failed_text (nonempty m))\<rparr>)
      in s1\<lparr>sf_loading := False\<rparr>)"

definition execute_throws :: "jstr \<Rightarrow> skill_fill \<Rightarrow> skill_fill" where
  "execute_throws m s = s\<lparr>sf_error := Some m, sf_loading := False\<rparr>"

definition hitl_confirm :: "(jstr \<Rightarrow> jval option) \<Rightarrow> (jval \<Rightarrow> jstr) \<Rightarrow> jstr option \<Rightarrow> jval \<Rightarrow> skill_fill \<Rightarrow> skill_fill" where
  "hitl_confirm parse stringify user candidate s =
     (case sf_payload s of
        None \<Rightarrow> s
      | Some p \<Rightarrow>
          s\<lparr>sf_hitl_open := False,
            sf_storage := save_mapping parse stringify user (hp_field p) (hp_original p) (js_string candidate) (sf_storage s),
            sf_filled := sf_filled s @ [[(hp_field p, candidate)]]\<rparr>)"

definition hitl_cancel :: "skill_fill \<Rightarrow> skill_fill" where
  "hitl_cancel s = s\<lparr>sf_hitl_open := False, sf_payload := None\<rparr>"

definition manual_select :: "skill_fill \<Rightarrow> skill_fill" where
  "manual_select s =
     (let s1 = s\<lparr>sf_manual_open := False\<rparr> in
      case sf_payload s of
        Some p \<Rightarrow> if hp_field p \<noteq> [] then s1\<lparr>sf_manual := sf_manual s @ [hp_field p]\<rparr> else s1
      | None \<Rightarrow> s1)"

section \<open>What is learned\<close>

definition mapping_readable :: "(jstr \<Rightarrow> jval option) \<Rightarrow> jstr \<Rightarrow> jstr \<Rightarrow> storage \<Rightarrow> bool" where
  "mapping_readable parse user field st =
     (case nonempty (jm_get st (mapping_key user field)) of
        None \<Rightarrow> True
      | Some raw \<Rightarrow> (case parse raw of Some (JObj _) \<Rightarrow> True | _ \<Rightarrow> False))"

lemma saved_mapping:
  assumes "json_inverse parse stringify" "user \<noteq> []" "mapping_readable parse user field st" "\<not> is_index original"
  shows "\<exists>ob. save_mapping parse stringify (Some user) field original c st = jm_set (mapping_key user field) (stringify (JObj (jm_set original (JStr c) ob))) st
    \<and> json_value (JObj (jm_set original (JStr c) ob))
    \<and> (\<forall>x. get_mapping parse (Some user) field x st = field_of ob x)"
proof -
  have u: "nonempty (Some user) = Some user" using assms(2) by (simp add: nonempty_eq_Some)
  show ?thesis
  proof (cases "nonempty (jm_get st (mapping_key user field))")
    case None
    have "json_value (JObj (jm_set original (JStr c) []))" using assms(4) by (intro json_value_set) simp_all
    with None u show ?thesis by (intro exI [of _ "[]"]) (simp add: save_mapping_def get_mapping_def field_of_def)
  next
    case (Some raw)
    then obtain ob where ob: "parse raw = Some (JObj ob)"
      using assms(3) by (auto simp: mapping_readable_def split: option.splits jval.splits)
    then have "json_value (JObj (jm_set original (JStr c) ob))"
      using json_parsed [OF assms(1) ob] assms(4) by (intro json_value_set) simp_all
    with Some u ob show ?thesis by (intro exI [of _ ob]) (simp add: save_mapping_def get_mapping_def)
  qed
qed

text \<open>
  A choice is learned: the next time the same value comes up for the same member, the member is
  filled with the chosen identifier without a question; what was learned of other values of the
  member, and of members and users with another key, stays as it was.
\<close>

theorem confirmed_choice_is_remembered:
  assumes "json_inverse parse stringify" "user \<noteq> []" "sf_payload s = Some p" "js_string candidate \<noteq> []"
    and "mapping_readable parse user (hp_field p) (sf_storage s)" "\<not> is_index (hp_original p)"
  shows "let s1 = hitl_confirm parse stringify (Some user) candidate s;
             s2 = execute_answered parse (Some user) (Fill_hitl (Some p)) s1 in
    sf_filled s2 = sf_filled s @ [[(hp_field p, candidate)], [(hp_field p, JStr (js_string candidate))]]
    \<and> \<not> sf_hitl_open s2
    \<and> (x = hp_original p \<or> get_mapping parse (Some user) (hp_field p) x (sf_storage s1)
        = get_mapping parse (Some user) (hp_field p) x (sf_storage s))
    \<and> (mapping_key u f = mapping_key user (hp_field p) \<or> get_mapping parse (Some u) f x (sf_storage s1)
        = get_mapping parse (Some u) f x (sf_storage s))"
proof -
  let ?k = "mapping_key user (hp_field p)"
  let ?st = "save_mapping parse stringify (Some user) (hp_field p) (hp_original p) (js_string candidate) (sf_storage s)"
  obtain ob where st: "?st = jm_set ?k (stringify (JObj (jm_set (hp_original p) (JStr (js_string candidate)) ob))) (sf_storage s)"
    and j: "json_value (JObj (jm_set (hp_original p) (JStr (js_string candidate)) ob))"
    and old: "\<And>x. get_mapping parse (Some user) (hp_field p) x (sf_storage s) = field_of ob x"
    using saved_mapping [OF assms(1,2,5,6)] by blast
  have u: "nonempty (Some user) = Some user" using assms(2) by (simp add: nonempty_eq_Some)
  have raw: "nonempty (Some (stringify (JObj (jm_set (hp_original p) (JStr (js_string candidate)) ob))))
      = Some (stringify (JObj (jm_set (hp_original p) (JStr (js_string candidate)) ob)))"
    using json_object_not_empty [OF assms(1)] by (simp add: nonempty_eq_Some)
  have new: "get_mapping parse (Some user) (hp_field p) x ?st = (if x = hp_original p then JStr (js_string candidate) else field_of ob x)" for x
    using json_parse_stringify [OF assms(1) j] by (simp add: get_mapping_def u st raw)
  have other: "mapping_key u f = ?k \<or> get_mapping parse (Some u) f x ?st = get_mapping parse (Some u) f x (sf_storage s)"
    by (cases u) (auto simp: get_mapping_def st)
  show ?thesis
    using new old other assms(3,4) by (simp add: hitl_confirm_def execute_answered_def Let_def)
qed

lemma confirmed_choice_is_remembered_witness:
  "let p = \<lparr>hp_field = js ''dept'', hp_original = js ''HR'', hp_candidates = []\<rparr>;
       s = \<lparr>sf_loading = False, sf_hitl_open = True, sf_manual_open = False, sf_payload = Some p, sf_error = None,
            sf_storage = [], sf_filled = [], sf_manual = []\<rparr> in
   sf_filled (execute_answered demo_parse (Some (js ''u'')) (Fill_hitl (Some p))
     (hitl_confirm demo_parse demo_stringify (Some (js ''u'')) (JNum 7) s)) =
     [[(js ''dept'', JNum 7)], [(js ''dept'', JStr (js ''7''))]]"
proof -
  let ?p = "\<lparr>hp_field = js ''dept'', hp_original = js ''HR'', hp_candidates = []\<rparr>"
  let ?s = "\<lparr>sf_loading = False, sf_hitl_open = True, sf_manual_open = False, sf_payload = Some ?p, sf_error = None,
     sf_storage = [], sf_filled = [], sf_manual = []\<rparr>"
  have "js ''u'' \<noteq> []" "sf_payload ?s = Some ?p" "js_string (JNum 7) = js ''7''" "js_string (JNum 7) \<noteq> []"
    "mapping_readable demo_parse (js ''u'') (hp_field ?p) (sf_storage ?s)" "\<not> is_index (hp_original ?p)"
    by (simp_all add: mapping_readable_def is_index_def js_def int_dec_def nat_dec.simps)
  from confirmed_choice_is_remembered [OF demo_json this(1,2,4-6)] this(3) show ?thesis by (simp add: Let_def)
qed

text \<open>
  The payload of a question stays after it was answered: a manual selection that a later request
  asks for is reported for the member of the earlier question.
\<close>

theorem manual_selection_reports_old_member:
  assumes "sf_payload s = Some p" "hp_field p \<noteq> []"
  shows "sf_manual (manual_select (execute_answered parse user Fill_manual (execute_begins (hitl_confirm parse stringify user c s))))
    = sf_manual s @ [hp_field p]"
  using assms by (simp add: manual_select_def execute_answered_def execute_begins_def hitl_confirm_def Let_def)

end
