(* ===== verification/Category_Tree.thy ===== *)
theory Category_Tree
  imports Client_Sort "HOL-Library.Monad_Syntax"
begin

text \<open>
  The categories of the knowledge base, frontend/mis-admin-web/src/features/kb/category/
  kb-category-tree.tsx and kb-category-move-dialog.tsx: a flat list with parent identifiers is shown as
  a tree, and a category is moved below another. The recursion over the list ends only when the
  identifiers are distinct, so it is a partial function.
\<close>

section \<open>The tree\<close>

record kb_category =
  kc_id :: int
  kc_parent :: "int option"
  kc_name :: jstr
  kc_sort :: "int option"

type_synonym child_groups = "(int option, kb_category list) jmap"

definition category_ids :: "kb_category list \<Rightarrow> int set" where
  "category_ids cs = kc_id ` set cs"

text \<open>A category whose parent does not exist counts as a root.\<close>

definition parent_key :: "kb_category list \<Rightarrow> kb_category \<Rightarrow> int option" where
  "parent_key list c =
     (case kc_parent c of Some p \<Rightarrow> if p \<in> category_ids list then Some p else None | None \<Rightarrow> None)"

definition add_to_group :: "kb_category list \<Rightarrow> child_groups \<Rightarrow> kb_category \<Rightarrow> child_groups" where
  "add_to_group list m c = jm_set (parent_key list c) (default_to [] (jm_get m (parent_key list c)) @ [c]) m"

definition by_parent :: "kb_category list \<Rightarrow> child_groups" where
  "by_parent list = foldl (add_to_group list) [] list"

definition children_of :: "kb_category list \<Rightarrow> int option \<Rightarrow> kb_category list" where
  "children_of list key = default_to [] (jm_get (by_parent list) key)"

definition sort_then_id :: "kb_category \<Rightarrow> kb_category \<Rightarrow> int" where
  "sort_then_id a b =
     (let d = default_to 0 (kc_sort a) - default_to 0 (kc_sort b) in if d \<noteq> 0 then d else kc_id a - kc_id b)"

definition sorted_children :: "kb_category list \<Rightarrow> int option \<Rightarrow> kb_category list" where
  "sorted_children list key = sort_by sort_then_id (children_of list key)"

text \<open>The loop of \<open>walk\<close>: \<open>keep\<close> says which categories are taken, \<open>enter\<close> below which it goes on.\<close>

partial_function (option) walk_categories ::
  "kb_category list \<Rightarrow> (kb_category \<Rightarrow> bool) \<Rightarrow> (kb_category \<Rightarrow> bool) \<Rightarrow> kb_category list \<Rightarrow> nat \<Rightarrow> (kb_category \<times> nat) list option" where
  "walk_categories list keep enter cs depth =
     (case cs of
        [] \<Rightarrow> Some []
      | c # rest \<Rightarrow>
          Option.bind (if keep c \<and> enter c then walk_categories list keep enter (sorted_children list (Some (kc_id c))) (Suc depth)
                       else Some [])
            (\<lambda>below. Option.bind (walk_categories list keep enter rest depth)
              (\<lambda>others. Some ((if keep c then [(c, depth)] else []) @ below @ others))))"

definition flatten_category_tree :: "kb_category list \<Rightarrow> int set \<Rightarrow> (kb_category \<times> nat) list option" where
  "flatten_category_tree list expanded =
     walk_categories list (\<lambda>c. True) (\<lambda>c. kc_id c \<in> expanded) (sorted_children list None) 0"

definition initial_expanded_set :: "kb_category list \<Rightarrow> int set" where
  "initial_expanded_set list = set (List.map_filter (parent_key list) list)"

text \<open>\<open>descendantIds\<close>; the head of the list is the top of the stack.\<close>

definition push_children :: "kb_category list \<Rightarrow> int list \<times> int jset \<Rightarrow> int list \<times> int jset" where
  "push_children cs sr =
     foldl (\<lambda>(st, res) c. if kc_id c \<in> set res then (st, res) else (kc_id c # st, js_add (kc_id c) res)) sr cs"

lemma push_children_step [simp]:
  "push_children [] sr = sr"
  "push_children (c # cs) (st, res) =
     push_children cs (if kc_id c \<in> set res then (st, res) else (kc_id c # st, js_add (kc_id c) res))"
  by (simp_all add: push_children_def)

lemma push_children_spec:
  "push_children cs (st, res) = (st', res') \<Longrightarrow>
    \<exists>new. st' = new @ st \<and> set res' = set res \<union> set new \<and> distinct new \<and> set new \<inter> set res = {}
      \<and> set new \<subseteq> kc_id ` set cs \<and> kc_id ` set cs \<subseteq> set res'"
proof (induction cs arbitrary: st res)
  case (Cons c cs)
  show ?case
  proof (cases "kc_id c \<in> set res")
    case True
    with Cons.prems have "push_children cs (st, res) = (st', res')" by simp
    from Cons.IH [OF this] True show ?thesis by (auto 0 3)
  next
    case False
    with Cons.prems have "push_children cs (kc_id c # st, js_add (kc_id c) res) = (st', res')" by simp
    from Cons.IH [OF this] obtain new where n: "st' = new @ kc_id c # st" "set res' = set (js_add (kc_id c) res) \<union> set new"
      "distinct new" "set new \<inter> set (js_add (kc_id c) res) = {}" "set new \<subseteq> kc_id ` set cs" "kc_id ` set cs \<subseteq> set res'"
      by blast
    with False show ?thesis by (intro exI [of _ "new @ [kc_id c]"]) auto
  qed
qed simp

lemma add_groups:
  "default_to [] (jm_get (foldl (add_to_group list) m cs) key) = default_to [] (jm_get m key) @ filter (\<lambda>c. parent_key list c = key) cs"
  by (induction cs arbitrary: m) (auto simp: add_to_group_def)

lemma children_of_filter: "children_of list key = filter (\<lambda>c. parent_key list c = key) list"
  by (simp add: children_of_def by_parent_def add_groups)

lemma set_sorted_children: "set (sorted_children list key) = {c \<in> set list. parent_key list c = key}"
  by (auto simp: sorted_children_def children_of_filter)

lemma push_children_smaller:
  assumes "push_children (children_of list (Some cur)) (st, res) = (st', res')"
  shows "((list, st', res'), list, cur # st, res)
      \<in> measures [\<lambda>(list, st, res). card (category_ids list - set res), \<lambda>(list, st, res). length st]"
proof -
  from push_children_spec [OF assms] obtain new where n: "st' = new @ st" "set res' = set res \<union> set new"
    "set new \<inter> set res = {}" "set new \<subseteq> kc_id ` set (children_of list (Some cur))"
    by blast
  have sub: "set new \<subseteq> category_ids list" using n(4) by (auto simp: children_of_filter category_ids_def)
  have fin: "finite (category_ids list)" by (simp add: category_ids_def)
  show ?thesis
  proof (cases "new = []")
    case True
    with n show ?thesis by simp
  next
    case False
    then obtain i where "i \<in> set new" by (cases new) auto
    then have "category_ids list - set res' \<subset> category_ids list - set res" using n sub by auto
    then have "card (category_ids list - set res') < card (category_ids list - set res)"
      using fin by (intro psubset_card_mono) simp_all
    then show ?thesis by simp
  qed
qed

function collect_descendants :: "kb_category list \<Rightarrow> int list \<Rightarrow> int jset \<Rightarrow> int jset" where
  "collect_descendants list [] res = res"
| "collect_descendants list (cur # st) res =
     (case push_children (children_of list (Some cur)) (st, res) of (st', res') \<Rightarrow> collect_descendants list st' res')"
  by pat_completeness auto

termination
  by (relation "measures [\<lambda>(list, st, res). card (category_ids list - set res), \<lambda>(list, st, res). length st]")
    (rule wf_measures, metis push_children_smaller)

definition descendant_ids :: "kb_category list \<Rightarrow> int \<Rightarrow> int jset" where
  "descendant_ids list node = collect_descendants list [node] []"

definition build_category_options :: "kb_category list \<Rightarrow> int option \<Rightarrow> (int \<times> jstr \<times> nat) list option" where
  "build_category_options list disabled =
     (let excluded = (case disabled of Some i \<Rightarrow> descendant_ids list i | None \<Rightarrow> []) in
      map_option (map (\<lambda>(c, d). (kc_id c, kc_name c, d)))
        (walk_categories list (\<lambda>c. kc_id c \<notin> set excluded) (\<lambda>c. True) (sorted_children list None) 0))"

section \<open>Moving\<close>

datatype target_error = Target_missing | Target_below_itself | Target_not_managed

text \<open>The choice of the dialog: \<open>None\<close> to become a root.\<close>

definition target_error :: "kb_category list \<Rightarrow> int set \<Rightarrow> int \<Rightarrow> int option \<Rightarrow> target_error option option" where
  "target_error list manageable node target =
     (case target of
        None \<Rightarrow> Some None
      | Some t \<Rightarrow>
          map_option (\<lambda>options.
            if t \<notin> fst ` set options then Some Target_missing
            else if t \<in> set (js_add node (descendant_ids list node)) then Some Target_below_itself
            else if t \<notin> manageable then Some Target_not_managed
            else None) (build_category_options list None))"

text \<open>What the server stores then.\<close>

definition moved :: "int \<Rightarrow> int option \<Rightarrow> kb_category list \<Rightarrow> kb_category list" where
  "moved node target list = map (\<lambda>c. if kc_id c = node then c\<lparr>kc_parent := target\<rparr> else c) list"

section \<open>What the tree shows\<close>

text \<open>A path from a root: its head is the category, the rest are its ancestors.\<close>

fun root_path :: "kb_category list \<Rightarrow> kb_category list \<Rightarrow> bool" where
  "root_path list [] \<longleftrightarrow> False"
| "root_path list [c] \<longleftrightarrow> c \<in> set list \<and> parent_key list c = None"
| "root_path list (c # p # ps) \<longleftrightarrow> c \<in> set list \<and> parent_key list c = Some (kc_id p) \<and> root_path list (p # ps)"

lemma root_path_members: "root_path list ps \<Longrightarrow> set ps \<subseteq> set list"
  by (induction list ps rule: root_path.induct) auto

lemma root_path_suffix: "root_path list (zs @ c # ps) \<Longrightarrow> root_path list (c # ps)"
proof (induction zs)
  case (Cons z zs)
  then show ?case by (cases zs) auto
qed simp

lemma same_category: "distinct (map kc_id list) \<Longrightarrow> c \<in> set list \<Longrightarrow> d \<in> set list \<Longrightarrow> kc_id c = kc_id d \<Longrightarrow> c = d"
  by (metis distinct_map inj_onD)

lemma root_path_unique:
  assumes dist: "distinct (map kc_id list)"
  shows "root_path list (c # ps) \<Longrightarrow> root_path list (c # qs) \<Longrightarrow> ps = qs"
proof (induction ps arbitrary: c qs)
  case Nil
  then show ?case by (cases qs) auto
next
  case (Cons p ps)
  from Cons.prems obtain q qs' where q: "qs = q # qs'" by (cases qs) auto
  with Cons.prems have *: "kc_id p = kc_id q" "root_path list (p # ps)" "root_path list (q # qs')" by simp_all
  then have "p \<in> set list" "q \<in> set list" by (auto dest!: root_path_members)
  with * have "p = q" by (auto intro: same_category [OF dist])
  with * q Cons.IH show ?case by simp
qed

lemma root_path_distinct:
  assumes dist: "distinct (map kc_id list)"
  shows "root_path list ps \<Longrightarrow> distinct ps"
proof (induction ps)
  case (Cons c ps)
  have "c \<notin> set ps"
  proof
    assume "c \<in> set ps"
    then obtain a b where ab: "ps = a @ c # b" by (meson split_list)
    with Cons.prems have "root_path list ((c # a) @ c # b)" by simp
    then have "root_path list (c # b)" by (rule root_path_suffix)
    with Cons.prems have "ps = b" by (rule root_path_unique [OF dist])
    with ab show False by simp
  qed
  moreover have "distinct ps"
  proof (cases ps)
    case Nil
    then show ?thesis by simp
  next
    case (Cons d qs)
    with Cons.prems \<open>root_path list (c # ps)\<close> have "root_path list ps" by simp
    then show ?thesis by (rule Cons.IH)
  qed
  ultimately show ?case by simp
qed simp

lemma root_path_length:
  assumes "distinct (map kc_id list)" "root_path list ps"
  shows "length ps \<le> length list"
proof -
  have "length ps = card (set ps)" using root_path_distinct [OF assms] by (simp add: distinct_card)
  also have "\<dots> \<le> card (set list)" by (intro card_mono) (simp_all add: root_path_members [OF assms(2)])
  also have "\<dots> \<le> length list" by (rule card_length)
  finally show ?thesis .
qed

text \<open>
  A category the walk shows: on its path below the starting row \<open>ps\<close> every category is kept, and the
  walk entered every ancestor.
\<close>

definition walk_row ::
  "kb_category list \<Rightarrow> (kb_category \<Rightarrow> bool) \<Rightarrow> (kb_category \<Rightarrow> bool) \<Rightarrow> kb_category list \<Rightarrow> kb_category list \<Rightarrow> kb_category \<times> nat \<Rightarrow> bool" where
  "walk_row list keep enter ps cs xd \<longleftrightarrow>
     (\<exists>zs c. c \<in> set cs \<and> root_path list (zs @ c # ps) \<and> fst xd = hd (zs @ [c]) \<and> snd xd = length zs + length ps
        \<and> (\<forall>z \<in> set (zs @ [c]). keep z) \<and> (\<forall>z \<in> set (tl (zs @ [c])). enter z))"

lemma walk_row_Nil [simp]: "\<not> walk_row list keep enter ps [] xd"
  by (simp add: walk_row_def)

lemma walk_row_children:
  assumes "walk_row list keep enter (c # ps) cs xd"
  shows "\<exists>zs. root_path list (zs @ c # ps) \<and> fst xd = hd (zs @ [c]) \<and> zs \<noteq> []
     \<and> snd xd = length zs + length ps \<and> (\<forall>z \<in> set zs. keep z) \<and> (\<forall>z \<in> set (tl zs). enter z)"
proof -
  from assms obtain zs e where "e \<in> set cs" "root_path list (zs @ e # c # ps)" "fst xd = hd (zs @ [e])"
    "snd xd = length zs + Suc (length ps)" "\<forall>z \<in> set (zs @ [e]). keep z" "\<forall>z \<in> set (tl (zs @ [e])). enter z"
    by (auto simp: walk_row_def)
  then show ?thesis by (intro exI [of _ "zs @ [e]"]) (auto simp: hd_append)
qed

lemma walk_row_Cons:
  assumes "root_path list (c # ps)"
  shows "walk_row list keep enter ps (c # cs) xd \<longleftrightarrow>
     keep c \<and> (xd = (c, length ps) \<or> enter c \<and> walk_row list keep enter (c # ps) (sorted_children list (Some (kc_id c))) xd)
     \<or> walk_row list keep enter ps cs xd" (is "?l \<longleftrightarrow> keep c \<and> (?here \<or> enter c \<and> ?below) \<or> ?rest")
proof
  assume ?l
  then obtain zs e where e: "e \<in> set (c # cs)" "root_path list (zs @ e # ps)" "fst xd = hd (zs @ [e])"
    "snd xd = length zs + length ps" "\<forall>z \<in> set (zs @ [e]). keep z" "\<forall>z \<in> set (tl (zs @ [e])). enter z"
    by (auto simp: walk_row_def)
  show "keep c \<and> (?here \<or> enter c \<and> ?below) \<or> ?rest"
  proof (cases "e \<in> set cs")
    case True
    with e have ?rest unfolding walk_row_def by blast
    then show ?thesis ..
  next
    case False
    with e have [simp]: "e = c" by simp
    show ?thesis
    proof (cases zs rule: rev_cases)
      case Nil
      with e show ?thesis by (cases xd) simp
    next
      case (snoc ys y)
      from e(2) snoc have "root_path list (y # c # ps)" using root_path_suffix [of list ys y "c # ps"] by simp
      then have "y \<in> set (sorted_children list (Some (kc_id c)))" by (simp add: set_sorted_children)
      with e snoc have ?below unfolding walk_row_def
        by (intro exI [of _ ys] exI [of _ y]) (auto simp: hd_append tl_append split: list.splits)
      moreover from e snoc have "keep c" "enter c" by (auto simp: tl_append split: list.splits)
      ultimately show ?thesis by simp
    qed
  qed
next
  assume "keep c \<and> (?here \<or> enter c \<and> ?below) \<or> ?rest"
  then consider "keep c" ?here | "keep c" "enter c" ?below | ?rest by blast
  then show ?l
  proof cases
    case 1
    with assms show ?thesis unfolding walk_row_def by (intro exI [of _ "[]"] exI [of _ c]) simp
  next
    case 2
    from walk_row_children [OF 2(3)] obtain zs where "root_path list (zs @ c # ps)" "fst xd = hd (zs @ [c])" "zs \<noteq> []"
      "snd xd = length zs + length ps" "\<forall>z \<in> set zs. keep z" "\<forall>z \<in> set (tl zs). enter z" by blast
    with 2 show ?thesis unfolding walk_row_def by (intro exI [of _ zs] exI [of _ c]) (auto simp: tl_append split: list.splits)
  next
    case 3
    then show ?thesis unfolding walk_row_def by auto
  qed
qed

lemma root_path_same_head:
  assumes "distinct (map kc_id list)" "root_path list (zs @ c # ps)" "root_path list (zs' @ e # ps')"
    "hd (zs @ [c]) = hd (zs' @ [e])"
  shows "zs @ c # ps = zs' @ e # ps'"
proof -
  from assms(4) obtain x qs qs' where "zs @ c # ps = x # qs" "zs' @ e # ps' = x # qs'"
    by (cases zs; cases zs') auto
  with assms root_path_unique [OF assms(1), of x qs qs'] show ?thesis by simp
qed

lemma walk_row_own:
  assumes "distinct (map kc_id list)" "root_path list (c # ps)" "walk_row list keep enter (c # ps) cs (x, d)"
  shows "x \<noteq> c"
proof
  from walk_row_children [OF assms(3)] obtain zs where "root_path list (zs @ c # ps)" "x = hd (zs @ [c])" "zs \<noteq> []" by auto
  moreover assume "x = c"
  ultimately have "zs @ c # ps = [] @ c # ps" using assms by (intro root_path_same_head) auto
  with \<open>zs \<noteq> []\<close> show False by simp
qed

lemma walk_row_elsewhere:
  assumes "distinct (map kc_id list)" "root_path list (c # ps)" "c \<notin> set cs" "walk_row list keep enter ps cs (x, d)"
  shows "x \<noteq> c" "\<not> walk_row list keep' enter' (c # ps) bs (x, d')"
proof -
  from assms(4) obtain zs e where e: "e \<in> set cs" "root_path list (zs @ e # ps)" "x = hd (zs @ [e])"
    by (auto simp: walk_row_def)
  show "x \<noteq> c"
  proof
    assume "x = c"
    with e assms have "zs @ e # ps = [] @ c # ps" by (intro root_path_same_head) auto
    with e assms(3) show False by (auto simp: append_eq_append_conv2 append_eq_Cons_conv)
  qed
  show "\<not> walk_row list keep' enter' (c # ps) bs (x, d')"
  proof
    assume "walk_row list keep' enter' (c # ps) bs (x, d')"
    from walk_row_children [OF this] obtain zs' where "root_path list (zs' @ c # ps)" "x = hd (zs' @ [c])" by auto
    with e assms have "zs @ e # ps = zs' @ c # ps" by (intro root_path_same_head) auto
    then have "(zs @ [e]) @ ps = (zs' @ [c]) @ ps" by simp
    then have "e = c" by simp
    with e assms(3) show False by simp
  qed
qed

text \<open>What the walk returns: every row of the tree, each category once.\<close>

definition walk_result ::
  "kb_category list \<Rightarrow> (kb_category \<Rightarrow> bool) \<Rightarrow> (kb_category \<Rightarrow> bool) \<Rightarrow> kb_category list \<Rightarrow> kb_category list \<Rightarrow> (kb_category \<times> nat) list option \<Rightarrow> bool" where
  "walk_result list keep enter ps cs res \<longleftrightarrow>
     (\<exists>rows. res = Some rows \<and> distinct (map fst rows) \<and> (\<forall>xd. xd \<in> set rows \<longleftrightarrow> walk_row list keep enter ps cs xd))"

lemma walk_result_Cons:
  assumes dist: "distinct (map kc_id list)" and c: "root_path list (c # ps)" "c \<notin> set cs"
    and below: "keep c \<Longrightarrow> enter c \<Longrightarrow> walk_result list keep enter (c # ps) (sorted_children list (Some (kc_id c)))
      (walk_categories list keep enter (sorted_children list (Some (kc_id c))) (Suc (length ps)))"
    and rest: "walk_result list keep enter ps cs (walk_categories list keep enter cs (length ps))"
  shows "walk_result list keep enter ps (c # cs) (walk_categories list keep enter (c # cs) (length ps))"
proof -
  from rest obtain others where o: "walk_categories list keep enter cs (length ps) = Some others" "distinct (map fst others)"
    "\<And>xd. xd \<in> set others \<longleftrightarrow> walk_row list keep enter ps cs xd" by (auto simp: walk_result_def)
  define into where "into \<longleftrightarrow> keep c \<and> enter c"
  obtain rows where r: "(if into then walk_categories list keep enter (sorted_children list (Some (kc_id c))) (Suc (length ps)) else Some []) = Some rows"
    "distinct (map fst rows)"
    "\<And>xd. xd \<in> set rows \<longleftrightarrow> into \<and> walk_row list keep enter (c # ps) (sorted_children list (Some (kc_id c))) xd"
    using below by (cases into) (auto simp: into_def walk_result_def)
  have res: "walk_categories list keep enter (c # cs) (length ps) = Some ((if keep c then [(c, length ps)] else []) @ rows @ others)"
    by (subst walk_categories.simps) (use r o in \<open>simp add: into_def\<close>)
  have own: "c \<notin> fst ` set rows" by (auto simp: r(3) dest: walk_row_own [OF dist c(1)])
  have other: "c \<notin> fst ` set others" "fst ` set rows \<inter> fst ` set others = {}"
    by (auto simp: o(3) r(3) dest: walk_row_elsewhere(1) [OF dist c] walk_row_elsewhere(2) [OF dist c])
  show ?thesis unfolding walk_result_def res
  proof (intro exI conjI allI)
    show "distinct (map fst ((if keep c then [(c, length ps)] else []) @ rows @ others))"
      using r(2) o(2) own other by (simp add: Int_commute)
    show "(xd \<in> set ((if keep c then [(c, length ps)] else []) @ rows @ others)) = walk_row list keep enter ps (c # cs) xd" for xd
      by (auto simp: walk_row_Cons [OF c(1)] r(3) o(3) into_def)
  qed simp
qed

lemma distinct_sorted_children: "distinct list \<Longrightarrow> distinct (sorted_children list key)"
  by (metis children_of_filter distinct_filter mset_eq_imp_distinct_iff mset_sort_by sorted_children_def)

lemma walk_result_ok:
  assumes dist: "distinct (map kc_id list)"
  shows "\<forall>c \<in> set cs. root_path list (c # ps) \<Longrightarrow> distinct cs \<Longrightarrow>
    walk_result list keep enter ps cs (walk_categories list keep enter cs (length ps))"
proof (induction "length list - length ps" arbitrary: cs ps rule: less_induct)
  case less
  from less.prems show ?case
  proof (induction cs)
    case Nil
    then show ?case by (simp add: walk_result_def walk_categories.simps)
  next
    case (Cons c cs)
    then have c: "root_path list (c # ps)" "c \<notin> set cs" by auto
    show ?case
    proof (rule walk_result_Cons [OF dist c])
      have "walk_result list keep enter (c # ps) (sorted_children list (Some (kc_id c)))
        (walk_categories list keep enter (sorted_children list (Some (kc_id c))) (length (c # ps)))"
        using root_path_length [OF dist c(1)] c dist
        by (intro less.hyps) (auto simp: set_sorted_children distinct_map intro!: distinct_sorted_children)
      then show "walk_result list keep enter (c # ps) (sorted_children list (Some (kc_id c)))
        (walk_categories list keep enter (sorted_children list (Some (kc_id c))) (Suc (length ps)))" by simp
      show "walk_result list keep enter ps cs (walk_categories list keep enter cs (length ps))" using Cons by simp
    qed
  qed
qed

lemma walk_from_roots:
  assumes "distinct (map kc_id list)"
  shows "walk_result list keep enter [] (sorted_children list None) (walk_categories list keep enter (sorted_children list None) 0)"
  using walk_result_ok [OF assms, of "sorted_children list None" "[]" keep enter] assms
  by (auto simp: set_sorted_children distinct_map intro!: distinct_sorted_children)

lemma walk_row_roots:
  "walk_row list keep enter [] (sorted_children list None) (x, d) \<longleftrightarrow>
     (\<exists>ps. root_path list (x # ps) \<and> d = length ps \<and> (\<forall>z \<in> set (x # ps). keep z) \<and> (\<forall>z \<in> set ps. enter z))" (is "?l \<longleftrightarrow> ?r")
proof
  assume ?l
  then obtain zs c where z: "root_path list (zs @ [c])" "x = hd (zs @ [c])" "d = length zs"
    "\<forall>z \<in> set (zs @ [c]). keep z" "\<forall>z \<in> set (tl (zs @ [c])). enter z" by (auto simp: walk_row_def)
  then have "zs @ [c] = x # tl (zs @ [c])" by (cases zs) auto
  moreover from z have "d = length (tl (zs @ [c]))" by simp
  ultimately show ?r using z by (metis)
next
  assume ?r
  then obtain ps where p: "root_path list (x # ps)" "d = length ps" "\<forall>z \<in> set (x # ps). keep z" "\<forall>z \<in> set ps. enter z" by blast
  obtain zs c where zs: "x # ps = zs @ [c]" by (metis rev_exhaust list.distinct(1))
  from p(1) zs have "root_path list [c]" using root_path_suffix [of list zs c "[]"] by simp
  moreover from zs have "x = hd (zs @ [c])" "ps = tl (zs @ [c])" "length zs = length ps"
    by (metis list.sel(1), metis list.sel(3), metis length_append_singleton length_Cons nat.inject)
  ultimately show ?l using p zs unfolding walk_row_def
    by (intro exI [of _ zs] exI [of _ c]) (simp add: set_sorted_children)
qed

section \<open>Descendants\<close>

definition child_relation :: "kb_category list \<Rightarrow> (int \<times> int) set" where
  "child_relation list = {(p, kc_id c) | p c. c \<in> set list \<and> parent_key list c = Some p}"

lemma children_relation: "kc_id ` set (children_of list (Some p)) = child_relation list `` {p}"
  by (auto simp: child_relation_def children_of_filter)

lemma collect_descendants_spec:
  assumes "\<forall>x \<in> insert node (set res). x \<in> set st \<or> child_relation list `` {x} \<subseteq> set res"
    "set st \<subseteq> insert node (set res)" "set res \<subseteq> (child_relation list)\<^sup>+ `` {node}"
  shows "set (collect_descendants list st res) = (child_relation list)\<^sup>+ `` {node}"
  using assms
proof (induction list st res rule: collect_descendants.induct)
  case (1 list res)
  have "(node, y) \<in> (child_relation list)\<^sup>+ \<Longrightarrow> y \<in> set res" for y
    by (induction rule: trancl_induct) (use 1 in auto)
  with 1 show ?case by auto
next
  case (2 list cur st res)
  obtain st' res' where p: "push_children (children_of list (Some cur)) (st, res) = (st', res')" by fastforce
  from push_children_spec [OF this] obtain new where n: "st' = new @ st" "set res' = set res \<union> set new"
    "set new \<subseteq> child_relation list `` {cur}" "child_relation list `` {cur} \<subseteq> set res'"
    by (auto simp: children_relation)
  have cur: "(node, y) \<in> (child_relation list)\<^sup>+" if "(cur, y) \<in> child_relation list" for y
    using "2.prems"(2,3) that by (auto intro: trancl_into_trancl)
  have "set (collect_descendants list st' res') = (child_relation list)\<^sup>+ `` {node}"
  proof (rule "2.IH" [OF p [symmetric]])
    show "\<forall>x \<in> insert node (set res'). x \<in> set st' \<or> child_relation list `` {x} \<subseteq> set res'"
      using "2.prems"(1) n by auto
    show "set st' \<subseteq> insert node (set res')" using "2.prems"(2) n by auto
    show "set res' \<subseteq> (child_relation list)\<^sup>+ `` {node}" using "2.prems"(3) n(2,3) cur by auto
  qed
  with p show ?case by simp
qed

lemma set_descendant_ids: "set (descendant_ids list node) = (child_relation list)\<^sup>+ `` {node}"
  unfolding descendant_ids_def by (rule collect_descendants_spec) auto

section \<open>Moving a category\<close>

lemma child_relation_iff:
  "(p, i) \<in> child_relation list \<longleftrightarrow> p \<in> category_ids list \<and> (\<exists>c \<in> set list. kc_id c = i \<and> kc_parent c = Some p)"
  by (auto simp: child_relation_def parent_key_def split: option.splits if_splits)

lemma category_ids_moved [simp]: "category_ids (moved node target list) = category_ids list"
proof -
  have "map kc_id (moved node target list) = map kc_id list" by (simp add: moved_def)
  then have "set (map kc_id (moved node target list)) = set (map kc_id list)" by (rule arg_cong)
  then show ?thesis by (simp add: category_ids_def)
qed

lemma category_moved:
  "(\<exists>c \<in> set (moved node target list). kc_id c = i \<and> kc_parent c = q) \<longleftrightarrow>
     (if i = node then i \<in> category_ids list \<and> q = target else \<exists>c \<in> set list. kc_id c = i \<and> kc_parent c = q)"
proof -
  define f where "f c = (if kc_id c = node then c\<lparr>kc_parent := target\<rparr> else c)" for c :: kb_category
  have "kc_id (f c) = i \<and> kc_parent (f c) = q \<longleftrightarrow>
      (if i = node then kc_id c = i \<and> q = target else kc_id c = i \<and> kc_parent c = q)" for c
    unfolding f_def by (cases "kc_id c = node") auto
  then have "(\<exists>c \<in> set list. kc_id (f c) = i \<and> kc_parent (f c) = q) \<longleftrightarrow>
      (\<exists>c \<in> set list. if i = node then kc_id c = i \<and> q = target else kc_id c = i \<and> kc_parent c = q)" by simp
  moreover have "moved node target list = map f list" by (simp add: moved_def f_def)
  moreover have "i \<in> category_ids list \<longleftrightarrow> (\<exists>c \<in> set list. kc_id c = i)" for i by (auto simp: category_ids_def)
  ultimately show ?thesis by simp
qed

lemma child_relation_moved:
  "(p, i) \<in> child_relation (moved node target list) \<longleftrightarrow>
     (if i = node then target = Some p \<and> p \<in> category_ids list \<and> node \<in> category_ids list else (p, i) \<in> child_relation list)"
  unfolding child_relation_iff category_moved by auto

lemma move_stays_acyclic:
  assumes "acyclic (child_relation list)" "\<And>t. target = Some t \<Longrightarrow> t \<noteq> node \<and> t \<notin> set (descendant_ids list node)"
  shows "acyclic (child_relation (moved node target list))"
proof (cases target)
  case None
  then have "child_relation (moved node target list) \<subseteq> child_relation list" by (auto simp: child_relation_moved split: if_splits)
  with assms(1) show ?thesis by (rule acyclic_subset)
next
  case (Some t)
  with assms(2) have "(node, t) \<notin> (child_relation list)\<^sup>*" by (auto simp: set_descendant_ids rtrancl_eq_or_trancl)
  with assms(1) have "acyclic (insert (t, node) (child_relation list))" by simp
  moreover have "child_relation (moved node target list) \<subseteq> insert (t, node) (child_relation list)"
    using Some by (auto simp: child_relation_moved split: if_splits)
  ultimately show ?thesis by (rule acyclic_subset)
qed

lemma move_below_itself_cycles:
  assumes ac: "acyclic (child_relation list)" and node: "node \<in> category_ids list" "t \<in> category_ids list"
    and t: "t = node \<or> t \<in> set (descendant_ids list node)"
  shows "\<not> acyclic (child_relation (moved node (Some t) list))"
proof -
  define N where "N = child_relation (moved node (Some t) list)"
  have "(node, t) \<in> (child_relation list)\<^sup>*" using t by (auto simp: set_descendant_ids)
  then have "(node, t) \<in> N\<^sup>*"
  proof (induction rule: rtrancl_induct)
    case (step y z)
    have "z \<noteq> node"
    proof
      assume "z = node"
      with step.hyps have "(node, node) \<in> (child_relation list)\<^sup>+" by auto
      with ac show False by (simp add: acyclic_def)
    qed
    with step.hyps have "(y, z) \<in> N" by (auto simp: N_def child_relation_moved)
    with step.IH show ?case by (rule rtrancl_into_rtrancl)
  qed simp
  moreover have "(t, node) \<in> N" using node by (auto simp: N_def child_relation_moved)
  ultimately have "(node, node) \<in> N\<^sup>+" by (rule rtrancl_into_trancl1)
  then show ?thesis by (auto simp: acyclic_def N_def)
qed

lemma finite_child_relation: "finite (child_relation list)"
proof (rule finite_subset)
  show "child_relation list \<subseteq> category_ids list \<times> category_ids list"
    by (auto simp: child_relation_iff category_ids_def)
qed (simp add: category_ids_def)

lemma acyclic_root_path:
  assumes "distinct (map kc_id list)" "acyclic (child_relation list)"
  shows "c \<in> set list \<Longrightarrow> \<exists>ps. root_path list (c # ps)"
proof -
  have "wf (child_relation list)" using finite_child_relation assms(2) by (rule finite_acyclic_wf)
  then have "\<forall>c \<in> set list. kc_id c = i \<longrightarrow> (\<exists>ps. root_path list (c # ps))" for i
  proof (induction i rule: wf_induct_rule)
    case (less i)
    show ?case
    proof (intro ballI impI)
      fix c assume c: "c \<in> set list" "kc_id c = i"
      show "\<exists>ps. root_path list (c # ps)"
      proof (cases "parent_key list c")
        case None
        with c have "root_path list [c]" by simp
        then show ?thesis ..
      next
        case (Some p)
        with c have "(p, i) \<in> child_relation list" by (auto simp: child_relation_def)
        moreover from this obtain d where d: "d \<in> set list" "kc_id d = p"
          by (auto simp: child_relation_iff category_ids_def)
        ultimately obtain ps where "root_path list (d # ps)" using less.IH by blast
        with c Some d have "root_path list (c # d # ps)" by simp
        then show ?thesis ..
      qed
    qed
  qed
  then show "c \<in> set list \<Longrightarrow> ?thesis" by blast
qed

lemma all_options:
  assumes "distinct (map kc_id list)" "acyclic (child_relation list)"
  shows "\<exists>options. build_category_options list None = Some options \<and> fst ` set options = category_ids list"
proof -
  from walk_from_roots [OF assms(1), of "\<lambda>c. True" "\<lambda>c. True"] obtain rows
    where w: "walk_categories list (\<lambda>c. True) (\<lambda>c. True) (sorted_children list None) 0 = Some rows"
      "\<And>xd. xd \<in> set rows \<longleftrightarrow> walk_row list (\<lambda>c. True) (\<lambda>c. True) [] (sorted_children list None) xd"
    by (auto simp: walk_result_def)
  have row: "(x, d) \<in> set rows \<longleftrightarrow> (\<exists>ps. root_path list (x # ps) \<and> d = length ps)" for x d
    by (simp add: w(2) walk_row_roots)
  have "fst ` set rows = set list"
  proof
    show "fst ` set rows \<subseteq> set list" using root_path_members by (fastforce simp: row)
    show "set list \<subseteq> fst ` set rows"
    proof
      fix c assume "c \<in> set list"
      then obtain ps where "root_path list (c # ps)" using acyclic_root_path [OF assms] by blast
      then have "(c, length ps) \<in> set rows" by (auto simp: row)
      then show "c \<in> fst ` set rows" by force
    qed
  qed
  moreover have "build_category_options list None = Some (map (\<lambda>(c, d). (kc_id c, kc_name c, d)) rows)"
    using w(1) by (simp add: build_category_options_def)
  moreover have "fst ` set (map (\<lambda>(c, d). (kc_id c, kc_name c, d)) rows) = kc_id ` fst ` set rows" by force
  ultimately show ?thesis by (auto simp: category_ids_def)
qed

section \<open>Properties\<close>

text \<open>
  C33: When the identifiers are distinct, the tree is computed and shows every category at most once: the
  categories whose ancestors up to a root are all expanded, each at the depth of its path.
\<close>

theorem tree_shows_each_category_once:
  assumes "distinct (map kc_id list)"
  shows "\<exists>rows. flatten_category_tree list expanded = Some rows \<and> distinct (map fst rows)
     \<and> (\<forall>c d. (c, d) \<in> set rows \<longleftrightarrow> (\<exists>ps. root_path list (c # ps) \<and> d = length ps \<and> (\<forall>p \<in> set ps. kc_id p \<in> expanded)))"
  using walk_from_roots [OF assms, of "\<lambda>c. True" "\<lambda>c. kc_id c \<in> expanded"]
  by (auto simp: walk_result_def flatten_category_tree_def walk_row_roots)

definition sample_categories :: "kb_category list" where
  "sample_categories =
     [\<lparr>kc_id = 1, kc_parent = None, kc_name = js ''docs'', kc_sort = None\<rparr>,
      \<lparr>kc_id = 2, kc_parent = Some 1, kc_name = js ''news'', kc_sort = Some 1\<rparr>,
      \<lparr>kc_id = 3, kc_parent = Some 9, kc_name = js ''lost'', kc_sort = None\<rparr>]"

lemma sample_distinct: "distinct (map kc_id sample_categories)"
  by (simp add: sample_categories_def)

theorem tree_shows_each_category_once_witness:
  "distinct (map kc_id sample_categories)
     \<and> (\<exists>rows. flatten_category_tree sample_categories {1} = Some rows \<and> distinct (map fst rows)
       \<and> (\<exists>c. (c, 1) \<in> set rows \<and> kc_id c = 2))"
proof -
  let ?c = "sample_categories ! 1" and ?p = "sample_categories ! 0"
  from tree_shows_each_category_once [OF sample_distinct, of "{1}"] obtain rows
    where r: "flatten_category_tree sample_categories {1} = Some rows" "distinct (map fst rows)"
      "\<And>c d. (c, d) \<in> set rows \<longleftrightarrow> (\<exists>ps. root_path sample_categories (c # ps) \<and> d = length ps \<and> (\<forall>p \<in> set ps. kc_id p \<in> {1}))"
    by blast
  have "root_path sample_categories [?c, ?p]"
    by (simp add: sample_categories_def parent_key_def category_ids_def)
  moreover have "kc_id ?p = 1" by (simp add: sample_categories_def)
  ultimately have "(?c, 1) \<in> set rows" by (subst r(3)) (intro exI [of _ "[?p]"], simp)
  moreover have "kc_id ?c = 2" by (simp add: sample_categories_def)
  ultimately show ?thesis using r sample_distinct by blast
qed

text \<open>
  C34: In a list without cycles, the dialog refuses a target as the category itself or one below it exactly
  when storing the move would close a cycle, and lets a managed target through exactly when it would not.
\<close>

theorem move_guard_is_exact:
  assumes "distinct (map kc_id list)" "acyclic (child_relation list)" "node \<in> category_ids list" "t \<in> category_ids list"
  shows "\<exists>err. target_error list manageable node (Some t) = Some err
     \<and> (err = None \<longleftrightarrow> acyclic (child_relation (moved node (Some t) list)) \<and> t \<in> manageable)
     \<and> (err = Some Target_below_itself \<longleftrightarrow> \<not> acyclic (child_relation (moved node (Some t) list)))"
proof -
  have "acyclic (child_relation (moved node (Some t) list)) \<longleftrightarrow> t \<notin> insert node (set (descendant_ids list node))"
    using move_stays_acyclic [OF assms(2), of "Some t" node] move_below_itself_cycles [OF assms(2-4)] by blast
  moreover obtain options where "build_category_options list None = Some options" "fst ` set options = category_ids list"
    using all_options [OF assms(1,2)] by blast
  ultimately show ?thesis using assms(4) by (simp add: target_error_def)
qed

lemma sample_acyclic: "acyclic (child_relation sample_categories)"
proof -
  have "child_relation sample_categories = {(1, 2)}"
    by (auto simp: child_relation_iff sample_categories_def category_ids_def)
  moreover have "acyclic (insert (1, 2) ({} :: (int \<times> int) set))" unfolding acyclic_insert by (simp add: acyclic_def)
  ultimately show ?thesis by simp
qed

theorem move_guard_is_exact_witness:
  "distinct (map kc_id sample_categories) \<and> acyclic (child_relation sample_categories)
     \<and> target_error sample_categories {2} 1 (Some 2) = Some (Some Target_below_itself)
     \<and> \<not> acyclic (child_relation (moved 1 (Some 2) sample_categories))"
proof -
  have ids: "1 \<in> category_ids sample_categories" "2 \<in> category_ids sample_categories"
    by (simp_all add: category_ids_def sample_categories_def)
  have "(1, 2) \<in> child_relation sample_categories"
    by (auto simp: child_relation_iff sample_categories_def category_ids_def)
  then have "2 \<in> set (descendant_ids sample_categories 1)" by (auto simp: set_descendant_ids)
  with ids sample_acyclic have "\<not> acyclic (child_relation (moved 1 (Some 2) sample_categories))"
    by (intro move_below_itself_cycles) auto
  with move_guard_is_exact [OF sample_distinct sample_acyclic ids, of "{2}"] sample_distinct sample_acyclic
  show ?thesis by auto
qed

text \<open>Excluding a category from the options of a form leaves out what is below it, not the category itself.\<close>

theorem disabled_category_still_offered:
  "build_category_options [\<lparr>kc_id = 1, kc_parent = None, kc_name = js ''docs'', kc_sort = None\<rparr>] (Some 1)
     = Some [(1, js ''docs'', 0)]"
  by (simp add: build_category_options_def descendant_ids_def children_of_filter sorted_children_def parent_key_def
      category_ids_def sort_by_def walk_categories.simps)

end
