(* ===== verification/Role_Menus.thy ===== *)
theory Role_Menus
  imports Js_Map Js_Number "HOL-Library.Monad_Syntax"
begin

text \<open>
  The page of the roles, frontend/mis-admin-web/src/features/system/role/role-list-page.tsx: the menu
  tree with its check boxes, the form, and the requests of the page. A request that waits is a task;
  its continuation is the operation that takes the answer, and answers come in any order.
\<close>

section \<open>The menu tree\<close>

text \<open>A missing list of children counts as an empty one, as everywhere in the page.\<close>

datatype role_menu = Role_menu (rm_id: jstr) (rm_name: jstr) (rm_children: "role_menu list")

fun menu_descendants :: "role_menu \<Rightarrow> jstr list" where
  "menu_descendants (Role_menu i nm cs) = i # concat (map menu_descendants cs)"

type_synonym parent_map = "(jstr, jstr) jmap"

text \<open>The recursion of \<open>buildParentMap\<close>; the missing parent of a root is the empty string, both are falsy.\<close>

fun walk_parents :: "jstr \<Rightarrow> parent_map \<Rightarrow> role_menu \<Rightarrow> parent_map" where
  "walk_parents parent m (Role_menu i nm cs) =
     foldl (walk_parents i) (if parent \<noteq> [] then jm_set i parent m else m) cs"

definition build_parent_map :: "role_menu list \<Rightarrow> parent_map" where
  "build_parent_map nodes = foldl (walk_parents []) [] nodes"

text \<open>The loop over the ancestors ends only when the parents have no cycle.\<close>

partial_function (option) climb :: "parent_map \<Rightarrow> jstr option \<Rightarrow> jstr jset \<Rightarrow> jstr jset option" where
  "climb m p s =
     (case p of
        None \<Rightarrow> Some s
      | Some q \<Rightarrow> if q = [] then Some s else climb m (jm_get m q) (js_add q s))"

fun check_menus :: "parent_map \<Rightarrow> jstr list \<Rightarrow> jstr jset \<Rightarrow> jstr jset option" where
  "check_menus m [] s = Some s"
| "check_menus m (i # is) s = Option.bind (climb m (jm_get m i) (js_add i s)) (check_menus m is)"

definition toggle_menus :: "parent_map \<Rightarrow> jstr list \<Rightarrow> bool \<Rightarrow> jstr jset \<Rightarrow> jstr jset option" where
  "toggle_menus m ids next s = (if next then check_menus m ids s else Some (foldl (\<lambda>t i. js_remove i t) s ids))"

text \<open>What a check box shows, and what a click on it does.\<close>

definition child_ids :: "role_menu \<Rightarrow> jstr list" where
  "child_ids n = tl (menu_descendants n)"

definition all_children_checked :: "jstr set \<Rightarrow> role_menu \<Rightarrow> bool" where
  "all_children_checked s n \<longleftrightarrow> child_ids n \<noteq> [] \<and> list_all (\<lambda>i. i \<in> s) (child_ids n)"

definition box_checked :: "jstr set \<Rightarrow> role_menu \<Rightarrow> bool" where
  "box_checked s n \<longleftrightarrow> (if child_ids n \<noteq> [] then all_children_checked s n else rm_id n \<in> s)"

definition box_indeterminate :: "jstr set \<Rightarrow> role_menu \<Rightarrow> bool" where
  "box_indeterminate s n \<longleftrightarrow> list_ex (\<lambda>i. i \<in> s) (child_ids n) \<and> \<not> all_children_checked s n"

definition click_box :: "role_menu list \<Rightarrow> role_menu \<Rightarrow> jstr jset \<Rightarrow> jstr jset option" where
  "click_box nodes n s = toggle_menus (build_parent_map nodes) (menu_descendants n) (\<not> box_checked (set s) n) s"

section \<open>Facts about the tree\<close>

fun subnodes :: "role_menu \<Rightarrow> role_menu list" where
  "subnodes (Role_menu i nm cs) = Role_menu i nm cs # concat (map subnodes cs)"

definition all_nodes :: "role_menu list \<Rightarrow> role_menu list" where
  "all_nodes ns = concat (map subnodes ns)"

text \<open>The trees the backend sends: every identifier occurs once and none is empty.\<close>

definition proper_menus :: "role_menu list \<Rightarrow> bool" where
  "proper_menus ns \<longleftrightarrow> distinct (map rm_id (all_nodes ns)) \<and> [] \<notin> rm_id ` set (all_nodes ns)"

lemma menu_descendants_subnodes: "menu_descendants n = map rm_id (subnodes n)"
proof (induction n)
  case (Role_menu i nm cs)
  then have "map menu_descendants cs = map (\<lambda>c. map rm_id (subnodes c)) cs" by simp
  then show ?case by (simp only: menu_descendants.simps subnodes.simps map_concat map_map list.map role_menu.sel comp_def)
qed

lemma subnode_self [simp]: "n \<in> set (subnodes n)"
  by (cases n) simp

lemma subnodes_trans: "m \<in> set (subnodes n) \<Longrightarrow> k \<in> set (subnodes m) \<Longrightarrow> k \<in> set (subnodes n)"
proof (induction n arbitrary: m k)
  case (Role_menu i nm cs)
  then show ?case by auto
qed

lemma child_subnode: "c \<in> set (rm_children m) \<Longrightarrow> c \<in> set (subnodes m)"
  by (cases m) (auto intro!: bexI [of _ c])

definition menu_edges :: "role_menu list \<Rightarrow> (jstr \<times> jstr) set" where
  "menu_edges ns = {(rm_id m, rm_id c) | m c. m \<in> set (all_nodes ns) \<and> c \<in> set (rm_children m)}"

text \<open>What the walk stores, as a list of pairs.\<close>

fun walk_pairs :: "jstr \<Rightarrow> role_menu \<Rightarrow> (jstr \<times> jstr) list" where
  "walk_pairs parent (Role_menu i nm cs) =
     (if parent \<noteq> [] then [(i, parent)] else []) @ concat (map (walk_pairs i) cs)"

definition put_pairs :: "(jstr \<times> jstr) list \<Rightarrow> parent_map \<Rightarrow> parent_map" where
  "put_pairs es m = foldl (\<lambda>m e. jm_set (fst e) (snd e) m) m es"

lemma put_pairs_append [simp]: "put_pairs (es @ fs) m = put_pairs fs (put_pairs es m)"
  by (simp add: put_pairs_def)

lemma put_pairs_Nil [simp]: "put_pairs [] m = m"
  by (simp add: put_pairs_def)

lemma put_pairs_single [simp]: "put_pairs [(i, p)] m = jm_set i p m"
  by (simp add: put_pairs_def)

lemma foldl_put_pairs:
  "(\<And>c m. c \<in> set cs \<Longrightarrow> f m c = put_pairs (g c) m) \<Longrightarrow> foldl f m cs = put_pairs (concat (map g cs)) m"
  by (induction cs arbitrary: m) auto

lemma walk_parents_pairs: "walk_parents parent m n = put_pairs (walk_pairs parent n) m"
proof (induction n arbitrary: parent m)
  case (Role_menu i nm cs)
  have "foldl (walk_parents i) m' cs = put_pairs (concat (map (walk_pairs i) cs)) m'" for m'
    by (rule foldl_put_pairs) (rule Role_menu)
  then show ?case by simp
qed

lemma jm_get_put_pairs: "distinct (map fst es) \<Longrightarrow> jm_get (put_pairs es []) i = map_of es i"
proof (induction es rule: rev_induct)
  case (snoc e es)
  then have "map_of es (fst e) = None" by (simp add: map_of_eq_None_iff)
  with snoc show ?case by (cases e) (auto simp: put_pairs_def map_add_def split: option.splits)
qed simp

lemma build_parent_map_pairs: "build_parent_map ns = put_pairs (concat (map (walk_pairs []) ns)) []"
  unfolding build_parent_map_def by (rule foldl_put_pairs) (rule walk_parents_pairs)

lemma map_fst_walk_pairs:
  "[] \<notin> rm_id ` set (subnodes n) \<Longrightarrow>
     map fst (walk_pairs parent n) = (if parent \<noteq> [] then map rm_id (subnodes n) else tl (map rm_id (subnodes n)))"
proof (induction n arbitrary: parent)
  case (Role_menu i nm cs)
  then have i: "i \<noteq> []" by auto
  have "map fst (walk_pairs i c) = map rm_id (subnodes c)" if "c \<in> set cs" for c
    using Role_menu.IH [OF that, of i] Role_menu.prems that i by auto
  then have "map (\<lambda>c. map fst (walk_pairs i c)) cs = map (\<lambda>c. map rm_id (subnodes c)) cs" by simp
  then have "map fst (concat (map (walk_pairs i) cs)) = map rm_id (concat (map subnodes cs))"
    by (simp only: map_concat map_map comp_def)
  then show ?case by simp
qed

definition node_edges :: "role_menu \<Rightarrow> (jstr \<times> jstr) set" where
  "node_edges n = {(rm_id m, rm_id c) | m c. m \<in> set (subnodes n) \<and> c \<in> set (rm_children m)}"

lemma node_edges_step:
  "node_edges (Role_menu i nm cs) = (\<lambda>c. (i, rm_id c)) ` set cs \<union> (\<Union>c\<in>set cs. node_edges c)" (is "?l = ?a \<union> ?b")
proof (intro equalityI subsetI)
  fix e assume "e \<in> ?l"
  then obtain m c where m: "e = (rm_id m, rm_id c)" "m \<in> set (subnodes (Role_menu i nm cs))" "c \<in> set (rm_children m)"
    unfolding node_edges_def by blast
  then consider "m = Role_menu i nm cs" | d where "d \<in> set cs" "m \<in> set (subnodes d)" by auto
  then show "e \<in> ?a \<union> ?b"
  proof cases
    case 1
    with m show ?thesis by simp
  next
    case 2
    with m have "e \<in> node_edges d" unfolding node_edges_def by blast
    with 2 show ?thesis by blast
  qed
next
  fix e assume "e \<in> ?a \<union> ?b"
  then consider c where "c \<in> set cs" "e = (i, rm_id c)" | d where "d \<in> set cs" "e \<in> node_edges d" by blast
  then show "e \<in> ?l"
  proof cases
    case 1
    then show ?thesis unfolding node_edges_def by (intro CollectI exI [of _ "Role_menu i nm cs"] exI [of _ c]) simp
  next
    case 2
    then obtain m c where "e = (rm_id m, rm_id c)" "m \<in> set (subnodes d)" "c \<in> set (rm_children m)"
      unfolding node_edges_def by blast
    with 2 show ?thesis unfolding node_edges_def by (intro CollectI exI [of _ m] exI [of _ c]) auto
  qed
qed

lemma set_walk_pairs:
  "[] \<notin> rm_id ` set (subnodes n) \<Longrightarrow>
     prod.swap ` set (walk_pairs parent n) = (if parent \<noteq> [] then {(parent, rm_id n)} else {}) \<union> node_edges n"
proof (induction n arbitrary: parent)
  case (Role_menu i nm cs)
  then have i: "i \<noteq> []" by auto
  have "prod.swap ` set (walk_pairs i d) = {(i, rm_id d)} \<union> node_edges d" if "d \<in> set cs" for d
    using Role_menu.IH [OF that, of i] Role_menu.prems that i by auto
  then have "(\<Union>d\<in>set cs. prod.swap ` set (walk_pairs i d)) = (\<Union>d\<in>set cs. {(i, rm_id d)} \<union> node_edges d)" by simp
  then show ?case by (simp add: node_edges_step image_Un image_UN) blast
qed

lemma menu_edges_nodes: "menu_edges ns = (\<Union>n\<in>set ns. node_edges n)"
  unfolding menu_edges_def node_edges_def all_nodes_def by auto

lemma build_parent_map_get:
  assumes "proper_menus ns"
  shows "jm_get (build_parent_map ns) x = Some p \<longleftrightarrow> (p, x) \<in> menu_edges ns"
proof -
  let ?es = "concat (map (walk_pairs []) ns)"
  have ids: "[] \<notin> rm_id ` set (subnodes n)" if "n \<in> set ns" for n
    using assms that by (auto simp: proper_menus_def all_nodes_def)
  then have "map (\<lambda>n. map fst (walk_pairs [] n)) ns = map (\<lambda>n. tl (map rm_id (subnodes n))) ns"
    by (simp add: map_fst_walk_pairs)
  then have fst: "map fst ?es = concat (map (\<lambda>n. tl (map rm_id (subnodes n))) ns)"
    by (simp only: map_concat map_map comp_def)
  have tls: "distinct (concat (map f ns)) \<Longrightarrow> distinct (concat (map (\<lambda>n. tl (f n)) ns))" for f :: "role_menu \<Rightarrow> jstr list"
  proof (induction ns)
    case (Cons n ns)
    have sub: "set (tl (f m)) \<subseteq> set (f m)" for m by (cases "f m") auto
    then have "set (tl (f n)) \<inter> (\<Union>m\<in>set ns. set (tl (f m))) \<subseteq> set (f n) \<inter> (\<Union>m\<in>set ns. set (f m))" by blast
    with Cons show ?case by (auto intro: distinct_tl)
  qed simp
  have "map rm_id (all_nodes ns) = concat (map (\<lambda>n. map rm_id (subnodes n)) ns)"
    by (simp only: all_nodes_def map_concat map_map comp_def)
  with assms have "distinct (map fst ?es)" unfolding fst by (intro tls) (simp add: proper_menus_def)
  then have "jm_get (build_parent_map ns) x = Some p \<longleftrightarrow> (x, p) \<in> set ?es"
    by (simp add: build_parent_map_pairs jm_get_put_pairs)
  also have "\<dots> \<longleftrightarrow> (p, x) \<in> prod.swap ` set ?es" by force
  also have "prod.swap ` set ?es = menu_edges ns" using ids
    by (simp add: menu_edges_nodes image_UN set_walk_pairs)
  finally show ?thesis .
qed

lemma edge_order: "(p, x) \<in> node_edges n \<Longrightarrow> \<exists>a b c. map rm_id (subnodes n) = a @ p # b @ x # c"
proof (induction n)
  case (Role_menu i nm cs)
  have cons: "\<exists>b c. map rm_id (subnodes m) = b @ x # c" if "x \<in> rm_id ` set (subnodes m)" for m
    using that split_list [of x "map rm_id (subnodes m)"] by auto
  have "map rm_id (concat (map subnodes cs)) = concat (map (\<lambda>c. map rm_id (subnodes c)) cs)"
    by (simp only: map_concat map_map comp_def)
  moreover from Role_menu.prems consider d where "d \<in> set cs" "p = i" "x = rm_id d" | d where "d \<in> set cs" "(p, x) \<in> node_edges d"
    unfolding node_edges_step by auto
  then obtain d b c where "d \<in> set cs"
    "p = i \<and> map rm_id (subnodes d) = b @ x # c \<or> (\<exists>a. map rm_id (subnodes d) = a @ p # b @ x # c)"
  proof cases
    case 1
    then have "x \<in> rm_id ` set (subnodes d)" by auto
    with cons 1 that show ?thesis by blast
  next
    case 2
    with Role_menu.IH that show ?thesis by blast
  qed
  moreover from this obtain ys zs where "cs = ys @ d # zs" by (meson split_list)
  ultimately show ?case
  proof (elim disjE conjE exE)
    assume *: "map rm_id (concat (map subnodes cs)) = concat (map (\<lambda>c. map rm_id (subnodes c)) cs)"
      "cs = ys @ d # zs" "p = i" "map rm_id (subnodes d) = b @ x # c"
    then show ?thesis
      by (intro exI [of _ "[]"] exI [of _ "concat (map (\<lambda>c. map rm_id (subnodes c)) ys) @ b"]
          exI [of _ "c @ concat (map (\<lambda>c. map rm_id (subnodes c)) zs)"]) simp
  next
    fix a
    assume *: "map rm_id (concat (map subnodes cs)) = concat (map (\<lambda>c. map rm_id (subnodes c)) cs)"
      "cs = ys @ d # zs" "map rm_id (subnodes d) = a @ p # b @ x # c"
    then show ?thesis
      by (intro exI [of _ "i # concat (map (\<lambda>c. map rm_id (subnodes c)) ys) @ a"] exI [of _ b]
          exI [of _ "c @ concat (map (\<lambda>c. map rm_id (subnodes c)) zs)"]) simp
  qed
qed

lemma wf_menu_edges:
  assumes "proper_menus ns"
  shows "wf (menu_edges ns)"
proof (rule wf_subset [OF wf_measure [of "\<lambda>x. length (takeWhile (\<lambda>y. y \<noteq> x) (map rm_id (all_nodes ns)))"]], rule subrelI)
  fix p x assume "(p, x) \<in> menu_edges ns"
  then obtain n where n: "n \<in> set ns" "(p, x) \<in> node_edges n" by (auto simp: menu_edges_nodes)
  from edge_order [OF n(2)] obtain a b c where "map rm_id (subnodes n) = a @ p # b @ x # c" by blast
  moreover from n(1) obtain ys zs where "ns = ys @ n # zs" by (meson split_list)
  ultimately have ids: "map rm_id (all_nodes ns) =
      (map rm_id (all_nodes ys) @ a) @ p # b @ x # c @ map rm_id (all_nodes zs)" by (simp add: all_nodes_def)
  define u where "u = map rm_id (all_nodes ys) @ a"
  have d: "distinct (u @ p # b @ x # c @ map rm_id (all_nodes zs))"
    using assms ids by (simp add: proper_menus_def u_def)
  then have "takeWhile (\<lambda>y. y \<noteq> p) (u @ p # b @ x # c @ map rm_id (all_nodes zs)) = u"
    by (subst takeWhile_append2) auto
  moreover have "takeWhile (\<lambda>y. y \<noteq> x) ((u @ p # b) @ x # c @ map rm_id (all_nodes zs)) = u @ p # b"
    using d by (subst takeWhile_append2) auto
  ultimately show "(p, x) \<in> measure (\<lambda>x. length (takeWhile (\<lambda>y. y \<noteq> x) (map rm_id (all_nodes ns))))"
    unfolding ids by (simp add: u_def)
qed

definition menu_ancestors :: "role_menu list \<Rightarrow> jstr \<Rightarrow> jstr set" where
  "menu_ancestors ns x = {a. (a, x) \<in> (menu_edges ns)\<^sup>+}"

lemma edge_parent_not_empty:
  assumes "proper_menus ns" "(p, x) \<in> menu_edges ns"
  shows "p \<noteq> []"
  using assms by (force simp: proper_menus_def menu_edges_def)

lemma ancestors_step:
  assumes "proper_menus ns"
  shows "menu_ancestors ns x =
    (case jm_get (build_parent_map ns) x of None \<Rightarrow> {} | Some p \<Rightarrow> insert p (menu_ancestors ns p))"
proof (cases "jm_get (build_parent_map ns) x")
  case None
  then have "(a, x) \<notin> (menu_edges ns)\<^sup>+" for a
    using build_parent_map_get [OF assms, of x] by (auto elim: tranclE)
  with None show ?thesis by (simp add: menu_ancestors_def)
next
  case (Some p)
  have u: "(q, x) \<in> menu_edges ns \<longleftrightarrow> q = p" for q
    using build_parent_map_get [OF assms, of x q] unfolding Some option.inject by blast
  have "(a, x) \<in> (menu_edges ns)\<^sup>+ \<longleftrightarrow> a = p \<or> (a, p) \<in> (menu_edges ns)\<^sup>+" for a
  proof -
    have "(a, x) \<in> (menu_edges ns)\<^sup>+ \<longleftrightarrow> (\<exists>y. (a, y) \<in> (menu_edges ns)\<^sup>* \<and> (y, x) \<in> menu_edges ns)"
      by (meson tranclD2 rtrancl_into_trancl1)
    also have "\<dots> \<longleftrightarrow> (a, p) \<in> (menu_edges ns)\<^sup>*" by (simp add: u)
    finally show ?thesis by (auto simp: rtrancl_eq_or_trancl)
  qed
  with Some show ?thesis by (auto simp: menu_ancestors_def)
qed

lemma climb_result:
  assumes "proper_menus ns"
  shows "\<exists>t. climb (build_parent_map ns) (jm_get (build_parent_map ns) x) s = Some t \<and> set t = set s \<union> menu_ancestors ns x"
  using wf_menu_edges [OF assms]
proof (induction x arbitrary: s rule: wf_induct_rule)
  case (less x)
  show ?case
  proof (cases "jm_get (build_parent_map ns) x")
    case None
    then show ?thesis by (subst climb.simps) (simp add: ancestors_step [OF assms, of x])
  next
    case (Some p)
    then have e: "(p, x) \<in> menu_edges ns" by (simp add: build_parent_map_get [OF assms])
    from less.IH [OF e, of "js_add p s"] obtain t where
      "climb (build_parent_map ns) (jm_get (build_parent_map ns) p) (js_add p s) = Some t"
      "set t = insert p (set s) \<union> menu_ancestors ns p" by auto
    with Some edge_parent_not_empty [OF assms e] show ?thesis
      by (subst climb.simps) (simp add: ancestors_step [OF assms, of x])
  qed
qed

lemma check_all_result:
  assumes "proper_menus ns"
  shows "\<exists>t. check_menus (build_parent_map ns) is s = Some t
    \<and> set t = set s \<union> set is \<union> (\<Union>i\<in>set is. menu_ancestors ns i)"
proof (induction "is" arbitrary: s)
  case (Cons i "is")
  from climb_result [OF assms, of i "js_add i s"] obtain t where
    t: "climb (build_parent_map ns) (jm_get (build_parent_map ns) i) (js_add i s) = Some t"
      "set t = insert i (set s) \<union> menu_ancestors ns i" by auto
  with Cons.IH [of t] show ?case by auto
qed simp

lemma set_uncheck: "set (foldl (\<lambda>t i. js_remove i t) s is) = set s - set is"
  by (induction "is" arbitrary: s) auto

text \<open>Every checked menu has its parent checked, so that the routes of the backend reach it.\<close>

definition parents_checked :: "role_menu list \<Rightarrow> jstr set \<Rightarrow> bool" where
  "parents_checked ns s \<longleftrightarrow> (\<forall>(p, x) \<in> menu_edges ns. x \<in> s \<longrightarrow> p \<in> s)"

lemma same_menu:
  assumes "proper_menus ns" "m \<in> set (all_nodes ns)" "k \<in> set (all_nodes ns)" "rm_id m = rm_id k"
  shows "m = k"
  using assms by (metis proper_menus_def distinct_map inj_onD)

lemma below_closed:
  assumes "proper_menus ns" "n \<in> set (all_nodes ns)" "(p, x) \<in> menu_edges ns" "p \<in> set (menu_descendants n)"
  shows "x \<in> set (menu_descendants n)"
proof -
  from assms(3) obtain m c where m: "p = rm_id m" "x = rm_id c" "m \<in> set (all_nodes ns)" "c \<in> set (rm_children m)"
    by (auto simp: menu_edges_def)
  from assms(4) obtain k where k: "k \<in> set (subnodes n)" "rm_id k = p" by (auto simp: menu_descendants_subnodes)
  from assms(2) k have "k \<in> set (all_nodes ns)" by (auto simp: all_nodes_def intro: subnodes_trans)
  with m k assms(1) have "k = m" by (auto intro: same_menu)
  with k m have "c \<in> set (subnodes n)" by (auto intro: subnodes_trans child_subnode)
  with m show ?thesis by (simp add: menu_descendants_subnodes)
qed

lemma toggle_on:
  assumes "proper_menus ns" "toggle_menus (build_parent_map ns) (menu_descendants n) True s = Some t"
  shows "set t = set s \<union> set (menu_descendants n) \<union> (\<Union>i\<in>set (menu_descendants n). menu_ancestors ns i)"
  using check_all_result [OF assms(1), of "menu_descendants n" s] assms(2) by (auto simp: toggle_menus_def)

lemma ancestors_closed:
  "(p, x) \<in> menu_edges ns \<Longrightarrow> p \<in> menu_ancestors ns x"
  "(p, y) \<in> menu_edges ns \<Longrightarrow> y \<in> menu_ancestors ns x \<Longrightarrow> p \<in> menu_ancestors ns x"
  by (auto simp: menu_ancestors_def intro: trancl_into_trancl2)

lemma toggle_keeps_parents:
  assumes "proper_menus ns" "n \<in> set (all_nodes ns)" "parents_checked ns (set s)"
  shows "\<exists>t. toggle_menus (build_parent_map ns) (menu_descendants n) next s = Some t \<and> parents_checked ns (set t)"
proof (cases "next")
  case True
  from check_all_result [OF assms(1), of "menu_descendants n" s] obtain t where
    t: "toggle_menus (build_parent_map ns) (menu_descendants n) True s = Some t" by (auto simp: toggle_menus_def)
  have "p \<in> set t" if "(p, x) \<in> menu_edges ns" "x \<in> set t" for p x
  proof -
    from that(2) have "x \<in> set s \<union> set (menu_descendants n) \<union> (\<Union>i\<in>set (menu_descendants n). menu_ancestors ns i)"
      by (simp only: toggle_on [OF assms(1) t])
    then consider "x \<in> set s" | "x \<in> set (menu_descendants n)" | i where "i \<in> set (menu_descendants n)" "x \<in> menu_ancestors ns i"
      by blast
    then show ?thesis
    proof cases
      case 1
      with assms(3) that(1) show ?thesis using toggle_on [OF assms(1) t] by (fastforce simp: parents_checked_def)
    next
      case 2
      with ancestors_closed(1) [OF that(1)] show ?thesis using toggle_on [OF assms(1) t] by blast
    next
      case 3
      with ancestors_closed(2) [OF that(1) 3(2)] show ?thesis using toggle_on [OF assms(1) t] by blast
    qed
  qed
  with t True show ?thesis by (auto simp: parents_checked_def)
next
  case False
  have "p \<in> set s - set (menu_descendants n)" if "(p, x) \<in> menu_edges ns" "x \<in> set s - set (menu_descendants n)" for p x
    using that assms(3) below_closed [OF assms(1,2) that(1)] by (auto simp: parents_checked_def)
  with False show ?thesis by (auto simp: toggle_menus_def set_uncheck parents_checked_def)
qed

section \<open>The page\<close>

record role_item =
  ri_id :: jstr
  ri_app :: jstr
  ri_code :: jstr
  ri_name :: jstr
  ri_scope :: int
  ri_status :: int
  ri_remark :: "jstr option"

record role_form =
  rf_code :: jstr
  rf_name :: jstr
  rf_app :: jstr
  rf_scope :: int
  rf_remark :: jstr
  rf_status :: int
  rf_menus :: "jstr list"

datatype role_mode = Role_edit | Role_menus | Role_detail

text \<open>The calls of the backend; a missing number is NaN, a missing text \<open>undefined\<close>.\<close>

datatype role_call =
    Assign_menus jstr "int option list"
  | Update_role jstr jstr "jstr option" int int "jstr option"
  | Create_role jstr jstr "jstr option" int "jstr option"

datatype role_task =
    Load_task bool \<comment> \<open>a load, and whether a save waits for it\<close>
  | Menus_task role_item
  | Tree_task "jstr option"
  | Save_task role_call
  | Delete_task jstr

record role_page =
  rp_rows :: "role_item list"
  rp_loading :: bool
  rp_tree :: "role_menu list"
  rp_apps :: "(jstr \<times> jstr) list"
  rp_menu_app :: jstr
  rp_open :: bool
  rp_mode :: role_mode
  rp_editing :: "role_item option"
  rp_viewing :: "role_item option"
  rp_saving :: bool
  rp_form :: role_form
  rp_tasks :: "role_task list"

definition empty_role_form :: role_form where
  "empty_role_form = \<lparr>rf_code = [], rf_name = [], rf_app = [], rf_scope = 1, rf_remark = [], rf_status = 1, rf_menus = []\<rparr>"

definition new_role_page :: role_page where
  "new_role_page = \<lparr>rp_rows = [], rp_loading = False, rp_tree = [], rp_apps = [], rp_menu_app = [], rp_open = False,
     rp_mode = Role_edit, rp_editing = None, rp_viewing = None, rp_saving = False, rp_form = empty_role_form, rp_tasks = []\<rparr>"

definition role_load :: "bool \<Rightarrow> role_page \<Rightarrow> role_page" where
  "role_load after_save s = s\<lparr>rp_loading := True, rp_tasks := rp_tasks s @ [Load_task after_save]\<rparr>"

text \<open>The rest of a load, and of the save that waits for it; \<open>None\<close> is a failure.\<close>

definition role_load_answered ::
  "bool \<Rightarrow> (role_item list \<times> role_menu list \<times> (jstr \<times> jstr) list) option \<Rightarrow> role_page \<Rightarrow> role_page" where
  "role_load_answered after_save ans s =
     (let s1 = (case ans of Some (rows, tree, apps) \<Rightarrow> s\<lparr>rp_rows := rows, rp_tree := tree, rp_apps := apps\<rparr> | None \<Rightarrow> s);
          s2 = s1\<lparr>rp_loading := False\<rparr>
      in if after_save then s2\<lparr>rp_saving := False\<rparr> else s2)"

definition open_create_role :: "role_page \<Rightarrow> role_page" where
  "open_create_role s = s\<lparr>rp_editing := None, rp_viewing := None, rp_mode := Role_edit, rp_form := empty_role_form, rp_open := True\<rparr>"

definition open_view_role :: "role_item \<Rightarrow> role_page \<Rightarrow> role_page" where
  "open_view_role row s = s\<lparr>rp_viewing := Some row, rp_editing := None, rp_mode := Role_detail, rp_open := True\<rparr>"

definition open_edit_role :: "role_item \<Rightarrow> role_page \<Rightarrow> role_page" where
  "open_edit_role row s =
     s\<lparr>rp_editing := Some row, rp_viewing := None, rp_mode := Role_edit,
       rp_form := \<lparr>rf_code = ri_code row, rf_name = ri_name row, rf_app = ri_app row, rf_scope = ri_scope row,
         rf_remark = default_to [] (ri_remark row), rf_status = ri_status row, rf_menus = []\<rparr>, rp_open := True\<rparr>"

definition open_menus :: "role_item \<Rightarrow> role_page \<Rightarrow> role_page" where
  "open_menus row s =
     s\<lparr>rp_editing := Some row, rp_mode := Role_menus, rp_menu_app := ri_app row, rp_tasks := rp_tasks s @ [Menus_task row]\<rparr>"

definition menus_answered :: "(int list \<times> role_menu list) option \<Rightarrow> role_page \<Rightarrow> role_page" where
  "menus_answered ans s =
     (case ans of
        Some (ids, tree) \<Rightarrow> s\<lparr>rp_tree := tree, rp_form := (rp_form s)\<lparr>rf_menus := map int_dec ids\<rparr>, rp_open := True\<rparr>
      | None \<Rightarrow> s)"

definition reload_menus :: "jstr \<Rightarrow> role_page \<Rightarrow> role_page" where
  "reload_menus app s = s\<lparr>rp_menu_app := app, rp_tasks := rp_tasks s @ [Tree_task (nonempty (Some app))]\<rparr>"

definition tree_answered :: "role_menu list option \<Rightarrow> role_page \<Rightarrow> role_page" where
  "tree_answered ans s = (case ans of Some tree \<Rightarrow> s\<lparr>rp_tree := tree\<rparr> | None \<Rightarrow> s)"

definition click_menu :: "role_menu \<Rightarrow> role_page \<Rightarrow> role_page option" where
  "click_menu n s =
     map_option (\<lambda>ids. s\<lparr>rp_form := (rp_form s)\<lparr>rf_menus := ids\<rparr>\<rparr>) (click_box (rp_tree s) n (remdups (rf_menus (rp_form s))))"

definition role_save :: "role_page \<Rightarrow> role_page" where
  "role_save s =
     (let f = rp_form s;
          start = (\<lambda>call. s\<lparr>rp_saving := True, rp_tasks := rp_tasks s @ [Save_task call]\<rparr>)
      in case rp_editing s of
           Some e \<Rightarrow>
             if rp_mode s = Role_menus then start (Assign_menus (ri_id e) (map id_number (rf_menus f)))
             else start (Update_role (ri_id e) (trim (rf_name f)) (nonempty (Some (rf_app f))) (rf_scope f) (rf_status f)
                    (nonempty (Some (trim (rf_remark f)))))
         | None \<Rightarrow>
             if trim (rf_code f) = [] \<or> trim (rf_name f) = [] then s\<lparr>rp_saving := False\<rparr>
             else start (Create_role (trim (rf_code f)) (trim (rf_name f)) (nonempty (Some (rf_app f))) (rf_scope f)
                    (nonempty (Some (trim (rf_remark f))))))"

definition save_answered :: "bool \<Rightarrow> role_page \<Rightarrow> role_page" where
  "save_answered ok s = (if ok then role_load True (s\<lparr>rp_open := False\<rparr>) else s\<lparr>rp_saving := False\<rparr>)"

definition role_delete :: "role_item \<Rightarrow> bool \<Rightarrow> role_page \<Rightarrow> role_page" where
  "role_delete row confirmed s = (if confirmed then s\<lparr>rp_tasks := rp_tasks s @ [Delete_task (ri_id row)]\<rparr> else s)"

definition delete_answered :: "bool \<Rightarrow> role_page \<Rightarrow> role_page" where
  "delete_answered ok s = (if ok then role_load False s else s)"

definition close_role :: "role_page \<Rightarrow> role_page" where
  "close_role s = s\<lparr>rp_open := False\<rparr>"

text \<open>The answer of the waiting task \<open>i\<close>.\<close>

datatype role_reply =
    Reply_load "(role_item list \<times> role_menu list \<times> (jstr \<times> jstr) list) option"
  | Reply_menus "(int list \<times> role_menu list) option"
  | Reply_tree "role_menu list option"
  | Reply_done bool

definition role_answer :: "nat \<Rightarrow> role_reply \<Rightarrow> role_page \<Rightarrow> role_page" where
  "role_answer i r s =
     (if i < length (rp_tasks s)
      then let s1 = s\<lparr>rp_tasks := take i (rp_tasks s) @ drop (Suc i) (rp_tasks s)\<rparr> in
        (case (rp_tasks s ! i, r) of
           (Load_task b, Reply_load ans) \<Rightarrow> role_load_answered b ans s1
         | (Menus_task row, Reply_menus ans) \<Rightarrow> menus_answered ans s1
         | (Tree_task app, Reply_tree ans) \<Rightarrow> tree_answered ans s1
         | (Save_task call, Reply_done ok) \<Rightarrow> save_answered ok s1
         | (Delete_task k, Reply_done ok) \<Rightarrow> delete_answered ok s1
         | _ \<Rightarrow> s)
      else s)"

section \<open>What a click changes\<close>

lemma descendant_parent:
  assumes "proper_menus ns" "n \<in> set (all_nodes ns)" "(p, i) \<in> menu_edges ns" "i \<in> set (menu_descendants n)"
  shows "i = rm_id n \<or> p \<in> set (menu_descendants n)"
proof -
  have sub: "c = k \<or> (\<exists>m \<in> set (subnodes k). c \<in> set (rm_children m))" if "c \<in> set (subnodes k)" for c k
    using that
  proof (induction k)
    case (Role_menu j nm cs)
    then consider "c = Role_menu j nm cs" | d where "d \<in> set cs" "c \<in> set (subnodes d)" by auto
    then show ?case
    proof cases
      case 2
      with Role_menu.IH have "c = d \<or> (\<exists>m \<in> set (subnodes d). c \<in> set (rm_children m))" by blast
      with 2(1) show ?thesis by auto
    qed simp
  qed
  from assms(4) obtain c where c: "c \<in> set (subnodes n)" "rm_id c = i" by (auto simp: menu_descendants_subnodes)
  from sub [OF c(1)] show ?thesis
  proof
    assume "c = n"
    with c show ?thesis by simp
  next
    assume "\<exists>m \<in> set (subnodes n). c \<in> set (rm_children m)"
    then obtain m where m: "m \<in> set (subnodes n)" "c \<in> set (rm_children m)" by blast
    with assms(2) have "m \<in> set (all_nodes ns)" by (auto simp: all_nodes_def intro: subnodes_trans)
    with m c have "(rm_id m, i) \<in> menu_edges ns" by (auto simp: menu_edges_def)
    with assms(3) have "rm_id m = p" by (metis build_parent_map_get [OF assms(1)] option.inject)
    with m show ?thesis by (auto simp: menu_descendants_subnodes)
  qed
qed

lemma ancestor_of_descendant:
  assumes "proper_menus ns" "n \<in> set (all_nodes ns)"
  shows "(a, i) \<in> (menu_edges ns)\<^sup>+ \<Longrightarrow> i \<in> set (menu_descendants n) \<Longrightarrow>
    a \<in> set (menu_descendants n) \<or> a \<in> menu_ancestors ns (rm_id n)"
proof (induction rule: trancl_induct)
  case (base i)
  with descendant_parent [OF assms base(1)] show ?case by (auto intro: ancestors_closed)
next
  case (step p i)
  from descendant_parent [OF assms step(2) step.prems] show ?case
  proof
    assume "i = rm_id n"
    with step(1,2) have "(a, rm_id n) \<in> (menu_edges ns)\<^sup>+" by simp
    then show ?thesis by (simp add: menu_ancestors_def)
  next
    assume "p \<in> set (menu_descendants n)"
    then show ?thesis by (rule step.IH)
  qed
qed

lemma climb_distinct:
  assumes "climb m p s = Some t"
  shows "distinct s \<longrightarrow> distinct t"
proof (rule climb.raw_induct [where P = "\<lambda>m p s t. distinct s \<longrightarrow> distinct t", OF _ assms])
  fix g :: "parent_map \<Rightarrow> jstr option \<Rightarrow> jstr jset \<Rightarrow> jstr jset option" and m p s t
  assume IH: "\<And>m p s t. g m p s = Some t \<Longrightarrow> distinct s \<longrightarrow> distinct t"
    and "(case p of None \<Rightarrow> Some s | Some q \<Rightarrow> if q = [] then Some s else g m (jm_get m q) (js_add q s)) = Some t"
  then consider "s = t" | q where "g m (jm_get m q) (js_add q s) = Some t" by (auto split: option.splits if_splits)
  then show "distinct s \<longrightarrow> distinct t"
  proof cases
    case 2
    from IH [OF this] show ?thesis by simp
  qed simp
qed

lemma check_all_distinct: "check_menus m is s = Some t \<Longrightarrow> distinct s \<Longrightarrow> distinct t"
proof (induction m "is" s rule: check_menus.induct)
  case (2 m i "is" s)
  from "2.prems"(1) obtain u where u: "climb m (jm_get m i) (js_add i s) = Some u" "check_menus m is u = Some t"
    by (auto simp: bind_eq_Some_conv)
  moreover have "distinct u" using climb_distinct [OF u(1)] "2.prems"(2) by simp
  ultimately show ?case using "2.IH" by blast
qed simp

lemma click_box_distinct: "click_box ns n s = Some t \<Longrightarrow> distinct s \<Longrightarrow> distinct t"
proof -
  have "distinct s \<Longrightarrow> distinct (foldl (\<lambda>t i. js_remove i t) s is)" for "is" by (induction "is" arbitrary: s) auto
  then show "click_box ns n s = Some t \<Longrightarrow> distinct s \<Longrightarrow> distinct t"
    by (auto simp: click_box_def toggle_menus_def dest: check_all_distinct split: if_splits)
qed

lemma self_descendant [simp]: "rm_id n \<in> set (menu_descendants n)"
  by (cases n) simp

lemma descendants_Cons: "menu_descendants n = rm_id n # child_ids n"
  by (cases n) (simp add: child_ids_def)

lemma child_ids_descendants: "set (child_ids n) \<subseteq> set (menu_descendants n)"
  by (cases "menu_descendants n") (auto simp: child_ids_def)

lemma unchecked_box:
  assumes "u \<inter> set (menu_descendants n) = {}"
  shows "\<not> box_checked u n" "\<not> box_indeterminate u n"
proof -
  have "i \<notin> u" if "i \<in> set (child_ids n)" for i using that child_ids_descendants assms by blast
  moreover have "rm_id n \<notin> u" using assms self_descendant by blast
  ultimately show "\<not> box_checked u n" "\<not> box_indeterminate u n"
    by (auto simp: box_checked_def box_indeterminate_def all_children_checked_def list_all_iff list_ex_iff neq_Nil_conv)
qed

text \<open>
  A click flips the box it is made on and everything below it; checking adds the ancestors, and no other
  menu changes.
\<close>

lemma click_flips_parts:
  assumes "proper_menus ns" "n \<in> set (all_nodes ns)"
  shows "\<exists>t. click_box ns n s = Some t \<and> box_checked (set t) n = (\<not> box_checked (set s) n)
     \<and> set t = (if box_checked (set s) n then set s - set (menu_descendants n)
                else set s \<union> set (menu_descendants n) \<union> menu_ancestors ns (rm_id n))"
proof (cases "box_checked (set s) n")
  case True
  have "\<not> box_checked (set s - set (menu_descendants n)) n" by (rule unchecked_box) blast
  with True show ?thesis by (simp add: click_box_def toggle_menus_def set_uncheck)
next
  case False
  from check_all_result [OF assms(1), of "menu_descendants n" s] obtain t where
    t: "click_box ns n s = Some t" "set t = set s \<union> set (menu_descendants n) \<union> (\<Union>i\<in>set (menu_descendants n). menu_ancestors ns i)"
    using False by (auto simp: click_box_def toggle_menus_def)
  have "(\<Union>i\<in>set (menu_descendants n). menu_ancestors ns i) \<subseteq> set (menu_descendants n) \<union> menu_ancestors ns (rm_id n)"
    using ancestor_of_descendant [OF assms] unfolding menu_ancestors_def by blast
  moreover have "menu_ancestors ns (rm_id n) \<subseteq> (\<Union>i\<in>set (menu_descendants n). menu_ancestors ns i)"
    using self_descendant by blast
  ultimately have t': "set t = set s \<union> set (menu_descendants n) \<union> menu_ancestors ns (rm_id n)" using t(2) by blast
  have "set (menu_descendants n) \<subseteq> u \<Longrightarrow> box_checked u n" for u
    by (cases n) (auto simp: box_checked_def all_children_checked_def child_ids_def list_all_iff)
  then have "box_checked (set t) n" using t' by blast
  with False t(1) t' show ?thesis by simp
qed

theorem click_flips_subtree:
  assumes "proper_menus ns" "n \<in> set (all_nodes ns)"
  shows "\<exists>t. click_box ns n s = Some t \<and> box_checked (set t) n = (\<not> box_checked (set s) n)
     \<and> set t = (if box_checked (set s) n then set s - set (menu_descendants n)
                else set s \<union> set (menu_descendants n) \<union> menu_ancestors ns (rm_id n))"
  using assms by (rule click_flips_parts)

definition sample_menus :: "role_menu list" where
  "sample_menus = [Role_menu (js ''1'') (js ''system'') [Role_menu (js ''2'') (js ''roles'') [], Role_menu (js ''3'') (js ''users'') []]]"

lemma sample_proper: "proper_menus sample_menus"
  by (simp add: proper_menus_def sample_menus_def all_nodes_def)

theorem click_flips_subtree_witness:
  "proper_menus sample_menus \<and> sample_menus ! 0 \<in> set (all_nodes sample_menus)
     \<and> (\<exists>t. click_box sample_menus (sample_menus ! 0) [] = Some t \<and> js ''3'' \<in> set t)"
proof -
  have n: "sample_menus ! 0 \<in> set (all_nodes sample_menus)" by (simp add: sample_menus_def all_nodes_def)
  moreover have "js ''3'' \<in> set (menu_descendants (sample_menus ! 0))" by (simp add: sample_menus_def)
  moreover have "\<not> box_checked (set []) (sample_menus ! 0)"
    by (simp add: sample_menus_def box_checked_def all_children_checked_def child_ids_def)
  moreover obtain t where "click_box sample_menus (sample_menus ! 0) [] = Some t"
    "set t = set [] \<union> set (menu_descendants (sample_menus ! 0)) \<union> menu_ancestors sample_menus (rm_id (sample_menus ! 0))"
    using click_flips_subtree [OF sample_proper n, of "[]"] calculation(3) by auto
  ultimately show ?thesis using sample_proper by auto
qed

fun click_all :: "role_menu list \<Rightarrow> role_menu list \<Rightarrow> jstr jset \<Rightarrow> jstr jset option" where
  "click_all ns [] s = Some s"
| "click_all ns (n # clicked) s = Option.bind (click_box ns n s) (click_all ns clicked)"

text \<open>
  C36: The comment of the page asks that a leaf can always be reached: every sequence of clicks ends, and
  leaves the parent of each checked menu checked.
\<close>

theorem clicked_menus_keep_parents:
  assumes "proper_menus ns" "set clicked \<subseteq> set (all_nodes ns)" "parents_checked ns (set s)"
  shows "\<exists>t. click_all ns clicked s = Some t \<and> parents_checked ns (set t)"
  using assms(2,3)
proof (induction clicked arbitrary: s)
  case (Cons n clicked)
  from Cons.prems toggle_keeps_parents [OF assms(1), of n s] obtain u where
    "click_box ns n s = Some u" "parents_checked ns (set u)" by (auto simp: click_box_def)
  with Cons show ?case by auto
qed simp

theorem clicked_menus_keep_parents_witness:
  "proper_menus sample_menus \<and> (\<exists>t. click_all sample_menus [sample_menus ! 0] [] = Some t \<and> parents_checked sample_menus (set t))"
proof -
  have "set [sample_menus ! 0] \<subseteq> set (all_nodes sample_menus)" by (simp add: sample_menus_def all_nodes_def)
  moreover have "parents_checked sample_menus (set [])" by (auto simp: parents_checked_def)
  ultimately show ?thesis using clicked_menus_keep_parents [OF sample_proper] sample_proper by blast
qed

section \<open>What is saved\<close>

lemma edge_below: "(p, x) \<in> node_edges n \<Longrightarrow> x \<in> set (child_ids n)"
proof -
  assume "(p, x) \<in> node_edges n"
  from edge_order [OF this] obtain a b c where "menu_descendants n = a @ p # b @ x # c"
    by (auto simp: menu_descendants_subnodes)
  then show ?thesis by (cases a) (simp_all add: child_ids_def)
qed

lemma root_not_below:
  assumes "proper_menus ns" "r \<in> set ns" "n \<in> set (all_nodes ns)"
  shows "rm_id r \<notin> set (child_ids n)"
proof
  assume i: "rm_id r \<in> set (child_ids n)"
  from assms(3) obtain k where k: "k \<in> set ns" "n \<in> set (subnodes k)" by (auto simp: all_nodes_def)
  have par: "\<exists>m \<in> set (subnodes k). \<exists>c \<in> set (rm_children m). rm_id c = j" if "n \<in> set (subnodes k)" "j \<in> set (child_ids n)" for j
  proof -
    have "\<exists>m \<in> set (subnodes n). \<exists>c \<in> set (rm_children m). rm_id c = j"
      using that(2)
    proof (induction n)
      case (Role_menu i nm cs)
      then obtain c where c: "c \<in> set cs" "j \<in> set (menu_descendants c)" by (auto simp: child_ids_def)
      show ?case
      proof (cases "j = rm_id c")
        case True
        with c have "\<exists>d \<in> set (rm_children (Role_menu i nm cs)). rm_id d = j" by auto
        with subnode_self show ?thesis by blast
      next
        case False
        with c have "j \<in> set (child_ids c)" by (simp add: descendants_Cons)
        with Role_menu.IH c obtain m where "m \<in> set (subnodes c)" "\<exists>d \<in> set (rm_children m). rm_id d = j" by blast
        moreover from this(1) c(1) have "m \<in> set (subnodes (Role_menu i nm cs))" by auto
        ultimately show ?thesis by blast
      qed
    qed
    with that(1) show ?thesis by (blast intro: subnodes_trans)
  qed
  from par [OF k(2) i] obtain m c where m: "m \<in> set (subnodes k)" "c \<in> set (rm_children m)" "rm_id c = rm_id r" by blast
  then have "(rm_id m, rm_id c) \<in> node_edges k" unfolding node_edges_def by blast
  then have b: "rm_id r \<in> set (child_ids k)" using m(3) by (auto dest: edge_below)
  have d: "distinct (concat (map menu_descendants ns))"
    using assms(1) by (simp add: proper_menus_def all_nodes_def map_concat comp_def menu_descendants_subnodes [abs_def])
  show False
  proof (cases "r = k")
    case True
    from d k(1) have "distinct (menu_descendants k)" by (induction ns) auto
    with b True show False by (cases k) (auto simp: child_ids_def)
  next
    case False
    have "set (menu_descendants r) \<inter> set (menu_descendants k) = {}" using d assms(2) k(1) False by (induction ns) auto
    with b child_ids_descendants [of k] self_descendant [of r] show False by blast
  qed
qed

lemma root_ancestors:
  assumes "proper_menus ns" "r \<in> set ns"
  shows "menu_ancestors ns (rm_id r) = {}"
proof -
  have "(p, rm_id r) \<notin> menu_edges ns" for p
  proof
    assume "(p, rm_id r) \<in> menu_edges ns"
    then obtain n where "n \<in> set ns" "(p, rm_id r) \<in> node_edges n" by (auto simp: menu_edges_nodes)
    moreover from this(1) have "n \<in> set (all_nodes ns)" by (auto simp: all_nodes_def intro!: bexI [of _ n])
    ultimately show False using root_not_below [OF assms] edge_below by blast
  qed
  then show ?thesis by (auto simp: menu_ancestors_def elim: tranclE)
qed

lemma parent_alone:
  assumes "proper_menus ns" "r \<in> set ns" "c \<in> set (rm_children r)" "rm_children c = []"
  shows "\<exists>t u. click_box ns c [] = Some t \<and> click_box ns c t = Some u \<and> set u = {rm_id r}
     \<and> (\<forall>m \<in> set (all_nodes ns). \<not> box_checked (set u) m \<and> \<not> box_indeterminate (set u) m)"
proof -
  have r: "r \<in> set (all_nodes ns)" using assms(2) by (auto simp: all_nodes_def intro!: bexI [of _ r])
  have c: "c \<in> set (all_nodes ns)" using assms(2,3) by (auto simp: all_nodes_def intro!: bexI [of _ r] child_subnode)
  have e: "(rm_id r, rm_id c) \<in> menu_edges ns" using r assms(3) by (auto simp: menu_edges_def)
  have down: "menu_descendants c = [rm_id c]" using assms(4) by (cases c) simp
  have up: "menu_ancestors ns (rm_id c) = {rm_id r}"
    using e root_ancestors [OF assms(1,2)] by (simp add: ancestors_step [OF assms(1), of "rm_id c"] build_parent_map_get [OF assms(1), THEN iffD2])
  have "\<not> box_checked (set []) c" by (rule unchecked_box) simp
  with click_flips_parts [OF assms(1) c, of "[]"] obtain t where
    t: "click_box ns c [] = Some t" "box_checked (set t) c" "set t = {rm_id r, rm_id c}" by (auto simp: down up)
  with click_flips_parts [OF assms(1) c, of t] obtain u where u: "click_box ns c t = Some u" "set u = set t - {rm_id c}"
    by (auto simp: down)
  have "rm_id c \<in> set (child_ids r)"
  proof (rule edge_below)
    show "(rm_id r, rm_id c) \<in> node_edges r" using assms(3) subnode_self [of r] unfolding node_edges_def by blast
  qed
  then have "rm_id c \<noteq> rm_id r" using root_not_below [OF assms(1,2) r] by auto
  with u t have su: "set u = {rm_id r}" by auto
  have "\<not> box_checked (set u) m \<and> \<not> box_indeterminate (set u) m" if m: "m \<in> set (all_nodes ns)" for m
  proof -
    have out: "i \<notin> set u" if "i \<in> set (child_ids m)" for i using that root_not_below [OF assms(1,2) m] su by auto
    moreover have "rm_id m \<notin> set u" if "child_ids m = []"
    proof
      assume "rm_id m \<in> set u"
      then have "m = r" using su by (auto intro: same_menu [OF assms(1) m r])
      with that \<open>rm_id c \<in> set (child_ids r)\<close> show False by simp
    qed
    ultimately show ?thesis
      by (cases "child_ids m") (auto simp: box_checked_def box_indeterminate_def all_children_checked_def list_ex_iff)
  qed
  with t(1) u(1) su show ?thesis by blast
qed

text \<open>
  A menu that was checked and unchecked again leaves its parent assigned, though no box of the tree shows
  a mark: what the role gets on saving is not what the page shows.
\<close>

theorem unchecked_menus_stay_assigned:
  assumes "proper_menus (rp_tree s)" "r \<in> set (rp_tree s)" "c \<in> set (rm_children r)" "rm_children c = []"
    "rp_mode s = Role_menus" "rp_editing s = Some e" "rf_menus (rp_form s) = []"
  shows "\<exists>s1 s2. click_menu c s = Some s1 \<and> click_menu c s1 = Some s2
     \<and> (\<forall>m \<in> set (all_nodes (rp_tree s2)). \<not> box_checked (set (rf_menus (rp_form s2))) m
          \<and> \<not> box_indeterminate (set (rf_menus (rp_form s2))) m)
     \<and> (\<exists>ids. rp_tasks (role_save s2) = rp_tasks s2 @ [Save_task (Assign_menus (ri_id e) ids)] \<and> id_number (rm_id r) \<in> set ids)"
proof -
  from parent_alone [OF assms(1-4)] obtain t u where u: "click_box (rp_tree s) c [] = Some t" "click_box (rp_tree s) c t = Some u"
    "set u = {rm_id r}" "\<forall>m \<in> set (all_nodes (rp_tree s)). \<not> box_checked (set u) m \<and> \<not> box_indeterminate (set u) m" by blast
  have "distinct t" using click_box_distinct [OF u(1)] by simp
  with u assms show ?thesis by (simp add: click_menu_def role_save_def distinct_remdups_id)
qed

definition sample_role :: role_item where
  "sample_role = \<lparr>ri_id = js ''7'', ri_app = js ''1'', ri_code = js ''clerk'', ri_name = js ''Clerk'', ri_scope = 1,
     ri_status = 1, ri_remark = None\<rparr>"

definition sample_role_page :: role_page where
  "sample_role_page = new_role_page\<lparr>rp_tree := sample_menus, rp_mode := Role_menus, rp_editing := Some sample_role\<rparr>"

theorem unchecked_menus_stay_assigned_witness:
  "proper_menus (rp_tree sample_role_page) \<and> (\<exists>s1 s2. click_menu (Role_menu (js ''2'') (js ''roles'') []) sample_role_page = Some s1
     \<and> click_menu (Role_menu (js ''2'') (js ''roles'') []) s1 = Some s2
     \<and> (\<exists>ids. rp_tasks (role_save s2) = rp_tasks s2 @ [Save_task (Assign_menus (js ''7'') ids)] \<and> Some 1 \<in> set ids))"
proof -
  have p: "proper_menus (rp_tree sample_role_page)" using sample_proper by (simp add: sample_role_page_def)
  have "id_number (js ''1'') = Some 1"
    by (simp add: id_number_def js_def trim_def is_ws_def digit_def digits_value_def)
  with p unchecked_menus_stay_assigned [OF p, of "Role_menu (js ''1'') (js ''system'') [Role_menu (js ''2'') (js ''roles'') [], Role_menu (js ''3'') (js ''users'') []]"
      "Role_menu (js ''2'') (js ''roles'') []" sample_role]
  show ?thesis
    by (fastforce simp: sample_role_page_def sample_menus_def new_role_page_def empty_role_form_def sample_role_def)
qed

text \<open>
  Two roles are opened one after the other. The menus saved go to the one opened last, but they are those
  of the answer that came last: when the answers come in the other order, the second role gets the menus
  of the first.
\<close>

theorem late_answer_goes_to_other_role:
  "let opened = open_menus b (open_menus a (s\<lparr>rp_tasks := []\<rparr>));
       in_order = role_answer 0 (Reply_menus (Some (ib, tb))) (role_answer 0 (Reply_menus (Some (ia, ta))) opened);
       swapped = role_answer 0 (Reply_menus (Some (ia, ta))) (role_answer 1 (Reply_menus (Some (ib, tb))) opened)
   in rp_tasks (role_save in_order) = [Save_task (Assign_menus (ri_id b) (map Some ib))]
      \<and> rp_tasks (role_save swapped) = [Save_task (Assign_menus (ri_id b) (map Some ia))]"
  by (simp add: Let_def open_menus_def role_answer_def menus_answered_def role_save_def comp_def)

end
