(* ===== verification/Js_Text.thy ===== *)
theory Js_Text
  imports Js_Map
begin

text \<open>
  Texts that are edited as lines: \<open>trim\<close> twice, \<open>split\<close> after \<open>join\<close>, and the removal of repeated
  entries by a \<open>Set\<close>.
\<close>

section \<open>Trimming\<close>

definition trimmed :: "jstr \<Rightarrow> bool" where
  "trimmed s \<longleftrightarrow> trim s = s"

lemma dropWhile_hd: "xs \<noteq> [] \<Longrightarrow> \<not> P (hd xs) \<Longrightarrow> dropWhile P xs = xs"
  by (cases xs) auto

lemma trimmed_trim [simp]: "trimmed (trim s)"
proof -
  define a where "a = dropWhile is_ws s"
  define b where "b = dropWhile is_ws (rev a)"
  have t: "trim s = rev b" by (simp add: trim_def a_def b_def)
  show ?thesis
  proof (cases "b = []")
    case True
    then show ?thesis by (simp add: trimmed_def t)
  next
    case False
    then have hb: "\<not> is_ws (hd b)" by (simp add: b_def hd_dropWhile)
    from False have "a \<noteq> []" by (auto simp: b_def)
    then have ha: "\<not> is_ws (hd a)" by (simp add: a_def hd_dropWhile)
    have "rev a = takeWhile is_ws (rev a) @ b" by (simp add: b_def)
    then have "a = rev b @ rev (takeWhile is_ws (rev a))" by (metis rev_append rev_rev_ident)
    then have "hd a = hd (rev b)" using False by (metis hd_append2 rev_is_Nil_conv)
    with ha have "\<not> is_ws (hd (rev b))" by simp
    then have "dropWhile is_ws (rev b) = rev b" using False by (intro dropWhile_hd) auto
    moreover have "dropWhile is_ws b = b" using False hb by (rule dropWhile_hd)
    ultimately show ?thesis by (simp add: trimmed_def t) (simp add: trim_def)
  qed
qed

lemma trim_trim [simp]: "trim (trim s) = trim s"
  using trimmed_trim by (simp add: trimmed_def)

section \<open>Distinct entries\<close>

text \<open>\<open>Array.from(new Set(xs))\<close>.\<close>

definition dedup :: "'a list \<Rightarrow> 'a list" where
  "dedup xs = foldl (\<lambda>s x. js_add x s) [] xs"

lemma foldl_js_add: "distinct s \<Longrightarrow>
    distinct (foldl (\<lambda>s x. js_add x s) s xs) \<and> set (foldl (\<lambda>s x. js_add x s) s xs) = set s \<union> set xs"
  by (induction xs arbitrary: s) auto

lemma distinct_dedup [simp]: "distinct (dedup xs)"
  using foldl_js_add [of "[]" xs] by (simp add: dedup_def)

lemma set_dedup [simp]: "set (dedup xs) = set xs"
  using foldl_js_add [of "[]" xs] by (simp add: dedup_def)

lemma foldl_js_add_fresh: "distinct (s @ xs) \<Longrightarrow> foldl (\<lambda>s x. js_add x s) s xs = s @ xs"
proof (induction xs arbitrary: s)
  case (Cons x xs)
  then show ?case using Cons.IH [of "s @ [x]"] by (simp add: js_add_def)
qed simp

lemma dedup_distinct [simp]: "distinct xs \<Longrightarrow> dedup xs = xs"
  by (simp add: dedup_def foldl_js_add_fresh)

section \<open>Lines\<close>

lemma split_on_none: "d \<notin> set x \<Longrightarrow> split_on d x = [x]"
  by (induction x) auto

lemma split_on_join:
  "xs \<noteq> [] \<Longrightarrow> (\<And>x. x \<in> set xs \<Longrightarrow> d \<notin> set x) \<Longrightarrow> split_on d (join [d] xs) = xs"
proof (induction xs rule: induct_list012)
  case (3 x y zs)
  then have "split_on d (join [d] (x # y # zs)) = split_on d x @ split_on d (join [d] (y # zs))"
    by (simp add: split_on_append)
  with 3 show ?case by (simp add: split_on_none)
qed (simp_all add: split_on_none)

lemma split_lines_join:
  assumes "\<And>x. x \<in> set xs \<Longrightarrow> d \<notin> set x"
  shows "split_on d (join [d] xs) = (if xs = [] then [[]] else xs)"
  using split_on_join [OF _ assms] by auto

end
