(* ===== verification/Coordination.thy ===== *)
theory Coordination
  imports Js_Text Js_Number
begin

text \<open>
  The page that edits how an agent coordinates others or works for them,
  frontend/mis-admin-web/src/features/agent/agents/agent-coordination-page.tsx, with its confirmation
  dialog components/agent-confirm-dialog.tsx. The conversions between the stored configuration and the
  form, and the page as a state machine over its requests.
\<close>

section \<open>Configuration and form\<close>

datatype agent_role = Coordinator | Worker_agent

datatype security_level = Read_only | Needs_hitl

record delegation =
  dg_spawn :: bool
  dg_enforce :: bool
  dg_max_depth :: int
  dg_timeout :: int
  dg_trace :: bool
  dg_forbid_self :: bool
  dg_workers :: "jstr list"

record catalog =
  ct_enabled :: bool
  ct_when :: jstr
  ct_capabilities :: "jstr list"
  ct_input :: "jstr list"
  ct_output :: jstr
  ct_security :: security_level
  ct_timeout :: int
  ct_degrade :: jstr

record coordination =
  co_agent :: jstr
  co_role :: agent_role
  co_routing :: bool
  co_delegation :: "delegation option"
  co_catalog :: "catalog option"

record coord_form =
  fm_role :: agent_role
  fm_routing :: bool
  fm_spawn :: bool
  fm_enforce :: bool
  fm_max_depth :: jstr
  fm_deleg_timeout :: jstr
  fm_trace :: bool
  fm_forbid_self :: bool
  fm_workers :: "jstr list"
  fm_enabled :: bool
  fm_when :: jstr
  fm_capabilities :: jstr
  fm_input :: jstr
  fm_output :: jstr
  fm_security :: security_level
  fm_cat_timeout :: jstr
  fm_degrade :: jstr

definition empty_coord_form :: coord_form where
  "empty_coord_form = \<lparr>fm_role = Worker_agent, fm_routing = True, fm_spawn = True, fm_enforce = True, fm_max_depth = js ''3'',
     fm_deleg_timeout = js ''60'', fm_trace = True, fm_forbid_self = True, fm_workers = [], fm_enabled = True, fm_when = [],
     fm_capabilities = [], fm_input = [], fm_output = [], fm_security = Read_only, fm_cat_timeout = js ''60'', fm_degrade = []\<rparr>"

definition locked_workers :: "jstr list" where
  "locked_workers = [js ''mis-admin-helper'']"

definition to_lines :: "jstr list option \<Rightarrow> jstr" where
  "to_lines arr = (case arr of Some xs \<Rightarrow> join [10] xs | None \<Rightarrow> [])"

definition to_list :: "jstr \<Rightarrow> jstr list" where
  "to_list s = dedup (filter (\<lambda>l. l \<noteq> []) (map trim (split_on 10 s)))"

definition to_form :: "coordination \<Rightarrow> coord_form" where
  "to_form c =
     (let d = co_delegation c; k = co_catalog c in
      \<lparr>fm_role = co_role c, fm_routing = co_routing c,
       fm_spawn = default_to True (map_option dg_spawn d),
       fm_enforce = default_to True (map_option dg_enforce d),
       fm_max_depth = default_to (js ''3'') (map_option (\<lambda>x. int_dec (dg_max_depth x)) d),
       fm_deleg_timeout = default_to (js ''60'') (map_option (\<lambda>x. int_dec (dg_timeout x)) d),
       fm_trace = default_to True (map_option dg_trace d),
       fm_forbid_self = default_to True (map_option dg_forbid_self d),
       fm_workers = default_to [] (map_option dg_workers d),
       fm_enabled = default_to True (map_option ct_enabled k),
       fm_when = default_to [] (map_option ct_when k),
       fm_capabilities = to_lines (map_option ct_capabilities k),
       fm_input = to_lines (map_option ct_input k),
       fm_output = default_to [] (map_option ct_output k),
       fm_security = default_to Read_only (map_option ct_security k),
       fm_cat_timeout = default_to (js ''60'') (map_option (\<lambda>x. int_dec (ct_timeout x)) k),
       fm_degrade = default_to [] (map_option ct_degrade k)\<rparr>)"

definition to_number :: "jstr \<Rightarrow> int \<Rightarrow> int" where
  "to_number s fallback = (case parse_int_opt s of Some n \<Rightarrow> if n \<ge> 1 then n else fallback | None \<Rightarrow> fallback)"

definition build_payload :: "jstr \<Rightarrow> coord_form \<Rightarrow> coordination" where
  "build_payload agent f =
     (case fm_role f of
        Coordinator \<Rightarrow>
          \<lparr>co_agent = agent, co_role = Coordinator, co_routing = fm_routing f,
           co_delegation = Some \<lparr>dg_spawn = fm_spawn f, dg_enforce = fm_enforce f, dg_max_depth = to_number (fm_max_depth f) 3,
             dg_timeout = to_number (fm_deleg_timeout f) 60, dg_trace = fm_trace f, dg_forbid_self = fm_forbid_self f,
             dg_workers = filter (\<lambda>i. i \<notin> set locked_workers) (fm_workers f)\<rparr>,
           co_catalog = None\<rparr>
      | Worker_agent \<Rightarrow>
          \<lparr>co_agent = agent, co_role = Worker_agent, co_routing = fm_routing f, co_delegation = None,
           co_catalog = Some \<lparr>ct_enabled = fm_enabled f, ct_when = trim (fm_when f), ct_capabilities = to_list (fm_capabilities f),
             ct_input = to_list (fm_input f), ct_output = trim (fm_output f), ct_security = fm_security f,
             ct_timeout = to_number (fm_cat_timeout f) 60, ct_degrade = trim (fm_degrade f)\<rparr>\<rparr>)"

section \<open>Round trip\<close>

text \<open>What the page can store: only the part of its role, with clean texts, lists and numbers.\<close>

definition clean_lines :: "jstr list \<Rightarrow> bool" where
  "clean_lines xs \<longleftrightarrow> distinct xs \<and> list_all (\<lambda>l. trimmed l \<and> l \<noteq> [] \<and> 10 \<notin> set l) xs"

definition canonical :: "jstr \<Rightarrow> coordination \<Rightarrow> bool" where
  "canonical agent c \<longleftrightarrow> co_agent c = agent
     \<and> (case co_role c of
          Coordinator \<Rightarrow> co_catalog c = None
            \<and> (case co_delegation c of
                 Some d \<Rightarrow> dg_max_depth d \<ge> 1 \<and> dg_timeout d \<ge> 1 \<and> set (dg_workers d) \<inter> set locked_workers = {}
               | None \<Rightarrow> False)
        | Worker_agent \<Rightarrow> co_delegation c = None
            \<and> (case co_catalog c of
                 Some k \<Rightarrow> ct_timeout k \<ge> 1 \<and> trimmed (ct_when k) \<and> trimmed (ct_output k) \<and> trimmed (ct_degrade k)
                   \<and> clean_lines (ct_capabilities k) \<and> clean_lines (ct_input k)
               | None \<Rightarrow> False))"

lemma to_number_positive: "1 \<le> fallback \<Longrightarrow> 1 \<le> to_number s fallback"
  by (simp add: to_number_def split: option.splits)

lemma to_number_int_dec: "1 \<le> n \<Longrightarrow> to_number (int_dec n) fallback = n"
  by (simp add: to_number_def)

lemma trim_subset: "set (trim s) \<subseteq> set s"
proof -
  have "set (dropWhile is_ws xs) \<subseteq> set xs" for xs by (auto dest: set_dropWhileD)
  then show ?thesis by (metis set_rev subset_trans trim_def)
qed

lemma clean_to_list: "clean_lines (to_list s)"
  using trim_subset split_on_parts [of _ "10" s] by (fastforce simp: clean_lines_def to_list_def list_all_iff)

lemma to_list_lines: "clean_lines xs \<Longrightarrow> to_list (join [10] xs) = xs"
proof -
  assume c: "clean_lines xs"
  then have "map trim xs = xs" by (intro map_idI) (auto simp: clean_lines_def list_all_iff trimmed_def)
  moreover have "filter (\<lambda>l. l \<noteq> []) xs = xs" using c by (intro filter_True) (auto simp: clean_lines_def list_all_iff)
  moreover have "split_on 10 (join [10] xs) = (if xs = [] then [[]] else xs)"
    using c by (intro split_lines_join) (auto simp: clean_lines_def list_all_iff)
  ultimately show ?thesis using c by (simp add: to_list_def clean_lines_def)
qed

lemma payload_canonical: "canonical agent (build_payload agent f)"
  by (cases "fm_role f") (auto simp: build_payload_def canonical_def to_number_positive clean_to_list)

lemma canonical_round_trip: "canonical agent c \<Longrightarrow> build_payload agent (to_form c) = c"
proof (cases "co_role c")
  case Coordinator
  assume "canonical agent c"
  with Coordinator obtain d where d: "co_delegation c = Some d" "co_catalog c = None" "co_agent c = agent"
    "1 \<le> dg_max_depth d" "1 \<le> dg_timeout d" "set (dg_workers d) \<inter> set locked_workers = {}"
    by (auto simp: canonical_def split: option.splits)
  moreover from d(6) have "filter (\<lambda>i. i \<notin> set locked_workers) (dg_workers d) = dg_workers d" by (intro filter_True) auto
  ultimately show ?thesis using Coordinator
    by (cases c, cases d) (simp add: build_payload_def to_form_def to_number_int_dec Let_def)
next
  case Worker_agent
  assume "canonical agent c"
  with Worker_agent obtain k where k: "co_catalog c = Some k" "co_delegation c = None" "co_agent c = agent"
    "1 \<le> ct_timeout k" "trim (ct_when k) = ct_when k" "trim (ct_output k) = ct_output k" "trim (ct_degrade k) = ct_degrade k"
    "clean_lines (ct_capabilities k)" "clean_lines (ct_input k)"
    by (auto simp: canonical_def trimmed_def split: option.splits)
  with Worker_agent show ?thesis
    by (cases c, cases k) (simp add: build_payload_def to_form_def to_number_int_dec to_lines_def to_list_lines Let_def)
qed

text \<open>
  C38: Editing nothing stores the same configuration exactly when it is one the page can store, and every
  configuration the page sends is one: saving what a save returned changes nothing.
\<close>

theorem unedited_form_saves_same_configuration:
  "(build_payload agent (to_form c) = c \<longleftrightarrow> canonical agent c)
     \<and> build_payload agent (to_form (build_payload agent f)) = build_payload agent f"
  using canonical_round_trip payload_canonical by metis

section \<open>The page\<close>

text \<open>A put carries whether the confirmation dialog started it.\<close>

datatype coord_task = Get_task | Put_task bool coordination

record coord_page =
  cp_form :: coord_form
  cp_server :: "agent_role option"
  cp_loading :: bool
  cp_error :: bool
  cp_saving :: bool
  cp_confirm :: bool
  cp_affected :: "jstr list"
  cp_candidates :: "(jstr \<times> agent_role) list"
  cp_typed :: jstr
  cp_submitting :: bool
  cp_tasks :: "coord_task list"

definition new_coord_page :: coord_page where
  "new_coord_page = \<lparr>cp_form = empty_coord_form, cp_server = None, cp_loading = False, cp_error = False, cp_saving = False,
     cp_confirm = False, cp_affected = [], cp_candidates = [], cp_typed = [], cp_submitting = False, cp_tasks = []\<rparr>"

definition coord_load :: "jstr \<Rightarrow> coord_page \<Rightarrow> coord_page" where
  "coord_load agent s =
     (if agent = [] then s
      else s\<lparr>cp_loading := True, cp_error := False, cp_affected := [], cp_tasks := cp_tasks s @ [Get_task]\<rparr>)"

definition coord_loaded :: "coordination option \<Rightarrow> coord_page \<Rightarrow> coord_page" where
  "coord_loaded ans s =
     (case ans of
        Some c \<Rightarrow> s\<lparr>cp_form := to_form c, cp_server := Some (co_role c), cp_loading := False\<rparr>
      | None \<Rightarrow> s\<lparr>cp_server := None, cp_error := True, cp_loading := False\<rparr>)"

definition candidates_loaded :: "(jstr \<times> agent_role) list option \<Rightarrow> coord_page \<Rightarrow> coord_page" where
  "candidates_loaded ans s = s\<lparr>cp_candidates := default_to [] ans\<rparr>"

definition worker_options :: "jstr \<Rightarrow> coord_page \<Rightarrow> (jstr \<times> agent_role) list" where
  "worker_options agent s =
     filter (\<lambda>(i, r). r = Worker_agent \<and> i \<noteq> agent \<and> i \<notin> set locked_workers) (cp_candidates s)"

definition role_changed :: "coord_page \<Rightarrow> bool" where
  "role_changed s \<longleftrightarrow> cp_server s \<noteq> None \<and> cp_server s \<noteq> Some (fm_role (cp_form s))"

definition coord_patch :: "(coord_form \<Rightarrow> coord_form) \<Rightarrow> coord_page \<Rightarrow> coord_page" where
  "coord_patch g s = s\<lparr>cp_form := g (cp_form s)\<rparr>"

definition toggle_worker :: "jstr \<Rightarrow> coord_page \<Rightarrow> coord_page" where
  "toggle_worker i s =
     coord_patch (\<lambda>f. f\<lparr>fm_workers := (if i \<in> set (fm_workers f) then filter (\<lambda>x. x \<noteq> i) (fm_workers f) else fm_workers f @ [i])\<rparr>) s"

definition do_save :: "jstr \<Rightarrow> bool \<Rightarrow> coord_page \<Rightarrow> coord_page" where
  "do_save agent confirmed s =
     (if cp_saving s then s
      else s\<lparr>cp_saving := True, cp_tasks := cp_tasks s @ [Put_task confirmed (build_payload agent (cp_form s))]\<rparr>)"

definition on_save_click :: "jstr \<Rightarrow> coord_page \<Rightarrow> coord_page" where
  "on_save_click agent s =
     (if role_changed s then (if cp_confirm s then s else s\<lparr>cp_confirm := True, cp_typed := [], cp_submitting := False\<rparr>)
      else do_save agent False s)"

definition keyword_ok :: "jstr \<Rightarrow> coord_page \<Rightarrow> bool" where
  "keyword_ok agent s \<longleftrightarrow> agent = [] \<or> trim (cp_typed s) = agent"

definition handle_confirm :: "jstr \<Rightarrow> coord_page \<Rightarrow> coord_page" where
  "handle_confirm agent s =
     (if \<not> keyword_ok agent s \<or> cp_submitting s then s
      else if cp_saving s then s \<comment> \<open>doSave returns at once\<close>
      else (do_save agent True s)\<lparr>cp_submitting := True\<rparr>)"

definition close_confirm :: "coord_page \<Rightarrow> coord_page" where
  "close_confirm s = s\<lparr>cp_confirm := False\<rparr>"

text \<open>The answer of a put: the stored configuration and the agents it affected.\<close>

definition coord_saved :: "bool \<Rightarrow> (coordination \<times> jstr list) option \<Rightarrow> coord_page \<Rightarrow> coord_page" where
  "coord_saved confirmed ans s =
     (let s1 = (case ans of
                  Some (c, affected) \<Rightarrow>
                    s\<lparr>cp_form := to_form c, cp_server := Some (co_role c), cp_affected := affected, cp_confirm := False\<rparr>
                | None \<Rightarrow> s);
          s2 = s1\<lparr>cp_saving := False\<rparr>
      in if confirmed then s2\<lparr>cp_submitting := False\<rparr> else s2)"

text \<open>What \<open>AgentContentState\<close> shows: neither the error nor the first loading.\<close>

definition form_shown :: "coord_page \<Rightarrow> bool" where
  "form_shown s \<longleftrightarrow> \<not> cp_error s \<and> \<not> (cp_loading s \<and> cp_server s = None)"

definition drop_task :: "coord_task \<Rightarrow> coord_page \<Rightarrow> coord_page" where
  "drop_task t s = s\<lparr>cp_tasks := remove1 t (cp_tasks s)\<rparr>"

inductive coord_step :: "jstr \<Rightarrow> coord_page \<Rightarrow> coord_page \<Rightarrow> bool" for agent where
  reload: "form_shown s \<Longrightarrow> \<not> cp_loading s \<Longrightarrow> coord_step agent s (coord_load agent s)"
| retry: "cp_error s \<Longrightarrow> coord_step agent s (coord_load agent s)"
| loaded: "Get_task \<in> set (cp_tasks s) \<Longrightarrow> coord_step agent s (coord_loaded ans (drop_task Get_task s))"
| candidates: "coord_step agent s (candidates_loaded cs s)"
| edit: "form_shown s \<Longrightarrow> coord_step agent s (coord_patch g s)"
| worker: "form_shown s \<Longrightarrow> i \<in> fst ` set (worker_options agent s) \<Longrightarrow> coord_step agent s (toggle_worker i s)"
| save: "form_shown s \<Longrightarrow> \<not> cp_saving s \<Longrightarrow> coord_step agent s (on_save_click agent s)"
| type_keyword: "cp_confirm s \<Longrightarrow> coord_step agent s (s\<lparr>cp_typed := k\<rparr>)"
| confirm: "cp_confirm s \<Longrightarrow> coord_step agent s (handle_confirm agent s)"
| cancel: "cp_confirm s \<Longrightarrow> coord_step agent s (close_confirm s)"
| saved: "Put_task b p \<in> set (cp_tasks s) \<Longrightarrow> coord_step agent s (coord_saved b ans (drop_task (Put_task b p) s))"

inductive coord_run :: "jstr \<Rightarrow> coord_page \<Rightarrow> bool" for agent where
  mount: "coord_run agent (coord_load agent new_coord_page)"
| step: "coord_run agent s \<Longrightarrow> coord_step agent s s' \<Longrightarrow> coord_run agent s'"

definition coord_inv :: "coord_page \<Rightarrow> bool" where
  "coord_inv s \<longleftrightarrow> (cp_server s = None \<longrightarrow> cp_loading s \<or> cp_error s) \<and> \<not> (cp_loading s \<and> cp_error s)
     \<and> count_list (cp_tasks s) Get_task = (if cp_loading s then 1 else 0)"

lemma count_list_remove1: "count_list (remove1 x xs) y = (if x = y then count_list xs y - 1 else count_list xs y)"
  by (induction xs) (auto simp: count_list_0_iff)

lemma coord_load_inv: "coord_inv s \<Longrightarrow> \<not> cp_loading s \<Longrightarrow> agent \<noteq> [] \<Longrightarrow> coord_inv (coord_load agent s)"
  by (simp add: coord_inv_def coord_load_def)

lemma coord_step_inv:
  assumes "coord_step agent s s'" "agent \<noteq> []" "coord_inv s"
  shows "coord_inv s'"
  using assms(1)
proof cases
  case reload
  with assms(2,3) coord_load_inv show ?thesis by blast
next
  case retry
  with assms(3) have "\<not> cp_loading s" by (auto simp: coord_inv_def)
  with retry assms(2,3) coord_load_inv show ?thesis by blast
next
  case (loaded ans)
  then have "count_list (cp_tasks s) Get_task \<noteq> 0" by (simp add: count_list_0_iff)
  with assms(3) have "cp_loading s" "count_list (cp_tasks s) Get_task = 1" by (auto simp: coord_inv_def split: if_splits)
  with loaded show ?thesis
    by (auto simp: coord_inv_def coord_loaded_def drop_task_def count_list_remove1 split: option.splits)
next
  case (candidates cs)
  with assms(3) show ?thesis by (simp add: coord_inv_def candidates_loaded_def)
next
  case (edit g)
  with assms(3) show ?thesis by (simp add: coord_inv_def coord_patch_def)
next
  case (worker i)
  with assms(3) show ?thesis by (simp add: coord_inv_def coord_patch_def toggle_worker_def)
next
  case save
  with assms(3) show ?thesis by (auto simp: coord_inv_def on_save_click_def do_save_def)
next
  case (type_keyword k)
  with assms(3) show ?thesis by (simp add: coord_inv_def)
next
  case confirm
  with assms(3) show ?thesis by (auto simp: coord_inv_def handle_confirm_def do_save_def)
next
  case cancel
  with assms(3) show ?thesis by (simp add: coord_inv_def close_confirm_def)
next
  case (saved b p ans)
  with assms(3) show ?thesis
    by (auto simp: coord_inv_def coord_saved_def drop_task_def count_list_remove1 Let_def split: option.splits prod.splits)
qed

lemma coord_run_inv: "coord_run agent s \<Longrightarrow> agent \<noteq> [] \<Longrightarrow> coord_inv s"
proof (induction rule: coord_run.induct)
  case mount
  then show ?case by (simp add: coord_inv_def coord_load_def new_coord_page_def)
next
  case (step s s')
  with coord_step_inv show ?case by blast
qed

lemma build_payload_role [simp]: "co_role (build_payload agent f) = fm_role f"
  by (cases "fm_role f") (simp_all add: build_payload_def)

lemma sent_put:
  assumes "coord_step agent s s'" "cp_tasks s' = cp_tasks s @ [Put_task b p]"
  shows "(s' = on_save_click agent s \<and> form_shown s) \<or> (s' = handle_confirm agent s \<and> cp_confirm s)"
  using assms(1)
proof cases
  case (loaded ans)
  have "length (cp_tasks s') \<le> length (cp_tasks s)"
    unfolding loaded(1) by (simp add: coord_loaded_def drop_task_def length_remove1 split: option.splits)
  with assms(2) show ?thesis by simp
next
  case (saved c q ans)
  have "length (cp_tasks s') \<le> length (cp_tasks s)"
    unfolding saved(1) by (simp add: coord_saved_def drop_task_def length_remove1 Let_def split: option.splits prod.splits)
  with assms(2) show ?thesis by simp
qed (use assms(2) in \<open>auto simp: coord_load_def candidates_loaded_def coord_patch_def toggle_worker_def close_confirm_def split: if_splits\<close>)


text \<open>A page on which the role was changed and confirmed.\<close>

definition sample_coordination :: coordination where
  "sample_coordination = \<lparr>co_agent = js ''a'', co_role = Worker_agent, co_routing = True, co_delegation = None,
     co_catalog = Some \<lparr>ct_enabled = True, ct_when = [], ct_capabilities = [], ct_input = [], ct_output = [],
       ct_security = Read_only, ct_timeout = 60, ct_degrade = []\<rparr>\<rparr>"

definition sample_loaded :: coord_page where
  "sample_loaded = coord_loaded (Some sample_coordination) (drop_task Get_task (coord_load (js ''a'') new_coord_page))"

definition sample_changed :: coord_page where
  "sample_changed = coord_patch (\<lambda>f. f\<lparr>fm_role := Coordinator\<rparr>) sample_loaded"

definition sample_typed :: coord_page where
  "sample_typed = (on_save_click (js ''a'') sample_changed)\<lparr>cp_typed := js ''a''\<rparr>"

lemmas sample_page = sample_typed_def sample_changed_def sample_loaded_def coord_loaded_def drop_task_def coord_load_def
  new_coord_page_def coord_patch_def on_save_click_def role_changed_def to_form_def sample_coordination_def

lemma sample_run: "coord_run (js ''a'') sample_typed"
proof -
  have "coord_run (js ''a'') sample_loaded"
    unfolding sample_loaded_def
    by (rule coord_run.step [OF coord_run.mount coord_step.loaded]) (simp add: coord_load_def new_coord_page_def)
  moreover have "coord_step (js ''a'') sample_loaded sample_changed"
    unfolding sample_changed_def by (rule coord_step.edit) (simp add: form_shown_def sample_page Let_def)
  moreover have "coord_step (js ''a'') sample_changed (on_save_click (js ''a'') sample_changed)"
    by (rule coord_step.save) (simp_all add: form_shown_def sample_page Let_def)
  moreover have "coord_step (js ''a'') (on_save_click (js ''a'') sample_changed) sample_typed"
    unfolding sample_typed_def by (rule coord_step.type_keyword) (simp add: sample_page Let_def)
  ultimately show ?thesis by (meson coord_run.step)
qed


end
