(* ===== verification/Synonym_Drawer.thy ===== *)
theory Synonym_Drawer
  imports Js_Text Client_Sort
begin

text \<open>
  The drawer that edits a group of synonyms,
  frontend/mis-admin-web/src/features/kb/synonym/kb-synonym-drawer.tsx. \<open>nf\<close> stands for the Unicode
  normalization followed by the conversion to lower case. The component stays mounted while the
  drawer is closed; a load is cancelled, not stopped, when the drawer shows something else.
\<close>

section \<open>Words\<close>

text \<open>\<open>normalizeSynonymTerm\<close>.\<close>

definition normalize_term :: "(jstr \<Rightarrow> jstr) \<Rightarrow> jstr \<Rightarrow> jstr" where
  "normalize_term nf raw = nf (trim raw)"

definition alias_sep :: "cu \<Rightarrow> bool" where
  "alias_sep c \<longleftrightarrow> is_ws c \<or> c = 44 \<or> c = 0xFF0C \<or> c = 0x3001"

lemma dropWhile_shorter: "list_ex P s \<Longrightarrow> length (dropWhile P (dropWhile (\<lambda>c. \<not> P c) s)) < length s"
proof (induction s)
  case (Cons c s)
  then show ?case using length_dropWhile_le [of P s] by (auto simp: less_Suc_eq_le)
qed simp

text \<open>\<open>split\<close> with a separator of one or more characters.\<close>

function split_runs :: "(cu \<Rightarrow> bool) \<Rightarrow> jstr \<Rightarrow> jstr list" where
  "split_runs sep s =
     (if list_ex sep s then takeWhile (\<lambda>c. \<not> sep c) s # split_runs sep (dropWhile sep (dropWhile (\<lambda>c. \<not> sep c) s))
      else [s])"
  by pat_completeness auto

termination
  by (relation "measure (\<lambda>(sep, s). length s)") (auto intro: dropWhile_shorter)

declare split_runs.simps [simp del]

definition split_aliases :: "jstr \<Rightarrow> jstr list" where
  "split_aliases raw = filter (\<lambda>t. t \<noteq> []) (map trim (split_runs alias_sep raw))"

section \<open>State\<close>

record alias_item =
  al_key :: jstr
  al_raw :: jstr

record term_item =
  tm_term :: jstr
  tm_canonical :: "bool option"
  tm_sort :: "int option"

record synonym_group =
  sg_id :: int
  sg_canonical :: jstr
  sg_remark :: "jstr option"
  sg_status :: "int option"
  sg_terms :: "term_item list option"

record synonym_payload =
  sp_canonical :: jstr
  sp_terms :: "jstr list"
  sp_remark :: "jstr option"
  sp_status :: int

record term_conflict =
  tc_term :: "jstr option"
  tc_owner :: "int option"
  tc_owner_term :: "jstr option"

datatype save_result = Save_ok | Save_conflict term_conflict | Save_error

record synonym_drawer =
  sd_open :: bool
  sd_group :: "int option"
  sd_canonical :: jstr
  sd_remark :: jstr
  sd_status :: int
  sd_aliases :: "alias_item list"
  sd_input :: jstr
  sd_conflict :: "term_conflict option"
  sd_loading :: bool
  sd_saving :: bool
  sd_live :: "nat option" \<comment> \<open>the load that is not cancelled\<close>
  sd_loads :: "(nat \<times> int) list" \<comment> \<open>loads without an answer\<close>
  sd_next :: nat
  sd_saves :: "(int option \<times> synonym_payload) list" \<comment> \<open>saves without an answer\<close>

definition new_drawer :: synonym_drawer where
  "new_drawer = \<lparr>sd_open = False, sd_group = None, sd_canonical = [], sd_remark = [], sd_status = 1, sd_aliases = [],
     sd_input = [], sd_conflict = None, sd_loading = False, sd_saving = False, sd_live = None, sd_loads = [], sd_next = 0,
     sd_saves = []\<rparr>"

section \<open>Operations\<close>

text \<open>The effect of a change of the drawer's group or of its being open.\<close>

definition drawer_effect :: "synonym_drawer \<Rightarrow> synonym_drawer" where
  "drawer_effect s =
     (if \<not> sd_open s then s
      else case sd_group s of
        None \<Rightarrow> s\<lparr>sd_conflict := None, sd_canonical := [], sd_remark := [], sd_status := 1, sd_aliases := [], sd_input := []\<rparr>
      | Some g \<Rightarrow> s\<lparr>sd_conflict := None, sd_loading := True, sd_live := Some (sd_next s),
                    sd_loads := sd_loads s @ [(sd_next s, g)], sd_next := Suc (sd_next s)\<rparr>)"

definition drawer_show :: "bool \<Rightarrow> int option \<Rightarrow> synonym_drawer \<Rightarrow> synonym_drawer" where
  "drawer_show op g s =
     (if op = sd_open s \<and> g = sd_group s then s
      else drawer_effect (s\<lparr>sd_open := op, sd_group := g, sd_live := None\<rparr>))"

definition seeded_aliases :: "(jstr \<Rightarrow> jstr) \<Rightarrow> synonym_group \<Rightarrow> alias_item list" where
  "seeded_aliases nf g =
     map (\<lambda>t. \<lparr>al_key = normalize_term nf (tm_term t), al_raw = trim (tm_term t)\<rparr>)
       (sort_by (\<lambda>a b. default_to 0 (tm_sort a) - default_to 0 (tm_sort b))
         (filter (\<lambda>t. tm_canonical t \<noteq> Some True) (default_to [] (sg_terms g))))"

definition group_answered :: "(jstr \<Rightarrow> jstr) \<Rightarrow> nat \<Rightarrow> synonym_group option \<Rightarrow> synonym_drawer \<Rightarrow> synonym_drawer" where
  "group_answered nf i ans s =
     (let s1 = s\<lparr>sd_loads := filter (\<lambda>l. fst l \<noteq> i) (sd_loads s)\<rparr> in
      if sd_live s \<noteq> Some i then s1
      else (case ans of
              Some g \<Rightarrow> s1\<lparr>sd_canonical := sg_canonical g, sd_remark := default_to [] (sg_remark g),
                sd_status := (if sg_status g = Some 0 then 0 else 1), sd_aliases := seeded_aliases nf g, sd_input := []\<rparr>
            | None \<Rightarrow> s1)\<lparr>sd_loading := False\<rparr>)"

fun add_tokens :: "(jstr \<Rightarrow> jstr) \<Rightarrow> jstr list \<Rightarrow> jstr list \<Rightarrow> alias_item list \<Rightarrow> alias_item list" where
  "add_tokens nf [] existing acc = acc"
| "add_tokens nf (t # ts) existing acc =
     (let key = normalize_term nf t in
      if key = [] \<or> key \<in> set existing then add_tokens nf ts existing acc
      else add_tokens nf ts (existing @ [key]) (acc @ [\<lparr>al_key = key, al_raw = t\<rparr>]))"

definition add_aliases :: "(jstr \<Rightarrow> jstr) \<Rightarrow> synonym_drawer \<Rightarrow> synonym_drawer" where
  "add_aliases nf s =
     (let tokens = split_aliases (sd_input s) in
      if tokens = [] then s
      else s\<lparr>sd_aliases := add_tokens nf tokens (map al_key (sd_aliases s)) (sd_aliases s), sd_input := [], sd_conflict := None\<rparr>)"

definition remove_alias :: "nat \<Rightarrow> synonym_drawer \<Rightarrow> synonym_drawer" where
  "remove_alias i s = s\<lparr>sd_aliases := take i (sd_aliases s) @ drop (Suc i) (sd_aliases s), sd_conflict := None\<rparr>"

definition move_alias :: "nat \<Rightarrow> int \<Rightarrow> synonym_drawer \<Rightarrow> synonym_drawer" where
  "move_alias i dir s =
     (let target = int i + dir; prev = sd_aliases s;
          moved = (if target < 0 \<or> int (length prev) \<le> target then prev
                   else prev[i := prev ! nat target, nat target := prev ! i])
      in s\<lparr>sd_aliases := moved, sd_conflict := None\<rparr>)"

definition edit_canonical :: "jstr \<Rightarrow> synonym_drawer \<Rightarrow> synonym_drawer" where
  "edit_canonical v s = s\<lparr>sd_canonical := v, sd_conflict := None\<rparr>"

definition edit_remark :: "jstr \<Rightarrow> synonym_drawer \<Rightarrow> synonym_drawer" where
  "edit_remark v s = s\<lparr>sd_remark := v\<rparr>"

definition edit_status :: "int \<Rightarrow> synonym_drawer \<Rightarrow> synonym_drawer" where
  "edit_status v s = s\<lparr>sd_status := v\<rparr>"

definition edit_input :: "jstr \<Rightarrow> synonym_drawer \<Rightarrow> synonym_drawer" where
  "edit_input v s = s\<lparr>sd_input := v\<rparr>"

definition can_save :: "synonym_drawer \<Rightarrow> bool" where
  "can_save s \<longleftrightarrow> trim (sd_canonical s) \<noteq> [] \<and> sd_aliases s \<noteq> [] \<and> sd_conflict s = None \<and> \<not> sd_saving s"

definition synonym_save :: "synonym_drawer \<Rightarrow> synonym_drawer" where
  "synonym_save s =
     (if \<not> can_save s then s
      else s\<lparr>sd_saving := True,
             sd_saves := sd_saves s @ [(sd_group s, \<lparr>sp_canonical = trim (sd_canonical s), sp_terms = map al_raw (sd_aliases s),
               sp_remark = nonempty (Some (trim (sd_remark s))), sp_status = sd_status s\<rparr>)]\<rparr>)"

definition synonym_saved :: "save_result \<Rightarrow> synonym_drawer \<Rightarrow> synonym_drawer" where
  "synonym_saved r s =
     (let s1 = s\<lparr>sd_saves := tl (sd_saves s)\<rparr> in
      case r of
        Save_ok \<Rightarrow> (drawer_show False (sd_group s1) s1)\<lparr>sd_saving := False\<rparr>
      | Save_conflict c \<Rightarrow> s1\<lparr>sd_conflict := Some c, sd_saving := False\<rparr>
      | Save_error \<Rightarrow> s1\<lparr>sd_saving := False\<rparr>)"

text \<open>What is shown of the form: short words, the conflict, the budget.\<close>

definition is_short :: "int option \<Rightarrow> jstr \<Rightarrow> bool" where
  "is_short min_length key \<longleftrightarrow> (case min_length of Some n \<Rightarrow> int (length key) < n | None \<Rightarrow> False)"

definition conflict_key :: "(jstr \<Rightarrow> jstr) \<Rightarrow> synonym_drawer \<Rightarrow> jstr option" where
  "conflict_key nf s = map_option (\<lambda>c. normalize_term nf (default_to [] (tc_term c))) (sd_conflict s)"

definition canonical_conflicted :: "(jstr \<Rightarrow> jstr) \<Rightarrow> synonym_drawer \<Rightarrow> bool" where
  "canonical_conflicted nf s \<longleftrightarrow>
     conflict_key nf s \<noteq> None \<and> conflict_key nf s \<noteq> Some [] \<and> conflict_key nf s = Some (normalize_term nf (sd_canonical s))"

definition mine_raw :: "(jstr \<Rightarrow> jstr) \<Rightarrow> synonym_drawer \<Rightarrow> jstr" where
  "mine_raw nf s =
     (case conflict_key nf s of
        None \<Rightarrow> []
      | Some k \<Rightarrow> if k = [] then []
                  else if normalize_term nf (sd_canonical s) = k then trim (sd_canonical s)
                  else default_to [] (map_option al_raw (List.find (\<lambda>a. al_key a = k) (sd_aliases s))))"

definition total_terms :: "synonym_drawer \<Rightarrow> nat" where
  "total_terms s = length (sd_aliases s) + (if trim (sd_canonical s) \<noteq> [] then 1 else 0)"

definition over_budget :: "int option \<Rightarrow> synonym_drawer \<Rightarrow> bool" where
  "over_budget max_terms s \<longleftrightarrow> (case max_terms of Some n \<Rightarrow> n < int (total_terms s) | None \<Rightarrow> False)"

section \<open>Words stay distinct\<close>

definition aliases_ok :: "(jstr \<Rightarrow> jstr) \<Rightarrow> alias_item list \<Rightarrow> bool" where
  "aliases_ok nf as \<longleftrightarrow> distinct (map al_key as) \<and> list_all (\<lambda>a. al_key a = normalize_term nf (al_raw a) \<and> al_key a \<noteq> []) as"

text \<open>What happens to the drawer; the server keeps the words of a group distinct.\<close>

inductive drawer_run :: "(jstr \<Rightarrow> jstr) \<Rightarrow> synonym_drawer \<Rightarrow> bool" for nf where
  start: "drawer_run nf new_drawer"
| show_group: "drawer_run nf s \<Longrightarrow> drawer_run nf (drawer_show op g s)"
| answered: "drawer_run nf s \<Longrightarrow> (\<And>g. ans = Some g \<Longrightarrow> aliases_ok nf (seeded_aliases nf g)) \<Longrightarrow> drawer_run nf (group_answered nf i ans s)"
| add: "drawer_run nf s \<Longrightarrow> drawer_run nf (add_aliases nf s)"
| remove: "drawer_run nf s \<Longrightarrow> drawer_run nf (remove_alias i s)"
| move: "drawer_run nf s \<Longrightarrow> i < length (sd_aliases s) \<Longrightarrow> drawer_run nf (move_alias i dir s)"
| canonical: "drawer_run nf s \<Longrightarrow> drawer_run nf (edit_canonical v s)"
| remark: "drawer_run nf s \<Longrightarrow> drawer_run nf (edit_remark v s)"
| status: "drawer_run nf s \<Longrightarrow> drawer_run nf (edit_status n s)"
| input: "drawer_run nf s \<Longrightarrow> drawer_run nf (edit_input v s)"
| save: "drawer_run nf s \<Longrightarrow> drawer_run nf (synonym_save s)"
| saved: "drawer_run nf s \<Longrightarrow> sd_saves s \<noteq> [] \<Longrightarrow> drawer_run nf (synonym_saved r s)"

definition drawer_inv :: "(jstr \<Rightarrow> jstr) \<Rightarrow> synonym_drawer \<Rightarrow> bool" where
  "drawer_inv nf s \<longleftrightarrow> aliases_ok nf (sd_aliases s)
     \<and> list_all (\<lambda>(g, p). distinct (map (normalize_term nf) (sp_terms p)) \<and> [] \<notin> normalize_term nf ` set (sp_terms p)) (sd_saves s)
     \<and> length (sd_saves s) = (if sd_saving s then 1 else 0)"

lemma aliases_ok_remove: "aliases_ok nf as \<Longrightarrow> aliases_ok nf (take i as @ drop (Suc i) as)"
proof (cases "i < length as")
  case True
  assume ok: "aliases_ok nf as"
  obtain x a y where xy: "as = x @ a # y" "take i as = x" "drop (Suc i) as = y" using id_take_nth_drop [OF True] by blast
  from ok have "aliases_ok nf (x @ a # y)" by (simp only: xy(1) [symmetric])
  then have "aliases_ok nf (x @ y)" by (auto simp: aliases_ok_def)
  then show ?thesis by (simp only: xy(2,3))
qed simp

lemma aliases_ok_mset: "aliases_ok nf as \<Longrightarrow> mset bs = mset as \<Longrightarrow> aliases_ok nf bs"
proof -
  assume as: "aliases_ok nf as" "mset bs = mset as"
  then have "mset (map al_key bs) = mset (map al_key as)" "set bs = set as" by (auto dest: mset_eq_setD)
  then have "distinct (map al_key bs) = distinct (map al_key as)" by (intro mset_eq_imp_distinct_iff)
  with as(1) \<open>set bs = set as\<close> show ?thesis by (auto simp: aliases_ok_def list_all_iff)
qed

lemma add_tokens_ok:
  "aliases_ok nf acc \<Longrightarrow> existing = map al_key acc \<Longrightarrow> aliases_ok nf (add_tokens nf ts existing acc)"
proof (induction ts arbitrary: existing acc)
  case (Cons t ts)
  define key where "key = normalize_term nf t"
  show ?case
  proof (cases "key = [] \<or> key \<in> set existing")
    case True
    with Cons show ?thesis by (simp add: Let_def key_def)
  next
    case False
    with Cons.prems have "aliases_ok nf (acc @ [\<lparr>al_key = key, al_raw = t\<rparr>])" by (auto simp: aliases_ok_def key_def)
    from Cons.IH [OF this] False Cons.prems show ?thesis by (simp add: Let_def key_def)
  qed
qed simp

lemma payload_words:
  "aliases_ok nf as \<Longrightarrow> distinct (map (normalize_term nf) (map al_raw as)) \<and> [] \<notin> normalize_term nf ` set (map al_raw as)"
proof -
  assume ok: "aliases_ok nf as"
  then have "map (normalize_term nf) (map al_raw as) = map al_key as" by (simp add: aliases_ok_def list_all_iff)
  moreover have "[] \<notin> set (map al_key as)" using ok by (auto simp: aliases_ok_def list_all_iff)
  ultimately show ?thesis using ok by (metis aliases_ok_def set_map)
qed

lemma drawer_show_fields:
  "sd_saves (drawer_show op g s) = sd_saves s" "sd_saving (drawer_show op g s) = sd_saving s"
  "sd_aliases (drawer_show op g s) = sd_aliases s \<or> sd_aliases (drawer_show op g s) = []"
  by (auto simp: drawer_show_def drawer_effect_def split: option.splits)

lemma drawer_show_inv: "drawer_inv nf s \<Longrightarrow> drawer_inv nf (drawer_show op g s)"
  using drawer_show_fields [of op g s] by (auto simp: drawer_inv_def aliases_ok_def)

lemma drawer_run_inv: "drawer_run nf s \<Longrightarrow> drawer_inv nf s"
proof (induction rule: drawer_run.induct)
  case start
  then show ?case by (simp add: drawer_inv_def new_drawer_def aliases_ok_def)
next
  case (show_group s op g)
  from show_group.IH show ?case by (rule drawer_show_inv)
next
  case (answered s ans i)
  then show ?case by (auto simp: drawer_inv_def group_answered_def Let_def split: option.splits)
next
  case (add s)
  then show ?case by (auto simp: drawer_inv_def add_aliases_def Let_def intro: add_tokens_ok)
next
  case (remove s i)
  then show ?case by (simp add: drawer_inv_def remove_alias_def aliases_ok_remove)
next
  case (move s i dir)
  then show ?case
    by (auto simp: drawer_inv_def move_alias_def Let_def nat_less_iff mset_swap elim!: aliases_ok_mset)
next
  case (canonical s v)
  then show ?case by (simp add: drawer_inv_def edit_canonical_def)
next
  case (remark s v)
  then show ?case by (simp add: drawer_inv_def edit_remark_def)
next
  case (status s n)
  then show ?case by (simp add: drawer_inv_def edit_status_def)
next
  case (input s v)
  then show ?case by (simp add: drawer_inv_def edit_input_def)
next
  case (save s)
  then show ?case using payload_words [of nf "sd_aliases s"] by (auto simp: drawer_inv_def synonym_save_def can_save_def)
next
  case (saved s r)
  then have one: "length (sd_saves s) = 1" "sd_saving s" by (auto simp: drawer_inv_def split: if_splits)
  then have "sd_saves (s\<lparr>sd_saves := tl (sd_saves s)\<rparr>) = []" by (cases "sd_saves s") auto
  then show ?case using saved.IH drawer_show_fields [of False "sd_group s" "s\<lparr>sd_saves := tl (sd_saves s)\<rparr>"]
    by (cases r) (auto simp: drawer_inv_def synonym_saved_def Let_def aliases_ok_def)
qed

section \<open>Properties\<close>

text \<open>
  In every reachable state the words of the form are distinct after normalization and none is empty, and
  so are those of every save under way.
\<close>

theorem synonyms_stay_distinct:
  assumes "drawer_run nf s"
  shows "distinct (map al_key (sd_aliases s))
     \<and> list_all (\<lambda>a. al_key a = normalize_term nf (al_raw a) \<and> al_key a \<noteq> []) (sd_aliases s)
     \<and> list_all (\<lambda>(g, p). distinct (map (normalize_term nf) (sp_terms p))) (sd_saves s)"
  using drawer_run_inv [OF assms] by (auto simp: drawer_inv_def aliases_ok_def list_all_iff)

definition typed_drawer :: synonym_drawer where
  "typed_drawer = add_aliases (\<lambda>s. s) (edit_input (js ''ab,ab'') (drawer_show True None new_drawer))"

theorem synonyms_stay_distinct_witness:
  "drawer_run (\<lambda>s. s) typed_drawer \<and> distinct (map al_key (sd_aliases typed_drawer))"
proof -
  have "drawer_run (\<lambda>s. s) typed_drawer"
    unfolding typed_drawer_def by (intro drawer_run.add drawer_run.input drawer_run.show_group drawer_run.start)
  with synonyms_stay_distinct [OF this] show ?thesis by blast
qed

text \<open>The order of the words is theirs of being typed: new ones come last.\<close>

lemma add_tokens_appends: "\<exists>new. add_tokens nf ts existing acc = acc @ new \<and> subseq (map al_raw new) ts"
proof (induction ts arbitrary: existing acc)
  case (Cons t ts)
  define key where "key = normalize_term nf t"
  show ?case
  proof (cases "key = [] \<or> key \<in> set existing")
    case True
    with Cons.IH [of existing acc] show ?thesis by (auto simp: Let_def key_def)
  next
    case False
    from Cons.IH [of "existing @ [key]" "acc @ [\<lparr>al_key = key, al_raw = t\<rparr>]"] False show ?thesis
      by (auto simp: Let_def key_def)
  qed
qed simp

text \<open>
  While another group is loading the form of the last one can be saved, and it is stored under the
  identifier of the group being loaded; the same holds when the load has failed.
\<close>

definition form_payload :: "synonym_drawer \<Rightarrow> synonym_payload" where
  "form_payload s = \<lparr>sp_canonical = trim (sd_canonical s), sp_terms = map al_raw (sd_aliases s),
     sp_remark = nonempty (Some (trim (sd_remark s))), sp_status = sd_status s\<rparr>"

theorem save_overwrites_loading_group:
  assumes "sd_group s \<noteq> Some b" "trim (sd_canonical s) \<noteq> []" "sd_aliases s \<noteq> []" "\<not> sd_saving s"
  shows "let loading = drawer_show True (Some b) s; failed = group_answered nf (sd_next s) None loading in
     sd_loading loading \<and> sd_saves (synonym_save loading) = sd_saves s @ [(Some b, form_payload s)]
     \<and> \<not> sd_loading failed \<and> sd_saves (synonym_save failed) = sd_saves s @ [(Some b, form_payload s)]"
  using assms
  by (auto simp: drawer_show_def drawer_effect_def synonym_save_def can_save_def group_answered_def form_payload_def Let_def)

definition loaded_drawer :: synonym_drawer where
  "loaded_drawer = new_drawer\<lparr>sd_open := True, sd_group := Some 1, sd_canonical := js ''login'',
     sd_aliases := [\<lparr>al_key = js ''sso'', al_raw = js ''SSO''\<rparr>]\<rparr>"

theorem save_overwrites_loading_group_witness:
  "sd_saves (synonym_save (drawer_show True (Some 2) loaded_drawer)) = [(Some 2, form_payload loaded_drawer)]"
proof -
  have "trim (js ''login'') \<noteq> []" by (simp add: trim_def js_def is_ws_def)
  then show ?thesis
    using save_overwrites_loading_group [of loaded_drawer 2 "\<lambda>s. s"] by (simp add: Let_def loaded_drawer_def new_drawer_def)
qed

text \<open>
  A load that is cancelled by closing the drawer leaves it marked as loading: a new group opened next
  never shows its form, whatever answers come.
\<close>

theorem new_group_stays_loading:
  assumes "\<not> sd_open s"
  shows "let new = drawer_show True None (drawer_show False (Some g) (drawer_show True (Some g) s)) in
     sd_open new \<and> sd_group new = None \<and> sd_loading new \<and> (\<forall>i ans. sd_loading (group_answered nf i ans new))"
  using assms by (simp add: drawer_show_def drawer_effect_def group_answered_def Let_def)

theorem new_group_stays_loading_witness:
  "\<not> sd_open new_drawer \<and> sd_loading (drawer_show True None (drawer_show False (Some 5) (drawer_show True (Some 5) new_drawer)))"
proof -
  have "\<not> sd_open new_drawer" by (simp add: new_drawer_def)
  from new_group_stays_loading [OF this, of 5] show ?thesis by (simp add: Let_def new_drawer_def)
qed

end
