(* ===== verification/Synonym_Import.thy ===== *)
theory Synonym_Import
  imports Js_Map
begin

text \<open>
  The dialog that imports synonyms in two phases,
  frontend/mis-admin-web/src/features/kb/synonym/kb-synonym-import-dialog.tsx. A request waits as a task
  and may be answered in any order; the dialog stays mounted while it is closed.
\<close>

section \<open>State\<close>

datatype import_stage = Stage_select | Stage_prechecking | Stage_report | Stage_committing | Stage_done | Stage_error

record precheck =
  pc_token :: jstr
  pc_batch :: "int option"
  pc_format :: jstr

record receipt =
  rc_batch :: "int option"
  rc_skipped :: "int option"

text \<open>A rejection: the code in the body of the answer and the message of an \<open>Error\<close>.\<close>

record import_error =
  ie_code :: "int option"
  ie_message :: "jstr option"

datatype import_task = Precheck_task jstr | Commit_task jstr bool

record import_dialog =
  im_open :: bool
  im_stage :: import_stage
  im_file :: jstr
  im_precheck :: "precheck option"
  im_merge :: bool
  im_commit :: "receipt option"
  im_error :: "jstr option" \<comment> \<open>\<open>None\<close> is the general message\<close>
  im_stale :: bool
  im_tasks :: "import_task list"

definition new_import :: import_dialog where
  "new_import = \<lparr>im_open = False, im_stage = Stage_select, im_file = [], im_precheck = None, im_merge = True,
     im_commit = None, im_error = Some [], im_stale = False, im_tasks = []\<rparr>"

section \<open>Operations\<close>

definition stale_code :: int where
  "stale_code = 40930"

definition is_stale_error :: "import_error \<Rightarrow> bool" where
  "is_stale_error e \<longleftrightarrow> ie_code e = Some stale_code
     \<or> (let msg = default_to [] (ie_message e) in
        str_includes msg (int_dec stale_code) \<or> str_includes msg (js ''KB_SYNONYM_IMPORT_STALE'')
        \<or> str_includes msg [0x8BCD, 0x8868, 0x5DF2, 0x53D8, 0x66F4])"

definition import_reset :: "import_dialog \<Rightarrow> import_dialog" where
  "import_reset s = s\<lparr>im_stage := Stage_select, im_file := [], im_precheck := None, im_commit := None, im_error := Some []\<rparr>"

definition run_precheck :: "jstr \<Rightarrow> import_dialog \<Rightarrow> import_dialog" where
  "run_precheck f s = s\<lparr>im_stage := Stage_prechecking, im_tasks := im_tasks s @ [Precheck_task f]\<rparr>"

definition handle_file_change :: "jstr option \<Rightarrow> import_dialog \<Rightarrow> import_dialog" where
  "handle_file_change file s =
     (case file of
        None \<Rightarrow> s
      | Some f \<Rightarrow> run_precheck f (s\<lparr>im_file := f, im_error := Some [], im_stale := False\<rparr>))"

definition precheck_answered :: "import_error + precheck \<Rightarrow> import_dialog \<Rightarrow> import_dialog" where
  "precheck_answered r s =
     (case r of
        Inr p \<Rightarrow> s\<lparr>im_precheck := Some p, im_stage := Stage_report\<rparr>
      | Inl e \<Rightarrow> s\<lparr>im_error := ie_message e, im_stage := Stage_error\<rparr>)"

definition run_commit :: "import_dialog \<Rightarrow> import_dialog" where
  "run_commit s =
     (case im_precheck s of
        None \<Rightarrow> s
      | Some p \<Rightarrow> s\<lparr>im_stage := Stage_committing, im_tasks := im_tasks s @ [Commit_task (pc_token p) (im_merge s)]\<rparr>)"

definition commit_answered :: "import_error + receipt \<Rightarrow> import_dialog \<Rightarrow> import_dialog" where
  "commit_answered r s =
     (case r of
        Inr c \<Rightarrow> s\<lparr>im_commit := Some c, im_stage := Stage_done\<rparr>
      | Inl e \<Rightarrow> if is_stale_error e then (import_reset s)\<lparr>im_stale := True\<rparr>
                 else s\<lparr>im_error := ie_message e, im_stage := Stage_error\<rparr>)"

text \<open>The batch and format of the download of the rows left out, if there is one.\<close>

definition rejected_download :: "import_dialog \<Rightarrow> (int \<times> jstr) option" where
  "rejected_download s =
     map_option (\<lambda>b. (b, default_to (js ''CSV'') (map_option pc_format (im_precheck s))))
       (orelse (Option.bind (im_commit s) rc_batch) (Option.bind (im_precheck s) pc_batch))"

definition import_close :: "import_dialog \<Rightarrow> import_dialog" where
  "import_close s = (import_reset s)\<lparr>im_stale := False, im_open := False\<rparr>"

definition can_confirm :: "import_dialog \<Rightarrow> bool" where
  "can_confirm s \<longleftrightarrow> im_stage s = Stage_report \<and> im_precheck s \<noteq> None"

section \<open>Events\<close>

text \<open>
  What the user does as far as the dialog shows a control for it, and the answer of the waiting task \<open>i\<close>.
\<close>

datatype import_event =
    Open_dialog
  | Choose "jstr option"
  | Set_merge bool
  | Confirm
  | Again
  | Close_dialog
  | Prechecked nat "import_error + precheck"
  | Committed nat "import_error + receipt"

definition take_task :: "nat \<Rightarrow> import_dialog \<Rightarrow> import_dialog" where
  "take_task i s = s\<lparr>im_tasks := take i (im_tasks s) @ drop (Suc i) (im_tasks s)\<rparr>"

fun import_do :: "import_event \<Rightarrow> import_dialog \<Rightarrow> import_dialog" where
  "import_do Open_dialog s = s\<lparr>im_open := True\<rparr>"
| "import_do (Choose f) s =
     (if im_open s \<and> im_stage s \<in> {Stage_select, Stage_prechecking, Stage_report} then handle_file_change f s else s)"
| "import_do (Set_merge b) s = (if im_open s \<and> can_confirm s then s\<lparr>im_merge := b\<rparr> else s)"
| "import_do Confirm s = (if im_open s \<and> can_confirm s then run_commit s else s)"
| "import_do Again s = (if im_open s \<and> im_stage s \<in> {Stage_report, Stage_error} then import_reset s else s)"
| "import_do Close_dialog s = (if im_open s then import_close s else s)"
| "import_do (Prechecked i r) s =
     (if i < length (im_tasks s) then
        (case im_tasks s ! i of Precheck_task f \<Rightarrow> precheck_answered r (take_task i s) | Commit_task t m \<Rightarrow> s)
      else s)"
| "import_do (Committed i r) s =
     (if i < length (im_tasks s) then
        (case im_tasks s ! i of Commit_task t m \<Rightarrow> commit_answered r (take_task i s) | Precheck_task f \<Rightarrow> s)
      else s)"

definition import_all :: "import_event list \<Rightarrow> import_dialog \<Rightarrow> import_dialog" where
  "import_all es s = foldl (\<lambda>s e. import_do e s) s es"

text \<open>The commit an event sends: its token, and what happens to equal terms.\<close>

definition sends :: "import_event \<Rightarrow> import_dialog \<Rightarrow> (jstr \<times> bool) option" where
  "sends e s =
     (case e of
        Confirm \<Rightarrow> if im_open s \<and> can_confirm s then map_option (\<lambda>p. (pc_token p, im_merge s)) (im_precheck s) else None
      | _ \<Rightarrow> None)"

fun sent :: "import_event list \<Rightarrow> import_dialog \<Rightarrow> (jstr \<times> bool) list" where
  "sent [] s = []"
| "sent (e # es) s = (case sends e s of Some c \<Rightarrow> [c] | None \<Rightarrow> []) @ sent es (import_do e s)"

lemma sends_task: "sends e s = Some (t, m) \<Longrightarrow> im_tasks (import_do e s) = im_tasks s @ [Commit_task t m]"
  by (auto simp: sends_def run_commit_def split: import_event.splits if_splits)

lemma no_commit_unsent: "sends e s = None \<Longrightarrow> Commit_task t m \<in> set (im_tasks (import_do e s)) \<Longrightarrow> Commit_task t m \<in> set (im_tasks s)"
  by (cases e) (auto simp: sends_def run_commit_def handle_file_change_def run_precheck_def import_reset_def import_close_def
      take_task_def precheck_answered_def commit_answered_def can_confirm_def
      split: if_splits option.splits sum.splits import_task.splits dest: in_set_takeD in_set_dropD)

section \<open>Nothing is committed without a report\<close>

definition is_report :: "import_event \<Rightarrow> bool" where
  "is_report e \<longleftrightarrow> (case e of Prechecked i (Inr p) \<Rightarrow> True | _ \<Rightarrow> False)"

lemma no_report_kept: "im_precheck s = None \<Longrightarrow> \<not> is_report e \<Longrightarrow> im_precheck (import_do e s) = None"
  by (cases e) (auto simp: is_report_def run_commit_def handle_file_change_def run_precheck_def import_reset_def import_close_def
      take_task_def precheck_answered_def commit_answered_def can_confirm_def
      split: option.splits sum.splits import_task.splits)

lemma no_report_no_commit: "im_precheck s = None \<Longrightarrow> list_all (\<lambda>e. \<not> is_report e) es \<Longrightarrow> sent es s = []"
proof (induction es arbitrary: s)
  case (Cons e es)
  then have "sends e s = None" by (auto simp: sends_def can_confirm_def split: import_event.splits)
  with Cons show ?case by (simp add: no_report_kept)
qed simp

text \<open>
  C39: Nothing is committed before the first report; and once the server has answered that its vocabulary
  changed, nothing is committed until another report has come.
\<close>

theorem commit_needs_new_report:
  assumes "list_all (\<lambda>e. \<not> is_report e) es" "i < length (im_tasks s)" "im_tasks s ! i = Commit_task t m" "is_stale_error e"
  shows "sent es new_import = [] \<and> sent es (import_do (Committed i (Inl e)) s) = []"
proof
  show "sent es new_import = []" using assms(1) by (intro no_report_no_commit) (simp_all add: new_import_def)
  have "im_precheck (import_do (Committed i (Inl e)) s) = None"
    using assms(2-4) by (simp add: commit_answered_def import_reset_def)
  then show "sent es (import_do (Committed i (Inl e)) s) = []" using assms(1) by (rule no_report_no_commit)
qed

definition confirmed_import :: import_dialog where
  "confirmed_import = import_all [Open_dialog, Choose (Some (js ''a.csv'')),
     Prechecked 0 (Inr \<lparr>pc_token = js ''t'', pc_batch = None, pc_format = js ''CSV''\<rparr>), Confirm] new_import"

lemmas import_simps = import_all_def new_import_def handle_file_change_def run_precheck_def precheck_answered_def take_task_def
  can_confirm_def run_commit_def sends_def import_close_def import_reset_def

theorem commit_needs_new_report_witness:
  "im_tasks confirmed_import = [Commit_task (js ''t'') True]
     \<and> sent [Choose (Some (js ''b.csv'')), Confirm] (import_do (Committed 0 (Inl \<lparr>ie_code = Some 40930, ie_message = None\<rparr>)) confirmed_import) = []"
proof -
  have t: "im_tasks confirmed_import = [Commit_task (js ''t'') True]"
    by (simp add: confirmed_import_def import_simps)
  have "is_stale_error \<lparr>ie_code = Some 40930, ie_message = None\<rparr>" by (simp add: is_stale_error_def stale_code_def)
  with commit_needs_new_report [of "[Choose (Some (js ''b.csv'')), Confirm]" 0 confirmed_import "js ''t''" True] t
  show ?thesis by (simp add: is_report_def)
qed

text \<open>
  The report that is confirmed need not be that of the file whose name is shown: the one of a file chosen
  earlier replaces it when it comes later, and one that comes after the dialog was closed is there, with
  no file name, when it is opened again.
\<close>

theorem late_report_is_confirmed:
  "(let s = import_all [Open_dialog, Choose (Some a), Choose (Some b), Prechecked 1 (Inr pb), Prechecked 0 (Inr pa)] new_import
    in im_file s = b \<and> sends Confirm s = Some (pc_token pa, True))
   \<and> (let s = import_all [Open_dialog, Choose (Some a), Close_dialog, Prechecked 0 (Inr pa), Open_dialog] new_import
      in im_file s = [] \<and> sends Confirm s = Some (pc_token pa, True))"
  by (simp add: import_simps Let_def)

end
