(* ===== verification/Kb_Ask.thy ===== *)
theory Kb_Ask
  imports Ai_Stream Js_Number
begin

text \<open>
  Asking the knowledge base with a streamed answer, \<open>askKbRagStream\<close> and \<open>askKbRag\<close> of
  frontend/mis-admin-web/src/features/kb/api/kb-api.ts. The frames are those of \<open>Ai_Stream\<close>. Identifiers
  are numbers or decimal strings, as their types declare; any other value counts as NaN.
\<close>

section \<open>Values of an answer\<close>

definition raw_number :: "jval \<Rightarrow> int option" where
  "raw_number v = (case v of JNum n \<Rightarrow> Some n | JStr s \<Rightarrow> id_number s | _ \<Rightarrow> None)"

definition normalize_session_id :: "jval \<Rightarrow> int option" where
  "normalize_session_id v = (case raw_number v of Some n \<Rightarrow> if n > 0 then Some n else None | None \<Rightarrow> None)"

definition normalize_non_negative :: "jval \<Rightarrow> int option" where
  "normalize_non_negative v = (case raw_number v of Some n \<Rightarrow> if n \<ge> 0 then Some n else None | None \<Rightarrow> None)"

definition normalize_score :: "jval \<Rightarrow> int option" where
  "normalize_score v = raw_number v"

record citation =
  ci_id :: int
  ci_library :: "int option"
  ci_document :: "int option"
  ci_text :: "jstr option"
  ci_score :: "int option"
  ci_source :: "jstr option"
  ci_offset :: "int option"
  ci_page :: "int option"

definition normalize_citation :: "nat \<Rightarrow> jval \<Rightarrow> citation" where
  "normalize_citation index c =
     \<lparr>ci_id = default_to (- (int index + 1)) (normalize_session_id (jprop c ''id'')),
      ci_library = normalize_session_id (jprop c ''libraryId''),
      ci_document = normalize_session_id (jprop c ''documentId''),
      ci_text = orelse (as_string (jprop c ''chunkText'')) (as_string (jprop c ''chunk'')),
      ci_score = normalize_score (jprop c ''score''),
      ci_source = nonempty (map_option trim (as_string (jprop c ''source''))),
      ci_offset = normalize_non_negative (jprop c ''offset''),
      ci_page = normalize_non_negative (jprop c ''page'')\<rparr>"

definition normalize_citations :: "jval \<Rightarrow> citation list" where
  "normalize_citations v = (case v of JArr cs \<Rightarrow> map (\<lambda>(i, c). normalize_citation i c) (enumerate 0 cs) | _ \<Rightarrow> [])"

record rag_answer =
  ra_answer :: jstr
  ra_session :: "int option"
  ra_message :: "int option"
  ra_citations :: "citation list"

definition answer_of :: "jstr \<Rightarrow> jval \<Rightarrow> rag_answer" where
  "answer_of text d =
     \<lparr>ra_answer = text,
      ra_session = orelse (normalize_session_id (jprop d ''kbSessionId'')) (normalize_session_id (jprop d ''sessionId'')),
      ra_message = normalize_session_id (jprop d ''messageId''),
      ra_citations = normalize_citations (jprop d ''citations'')\<rparr>"

text \<open>The answer of the call without a stream.\<close>

definition ask_kb_rag :: "jval \<Rightarrow> rag_answer" where
  "ask_kb_rag d = answer_of (default_to [] (as_string (jprop d ''answer''))) d"

section \<open>Frames\<close>

definition infer_event :: "jval option \<Rightarrow> jstr" where
  "infer_event data =
     (case data of
        None \<Rightarrow> js ''delta''
      | Some d \<Rightarrow>
          if jprop d ''type'' \<in> {JStr (js ''delta''), JStr (js ''done''), JStr (js ''error'')}
          then default_to [] (as_string (jprop d ''type''))
          else if has_member d ''message'' \<and> has_member d ''code'' then js ''error''
          else if has_member d ''citations'' \<or> has_member d ''finishReason'' then js ''done''
          else js ''delta'')"

definition pick_delta_text :: "jval option \<Rightarrow> jstr \<Rightarrow> jstr" where
  "pick_delta_text data raw =
     (case data of
        None \<Rightarrow> raw
      | Some d \<Rightarrow> default_to [] (orelse (as_string (jprop d ''text'')) (as_string (jprop d ''delta''))))"

section \<open>The stream\<close>

record ask_stream =
  sk_buffer :: jstr
  sk_settled :: bool

definition new_stream :: ask_stream where
  "new_stream = \<lparr>sk_buffer = [], sk_settled = False\<rparr>"

datatype rag_call = Rag_delta jstr | Rag_done rag_answer | Rag_error jstr

definition ask_fail :: "jstr \<Rightarrow> ask_stream \<Rightarrow> ask_stream \<times> rag_call list" where
  "ask_fail m s = (if sk_settled s then (s, []) else (s\<lparr>sk_settled := True\<rparr>, [Rag_error m]))"

definition frame_event :: "sse_frame \<Rightarrow> jstr" where
  "frame_event f = (if sf_event f \<noteq> [] then sf_event f else infer_event (sf_data f))"

definition handle_frame :: "sse_frame \<Rightarrow> ask_stream \<Rightarrow> ask_stream \<times> rag_call list" where
  "handle_frame f s =
     (if sk_settled s then (s, [])
      else if frame_event f = js ''error'' then
        ask_fail (default_to default_ai_error
          (orelse (nonempty (Option.bind (sf_data f) (\<lambda>d. as_string (jprop d ''message'')))) (nonempty (Some (sf_raw f))))) s
      else if frame_event f = js ''done'' then
        (s\<lparr>sk_settled := True\<rparr>, [Rag_done (answer_of (sk_buffer s) (default_to (JObj []) (sf_data f)))])
      else
        (let text = pick_delta_text (sf_data f) (sf_raw f) in
         if text \<noteq> [] then (s\<lparr>sk_buffer := sk_buffer s @ text\<rparr>, [Rag_delta text]) else (s, [])))"

text \<open>
  How the request ends: its promise is fulfilled, or rejected, after the connection reported an error or
  not, and with the signal of the caller aborted or not.
\<close>

datatype stream_end = Stream_closed | Stream_broken "jstr option" bool jstr

definition stopped_answer :: "jstr \<Rightarrow> rag_answer" where
  "stopped_answer text = \<lparr>ra_answer = text, ra_session = None, ra_message = None, ra_citations = []\<rparr>"

definition ask_end :: "stream_end \<Rightarrow> ask_stream \<Rightarrow> ask_stream \<times> rag_call list" where
  "ask_end e s =
     (case e of
        Stream_closed \<Rightarrow> (s, [])
      | Stream_broken reported aborted m \<Rightarrow>
          (case (case reported of Some r \<Rightarrow> ask_fail r s | None \<Rightarrow> (s, [])) of
             (s1, calls) \<Rightarrow>
               if aborted then
                 (if sk_settled s1 then (s1, calls)
                  else (s1\<lparr>sk_settled := True\<rparr>, calls @ [Rag_done (stopped_answer (sk_buffer s1))]))
               else (case ask_fail m s1 of (s2, later) \<Rightarrow> (s2, calls @ later))))"

fun ask_frames :: "sse_frame list \<Rightarrow> ask_stream \<Rightarrow> ask_stream \<times> rag_call list" where
  "ask_frames [] s = (s, [])"
| "ask_frames (f # fs) s =
     (case handle_frame f s of (s1, calls) \<Rightarrow> (case ask_frames fs s1 of (s2, later) \<Rightarrow> (s2, calls @ later)))"

definition ask_run :: "sse_frame list \<Rightarrow> stream_end \<Rightarrow> ask_stream \<times> rag_call list" where
  "ask_run fs e =
     (case ask_frames fs new_stream of (s1, calls) \<Rightarrow> (case ask_end e s1 of (s2, later) \<Rightarrow> (s2, calls @ later)))"

section \<open>The contract of the callbacks\<close>

text \<open>The calls a stream makes: pieces of text, and last at most one result or error.\<close>

definition deltas_only :: "rag_call list \<Rightarrow> bool" where
  "deltas_only cs \<longleftrightarrow> list_all (\<lambda>c. case c of Rag_delta t \<Rightarrow> t \<noteq> [] | _ \<Rightarrow> False) cs"

definition text_of :: "rag_call list \<Rightarrow> jstr" where
  "text_of cs = concat (map (\<lambda>c. case c of Rag_delta t \<Rightarrow> t | _ \<Rightarrow> []) cs)"

definition good_calls :: "jstr \<Rightarrow> ask_stream \<Rightarrow> rag_call list \<Rightarrow> bool" where
  "good_calls before s cs \<longleftrightarrow>
     (\<exists>ds final. cs = ds @ final \<and> deltas_only ds \<and> sk_buffer s = before @ text_of ds
        \<and> (if sk_settled s then (\<exists>m. final = [Rag_error m]) \<or> (\<exists>a. final = [Rag_done a] \<and> ra_answer a = sk_buffer s)
           else final = []))"

lemma good_calls_append:
  assumes "good_calls before s1 cs" "\<not> sk_settled s1" "good_calls (sk_buffer s1) s2 ds"
  shows "good_calls before s2 (cs @ ds)"
proof -
  from assms(1,2) have c: "deltas_only cs" "sk_buffer s1 = before @ text_of cs" by (auto simp: good_calls_def)
  from assms(3) obtain es final where d: "ds = es @ final" "deltas_only es" "sk_buffer s2 = sk_buffer s1 @ text_of es"
    "if sk_settled s2 then (\<exists>m. final = [Rag_error m]) \<or> (\<exists>a. final = [Rag_done a] \<and> ra_answer a = sk_buffer s2) else final = []"
    unfolding good_calls_def by blast
  have "deltas_only (cs @ es)" "sk_buffer s2 = before @ text_of (cs @ es)"
    using c d by (simp_all add: deltas_only_def text_of_def)
  with d show ?thesis unfolding good_calls_def by (intro exI [of _ "cs @ es"] exI [of _ final]) simp
qed

lemma good_error: "sk_settled s \<Longrightarrow> sk_buffer s = before \<Longrightarrow> good_calls before s [Rag_error m]"
  unfolding good_calls_def by (intro exI [of _ "[]"] exI [of _ "[Rag_error m]"]) (simp add: deltas_only_def text_of_def)

lemma good_done: "sk_settled s \<Longrightarrow> sk_buffer s = before \<Longrightarrow> ra_answer a = before \<Longrightarrow> good_calls before s [Rag_done a]"
  unfolding good_calls_def by (intro exI [of _ "[]"] exI [of _ "[Rag_done a]"]) (simp add: deltas_only_def text_of_def)

lemma good_none: "\<not> sk_settled s \<Longrightarrow> sk_buffer s = before \<Longrightarrow> good_calls before s []"
  unfolding good_calls_def by (intro exI [of _ "[]"]) (simp add: deltas_only_def text_of_def)

lemma good_fail: "\<not> sk_settled s \<Longrightarrow> ask_fail m s = (s', cs) \<Longrightarrow> good_calls (sk_buffer s) s' cs \<and> sk_settled s'"
  by (auto simp: ask_fail_def intro: good_error)

lemma frame_cases:
  assumes "\<not> sk_settled s"
  obtains (err) m where "handle_frame f s = ask_fail m s"
    | (fin) d where "handle_frame f s = (s\<lparr>sk_settled := True\<rparr>, [Rag_done (answer_of (sk_buffer s) d)])"
    | (delta) t where "t \<noteq> []" "handle_frame f s = (s\<lparr>sk_buffer := sk_buffer s @ t\<rparr>, [Rag_delta t])"
    | (none) "handle_frame f s = (s, [])"
proof -
  define t where "t = pick_delta_text (sf_data f) (sf_raw f)"
  consider "frame_event f = js ''error''" | "frame_event f \<noteq> js ''error''" "frame_event f = js ''done''"
    | "frame_event f \<noteq> js ''error''" "frame_event f \<noteq> js ''done''" by blast
  then show thesis
  proof cases
    case 1
    show thesis by (rule err) (unfold handle_frame_def 1, use assms in simp)
  next
    case 2
    show thesis by (rule fin) (unfold handle_frame_def, use assms 2 in simp)
  next
    case 3
    then have h: "handle_frame f s = (if t \<noteq> [] then (s\<lparr>sk_buffer := sk_buffer s @ t\<rparr>, [Rag_delta t]) else (s, []))"
      using assms unfolding handle_frame_def t_def by (simp only: if_False Let_def)
    then show thesis using delta [of t] none by (cases "t = []") auto
  qed
qed

lemma good_frame: "\<not> sk_settled s \<Longrightarrow> handle_frame f s = (s', cs) \<Longrightarrow> good_calls (sk_buffer s) s' cs"
proof -
  assume a: "\<not> sk_settled s" "handle_frame f s = (s', cs)"
  from a(1) show ?thesis
  proof (cases rule: frame_cases [where f = f])
    case (err m)
    with a good_fail show ?thesis by metis
  next
    case (fin d)
    with a(2) show ?thesis by (auto simp: answer_of_def intro: good_done)
  next
    case (delta t)
    with a show ?thesis unfolding good_calls_def
      by (intro exI [of _ "[Rag_delta t]"] exI [of _ "[]"]) (auto simp: deltas_only_def text_of_def)
  next
    case none
    with a show ?thesis by (auto intro: good_none)
  qed
qed

lemma settled_silent: "sk_settled s \<Longrightarrow> ask_frames fs s = (s, [])"
  by (induction fs) (auto simp: handle_frame_def)

lemma settled_end: "sk_settled s \<Longrightarrow> ask_end e s = (s, [])"
  by (cases e) (auto simp: ask_end_def ask_fail_def split: option.splits)

lemma good_frames: "\<not> sk_settled s \<Longrightarrow> ask_frames fs s = (s', cs) \<Longrightarrow> good_calls (sk_buffer s) s' cs"
proof (induction fs arbitrary: s cs)
  case Nil
  then show ?case by (auto simp: good_calls_def deltas_only_def text_of_def)
next
  case (Cons f fs)
  obtain s1 c1 where f: "handle_frame f s = (s1, c1)" by fastforce
  obtain s2 c2 where r: "ask_frames fs s1 = (s2, c2)" by fastforce
  from Cons.prems f r have e: "s' = s2" "cs = c1 @ c2" by auto
  have g: "good_calls (sk_buffer s) s1 c1" using good_frame Cons.prems(1) f by blast
  show ?case
  proof (cases "sk_settled s1")
    case True
    with r g e settled_silent show ?thesis by auto
  next
    case False
    with Cons.IH r g e good_calls_append show ?thesis by blast
  qed
qed

lemma good_end: "\<not> sk_settled s \<Longrightarrow> ask_end e s = (s', cs) \<Longrightarrow> good_calls (sk_buffer s) s' cs"
  by (cases e) (auto simp: ask_end_def ask_fail_def stopped_answer_def
      intro: good_none good_error good_done split: option.splits if_splits)

lemma good_run: "ask_run fs e = (s, cs) \<Longrightarrow> good_calls [] s cs"
proof -
  assume a: "ask_run fs e = (s, cs)"
  obtain s1 c1 where f: "ask_frames fs new_stream = (s1, c1)" by fastforce
  obtain s2 c2 where r: "ask_end e s1 = (s2, c2)" by fastforce
  from a f r have e: "s = s2" "cs = c1 @ c2" by (auto simp: ask_run_def)
  have g: "good_calls [] s1 c1" using good_frames [OF _ f] by (simp add: new_stream_def)
  show ?thesis
  proof (cases "sk_settled s1")
    case True
    with r g e settled_end show ?thesis by auto
  next
    case False
    with r g e good_end good_calls_append show ?thesis by blast
  qed
qed

text \<open>
  Whatever the frames and however the request ends: the callbacks get pieces of text, then at most one
  result or error and nothing after it; the result is the concatenation of the pieces.
\<close>

theorem stream_result_is_unique:
  "\<exists>ds final. snd (ask_run fs e) = ds @ final \<and> deltas_only ds
     \<and> (final = [] \<or> (\<exists>m. final = [Rag_error m]) \<or> (\<exists>a. final = [Rag_done a] \<and> ra_answer a = text_of ds))"
proof -
  obtain s cs where r: "ask_run fs e = (s, cs)" by fastforce
  from good_run [OF r] obtain ds final where "cs = ds @ final" "deltas_only ds" "sk_buffer s = text_of ds"
    "if sk_settled s then (\<exists>m. final = [Rag_error m]) \<or> (\<exists>a. final = [Rag_done a] \<and> ra_answer a = sk_buffer s) else final = []"
    unfolding good_calls_def by auto
  with r show ?thesis by (intro exI [of _ ds] exI [of _ final]) (auto split: if_splits)
qed

end
