(* ===== verification/Kb_Qa.thy ===== *)
theory Kb_Qa
  imports Kb_Ask
begin

text \<open>
  The page for asking the knowledge base, frontend/mis-admin-web/src/features/kb/qa/kb-qa-page.tsx, with
  the votes of components/kb-answer-vote.ts. A question starts a run; the callbacks of its stream, and of
  the call without a stream that follows a stream without any text, act on the page when they come.
\<close>

section \<open>State\<close>

record qa_turn =
  qt_key :: nat
  qt_question :: jstr
  qt_answer :: jstr
  qt_citations :: "citation list"
  qt_session :: "int option"
  qt_message :: "int option"
  qt_streaming :: bool
  qt_libs :: "int list option"

text \<open>What a run of \<open>runAsk\<close> keeps; \<open>qr_fallback\<close> is the reason of the second call under way.\<close>

record qa_run =
  qr_key :: nat
  qr_question :: jstr
  qr_libs :: "int list option"
  qr_session :: "int option"
  qr_stream :: ask_stream
  qr_received :: bool
  qr_fallback :: "jstr option"

datatype answer_vote = Vote_up | Vote_down

record qa_page =
  qp_question :: jstr
  qp_library :: "int option"
  qp_turns :: "qa_turn list"
  qp_asking :: bool
  qp_error :: "jstr option"
  qp_sessions :: "int list"
  qp_active :: "int option"
  qp_vote :: "answer_vote option"
  qp_voting :: bool
  qp_runs :: "qa_run list"
  qp_next :: nat \<comment> \<open>the counter of \<open>nextTurnKey\<close>\<close>

definition new_qa_page :: qa_page where
  "new_qa_page = \<lparr>qp_question = [], qp_library = None, qp_turns = [], qp_asking = False, qp_error = None, qp_sessions = [],
     qp_active = None, qp_vote = None, qp_voting = False, qp_runs = [], qp_next = 0\<rparr>"

section \<open>Asking\<close>

definition patch_turn :: "nat \<Rightarrow> (qa_turn \<Rightarrow> qa_turn) \<Rightarrow> qa_page \<Rightarrow> qa_page" where
  "patch_turn key p s = s\<lparr>qp_turns := map (\<lambda>t. if qt_key t = key then p t else t) (qp_turns s)\<rparr>"

definition start_run :: "jstr \<Rightarrow> nat \<Rightarrow> int list option \<Rightarrow> int option \<Rightarrow> qa_page \<Rightarrow> qa_page" where
  "start_run q key libs session s =
     s\<lparr>qp_asking := True, qp_error := None,
       qp_runs := qp_runs s @ [\<lparr>qr_key = key, qr_question = q, qr_libs = libs, qr_session = session, qr_stream = new_stream,
         qr_received = False, qr_fallback = None\<rparr>]\<rparr>"

definition qa_ask :: "qa_page \<Rightarrow> qa_page" where
  "qa_ask s =
     (let q = trim (qp_question s) in
      if q = [] \<or> qp_asking s then s
      else
        (let libs = map_option (\<lambda>l. [l]) (qp_library s);
             turn = \<lparr>qt_key = qp_next s, qt_question = q, qt_answer = [], qt_citations = [], qt_session = None,
               qt_message = None, qt_streaming = True, qt_libs = libs\<rparr>
         in start_run q (qp_next s) libs (qp_active s)
              (s\<lparr>qp_question := [], qp_turns := qp_turns s @ [turn], qp_next := Suc (qp_next s)\<rparr>)))"

definition qa_regenerate :: "qa_turn \<Rightarrow> qa_page \<Rightarrow> qa_page" where
  "qa_regenerate t s =
     (if qp_asking s then s
      else start_run (qt_question t) (qt_key t) (qt_libs t) (orelse (qt_session t) (qp_active s))
             (patch_turn (qt_key t) (\<lambda>u. u\<lparr>qt_answer := [], qt_citations := [], qt_message := None, qt_streaming := True\<rparr>) s))"

definition qa_finish :: "nat \<Rightarrow> rag_answer \<Rightarrow> qa_page \<Rightarrow> qa_page" where
  "qa_finish key r s =
     (let s1 = patch_turn key (\<lambda>t. t\<lparr>qt_answer := ra_answer r, qt_citations := ra_citations r, qt_session := ra_session r,
                 qt_message := ra_message r, qt_streaming := False\<rparr>) s
      in case ra_session r of Some i \<Rightarrow> s1\<lparr>qp_active := Some i\<rparr> | None \<Rightarrow> s1)"

definition set_run :: "nat \<Rightarrow> (qa_run \<Rightarrow> qa_run) \<Rightarrow> qa_page \<Rightarrow> qa_page" where
  "set_run i p s = s\<lparr>qp_runs := (qp_runs s)[i := p (qp_runs s ! i)]\<rparr>"

text \<open>The callbacks \<open>onDelta\<close>, \<open>onDone\<close> and \<open>onError\<close> of run \<open>i\<close>.\<close>

definition qa_call :: "nat \<Rightarrow> rag_call \<Rightarrow> qa_page \<Rightarrow> qa_page" where
  "qa_call i c s =
     (let r = qp_runs s ! i in
      case c of
        Rag_delta t \<Rightarrow> patch_turn (qr_key r) (\<lambda>u. u\<lparr>qt_answer := qt_answer u @ t\<rparr>) (set_run i (\<lambda>r. r\<lparr>qr_received := True\<rparr>) s)
      | Rag_done a \<Rightarrow> qa_finish (qr_key r) a s
      | Rag_error m \<Rightarrow>
          if qr_received r then (patch_turn (qr_key r) (\<lambda>u. u\<lparr>qt_streaming := False\<rparr>) s)\<lparr>qp_error := Some m\<rparr>
          else set_run i (\<lambda>r. r\<lparr>qr_fallback := Some m\<rparr>) s)"

definition qa_calls :: "nat \<Rightarrow> rag_call list \<Rightarrow> qa_page \<Rightarrow> qa_page" where
  "qa_calls i cs s = foldl (\<lambda>s c. qa_call i c s) s cs"

definition qa_frame :: "nat \<Rightarrow> sse_frame \<Rightarrow> qa_page \<Rightarrow> qa_page" where
  "qa_frame i f s =
     (case handle_frame f (qr_stream (qp_runs s ! i)) of
        (st, calls) \<Rightarrow> qa_calls i calls (set_run i (\<lambda>r. r\<lparr>qr_stream := st\<rparr>) s))"

definition qa_end :: "nat \<Rightarrow> stream_end \<Rightarrow> qa_page \<Rightarrow> qa_page" where
  "qa_end i e s =
     (case ask_end e (qr_stream (qp_runs s ! i)) of
        (st, calls) \<Rightarrow> (qa_calls i calls (set_run i (\<lambda>r. r\<lparr>qr_stream := st\<rparr>) s))\<lparr>qp_asking := False\<rparr>)"

text \<open>The answer of the second call of run \<open>i\<close>, or the message of its failure.\<close>

definition fallback_answered :: "nat \<Rightarrow> jstr option + rag_answer \<Rightarrow> qa_page \<Rightarrow> qa_page" where
  "fallback_answered i ans s =
     (let r = qp_runs s ! i in
      case qr_fallback r of
        None \<Rightarrow> s
      | Some reason \<Rightarrow>
          (let s1 = set_run i (\<lambda>r. r\<lparr>qr_fallback := None\<rparr>) s in
           case ans of
             Inr a \<Rightarrow> qa_finish (qr_key r) a s1
           | Inl m \<Rightarrow> patch_turn (qr_key r) (\<lambda>u. u\<lparr>qt_streaming := False\<rparr>) (s1\<lparr>qp_error := Some (default_to reason m)\<rparr>)))"

section \<open>Sessions and votes\<close>

definition new_session :: "qa_page \<Rightarrow> qa_page" where
  "new_session s = s\<lparr>qp_turns := [], qp_active := None, qp_vote := None, qp_error := None\<rparr>"

definition sessions_answered :: "int list option \<Rightarrow> qa_page \<Rightarrow> qa_page" where
  "sessions_answered ans s = s\<lparr>qp_sessions := default_to [] ans\<rparr>"

text \<open>\<open>shown\<close> is the active session when the deletion was confirmed.\<close>

definition session_deleted :: "int \<Rightarrow> int option \<Rightarrow> bool \<Rightarrow> qa_page \<Rightarrow> qa_page" where
  "session_deleted target shown ok s =
     (if \<not> ok then s
      else (let s1 = s\<lparr>qp_sessions := filter (\<lambda>x. x \<noteq> target) (qp_sessions s)\<rparr> in
            if shown = Some target then s1\<lparr>qp_active := None, qp_vote := None, qp_turns := [], qp_error := None\<rparr> else s1))"

record qa_message =
  qm_user :: bool
  qm_content :: jstr
  qm_id :: int
  qm_citations :: "citation list option"

record qa_feedback =
  qf_accuracy :: "int option"
  qf_helpful :: "int option"

definition vote_from_feedback :: "qa_feedback option \<Rightarrow> answer_vote option" where
  "vote_from_feedback fb =
     (case fb of
        None \<Rightarrow> None
      | Some f \<Rightarrow>
          (let scores = List.map_filter id [qf_accuracy f, qf_helpful f] in
           if scores = [] then None
           else if sum_list scores \<ge> 4 * int (length scores) then Some Vote_up
           else if sum_list scores \<le> 2 * int (length scores) then Some Vote_down
           else None))"

fun restore_turns :: "int \<Rightarrow> nat \<Rightarrow> jstr \<Rightarrow> qa_message list \<Rightarrow> qa_turn list" where
  "restore_turns session key pending [] =
     (if pending \<noteq> [] then [\<lparr>qt_key = key, qt_question = pending, qt_answer = [], qt_citations = [], qt_session = Some session,
        qt_message = None, qt_streaming = False, qt_libs = None\<rparr>] else [])"
| "restore_turns session key pending (m # ms) =
     (if qm_user m then restore_turns session key (qm_content m) ms
      else \<lparr>qt_key = key, qt_question = pending, qt_answer = qm_content m, qt_citations = default_to [] (qm_citations m),
             qt_session = Some session, qt_message = Some (qm_id m), qt_streaming = False, qt_libs = None\<rparr>
           # restore_turns session (Suc key) [] ms)"

definition session_opened :: "int \<Rightarrow> (qa_message list option \<times> qa_feedback option) option \<Rightarrow> qa_page \<Rightarrow> qa_page" where
  "session_opened session ans s =
     (case ans of
        None \<Rightarrow> s
      | Some (messages, fb) \<Rightarrow>
          (let restored = restore_turns session (qp_next s) [] (default_to [] messages) in
           s\<lparr>qp_turns := restored, qp_next := qp_next s + length restored, qp_error := None, qp_active := Some session,
             qp_vote := vote_from_feedback fb\<rparr>))"

text \<open>The session a vote is sent for, and its answer.\<close>

definition on_like :: "qa_turn \<Rightarrow> qa_page \<Rightarrow> int option \<times> qa_page" where
  "on_like t s =
     (case qt_session t of
        None \<Rightarrow> (None, s)
      | Some i \<Rightarrow> if qp_voting s \<or> qp_vote s = Some Vote_up then (None, s) else (Some i, s\<lparr>qp_voting := True\<rparr>))"

definition like_answered :: "bool \<Rightarrow> qa_page \<Rightarrow> qa_page" where
  "like_answered ok s = (if ok then s\<lparr>qp_vote := Some Vote_up, qp_voting := False\<rparr> else s\<lparr>qp_voting := False\<rparr>)"

definition on_complain :: "qa_turn \<Rightarrow> qa_page \<Rightarrow> int option \<times> qa_page" where
  "on_complain t s =
     (if qt_session t = None \<or> qp_vote s = Some Vote_down then (None, s\<lparr>qp_vote := Some Vote_down\<rparr>)
      else (qt_session t, s))"

definition complain_answered :: "qa_page \<Rightarrow> qa_page" where
  "complain_answered s = s\<lparr>qp_vote := Some Vote_down\<rparr>"

section \<open>What a run does to the turns\<close>

definition at_turn :: "nat \<Rightarrow> (qa_turn \<Rightarrow> qa_turn) \<Rightarrow> qa_turn list \<Rightarrow> qa_turn list" where
  "at_turn k g ts = map (\<lambda>t. if qt_key t = k then g t else t) ts"

lemma patch_turn_turns [simp]: "qp_turns (patch_turn k g s) = at_turn k g (qp_turns s)"
  by (simp add: patch_turn_def at_turn_def)

lemma patch_turn_other [simp]:
  "qp_runs (patch_turn k g s) = qp_runs s" "qp_next (patch_turn k g s) = qp_next s" "qp_asking (patch_turn k g s) = qp_asking s"
  "qp_active (patch_turn k g s) = qp_active s"
  by (simp_all add: patch_turn_def)

lemma set_run_other [simp]:
  "qp_turns (set_run i p s) = qp_turns s" "qp_next (set_run i p s) = qp_next s" "qp_asking (set_run i p s) = qp_asking s"
  "length (qp_runs (set_run i p s)) = length (qp_runs s)" "qp_active (set_run i p s) = qp_active s"
  by (simp_all add: set_run_def)

lemma set_run_nth [simp]: "i < length (qp_runs s) \<Longrightarrow> qp_runs (set_run i p s) ! i = p (qp_runs s ! i)"
  by (simp add: set_run_def)

lemma at_turn_id [simp]: "at_turn k (\<lambda>t. t) ts = ts"
  by (simp add: at_turn_def)

lemma at_turn_keys: "(\<And>t. qt_key (g t) = qt_key t) \<Longrightarrow> map qt_key (at_turn k g ts) = map qt_key ts"
  by (simp add: at_turn_def comp_def cong: if_cong)

lemma qa_finish_other [simp]:
  "qp_runs (qa_finish k a s) = qp_runs s" "qp_next (qa_finish k a s) = qp_next s" "qp_asking (qa_finish k a s) = qp_asking s"
  "qp_turns (qa_finish k a s) = at_turn k (\<lambda>t. t\<lparr>qt_answer := ra_answer a, qt_citations := ra_citations a,
     qt_session := ra_session a, qt_message := ra_message a, qt_streaming := False\<rparr>) (qp_turns s)"
  by (simp_all add: qa_finish_def Let_def split: option.splits)

lemma at_turn_fun [simp]: "at_turn k f (at_turn k g ts) = at_turn k (\<lambda>t. if qt_key (g t) = k then f (g t) else g t) ts"
  by (auto simp: at_turn_def)

lemma at_turn_fresh: "k \<notin> qt_key ` set ts \<Longrightarrow> at_turn k g ts = ts"
  unfolding at_turn_def by (rule map_idI) auto

lemma at_turn_append [simp]: "at_turn k g (ts @ us) = at_turn k g ts @ at_turn k g us"
  by (simp add: at_turn_def)

lemma at_turn_one [simp]: "at_turn k g [t] = (if qt_key t = k then [g t] else [t])"
  by (simp add: at_turn_def)

text \<open>The stream of a run and the callbacks do not touch each other.\<close>

definition with_stream :: "nat \<Rightarrow> ask_stream \<Rightarrow> qa_page \<Rightarrow> qa_page" where
  "with_stream i st s = set_run i (\<lambda>r. r\<lparr>qr_stream := st\<rparr>) s"

lemma run_swaps:
  "(r :: qa_run)\<lparr>qr_stream := st, qr_received := b\<rparr> = r\<lparr>qr_received := b, qr_stream := st\<rparr>"
  "r\<lparr>qr_stream := st, qr_fallback := m\<rparr> = r\<lparr>qr_fallback := m, qr_stream := st\<rparr>"
  by (cases r, simp)+

lemma page_swap: "(s :: qa_page)\<lparr>qp_runs := rs, qp_turns := ts\<rparr> = s\<lparr>qp_turns := ts, qp_runs := rs\<rparr>"
  by (cases s) simp

lemma call_with_stream: "i < length (qp_runs s) \<Longrightarrow> qa_call i c (with_stream i st s) = with_stream i st (qa_call i c s)"
  by (cases c)
    (simp_all add: with_stream_def qa_call_def set_run_def patch_turn_def qa_finish_def Let_def run_swaps page_swap
      split: option.splits)

lemma call_runs [simp]: "length (qp_runs (qa_call i c s)) = length (qp_runs s)"
  by (cases c) (simp_all add: qa_call_def Let_def)

lemma calls_runs [simp]: "length (qp_runs (qa_calls i cs s)) = length (qp_runs s)"
  by (induction cs arbitrary: s) (simp_all add: qa_calls_def)

lemma calls_with_stream:
  "i < length (qp_runs s) \<Longrightarrow> qa_calls i cs (with_stream i st s) = with_stream i st (qa_calls i cs s)"
  by (induction cs arbitrary: s) (simp_all add: qa_calls_def call_with_stream)

lemma calls_append: "qa_calls i (cs @ ds) s = qa_calls i ds (qa_calls i cs s)"
  by (simp add: qa_calls_def)

lemma calls_short [simp]: "qa_calls i [] s = s" "qa_calls i [c] s = qa_call i c s"
  by (simp_all add: qa_calls_def)

lemma with_stream_twice [simp]: "with_stream i st (with_stream i st' s) = with_stream i st s"
  by (cases "i < length (qp_runs s)") (simp_all add: with_stream_def set_run_def list_update_beyond)

lemma with_stream_stream [simp]: "i < length (qp_runs s) \<Longrightarrow> qr_stream (qp_runs (with_stream i st s) ! i) = st"
  by (simp add: with_stream_def)

lemma with_stream_other [simp]:
  "qp_turns (with_stream i st s) = qp_turns s" "length (qp_runs (with_stream i st s)) = length (qp_runs s)"
  "qp_asking (with_stream i st s) = qp_asking s" "qp_active (with_stream i st s) = qp_active s"
  by (simp_all add: with_stream_def)

lemma frame_as_calls:
  "handle_frame f (qr_stream (qp_runs s ! i)) = (st, cs) \<Longrightarrow> qa_frame i f s = qa_calls i cs (with_stream i st s)"
  by (simp add: qa_frame_def with_stream_def)

lemma end_as_calls:
  "ask_end e (qr_stream (qp_runs s ! i)) = (st, cs) \<Longrightarrow> qa_end i e s = (qa_calls i cs (with_stream i st s))\<lparr>qp_asking := False\<rparr>"
  by (simp add: qa_end_def with_stream_def)

definition qa_frames :: "nat \<Rightarrow> sse_frame list \<Rightarrow> qa_page \<Rightarrow> qa_page" where
  "qa_frames i fs s = foldl (\<lambda>s f. qa_frame i f s) s fs"

lemma frames_as_calls:
  assumes "i < length (qp_runs s)" "ask_frames fs st0 = (st, cs)" "qr_stream (qp_runs s ! i) = st0"
  shows "qa_frames i fs s = with_stream i st (qa_calls i cs s)"
  using assms
proof (induction fs arbitrary: s st0 cs)
  case Nil
  then show ?case by (auto simp: qa_frames_def qa_calls_def with_stream_def set_run_def)
next
  case (Cons f fs)
  obtain s1 c1 where f: "handle_frame f st0 = (s1, c1)" by fastforce
  obtain s2 c2 where r: "ask_frames fs s1 = (s2, c2)" by fastforce
  from Cons.prems f r have e: "st = s2" "cs = c1 @ c2" by auto
  let ?t = "qa_calls i c1 (with_stream i s1 s)"
  have "qa_frame i f s = ?t" using frame_as_calls f Cons.prems(3) by simp
  moreover have l: "i < length (qp_runs ?t)" using Cons.prems(1) by simp
  moreover have "qr_stream (qp_runs ?t ! i) = s1" using Cons.prems(1) by (simp add: calls_with_stream)
  ultimately have "qa_frames i (f # fs) s = with_stream i s2 (qa_calls i c2 ?t)"
    using Cons.IH [OF l, of s1 c2] r e by (simp add: qa_frames_def)
  then show ?case using e Cons.prems(1) by (simp add: calls_with_stream calls_append)
qed

lemma run_as_calls:
  assumes "i < length (qp_runs s)" "qr_stream (qp_runs s ! i) = new_stream" "ask_run fs e = (st, cs)"
  shows "qa_end i e (qa_frames i fs s) = (with_stream i st (qa_calls i cs s))\<lparr>qp_asking := False\<rparr>"
proof -
  obtain s1 c1 where f: "ask_frames fs new_stream = (s1, c1)" by fastforce
  obtain s2 c2 where r: "ask_end e s1 = (s2, c2)" by fastforce
  from assms(3) f r have e: "st = s2" "cs = c1 @ c2" by (auto simp: ask_run_def)
  have fr: "qa_frames i fs s = with_stream i s1 (qa_calls i c1 s)" using frames_as_calls [OF assms(1) f assms(2)] .
  have "qa_end i e (qa_frames i fs s) = (qa_calls i c2 (with_stream i s2 (with_stream i s1 (qa_calls i c1 s))))\<lparr>qp_asking := False\<rparr>"
    unfolding fr using assms(1) r by (intro end_as_calls) simp
  then show ?thesis using e assms(1) by (simp add: calls_with_stream calls_append)
qed

text \<open>The callbacks of a run whose only turn is fresh.\<close>

lemma delta_calls:
  assumes "deltas_only cs" "i < length (qp_runs s)" "qr_key (qp_runs s ! i) = k"
  shows "qp_turns (qa_calls i cs s) = at_turn k (\<lambda>t. t\<lparr>qt_answer := qt_answer t @ text_of cs\<rparr>) (qp_turns s)"
    "qr_key (qp_runs (qa_calls i cs s) ! i) = k"
    "qr_received (qp_runs (qa_calls i cs s) ! i) \<longleftrightarrow> qr_received (qp_runs s ! i) \<or> cs \<noteq> []"
proof -
  have "qp_turns (qa_calls i cs s) = at_turn k (\<lambda>t. t\<lparr>qt_answer := qt_answer t @ text_of cs\<rparr>) (qp_turns s)
      \<and> qr_key (qp_runs (qa_calls i cs s) ! i) = k
      \<and> (qr_received (qp_runs (qa_calls i cs s) ! i) \<longleftrightarrow> qr_received (qp_runs s ! i) \<or> cs \<noteq> [])"
    using assms
  proof (induction cs arbitrary: s)
    case Nil
    then show ?case by (simp add: qa_calls_def text_of_def)
  next
    case (Cons c cs)
    from Cons.prems(1) obtain x where c: "c = Rag_delta x" "deltas_only cs" by (cases c) (auto simp: deltas_only_def)
    let ?s = "qa_call i c s"
    have s: "qp_turns ?s = at_turn k (\<lambda>t. t\<lparr>qt_answer := qt_answer t @ x\<rparr>) (qp_turns s)" "qr_key (qp_runs ?s ! i) = k"
      "qr_received (qp_runs ?s ! i)" "i < length (qp_runs ?s)"
      using c Cons.prems by (simp_all add: qa_call_def Let_def)
    have "qa_calls i (c # cs) s = qa_calls i cs ?s" by (simp add: qa_calls_def)
    with Cons.IH [OF c(2) s(4) s(2)] s(1,3) show ?case
      by (simp add: c(1) text_of_def at_turn_def)
  qed
  then show "qp_turns (qa_calls i cs s) = at_turn k (\<lambda>t. t\<lparr>qt_answer := qt_answer t @ text_of cs\<rparr>) (qp_turns s)"
    "qr_key (qp_runs (qa_calls i cs s) ! i) = k"
    "qr_received (qp_runs (qa_calls i cs s) ! i) \<longleftrightarrow> qr_received (qp_runs s ! i) \<or> cs \<noteq> []" by simp_all
qed

text \<open>The calls after which the turn no longer waits: a result, or an error after some text.\<close>

definition settles :: "rag_call list \<Rightarrow> bool" where
  "settles cs \<longleftrightarrow> list_ex (\<lambda>c. case c of Rag_done a \<Rightarrow> True | _ \<Rightarrow> False) cs
     \<or> list_ex (\<lambda>c. case c of Rag_error m \<Rightarrow> True | _ \<Rightarrow> False) cs \<and> text_of cs \<noteq> []"

lemma deltas_settle: "deltas_only ds \<Longrightarrow> \<not> settles ds" "deltas_only ds \<Longrightarrow> text_of ds = [] \<longleftrightarrow> ds = []"
  "deltas_only ds \<Longrightarrow> settles (ds @ [Rag_done a])" "deltas_only ds \<Longrightarrow> settles (ds @ [Rag_error m]) \<longleftrightarrow> ds \<noteq> []"
  by (induction ds) (auto simp: deltas_only_def settles_def text_of_def split: rag_call.splits)

lemma run_turn:
  assumes "qp_turns s = ts @ [t]" "qt_key t \<notin> qt_key ` set ts" "qt_answer t = []" "qt_streaming t"
    and "i < length (qp_runs s)" "qr_key (qp_runs s ! i) = qt_key t" "\<not> qr_received (qp_runs s ! i)"
    and "qr_stream (qp_runs s ! i) = new_stream"
  shows "\<exists>u. qp_turns (qa_end i e (qa_frames i fs s)) = ts @ [u] \<and> qt_question u = qt_question t
    \<and> qt_answer u = text_of (snd (ask_run fs e)) \<and> (qt_streaming u \<longleftrightarrow> \<not> settles (snd (ask_run fs e)))"
proof -
  obtain st cs where r: "ask_run fs e = (st, cs)" by fastforce
  from good_run [OF r] obtain ds final where c: "cs = ds @ final" "deltas_only ds" "sk_buffer st = text_of ds"
    "if sk_settled st then (\<exists>m. final = [Rag_error m]) \<or> (\<exists>a. final = [Rag_done a] \<and> ra_answer a = sk_buffer st) else final = []"
    unfolding good_calls_def by auto
  have e: "qp_turns (qa_end i e (qa_frames i fs s)) = qp_turns (qa_calls i final (qa_calls i ds s))"
    using run_as_calls [OF assms(5,8) r] by (simp add: c(1) calls_append)
  note d = delta_calls [OF c(2) assms(5,6)]
  let ?s = "qa_calls i ds s" and ?t = "t\<lparr>qt_answer := text_of ds\<rparr>"
  have t: "qp_turns ?s = ts @ [?t]" using d(1) assms(1-3) by (simp add: at_turn_fresh)
  consider "final = []" | m where "final = [Rag_error m]" | a where "final = [Rag_done a]" "ra_answer a = text_of ds"
    using c(3,4) by (auto split: if_splits)
  then show ?thesis
  proof cases
    case 1
    with e t r c deltas_settle(1) [OF c(2)] assms(4) show ?thesis by simp
  next
    case (2 m)
    have "qp_turns (qa_calls i final ?s) = ts @ [if ds \<noteq> [] then ?t\<lparr>qt_streaming := False\<rparr> else ?t]"
      using d(2,3) t assms(2,7) by (cases ds) (simp_all add: 2 qa_call_def Let_def at_turn_fresh)
    moreover have "text_of cs = text_of ds" using c(1) 2 by (simp add: text_of_def)
    ultimately show ?thesis using e r c(1) 2 deltas_settle(4) [OF c(2)] assms(4) by auto
  next
    case (3 a)
    have "text_of cs = text_of ds" using c(1) 3 by (simp add: text_of_def)
    with e r c(1) 3 t d(2) deltas_settle(3) [OF c(2)] assms(2) show ?thesis
      by (simp add: qa_call_def Let_def at_turn_fresh)
  qed
qed

section \<open>What the page keeps\<close>

inductive qa_reach :: "qa_page \<Rightarrow> bool" where
  qa_open: "qa_reach new_qa_page"
| qa_typed: "qa_reach s \<Longrightarrow> qa_reach (s\<lparr>qp_question := q, qp_library := l\<rparr>)"
| qa_asked: "qa_reach s \<Longrightarrow> qa_reach (qa_ask s)"
| qa_again: "qa_reach s \<Longrightarrow> t \<in> set (qp_turns s) \<Longrightarrow> qa_reach (qa_regenerate t s)"
| qa_streamed: "qa_reach s \<Longrightarrow> i < length (qp_runs s) \<Longrightarrow> qa_reach (qa_frame i f s)"
| qa_ended: "qa_reach s \<Longrightarrow> i < length (qp_runs s) \<Longrightarrow> qa_reach (qa_end i e s)"
| qa_fallback: "qa_reach s \<Longrightarrow> i < length (qp_runs s) \<Longrightarrow> qa_reach (fallback_answered i a s)"
| qa_left: "qa_reach s \<Longrightarrow> qa_reach (new_session s)"
| qa_listed: "qa_reach s \<Longrightarrow> qa_reach (sessions_answered xs s)"
| qa_removed: "qa_reach s \<Longrightarrow> qa_reach (session_deleted x a ok s)"
| qa_opened: "qa_reach s \<Longrightarrow> qa_reach (session_opened x h s)"

definition keys_ok :: "qa_page \<Rightarrow> bool" where
  "keys_ok s \<longleftrightarrow> distinct (map qt_key (qp_turns s)) \<and> (\<forall>k \<in> set (map qt_key (qp_turns s)). k < qp_next s)"

lemma keys_okI: "map qt_key (qp_turns s') = map qt_key (qp_turns s) \<Longrightarrow> qp_next s' = qp_next s \<Longrightarrow> keys_ok s \<Longrightarrow> keys_ok s'"
  by (auto simp only: keys_ok_def)

lemma call_keys: "map qt_key (qp_turns (qa_call i c s)) = map qt_key (qp_turns s)" "qp_next (qa_call i c s) = qp_next s"
  by (cases c; simp add: qa_call_def Let_def at_turn_keys)+

lemma calls_keys: "map qt_key (qp_turns (qa_calls i cs s)) = map qt_key (qp_turns s)" "qp_next (qa_calls i cs s) = qp_next s"
  by (induction cs arbitrary: s) (simp_all add: qa_calls_def call_keys)

lemma restored_keys: "map qt_key (restore_turns x k p ms) = [k ..< k + length (restore_turns x k p ms)]"
proof (induction ms arbitrary: k p)
  case Nil
  then show ?case by simp
next
  case (Cons m ms)
  show ?case
  proof (cases "qm_user m")
    case True
    then show ?thesis using Cons.IH by simp
  next
    case False
    then show ?thesis using Cons.IH [of "Suc k" "[]"] by (simp add: upt_conv_Cons del: upt_Suc)
  qed
qed

lemma reach_keys: "qa_reach s \<Longrightarrow> keys_ok s"
proof (induction rule: qa_reach.induct)
  case qa_open
  then show ?case by (simp add: keys_ok_def new_qa_page_def)
next
  case (qa_typed s q l)
  then show ?case by (simp add: keys_ok_def)
next
  case (qa_asked s)
  then show ?case by (auto simp: keys_ok_def qa_ask_def start_run_def Let_def less_Suc_eq)
next
  case (qa_again s t)
  show ?case
    by (rule keys_okI [OF _ _ qa_again.IH]) (simp_all add: qa_regenerate_def start_run_def at_turn_keys)
next
  case (qa_streamed s i f)
  show ?case
    by (rule keys_okI [OF _ _ qa_streamed.IH]) (auto simp add: qa_frame_def calls_keys split: prod.splits)
next
  case (qa_ended s i e)
  show ?case
    by (rule keys_okI [OF _ _ qa_ended.IH]) (auto simp add: qa_end_def calls_keys split: prod.splits)
next
  case (qa_fallback s i a)
  show ?case
    by (rule keys_okI [OF _ _ qa_fallback.IH])
      (simp_all add: fallback_answered_def at_turn_keys Let_def split: option.splits sum.splits)
next
  case (qa_left s)
  then show ?case by (simp add: keys_ok_def new_session_def)
next
  case (qa_listed s xs)
  then show ?case by (simp add: keys_ok_def sessions_answered_def)
next
  case (qa_removed s x a ok)
  then show ?case by (simp add: keys_ok_def session_deleted_def Let_def)
next
  case (qa_opened s x h)
  then show ?case
    by (auto simp: keys_ok_def session_opened_def Let_def restored_keys simp del: set_map split: option.splits)
qed


definition sample_page :: qa_page where
  "sample_page = new_qa_page\<lparr>qp_question := js ''why'', qp_library := None\<rparr>"

definition sample_delta :: sse_frame where
  "sample_delta = \<lparr>sf_event = js ''delta'', sf_data = Some (JObj [(js ''text'', JStr (js ''so''))]), sf_raw = []\<rparr>"


text \<open>
  A stream that closes without a result or an error leaves its turn waiting for text for ever, although the
  page no longer asks. A stop by the user ends the request in this way, because the request library fulfils
  its promise when it is aborted.
\<close>

theorem closed_stream_keeps_waiting:
  assumes "qa_reach s" "trim (qp_question s) \<noteq> []" "\<not> qp_asking s" "\<not> sk_settled (fst (ask_frames fs new_stream))"
  shows "\<exists>u. qp_turns (qa_end (length (qp_runs s)) Stream_closed (qa_frames (length (qp_runs s)) fs (qa_ask s))) = qp_turns s @ [u]
      \<and> qt_streaming u"
    and "\<not> qp_asking (qa_end (length (qp_runs s)) Stream_closed (qa_frames (length (qp_runs s)) fs (qa_ask s)))"
proof -
  let ?t = "\<lparr>qt_key = qp_next s, qt_question = trim (qp_question s), qt_answer = [], qt_citations = [], qt_session = None,
    qt_message = None, qt_streaming = True, qt_libs = map_option (\<lambda>l. [l]) (qp_library s)\<rparr>"
  obtain st cs where f: "ask_frames fs new_stream = (st, cs)" by fastforce
  then have "snd (ask_run fs Stream_closed) = cs" by (simp add: ask_run_def ask_end_def)
  moreover have "deltas_only cs"
    using good_frames [OF _ f] assms(4) f by (auto simp: good_calls_def new_stream_def)
  ultimately have n: "\<not> settles (snd (ask_run fs Stream_closed))" by (simp add: deltas_settle)
  have "qp_next s \<notin> qt_key ` set (qp_turns s)" using reach_keys [OF assms(1)] by (auto simp: keys_ok_def)
  then show "\<exists>u. qp_turns (qa_end (length (qp_runs s)) Stream_closed (qa_frames (length (qp_runs s)) fs (qa_ask s))) = qp_turns s @ [u]
      \<and> qt_streaming u"
    using run_turn [of "qa_ask s" "qp_turns s" ?t "length (qp_runs s)" Stream_closed fs] assms(2,3) n
    by (auto simp: qa_ask_def start_run_def Let_def)
qed (simp add: qa_end_def ask_end_def)

theorem closed_stream_keeps_waiting_witness:
  "\<not> qp_asking (qa_end 0 Stream_closed (qa_frames 0 [sample_delta] (qa_ask sample_page)))"
proof -
  have r: "qa_reach sample_page" "trim (qp_question sample_page) \<noteq> []" "\<not> qp_asking sample_page" "qp_runs sample_page = []"
    unfolding sample_page_def by (rule qa_typed, rule qa_open) (simp_all add: new_qa_page_def trim_def js_def is_ws_def)
  have "\<not> sk_settled (fst (ask_frames [sample_delta] new_stream))" by code_simp
  with closed_stream_keeps_waiting(2) [OF r(1-3), of "[sample_delta]"] r(4) show ?thesis by simp
qed

text \<open>
  A new session started while an answer streams stays empty, but the answer, when it is done, makes its own
  session the active one: the next question of the new session is sent to the session the user has left.
\<close>

theorem late_answer_reopens_session:
  assumes "i < length (qp_runs s)" "\<not> sk_settled (qr_stream (qp_runs s ! i))"
    and "sf_event f = js ''done''" "sf_data f = Some d" "normalize_session_id (jprop d ''kbSessionId'') = Some a" "trim q \<noteq> []"
    and "t = qa_end i Stream_closed (qa_frame i f (new_session s))"
  shows "qp_turns t = [] \<and> qp_active t = Some a \<and> qr_session (last (qp_runs (qa_ask (t\<lparr>qp_question := q\<rparr>)))) = Some a"
proof -
  have "js ''done'' \<noteq> js ''error''" "js ''done'' \<noteq> []" by (simp_all add: js_def)
  then have "\<exists>x st. handle_frame f (qr_stream (qp_runs s ! i)) = (st, [Rag_done x]) \<and> ra_session x = Some a"
    using assms(2-5) by (simp add: handle_frame_def frame_event_def answer_of_def)
  then obtain x st where h: "handle_frame f (qr_stream (qp_runs s ! i)) = (st, [Rag_done x])" "ra_session x = Some a" by blast
  have n: "qp_runs (new_session s) = qp_runs s" "qp_turns (new_session s) = []" by (simp_all add: new_session_def)
  have "qa_frame i f (new_session s) = qa_calls i [Rag_done x] (with_stream i st (new_session s))"
    using h(1) n by (intro frame_as_calls) simp
  then have t: "t = (with_stream i (qr_stream (qp_runs (qa_frame i f (new_session s)) ! i))
      (qa_finish (qr_key (qp_runs (with_stream i st (new_session s)) ! i)) x (with_stream i st (new_session s))))\<lparr>qp_asking := False\<rparr>"
    using assms(7) by (simp add: qa_end_def ask_end_def qa_calls_def qa_call_def with_stream_def)
  have "qp_turns t = []" "qp_active t = Some a" "\<not> qp_asking t"
    using h(2) n unfolding t by (simp_all add: qa_finish_def Let_def at_turn_def)
  with assms(6) show ?thesis by (simp add: qa_ask_def start_run_def Let_def)
qed

end
