(* ===== verification/Library_Combobox.thy ===== *)
theory Library_Combobox
  imports Category_Tree
begin

text \<open>
  The searchable list of knowledge bases, frontend/mis-admin-web/src/features/kb/components/
  kb-library-combobox.tsx: its options with the paths of their categories, the keyboard, and the requests
  that fill it. React runs the effect that keeps the highlighted row within the list after every render, so
  every event is followed by \<open>combo_render\<close>.
\<close>

section \<open>Options\<close>

record kb_library =
  lb_id :: int
  lb_category :: "int option"
  lb_name :: jstr

record library_option =
  op_library :: kb_library
  op_path :: jstr
  op_duplicated :: bool
  op_haystack :: jstr

definition max_category_depth :: nat where
  "max_category_depth = 32"

definition unsorted_label :: jstr where
  "unsorted_label = [0x672A, 0x5206, 0x7C7B]"

fun path_segments :: "(int, kb_category) jmap \<Rightarrow> nat \<Rightarrow> int option \<Rightarrow> jstr list" where
  "path_segments m 0 cursor = []"
| "path_segments m (Suc n) None = []"
| "path_segments m (Suc n) (Some i) =
     (case jm_get m i of None \<Rightarrow> [] | Some c \<Rightarrow> path_segments m n (kc_parent c) @ [kc_name c])"

definition build_category_path :: "int option \<Rightarrow> (int, kb_category) jmap \<Rightarrow> jstr" where
  "build_category_path i m =
     (let segments = path_segments m max_category_depth i in
      if i = None \<or> segments = [] then unsorted_label else join (js '' / '') segments)"

definition categories_by_id :: "kb_category list \<Rightarrow> (int, kb_category) jmap" where
  "categories_by_id cs = foldl (\<lambda>m c. jm_set (kc_id c) c m) [] cs"

definition name_counts :: "kb_library list \<Rightarrow> (jstr, nat) jmap" where
  "name_counts ls = foldl (\<lambda>m l. jm_set (lb_name l) (default_to 0 (jm_get m (lb_name l)) + 1) m) [] ls"

definition combo_options :: "kb_library list \<Rightarrow> kb_category list \<Rightarrow> library_option list" where
  "combo_options ls cs =
     map (\<lambda>l. let path = build_category_path (lb_category l) (categories_by_id cs) in
            \<lparr>op_library = l, op_path = path, op_duplicated = default_to 0 (jm_get (name_counts ls) (lb_name l)) > 1,
             op_haystack = to_lower (lb_name l @ js '' '' @ path @ js '' '' @ int_dec (lb_id l))\<rparr>) ls"

section \<open>State\<close>

datatype library_scope = Scope_manageable | Scope_visible

text \<open>A request carries the category and the scope it was sent for.\<close>

type_synonym combo_request = "int option \<times> library_scope option"

record combobox =
  cx_request :: combo_request \<comment> \<open>the properties \<open>categoryId\<close> and \<open>scope\<close>\<close>
  cx_clear :: bool
  cx_active :: bool \<comment> \<open>the page is the one shown\<close>
  cx_value :: "int option"
  cx_options :: "library_option list"
  cx_loading :: bool
  cx_error :: "jstr option"
  cx_open :: bool
  cx_keyword :: jstr
  cx_index :: nat
  cx_tasks :: "combo_request list"

definition new_combobox :: "combo_request \<Rightarrow> bool \<Rightarrow> int option \<Rightarrow> combobox" where
  "new_combobox r clear v = \<lparr>cx_request = r, cx_clear = clear, cx_active = False, cx_value = v, cx_options = [], cx_loading = False, cx_error = None,
     cx_open = False, cx_keyword = [], cx_index = 0, cx_tasks = []\<rparr>"

definition combo_filtered :: "combobox \<Rightarrow> library_option list" where
  "combo_filtered s =
     (let kw = to_lower (trim (cx_keyword s)) in
      if kw = [] then cx_options s else filter (\<lambda>x. str_includes (op_haystack x) kw) (cx_options s))"

definition combo_selected :: "combobox \<Rightarrow> library_option option" where
  "combo_selected s = find (\<lambda>x. Some (lb_id (op_library x)) = cx_value s) (cx_options s)"

definition combo_render :: "combobox \<Rightarrow> combobox" where
  "combo_render s = s\<lparr>cx_index := if combo_filtered s = [] then 0 else min (cx_index s) (length (combo_filtered s) - 1)\<rparr>"

text \<open>The rows the open list shows.\<close>

definition combo_rows :: "combobox \<Rightarrow> library_option list" where
  "combo_rows s = (if cx_open s \<and> cx_error s = None \<and> \<not> cx_loading s then combo_filtered s else [])"

section \<open>Operations\<close>

definition combo_load :: "combobox \<Rightarrow> combobox" where
  "combo_load s = s\<lparr>cx_loading := True, cx_error := None, cx_tasks := cx_tasks s @ [cx_request s]\<rparr>"

definition combo_effect :: "combobox \<Rightarrow> combobox" where
  "combo_effect s = (if cx_active s then combo_load s else s)"

definition combo_loaded :: "nat \<Rightarrow> jstr + kb_library list \<times> kb_category list \<Rightarrow> combobox \<Rightarrow> combobox" where
  "combo_loaded i ans s =
     (let s1 = s\<lparr>cx_loading := False, cx_tasks := take i (cx_tasks s) @ drop (Suc i) (cx_tasks s)\<rparr> in
      case ans of
        Inr (ls, cs) \<Rightarrow> s1\<lparr>cx_options := combo_options ls cs\<rparr>
      | Inl m \<Rightarrow> s1\<lparr>cx_options := [], cx_error := Some m\<rparr>)"

definition value_index :: "combobox \<Rightarrow> nat" where
  "value_index s =
     (let before = takeWhile (\<lambda>x. Some (lb_id (op_library x)) \<noteq> cx_value s) (combo_filtered s) in
      if length before < length (combo_filtered s) then length before else 0)"

definition combo_open_panel :: "combobox \<Rightarrow> combobox" where
  "combo_open_panel s = s\<lparr>cx_open := True, cx_keyword := [], cx_index := value_index s\<rparr>"

definition combo_pick :: "library_option \<Rightarrow> combobox \<Rightarrow> combobox" where
  "combo_pick x s = s\<lparr>cx_value := Some (lb_id (op_library x)), cx_open := False, cx_keyword := []\<rparr>"

datatype combo_key = Key_escape | Key_down | Key_up | Key_enter

fun combo_key_down :: "combo_key \<Rightarrow> combobox \<Rightarrow> combobox" where
  "combo_key_down Key_escape s = s\<lparr>cx_open := False\<rparr>"
| "combo_key_down Key_down s =
     (if \<not> cx_open s then combo_open_panel s
      else s\<lparr>cx_index := if combo_filtered s = [] then 0 else Suc (cx_index s) mod length (combo_filtered s)\<rparr>)"
| "combo_key_down Key_up s =
     (if \<not> cx_open s then s
      else s\<lparr>cx_index := if combo_filtered s = [] then 0
               else (cx_index s + length (combo_filtered s) - 1) mod length (combo_filtered s)\<rparr>)"
| "combo_key_down Key_enter s =
     (if \<not> cx_open s then combo_open_panel s
      else if cx_index s < length (combo_filtered s) then combo_pick (combo_filtered s ! cx_index s) s else s)"

datatype combo_event =
    Combo_active bool
  | Combo_changed \<comment> \<open>the store says that libraries or categories have changed\<close>
  | Combo_props combo_request
  | Combo_answer nat "jstr + kb_library list \<times> kb_category list"
  | Combo_value "int option"
  | Combo_trigger
  | Combo_outside
  | Combo_cleared
  | Combo_typed jstr
  | Combo_hover nat
  | Combo_click nat
  | Combo_key combo_key

fun combo_do :: "combo_event \<Rightarrow> combobox \<Rightarrow> combobox" where
  "combo_do (Combo_active b) s = (if b = cx_active s then s else combo_effect (s\<lparr>cx_active := b\<rparr>))"
| "combo_do Combo_changed s = combo_effect s"
| "combo_do (Combo_props r) s = (if r = cx_request s then s else combo_effect (s\<lparr>cx_request := r\<rparr>))"
| "combo_do (Combo_answer i ans) s = (if i < length (cx_tasks s) then combo_loaded i ans s else s)"
| "combo_do (Combo_value v) s = s\<lparr>cx_value := v\<rparr>"
| "combo_do Combo_trigger s = (if cx_open s then s\<lparr>cx_open := False\<rparr> else combo_open_panel s)"
| "combo_do Combo_outside s = (if cx_open s then s\<lparr>cx_open := False\<rparr> else s)"
| "combo_do Combo_cleared s = (if cx_clear s \<and> combo_selected s \<noteq> None then s\<lparr>cx_value := None, cx_open := False\<rparr> else s)"
| "combo_do (Combo_typed k) s = (if cx_open s then s\<lparr>cx_keyword := k, cx_index := 0\<rparr> else s)"
| "combo_do (Combo_hover i) s = (if i < length (combo_rows s) then s\<lparr>cx_index := i\<rparr> else s)"
| "combo_do (Combo_click i) s = (if i < length (combo_rows s) then combo_pick (combo_rows s ! i) s else s)"
| "combo_do (Combo_key k) s = combo_key_down k s"

definition combo_events :: "combo_event list \<Rightarrow> combobox \<Rightarrow> combobox" where
  "combo_events es s = foldl (\<lambda>s e. combo_render (combo_do e s)) s es"

section \<open>The options\<close>

lemma categories_by_id_get:
  "distinct (map kc_id cs) \<Longrightarrow> c \<in> set cs \<Longrightarrow> jm_get (categories_by_id cs) (kc_id c) = Some c"
proof (induction cs rule: rev_induct)
  case (snoc d cs)
  have "categories_by_id (cs @ [d]) = jm_set (kc_id d) d (categories_by_id cs)" by (simp add: categories_by_id_def)
  with snoc show ?case by (cases "d = c") (auto simp: rev_image_eqI)
qed simp

lemma categories_by_id_none: "i \<notin> category_ids cs \<Longrightarrow> jm_get (categories_by_id cs) i = None"
proof (induction cs rule: rev_induct)
  case Nil
  show ?case by (simp add: categories_by_id_def jm_get_def)
next
  case (snoc d cs)
  have "categories_by_id (cs @ [d]) = jm_set (kc_id d) d (categories_by_id cs)" by (simp add: categories_by_id_def)
  with snoc show ?case by (auto simp: category_ids_def)
qed

lemma path_segments_root_path:
  "distinct (map kc_id cs) \<Longrightarrow> root_path cs ps \<Longrightarrow> length ps \<le> n \<Longrightarrow>
    path_segments (categories_by_id cs) n (Some (kc_id (hd ps))) = rev (map kc_name ps)"
proof (induction cs ps arbitrary: n rule: root_path.induct)
  case (2 cs c)
  then obtain m where n: "n = Suc m" by (cases n) auto
  from 2 have "jm_get (categories_by_id cs) (kc_id c) = Some c" by (intro categories_by_id_get) auto
  moreover from 2 have "kc_parent c = None \<or> (\<exists>p. kc_parent c = Some p \<and> p \<notin> category_ids cs)"
    by (auto simp: parent_key_def split: option.splits if_splits)
  then have "path_segments (categories_by_id cs) m (kc_parent c) = []"
    by (cases m) (auto simp: categories_by_id_none)
  ultimately show ?case by (simp add: n)
next
  case (3 cs c p ps)
  then obtain m where n: "n = Suc m" by (cases n) auto
  from 3 have "jm_get (categories_by_id cs) (kc_id c) = Some c" by (intro categories_by_id_get) auto
  moreover from 3 have "kc_parent c = Some (kc_id p)"
    by (auto simp: parent_key_def split: option.splits if_splits)
  ultimately show ?case using 3 n by simp
qed simp

lemma name_counts_get: "default_to 0 (jm_get (name_counts ls) x) = length (filter (\<lambda>l. lb_name l = x) ls)"
proof (induction ls rule: rev_induct)
  case Nil
  show ?case by (simp add: name_counts_def jm_get_def)
next
  case (snoc l ls)
  have "name_counts (ls @ [l]) = jm_set (lb_name l) (default_to 0 (jm_get (name_counts ls) (lb_name l)) + 1) (name_counts ls)"
    by (simp add: name_counts_def)
  with snoc show ?case by (cases "lb_name l = x") auto
qed

lemma counted_twice:
  assumes "i < length ls" "P (ls ! i)"
  shows "length (filter P ls) > 1 \<longleftrightarrow> (\<exists>j < length ls. j \<noteq> i \<and> P (ls ! j))"
proof -
  have "length (filter P ls) = card {j. j < length ls \<and> P (ls ! j)}" by (rule length_filter_conv_card)
  also have "{j. j < length ls \<and> P (ls ! j)} = insert i {j. j < length ls \<and> j \<noteq> i \<and> P (ls ! j)}" using assms by auto
  also have "card \<dots> = Suc (card {j. j < length ls \<and> j \<noteq> i \<and> P (ls ! j)})" by (rule card_insert_disjoint) auto
  finally have "length (filter P ls) > 1 \<longleftrightarrow> {j. j < length ls \<and> j \<noteq> i \<and> P (ls ! j)} \<noteq> {}"
    by (simp add: card_gt_0_iff)
  then show ?thesis by auto
qed

text \<open>
  The options are the knowledge bases in their order; an option is marked exactly when another knowledge
  base has its name, and shows the names of its categories from the root down, as far as the bound of the
  code reaches.
\<close>

theorem options_tell_libraries_apart:
  assumes "distinct (map kc_id cs)" "i < length ls"
  shows "map op_library (combo_options ls cs) = ls
    \<and> (op_duplicated (combo_options ls cs ! i) \<longleftrightarrow> (\<exists>j < length ls. j \<noteq> i \<and> lb_name (ls ! j) = lb_name (ls ! i)))
    \<and> (\<forall>c ps. lb_category (ls ! i) = Some (kc_id c) \<and> root_path cs (c # ps) \<and> length ps < max_category_depth
         \<longrightarrow> op_path (combo_options ls cs ! i) = join (js '' / '') (rev (map kc_name (c # ps))))"
proof (intro conjI allI impI)
  show "map op_library (combo_options ls cs) = ls" by (simp add: combo_options_def Let_def comp_def)
  show "op_duplicated (combo_options ls cs ! i) \<longleftrightarrow> (\<exists>j < length ls. j \<noteq> i \<and> lb_name (ls ! j) = lb_name (ls ! i))"
    using assms(2) counted_twice [OF assms(2), of "\<lambda>l. lb_name l = lb_name (ls ! i)"]
    by (simp add: combo_options_def Let_def name_counts_get)
  fix c ps
  assume a: "lb_category (ls ! i) = Some (kc_id c) \<and> root_path cs (c # ps) \<and> length ps < max_category_depth"
  with path_segments_root_path [OF assms(1), of "c # ps" max_category_depth]
  have "path_segments (categories_by_id cs) max_category_depth (Some (kc_id c)) = rev (map kc_name (c # ps))" by simp
  with a assms(2) show "op_path (combo_options ls cs ! i) = join (js '' / '') (rev (map kc_name (c # ps)))"
    by (simp add: combo_options_def Let_def build_category_path_def)
qed

definition sample_categories :: "kb_category list" where
  "sample_categories =
     [\<lparr>kc_id = 1, kc_parent = None, kc_name = js ''hr'', kc_sort = None\<rparr>, \<lparr>kc_id = 2, kc_parent = Some 1, kc_name = js ''pay'', kc_sort = None\<rparr>]"

definition sample_libraries :: "kb_library list" where
  "sample_libraries = [\<lparr>lb_id = 5, lb_category = None, lb_name = js ''rules''\<rparr>, \<lparr>lb_id = 7, lb_category = Some 2, lb_name = js ''rules''\<rparr>]"

theorem options_tell_libraries_apart_witness:
  "op_duplicated (combo_options sample_libraries sample_categories ! 1)
     \<and> op_path (combo_options sample_libraries sample_categories ! 1) = js ''hr / pay''"
proof -
  have d: "distinct (map kc_id sample_categories)" "1 < length sample_libraries"
    by (simp_all add: sample_categories_def sample_libraries_def)
  have "root_path sample_categories [sample_categories ! 1, sample_categories ! 0]"
    by (simp add: sample_categories_def parent_key_def category_ids_def)
  moreover have "lb_category (sample_libraries ! 1) = Some (kc_id (sample_categories ! 1))" "length [sample_categories ! 0] < max_category_depth"
    by (simp_all add: sample_libraries_def sample_categories_def max_category_depth_def)
  ultimately have "op_path (combo_options sample_libraries sample_categories ! 1)
      = join (js '' / '') (rev (map kc_name [sample_categories ! 1, sample_categories ! 0]))"
    using options_tell_libraries_apart [OF d] by blast
  then have "op_path (combo_options sample_libraries sample_categories ! 1) = js ''hr / pay''"
    by (simp add: sample_categories_def js_def)
  moreover have "\<exists>j < length sample_libraries. j \<noteq> 1 \<and> lb_name (sample_libraries ! j) = lb_name (sample_libraries ! 1)"
    by (rule exI [of _ 0]) (simp add: sample_libraries_def)
  ultimately show ?thesis using options_tell_libraries_apart [OF d] by blast
qed

section \<open>The highlighted row\<close>

definition combo_ok :: "combobox \<Rightarrow> bool" where
  "combo_ok s \<longleftrightarrow> (if combo_filtered s = [] then cx_index s = 0 else cx_index s < length (combo_filtered s))"

lemma filtered_other [simp]:
  "combo_filtered (s\<lparr>cx_index := n\<rparr>) = combo_filtered s" "combo_filtered (s\<lparr>cx_open := b\<rparr>) = combo_filtered s"
  by (simp_all add: combo_filtered_def Let_def)

lemma render_filtered [simp]: "combo_filtered (combo_render s) = combo_filtered s"
  unfolding combo_render_def by (rule filtered_other)

lemma render_other [simp]:
  "cx_options (combo_render s) = cx_options s" "cx_request (combo_render s) = cx_request s"
  "cx_tasks (combo_render s) = cx_tasks s" "cx_active (combo_render s) = cx_active s" "cx_value (combo_render s) = cx_value s"
  by (simp_all add: combo_render_def)

lemma render_ok: "combo_ok (combo_render s)"
  unfolding combo_ok_def render_filtered by (cases "combo_filtered s") (auto simp: combo_render_def)

lemma render_fixes_ok: "combo_ok s \<Longrightarrow> combo_render s = s"
  by (cases "combo_filtered s") (auto simp: combo_ok_def combo_render_def min_def)

lemma events_ok: "combo_ok s \<Longrightarrow> combo_ok (combo_events es s)"
  by (induction es arbitrary: s) (simp_all add: combo_events_def render_ok)

lemma new_ok: "combo_ok (new_combobox r c v)"
  by (simp add: combo_ok_def combo_filtered_def new_combobox_def)

text \<open>
  Whatever happens to the list, in every state with rows the highlighted row is one of them, and Enter
  chooses the knowledge base of that row.
\<close>

theorem enter_chooses_highlighted_row:
  assumes "s = combo_events es (new_combobox r clear v)" "combo_rows s \<noteq> []"
  shows "cx_index s < length (combo_rows s)
    \<and> cx_value (combo_events [Combo_key Key_enter] s) = Some (lb_id (op_library (combo_rows s ! cx_index s)))"
proof -
  from assms(2) have o: "cx_open s" "combo_rows s = combo_filtered s" by (auto simp: combo_rows_def split: if_splits)
  have "combo_ok s" unfolding assms(1) by (rule events_ok [OF new_ok])
  with o assms(2) show ?thesis by (simp add: combo_ok_def combo_events_def combo_pick_def combo_render_def)
qed

definition sample_events :: "combo_event list" where
  "sample_events = [Combo_active True, Combo_answer 0 (Inr (sample_libraries, sample_categories)), Combo_trigger, Combo_typed (js ''PAY'')]"

definition sample_box :: combobox where
  "sample_box = combo_events sample_events (new_combobox (None, None) False (Some 7))"

lemma sample_box_rows: "combo_rows sample_box = [combo_options sample_libraries sample_categories ! 1]"
  by code_simp

theorem enter_chooses_highlighted_row_witness: "cx_value (combo_events [Combo_key Key_enter] sample_box) = Some 7"
proof -
  have "cx_index sample_box < 1 \<and> cx_value (combo_events [Combo_key Key_enter] sample_box)
      = Some (lb_id (op_library (combo_rows sample_box ! cx_index sample_box)))"
    using enter_chooses_highlighted_row [OF sample_box_def] sample_box_rows by simp
  then show ?thesis by (simp add: sample_box_rows combo_options_def sample_libraries_def Let_def)
qed

text \<open>
  The list keeps its search word when it is closed without a choice. When it is opened again the word is
  cleared, but the highlighted row is looked up in the list filtered by that word: the row highlighted is
  not the chosen knowledge base, and Enter, pressed without any movement, changes the choice.
\<close>

theorem reopened_list_changes_choice:
  assumes "combo_ok s" "cx_open s" "v < length (cx_options s)" "cx_value s = Some (lb_id (op_library (cx_options s ! v)))"
    and "cx_options s ! v = combo_filtered s ! i" "i < length (combo_filtered s)"
    and "\<forall>j < i. lb_id (op_library (combo_filtered s ! j)) \<noteq> lb_id (op_library (cx_options s ! v))"
  shows "cx_value (combo_events [Combo_key Key_escape, Combo_key Key_down, Combo_key Key_enter] s)
    = Some (lb_id (op_library (cx_options s ! i)))"
proof -
  let ?P = "\<lambda>x. Some (lb_id (op_library x)) \<noteq> cx_value s"
  have "takeWhile ?P (combo_filtered s) = take i (combo_filtered s)"
    using assms(4-7) by (intro takeWhile_eq_take_P_nth) auto
  then have vi: "value_index s = i" using assms(6) by (simp add: value_index_def Let_def)
  have "length (combo_filtered s) \<le> length (cx_options s)" by (simp add: combo_filtered_def Let_def)
  with assms(6) have i: "i < length (cx_options s)" "cx_options s \<noteq> []" by auto
  let ?t = "s\<lparr>cx_open := False\<rparr>"
  have f: "combo_filtered ?t = combo_filtered s" by (rule filtered_other)
  then have ok: "combo_ok ?t" using assms(1) by (simp add: combo_ok_def)
  have "value_index ?t = i" using vi by (simp add: value_index_def f)
  then have o: "combo_do (Combo_key Key_down) ?t = ?t\<lparr>cx_open := True, cx_keyword := [], cx_index := i\<rparr>" (is "_ = ?u")
    by (simp add: combo_open_panel_def)
  have fu: "combo_filtered ?u = cx_options s" by (simp add: combo_filtered_def trim_def to_lower_def)
  then have "combo_ok ?u" using i by (simp add: combo_ok_def)
  then have "combo_events [Combo_key Key_escape, Combo_key Key_down, Combo_key Key_enter] s = combo_render (combo_do (Combo_key Key_enter) ?u)"
    using ok o by (simp add: combo_events_def render_fixes_ok)
  then show ?thesis using i fu by (simp add: combo_pick_def combo_render_def)
qed

theorem reopened_list_changes_choice_witness:
  "cx_value sample_box = Some 7
     \<and> cx_value (combo_events [Combo_key Key_escape, Combo_key Key_down, Combo_key Key_enter] sample_box) = Some 5"
proof -
  have s: "combo_ok sample_box" "cx_open sample_box" "cx_value sample_box = Some 7"
    "cx_options sample_box = combo_options sample_libraries sample_categories"
    "combo_filtered sample_box = [combo_options sample_libraries sample_categories ! 1]" by code_simp+
  have o: "lb_id (op_library (combo_options sample_libraries sample_categories ! 1)) = 7"
    "lb_id (op_library (combo_options sample_libraries sample_categories ! 0)) = 5"
    "length (combo_options sample_libraries sample_categories) = 2" by code_simp+
  from reopened_list_changes_choice [of sample_box 1 0] s o show ?thesis by simp
qed

text \<open>
  While the list is loaded again its rows are hidden, but Enter still chooses one of the old ones.
\<close>

theorem enter_chooses_hidden_row:
  assumes "cx_active s" "cx_open s" "combo_filtered s \<noteq> []" "combo_ok s" "s' = combo_events [Combo_changed] s"
  shows "combo_rows s' = []
    \<and> cx_value (combo_events [Combo_key Key_enter] s') = Some (lb_id (op_library (combo_filtered s ! cx_index s)))"
proof -
  have f: "combo_filtered (combo_load s) = combo_filtered s" by (simp add: combo_filtered_def combo_load_def Let_def)
  then have "combo_ok (combo_load s)" using assms(4) by (simp add: combo_ok_def combo_load_def)
  then have s': "s' = combo_load s" using assms(1,5) by (simp add: combo_events_def combo_effect_def render_fixes_ok)
  moreover have "combo_rows (combo_load s) = []" by (simp add: combo_rows_def combo_load_def)
  ultimately show ?thesis using f assms(2-4)
    by (simp add: combo_events_def combo_ok_def combo_pick_def combo_render_def) (simp add: combo_load_def)
qed

text \<open>An answer to a request for another scope replaces the list of the scope that is shown.\<close>

theorem late_answer_replaces_options:
  assumes "cx_active s" "r \<noteq> cx_request s" "cx_tasks s = []"
  shows "cx_options (combo_events [Combo_changed, Combo_props r, Combo_answer 1 (Inr (ls, cs)), Combo_answer 0 (Inr (ls', cs'))] s)
      = combo_options ls' cs'
    \<and> cx_request (combo_events [Combo_changed, Combo_props r, Combo_answer 1 (Inr (ls, cs)), Combo_answer 0 (Inr (ls', cs'))] s) = r"
  using assms by (simp add: combo_events_def combo_effect_def combo_load_def combo_loaded_def)

end
