(* ===== verification/Library_Delete.thy ===== *)
theory Library_Delete
  imports Js_Prelude
begin

text \<open>
  Archiving or deleting a knowledge base, frontend/mis-admin-web/src/features/kb/library/
  kb-library-delete-dialog.tsx. A first request does not force; when the answer says that the engine no
  longer has the data, a second, forced one is offered. The calls that were sent are kept with a flag for
  those that are answered.
\<close>

section \<open>State\<close>

datatype delete_mode = Mode_archive | Mode_physical

record delete_result =
  dr_missing :: "bool option"
  dr_synced :: "bool option"
  dr_message :: "jstr option"

record engine_ref =
  er_library :: "int option"
  er_dataset :: "jstr option"

record delete_call =
  dc_library :: int
  dc_mode :: delete_mode
  dc_force :: bool

record delete_dialog =
  dd_library :: "(int \<times> jstr) option" \<comment> \<open>identifier and name\<close>
  dd_mode :: delete_mode
  dd_text :: jstr
  dd_submitting :: bool
  dd_forcing :: bool
  dd_result :: "delete_result option"
  dd_ref :: "engine_ref option"
  dd_ref_loading :: bool
  dd_ref_error :: "jstr option"
  dd_prompt :: bool
  dd_finished :: "delete_result list" \<comment> \<open>the calls of \<open>onDone\<close>\<close>
  dd_calls :: "(delete_call \<times> bool) list"
  dd_refs :: "(int \<times> bool) list"

definition new_delete_dialog :: delete_dialog where
  "new_delete_dialog = \<lparr>dd_library = None, dd_mode = Mode_archive, dd_text = [], dd_submitting = False, dd_forcing = False,
     dd_result = None, dd_ref = None, dd_ref_loading = False, dd_ref_error = None, dd_prompt = False, dd_finished = [],
     dd_calls = [], dd_refs = []\<rparr>"

section \<open>Operations\<close>

definition delete_reset :: "delete_dialog \<Rightarrow> delete_dialog" where
  "delete_reset s = s\<lparr>dd_mode := Mode_archive, dd_text := [], dd_result := None, dd_ref := None, dd_ref_error := None,
     dd_prompt := False\<rparr>"

definition delete_shown :: "(int \<times> jstr) option \<Rightarrow> delete_dialog \<Rightarrow> delete_dialog" where
  "delete_shown l s =
     (let s1 = s\<lparr>dd_library := l\<rparr> in
      if l \<noteq> None \<and> map_option fst l \<noteq> map_option fst (dd_library s) then delete_reset s1 else s1)"

definition load_engine_ref :: "delete_dialog \<Rightarrow> delete_dialog" where
  "load_engine_ref s =
     (case dd_library s of
        None \<Rightarrow> s
      | Some (i, n) \<Rightarrow> s\<lparr>dd_ref_loading := True, dd_ref_error := None, dd_refs := dd_refs s @ [(i, False)]\<rparr>)"

definition ref_answered :: "jstr + engine_ref \<Rightarrow> delete_dialog \<Rightarrow> delete_dialog" where
  "ref_answered ans s =
     (case ans of
        Inr r \<Rightarrow> s\<lparr>dd_ref := Some r, dd_ref_loading := False\<rparr>
      | Inl m \<Rightarrow> s\<lparr>dd_ref_error := Some m, dd_ref_loading := False\<rparr>)"

definition delete_submit :: "delete_dialog \<Rightarrow> delete_dialog" where
  "delete_submit s =
     (case dd_library s of
        None \<Rightarrow> s
      | Some (i, n) \<Rightarrow> s\<lparr>dd_submitting := True, dd_calls := dd_calls s @ [(\<lparr>dc_library = i, dc_mode = dd_mode s, dc_force = False\<rparr>, False)]\<rparr>)"

definition confirm_force :: "delete_dialog \<Rightarrow> delete_dialog" where
  "confirm_force s =
     (case dd_library s of
        None \<Rightarrow> s
      | Some (i, n) \<Rightarrow> s\<lparr>dd_forcing := True, dd_calls := dd_calls s @ [(\<lparr>dc_library = i, dc_mode = dd_mode s, dc_force = True\<rparr>, False)]\<rparr>)"

definition removal_answered :: "bool \<Rightarrow> jstr + delete_result \<Rightarrow> delete_dialog \<Rightarrow> delete_dialog" where
  "removal_answered force ans s =
     (let s1 = (if force then s\<lparr>dd_forcing := False\<rparr> else s\<lparr>dd_submitting := False\<rparr>) in
      case ans of
        Inl m \<Rightarrow> s1
      | Inr r \<Rightarrow>
          if \<not> force \<and> dr_missing r = Some True then s1\<lparr>dd_prompt := True\<rparr>
          else s1\<lparr>dd_result := Some r, dd_finished := dd_finished s @ [r]\<rparr>)"

definition delete_confirmed :: "delete_dialog \<Rightarrow> bool" where
  "delete_confirmed s \<longleftrightarrow> (case dd_library s of Some (i, n) \<Rightarrow> trim (dd_text s) = n | None \<Rightarrow> False)"

definition delete_busy :: "delete_dialog \<Rightarrow> bool" where
  "delete_busy s \<longleftrightarrow> dd_submitting s \<or> dd_forcing s"

datatype delete_event =
    Del_show "(int \<times> jstr) option"
  | Del_mode delete_mode
  | Del_text jstr
  | Del_ref
  | Del_press
  | Del_close
  | Del_ref_answer nat "jstr + engine_ref"
  | Del_answer nat "jstr + delete_result"

text \<open>The controls that are there and enabled; \<open>supported\<close> is the capability of the engine.\<close>

definition delete_form :: "delete_dialog \<Rightarrow> bool" where
  "delete_form s \<longleftrightarrow> dd_library s \<noteq> None \<and> dd_result s = None"

fun delete_do :: "bool \<Rightarrow> delete_event \<Rightarrow> delete_dialog \<Rightarrow> delete_dialog" where
  "delete_do supported (Del_show l) s = delete_shown l s"
| "delete_do supported (Del_mode m) s =
     (if delete_form s \<and> \<not> dd_prompt s \<and> (m = Mode_archive \<or> supported) then s\<lparr>dd_mode := m\<rparr> else s)"
| "delete_do supported (Del_text t) s = (if delete_form s then s\<lparr>dd_text := t\<rparr> else s)"
| "delete_do supported Del_ref s = (if delete_form s \<and> \<not> dd_prompt s \<and> \<not> dd_ref_loading s then load_engine_ref s else s)"
| "delete_do supported Del_press s =
     (if delete_form s \<and> delete_confirmed s \<and> \<not> delete_busy s
      then (if dd_prompt s then confirm_force s else delete_submit s) else s)"
| "delete_do supported Del_close s = delete_shown None s"
| "delete_do supported (Del_ref_answer i ans) s =
     (if i < length (dd_refs s) \<and> \<not> snd (dd_refs s ! i)
      then ref_answered ans (s\<lparr>dd_refs := (dd_refs s)[i := (fst (dd_refs s ! i), True)]\<rparr>) else s)"
| "delete_do supported (Del_answer i ans) s =
     (if i < length (dd_calls s) \<and> \<not> snd (dd_calls s ! i)
      then removal_answered (dc_force (fst (dd_calls s ! i))) ans (s\<lparr>dd_calls := (dd_calls s)[i := (fst (dd_calls s ! i), True)]\<rparr>)
      else s)"

definition delete_all :: "bool \<Rightarrow> delete_event list \<Rightarrow> delete_dialog \<Rightarrow> delete_dialog" where
  "delete_all supported es s = foldl (\<lambda>s e. delete_do supported e s) s es"

section \<open>Every deletion is confirmed\<close>

definition says_missing :: "delete_event \<Rightarrow> bool" where
  "says_missing e \<longleftrightarrow> (case e of Del_answer i (Inr r) \<Rightarrow> dr_missing r = Some True | _ \<Rightarrow> False)"

definition delete_inv :: "bool \<Rightarrow> bool \<Rightarrow> delete_dialog \<Rightarrow> bool" where
  "delete_inv supported seen s \<longleftrightarrow> (dd_mode s = Mode_physical \<longrightarrow> supported) \<and> (dd_prompt s \<longrightarrow> seen)"

lemmas delete_ops = delete_shown_def delete_reset_def load_engine_ref_def ref_answered_def delete_submit_def confirm_force_def
  removal_answered_def Let_def

lemma delete_inv_step: "delete_inv supported seen s \<Longrightarrow> delete_inv supported (seen \<or> says_missing e) (delete_do supported e s)"
  by (cases e)
    (auto simp: delete_inv_def delete_ops says_missing_def split: option.splits sum.splits if_splits)

lemma delete_inv_all: "delete_inv supported seen s \<Longrightarrow> delete_inv supported (seen \<or> list_ex says_missing es) (delete_all supported es s)"
proof (induction es arbitrary: s seen)
  case (Cons e es)
  from Cons.IH [OF delete_inv_step [OF Cons.prems]] show ?case by (simp add: delete_all_def disj_assoc)
qed (simp add: delete_all_def)

lemma new_delete_inv: "delete_inv supported False new_delete_dialog"
  by (simp add: delete_inv_def new_delete_dialog_def)

lemma sent_call:
  assumes "map fst (dd_calls (delete_do supported e s)) = map fst (dd_calls s) @ [c]"
  shows "e = Del_press \<and> delete_confirmed s \<and> dc_mode c = dd_mode s \<and> (dc_force c \<longleftrightarrow> dd_prompt s)
    \<and> map_option fst (dd_library s) = Some (dc_library c)"
proof -
  have same: "map fst ((dd_calls s)[i := (fst (dd_calls s ! i), b)]) = map fst (dd_calls s)" for i b
    by (cases "i < length (dd_calls s)") (simp_all add: map_update list_update_same_conv list_update_beyond)
  show ?thesis using assms
    by (cases e) (auto simp: delete_ops same split: option.splits sum.splits if_splits)
qed

text \<open>
  Every request that is sent is for the knowledge base that is shown, whose name has been typed; it deletes
  only when the engine can, and it forces only after some answer has said that the data are missing.
\<close>

theorem deletion_is_confirmed:
  assumes "s = delete_all supported es new_delete_dialog" "map fst (dd_calls (delete_do supported e s)) = map fst (dd_calls s) @ [c]"
  shows "dd_library s = Some (dc_library c, trim (dd_text s)) \<and> (dc_mode c = Mode_physical \<longrightarrow> supported)
    \<and> (dc_force c \<longrightarrow> list_ex says_missing es)"
proof -
  have "delete_inv supported (list_ex says_missing es) s"
    using delete_inv_all [OF new_delete_inv, of supported es] assms(1) by simp
  with sent_call [OF assms(2)] show ?thesis
    by (auto simp: delete_inv_def delete_confirmed_def split: option.splits)
qed

text \<open>
  The answer about one knowledge base is not tied to it. When another one is shown before it comes, the
  question whether to delete without the engine is asked for the other one, and its first request is forced.
\<close>

theorem late_answer_forces_other_library:
  assumes "a \<noteq> b" "trim m = m" "trim n = n" "dr_missing r = Some True"
    and "s = delete_all supported [Del_show (Some (a, m)), Del_text m, Del_press, Del_close, Del_show (Some (b, n)), Del_text n,
      Del_answer 0 (Inr r), Del_press] new_delete_dialog"
  shows "map fst (dd_calls s) = [\<lparr>dc_library = a, dc_mode = Mode_archive, dc_force = False\<rparr>,
      \<lparr>dc_library = b, dc_mode = Mode_archive, dc_force = True\<rparr>]"
  using assms by (simp add: delete_all_def new_delete_dialog_def delete_form_def delete_confirmed_def delete_busy_def delete_ops)

text \<open>The reference of the data in the engine that is shown for a knowledge base can be that of another one.\<close>

theorem late_reference_is_shown:
  assumes "a \<noteq> b" "s = delete_all supported [Del_show (Some (a, m)), Del_ref, Del_close, Del_show (Some (b, n)),
      Del_ref_answer 0 (Inr r)] new_delete_dialog"
  shows "dd_library s = Some (b, n) \<and> dd_ref s = Some r \<and> map fst (dd_refs s) = [a]"
  using assms by (simp add: delete_all_def new_delete_dialog_def delete_form_def delete_ops)

definition sample_delete :: "delete_event list" where
  "sample_delete = [Del_show (Some (3, js ''hr'')), Del_text (js '' hr ''), Del_press,
     Del_answer 0 (Inr \<lparr>dr_missing = Some True, dr_synced = None, dr_message = None\<rparr>)]"

theorem deletion_is_confirmed_witness:
  "dc_force \<lparr>dc_library = 3, dc_mode = Mode_archive, dc_force = True\<rparr> \<and> list_ex says_missing sample_delete
     \<and> dd_library (delete_all False sample_delete new_delete_dialog) = Some (3, js ''hr'')"
proof -
  have c: "map fst (dd_calls (delete_do False Del_press (delete_all False sample_delete new_delete_dialog)))
    = map fst (dd_calls (delete_all False sample_delete new_delete_dialog)) @ [\<lparr>dc_library = 3, dc_mode = Mode_archive, dc_force = True\<rparr>]"
    by code_simp
  have "trim (dd_text (delete_all False sample_delete new_delete_dialog)) = js ''hr''" by code_simp
  with deletion_is_confirmed [OF refl c] show ?thesis by simp
qed

theorem late_answer_forces_other_library_witness:
  "map (dc_force \<circ> fst) (dd_calls (delete_all True [Del_show (Some (1, js ''a'')), Del_text (js ''a''), Del_press, Del_close,
     Del_show (Some (2, js ''b'')), Del_text (js ''b''), Del_answer 0 (Inr \<lparr>dr_missing = Some True, dr_synced = None, dr_message = None\<rparr>),
     Del_press] new_delete_dialog)) = [False, True]"
proof -
  have t: "trim (js ''a'') = js ''a''" "trim (js ''b'') = js ''b''" by (simp_all add: trim_def js_def is_ws_def)
  show ?thesis unfolding map_map [symmetric]
    by (subst late_answer_forces_other_library [OF _ t _ refl]) simp_all
qed

end
