(* ===== verification/Agent_Console.thy ===== *)
theory Agent_Console
  imports Js_Number
begin

text \<open>
  The page for talking to an agent, frontend/mis-admin-web/src/features/agent/chat/agent-chat-page.tsx, with
  the keyboard of chat-shell.tsx. A turn creates the session when there is none, sends the message and reads
  the messages back; it is cut at its three waits.
\<close>

section \<open>State\<close>

record agent_summary =
  as_id :: jstr
  as_running :: bool

record console_session =
  cs_id :: jstr
  cs_agent :: jstr

datatype console_role = Role_user | Role_assistant | Role_tool | Role_system

record console_message =
  ms_id :: jstr
  ms_session :: jstr
  ms_role :: console_role
  ms_content :: jstr

text \<open>Where the turn under way waits; a created session is for the agent the turn was started with.\<close>

datatype turn_wait =
    Wait_session jstr jstr \<comment> \<open>the agent and the content\<close>
  | Wait_reply jstr jstr jstr \<comment> \<open>the session, the content and the identifier of the local message\<close>
  | Wait_sync jstr

record console =
  ac_agents :: "agent_summary list"
  ac_agents_loading :: bool
  ac_agents_error :: "jstr option"
  ac_agent :: jstr
  ac_session :: "console_session option"
  ac_messages :: "console_message list"
  ac_input :: jstr
  ac_sending :: bool
  ac_error :: "jstr option"
  ac_blocked :: bool
  ac_seq :: nat
  ac_turn :: "turn_wait option"
  ac_sent :: "(jstr \<times> jstr) list" \<comment> \<open>the messages sent so far, with their sessions\<close>

definition new_console :: console where
  "new_console = \<lparr>ac_agents = [], ac_agents_loading = False, ac_agents_error = None, ac_agent = [], ac_session = None,
     ac_messages = [], ac_input = [], ac_sending = False, ac_error = None, ac_blocked = False, ac_seq = 0, ac_turn = None,
     ac_sent = []\<rparr>"

section \<open>Operations\<close>

definition load_agents :: "console \<Rightarrow> console" where
  "load_agents s = s\<lparr>ac_agents_loading := True, ac_agents_error := None\<rparr>"

definition first_agent :: "agent_summary list \<Rightarrow> jstr" where
  "first_agent as =
     default_to (case as of [] \<Rightarrow> [] | a # _ \<Rightarrow> as_id a) (map_option as_id (find as_running as))"

definition agents_loaded :: "jstr + agent_summary list \<Rightarrow> console \<Rightarrow> console" where
  "agents_loaded ans s =
     (case ans of
        Inl m \<Rightarrow> s\<lparr>ac_agents := [], ac_agents_error := Some m, ac_agents_loading := False\<rparr>
      | Inr as \<Rightarrow> s\<lparr>ac_agents := as, ac_agents_loading := False,
          ac_agent := if ac_agent s \<noteq> [] \<and> list_ex (\<lambda>a. as_id a = ac_agent s) as then ac_agent s else first_agent as\<rparr>)"

definition on_agent_change :: "jstr \<Rightarrow> console \<Rightarrow> console" where
  "on_agent_change a s = s\<lparr>ac_agent := a, ac_session := None, ac_messages := [], ac_error := None, ac_blocked := False\<rparr>"

definition on_new_session :: "console \<Rightarrow> console" where
  "on_new_session s = s\<lparr>ac_session := None, ac_messages := [], ac_error := None, ac_blocked := False, ac_input := []\<rparr>"

definition local_id :: "nat \<Rightarrow> jstr" where
  "local_id n = js ''local-'' @ nat_dec n"

text \<open>The second and the third step of \<open>handleSend\<close>, up to the wait for the reply.\<close>

definition send_local :: "jstr \<Rightarrow> jstr \<Rightarrow> console \<Rightarrow> console" where
  "send_local sid content s =
     (let i = local_id (Suc (ac_seq s)) in
      s\<lparr>ac_seq := Suc (ac_seq s),
        ac_messages := ac_messages s @ [\<lparr>ms_id = i, ms_session = sid, ms_role = Role_user, ms_content = content\<rparr>],
        ac_input := [], ac_turn := Some (Wait_reply sid content i), ac_sent := ac_sent s @ [(sid, content)]\<rparr>)"

definition handle_send :: "console \<Rightarrow> console" where
  "handle_send s =
     (let content = trim (ac_input s) in
      if content = [] \<or> ac_agent s = [] \<or> ac_sending s then s
      else
        (let s1 = s\<lparr>ac_sending := True, ac_error := None\<rparr>;
             sid = (case ac_session s of Some c \<Rightarrow> cs_id c | None \<Rightarrow> [])
         in if sid = [] then s1\<lparr>ac_turn := Some (Wait_session (ac_agent s) content)\<rparr> else send_local sid content s1))"

definition session_created :: "jstr + jstr \<Rightarrow> console \<Rightarrow> console" where
  "session_created ans s =
     (case ac_turn s of
        Some (Wait_session a content) \<Rightarrow>
          (case ans of
             Inr sid \<Rightarrow> send_local sid content (s\<lparr>ac_session := Some \<lparr>cs_id = sid, cs_agent = a\<rparr>\<rparr>)
           | Inl m \<Rightarrow> s\<lparr>ac_error := Some m, ac_sending := False, ac_turn := None\<rparr>)
      | _ \<Rightarrow> s)"

definition reply_came :: "jstr + console_message \<Rightarrow> console \<Rightarrow> console" where
  "reply_came ans s =
     (case ac_turn s of
        Some (Wait_reply sid content i) \<Rightarrow>
          (case ans of
             Inr m \<Rightarrow> s\<lparr>ac_messages := ac_messages s @ [m], ac_turn := Some (Wait_sync sid)\<rparr>
           | Inl e \<Rightarrow> s\<lparr>ac_error := Some e, ac_messages := filter (\<lambda>m. ms_id m \<noteq> i) (ac_messages s), ac_input := content,
               ac_sending := False, ac_turn := None\<rparr>)
      | _ \<Rightarrow> s)"

definition messages_synced :: "console_message list option \<Rightarrow> console \<Rightarrow> console" where
  "messages_synced ans s =
     (case ac_turn s of
        Some (Wait_sync sid) \<Rightarrow>
          (let s1 = s\<lparr>ac_sending := False, ac_turn := None\<rparr> in
           case ans of
             Some ms \<Rightarrow> if ms \<noteq> [] then s1\<lparr>ac_messages := ms, ac_blocked := False\<rparr> else s1\<lparr>ac_blocked := False\<rparr>
           | None \<Rightarrow> s1\<lparr>ac_blocked := True\<rparr>)
      | _ \<Rightarrow> s)"

datatype console_event =
    Con_load
  | Con_agents "jstr + agent_summary list"
  | Con_select jstr
  | Con_new
  | Con_type jstr
  | Con_send
  | Con_created "jstr + jstr"
  | Con_reply "jstr + console_message"
  | Con_synced "console_message list option"
  | Con_dismiss

text \<open>The text area is disabled while a turn is under way, and nothing is sent then; the other controls stay enabled.\<close>

fun console_do :: "console_event \<Rightarrow> console \<Rightarrow> console" where
  "console_do Con_load s = load_agents s"
| "console_do (Con_agents ans) s = agents_loaded ans s"
| "console_do (Con_select a) s = on_agent_change a s"
| "console_do Con_new s = (if ac_session s = None \<and> ac_messages s = [] then s else on_new_session s)"
| "console_do (Con_type t) s = (if ac_agent s = [] \<or> ac_sending s then s else s\<lparr>ac_input := t\<rparr>)"
| "console_do Con_send s = handle_send s"
| "console_do (Con_created ans) s = session_created ans s"
| "console_do (Con_reply ans) s = reply_came ans s"
| "console_do (Con_synced ans) s = messages_synced ans s"
| "console_do Con_dismiss s = s\<lparr>ac_error := None\<rparr>"

definition console_all :: "console_event list \<Rightarrow> console \<Rightarrow> console" where
  "console_all es s = foldl (\<lambda>s e. console_do e s) s es"

section \<open>The session of a message\<close>

text \<open>
  The selection is left alone while a turn is under way, and a reload of the agents keeps the selected one
  when there is a session or a turn.
\<close>

definition calm_event :: "console_event \<Rightarrow> console \<Rightarrow> bool" where
  "calm_event e s \<longleftrightarrow>
     (case e of
        Con_select a \<Rightarrow> \<not> ac_sending s
      | Con_new \<Rightarrow> \<not> ac_sending s
      | Con_agents (Inr as) \<Rightarrow> ac_session s = None \<and> \<not> ac_sending s \<or> ac_agent s \<noteq> [] \<and> list_ex (\<lambda>a. as_id a = ac_agent s) as
      | _ \<Rightarrow> True)"

fun calm :: "console_event list \<Rightarrow> console \<Rightarrow> bool" where
  "calm [] s = True"
| "calm (e # es) s = (calm_event e s \<and> calm es (console_do e s))"

definition console_inv :: "console \<Rightarrow> bool" where
  "console_inv s \<longleftrightarrow> (ac_sending s \<longleftrightarrow> ac_turn s \<noteq> None) \<and> (\<forall>c. ac_session s = Some c \<longrightarrow> cs_agent c = ac_agent s)
     \<and> (\<forall>a t. ac_turn s = Some (Wait_session a t) \<longrightarrow> a = ac_agent s)"

lemmas console_ops = load_agents_def agents_loaded_def on_agent_change_def on_new_session_def send_local_def handle_send_def
  session_created_def reply_came_def messages_synced_def Let_def

lemma console_inv_step: "console_inv s \<Longrightarrow> calm_event e s \<Longrightarrow> console_inv (console_do e s)"
  by (cases e)
    (auto simp: console_inv_def calm_event_def console_ops split: option.splits sum.splits turn_wait.splits if_splits)

lemma console_inv_all: "console_inv s \<Longrightarrow> calm es s \<Longrightarrow> console_inv (console_all es s)"
  by (induction es arbitrary: s) (simp_all add: console_all_def console_inv_step)

lemma new_console_inv: "console_inv new_console"
  by (simp add: console_inv_def new_console_def)

lemma sent_in_session:
  assumes "console_inv s" "ac_sent (console_do e s) = ac_sent s @ [(sid, t)]"
  shows "ac_session (console_do e s) = Some \<lparr>cs_id = sid, cs_agent = ac_agent (console_do e s)\<rparr>"
  using assms
  by (cases e)
    (auto simp: console_inv_def console_ops split: option.splits sum.splits turn_wait.splits if_splits)

text \<open>
  As long as nobody selects another agent or starts a new session while a turn is under way, and no reload
  drops the selected agent, every message goes to the session that is shown, and that session is one of the
  agent that is selected.
\<close>

theorem messages_reach_selected_agent:
  assumes "calm es new_console" "s = console_all es new_console" "ac_sent (console_do e s) = ac_sent s @ [(sid, t)]"
  shows "ac_session (console_do e s) = Some \<lparr>cs_id = sid, cs_agent = ac_agent (console_do e s)\<rparr>"
  using sent_in_session [OF _ assms(3)] console_inv_all [OF new_console_inv assms(1)] assms(2) by simp

text \<open>
  Without that restriction it fails: when another agent is selected before the new session has come, the
  session of the first agent becomes the one of the second, and the next message is sent to the first.
\<close>

theorem late_session_takes_over:
  assumes "\<not> ac_sending s" "ac_session s = None" "ac_agent s = a" "a \<noteq> []" "b \<noteq> []" "trim (ac_input s) \<noteq> []" "trim t \<noteq> []" "sid \<noteq> []"
    and "s1 = console_all [Con_send, Con_select b, Con_created (Inr sid), Con_reply (Inr m), Con_synced None] s"
    and "s2 = console_all [Con_type t, Con_send] s1"
  shows "ac_agent s1 = b \<and> ac_session s1 = Some \<lparr>cs_id = sid, cs_agent = a\<rparr>
    \<and> ac_agent s2 = b \<and> ac_sent s2 = ac_sent s @ [(sid, trim (ac_input s)), (sid, trim t)]"
  using assms by (simp add: console_all_def console_ops)

text \<open>A reload that does not list the selected agent selects another one and keeps the session of the first.\<close>

theorem reload_keeps_foreign_session:
  assumes "ac_session s = Some c" "\<not> list_ex (\<lambda>a. as_id a = ac_agent s) as" "as = a # as'" "\<not> list_ex as_running as"
  shows "ac_agent (console_do (Con_agents (Inr as)) s) = as_id a \<and> ac_session (console_do (Con_agents (Inr as)) s) = Some c"
proof -
  have "find as_running as = None" using assms(4) by (auto simp: find_None_iff list_ex_iff)
  with assms show ?thesis by (simp add: agents_loaded_def first_agent_def)
qed

section \<open>A failed message\<close>

lemma local_id_inject: "local_id m = local_id n \<longleftrightarrow> m = n"
  using digits_value_nat_dec by (metis local_id_def same_append_eq of_nat_eq_iff)

definition server_id :: "jstr \<Rightarrow> bool" where
  "server_id i \<longleftrightarrow> \<not> starts_with i (js ''local-'')"

definition server_event :: "console_event \<Rightarrow> bool" where
  "server_event e \<longleftrightarrow>
     (case e of
        Con_reply (Inr m) \<Rightarrow> server_id (ms_id m)
      | Con_synced (Some ms) \<Rightarrow> list_all (\<lambda>m. server_id (ms_id m)) ms
      | _ \<Rightarrow> True)"

definition ids_ok :: "console \<Rightarrow> bool" where
  "ids_ok s \<longleftrightarrow> (\<forall>m \<in> set (ac_messages s). server_id (ms_id m) \<or> (\<exists>k \<le> ac_seq s. ms_id m = local_id k))"

lemma ids_ok_step: "ids_ok s \<Longrightarrow> server_event e \<Longrightarrow> ids_ok (console_do e s)"
  by (cases e)
    (fastforce simp: ids_ok_def server_event_def console_ops list_all_iff le_Suc_eq
      split: option.splits sum.splits turn_wait.splits if_splits)+

lemma ids_ok_all: "ids_ok s \<Longrightarrow> list_all server_event es \<Longrightarrow> ids_ok (console_all es s)"
  by (induction es arbitrary: s) (simp_all add: console_all_def ids_ok_step)

lemma fresh_local_id:
  assumes "ids_ok s" "m \<in> set (ac_messages s)"
  shows "ms_id m \<noteq> local_id (Suc (ac_seq s))"
proof
  assume e: "ms_id m = local_id (Suc (ac_seq s))"
  then have "\<not> server_id (ms_id m)" by (simp add: server_id_def starts_with_def local_id_def)
  with assms e obtain k where "k \<le> ac_seq s" "local_id k = local_id (Suc (ac_seq s))" by (auto simp: ids_ok_def)
  then show False by (simp add: local_id_inject)
qed

text \<open>
  A message that is refused leaves no trace: the messages are those before it, the text is back in the
  input, and the page can send again.
\<close>

theorem failed_message_is_rolled_back:
  assumes "list_all server_event es" "s = console_all es new_console"
    and "\<not> ac_sending s" "ac_agent s \<noteq> []" "trim (ac_input s) \<noteq> []"
    and "t = console_all ([Con_send] @ (if ac_session s = None then [Con_created (Inr sid)] else []) @ [Con_reply (Inl m)]) s"
    and "\<forall>c. ac_session s = Some c \<longrightarrow> cs_id c \<noteq> []"
  shows "ac_messages t = ac_messages s \<and> ac_input t = trim (ac_input s) \<and> \<not> ac_sending t \<and> ac_error t = Some m \<and> ac_turn t = None"
proof -
  have "ids_ok s" unfolding assms(2) by (rule ids_ok_all [OF _ assms(1)]) (simp add: ids_ok_def new_console_def)
  then have "filter (\<lambda>m. ms_id m \<noteq> local_id (Suc (ac_seq s))) (ac_messages s) = ac_messages s"
    by (intro filter_True ballI fresh_local_id)
  then show ?thesis using assms(3-7)
    by (cases "ac_session s") (simp_all add: console_all_def console_ops)
qed

definition console_sample :: "console_event list" where
  "console_sample = [Con_load, Con_agents (Inr [\<lparr>as_id = js ''a'', as_running = True\<rparr>]), Con_type (js ''hi'')]"

theorem failed_message_is_rolled_back_witness:
  "ac_input (console_all [Con_send, Con_created (Inr (js ''s'')), Con_reply (Inl (js ''no''))] (console_all console_sample new_console))
     = js ''hi''"
proof -
  have e: "list_all server_event console_sample" by (simp add: console_sample_def server_event_def)
  have i: "\<not> ac_sending (console_all console_sample new_console)" "ac_agent (console_all console_sample new_console) \<noteq> []"
    "ac_session (console_all console_sample new_console) = None"
    by code_simp+
  have t: "trim (ac_input (console_all console_sample new_console)) = js ''hi''" by code_simp
  then have n: "trim (ac_input (console_all console_sample new_console)) \<noteq> []" by (simp add: js_def)
  from failed_message_is_rolled_back [OF e refl i(1,2) n refl, of "js ''s''" "js ''no''"] i(3) t show ?thesis by simp
qed

theorem messages_reach_selected_agent_witness:
  "ac_session (console_do (Con_created (Inr (js ''s''))) (console_all (console_sample @ [Con_send]) new_console))
     = Some \<lparr>cs_id = js ''s'', cs_agent = js ''a''\<rparr>"
proof -
  have c: "calm (console_sample @ [Con_send]) new_console" by code_simp
  have s: "ac_sent (console_do (Con_created (Inr (js ''s''))) (console_all (console_sample @ [Con_send]) new_console))
    = ac_sent (console_all (console_sample @ [Con_send]) new_console) @ [(js ''s'', js ''hi'')]" by code_simp
  have "ac_agent (console_do (Con_created (Inr (js ''s''))) (console_all (console_sample @ [Con_send]) new_console)) = js ''a''"
    by code_simp
  with messages_reach_selected_agent [OF c refl s] show ?thesis by simp
qed

end
