(* ===== verification/Mcp_Permissions.thy ===== *)
theory Mcp_Permissions
  imports Js_Map
begin

text \<open>
  The panel that grants the tools of an MCP server to roles, frontend/mis-admin-web/src/features/agent/mcp/
  agent-mcp-permission-panel.tsx, with the role picker of components/agent-role-picker.tsx. A save sends one
  request for each tool, with a bounded number of requests under way.
\<close>

section \<open>The queue of requests\<close>

record 'a work =
  wk_flight :: "'a list"
  wk_queue :: "'a list"

text \<open>Every worker takes the first entry of the queue, and the next one when its request has ended.\<close>

definition run_with_concurrency :: "'a list \<Rightarrow> nat \<Rightarrow> 'a work" where
  "run_with_concurrency items limit =
     (let n = max 1 (min limit (length items)) in \<lparr>wk_flight = take n items, wk_queue = drop n items\<rparr>)"

definition work_ended :: "nat \<Rightarrow> 'a work \<Rightarrow> 'a work" where
  "work_ended i w =
     (let rest = take i (wk_flight w) @ drop (Suc i) (wk_flight w) in
      case wk_queue w of [] \<Rightarrow> w\<lparr>wk_flight := rest\<rparr> | x # q \<Rightarrow> \<lparr>wk_flight = rest @ [x], wk_queue = q\<rparr>)"

section \<open>State\<close>

record mcp_tool =
  mt_name :: jstr
  mt_skill :: jstr
  mt_code :: jstr
  mt_discovered :: bool
  mt_roles :: "int list"

text \<open>One request of a save: the tool and the roles.\<close>

type_synonym grant_call = "jstr \<times> int list"

record mcp_panel =
  mp_manage :: bool
  mp_servers :: "jstr list"
  mp_server :: jstr
  mp_perms :: "mcp_tool list option"
  mp_loading :: bool
  mp_error :: "jstr option"
  mp_checked :: "jstr jset"
  mp_roles :: "int list"
  mp_saving :: bool
  mp_save_roles :: "int list" \<comment> \<open>of the save under way\<close>
  mp_save_server :: jstr
  mp_work :: "mcp_tool work"
  mp_failures :: "jstr list"
  mp_sent :: "grant_call list"
  mp_loads :: "(jstr \<times> bool) list" \<comment> \<open>the requests for the tools of a server, and those answered\<close>

definition new_mcp_panel :: "bool \<Rightarrow> mcp_panel" where
  "new_mcp_panel manage = \<lparr>mp_manage = manage, mp_servers = [], mp_server = [], mp_perms = None, mp_loading = False, mp_error = None,
     mp_checked = [], mp_roles = [], mp_saving = False, mp_save_roles = [], mp_save_server = [],
     mp_work = \<lparr>wk_flight = [], wk_queue = []\<rparr>, mp_failures = [], mp_sent = [], mp_loads = []\<rparr>"

section \<open>Loading\<close>

definition load_permissions :: "jstr \<Rightarrow> mcp_panel \<Rightarrow> mcp_panel" where
  "load_permissions server s =
     (if server = [] then s\<lparr>mp_perms := None\<rparr>
      else s\<lparr>mp_loading := True, mp_error := None, mp_loads := mp_loads s @ [(server, False)]\<rparr>)"

definition permissions_answered :: "jstr + mcp_tool list \<Rightarrow> mcp_panel \<Rightarrow> mcp_panel" where
  "permissions_answered ans s =
     (case ans of
        Inr tools \<Rightarrow> s\<lparr>mp_perms := Some tools, mp_checked := [], mp_roles := [], mp_loading := False\<rparr>
      | Inl m \<Rightarrow> s\<lparr>mp_perms := None, mp_error := Some m, mp_loading := False\<rparr>)"

definition choose_server :: "jstr \<Rightarrow> mcp_panel \<Rightarrow> mcp_panel" where
  "choose_server server s = (if server = mp_server s then s else load_permissions server (s\<lparr>mp_server := server\<rparr>))"

definition servers_answered :: "jstr list \<Rightarrow> mcp_panel \<Rightarrow> mcp_panel" where
  "servers_answered names s =
     (let s1 = s\<lparr>mp_servers := names\<rparr> in
      choose_server (if mp_server s \<noteq> [] \<and> mp_server s \<in> set names then mp_server s
                     else (case names of [] \<Rightarrow> [] | n # _ \<Rightarrow> n)) s1)"

section \<open>Choosing tools and roles\<close>

text \<open>The effect on the checked tools: with a single one its roles are filled in.\<close>

definition prefill_roles :: "mcp_panel \<Rightarrow> mcp_panel" where
  "prefill_roles s =
     (case (mp_checked s, mp_perms s) of
        ([i], Some tools) \<Rightarrow> (case find (\<lambda>t. mt_skill t = i) tools of Some t \<Rightarrow> s\<lparr>mp_roles := mt_roles t\<rparr> | None \<Rightarrow> s)
      | _ \<Rightarrow> s)"

definition toggle_checked :: "mcp_tool \<Rightarrow> mcp_panel \<Rightarrow> mcp_panel" where
  "toggle_checked t s =
     (if \<not> mt_discovered t \<or> \<not> mp_manage s then s
      else prefill_roles (s\<lparr>mp_checked := if mt_skill t \<in> set (mp_checked s) then js_remove (mt_skill t) (mp_checked s)
                                           else js_add (mt_skill t) (mp_checked s)\<rparr>))"

definition discovered_tools :: "mcp_panel \<Rightarrow> jstr list" where
  "discovered_tools s = map mt_skill (filter mt_discovered (default_to [] (mp_perms s)))"

definition toggle_all_discovered :: "mcp_panel \<Rightarrow> mcp_panel" where
  "toggle_all_discovered s =
     (if mp_perms s = None \<or> \<not> mp_manage s then s
      else
        (let ids = discovered_tools s;
             all_checked = (ids \<noteq> [] \<and> list_all (\<lambda>i. i \<in> set (mp_checked s)) ids)
         in prefill_roles (s\<lparr>mp_checked := if all_checked then foldl (\<lambda>c i. js_remove i c) (mp_checked s) ids
                                              else foldl (\<lambda>c i. js_add i c) (mp_checked s) ids\<rparr>)))"

definition checked_tools :: "mcp_panel \<Rightarrow> mcp_tool list" where
  "checked_tools s = filter (\<lambda>t. mt_skill t \<in> set (mp_checked s) \<and> mt_discovered t) (default_to [] (mp_perms s))"

definition toggle_role :: "int \<Rightarrow> mcp_panel \<Rightarrow> mcp_panel" where
  "toggle_role r s =
     (if \<not> mp_manage s \<or> mp_saving s then s
      else s\<lparr>mp_roles := if r \<in> set (mp_roles s) then filter (\<lambda>x. x \<noteq> r) (mp_roles s) else mp_roles s @ [r]\<rparr>)"

definition toggle_visible :: "bool \<Rightarrow> int list \<Rightarrow> mcp_panel \<Rightarrow> mcp_panel" where
  "toggle_visible checked visible s =
     (if \<not> mp_manage s \<or> mp_saving s then s
      else s\<lparr>mp_roles := if checked then foldl (\<lambda>c i. js_add i c) (foldl (\<lambda>c i. js_add i c) [] (mp_roles s)) visible
                else filter (\<lambda>x. x \<notin> set visible) (mp_roles s)\<rparr>)"

section \<open>Saving\<close>

definition save_concurrency :: nat where
  "save_concurrency = 3"

definition grant_of :: "int list \<Rightarrow> mcp_tool \<Rightarrow> grant_call" where
  "grant_of roles t = (mt_skill t, roles)"

definition on_save :: "mcp_panel \<Rightarrow> mcp_panel" where
  "on_save s =
     (let targets = checked_tools s in
      if targets = [] \<or> mp_saving s \<or> \<not> mp_manage s then s
      else
        (let w = run_with_concurrency targets save_concurrency in
         s\<lparr>mp_saving := True, mp_failures := [], mp_save_roles := mp_roles s, mp_save_server := mp_server s, mp_work := w,
           mp_sent := mp_sent s @ map (grant_of (mp_roles s)) (wk_flight w)\<rparr>))"

text \<open>Request \<open>i\<close> of those under way has ended; after the last one the tools are loaded again.\<close>

definition save_ended :: "nat \<Rightarrow> bool \<Rightarrow> mcp_panel \<Rightarrow> mcp_panel" where
  "save_ended i ok s =
     (if \<not> i < length (wk_flight (mp_work s)) then s
      else
        (let w = work_ended i (mp_work s);
             started = (case wk_queue (mp_work s) of [] \<Rightarrow> [] | x # _ \<Rightarrow> [grant_of (mp_save_roles s) x]);
             s1 = s\<lparr>mp_work := w, mp_sent := mp_sent s @ started,
                    mp_failures := mp_failures s @ (if ok then [] else [mt_name (wk_flight (mp_work s) ! i)])\<rparr>
         in if wk_flight w = [] then load_permissions (mp_save_server s) (s1\<lparr>mp_saving := False\<rparr>) else s1))"

section \<open>The queue serves every entry once\<close>

text \<open>\<open>n\<close> entries have been started and \<open>d\<close> of them have ended.\<close>

definition work_inv :: "'a list \<Rightarrow> nat \<Rightarrow> 'a work \<Rightarrow> nat \<Rightarrow> nat \<Rightarrow> bool" where
  "work_inv items limit w n d \<longleftrightarrow> n \<le> length items \<and> wk_queue w = drop n items \<and> length (wk_flight w) + d = n
     \<and> length (wk_flight w) \<le> limit \<and> (n < length items \<longrightarrow> wk_flight w \<noteq> [])"

lemma work_start: "limit > 0 \<Longrightarrow> work_inv items limit (run_with_concurrency items limit) (min limit (length items)) 0"
  by (cases items) (auto simp: work_inv_def run_with_concurrency_def Let_def max_def min_def)

lemma work_end:
  assumes "work_inv items limit w n d" "i < length (wk_flight w)"
  shows "work_inv items limit (work_ended i w) (min (Suc n) (length items)) (Suc d)"
proof (cases "wk_queue w")
  case Nil
  with assms show ?thesis by (auto simp: work_inv_def work_ended_def Let_def min_def)
next
  case (Cons x q)
  with assms(1) have n: "drop n items = x # q" "length (wk_flight w) + d = n" "length (wk_flight w) \<le> limit"
    by (simp_all add: work_inv_def)
  then have l: "n < length items" by (metis drop_all linorder_not_le list.distinct(1))
  from n(1) have "q = drop (Suc n) items" by (metis drop_Suc list.sel(3) tl_drop)
  moreover have "work_ended i w = \<lparr>wk_flight = take i (wk_flight w) @ drop (Suc i) (wk_flight w) @ [x], wk_queue = q\<rparr>"
    using Cons by (simp add: work_ended_def Let_def)
  ultimately show ?thesis using n l assms(2) by (simp add: work_inv_def min_def)
qed

section \<open>What a save sends\<close>

datatype mcp_event =
    Mcp_servers "jstr list"
  | Mcp_server jstr
  | Mcp_reload
  | Mcp_answer nat "jstr + mcp_tool list"
  | Mcp_toggle nat
  | Mcp_toggle_all
  | Mcp_role int
  | Mcp_visible bool "int list"
  | Mcp_save
  | Mcp_ended nat bool

fun mcp_do :: "mcp_event \<Rightarrow> mcp_panel \<Rightarrow> mcp_panel" where
  "mcp_do (Mcp_servers names) s = servers_answered names s"
| "mcp_do (Mcp_server n) s = choose_server n s"
| "mcp_do Mcp_reload s = load_permissions (mp_server s) s"
| "mcp_do (Mcp_answer i ans) s =
     (if i < length (mp_loads s) \<and> \<not> snd (mp_loads s ! i)
      then permissions_answered ans (s\<lparr>mp_loads := (mp_loads s)[i := (fst (mp_loads s ! i), True)]\<rparr>) else s)"
| "mcp_do (Mcp_toggle k) s =
     (if k < length (default_to [] (mp_perms s)) then toggle_checked (default_to [] (mp_perms s) ! k) s else s)"
| "mcp_do Mcp_toggle_all s = toggle_all_discovered s"
| "mcp_do (Mcp_role r) s = toggle_role r s"
| "mcp_do (Mcp_visible b rs) s = toggle_visible b rs s"
| "mcp_do Mcp_save s = on_save s"
| "mcp_do (Mcp_ended i ok) s = save_ended i ok s"

definition mcp_all :: "mcp_event list \<Rightarrow> mcp_panel \<Rightarrow> mcp_panel" where
  "mcp_all es s = foldl (\<lambda>s e. mcp_do e s) s es"

definition same_save :: "mcp_panel \<Rightarrow> mcp_panel \<Rightarrow> bool" where
  "same_save s t \<longleftrightarrow> mp_work t = mp_work s \<and> mp_sent t = mp_sent s \<and> mp_saving t = mp_saving s \<and> mp_save_roles t = mp_save_roles s"

lemma prefill_same_save: "same_save s t \<Longrightarrow> same_save s (prefill_roles t)"
  by (auto simp: same_save_def prefill_roles_def split: list.splits option.splits)

lemma load_same_save: "same_save s t \<Longrightarrow> same_save s (load_permissions n t)"
  by (simp add: same_save_def load_permissions_def)

lemma other_events_same_save: "e \<noteq> Mcp_save \<Longrightarrow> \<forall>i ok. e \<noteq> Mcp_ended i ok \<Longrightarrow> same_save s (mcp_do e s)"
  by (cases e)
    (auto simp: servers_answered_def choose_server_def permissions_answered_def toggle_checked_def toggle_all_discovered_def
      toggle_role_def toggle_visible_def Let_def intro!: prefill_same_save load_same_save split: sum.splits, auto simp: same_save_def)

text \<open>What holds while and after the targets are saved with the roles, when \<open>sent\<close> was sent before.\<close>

definition save_inv :: "grant_call list \<Rightarrow> mcp_tool list \<Rightarrow> int list \<Rightarrow> mcp_panel \<Rightarrow> bool" where
  "save_inv sent targets roles s \<longleftrightarrow>
     (\<exists>n d. work_inv targets save_concurrency (mp_work s) n d \<and> mp_sent s = sent @ map (grant_of roles) (take n targets))
     \<and> (mp_saving s \<longleftrightarrow> wk_flight (mp_work s) \<noteq> []) \<and> mp_save_roles s = roles"

lemma save_inv_start:
  assumes "checked_tools s \<noteq> []" "\<not> mp_saving s" "mp_manage s"
  shows "save_inv (mp_sent s) (checked_tools s) (mp_roles s) (on_save s)"
proof -
  let ?w = "run_with_concurrency (checked_tools s) save_concurrency" and ?n = "min save_concurrency (length (checked_tools s))"
  have "work_inv (checked_tools s) save_concurrency ?w ?n 0" by (rule work_start) (simp add: save_concurrency_def)
  moreover have "wk_flight ?w = take ?n (checked_tools s)" "wk_flight ?w \<noteq> []"
    using assms(1) by (cases "checked_tools s"; simp add: run_with_concurrency_def save_concurrency_def Let_def max_def)+
  ultimately show ?thesis using assms unfolding save_inv_def on_save_def Let_def
    by (intro conjI exI [of _ ?n] exI [of _ 0]) auto
qed

lemma save_inv_ended:
  assumes "save_inv sent targets roles s"
  shows "save_inv sent targets roles (save_ended i ok s)"
proof (cases "i < length (wk_flight (mp_work s))")
  case False
  with assms show ?thesis by (simp add: save_ended_def)
next
  case True
  from assms obtain n d where w: "work_inv targets save_concurrency (mp_work s) n d"
    "mp_sent s = sent @ map (grant_of roles) (take n targets)" "mp_save_roles s = roles" "mp_saving s"
    using True by (auto simp: save_inv_def)
  let ?w = "work_ended i (mp_work s)"
  have e: "work_inv targets save_concurrency ?w (min (Suc n) (length targets)) (Suc d)" by (rule work_end [OF w(1) True])
  have s: "mp_sent s @ (case wk_queue (mp_work s) of [] \<Rightarrow> [] | x # _ \<Rightarrow> [grant_of (mp_save_roles s) x])
      = sent @ map (grant_of roles) (take (min (Suc n) (length targets)) targets)"
  proof (cases "n < length targets")
    case True
    then have "wk_queue (mp_work s) = targets ! n # drop (Suc n) targets"
      using w(1) by (simp add: work_inv_def Cons_nth_drop_Suc)
    with w(2,3) True show ?thesis by (simp add: take_Suc_conv_app_nth min_def)
  next
    case False
    with w(1,2) show ?thesis by (simp add: work_inv_def)
  qed
  define t where "t = s\<lparr>mp_work := ?w, mp_sent := mp_sent s @ (case wk_queue (mp_work s) of [] \<Rightarrow> [] | x # _ \<Rightarrow> [grant_of (mp_save_roles s) x]),
    mp_failures := mp_failures s @ (if ok then [] else [mt_name (wk_flight (mp_work s) ! i)])\<rparr>"
  have "save_ended i ok s = (if wk_flight ?w = [] then load_permissions (mp_save_server s) (t\<lparr>mp_saving := False\<rparr>) else t)"
    using True by (simp add: save_ended_def t_def Let_def)
  moreover have "mp_work t = ?w" "mp_sent t = sent @ map (grant_of roles) (take (min (Suc n) (length targets)) targets)"
    "mp_save_roles t = roles" "mp_saving t"
    using w(3,4) by (simp_all add: t_def s)
  ultimately show ?thesis using e unfolding save_inv_def
    by (auto simp: load_permissions_def)
qed

lemma save_inv_all:
  "save_inv sent targets roles s \<Longrightarrow> Mcp_save \<notin> set es \<Longrightarrow> save_inv sent targets roles (mcp_all es s)"
proof (induction es arbitrary: s)
  case (Cons e es)
  have "save_inv sent targets roles (mcp_do e s)"
  proof (cases "\<exists>i ok. e = Mcp_ended i ok")
    case True
    with Cons.prems(1) save_inv_ended show ?thesis by auto
  next
    case False
    with Cons.prems(2) have "same_save s (mcp_do e s)" by (intro other_events_same_save) auto
    with Cons.prems(1) show ?thesis by (simp add: save_inv_def same_save_def)
  qed
  with Cons show ?case by (simp add: mcp_all_def)
qed (simp add: mcp_all_def)


section \<open>What goes wrong\<close>

text \<open>
  The roles are filled in only for a single tool. When all tools are checked at once after the list has
  come, the chosen roles are empty, and a save takes every tool away from every role.
\<close>

theorem saving_all_tools_revokes_them:
  assumes "mp_manage s" "\<not> mp_saving s" "mp_loads s = [(n, False)]" "distinct (map mt_skill tools)"
    and "list_all mt_discovered tools" "length tools \<ge> 2"
    and "t = mcp_all [Mcp_answer 0 (Inr tools), Mcp_toggle_all] s"
  shows "checked_tools t = tools \<and> mp_roles t = []"
proof -
  define u where "u = mcp_do (Mcp_answer 0 (Inr tools)) s"
  have u: "mp_perms u = Some tools" "mp_checked u = []" "mp_roles u = []" "mp_manage u"
    using assms(1,3) by (auto simp: u_def permissions_answered_def)
  obtain a b r where tools: "tools = a # b # r" using assms(6) by (metis One_nat_def Suc_1 Suc_le_length_iff)
  have d: "discovered_tools u = map mt_skill tools"
    using assms(5) u(1) by (simp add: discovered_tools_def filter_True list_all_iff)
  have add: "distinct (c @ xs) \<Longrightarrow> foldl (\<lambda>c i. js_add i c) c xs = c @ xs" for c xs :: "jstr list"
    by (induction xs arbitrary: c) (auto simp: js_add_def)
  have "toggle_all_discovered u = prefill_roles (u\<lparr>mp_checked := foldl (\<lambda>c i. js_add i c) [] (map mt_skill tools)\<rparr>)"
    using u d tools by (simp add: toggle_all_discovered_def Let_def)
  moreover have "foldl (\<lambda>c i. js_add i c) [] (map mt_skill tools) = map mt_skill tools" using add [of "[]"] assms(4) by simp
  moreover have "t = toggle_all_discovered u" using assms(7) by (simp add: mcp_all_def u_def)
  ultimately have "t = u\<lparr>mp_checked := map mt_skill tools\<rparr>" by (simp add: prefill_roles_def tools)
  then show ?thesis using u(1,3) assms(5) by (simp add: checked_tools_def filter_True list_all_iff)
qed

text \<open>The tools of a server are shown under the name of the server that was chosen after it.\<close>

theorem late_tools_under_other_server:
  assumes "a \<noteq> b" "a \<noteq> []" "b \<noteq> []" "mp_server s \<noteq> a" "mp_loads s = []"
    and "t = mcp_all [Mcp_server a, Mcp_server b, Mcp_answer 1 (Inr ts'), Mcp_answer 0 (Inr ts)] s"
  shows "mp_server t = b \<and> mp_perms t = Some ts"
  using assms by (simp add: mcp_all_def choose_server_def load_permissions_def permissions_answered_def)

definition sample_tools :: "mcp_tool list" where
  "sample_tools = [\<lparr>mt_name = js ''a'', mt_skill = js ''sa'', mt_code = js ''ca'', mt_discovered = True, mt_roles = [1]\<rparr>,
     \<lparr>mt_name = js ''b'', mt_skill = js ''sb'', mt_code = js ''cb'', mt_discovered = True, mt_roles = [2]\<rparr>]"

definition sample_panel :: mcp_panel where
  "sample_panel = mcp_all [Mcp_servers [js ''m''], Mcp_answer 0 (Inr sample_tools), Mcp_toggle 0, Mcp_toggle 1] (new_mcp_panel True)"


end
