(* ===== verification/User_Form.thy ===== *)
theory User_Form
  imports Js_Number Js_Map
begin

text \<open>
  The sheet of the user page, frontend/mis-admin-web/src/features/system/user/user-list-page.tsx: creating
  and editing a user, the binding to an employee, and the permissions of permission-tabs.tsx. Every request
  is a task that is answered later. Of an employee the name, the organisation and the posts that are shown
  are kept.
\<close>

section \<open>Data\<close>

record user_view =
  uv_id :: jstr
  uv_username :: jstr
  uv_real :: "jstr option"
  uv_employee :: "jstr option"
  uv_email :: "jstr option"
  uv_phone :: "jstr option"
  uv_app :: "jstr option"
  uv_org :: "jstr option"
  uv_dept :: "jstr option"
  uv_orgs :: "jstr list option"
  uv_depts :: "jstr list option"
  uv_roles :: "jstr list option"

record employee_match =
  em_id :: jstr
  em_real :: "jstr option"
  em_org :: "jstr option"
  em_posts :: "jstr list option"

record employee_item =
  ei_id :: jstr
  ei_real :: jstr
  ei_phone :: "jstr option"
  ei_email :: "jstr option"
  ei_org :: "jstr option"
  ei_posts :: "jstr list option"

record user_form =
  uf_username :: jstr
  uf_real :: jstr
  uf_employee :: jstr
  uf_employee_name :: jstr
  uf_email :: jstr
  uf_phone :: jstr
  uf_password :: jstr
  uf_app :: jstr
  uf_orgs :: "jstr list"
  uf_depts :: "jstr list"
  uf_roles :: "jstr list"

definition empty_user_form :: user_form where
  "empty_user_form = \<lparr>uf_username = [], uf_real = [], uf_employee = [], uf_employee_name = [], uf_email = [], uf_phone = [],
     uf_password = [], uf_app = [], uf_orgs = [], uf_depts = [], uf_roles = []\<rparr>"

datatype form_mode = Mode_create | Mode_edit | Mode_perms | Mode_detail

text \<open>A member of a request: absent, null or a value. A number is \<open>None\<close> when it is NaN.\<close>

datatype 'a member = Absent | Null | Value 'a

record create_user =
  cu_username :: jstr
  cu_app :: "int option"
  cu_real :: jstr
  cu_employee :: "int option member"
  cu_email :: "jstr member"
  cu_phone :: "jstr member"
  cu_password :: "jstr member"
  cu_roles :: "int option list"

record update_user =
  uu_username :: jstr
  uu_app :: "int option member"
  uu_employee :: "int option member"
  uu_real :: "jstr member"
  uu_email :: "jstr member"
  uu_phone :: "jstr member"
  uu_orgs :: "int option list member"
  uu_depts :: "int option list member"

text \<open>The requests under way; a look-up by phone keeps the form and the mode it was started with.\<close>

datatype user_task =
    Task_force
  | Task_employee jstr
  | Task_phone user_form form_mode
  | Task_create create_user
  | Task_update jstr update_user
  | Task_perms jstr update_user "int option list"
  | Task_roles jstr "int option list"

record user_page =
  up_open :: bool
  up_mode :: form_mode
  up_editing :: "user_view option"
  up_viewing :: "user_view option"
  up_form :: user_form
  up_errors :: "jstr list" \<comment> \<open>the members with an error\<close>
  up_matches :: "employee_match list"
  up_bound :: "employee_match option"
  up_force :: bool
  up_picker :: bool
  up_saving :: bool
  up_tasks :: "user_task list"

definition new_user_page :: user_page where
  "new_user_page = \<lparr>up_open = False, up_mode = Mode_create, up_editing = None, up_viewing = None, up_form = empty_user_form,
     up_errors = [], up_matches = [], up_bound = None, up_force = False, up_picker = False, up_saving = False,
     up_tasks = [Task_force]\<rparr>"

section \<open>Opening the sheet\<close>

definition add_task :: "user_task \<Rightarrow> user_page \<Rightarrow> user_page" where
  "add_task t s = s\<lparr>up_tasks := up_tasks s @ [t]\<rparr>"

definition load_force_bind :: "user_page \<Rightarrow> user_page" where
  "load_force_bind s = add_task Task_force s"

definition is_config_enabled :: "jstr option \<Rightarrow> bool" where
  "is_config_enabled v \<longleftrightarrow> (case v of Some s \<Rightarrow> to_lower (trim s) = js ''true'' | None \<Rightarrow> False)"

definition patch_user :: "jstr list \<Rightarrow> (user_form \<Rightarrow> user_form) \<Rightarrow> user_page \<Rightarrow> user_page" where
  "patch_user ks p s = s\<lparr>up_form := p (up_form s), up_errors := filter (\<lambda>k. k \<notin> set ks) (up_errors s)\<rparr>"

definition open_create :: "user_page \<Rightarrow> user_page" where
  "open_create s =
     (load_force_bind (s\<lparr>up_mode := Mode_create, up_editing := None, up_form := empty_user_form, up_errors := [],
        up_matches := [], up_bound := None, up_picker := False\<rparr>))\<lparr>up_open := True\<rparr>"

definition open_edit :: "user_view \<Rightarrow> user_page \<Rightarrow> user_page" where
  "open_edit row s =
     (let employee = default_to [] (uv_employee row);
          s1 = (load_force_bind (s\<lparr>up_mode := Mode_edit, up_editing := Some row,
            up_form := \<lparr>uf_username = uv_username row, uf_real = default_to [] (uv_real row), uf_employee = employee,
              uf_employee_name = default_to [] (uv_real row), uf_email = default_to [] (uv_email row),
              uf_phone = default_to [] (uv_phone row), uf_password = [], uf_app = default_to [] (uv_app row),
              uf_orgs = [], uf_depts = [], uf_roles = default_to [] (uv_roles row)\<rparr>,
            up_errors := [], up_matches := [],
            up_bound := if employee = [] then None
                        else Some \<lparr>em_id = employee, em_real = Some (default_to [] (uv_real row)), em_org = uv_org row, em_posts = None\<rparr>,
            up_picker := False\<rparr>))\<lparr>up_open := True\<rparr>
      in if employee = [] then s1 else add_task (Task_employee employee) s1)"

definition open_perms :: "user_view \<Rightarrow> user_page \<Rightarrow> user_page" where
  "open_perms row s =
     (let fallback = (\<lambda>ids i. case ids of Some l \<Rightarrow> l | None \<Rightarrow> (case nonempty i of Some j \<Rightarrow> [j] | None \<Rightarrow> []))
      in s\<lparr>up_mode := Mode_perms, up_editing := Some row,
           up_form := (up_form s)\<lparr>uf_app := default_to [] (uv_app row), uf_orgs := fallback (uv_orgs row) (uv_org row),
             uf_depts := fallback (uv_depts row) (uv_dept row), uf_roles := default_to [] (uv_roles row)\<rparr>,
           up_errors := [], up_open := True\<rparr>)"

definition open_view :: "user_view \<Rightarrow> user_page \<Rightarrow> user_page" where
  "open_view row s = s\<lparr>up_mode := Mode_detail, up_viewing := Some row, up_open := True\<rparr>"

definition close_sheet :: "user_page \<Rightarrow> user_page" where
  "close_sheet s = s\<lparr>up_open := False\<rparr>"

section \<open>The employee of a user\<close>

definition clear_employee :: "user_page \<Rightarrow> user_page" where
  "clear_employee s =
     (patch_user [js ''employeeId'', js ''employeeName''] (\<lambda>f. f\<lparr>uf_employee := [], uf_employee_name := []\<rparr>) s)\<lparr>up_bound := None\<rparr>"

text \<open>The name that was in the form \<open>f0\<close> wins over that of the employee.\<close>

definition bind_match :: "user_form \<Rightarrow> employee_match \<Rightarrow> user_page \<Rightarrow> user_page" where
  "bind_match f0 m s =
     (patch_user [js ''employeeId'', js ''employeeName'', js ''realName'']
        (\<lambda>f. f\<lparr>uf_employee := em_id m, uf_employee_name := default_to [] (em_real m),
               uf_real := if uf_real f0 \<noteq> [] then uf_real f0 else default_to [] (em_real m)\<rparr>) s)
     \<lparr>up_bound := Some m, up_matches := []\<rparr>"

definition check_phone :: "user_page \<Rightarrow> user_page" where
  "check_phone s =
     (if trim (uf_phone (up_form s)) = [] then (clear_employee s)\<lparr>up_matches := []\<rparr>
      else add_task (Task_phone (up_form s) (up_mode s)) s)"

definition phone_answered :: "user_form \<Rightarrow> employee_match list option \<Rightarrow> user_page \<Rightarrow> user_page" where
  "phone_answered f0 ans s =
     (case ans of
        None \<Rightarrow> s
      | Some [] \<Rightarrow> (clear_employee s)\<lparr>up_matches := []\<rparr>
      | Some [m] \<Rightarrow> bind_match f0 m s
      | Some ms \<Rightarrow> (clear_employee s)\<lparr>up_matches := ms\<rparr>)"

definition choose_phone_match :: "jstr \<Rightarrow> user_page \<Rightarrow> user_page" where
  "choose_phone_match i s =
     (case find (\<lambda>m. em_id m = i) (up_matches s) of None \<Rightarrow> s | Some m \<Rightarrow> bind_match (up_form s) m s)"

definition on_employee_picked :: "employee_item \<Rightarrow> user_page \<Rightarrow> user_page" where
  "on_employee_picked e s =
     (patch_user (map js [''employeeId'', ''employeeName'', ''phone'', ''realName'', ''email''])
        (\<lambda>f. f\<lparr>uf_employee := ei_id e, uf_employee_name := ei_real e, uf_phone := default_to [] (ei_phone e),
               uf_real := ei_real e, uf_email := default_to [] (ei_email e)\<rparr>) s)
     \<lparr>up_bound := Some \<lparr>em_id = ei_id e, em_real = Some (ei_real e), em_org = ei_org e, em_posts = nonempty (ei_posts e)\<rparr>\<rparr>"

definition open_employee_picker :: "user_page \<Rightarrow> user_page" where
  "open_employee_picker s = (if uf_app (up_form s) = [] then s else s\<lparr>up_picker := True\<rparr>)"

text \<open>The details that are loaded after the sheet was opened; the name is null-safe.\<close>

definition employee_answered :: "employee_match option \<Rightarrow> user_page \<Rightarrow> user_page" where
  "employee_answered ans s =
     (case (ans, up_bound s) of
        (Some e, Some b) \<Rightarrow> s\<lparr>up_bound := Some (b\<lparr>em_real := orelse (em_real e) (em_real b), em_org := orelse (em_org e) (em_org b),
          em_posts := nonempty (em_posts e)\<rparr>)\<rparr>
      | _ \<Rightarrow> s)"

section \<open>Permissions\<close>

datatype perm_key = Perm_org | Perm_dept | Perm_role

text \<open>\<open>checked\<close> is the state of the box before the click.\<close>

definition toggle_perm :: "perm_key \<Rightarrow> jstr \<Rightarrow> user_form \<Rightarrow> user_form" where
  "toggle_perm k i f =
     (let flip = (\<lambda>cur. if i \<in> set cur then filter (\<lambda>x. x \<noteq> i) cur else cur @ [i]) in
      case k of
        Perm_org \<Rightarrow> f\<lparr>uf_orgs := flip (uf_orgs f)\<rparr>
      | Perm_dept \<Rightarrow> f\<lparr>uf_depts := flip (uf_depts f)\<rparr>
      | Perm_role \<Rightarrow> f\<lparr>uf_roles := flip (uf_roles f)\<rparr>)"

datatype dept_node = Dept_node (dn_id: jstr) (dn_children: "dept_node list")

fun has_selected_descendant :: "jstr set \<Rightarrow> dept_node \<Rightarrow> bool" where
  "has_selected_descendant sel (Dept_node i cs) \<longleftrightarrow>
     list_ex (\<lambda>c. dn_id c \<in> sel) cs \<or> list_ex (has_selected_descendant sel) cs"

datatype box_state = Box_on | Box_half | Box_off

definition dept_box :: "jstr set \<Rightarrow> dept_node \<Rightarrow> box_state" where
  "dept_box sel n = (if dn_id n \<in> sel then Box_on else if has_selected_descendant sel n then Box_half else Box_off)"

section \<open>Saving\<close>

definition value_or_absent :: "jstr \<Rightarrow> jstr member" where
  "value_or_absent s = (if trim s = [] then Absent else Value (trim s))"

definition number_or_null :: "jstr \<Rightarrow> int option member" where
  "number_or_null s = (if s = [] then Null else Value (id_number s))"

definition create_payload :: "user_form \<Rightarrow> create_user" where
  "create_payload f = \<lparr>cu_username = trim (uf_username f), cu_app = id_number (uf_app f), cu_real = trim (uf_real f),
     cu_employee = (if uf_employee f = [] then Absent else Value (id_number (uf_employee f))),
     cu_email = value_or_absent (uf_email f), cu_phone = value_or_absent (uf_phone f), cu_password = value_or_absent (uf_password f),
     cu_roles = map id_number (uf_roles f)\<rparr>"

definition emp_fields_disabled :: "user_page \<Rightarrow> bool" where
  "emp_fields_disabled s \<longleftrightarrow> up_force s \<or> uf_employee (up_form s) \<noteq> []"

definition edit_payload :: "user_page \<Rightarrow> update_user" where
  "edit_payload s =
     (let f = up_form s; own = (\<lambda>v. if emp_fields_disabled s then Absent else value_or_absent v)
      in \<lparr>uu_username = trim (uf_username f), uu_app = number_or_null (uf_app f), uu_employee = number_or_null (uf_employee f),
         uu_real = own (uf_real f), uu_email = own (uf_email f), uu_phone = own (uf_phone f), uu_orgs = Absent, uu_depts = Absent\<rparr>)"

definition perms_payload :: "user_view \<Rightarrow> user_form \<Rightarrow> update_user" where
  "perms_payload u f = \<lparr>uu_username = uv_username u, uu_app = Absent, uu_employee = number_or_null (default_to [] (uv_employee u)),
     uu_real = Absent, uu_email = Absent, uu_phone = Absent, uu_orgs = Value (map id_number (uf_orgs f)),
     uu_depts = Value (map id_number (uf_depts f))\<rparr>"

definition save_done :: "user_page \<Rightarrow> user_page" where
  "save_done s = s\<lparr>up_saving := False, up_open := False\<rparr>"

definition on_save_user :: "user_page \<Rightarrow> user_page" where
  "on_save_user s =
     (let f = up_form s; s1 = s\<lparr>up_saving := True, up_errors := []\<rparr> in
      case (up_mode s, up_editing s) of
        (Mode_create, _) \<Rightarrow>
          if trim (uf_username f) = [] then s1\<lparr>up_errors := [js ''username''], up_saving := False\<rparr>
          else if uf_app f = [] then s1\<lparr>up_errors := [js ''appId''], up_saving := False\<rparr>
          else if up_force s \<and> uf_employee f = [] then s1\<lparr>up_saving := False\<rparr>
          else add_task (Task_create (create_payload f)) s1
      | (Mode_edit, Some u) \<Rightarrow> add_task (Task_update (uv_id u) (edit_payload s)) s1
      | (Mode_perms, Some u) \<Rightarrow> add_task (Task_perms (uv_id u) (perms_payload u f) (map id_number (uf_roles f))) s1
      | _ \<Rightarrow> save_done s1)"

text \<open>The code of an error of the server, or \<open>None\<close> for any other error, decides the member it is shown at.\<close>

definition save_failed :: "int option \<Rightarrow> user_page \<Rightarrow> user_page" where
  "save_failed code s =
     s\<lparr>up_saving := False,
       up_errors := (case code of
           None \<Rightarrow> up_errors s
         | Some c \<Rightarrow> [if c = 40901 then js ''username'' else if c = 40918 then js ''phone'' else if c = 40001 then js ''appId''
                       else js ''form''])\<rparr>"

definition user_answered :: "user_task \<Rightarrow> int option option \<Rightarrow> user_page \<Rightarrow> user_page" where
  "user_answered t failed s =
     (case failed of
        Some code \<Rightarrow> save_failed code s
      | None \<Rightarrow> (case t of Task_perms i p roles \<Rightarrow> add_task (Task_roles i roles) s | _ \<Rightarrow> save_done s))"

section \<open>Events\<close>

datatype form_input = In_username | In_real | In_email | In_phone | In_password | In_app

definition set_input :: "form_input \<Rightarrow> jstr \<Rightarrow> user_page \<Rightarrow> user_page" where
  "set_input k v s =
     (case k of
        In_username \<Rightarrow> patch_user [js ''username''] (\<lambda>f. f\<lparr>uf_username := v\<rparr>) s
      | In_real \<Rightarrow> patch_user [js ''realName''] (\<lambda>f. f\<lparr>uf_real := v\<rparr>) s
      | In_email \<Rightarrow> patch_user [js ''email''] (\<lambda>f. f\<lparr>uf_email := v\<rparr>) s
      | In_phone \<Rightarrow> patch_user [js ''phone''] (\<lambda>f. f\<lparr>uf_phone := v\<rparr>) s
      | In_password \<Rightarrow> patch_user [js ''password''] (\<lambda>f. f\<lparr>uf_password := v\<rparr>) s
      | In_app \<Rightarrow> patch_user [js ''appId''] (\<lambda>f. f\<lparr>uf_app := v\<rparr>) s)"

text \<open>The inputs that are enabled.\<close>

definition input_enabled :: "form_input \<Rightarrow> user_page \<Rightarrow> bool" where
  "input_enabled k s \<longleftrightarrow> up_open s \<and> up_mode s \<in> {Mode_create, Mode_edit} \<and>
     (case k of
        In_username \<Rightarrow> True
      | In_password \<Rightarrow> up_mode s = Mode_create
      | In_app \<Rightarrow> \<not> (up_mode s = Mode_edit \<and> uf_employee (up_form s) \<noteq> [])
      | _ \<Rightarrow> \<not> emp_fields_disabled s)"

datatype user_answer =
    Answer_force "jstr option"
  | Answer_employee "employee_match option"
  | Answer_phone "employee_match list option"
  | Answer_save "int option option"

datatype user_event =
    User_create
  | User_edit user_view
  | User_perms user_view
  | User_view user_view
  | User_close
  | User_input form_input jstr
  | User_check_phone
  | User_choose jstr
  | User_picker
  | User_pick employee_item
  | User_unbind
  | User_perm perm_key jstr
  | User_save
  | User_answer nat user_answer

definition task_answered :: "user_task \<Rightarrow> user_answer \<Rightarrow> user_page \<Rightarrow> user_page" where
  "task_answered t a s =
     (case (t, a) of
        (Task_force, Answer_force v) \<Rightarrow> s\<lparr>up_force := is_config_enabled v\<rparr>
      | (Task_employee i, Answer_employee e) \<Rightarrow> employee_answered e s
      | (Task_phone f0 m, Answer_phone ms) \<Rightarrow> phone_answered f0 ms s
      | (_, Answer_save e) \<Rightarrow> user_answered t e s
      | _ \<Rightarrow> s)"

definition form_shown_in :: "form_mode set \<Rightarrow> user_page \<Rightarrow> bool" where
  "form_shown_in ms s \<longleftrightarrow> up_open s \<and> up_mode s \<in> ms"

fun user_do :: "user_event \<Rightarrow> user_page \<Rightarrow> user_page" where
  "user_do User_create s = open_create s"
| "user_do (User_edit row) s = open_edit row s"
| "user_do (User_perms row) s = open_perms row s"
| "user_do (User_view row) s = open_view row s"
| "user_do User_close s = close_sheet s"
| "user_do (User_input k v) s = (if input_enabled k s then set_input k v s else s)"
| "user_do User_check_phone s = (if form_shown_in {Mode_create, Mode_edit} s \<and> \<not> up_force s then check_phone s else s)"
| "user_do (User_choose i) s = (if form_shown_in {Mode_create, Mode_edit} s then choose_phone_match i s else s)"
| "user_do User_picker s = (if form_shown_in {Mode_create, Mode_edit} s \<and> up_force s then open_employee_picker s else s)"
| "user_do (User_pick e) s = (if up_picker s then (on_employee_picked e s)\<lparr>up_picker := False\<rparr> else s)"
| "user_do User_unbind s = (if form_shown_in {Mode_create, Mode_edit} s \<and> \<not> up_force s then clear_employee s else s)"
| "user_do (User_perm k i) s =
     (if form_shown_in {Mode_perms} s
      then patch_user (map js [''orgIds'', ''deptIds'', ''roleIds'']) (toggle_perm k i) s else s)"
| "user_do User_save s = (if up_open s \<and> up_mode s \<noteq> Mode_detail \<and> \<not> up_saving s then on_save_user s else s)"
| "user_do (User_answer i a) s =
     (if i < length (up_tasks s)
      then task_answered (up_tasks s ! i) a (s\<lparr>up_tasks := take i (up_tasks s) @ drop (Suc i) (up_tasks s)\<rparr>) else s)"

definition user_all :: "user_event list \<Rightarrow> user_page \<Rightarrow> user_page" where
  "user_all es s = foldl (\<lambda>s e. user_do e s) s es"

section \<open>The employee that is shown\<close>

definition named_event :: "user_event \<Rightarrow> bool" where
  "named_event e \<longleftrightarrow>
     (case e of
        User_answer i (Answer_phone (Some ms)) \<Rightarrow> list_all (\<lambda>m. em_id m \<noteq> []) ms
      | User_pick e \<Rightarrow> ei_id e \<noteq> []
      | _ \<Rightarrow> True)"

definition bound_ok :: "user_page \<Rightarrow> bool" where
  "bound_ok s \<longleftrightarrow> list_all (\<lambda>m. em_id m \<noteq> []) (up_matches s)
     \<and> uf_employee (up_form s) = (case up_bound s of None \<Rightarrow> [] | Some b \<Rightarrow> em_id b)
     \<and> (\<forall>b. up_bound s = Some b \<longrightarrow> em_id b \<noteq> [])"

lemma add_task_fields [simp]:
  "up_form (add_task t s) = up_form s" "up_bound (add_task t s) = up_bound s" "up_matches (add_task t s) = up_matches s"
  "up_tasks (add_task t s) = up_tasks s @ [t]"
  by (simp_all add: add_task_def)

lemma patch_user_fields [simp]:
  "up_form (patch_user ks p s) = p (up_form s)" "up_bound (patch_user ks p s) = up_bound s"
  "up_matches (patch_user ks p s) = up_matches s"
  by (simp_all add: patch_user_def)

lemma bind_match_ok: "bound_ok s \<Longrightarrow> em_id m \<noteq> [] \<Longrightarrow> bound_ok (bind_match f0 m s)"
  by (simp add: bound_ok_def bind_match_def)

lemma clear_employee_ok: "bound_ok s \<Longrightarrow> bound_ok (clear_employee s)"
  by (simp add: bound_ok_def clear_employee_def)

lemma phone_answered_ok:
  "bound_ok s \<Longrightarrow> \<forall>ms. ans = Some ms \<longrightarrow> list_all (\<lambda>m. em_id m \<noteq> []) ms \<Longrightarrow> bound_ok (phone_answered f0 ans s)"
  by (auto simp: phone_answered_def bind_match_ok clear_employee_def split: option.splits list.splits) (auto simp: bound_ok_def)

lemma choose_phone_match_ok: "bound_ok s \<Longrightarrow> bound_ok (choose_phone_match i s)"
proof (cases "find (\<lambda>m. em_id m = i) (up_matches s)")
  case (Some m)
  then have "m \<in> set (up_matches s)" by (auto simp: find_Some_iff)
  moreover assume b: "bound_ok s"
  ultimately have "em_id m \<noteq> []" by (simp add: bound_ok_def list_all_iff)
  then have "bound_ok (bind_match (up_form s) m s)" by (rule bind_match_ok [OF b])
  with Some show ?thesis by (simp add: choose_phone_match_def)
qed (simp add: choose_phone_match_def)

lemma save_user_fields [simp]:
  "up_form (on_save_user s) = up_form s" "up_bound (on_save_user s) = up_bound s" "up_matches (on_save_user s) = up_matches s"
  by (auto simp: on_save_user_def save_done_def Let_def split: form_mode.splits option.splits)

lemma user_answered_fields [simp]:
  "up_form (user_answered t a s) = up_form s" "up_bound (user_answered t a s) = up_bound s"
  "up_matches (user_answered t a s) = up_matches s"
  by (auto simp: user_answered_def save_failed_def save_done_def split: option.splits user_task.splits)

lemma bound_okI: "up_form t = up_form s \<Longrightarrow> up_bound t = up_bound s \<Longrightarrow> up_matches t = up_matches s \<Longrightarrow> bound_ok s \<Longrightarrow> bound_ok t"
  by (simp add: bound_ok_def)

lemma task_answered_ok:
  assumes "bound_ok s" "\<forall>ms. a = Answer_phone (Some ms) \<longrightarrow> list_all (\<lambda>m. em_id m \<noteq> []) ms"
  shows "bound_ok (task_answered t a s)"
proof (cases a)
  case (Answer_phone ms)
  with assms show ?thesis by (cases t) (auto simp: task_answered_def intro!: phone_answered_ok)
next
  case (Answer_employee e)
  with assms show ?thesis
    by (cases t) (auto simp: task_answered_def employee_answered_def bound_ok_def split: option.splits)
next
  case (Answer_force v)
  with assms show ?thesis by (cases t) (auto simp: task_answered_def bound_ok_def)
next
  case (Answer_save e)
  with assms show ?thesis by (cases t) (auto simp: task_answered_def intro: bound_okI)
qed

lemma bound_ok_step:
  assumes "bound_ok s" "named_event e"
  shows "bound_ok (user_do e s)"
proof (cases e)
  case (User_answer i a)
  with assms show ?thesis
    by (auto simp: named_event_def intro!: task_answered_ok split: user_answer.splits option.splits) (auto simp: bound_ok_def)
next
  case (User_input k v)
  with assms show ?thesis by (cases k) (auto simp: set_input_def bound_ok_def)
next
  case (User_perm k i)
  with assms show ?thesis by (cases k) (auto simp: toggle_perm_def bound_ok_def Let_def)
next
  case (User_choose i)
  with assms choose_phone_match_ok show ?thesis by auto
next
  case User_save
  with assms show ?thesis by (auto intro: bound_okI)
qed (use assms in \<open>auto simp: bound_ok_def open_create_def open_edit_def open_perms_def open_view_def close_sheet_def
      load_force_bind_def check_phone_def clear_employee_def open_employee_picker_def on_employee_picked_def empty_user_form_def
      named_event_def Let_def\<close>)

lemma bound_ok_all: "bound_ok s \<Longrightarrow> list_all named_event es \<Longrightarrow> bound_ok (user_all es s)"
  by (induction es arbitrary: s) (simp_all add: user_all_def bound_ok_step)

text \<open>
  In every reachable state the employee whose data the sheet shows is the one that is stored: a request to
  create or update a user carries the identifier of the employee shown, or none when none is shown.
\<close>

theorem shown_employee_is_stored:
  assumes "list_all named_event es" "s = user_all es new_user_page"
  shows "cu_employee (create_payload (up_form s)) = (case up_bound s of None \<Rightarrow> Absent | Some b \<Rightarrow> Value (id_number (em_id b)))
    \<and> uu_employee (edit_payload s) = (case up_bound s of None \<Rightarrow> Null | Some b \<Rightarrow> Value (id_number (em_id b)))
    \<and> (up_bound s \<noteq> None \<longrightarrow> uu_real (edit_payload s) = Absent \<and> uu_email (edit_payload s) = Absent \<and> uu_phone (edit_payload s) = Absent)"
proof -
  have "bound_ok new_user_page" by (simp add: bound_ok_def new_user_page_def empty_user_form_def)
  then have "bound_ok s" unfolding assms(2) by (rule bound_ok_all) (rule assms(1))
  then show ?thesis
    by (auto simp: bound_ok_def create_payload_def edit_payload_def number_or_null_def emp_fields_disabled_def Let_def split: option.splits)
qed

definition sample_user :: user_view where
  "sample_user = \<lparr>uv_id = js ''5'', uv_username = js ''li'', uv_real = Some (js ''Li''), uv_employee = Some (js ''9''), uv_email = None,
     uv_phone = None, uv_app = Some (js ''1''), uv_org = None, uv_dept = None, uv_orgs = Some [js ''2''], uv_depts = Some [], uv_roles = None\<rparr>"

theorem shown_employee_is_stored_witness:
  "uu_employee (edit_payload (user_all [User_edit sample_user] new_user_page)) = Value (id_number (js ''9''))"
proof -
  have n: "list_all named_event [User_edit sample_user]" by (simp add: named_event_def)
  have "up_bound (user_all [User_edit sample_user] new_user_page)
      = Some \<lparr>em_id = js ''9'', em_real = Some (js ''Li''), em_org = None, em_posts = None\<rparr>"
    by (simp add: user_all_def open_edit_def load_force_bind_def sample_user_def js_def Let_def)
  with shown_employee_is_stored [OF n refl] show ?thesis by simp
qed

section \<open>Late answers\<close>

text \<open>
  A look-up of a phone number is not tied to the user it was started for: when another user is edited before
  the answer comes, that user gets the employee, and saving stores it.
\<close>

theorem late_match_binds_other_user:
  assumes "\<not> up_force s" "up_tasks s = []" "uv_employee a = None" "uv_phone a = Some p" "trim p \<noteq> []" "uv_employee b = None"
    and "em_id m \<noteq> []" "\<not> up_saving s"
    and "t = user_all [User_edit a, User_check_phone, User_close, User_edit b, User_answer 1 (Answer_phone (Some [m])), User_save] s"
  shows "\<exists>pl. Task_update (uv_id b) pl \<in> set (up_tasks t) \<and> uu_employee pl = Value (id_number (em_id m))"
  using assms
  by (simp add: user_all_def open_edit_def load_force_bind_def add_task_def form_shown_in_def check_phone_def close_sheet_def
      task_answered_def phone_answered_def bind_match_def patch_user_def on_save_user_def edit_payload_def number_or_null_def Let_def)

text \<open>The details of the employee of one user are shown for the employee of the next.\<close>

theorem late_details_of_other_employee:
  assumes "up_tasks s = []" "uv_employee a = Some i" "i \<noteq> []" "uv_employee b = Some j" "j \<noteq> []" "em_real e = Some n"
    and "t = user_all [User_edit a, User_edit b, User_answer 1 (Answer_employee (Some e))] s"
  shows "\<exists>bd. up_bound t = Some bd \<and> em_id bd = j \<and> em_real bd = Some n \<and> em_posts bd = nonempty (em_posts e)"
  using assms
  by (simp add: user_all_def open_edit_def load_force_bind_def add_task_def task_answered_def employee_answered_def Let_def)

section \<open>Permissions\<close>

text \<open>
  The permissions that are opened and saved without a click are stored unchanged, and the employee with them.
\<close>

theorem untouched_permissions_are_kept:
  assumes "uv_orgs u = Some os" "uv_depts u = Some ds" "\<not> up_saving s" "t = user_all [User_perms u, User_save] s"
  shows "\<exists>pl. up_tasks t = up_tasks s @ [Task_perms (uv_id u) pl (map id_number (default_to [] (uv_roles u)))]
    \<and> uu_orgs pl = Value (map id_number os) \<and> uu_depts pl = Value (map id_number ds)
    \<and> uu_employee pl = number_or_null (default_to [] (uv_employee u))"
  using assms
  by (simp add: user_all_def open_perms_def on_save_user_def perms_payload_def add_task_def Let_def)

fun dept_subtree :: "dept_node \<Rightarrow> jstr list" where
  "dept_subtree (Dept_node i cs) = i # concat (map dept_subtree cs)"

lemma has_selected_descendant_iff: "has_selected_descendant sel n \<longleftrightarrow> (\<exists>i \<in> set (tl (dept_subtree n)). i \<in> sel)"
proof (induction n)
  case (Dept_node i cs)
  have root: "dn_id c \<in> set (dept_subtree c)" "set (dept_subtree c) = insert (dn_id c) (set (tl (dept_subtree c)))" for c
    by (cases c; simp)+
  have "has_selected_descendant sel (Dept_node i cs)
      \<longleftrightarrow> (\<exists>c \<in> set cs. dn_id c \<in> sel \<or> (\<exists>j \<in> set (tl (dept_subtree c)). j \<in> sel))"
    using Dept_node.IH by (auto simp: list_ex_iff)
  also have "\<dots> \<longleftrightarrow> (\<exists>c \<in> set cs. \<exists>j \<in> set (dept_subtree c). j \<in> sel)"
    by (simp add: root(2))
  also have "\<dots> \<longleftrightarrow> (\<exists>j \<in> set (tl (dept_subtree (Dept_node i cs))). j \<in> sel)" by auto
  finally show ?case .
qed

text \<open>
  The three states of a box: on when the department itself is chosen, half when it is not but one below it
  is, off when nothing in its tree is.
\<close>

theorem dept_box_states:
  "dept_box sel n = Box_on \<longleftrightarrow> dn_id n \<in> sel"
  "dept_box sel n = Box_off \<longleftrightarrow> (\<forall>i \<in> set (dept_subtree n). i \<notin> sel)"
  by (cases n, force simp: dept_box_def has_selected_descendant_iff)+

end
