(* ===== verification/Spec2Isabelle.thy ===== *)
theory Spec2Isabelle
  imports Js_Prelude Js_Map Redis_Kv Ownership Lease_Cluster Redis_Stream Retry Rate_Limit Channel
    Bot_Cards Agent_Event Bot_Mapper Event_Transformer Message_Router Wecom_Client Wecom_Adapter Bot_Registry
    Bot_Config Gateway Js_Bytes Wecom_Crypto Auth Log_Mask
    H5_Adapter Wecom_Token Tab_Store Dept_Tree Pierce_Load Nav_Menu Client_Sort
    Js_Json Card_Adapter Last_Session Session_Adapter Chat_Store Chat_Hook Chat_Run Chat_Reply Chat_Link
    Api_Client Session_Renewal Auth_Store Page_Guard Embed_Auth Skill_Builder Column_Widths Desensitize Ai_Stream Skill_Fill
    Category_Tree Js_Number Role_Menus Js_Text Coordination Synonym_Drawer Synonym_Import Kb_Qa
    Library_Combobox Library_Delete Agent_Console Mcp_Permissions User_Form
begin

text \<open>
  Verification development of the TypeScript programs of the platform: the gateway of the AI platform
  (src/agent/ai-platform/gateway/src), the chat frontend (src/agent/ai-platform/frontend/src) and the
  administration frontend (src/frontend/mis-admin-web/src). File names below are relative to these.

  The programs. The gateway sits between the chat channels (three H5 web channels and the WeCom
  bots) and the agent core, a Python service it talks to through Redis. An inbound message
  comes from a bot's WebSocket (adapters/wecom) or an H5 page; \<open>MessageRouter.route\<close> writes it to
  a Redis stream, the one of the agent the session is bound to or the one of its channel. The
  agent core answers with agent events on an outbound stream of the gateway; the consumer
  (queue/redisStream.ts) reads them in a consumer group and calls back index.ts, which hands
  each event to the bot registry (channels/BotRegistry.ts) or to an H5 adapter. Several
  gateways run side by side; for every bot exactly one of them holds a lease in Redis
  (cluster/ownership.ts), and only that one keeps the bot's WebSocket. The registry converges
  the running bots to the list of wanted ones under these leases. The chat frontend opens a socket
  to the H5 adapter with its token, assembles the events it gets into messages (hooks/useChat.ts)
  and renews its login over HTTP (utils/api.ts). The administration frontend shows the chat frontend
  in a frame and passes its own login on by messages between the windows; for itself it has two HTTP
  clients, tabs, menus, tables, the department tree and the helpers of its assistant.

  Theories and what they model.
  \<^item> Js_Prelude, Js_Map, Js_Bytes, Js_Json, Js_Number, Js_Text: ECMAScript strings as lists of UTF-16 code
    units and the string methods the code calls, decimal numbers in strings, lines and trimmed lists, values of type \<open>unknown\<close>, \<open>Map\<close> and \<open>Set\<close> as lists in insertion
    order, UTF-8, and the laws of JSON. The locale \<open>keyed_store\<close> is the contract of a map, with the
    bounded table and bulk updates proved from it; \<open>js_map\<close> interprets it on the association lists
    the components use.
  \<^item> Redis_Kv: the server commands on single keys as a record of functions over an arbitrary
    server state; the locale \<open>redis_kv\<close> states their documented behaviour (expiry included) and
    \<open>mem_ops\<close> is a concrete server that satisfies it.

  The gateway:
  \<^item> Ownership, Lease_Cluster: cluster/ownership.ts. Ownership has one definition per operation
    (\<open>ow_claim\<close>, \<open>ow_renew\<close>, \<open>ow_release_all\<close>, \<open>ow_heartbeat_tick\<close>, ...) on the record
    \<open>ownership\<close>; the locale \<open>lease_service\<close> is the abstract lease they implement. Lease_Cluster
    interleaves any number of gateways at the server commands as an inductive step relation.
  \<^item> Redis_Stream: queue/redisStream.ts. The producer's fields and their reading back, and the
    consumer as a record with its streams, groups and the reclaim loop.
  \<^item> Rate_Limit: middleware/rateLimit.ts, compared with an abstract sliding window.
  \<^item> Retry: utils/retry.ts, with rational delays and the attempted call acting on a world.
  \<^item> Channel: channels/ChannelCapability.ts, channels/CapabilityRegistry.ts, router/ChannelResolver.ts.
  \<^item> Agent_Event, Bot_Cards, Bot_Mapper, Event_Transformer: the way of an agent event to a card,
    router/agentEventParser.ts, adapters/wecom/WecomBotCardBuilder.ts, router/BotEventMapper.ts,
    router/EventTransformer.ts. The locale \<open>text_buffer\<close> is the contract of the mapper's buffer
    of streamed text, which the transformer relies on.
  \<^item> Message_Router: router/MessageRouter.ts and the callback of the outbound stream in index.ts.
  \<^item> Wecom_Client: adapters/wecom/WecomBotClient.ts. Its promise continuations are queued jobs in
    the record \<open>client\<close>, and \<open>wc_step\<close> is the event loop: method calls, socket events, frames,
    timers, and one queued continuation at a time before the next event.
  \<^item> Wecom_Adapter, Wecom_Token, H5_Adapter: adapters/wecom/WecomBotAdapter.ts; WecomAppMessage.ts and
    WecomJSSDKHelper.ts; adapters/h5/H5Adapter.ts, WecomH5Adapter.ts and the chat endpoint of server.ts.
  \<^item> Bot_Config, Bot_Registry, Gateway: config/botConfigSource.ts; channels/BotRegistry.ts over an
    arbitrary world of adapters and over one made of \<open>Wecom_Client\<close> connections; and the composition in
    index.ts of registry, coordinator, heartbeat, polling and shutdown.
  \<^item> Wecom_Crypto, Auth, Log_Mask: utils/crypto.ts, middleware/auth.ts, the masking of middleware/logger.ts.

  The chat frontend:
  \<^item> Card_Adapter, Session_Adapter, Last_Session: utils/cardAdapter.ts, utils/sessionAdapter.ts,
    utils/lastSession.ts.
  \<^item> Chat_Store: store/chatStore.ts, store/approvalStore.ts and the connection of hooks/useApproval.ts.
  \<^item> Chat_Hook, Chat_Run, Chat_Reply, Chat_Link: hooks/useChat.ts as operations on references, timers
    and sockets; its runs; the assembly of a reply; and what of the gateway's events reaches it.
  \<^item> Api_Client: utils/api.ts and the administration frontend's lib/api/client.ts, each a state machine
    over the calls under way and the renewal of the token. Session_Renewal: several clients of one
    page (lib/api/client.ts and features/agent/api/agent-chat-api.ts) and the server's rotation of
    refresh tokens.
  \<^item> Auth_Store, Page_Guard: store/authStore.ts; routes/router.tsx and routes/AppRoutes.tsx with the
    pages that read the stored login.

  The administration frontend:
  \<^item> Embed_Auth: components/layout/copilot-panel.tsx and the chat frontend's
    components/EmbedAuthBridge.tsx as two windows with messages on their way and strangers.
  \<^item> Tab_Store, Nav_Menu, Client_Sort, Column_Widths: stores/tab-store.ts; lib/nav; use-client-sort.ts
    and use-column-widths.ts of components/common.
  \<^item> Dept_Tree, Pierce_Load: the rows of the department tree, its clicks and its request cache
    (features/system/dept).
  \<^item> Category_Tree: the categories of the knowledge base, their tree, options and the move dialog
    (features/kb/category).
  \<^item> Role_Menus, Coordination: the menus assigned to a role, features/system/role/role-list-page.tsx; the
    coordination of an agent with the confirmation of a change of role,
    features/agent/agents/agent-coordination-page.tsx and components/agent-confirm-dialog.tsx.
  \<^item> Synonym_Drawer, Synonym_Import: kb-synonym-drawer.tsx and kb-synonym-import-dialog.tsx of
    features/kb/synonym, with every answer of the server as a step of its own.
  \<^item> Kb_Ask, Kb_Qa: \<open>askKbRagStream\<close> and \<open>askKbRag\<close> of features/kb/api/kb-api.ts as a machine over
    frames, and the page features/kb/qa/kb-qa-page.tsx, whose runs act on it when their frames come.
  \<^item> Library_Combobox, Library_Delete: features/kb/components/kb-library-combobox.tsx with its keyboard and
    requests; features/kb/library/kb-library-delete-dialog.tsx with its two steps of confirmation.
  \<^item> Agent_Console, Mcp_Permissions: features/agent/chat/agent-chat-page.tsx, a turn cut at its waits;
    features/agent/mcp/agent-mcp-permission-panel.tsx, with the queue that bounds the requests of a save.
  \<^item> User_Form: the sheet of features/system/user/user-list-page.tsx, its binding to an employee, and the
    boxes of permission-tabs.tsx.
  \<^item> Skill_Builder, Skill_Fill, Ai_Stream, Desensitize: features/agent/skills/skill-builder-utils.ts;
    features/ai/hooks; lib/api/sse-client.ts with features/ai/ai-sse-client.ts and use-ai.ts;
    features/ai/lib/desensitize.ts.

  What the lemmas show. For each component: the invariant its operations keep (map and lease
  invariants, the recorded owner, the states of a connection, tabs, sockets, calls), what each
  operation does on every branch, and the property it exists for: mutual exclusion and liveness
  of the lease, equality of the limiter with a sliding window, round trips of messages, events,
  sessions and layouts, one bounded card per streamed reply, convergence and idempotence of
  \<open>reconcile\<close>, a reply that is the concatenation of its events, calls that are sent at most twice, a
  handshake that logs in the right user and only that one, category and menu trees that are complete, a
  change of role or an import that is confirmed for what is stored, a turn that shows exactly the
  streamed text. Where the code does not do what it
  means to, the behaviour is stated as it is: a stale renewal can extend another gateway's lease, a
  stopped bot connection revives, \<open>WecomCrypto.decrypt\<close> rejects genuine messages, two HTTP clients on
  one page log each other out, the stored login is never restored, a lost connection hangs the turn, late answers of
  the pages of roles, users, synonyms, questions, libraries and agents act on what was opened after them.

  Parameters and bounds. Redis, the WebSocket library, base64, signatures, JSON, random identifiers,
  the clock, the layout of a page and logging are not part of the repository: they are arguments
  (\<open>R\<close>, \<open>E\<close>, \<open>L\<close>, \<open>B\<close>, \<open>parse\<close>, \<open>now\<close>, ...) and their documented laws are hypotheses or locale
  assumptions, each satisfied by a concrete instance in a witness. JSON reads back what it wrote of
  values without \<open>undefined\<close> whose keys are in the order of the language. No definition uses fuel: loops
  over lists are structural recursion, searches recurse on the text that is left, the retry loop
  on the attempts that are left, and endless loops are modelled by one pass together with their
  exit conditions; the recursive renderings of the department and category trees and the walk to the ancestors
  of a menu may not end and are partial functions. Numbers are mathematical integers and rationals where the code stays within the exact
  range of a double. A rejected promise is \<open>None\<close> or a flag, a thrown error a value of a sum type.
  Concurrency is modelled where correctness depends on it: Lease_Cluster, the event loops of
  Wecom_Client and Chat_Hook, the calls under way in Api_Client, the windows of Embed_Auth; other
  operations run to their end before the next event. React renders and effects are explicit steps.

  Not modelled. Start and shutdown of the gateway's process and its remaining HTTP routes, the
  third-party local rate limiter and log output. Of the frontends: what a view renders, tables with
  server-side pages and forms that pass their members to one call (the list pages of users,
  organisations, dictionaries, libraries, documents, sessions, synonyms and tickets), the functions
  that wrap one HTTP call and the type declarations without behaviour, which are most of the lines of
  features; the menu and module pages, the sources and the markdown of the chat
  frontend (utils/kbSources.ts, utils/markdownNormalize.ts), whose regular expressions would need a
  model of their own. Code in other languages (the Python agent core, the Java platform, of which only
  the rotation of refresh tokens appears).
\<close>

end
